(* ===== verification/Prelude.thy ===== *)
theory Prelude
  imports Main
begin

text \<open>
  Shared vocabulary of the development: points in time, the wire errors of
  \<^verbatim>\<open>server/internal/platform/httpx\<close>, and the generic lemmas on row tables, de-duplication
  and runs that the component theories share.

  Conventions. A Go \<^verbatim>\<open>time.Time\<close> or \<^verbatim>\<open>time.Duration\<close> is an \<^typ>\<open>int\<close> number of
  nanoseconds. A Go \<^verbatim>\<open>string\<close> is a list of bytes (\<^typ>\<open>string\<close>). A database table is a
  list of rows in insertion order. A store call that fails for infrastructure reasons
  (connection loss, a rolled-back transaction) leaves the tables as they were; each handler
  takes a parameter \<open>down\<close> that says which of its store calls fail that way.
\<close>

section \<open>Collections of simplification rules\<close>

named_theorems table_simps \<open>laws of row tables\<close>
named_theorems svc_simps \<open>definitions of service-level helpers\<close>

section \<open>Time\<close>

type_synonym instant = int
type_synonym duration = int

definition Millisecond :: duration where "Millisecond = 1000000"
definition Second :: duration where "Second = 1000 * Millisecond"
definition Minute :: duration where "Minute = 60 * Second"
definition Hour :: duration where "Hour = 60 * Minute"

lemmas time_units = Millisecond_def Second_def Minute_def Hour_def

definition UnixMilli :: "instant \<Rightarrow> int" where
  "UnixMilli t = t div 1000000"

definition Unix :: "instant \<Rightarrow> int" where
  "Unix t = t div 1000000000"

lemma UnixMilli_mono: "s \<le> t \<Longrightarrow> UnixMilli s \<le> UnixMilli t"
  by (simp add: UnixMilli_def zdiv_mono1)

lemma Unix_mono: "s \<le> t \<Longrightarrow> Unix s \<le> Unix t"
  by (simp add: Unix_def zdiv_mono1)

section \<open>Wire errors\<close>

text \<open>
  \<^verbatim>\<open>httpx.APIError\<close>. The human-readable message is never inspected by the code and the
  \<^verbatim>\<open>RetryAfter\<close> hint is only set by the rate limiter; neither is part of the model.
\<close>

datatype api_error = APIError (Code: string) (Status: nat) (Retryable: bool)

type_synonym 'a result = "api_error + 'a"

definition Reject :: "nat \<Rightarrow> string \<Rightarrow> api_error" where
  "Reject status code = APIError code status False"

definition Transient :: api_error where
  "Transient = APIError ''TRANSIENT_UNAVAILABLE'' 503 True"

text \<open>\<^verbatim>\<open>WriteError\<close> renders any other error like this.\<close>

definition Internal :: api_error where
  "Internal = APIError ''INTERNAL'' 500 True"

lemma Reject_inject [simp]: "Reject a c = Reject b d \<longleftrightarrow> a = b \<and> c = d"
  by (auto simp: Reject_def)

lemma Reject_not_Transient [simp]: "Reject a c \<noteq> Transient" "Transient \<noteq> Reject a c"
  by (simp_all add: Reject_def Transient_def)

lemma Retryable_Reject [simp]: "\<not> Retryable (Reject a c)" "Retryable Transient"
  by (simp_all add: Reject_def Transient_def)

section \<open>Identities\<close>

text \<open>\<^verbatim>\<open>auth.Identity\<close>: the authenticated caller of a handler.\<close>

record identity =
  UserID :: string
  DeviceID :: string
  SessionID :: string

section \<open>Row tables\<close>

text \<open>
  \<open>tbl_get\<close> is a \<^verbatim>\<open>SELECT\<close> of the row with a key, \<open>tbl_ins\<close> an \<^verbatim>\<open>INSERT\<close> that violates the
  primary key when the key is taken (\<open>None\<close>), \<open>tbl_upd\<close> an \<^verbatim>\<open>UPDATE ... WHERE key\<close> and
  \<open>tbl_del\<close> a \<^verbatim>\<open>DELETE ... WHERE key\<close>. \<open>tbl_wf\<close> is the primary-key constraint.
\<close>

definition tbl_get :: "('r \<Rightarrow> 'k) \<Rightarrow> 'k \<Rightarrow> 'r list \<Rightarrow> 'r option" where
  "tbl_get key k rows = find (\<lambda>r. key r = k) rows"

definition tbl_ins :: "('r \<Rightarrow> 'k) \<Rightarrow> 'r \<Rightarrow> 'r list \<Rightarrow> 'r list option" where
  "tbl_ins key r rows = (if key r \<in> key ` set rows then None else Some (rows @ [r]))"

definition tbl_upd :: "('r \<Rightarrow> 'k) \<Rightarrow> 'k \<Rightarrow> ('r \<Rightarrow> 'r) \<Rightarrow> 'r list \<Rightarrow> 'r list" where
  "tbl_upd key k f rows = map (\<lambda>r. if key r = k then f r else r) rows"

definition tbl_del :: "('r \<Rightarrow> 'k) \<Rightarrow> 'k \<Rightarrow> 'r list \<Rightarrow> 'r list" where
  "tbl_del key k rows = filter (\<lambda>r. key r \<noteq> k) rows"

definition tbl_wf :: "('r \<Rightarrow> 'k) \<Rightarrow> 'r list \<Rightarrow> bool" where
  "tbl_wf key rows \<longleftrightarrow> distinct (map key rows)"

lemma tbl_get_Nil [simp]: "tbl_get key k [] = None"
  by (simp add: tbl_get_def)

lemma tbl_get_Cons: "tbl_get key k (r # rs) = (if key r = k then Some r else tbl_get key k rs)"
  by (simp add: tbl_get_def)

lemma tbl_get_Some: "tbl_get key k rows = Some r \<Longrightarrow> r \<in> set rows \<and> key r = k"
  by (auto simp: tbl_get_def find_Some_iff)

lemma tbl_get_key: "tbl_get key k rows = Some r \<Longrightarrow> key r = k"
  using tbl_get_Some by fast

lemma tbl_get_mem: "tbl_get key k rows = Some r \<Longrightarrow> k \<in> key ` set rows"
  using tbl_get_Some by fast

lemma tbl_get_None [table_simps]: "tbl_get key k rows = None \<longleftrightarrow> k \<notin> key ` set rows"
  by (auto simp: tbl_get_def find_None_iff)

lemma tbl_get_fresh: "k \<notin> key ` set rows \<Longrightarrow> tbl_get key k rows = None"
  by (simp add: tbl_get_None)

lemma tbl_get_append:
  "tbl_get key k (xs @ ys) = (case tbl_get key k xs of None \<Rightarrow> tbl_get key k ys | Some r \<Rightarrow> Some r)"
  by (induction xs) (auto simp: tbl_get_Cons)

lemma tbl_get_wf: "tbl_wf key rows \<Longrightarrow> r \<in> set rows \<Longrightarrow> tbl_get key (key r) rows = Some r"
  by (induction rows) (auto simp: tbl_wf_def tbl_get_Cons)

lemma filter_key_wf: "tbl_wf key rows \<Longrightarrow> x \<in> set rows \<Longrightarrow> filter (\<lambda>r. key r = key x) rows = [x]"
proof (induction rows)
  case (Cons a rows)
  show ?case
  proof (cases "a = x")
    case True
    then have "\<forall>r\<in>set rows. key r \<noteq> key x" using Cons.prems(1) by (auto simp: tbl_wf_def image_iff)
    with True show ?thesis by (simp add: filter_empty_conv)
  next
    case False
    with Cons.prems have "x \<in> set rows" by simp
    then have "key a \<noteq> key x" using Cons.prems(1) by (auto simp: tbl_wf_def image_iff)
    with Cons \<open>x \<in> set rows\<close> show ?thesis by (simp add: tbl_wf_def)
  qed
qed simp

lemma tbl_get_upd:
  assumes "\<And>r. key (f r) = key r"
  shows "tbl_get key k' (tbl_upd key k f rows)
    = (if k' = k then map_option f (tbl_get key k rows) else tbl_get key k' rows)"
  by (induction rows) (auto simp: tbl_upd_def tbl_get_Cons assms)

lemma tbl_get_del:
  "tbl_get key k' (tbl_del key k rows) = (if k' = k then None else tbl_get key k' rows)"
  by (induction rows) (auto simp: tbl_del_def tbl_get_Cons)

lemma tbl_ins_Some:
  "tbl_ins key r rows = Some rows' \<longleftrightarrow> key r \<notin> key ` set rows \<and> rows' = rows @ [r]"
  by (auto simp: tbl_ins_def)

lemma tbl_get_ins:
  "tbl_ins key r rows = Some rows' \<Longrightarrow>
   tbl_get key k rows' = (if k = key r then Some r else tbl_get key k rows)"
  by (cases "tbl_get key k rows")
    (auto simp: tbl_ins_Some tbl_get_append tbl_get_Cons tbl_get_fresh)

lemma map_key_upd:
  assumes "\<And>r. key (f r) = key r"
  shows "map key (tbl_upd key k f rows) = map key rows"
  by (simp add: tbl_upd_def assms)

lemma tbl_wf_Nil [simp]: "tbl_wf key []"
  by (simp add: tbl_wf_def)

lemma tbl_wf_ins: "tbl_wf key rows \<Longrightarrow> tbl_ins key r rows = Some rows' \<Longrightarrow> tbl_wf key rows'"
  by (auto simp: tbl_wf_def tbl_ins_Some)

lemma tbl_wf_upd:
  assumes "\<And>r. key (f r) = key r" and "tbl_wf key rows"
  shows "tbl_wf key (tbl_upd key k f rows)"
  using assms(2) by (simp add: tbl_wf_def map_key_upd assms(1))

lemma tbl_wf_map:
  assumes "\<And>r. key (f r) = key r" and "tbl_wf key rows"
  shows "tbl_wf key (map f rows)"
proof -
  have "map key (map f rows) = map key rows"
    by (simp add: assms(1))
  with assms(2) show ?thesis
    unfolding tbl_wf_def by metis
qed

lemma tbl_wf_del: "tbl_wf key rows \<Longrightarrow> tbl_wf key (tbl_del key k rows)"
  by (auto simp: tbl_wf_def tbl_del_def distinct_map_filter)

lemma set_tbl_upd: "set (tbl_upd key k f rows) = (\<lambda>r. if key r = k then f r else r) ` set rows"
  by (simp add: tbl_upd_def)

lemma set_tbl_del [simp]: "set (tbl_del key k rows) = {r \<in> set rows. key r \<noteq> k}"
  by (simp add: tbl_del_def)

lemma tbl_upd_absent: "k \<notin> key ` set rows \<Longrightarrow> tbl_upd key k f rows = rows"
  by (induction rows) (auto simp: tbl_upd_def)

lemma length_tbl_upd [simp]: "length (tbl_upd key k f rows) = length rows"
  by (simp add: tbl_upd_def)

section \<open>Order by and limit\<close>

text \<open>
  \<^verbatim>\<open>ORDER BY f DESC\<close>. Where rows tie, the order is unspecified in SQL; the model keeps the
  insertion order.
\<close>

definition order_desc :: "('r \<Rightarrow> int) \<Rightarrow> 'r list \<Rightarrow> 'r list" where
  "order_desc f rows = sort_key (\<lambda>r. - f r) rows"

definition order_asc :: "('r \<Rightarrow> int) \<Rightarrow> 'r list \<Rightarrow> 'r list" where
  "order_asc f rows = sort_key f rows"

lemma set_order_desc [simp]: "set (order_desc f rows) = set rows"
  by (simp add: order_desc_def)

lemma set_order_asc [simp]: "set (order_asc f rows) = set rows"
  by (simp add: order_asc_def)

lemma length_order [simp]:
  "length (order_desc f rows) = length rows" "length (order_asc f rows) = length rows"
  by (simp_all add: order_desc_def order_asc_def)

lemma sorted_order_desc: "sorted_wrt (\<lambda>a b. f b \<le> f a) (order_desc f rows)"
proof -
  have "sorted (map (\<lambda>r. - f r) (order_desc f rows))"
    by (simp add: order_desc_def)
  then show ?thesis
    by (simp add: sorted_map)
qed

lemma order_desc_Nil_iff [simp]: "order_desc f rows = [] \<longleftrightarrow> rows = []"
  by (metis length_0_conv length_order(1))

section \<open>Removing duplicates\<close>

text \<open>The Go idiom: walk a slice with a \<open>seen\<close> set, skipping what is excluded or seen.\<close>

fun dedup_seen :: "('a \<Rightarrow> bool) \<Rightarrow> 'a set \<Rightarrow> 'a list \<Rightarrow> 'a list" where
  "dedup_seen skip seen [] = []"
| "dedup_seen skip seen (x # xs) =
     (if skip x \<or> x \<in> seen then dedup_seen skip seen xs
      else x # dedup_seen skip (insert x seen) xs)"

lemma set_dedup_seen:
  "set (dedup_seen skip seen xs) = {x \<in> set xs. \<not> skip x \<and> x \<notin> seen}"
  by (induction xs arbitrary: seen) auto

lemma distinct_dedup_seen: "distinct (dedup_seen skip seen xs)"
  by (induction xs arbitrary: seen) (auto simp: set_dedup_seen)

lemma length_dedup_seen: "length (dedup_seen skip seen xs) \<le> length xs"
  by (induction xs arbitrary: seen) (auto simp: le_SucI)

section \<open>Counting rows\<close>

lemma length_filter_eq_card:
  "distinct (map key rows) \<Longrightarrow>
   length (filter P rows) = card {key r | r. r \<in> set rows \<and> P r}"
proof -
  assume d: "distinct (map key rows)"
  then have "distinct (map key (filter P rows))"
    by (rule distinct_map_filter)
  then have "card (set (map key (filter P rows))) = length (map key (filter P rows))"
    by (rule distinct_card)
  moreover have "set (map key (filter P rows)) = {key r | r. r \<in> set rows \<and> P r}"
    by auto
  ultimately show ?thesis by simp
qed

definition opt_list :: "'a option \<Rightarrow> 'a list" where
  "opt_list v = (case v of None \<Rightarrow> [] | Some x \<Rightarrow> [x])"

lemma image_map_key: "(\<And>r. r \<in> set rows \<Longrightarrow> key (f r) = key r) \<Longrightarrow> key ` set (map f rows) = key ` set rows"
  by (auto simp: image_iff)

end
