(* ===== verification/GoStrings.thy ===== *)
theory GoStrings
  imports Prelude
begin

text \<open>
  The parts of Go's \<^verbatim>\<open>strings\<close>, \<^verbatim>\<open>unicode/utf8\<close> and \<^verbatim>\<open>encoding/hex\<close> the modelled code calls,
  on byte strings. White space and case mappings that involve multi-byte UTF-8 sequences are
  written out byte by byte where the calling code can observe them.
\<close>

section \<open>Bytes and characters\<close>

abbreviation byte :: "char \<Rightarrow> nat" where
  "byte c \<equiv> of_char c"

definition is_digit :: "char \<Rightarrow> bool" where
  "is_digit c \<longleftrightarrow> 48 \<le> byte c \<and> byte c \<le> 57"

definition is_upper :: "char \<Rightarrow> bool" where
  "is_upper c \<longleftrightarrow> 65 \<le> byte c \<and> byte c \<le> 90"

definition is_lower :: "char \<Rightarrow> bool" where
  "is_lower c \<longleftrightarrow> 97 \<le> byte c \<and> byte c \<le> 122"

definition word_char :: "char \<Rightarrow> bool" where
  "word_char c \<longleftrightarrow> is_digit c \<or> is_upper c \<or> is_lower c \<or> c = CHR ''_''"

definition upper_char :: "char \<Rightarrow> char" where
  "upper_char c = (if is_lower c then char_of (byte c - 32) else c)"

definition lower_char :: "char \<Rightarrow> char" where
  "lower_char c = (if is_upper c then char_of (byte c + 32) else c)"

section \<open>Prefixes and substrings\<close>

fun HasPrefix :: "string \<Rightarrow> string \<Rightarrow> bool" where
  "HasPrefix s [] = True"
| "HasPrefix [] (p # ps) = False"
| "HasPrefix (c # cs) (p # ps) = (c = p \<and> HasPrefix cs ps)"

fun Contains :: "string \<Rightarrow> string \<Rightarrow> bool" where
  "Contains [] sub = (sub = [])"
| "Contains (c # cs) sub = (HasPrefix (c # cs) sub \<or> Contains cs sub)"

lemma HasPrefix_iff: "HasPrefix s p \<longleftrightarrow> (\<exists>t. s = p @ t)"
  by (induction s p rule: HasPrefix.induct) auto

lemma Contains_iff: "Contains s sub \<longleftrightarrow> (\<exists>u v. s = u @ sub @ v)"
proof (induction s)
  case Nil
  then show ?case by auto
next
  case (Cons c cs)
  show ?case
  proof
    assume "Contains (c # cs) sub"
    then consider t where "c # cs = sub @ t" | u v where "cs = u @ sub @ v"
      using Cons by (auto simp: HasPrefix_iff)
    then show "\<exists>u v. c # cs = u @ sub @ v"
      by (metis append_Cons append_Nil)
  next
    assume "\<exists>u v. c # cs = u @ sub @ v"
    then obtain u v where uv: "c # cs = u @ sub @ v" by blast
    show "Contains (c # cs) sub"
    proof (cases u)
      case Nil
      with uv have "HasPrefix (c # cs) sub" by (auto simp: HasPrefix_iff)
      then show ?thesis by simp
    next
      case (Cons x xs)
      with uv have "cs = xs @ sub @ v" by simp
      with Cons.IH show ?thesis by auto
    qed
  qed
qed

section \<open>White space\<close>

text \<open>
  The UTF-8 encodings of the characters with Unicode property White\_Space, the set
  \<^verbatim>\<open>strings.TrimSpace\<close> removes from both ends.
\<close>

definition bytes_of :: "nat list \<Rightarrow> string" where
  "bytes_of ns = map char_of ns"

definition space_runes :: "string list" where
  "space_runes = map bytes_of
     [[9], [10], [11], [12], [13], [32], [194, 133], [194, 160], [225, 154, 128],
      [226, 128, 128], [226, 128, 129], [226, 128, 130], [226, 128, 131], [226, 128, 132],
      [226, 128, 133], [226, 128, 134], [226, 128, 135], [226, 128, 136], [226, 128, 137],
      [226, 128, 138], [226, 128, 168], [226, 128, 169], [226, 128, 175], [226, 129, 159],
      [227, 128, 128]]"

fun trim_front :: "string list \<Rightarrow> nat \<Rightarrow> string \<Rightarrow> string" where
  "trim_front ws 0 s = s"
| "trim_front ws (Suc n) s =
     (case find (HasPrefix s) ws of
        None \<Rightarrow> s
      | Some w \<Rightarrow> trim_front ws n (drop (length w) s))"

definition TrimSpace :: "string \<Rightarrow> string" where
  "TrimSpace s =
     (let t = trim_front space_runes (length s) s
      in rev (trim_front (map rev space_runes) (length t) (rev t)))"

lemma TrimSpace_Nil [simp]: "TrimSpace [] = []"
  by (simp add: TrimSpace_def)

lemma length_trim_front: "length (trim_front ws n s) \<le> length s"
proof (induction ws n s rule: trim_front.induct)
  case (2 ws n s)
  show ?case
  proof (cases "find (HasPrefix s) ws")
    case None
    then show ?thesis by simp
  next
    case (Some w)
    with 2 have "length (trim_front ws n (drop (length w) s)) \<le> length (drop (length w) s)"
      by blast
    with Some show ?thesis by simp
  qed
qed simp

lemma length_TrimSpace: "length (TrimSpace s) \<le> length s"
  unfolding TrimSpace_def Let_def
  using length_trim_front [of space_runes "length s" s]
    length_trim_front [of "map rev space_runes" _ "rev (trim_front space_runes (length s) s)"]
  by (metis le_trans length_rev)

text \<open>
  Each step of \<^const>\<open>trim_front\<close> removes at least one byte, so \<open>length s\<close> steps are enough:
  the result starts with no white space.
\<close>

lemma space_runes_nonempty: "w \<in> set space_runes \<Longrightarrow> w \<noteq> []"
  by (auto simp: space_runes_def bytes_of_def)

lemma trim_front_done:
  "(\<And>w. w \<in> set ws \<Longrightarrow> w \<noteq> []) \<Longrightarrow> length s \<le> n \<Longrightarrow> w \<in> set ws \<Longrightarrow>
   \<not> HasPrefix (trim_front ws n s) w"
proof (induction ws n s rule: trim_front.induct)
  case (1 ws s)
  then have "w \<noteq> []" by blast
  with 1 show ?case by (cases w) auto
next
  case (2 ws n s)
  show ?case
  proof (cases "find (HasPrefix s) ws")
    case None
    with "2.prems"(3) have "\<not> HasPrefix s w"
      by (simp add: find_None_iff)
    with None show ?thesis by simp
  next
    case (Some v)
    then have "v \<in> set ws" "HasPrefix s v"
      by (auto simp: find_Some_iff)
    then have "0 < length v" "length v \<le> length s"
      using "2.prems"(1) by (auto simp: HasPrefix_iff)
    with "2.prems"(2) have "length (drop (length v) s) \<le> n"
      unfolding length_drop by linarith
    with 2 Some show ?thesis by simp
  qed
qed

section \<open>Case mapping\<close>

text \<open>
  \<^verbatim>\<open>strings.ToUpper\<close> and \<^verbatim>\<open>strings.ToLower\<close> as seen through an ASCII comparison. Besides the
  ASCII letters, two non-ASCII characters have an ASCII upper case (dotless i and long s) and
  two an ASCII lower case (I with dot above and the Kelvin sign). Every other non-ASCII
  character maps to a non-ASCII one and is left as it is here: the callers compare the result
  with ASCII text only.
\<close>

fun ToUpper :: "string \<Rightarrow> string" where
  "ToUpper [] = []"
| "ToUpper [c] = [upper_char c]"
| "ToUpper (c # d # s) =
     (if byte c = 196 \<and> byte d = 177 then CHR ''I'' # ToUpper s
      else if byte c = 197 \<and> byte d = 191 then CHR ''S'' # ToUpper s
      else upper_char c # ToUpper (d # s))"

fun ToLower :: "string \<Rightarrow> string" where
  "ToLower [] = []"
| "ToLower [c] = [lower_char c]"
| "ToLower [c, d] =
     (if byte c = 196 \<and> byte d = 176 then [CHR ''i''] else [lower_char c, lower_char d])"
| "ToLower (c # d # e # s) =
     (if byte c = 196 \<and> byte d = 176 then CHR ''i'' # ToLower (e # s)
      else if byte c = 226 \<and> byte d = 132 \<and> byte e = 170 then CHR ''k'' # ToLower s
      else lower_char c # ToLower (d # e # s))"

section \<open>Decoding runes\<close>

text \<open>
  The width in bytes of the first rune of a non-empty string, as \<^verbatim>\<open>utf8.DecodeRune\<close>: an
  ill-formed sequence is one rune of width one.
\<close>

definition cont :: "nat \<Rightarrow> nat \<Rightarrow> string \<Rightarrow> nat \<Rightarrow> bool" where
  "cont lo hi s i \<longleftrightarrow> i < length s \<and> lo \<le> byte (s ! i) \<and> byte (s ! i) \<le> hi"

definition rune_width :: "string \<Rightarrow> nat" where
  "rune_width s =
     (case s of
        [] \<Rightarrow> 0
      | c # _ \<Rightarrow>
         (let b = byte c in
          if 194 \<le> b \<and> b \<le> 223 \<and> cont 128 191 s 1 then 2
          else if 224 \<le> b \<and> b \<le> 239
            \<and> cont (if b = 224 then 160 else 128) (if b = 237 then 159 else 191) s 1
            \<and> cont 128 191 s 2 then 3
          else if 240 \<le> b \<and> b \<le> 244
            \<and> cont (if b = 240 then 144 else 128) (if b = 244 then 143 else 191) s 1
            \<and> cont 128 191 s 2 \<and> cont 128 191 s 3 then 4
          else 1))"

lemma rune_width_pos: "s \<noteq> [] \<Longrightarrow> 0 < rune_width s"
  by (cases s) (simp_all add: rune_width_def Let_def)

section \<open>Hexadecimal\<close>

definition hex_digit :: "nat \<Rightarrow> char" where
  "hex_digit n = char_of (if n < 10 then 48 + n else 87 + n)"

definition hex_encode :: "string \<Rightarrow> string" where
  "hex_encode s = concat (map (\<lambda>c. [hex_digit (byte c div 16), hex_digit (byte c mod 16)]) s)"

lemma length_hex_encode: "length (hex_encode s) = 2 * length s"
  by (induction s) (auto simp: hex_encode_def)

section \<open>Visible ASCII\<close>

text \<open>Strings of visible ASCII bytes have nothing to trim.\<close>

definition plain :: "string \<Rightarrow> bool" where
  "plain s \<longleftrightarrow> list_all (\<lambda>c. 32 < byte c \<and> byte c < 128) s"

lemma plain_append [simp]: "plain (s @ t) \<longleftrightarrow> plain s \<and> plain t"
  by (simp add: plain_def)

lemma space_runes_not_plain: "w \<in> set space_runes \<Longrightarrow> \<not> (32 < byte (hd w) \<and> byte (hd w) < 128) \<and>
    \<not> (32 < byte (last w) \<and> byte (last w) < 128)"
proof -
  have "list_all (\<lambda>w. \<not> (32 < byte (hd w) \<and> byte (hd w) < 128) \<and> \<not> (32 < byte (last w) \<and> byte (last w) < 128))
      space_runes"
    by (simp add: space_runes_def bytes_of_def)
  then show "w \<in> set space_runes \<Longrightarrow> ?thesis" by (simp add: list_all_iff)
qed

lemma plain_prefix: "plain s \<Longrightarrow> HasPrefix s w \<Longrightarrow> w \<noteq> [] \<Longrightarrow> 32 < byte (hd w) \<and> byte (hd w) < 128"
  by (cases w) (auto simp: HasPrefix_iff plain_def)

lemma trim_front_none: "(\<And>w. w \<in> set ws \<Longrightarrow> \<not> HasPrefix s w) \<Longrightarrow> trim_front ws n s = s"
  by (cases n) (auto split: option.split simp: find_Some_iff dest: nth_mem)

lemma TrimSpace_plain:
  assumes "plain s"
  shows "TrimSpace s = s"
proof -
  have f: "trim_front space_runes n s = s" for n
    using plain_prefix [OF assms] space_runes_not_plain space_runes_nonempty by (intro trim_front_none) blast
  have "plain (rev s)" using assms by (simp add: plain_def)
  have "\<not> HasPrefix (rev s) w" if w: "w \<in> set (map rev space_runes)" for w
  proof
    assume p: "HasPrefix (rev s) w"
    obtain v where v: "v \<in> set space_runes" "w = rev v" using w by auto
    then have "w \<noteq> []" "hd w = last v" using space_runes_nonempty by (auto simp: hd_rev)
    with plain_prefix [OF \<open>plain (rev s)\<close> p] space_runes_not_plain [OF v(1)] show False by simp
  qed
  then have "trim_front (map rev space_runes) n (rev s) = rev s" for n
    by (rule trim_front_none)
  with f show ?thesis by (simp add: TrimSpace_def)
qed

end
