(* ===== verification/Contracts.thy ===== *)
theory Contracts
  imports Prelude
begin

text \<open>
  The interfaces between components, as locales. A provider (a status machine, a table, a
  component's request handler) discharges the laws once by an \<^theory_text>\<open>interpretation\<close> in its own
  theory; the clients' lemmas are proved here once and reach them through that interpretation.

  \<^item> \<open>event_machine\<close>: a status machine whose transitions are one-way.
  \<^item> \<open>invariant_system\<close>: request handlers that keep a state invariant.
  \<^item> \<open>keyed_store\<close>: lookup and insert on rows with a primary key.
\<close>

section \<open>Runs of a step function\<close>

fun run :: "('s \<Rightarrow> 'op \<Rightarrow> 's) \<Rightarrow> 's \<Rightarrow> 'op list \<Rightarrow> 's" where
  "run step s [] = s"
| "run step s (x # xs) = run step (step s x) xs"

lemma run_append: "run step s (xs @ ys) = run step (run step s xs) ys"
  by (induction xs arbitrary: s) auto

text \<open>How many steps of a run report a change.\<close>

fun changes :: "('s \<Rightarrow> 'e \<Rightarrow> 's \<times> bool) \<Rightarrow> 's \<Rightarrow> 'e list \<Rightarrow> nat" where
  "changes nxt s [] = 0"
| "changes nxt s (e # es) =
     (let (s', changed) = nxt s e in (if changed then 1 else 0) + changes nxt s' es)"

section \<open>One-way status machines\<close>

locale event_machine =
  fixes nxt :: "'s \<Rightarrow> 'e \<Rightarrow> 's \<times> bool"
    and terminal :: "'s \<Rightarrow> bool"
    and rank :: "'s \<Rightarrow> nat"
  assumes unchanged: "nxt s e = (s', False) \<Longrightarrow> s' = s"
    and frozen: "terminal s \<Longrightarrow> \<not> snd (nxt s e)"
    and one_way: "nxt s e = (s', True) \<Longrightarrow> rank s' < rank s"
    and settled: "nxt s e = (s', True) \<Longrightarrow> \<not> snd (nxt s' e)"
begin

abbreviation after :: "'s \<Rightarrow> 'e list \<Rightarrow> 's" where
  "after s es \<equiv> run (\<lambda>s e. fst (nxt s e)) s es"

lemma terminal_step: "terminal s \<Longrightarrow> nxt s e = (s, False)"
  using frozen [of s e] unchanged [of s e] by (cases "nxt s e") auto

lemma terminal_after: "terminal s \<Longrightarrow> after s es = s"
  by (induction es) (auto simp: terminal_step)

lemma redelivery: "nxt (fst (nxt s e)) e = (fst (nxt s e), False)"
proof (cases "nxt s e")
  case (Pair s' changed)
  show ?thesis
  proof (cases changed)
    case True
    with Pair have "\<not> snd (nxt s' e)" by (simp add: settled)
    with unchanged [of s' e] Pair show ?thesis by (cases "nxt s' e") auto
  next
    case False
    with Pair have "s' = s" by (simp add: unchanged)
    with Pair False show ?thesis by simp
  qed
qed

lemma rank_after: "rank (after s es) + changes nxt s es \<le> rank s"
proof (induction es arbitrary: s)
  case (Cons e es)
  obtain s' c where n: "nxt s e = (s', c)" by (cases "nxt s e")
  have "rank s' + (if c then 1 else 0) \<le> rank s"
    using n one_way [of s e s'] unchanged [of s e s'] by (cases c) auto
  with Cons.IH [of s'] n show ?case by simp
qed simp

lemma changes_bound: "changes nxt s es \<le> rank s"
  using rank_after [of s es] by simp

end

section \<open>Handlers that keep an invariant\<close>

locale invariant_system =
  fixes step :: "'s \<Rightarrow> 'op \<Rightarrow> 's"
    and inv :: "'s \<Rightarrow> bool"
  assumes keep: "inv s \<Longrightarrow> inv (step s x)"
begin

lemma keep_run: "inv s \<Longrightarrow> inv (run step s xs)"
  by (induction xs arbitrary: s) (auto intro: keep)

end

section \<open>Rows with a primary key\<close>

locale keyed_store =
  fixes key :: "'r \<Rightarrow> 'k"
    and get :: "'s \<Rightarrow> 'k \<Rightarrow> 'r option"
    and ins :: "'s \<Rightarrow> 'r \<Rightarrow> 's option"
    and wf :: "'s \<Rightarrow> bool"
  assumes get_key: "get s k = Some r \<Longrightarrow> key r = k"
    and ins_taken: "wf s \<Longrightarrow> get s (key r) \<noteq> None \<Longrightarrow> ins s r = None"
    and get_ins: "ins s r = Some s' \<Longrightarrow> get s' k = (if k = key r then Some r else get s k)"
    and wf_ins: "wf s \<Longrightarrow> ins s r = Some s' \<Longrightarrow> wf s'"
begin

lemma read_your_write: "ins s r = Some s' \<Longrightarrow> get s' (key r) = Some r"
  by (simp add: get_ins)

lemma other_rows_kept: "ins s r = Some s' \<Longrightarrow> get s k = Some r' \<Longrightarrow> wf s \<Longrightarrow> get s' k = Some r'"
  using ins_taken [of s r] get_ins [of s r s' k] by (auto split: if_splits)

lemma second_insert_rejected: "wf s \<Longrightarrow> ins s r = Some s' \<Longrightarrow> key r' = key r \<Longrightarrow> ins s' r' = None"
  using ins_taken [of s' r'] wf_ins read_your_write by fastforce

end

end
