(* ===== verification/PaymentDomain.thy ===== *)
theory PaymentDomain
  imports GoStrings Contracts
begin

text \<open>
  \<^verbatim>\<open>server/internal/payments/domain\<close>: money validation (\<^verbatim>\<open>money.go\<close>), the payment status
  machine and webhook signatures (\<^verbatim>\<open>state.go\<close>), and the card-data guard (\<^verbatim>\<open>carddata.go\<close>).
  The guard's two regular expressions are written out as matchers: Go's leftmost-first
  matching is deterministic on both.
\<close>

section \<open>Errors\<close>

datatype pay_error =
    ErrBadCurrency | ErrBadAmount | ErrZeroAmount
  | ErrBadStatus | ErrBadPurpose | ErrBadTransition
  | ErrBadSignature | ErrCardData

section \<open>Money\<close>

type_synonym currency = string

definition supportedCurrencies :: "currency list" where
  "supportedCurrencies = [''USD'', ''EUR'', ''GBP'', ''INR'', ''AUD'', ''CAD'', ''JPY'', ''SGD'']"

definition MaxAmountCents :: int where
  "MaxAmountCents = 100000000"

record money =
  Cents :: int
  Currency :: currency

definition NewMoney :: "int \<Rightarrow> string \<Rightarrow> pay_error + money" where
  "NewMoney cents cur =
     (let c = ToUpper (TrimSpace cur) in
      if c \<notin> set supportedCurrencies then Inl ErrBadCurrency
      else if cents \<le> 0 then Inl ErrZeroAmount
      else if cents > MaxAmountCents then Inl ErrBadAmount
      else Inr \<lparr>Cents = cents, Currency = c\<rparr>)"

definition Money_Validate :: "money \<Rightarrow> pay_error option" where
  "Money_Validate m = (case NewMoney (Cents m) (Currency m) of Inl e \<Rightarrow> Some e | Inr _ \<Rightarrow> None)"

section \<open>Status machine\<close>

text \<open>Statuses and purposes are strings in Go, so unknown values exist and are rejected.\<close>

type_synonym pay_status = string
type_synonym pay_purpose = string

definition StatusPending :: pay_status where "StatusPending = ''pending''"
definition StatusSucceeded :: pay_status where "StatusSucceeded = ''succeeded''"
definition StatusFailed :: pay_status where "StatusFailed = ''failed''"
definition StatusCanceled :: pay_status where "StatusCanceled = ''canceled''"
definition StatusRefunded :: pay_status where "StatusRefunded = ''refunded''"

lemmas status_defs =
  StatusPending_def StatusSucceeded_def StatusFailed_def StatusCanceled_def StatusRefunded_def

definition PurposePremium :: pay_purpose where "PurposePremium = ''premium''"
definition PurposeChannel :: pay_purpose where "PurposeChannel = ''channel_sub''"
definition PurposeP2P :: pay_purpose where "PurposeP2P = ''p2p_transfer''"

lemmas purpose_defs = PurposePremium_def PurposeChannel_def PurposeP2P_def

definition transitions :: "pay_status \<rightharpoonup> pay_status list" where
  "transitions =
     [StatusPending \<mapsto> [StatusSucceeded, StatusFailed, StatusCanceled],
      StatusSucceeded \<mapsto> [StatusRefunded],
      StatusFailed \<mapsto> [],
      StatusCanceled \<mapsto> [],
      StatusRefunded \<mapsto> []]"

definition ParseStatus :: "string \<Rightarrow> pay_error + pay_status" where
  "ParseStatus s = (case transitions s of None \<Rightarrow> Inl ErrBadStatus | Some _ \<Rightarrow> Inr s)"

definition ParsePurpose :: "string \<Rightarrow> pay_error + pay_purpose" where
  "ParsePurpose s =
     (if s = PurposePremium \<or> s = PurposeChannel \<or> s = PurposeP2P then Inr s
      else Inl ErrBadPurpose)"

text \<open>Reading a missing key of a Go map gives the nil map, which has length 0.\<close>

definition Status_Terminal :: "pay_status \<Rightarrow> bool" where
  "Status_Terminal s \<longleftrightarrow> (case transitions s of None \<Rightarrow> True | Some ts \<Rightarrow> ts = [])"

definition CanTransition :: "pay_status \<Rightarrow> pay_status \<Rightarrow> bool" where
  "CanTransition from to \<longleftrightarrow> (case transitions from of None \<Rightarrow> False | Some ts \<Rightarrow> to \<in> set ts)"

definition Transition :: "pay_status \<Rightarrow> pay_status \<Rightarrow> pay_error + bool" where
  "Transition from to =
     (if transitions to = None then Inl ErrBadStatus
      else if from = to then Inr False
      else if \<not> CanTransition from to then Inl ErrBadTransition
      else Inr True)"

section \<open>Webhook signatures\<close>

text \<open>
  \<open>hmac\<close> stands for HMAC-SHA256 of \<^verbatim>\<open>crypto/hmac\<close>: any function of key and message.
\<close>

definition SignWebhook :: "(string \<Rightarrow> string \<Rightarrow> string) \<Rightarrow> string \<Rightarrow> string \<Rightarrow> string" where
  "SignWebhook hmac secret payload = hex_encode (hmac secret payload)"

definition VerifyWebhook ::
  "(string \<Rightarrow> string \<Rightarrow> string) \<Rightarrow> string \<Rightarrow> string \<Rightarrow> string \<Rightarrow> pay_error option" where
  "VerifyWebhook hmac secret payload signature =
     (if signature = [] then Some ErrBadSignature
      else let want = SignWebhook hmac secret payload in
           if want \<noteq> signature then Some ErrBadSignature else None)"

section \<open>The card-data guard\<close>

definition is_sep :: "char \<Rightarrow> bool" where
  "is_sep c \<longleftrightarrow> c = CHR '' '' \<or> c = CHR ''-''"

text \<open>Up to \<open>n\<close> repetitions of an optional separator and a digit, as many as possible.\<close>

fun run_tail :: "nat \<Rightarrow> string \<Rightarrow> string \<times> string" where
  "run_tail 0 s = ([], s)"
| "run_tail (Suc n) [] = ([], [])"
| "run_tail (Suc n) (c # cs) =
     (if is_digit c then (let (m, r) = run_tail n cs in (c # m, r))
      else if is_sep c then
        (case cs of
           [] \<Rightarrow> ([], c # cs)
         | d # ds \<Rightarrow>
             if is_digit d then (let (m, r) = run_tail n ds in (c # d # m, r))
             else ([], c # cs))
      else ([], c # cs))"

definition stripSeparators :: "string \<Rightarrow> string" where
  "stripSeparators s = filter is_digit s"

text \<open>\<open>digitRun\<close>: a digit followed by 11 to 18 repetitions.\<close>

definition match_digitRun :: "string \<Rightarrow> (string \<times> string) option" where
  "match_digitRun s =
     (case s of
        [] \<Rightarrow> None
      | c # cs \<Rightarrow>
         if \<not> is_digit c then None
         else let (m, r) = run_tail 18 cs in
              if 11 \<le> length (stripSeparators m) then Some (c # m, r) else None)"

lemma run_tail_split: "run_tail n s = (m, r) \<Longrightarrow> s = m @ r"
  by (induction n s arbitrary: m r rule: run_tail.induct)
    (auto split: if_splits list.splits prod.splits)

lemma match_digitRun_split: "match_digitRun s = Some (m, r) \<Longrightarrow> s = m @ r \<and> m \<noteq> []"
  by (auto simp: match_digitRun_def split: list.splits if_splits prod.splits
      dest: run_tail_split)

text \<open>\<^verbatim>\<open>FindAllString\<close>: the successive non-overlapping leftmost matches.\<close>

function FindAll_digitRun :: "string \<Rightarrow> string list" where
  "FindAll_digitRun [] = []"
| "FindAll_digitRun (c # cs) =
     (case match_digitRun (c # cs) of
        None \<Rightarrow> FindAll_digitRun cs
      | Some (m, r) \<Rightarrow> m # FindAll_digitRun r)"
  by pat_completeness auto
termination
proof (relation "measure length")
  fix c cs x m r
  assume "match_digitRun (c # cs) = Some x" "(m, r) = x"
  then have "c # cs = m @ r \<and> m \<noteq> []"
    using match_digitRun_split by metis
  then have "length r < length (c # cs)"
    by (metis length_append length_greater_0_conv less_add_same_cancel2)
  then show "(r, c # cs) \<in> measure length" by simp
qed auto

text \<open>The Luhn check: a loop from the last digit to the first with an alternating flag.\<close>

definition digit_val :: "char \<Rightarrow> int" where
  "digit_val c = int (byte c) - 48"

fun luhn_loop :: "string \<Rightarrow> bool \<Rightarrow> int \<Rightarrow> int" where
  "luhn_loop [] alt acc = acc"
| "luhn_loop (c # cs) alt acc =
     (let d = digit_val c;
          d = (if alt then (if 2 * d > 9 then 2 * d - 9 else 2 * d) else d)
      in luhn_loop cs (\<not> alt) (acc + d))"

definition luhnValid :: "string \<Rightarrow> bool" where
  "luhnValid digits \<longleftrightarrow> luhn_loop (rev digits) False 0 mod 10 = 0"

text \<open>
  \<open>cvvLike\<close>: a labelled security code. \<open>label_rests\<close> gives the text after each label that
  matches here, case-insensitively (the long s also folds to s).
\<close>

fun strip_prefix_ci :: "string \<Rightarrow> string \<Rightarrow> string option" where
  "strip_prefix_ci [] s = Some s"
| "strip_prefix_ci (p # ps) [] = None"
| "strip_prefix_ci (p # ps) (c # cs) =
     (if lower_char c = p then strip_prefix_ci ps cs else None)"

definition is_re_space :: "char \<Rightarrow> bool" where
  "is_re_space c \<longleftrightarrow> byte c \<in> {9, 10, 12, 13, 32}"

definition security_rest :: "string \<Rightarrow> string option" where
  "security_rest s =
     (let s' = (if HasPrefix s (bytes_of [197, 191]) then CHR ''s'' # drop 2 s else s) in
      case strip_prefix_ci ''security'' s' of
        None \<Rightarrow> None
      | Some t \<Rightarrow> strip_prefix_ci ''code'' (dropWhile is_re_space t))"

definition label_rests :: "string \<Rightarrow> string list" where
  "label_rests s = List.map_filter id
     [strip_prefix_ci ''cvv'' s, strip_prefix_ci ''cvc'' s, strip_prefix_ci ''cvv2'' s,
      strip_prefix_ci ''cid'' s, security_rest s]"

definition three_digits :: "string \<Rightarrow> bool" where
  "three_digits s \<longleftrightarrow> 3 \<le> length s \<and> list_all is_digit (take 3 s)"

fun gap_then_code :: "nat \<Rightarrow> string \<Rightarrow> bool" where
  "gap_then_code 0 s = three_digits s"
| "gap_then_code (Suc n) s =
     (three_digits s \<or>
      (s \<noteq> [] \<and> \<not> is_digit (hd s) \<and> gap_then_code n (drop (rune_width s) s)))"

definition starts_word :: "string \<Rightarrow> bool" where
  "starts_word s \<longleftrightarrow> s \<noteq> [] \<and> word_char (hd s)"

text \<open>
  The word boundaries: before the label, exactly one of the neighbours is a word character;
  after it (labels end in a word character), the next one is not.
\<close>

definition cvv_at :: "bool \<Rightarrow> string \<Rightarrow> bool" where
  "cvv_at prev_word s \<longleftrightarrow>
     prev_word \<noteq> starts_word s \<and>
     list_ex (\<lambda>r. \<not> starts_word r \<and> gap_then_code 10 r) (label_rests s)"

fun cvv_scan :: "bool \<Rightarrow> string \<Rightarrow> bool" where
  "cvv_scan prev_word [] = cvv_at prev_word []"
| "cvv_scan prev_word (c # cs) = (cvv_at prev_word (c # cs) \<or> cvv_scan (word_char c) cs)"

definition cvvLike :: "string \<Rightarrow> bool" where
  "cvvLike s = cvv_scan False s"

definition RejectsCardData :: "string \<Rightarrow> pay_error option" where
  "RejectsCardData s =
     (if s = [] then None
      else if cvvLike s then Some ErrCardData
      else if list_ex (\<lambda>candidate.
                let digits = stripSeparators candidate in
                \<not> (length digits < 12 \<or> length digits > 19) \<and> luhnValid digits)
              (FindAll_digitRun s)
           then Some ErrCardData
      else None)"

fun RejectsCardDataIn :: "string list \<Rightarrow> pay_error option" where
  "RejectsCardDataIn [] = None"
| "RejectsCardDataIn (f # fs) =
     (case RejectsCardData f of Some e \<Rightarrow> Some e | None \<Rightarrow> RejectsCardDataIn fs)"

section \<open>Money\<close>

lemma NewMoney_cases:
  "NewMoney cents cur = Inr m \<longleftrightarrow>
     ToUpper (TrimSpace cur) \<in> set supportedCurrencies \<and> 0 < cents \<and> cents \<le> MaxAmountCents
     \<and> m = \<lparr>Cents = cents, Currency = ToUpper (TrimSpace cur)\<rparr>"
  by (auto simp: NewMoney_def Let_def)

lemma supported_canonical: "c \<in> set supportedCurrencies \<Longrightarrow> ToUpper (TrimSpace c) = c"
proof -
  have "list_all (\<lambda>c. ToUpper (TrimSpace c) = c) supportedCurrencies"
    by code_simp
  then show "c \<in> set supportedCurrencies \<Longrightarrow> ToUpper (TrimSpace c) = c"
    by (simp add: list_all_iff)
qed

lemma Money_Validate_NewMoney: "NewMoney cents cur = Inr m \<Longrightarrow> Money_Validate m = None"
  by (auto simp: Money_Validate_def NewMoney_cases supported_canonical split: sum.split
      simp del: ) (metis NewMoney_cases money.select_convs Inl_Inr_False supported_canonical)

section \<open>Status machine\<close>

lemma status_distinct [simp]:
  "StatusPending \<noteq> StatusSucceeded" "StatusPending \<noteq> StatusFailed" "StatusPending \<noteq> StatusCanceled"
  "StatusPending \<noteq> StatusRefunded" "StatusSucceeded \<noteq> StatusFailed" "StatusSucceeded \<noteq> StatusCanceled"
  "StatusSucceeded \<noteq> StatusRefunded" "StatusFailed \<noteq> StatusCanceled" "StatusFailed \<noteq> StatusRefunded"
  "StatusCanceled \<noteq> StatusRefunded"
  by (simp_all add: status_defs)

lemmas status_distinct' [simp] = status_distinct [symmetric]

lemma transitions_simps [simp]:
  "transitions StatusPending = Some [StatusSucceeded, StatusFailed, StatusCanceled]"
  "transitions StatusSucceeded = Some [StatusRefunded]"
  "transitions StatusFailed = Some []"
  "transitions StatusCanceled = Some []"
  "transitions StatusRefunded = Some []"
  by (simp_all add: transitions_def)

lemma transitions_SomeE:
  assumes "transitions s = Some ts"
  obtains "s = StatusPending" | "s = StatusSucceeded" | "s = StatusFailed"
    | "s = StatusCanceled" | "s = StatusRefunded"
  using assms by (auto simp: transitions_def split: if_splits)

definition status_rank :: "pay_status \<Rightarrow> nat" where
  "status_rank s = (if s = StatusPending then 2 else if s = StatusSucceeded then 1 else 0)"

definition status_step :: "pay_status \<Rightarrow> pay_status \<Rightarrow> pay_status \<times> bool" where
  "status_step from to = (case Transition from to of Inr True \<Rightarrow> (to, True) | _ \<Rightarrow> (from, False))"

lemma CanTransition_iff:
  "CanTransition from to \<longleftrightarrow>
     from = StatusPending \<and> to \<in> {StatusSucceeded, StatusFailed, StatusCanceled}
     \<or> from = StatusSucceeded \<and> to = StatusRefunded"
  by (auto simp: CanTransition_def transitions_def)

lemma status_step_True:
  "status_step from to = (s, True) \<longleftrightarrow> CanTransition from to \<and> s = to"
  by (auto simp: status_step_def Transition_def CanTransition_iff split: sum.splits bool.splits if_splits)

lemma status_step_False: "status_step from to = (s, False) \<Longrightarrow> s = from"
  by (auto simp: status_step_def split: sum.splits bool.splits)

lemma status_rank_le: "status_rank s \<le> 2"
  by (simp add: status_rank_def)

interpretation pay_machine: event_machine status_step Status_Terminal status_rank
proof
  show "\<not> snd (status_step s e)" if "Status_Terminal s" for s e
  proof -
    from that have "\<not> CanTransition s e"
      by (auto simp: Status_Terminal_def CanTransition_def split: option.splits)
    then show ?thesis
      using status_step_True [of s e] by (cases "status_step s e") auto
  qed
  show "\<not> snd (status_step s' e)" if "status_step s e = (s', True)" for s e s'
    using that status_step_True [of s' e] by (cases "status_step s' e") (auto simp: status_step_True CanTransition_iff)
qed (auto simp: status_step_True status_step_False CanTransition_iff status_rank_def)

section \<open>Luhn\<close>

definition luhn_weight :: "bool \<Rightarrow> int \<Rightarrow> int" where
  "luhn_weight alt d = (if alt then (if 2 * d > 9 then 2 * d - 9 else 2 * d) else d)"

lemma luhn_loop_Cons:
  "luhn_loop (c # cs) alt acc = luhn_loop cs (\<not> alt) (acc + luhn_weight alt (digit_val c))"
  by (simp add: luhn_weight_def Let_def)

declare luhn_loop.simps(2) [simp del]

lemma luhn_loop_acc: "luhn_loop cs alt acc = acc + luhn_loop cs alt 0"
proof (induction cs arbitrary: alt acc)
  case (Cons c cs)
  show ?case
    by (subst (1 2) luhn_loop_Cons, subst Cons, subst (2) Cons) simp
qed simp

lemma luhn_loop_append:
  "luhn_loop (xs @ ys) alt acc = luhn_loop ys (alt = even (length xs)) (luhn_loop xs alt acc)"
proof (induction xs arbitrary: alt acc)
  case (Cons x xs)
  then show ?case by (cases alt) (simp_all add: luhn_loop_Cons)
qed simp

lemma mod_10_cancel:
  fixes a b x y :: int
  assumes "(a + x + b) mod 10 = 0" and "(a + y + b) mod 10 = 0"
  shows "(x - y) mod 10 = 0"
  using assms by presburger

lemma luhn_weight_inj:
  assumes "0 \<le> x" "x \<le> 9" "0 \<le> y" "y \<le> 9" "(luhn_weight alt x - luhn_weight alt y) mod 10 = 0"
  shows "x = y"
  using assms by (auto simp: luhn_weight_def split: if_splits) presburger+

lemma digit_val_range: "is_digit c \<Longrightarrow> 0 \<le> digit_val c \<and> digit_val c \<le> 9"
  by (auto simp: is_digit_def digit_val_def)

lemma digit_val_inj: "digit_val c = digit_val d \<Longrightarrow> c = d"
  by (simp add: digit_val_def of_char_eq_iff)

section \<open>What the guard finds\<close>

fun pan_tail :: "string \<Rightarrow> bool" where
  "pan_tail [] = True"
| "pan_tail (c # cs) =
     (if is_digit c then pan_tail cs
      else is_sep c \<and> (case cs of [] \<Rightarrow> False | d # ds \<Rightarrow> is_digit d \<and> pan_tail ds))"

definition pan_shape :: "string \<Rightarrow> bool" where
  "pan_shape s \<longleftrightarrow> s \<noteq> [] \<and> is_digit (hd s) \<and> pan_tail (tl s)"

definition starts_open :: "string \<Rightarrow> bool" where
  "starts_open s \<longleftrightarrow>
     (case s of [] \<Rightarrow> False
      | c # cs \<Rightarrow> is_digit c \<or> (is_sep c \<and> (case cs of [] \<Rightarrow> False | d # _ \<Rightarrow> is_digit d)))"

definition ends_open :: "string \<Rightarrow> bool" where
  "ends_open s \<longleftrightarrow> starts_open (rev s)"

lemma sep_not_digit: "is_sep c \<Longrightarrow> \<not> is_digit c"
  by (auto simp: is_sep_def is_digit_def)

lemma strip_simps [simp]:
  "stripSeparators [] = []"
  "stripSeparators (c # s) = (if is_digit c then c # stripSeparators s else stripSeparators s)"
  "stripSeparators (s @ t) = stripSeparators s @ stripSeparators t"
  by (simp_all add: stripSeparators_def)

lemma run_tail_stops:
  "pan_tail t \<Longrightarrow> length (stripSeparators t) \<le> n \<Longrightarrow> \<not> starts_open post \<Longrightarrow>
   run_tail n (t @ post) = (t, post)"
proof (induction t arbitrary: n rule: pan_tail.induct)
  case 1
  then show ?case
    by (cases n; cases post) (auto simp: starts_open_def split: list.splits)
next
  case (2 c cs)
  show ?case
  proof (cases "is_digit c")
    case True
    with 2 show ?thesis by (cases n) auto
  next
    case False
    with "2.prems" obtain d ds where "is_sep c" "cs = d # ds" "is_digit d" "pan_tail ds"
      by (auto split: list.splits)
    with False 2 show ?thesis by (cases n) auto
  qed
qed

lemma starts_open_append: "starts_open s \<Longrightarrow> starts_open (s @ t)"
  by (auto simp: starts_open_def split: list.splits)

lemma ends_open_suffix: "ends_open t \<Longrightarrow> ends_open (s @ t)"
  by (simp add: ends_open_def starts_open_append)

lemma ends_open_Cons: "\<not> ends_open (c # cs) \<Longrightarrow> \<not> ends_open cs"
  using ends_open_suffix [of cs "[c]"] by auto

lemma run_tail_within:
  "run_tail n s = (m, r) \<Longrightarrow> s = xs @ ys \<Longrightarrow> is_digit d \<Longrightarrow> \<not> ends_open (d # xs) \<Longrightarrow>
   \<exists>zs. xs = m @ zs"
proof (induction n s arbitrary: m r xs d rule: run_tail.induct)
  case (3 n c cs)
  from "3.prems" obtain xs' where xs: "xs = c # xs'" and cs: "cs = xs' @ ys"
    by (cases xs) (auto simp: ends_open_def starts_open_def)
  have ne: "\<not> ends_open (c # xs')"
    using "3.prems"(4) xs ends_open_Cons by blast
  consider (dig) "is_digit c"
    | (sep) e ds where "\<not> is_digit c" "is_sep c" "cs = e # ds" "is_digit e"
    | (none) "m = []"
    using "3.prems"(1) by (auto split: if_splits list.splits prod.splits)
  then show ?case
  proof cases
    case dig
    then obtain m' where "run_tail n cs = (m', r)" "m = c # m'"
      using "3.prems"(1) by (auto split: prod.splits)
    with "3.IH"(1) [OF dig] cs ne dig xs show ?thesis by fastforce
  next
    case sep
    then obtain m' where r: "run_tail n ds = (m', r)" and m: "m = c # e # m'"
      using "3.prems"(1) by (auto split: prod.splits)
    from sep "3.prems"(3,4) xs cs obtain xs'' where xs': "xs' = e # xs''" and ds: "ds = xs'' @ ys"
      by (cases xs') (auto simp: ends_open_def starts_open_def)
    have "\<not> ends_open (e # xs'')"
      using ne xs' ends_open_Cons by blast
    with "3.IH"(2) [OF sep(1,2,3,4) r ds sep(4)] show ?thesis
      using m xs xs' by auto
  next
    case none
    then show ?thesis by simp
  qed
qed auto

lemma match_within:
  assumes "match_digitRun (pre @ ys) = Some (m, r)" "pre \<noteq> []" "\<not> ends_open pre"
  shows "\<exists>zs. pre = m @ zs \<and> r = zs @ ys \<and> \<not> ends_open zs"
proof -
  obtain c cs where pre: "pre = c # cs" using assms(2) by (cases pre) auto
  with assms(1) obtain m' where c: "is_digit c" and rt: "run_tail 18 (cs @ ys) = (m', r)" and m: "m = c # m'"
    by (auto simp: match_digitRun_def split: if_splits prod.splits)
  from run_tail_within [OF rt refl c] assms(3) pre obtain zs where zs: "cs = m' @ zs" by auto
  have "r = zs @ ys"
    using run_tail_split [OF rt] zs by simp
  moreover have "\<not> ends_open zs"
    using assms(3) pre zs ends_open_suffix [of zs "c # m'"] by auto
  ultimately show ?thesis using pre m zs by auto
qed

lemma match_whole:
  assumes "pan_shape pan" "12 \<le> length (stripSeparators pan)" "length (stripSeparators pan) \<le> 19"
    "\<not> starts_open post"
  shows "match_digitRun (pan @ post) = Some (pan, post)"
proof -
  obtain c t where pan: "pan = c # t" "is_digit c" "pan_tail t"
    using assms(1) by (cases pan) (auto simp: pan_shape_def)
  with assms have "run_tail 18 (t @ post) = (t, post)"
    by (intro run_tail_stops) auto
  with pan assms(2) show ?thesis
    by (simp add: match_digitRun_def)
qed

lemma FindAll_finds:
  assumes "match_digitRun (pan @ post) = Some (pan, post)"
  shows "\<not> ends_open pre \<Longrightarrow> pan \<in> set (FindAll_digitRun (pre @ pan @ post))"
proof (induction pre rule: length_induct)
  case (1 pre)
  show ?case
  proof (cases pre)
    case Nil
    obtain c cs where "pan @ post = c # cs"
      using match_digitRun_split [OF assms] by (cases "pan @ post") auto
    with assms Nil show ?thesis by simp
  next
    case (Cons c cs)
    show ?thesis
    proof (cases "match_digitRun (pre @ pan @ post)")
      case None
      have "\<not> ends_open cs"
        using 1 Cons ends_open_Cons by blast
      with 1 Cons have "pan \<in> set (FindAll_digitRun (cs @ pan @ post))"
        by simp
      with None Cons show ?thesis by simp
    next
      case (Some mr)
      obtain m r where mr: "mr = (m, r)" by (cases mr)
      with match_within [of pre "pan @ post" m r] Some Cons "1.prems"
      obtain zs where zs: "pre = m @ zs" "r = zs @ pan @ post" "\<not> ends_open zs"
        by auto
      have "m \<noteq> []"
        using Some mr match_digitRun_split by blast
      with zs have "length zs < length pre" by simp
      with "1.IH" zs have "pan \<in> set (FindAll_digitRun r)" by simp
      with Some mr Cons show ?thesis by simp
    qed
  qed
qed

lemma run_tail_pan: "run_tail n s = (m, r) \<Longrightarrow> pan_tail m"
  by (induction n s arbitrary: m r rule: run_tail.induct)
    (auto split: if_splits list.splits prod.splits)

lemma FindAll_candidates:
  "m \<in> set (FindAll_digitRun s) \<Longrightarrow> pan_shape m \<and> Contains s m"
proof (induction s rule: FindAll_digitRun.induct)
  case (2 c cs)
  show ?case
  proof (cases "match_digitRun (c # cs)")
    case None
    with 2 show ?thesis by auto
  next
    case (Some mr)
    obtain m' r where mr: "mr = (m', r)" by (cases mr)
    have split: "c # cs = m' @ r"
      using Some mr match_digitRun_split by blast
    have shape: "pan_shape m'"
      using Some mr run_tail_pan
      by (auto simp: match_digitRun_def pan_shape_def split: if_splits prod.splits)
    have "m = m' \<or> m \<in> set (FindAll_digitRun r)"
      using "2.prems" Some mr by simp
    then show ?thesis
    proof
      assume "m = m'"
      with shape split show ?thesis by (metis Contains_iff append_Nil)
    next
      assume "m \<in> set (FindAll_digitRun r)"
      with 2 Some mr have "pan_shape m \<and> Contains r m" by blast
      with split show ?thesis
        unfolding Contains_iff by (metis append.assoc)
    qed
  qed
qed simp

lemma guard_sound:
  assumes "RejectsCardData s = Some e"
  shows "e = ErrCardData \<and>
    (cvvLike s \<or>
     (\<exists>pan. Contains s pan \<and> pan_shape pan \<and> luhnValid (stripSeparators pan)
        \<and> 12 \<le> length (stripSeparators pan) \<and> length (stripSeparators pan) \<le> 19))"
  using assms FindAll_candidates
  by (auto simp: RejectsCardData_def list_ex_iff Let_def not_less split: if_splits)

lemma RejectsCardDataIn_None_iff:
  "RejectsCardDataIn fs = None \<longleftrightarrow> (\<forall>f\<in>set fs. RejectsCardData f = None)"
  by (induction fs) (auto split: option.splits)

end
