(* ===== verification/PaymentStore.thy ===== *)
theory PaymentStore
  imports PaymentDomain
begin

text \<open>
  The payments data model (\<^verbatim>\<open>payments.go\<close>) and its PostgreSQL store
  (\<^verbatim>\<open>adapters/pg.go\<close> over \<^verbatim>\<open>migrations/000031_payments.up.sql\<close>): the three tables, the SQL
  statements as functions on them, and the constraints of the schema. A statement that
  violates a constraint fails and changes nothing (\<open>None\<close>). Foreign keys to \<^verbatim>\<open>users\<close> are not
  part of the model.
\<close>

section \<open>Structs\<close>

record payment =
  pay_ID :: string
  pay_UserID :: string
  pay_Purpose :: pay_purpose
  pay_Amount :: money
  pay_Status :: pay_status
  pay_PSPRef :: string
  pay_Subject :: string
  pay_Memo :: string
  pay_CreatedAt :: instant
  pay_UpdatedAt :: instant

record subscription =
  sub_ID :: string
  sub_UserID :: string
  sub_Purpose :: pay_purpose
  sub_Subject :: string
  sub_PSPRef :: string
  sub_Active :: bool
  sub_StartedAt :: instant
  sub_ExpiresAt :: instant
  sub_CanceledAt :: "instant option"

section \<open>Rows\<close>

text \<open>Nullable columns are options: the adapter writes \<^verbatim>\<open>""\<close> as NULL and reads NULL as \<^verbatim>\<open>""\<close>.\<close>

definition nullStr :: "string \<Rightarrow> string option" where
  "nullStr s = (if s = [] then None else Some s)"

definition coalesce :: "string option \<Rightarrow> string" where
  "coalesce v = (case v of None \<Rightarrow> [] | Some s \<Rightarrow> s)"

record payment_row =
  r_id :: string
  r_user_id :: string
  r_purpose :: string
  r_amount_cents :: int
  r_currency :: string
  r_status :: string
  r_psp_ref :: "string option"
  r_subject :: "string option"
  r_memo :: "string option"
  r_created_at :: instant
  r_updated_at :: instant

record sub_row =
  s_id :: string
  s_user_id :: string
  s_purpose :: string
  s_subject :: string
  s_psp_ref :: "string option"
  s_active :: bool
  s_started_at :: instant
  s_expires_at :: instant
  s_canceled_at :: "instant option"

record event_row =
  e_event_id :: string
  e_psp_ref :: "string option"
  e_raw_kind :: string
  e_processed_at :: instant

record pay_db =
  payments_tbl :: "payment_row list"
  subscriptions_tbl :: "sub_row list"
  payment_events_tbl :: "event_row list"

definition empty_pay_db :: pay_db where
  "empty_pay_db = \<lparr>payments_tbl = [], subscriptions_tbl = [], payment_events_tbl = []\<rparr>"

definition payment_to_row :: "payment \<Rightarrow> payment_row" where
  "payment_to_row p =
     \<lparr>r_id = pay_ID p, r_user_id = pay_UserID p, r_purpose = pay_Purpose p,
      r_amount_cents = Cents (pay_Amount p), r_currency = Currency (pay_Amount p),
      r_status = pay_Status p, r_psp_ref = nullStr (pay_PSPRef p),
      r_subject = nullStr (pay_Subject p), r_memo = nullStr (pay_Memo p),
      r_created_at = pay_CreatedAt p, r_updated_at = pay_UpdatedAt p\<rparr>"

text \<open>The scan of one row, shared by \<^verbatim>\<open>scanOne\<close> and \<^verbatim>\<open>scanPayments\<close>.\<close>

definition scan_payment :: "payment_row \<Rightarrow> payment" where
  "scan_payment r =
     \<lparr>pay_ID = r_id r, pay_UserID = r_user_id r, pay_Purpose = r_purpose r,
      pay_Amount = \<lparr>Cents = r_amount_cents r, Currency = r_currency r\<rparr>,
      pay_Status = r_status r, pay_PSPRef = coalesce (r_psp_ref r),
      pay_Subject = coalesce (r_subject r), pay_Memo = coalesce (r_memo r),
      pay_CreatedAt = r_created_at r, pay_UpdatedAt = r_updated_at r\<rparr>"

definition scan_subscription :: "sub_row \<Rightarrow> subscription" where
  "scan_subscription r =
     \<lparr>sub_ID = s_id r, sub_UserID = s_user_id r, sub_Purpose = s_purpose r,
      sub_Subject = s_subject r, sub_PSPRef = coalesce (s_psp_ref r),
      sub_Active = s_active r, sub_StartedAt = s_started_at r,
      sub_ExpiresAt = s_expires_at r, sub_CanceledAt = s_canceled_at r\<rparr>"

section \<open>Schema constraints\<close>

definition payments_purpose_known :: "string \<Rightarrow> bool" where
  "payments_purpose_known p \<longleftrightarrow> p \<in> {''premium'', ''channel_sub'', ''p2p_transfer''}"

definition payments_status_known :: "string \<Rightarrow> bool" where
  "payments_status_known s \<longleftrightarrow>
     s \<in> {''pending'', ''succeeded'', ''failed'', ''canceled'', ''refunded''}"

definition subscriptions_purpose_known :: "string \<Rightarrow> bool" where
  "subscriptions_purpose_known p \<longleftrightarrow> p \<in> {''premium'', ''channel_sub''}"

definition payment_row_ok :: "payment_row \<Rightarrow> bool" where
  "payment_row_ok r \<longleftrightarrow>
     r_amount_cents r > 0 \<and> length (r_currency r) = 3 \<and>
     payments_purpose_known (r_purpose r) \<and> payments_status_known (r_status r)"

text \<open>The columns and the condition of the partial unique index \<^verbatim>\<open>subscriptions_one_active\<close>.\<close>

definition sub_slot :: "sub_row \<Rightarrow> string \<times> string \<times> string" where
  "sub_slot r = (s_user_id r, s_purpose r, s_subject r)"

definition sub_live :: "sub_row \<Rightarrow> bool" where
  "sub_live r \<longleftrightarrow> s_active r \<and> s_canceled_at r = None"

section \<open>Statements\<close>

definition pg_CreatePayment :: "payment \<Rightarrow> pay_db \<Rightarrow> pay_db option" where
  "pg_CreatePayment p db =
     (let r = payment_to_row p in
      if \<not> payment_row_ok r then None
      else if r_psp_ref r \<noteq> None \<and> r_psp_ref r \<in> r_psp_ref ` set (payments_tbl db) then None
      else case tbl_ins r_id r (payments_tbl db) of
             None \<Rightarrow> None
           | Some rows \<Rightarrow> Some (db\<lparr>payments_tbl := rows\<rparr>))"

definition pg_GetPayment :: "pay_db \<Rightarrow> string \<Rightarrow> payment option" where
  "pg_GetPayment db i = map_option scan_payment (tbl_get r_id i (payments_tbl db))"

text \<open>\<^verbatim>\<open>WHERE psp_ref = $1\<close> is never true of a NULL.\<close>

definition pg_GetPaymentByPSPRef :: "pay_db \<Rightarrow> string \<Rightarrow> payment option" where
  "pg_GetPaymentByPSPRef db ref =
     map_option scan_payment (tbl_get r_psp_ref (Some ref) (payments_tbl db))"

definition pg_ListPaymentsByUser :: "pay_db \<Rightarrow> string \<Rightarrow> nat \<Rightarrow> payment list" where
  "pg_ListPaymentsByUser db uid limit =
     map scan_payment (take limit (order_desc r_created_at
       (filter (\<lambda>r. r_user_id r = uid) (payments_tbl db))))"

definition pg_ListPayments :: "pay_db \<Rightarrow> string \<Rightarrow> nat \<Rightarrow> payment list" where
  "pg_ListPayments db status limit =
     map scan_payment (take limit (order_desc r_created_at
       (filter (\<lambda>r. status = [] \<or> r_status r = status) (payments_tbl db))))"

definition subscription_to_row :: "subscription \<Rightarrow> sub_row" where
  "subscription_to_row s =
     \<lparr>s_id = sub_ID s, s_user_id = sub_UserID s, s_purpose = sub_Purpose s,
      s_subject = sub_Subject s, s_psp_ref = nullStr (sub_PSPRef s), s_active = True,
      s_started_at = sub_StartedAt s, s_expires_at = sub_ExpiresAt s, s_canceled_at = None\<rparr>"

text \<open>\<^verbatim>\<open>INSERT ... ON CONFLICT ... DO UPDATE\<close> of a subscription.\<close>

definition pg_upsert_subscription :: "subscription \<Rightarrow> sub_row list \<Rightarrow> sub_row list option" where
  "pg_upsert_subscription sub rows =
     (let n = subscription_to_row sub in
      if \<not> subscriptions_purpose_known (s_purpose n) then None
      else if \<exists>r\<in>set rows. sub_live r \<and> sub_slot r = sub_slot n then
        Some (map (\<lambda>r. if sub_live r \<and> sub_slot r = sub_slot n
                       then r\<lparr>s_expires_at := max (s_expires_at r) (s_expires_at n),
                              s_psp_ref := s_psp_ref n\<rparr>
                       else r) rows)
      else tbl_ins s_id n rows)"

text \<open>One transaction: a failure of either statement rolls back both.\<close>

definition pg_UpdateStatus ::
  "string \<Rightarrow> pay_status \<Rightarrow> instant \<Rightarrow> subscription option \<Rightarrow> pay_db \<Rightarrow> pay_db option" where
  "pg_UpdateStatus pid to t sub db =
     (if pid \<in> r_id ` set (payments_tbl db) \<and> \<not> payments_status_known to then None
      else
        let db1 = db\<lparr>payments_tbl :=
              tbl_upd r_id pid (\<lambda>r. r\<lparr>r_status := to, r_updated_at := t\<rparr>) (payments_tbl db)\<rparr>
        in case sub of
             None \<Rightarrow> Some db1
           | Some sb \<Rightarrow>
               (case pg_upsert_subscription sb (subscriptions_tbl db1) of
                  None \<Rightarrow> None
                | Some rows \<Rightarrow> Some (db1\<lparr>subscriptions_tbl := rows\<rparr>)))"

definition pg_ListSubscriptionsByUser :: "pay_db \<Rightarrow> string \<Rightarrow> subscription list" where
  "pg_ListSubscriptionsByUser db uid =
     map scan_subscription (order_desc s_started_at
       (filter (\<lambda>r. s_user_id r = uid) (subscriptions_tbl db)))"

definition pg_ActiveSubscription ::
  "pay_db \<Rightarrow> string \<Rightarrow> pay_purpose \<Rightarrow> string \<Rightarrow> instant \<Rightarrow> subscription option" where
  "pg_ActiveSubscription db uid purpose subject now =
     (case order_desc s_expires_at
        (filter (\<lambda>r. s_user_id r = uid \<and> s_purpose r = purpose \<and> s_subject r = subject
                     \<and> s_active r \<and> s_canceled_at r = None \<and> s_expires_at r > now)
           (subscriptions_tbl db)) of
        [] \<Rightarrow> None
      | r # _ \<Rightarrow> Some (scan_subscription r))"

definition pg_CancelSubscription :: "string \<Rightarrow> string \<Rightarrow> instant \<Rightarrow> pay_db \<Rightarrow> pay_db" where
  "pg_CancelSubscription uid sid t db =
     db\<lparr>subscriptions_tbl :=
       map (\<lambda>r. if s_id r = sid \<and> s_user_id r = uid \<and> s_canceled_at r = None
                then r\<lparr>s_canceled_at := Some t\<rparr> else r) (subscriptions_tbl db)\<rparr>"

text \<open>\<open>None\<close> is the unique violation, which the adapter reports as \<^verbatim>\<open>ErrDuplicateEvt\<close>.\<close>

definition pg_MarkEventProcessed ::
  "string \<Rightarrow> string \<Rightarrow> string \<Rightarrow> instant \<Rightarrow> pay_db \<Rightarrow> pay_db option" where
  "pg_MarkEventProcessed eventID pspRef rawKind t db =
     (case tbl_ins e_event_id
        \<lparr>e_event_id = eventID, e_psp_ref = nullStr pspRef, e_raw_kind = rawKind, e_processed_at = t\<rparr>
        (payment_events_tbl db) of
        None \<Rightarrow> None
      | Some rows \<Rightarrow> Some (db\<lparr>payment_events_tbl := rows\<rparr>))"

section \<open>The invariant of the schema\<close>

text \<open>
  Primary keys, the partial unique indexes and the CHECK constraints. The two partial indexes
  are stated as: two different rows never share a slot.
\<close>

definition psp_refs_unique :: "payment_row list \<Rightarrow> bool" where
  "psp_refs_unique rows \<longleftrightarrow> distinct (map r_psp_ref (filter (\<lambda>r. r_psp_ref r \<noteq> None) rows))"

definition one_live_sub :: "sub_row list \<Rightarrow> bool" where
  "one_live_sub rows \<longleftrightarrow> distinct (map sub_slot (filter sub_live rows))"

definition pay_db_wf :: "pay_db \<Rightarrow> bool" where
  "pay_db_wf db \<longleftrightarrow>
     tbl_wf r_id (payments_tbl db) \<and> list_all payment_row_ok (payments_tbl db) \<and>
     psp_refs_unique (payments_tbl db) \<and>
     tbl_wf s_id (subscriptions_tbl db) \<and> one_live_sub (subscriptions_tbl db) \<and>
     list_all (\<lambda>r. subscriptions_purpose_known (s_purpose r)) (subscriptions_tbl db) \<and>
     tbl_wf e_event_id (payment_events_tbl db)"

section \<open>Laws\<close>

lemma coalesce_nullStr [simp]: "coalesce (nullStr s) = s"
  by (simp add: coalesce_def nullStr_def)

lemma nullStr_eq_Some [simp]: "nullStr s = Some t \<longleftrightarrow> s = t \<and> s \<noteq> []"
  by (auto simp: nullStr_def)

lemma nullStr_eq_None [simp]: "nullStr s = None \<longleftrightarrow> s = []"
  by (simp add: nullStr_def)

lemma nullStr_Nil [simp]: "nullStr [] = None"
  by (simp add: nullStr_def)

lemma scan_payment_to_row [simp]: "scan_payment (payment_to_row p) = p"
  by (simp add: scan_payment_def payment_to_row_def)

lemma payment_to_row_id [simp]: "r_id (payment_to_row p) = pay_ID p"
  by (simp add: payment_to_row_def)

lemma payment_to_row_psp_ref [simp]: "r_psp_ref (payment_to_row p) = nullStr (pay_PSPRef p)"
  by (simp add: payment_to_row_def)

lemma scan_payment_sel [simp]:
  "pay_ID (scan_payment r) = r_id r" "pay_Status (scan_payment r) = r_status r"
  "pay_UserID (scan_payment r) = r_user_id r" "pay_Purpose (scan_payment r) = r_purpose r"
  "pay_PSPRef (scan_payment r) = coalesce (r_psp_ref r)"
  "pay_Subject (scan_payment r) = coalesce (r_subject r)"
  "pay_Memo (scan_payment r) = coalesce (r_memo r)"
  by (simp_all add: scan_payment_def)

lemma pg_CreatePayment_Some:
  "pg_CreatePayment p db = Some db' \<longleftrightarrow>
     payment_row_ok (payment_to_row p)
     \<and> (nullStr (pay_PSPRef p) = None \<or> nullStr (pay_PSPRef p) \<notin> r_psp_ref ` set (payments_tbl db))
     \<and> pay_ID p \<notin> r_id ` set (payments_tbl db)
     \<and> db' = db\<lparr>payments_tbl := payments_tbl db @ [payment_to_row p]\<rparr>"
  by (auto simp: pg_CreatePayment_def tbl_ins_def Let_def split: if_splits)

lemma pg_CreatePayment_taken:
  "pay_ID p \<in> r_id ` set (payments_tbl db) \<Longrightarrow> pg_CreatePayment p db = None"
  by (simp add: pg_CreatePayment_def tbl_ins_def Let_def)

interpretation payment_rows: keyed_store pay_ID pg_GetPayment "\<lambda>db p. pg_CreatePayment p db" pay_db_wf
proof
  show "pay_ID r = k" if "pg_GetPayment s k = Some r" for s k r
    using that by (auto simp: pg_GetPayment_def dest: tbl_get_Some)
  show "pg_CreatePayment r s = None" if "pg_GetPayment s (pay_ID r) \<noteq> None" for s r
    using that
    by (intro pg_CreatePayment_taken) (auto simp: pg_GetPayment_def intro: rev_image_eqI dest!: tbl_get_Some)
  show "pg_GetPayment s' k = (if k = pay_ID r then Some r else pg_GetPayment s k)"
    if "pg_CreatePayment r s = Some s'" for s r s' k
    using that tbl_get_fresh [of "pay_ID r" r_id "payments_tbl s"]
    by (auto simp: pg_CreatePayment_Some pg_GetPayment_def tbl_get_append tbl_get_Cons
        split: option.split)
  show "pay_db_wf s'" if "pay_db_wf s" "pg_CreatePayment r s = Some s'" for s r s'
    using that
    by (auto simp: pg_CreatePayment_Some pay_db_wf_def tbl_wf_def psp_refs_unique_def)
qed

text \<open>Each write statement keeps the schema's constraints.\<close>

lemma wf_MarkEventProcessed:
  "pay_db_wf db \<Longrightarrow> pg_MarkEventProcessed e ref kind t db = Some db' \<Longrightarrow> pay_db_wf db'"
  by (auto simp: pg_MarkEventProcessed_def pay_db_wf_def tbl_wf_ins split: option.splits)

lemma filter_psp_ref_upd:
  "map r_psp_ref (filter (\<lambda>r. r_psp_ref r \<noteq> None)
     (tbl_upd r_id pid (\<lambda>r. r\<lparr>r_status := to, r_updated_at := t\<rparr>) rows))
   = map r_psp_ref (filter (\<lambda>r. r_psp_ref r \<noteq> None) rows)"
  by (induction rows) (auto simp: tbl_upd_def)

lemma one_live_sub_upd:
  assumes "\<And>r. sub_slot (f r) = sub_slot r" and "\<And>r. sub_live (f r) \<Longrightarrow> sub_live r"
    and "one_live_sub rows"
  shows "one_live_sub (map f rows)"
proof -
  have "map sub_slot (filter sub_live (map f rows))
      = map sub_slot (filter (\<lambda>r. sub_live (f r)) (filter sub_live rows))"
    by (induction rows) (auto simp: assms(1) dest: assms(2))
  with assms(3) show ?thesis
    by (simp only: one_live_sub_def distinct_map_filter)
qed

lemma wf_upsert_subscription:
  assumes "tbl_wf s_id rows" "one_live_sub rows"
    "list_all (\<lambda>r. subscriptions_purpose_known (s_purpose r)) rows"
    "pg_upsert_subscription sb rows = Some rows'"
  shows "tbl_wf s_id rows' \<and> one_live_sub rows' \<and>
    list_all (\<lambda>r. subscriptions_purpose_known (s_purpose r)) rows'"
proof (cases "\<exists>r\<in>set rows. sub_live r \<and> sub_slot r = sub_slot (subscription_to_row sb)")
  case True
  let ?f = "\<lambda>r. if sub_live r \<and> sub_slot r = sub_slot (subscription_to_row sb)
    then r\<lparr>s_expires_at := max (s_expires_at r) (s_expires_at (subscription_to_row sb)),
           s_psp_ref := s_psp_ref (subscription_to_row sb)\<rparr> else r"
  from True assms(4) have rows': "rows' = map ?f rows"
    by (auto simp: pg_upsert_subscription_def Let_def split: if_splits)
  have "one_live_sub (map ?f rows)"
    by (rule one_live_sub_upd [OF _ _ assms(2)]) (auto simp: sub_slot_def sub_live_def split: if_splits)
  moreover have "tbl_wf s_id (map ?f rows)"
    by (rule tbl_wf_map [OF _ assms(1)]) simp
  ultimately show ?thesis
    using assms(3) unfolding rows' by (auto simp: list_all_iff)
next
  case False
  with assms(4) have k: "subscriptions_purpose_known (s_purpose (subscription_to_row sb))"
    and ins: "tbl_ins s_id (subscription_to_row sb) rows = Some rows'"
    by (auto simp: pg_upsert_subscription_def Let_def split: if_splits)
  from ins have rows': "rows' = rows @ [subscription_to_row sb]"
    by (simp add: tbl_ins_Some)
  have "sub_slot (subscription_to_row sb) \<notin> set (map sub_slot (filter sub_live rows))"
    using False by auto
  then have "one_live_sub rows'"
    using assms(2) by (auto simp: one_live_sub_def rows')
  with tbl_wf_ins [OF assms(1) ins] k assms(3) show ?thesis
    by (auto simp: rows')
qed

lemma wf_UpdateStatus:
  assumes "pay_db_wf db" "pg_UpdateStatus pid to t sub db = Some db'"
  shows "pay_db_wf db'"
proof -
  let ?rows = "tbl_upd r_id pid (\<lambda>r. r\<lparr>r_status := to, r_updated_at := t\<rparr>) (payments_tbl db)"
  have known: "pid \<in> r_id ` set (payments_tbl db) \<Longrightarrow> payments_status_known to"
    using assms(2) by (auto simp: pg_UpdateStatus_def split: if_splits)
  have "list_all payment_row_ok ?rows"
    using assms(1) known by (auto simp: pay_db_wf_def list_all_iff set_tbl_upd payment_row_ok_def)
  moreover have "tbl_wf r_id ?rows"
    using assms(1) by (intro tbl_wf_upd) (auto simp: pay_db_wf_def)
  moreover have "psp_refs_unique ?rows"
    using assms(1) unfolding pay_db_wf_def psp_refs_unique_def filter_psp_ref_upd by blast
  ultimately have pay: "pay_db_wf (db\<lparr>payments_tbl := ?rows\<rparr>)"
    using assms(1) by (simp add: pay_db_wf_def)
  show ?thesis
  proof (cases sub)
    case None
    with assms(2) pay show ?thesis
      by (auto simp: pg_UpdateStatus_def Let_def split: if_splits)
  next
    case (Some sb)
    with assms(2) obtain rows where r: "pg_upsert_subscription sb (subscriptions_tbl db) = Some rows"
      and db': "db' = db\<lparr>payments_tbl := ?rows, subscriptions_tbl := rows\<rparr>"
      by (auto simp: pg_UpdateStatus_def Let_def split: if_splits option.splits)
    from assms(1) wf_upsert_subscription [OF _ _ _ r] pay show ?thesis
      by (auto simp: pay_db_wf_def db')
  qed
qed

lemma wf_CancelSubscription:
  assumes "pay_db_wf db"
  shows "pay_db_wf (pg_CancelSubscription uid sid t db)"
proof -
  let ?f = "\<lambda>r. if s_id r = sid \<and> s_user_id r = uid \<and> s_canceled_at r = None
    then r\<lparr>s_canceled_at := Some t\<rparr> else r"
  have "one_live_sub (map ?f (subscriptions_tbl db))"
    using assms by (intro one_live_sub_upd) (auto simp: sub_slot_def sub_live_def pay_db_wf_def split: if_splits)
  moreover have "tbl_wf s_id (map ?f (subscriptions_tbl db))"
    using assms by (intro tbl_wf_map) (auto simp: pay_db_wf_def)
  ultimately show ?thesis
    using assms by (auto simp: pay_db_wf_def pg_CancelSubscription_def list_all_iff)
qed

end
