(* ===== verification/PaymentService.thy ===== *)
theory PaymentService
  imports PaymentStore
begin

text \<open>
  The payment-provider adapters (\<^verbatim>\<open>adapters/psp.go\<close>) and the payments control plane
  (\<^verbatim>\<open>service.go\<close>). The provider is a record of functions, as the Go interface \<^verbatim>\<open>PSP\<close> is; both
  implementations of the repository are instances. Each handler takes the store calls that
  fail (\<open>down\<close>), the current time, a fresh id and the database, and returns its result with
  the new database.
\<close>

section \<open>The provider interface\<close>

record intent =
  in_PaymentID :: string
  in_UserID :: string
  in_Purpose :: pay_purpose
  in_Amount :: money
  in_Subject :: string
  in_Recurring :: bool

record checkout =
  co_PaymentID :: string
  co_RedirectURL :: string
  co_PSPRef :: string
  co_ExpiresAtMS :: int

record pay_event =
  ev_ID :: string
  ev_PSPRef :: string
  ev_Status :: pay_status
  ev_RawKind :: string

text \<open>An error of the provider is \<open>None\<close> (\<open>False\<close> for a refund).\<close>

record psp =
  psp_CreateCheckout :: "intent \<Rightarrow> checkout option"
  psp_Refund :: "string \<Rightarrow> bool"
  psp_VerifyWebhook :: "string \<Rightarrow> string \<Rightarrow> pay_event option"
  psp_Enabled :: bool

record transfers =
  tr_Send :: "string \<Rightarrow> string \<Rightarrow> money \<Rightarrow> string \<Rightarrow> string option"
  tr_Enabled :: bool

section \<open>Provider adapters\<close>

definition DisabledPSP :: psp where
  "DisabledPSP =
     \<lparr>psp_CreateCheckout = (\<lambda>_. None), psp_Refund = (\<lambda>_. False),
      psp_VerifyWebhook = (\<lambda>_ _. None), psp_Enabled = False\<rparr>"

definition DisabledTransfers :: transfers where
  "DisabledTransfers = \<lparr>tr_Send = (\<lambda>_ _ _ _. None), tr_Enabled = False\<rparr>"

record hosted_config =
  cfg_Name :: string
  cfg_CheckoutBase :: string
  cfg_WebhookSecret :: string
  cfg_RegisterIntent :: "(intent \<Rightarrow> (string \<times> string) option) option"
  cfg_Refund :: "(string \<Rightarrow> bool) option"
  cfg_CheckoutTTL :: duration

record hosted_psp =
  h_checkoutBase :: string
  h_webhookSecret :: string
  h_registerIntent :: "(intent \<Rightarrow> (string \<times> string) option) option"
  h_refund :: "(string \<Rightarrow> bool) option"
  h_checkoutTTL :: duration

definition TrimRight_slash :: "string \<Rightarrow> string" where
  "TrimRight_slash s = rev (dropWhile (\<lambda>c. c = CHR ''/'') (rev s))"

definition NewHostedPSP :: "hosted_config \<Rightarrow> hosted_psp option" where
  "NewHostedPSP cfg =
     (if TrimSpace (cfg_Name cfg) = [] \<or> TrimSpace (cfg_CheckoutBase cfg) = []
         \<or> TrimSpace (cfg_WebhookSecret cfg) = [] then None
      else Some
        \<lparr>h_checkoutBase = TrimRight_slash (cfg_CheckoutBase cfg),
         h_webhookSecret = cfg_WebhookSecret cfg,
         h_registerIntent = cfg_RegisterIntent cfg, h_refund = cfg_Refund cfg,
         h_checkoutTTL = (if cfg_CheckoutTTL cfg \<le> 0 then 30 * Minute else cfg_CheckoutTTL cfg)\<rparr>)"

definition hosted_CreateCheckout :: "hosted_psp \<Rightarrow> instant \<Rightarrow> intent \<Rightarrow> checkout option" where
  "hosted_CreateCheckout h now i =
     (let mk = (\<lambda>(url, ref).
        \<lparr>co_PaymentID = [], co_RedirectURL = url, co_PSPRef = ref,
         co_ExpiresAtMS = UnixMilli (now + h_checkoutTTL h)\<rparr>)
      in case h_registerIntent h of
           Some f \<Rightarrow> map_option mk (f i)
         | None \<Rightarrow> Some (mk (h_checkoutBase h @ ''/'' @ in_PaymentID i, in_PaymentID i)))"

definition hosted_Refund :: "hosted_psp \<Rightarrow> string \<Rightarrow> bool" where
  "hosted_Refund h ref = (case h_refund h of None \<Rightarrow> False | Some f \<Rightarrow> f ref)"

record hosted_event =
  he_ID :: string
  he_Ref :: string
  he_Kind :: string
  he_Status :: string

definition mapKind :: "string \<Rightarrow> string \<Rightarrow> pay_status option" where
  "mapKind kind status =
     (if Contains kind ''succeed'' \<or> Contains kind ''captur'' \<or> Contains kind ''paid''
      then Some StatusSucceeded
      else if Contains kind ''fail'' \<or> Contains kind ''declin'' then Some StatusFailed
      else if Contains kind ''cancel'' \<or> Contains kind ''expir'' then Some StatusCanceled
      else if Contains kind ''refund'' then Some StatusRefunded
      else if status \<noteq> [] then (case ParseStatus status of Inl _ \<Rightarrow> None | Inr s \<Rightarrow> Some s)
      else None)"

text \<open>\<open>unmarshal\<close> stands for \<^verbatim>\<open>json.Unmarshal\<close> into the event struct.\<close>

definition hosted_VerifyWebhook ::
  "(string \<Rightarrow> string \<Rightarrow> string) \<Rightarrow> (string \<Rightarrow> hosted_event option) \<Rightarrow> hosted_psp \<Rightarrow>
   string \<Rightarrow> string \<Rightarrow> pay_event option" where
  "hosted_VerifyWebhook hmac unmarshal h payload signature =
     (case VerifyWebhook hmac (h_webhookSecret h) payload signature of
        Some _ \<Rightarrow> None
      | None \<Rightarrow>
         (case unmarshal payload of
            None \<Rightarrow> None
          | Some ev \<Rightarrow>
             if he_ID ev = [] \<or> he_Ref ev = [] then None
             else (case mapKind (he_Kind ev) (he_Status ev) of
                     None \<Rightarrow> None
                   | Some st \<Rightarrow> Some \<lparr>ev_ID = he_ID ev, ev_PSPRef = he_Ref ev,
                                      ev_Status = st, ev_RawKind = he_Kind ev\<rparr>)))"

definition HostedPSP ::
  "(string \<Rightarrow> string \<Rightarrow> string) \<Rightarrow> (string \<Rightarrow> hosted_event option) \<Rightarrow> hosted_psp \<Rightarrow> instant \<Rightarrow> psp" where
  "HostedPSP hmac unmarshal h now =
     \<lparr>psp_CreateCheckout = hosted_CreateCheckout h now, psp_Refund = hosted_Refund h,
      psp_VerifyWebhook = hosted_VerifyWebhook hmac unmarshal h, psp_Enabled = True\<rparr>"

section \<open>The service\<close>

definition SubscriptionPeriod :: duration where
  "SubscriptionPeriod = 30 * 24 * Hour"

definition maxMemoLen :: nat where "maxMemoLen = 200"
definition defaultListLimit :: int where "defaultListLimit = 50"
definition maxListLimit :: int where "maxListLimit = 200"

datatype pay_call =
    CallCreatePayment | CallGetPayment | CallGetPaymentByPSPRef | CallListPaymentsByUser
  | CallUpdateStatus | CallListSubscriptionsByUser | CallActiveSubscription
  | CallCancelSubscription | CallMarkEventProcessed | CallListPayments

record payment_view =
  pv_ID :: string
  pv_Purpose :: string
  pv_AmountCents :: int
  pv_Currency :: string
  pv_Status :: string
  pv_Subject :: string
  pv_Memo :: string
  pv_CreatedAtMS :: int
  pv_UpdatedAtMS :: int

record subscription_view =
  sv_ID :: string
  sv_Purpose :: string
  sv_Subject :: string
  sv_Active :: bool
  sv_StartedAtMS :: int
  sv_ExpiresAtMS :: int
  sv_Canceled :: bool

definition pay_view :: "payment \<Rightarrow> payment_view" where
  "pay_view p =
     \<lparr>pv_ID = pay_ID p, pv_Purpose = pay_Purpose p, pv_AmountCents = Cents (pay_Amount p),
      pv_Currency = Currency (pay_Amount p), pv_Status = pay_Status p,
      pv_Subject = pay_Subject p, pv_Memo = pay_Memo p,
      pv_CreatedAtMS = UnixMilli (pay_CreatedAt p), pv_UpdatedAtMS = UnixMilli (pay_UpdatedAt p)\<rparr>"

definition subView :: "subscription \<Rightarrow> subscription_view" where
  "subView s =
     \<lparr>sv_ID = sub_ID s, sv_Purpose = sub_Purpose s, sv_Subject = sub_Subject s,
      sv_Active = sub_Active s, sv_StartedAtMS = UnixMilli (sub_StartedAt s),
      sv_ExpiresAtMS = UnixMilli (sub_ExpiresAt s), sv_Canceled = (sub_CanceledAt s \<noteq> None)\<rparr>"

definition pay_clamp :: "int \<Rightarrow> int" where
  "pay_clamp n = (if n \<le> 0 then defaultListLimit else if n > maxListLimit then maxListLimit else n)"

definition startPurchase ::
  "(pay_call \<Rightarrow> bool) \<Rightarrow> psp \<Rightarrow> instant \<Rightarrow> string \<Rightarrow> pay_db \<Rightarrow> identity \<Rightarrow> pay_purpose \<Rightarrow>
   string \<Rightarrow> int \<Rightarrow> string \<Rightarrow> string \<Rightarrow> bool \<Rightarrow> checkout result \<times> pay_db" where
  "startPurchase down psp now newID db ident purpose subject cents currency memo recurring =
     (if \<not> psp_Enabled psp then (Inl (Reject 503 ''PAYMENTS_DISABLED''), db)
      else case NewMoney cents currency of
        Inl _ \<Rightarrow> (Inl (Reject 400 ''VALIDATION_AMOUNT''), db)
      | Inr amount \<Rightarrow>
        if RejectsCardDataIn [memo, subject] \<noteq> None then (Inl (Reject 400 ''VALIDATION_CARD_DATA''), db)
        else if length memo > maxMemoLen then (Inl (Reject 400 ''VALIDATION_MEMO''), db)
        else
          let p = \<lparr>pay_ID = newID, pay_UserID = UserID ident, pay_Purpose = purpose,
                   pay_Amount = amount, pay_Status = StatusPending, pay_PSPRef = [],
                   pay_Subject = subject, pay_Memo = memo,
                   pay_CreatedAt = now, pay_UpdatedAt = now\<rparr>
          in case (if down CallCreatePayment then None else pg_CreatePayment p db) of
               None \<Rightarrow> (Inl Transient, db)
             | Some db1 \<Rightarrow>
                (case psp_CreateCheckout psp
                    \<lparr>in_PaymentID = pay_ID p, in_UserID = pay_UserID p, in_Purpose = purpose,
                     in_Amount = amount, in_Subject = subject, in_Recurring = recurring\<rparr> of
                   None \<Rightarrow> (Inl (Reject 502 ''PAYMENTS_PSP_ERROR''), db1)
                 | Some co \<Rightarrow> (Inr (co\<lparr>co_PaymentID := pay_ID p\<rparr>), db1)))"

definition StartPremium ::
  "(pay_call \<Rightarrow> bool) \<Rightarrow> psp \<Rightarrow> instant \<Rightarrow> string \<Rightarrow> pay_db \<Rightarrow> identity \<Rightarrow> int \<Rightarrow> string \<Rightarrow>
   checkout result \<times> pay_db" where
  "StartPremium down psp now newID db ident cents currency =
     startPurchase down psp now newID db ident PurposePremium [] cents currency [] True"

definition StartChannelSubscription ::
  "(pay_call \<Rightarrow> bool) \<Rightarrow> psp \<Rightarrow> instant \<Rightarrow> string \<Rightarrow> pay_db \<Rightarrow> identity \<Rightarrow> string \<Rightarrow> int \<Rightarrow>
   string \<Rightarrow> checkout result \<times> pay_db" where
  "StartChannelSubscription down psp now newID db ident channelID cents currency =
     (if TrimSpace channelID = [] then (Inl (Reject 400 ''VALIDATION_CHANNEL''), db)
      else startPurchase down psp now newID db ident PurposeChannel channelID cents currency [] True)"

definition SendP2P ::
  "(pay_call \<Rightarrow> bool) \<Rightarrow> transfers option \<Rightarrow> instant \<Rightarrow> string \<Rightarrow> pay_db \<Rightarrow> identity \<Rightarrow> string \<Rightarrow>
   int \<Rightarrow> string \<Rightarrow> string \<Rightarrow> payment_view result \<times> pay_db" where
  "SendP2P down tr now newID db ident toUserID cents currency memo =
     (case tr of
        None \<Rightarrow> (Inl (Reject 501 ''P2P_DISABLED''), db)
      | Some t \<Rightarrow>
        if \<not> tr_Enabled t then (Inl (Reject 501 ''P2P_DISABLED''), db)
        else if TrimSpace toUserID = [] \<or> toUserID = UserID ident
        then (Inl (Reject 400 ''VALIDATION_PAYEE''), db)
        else case NewMoney cents currency of
          Inl _ \<Rightarrow> (Inl (Reject 400 ''VALIDATION_AMOUNT''), db)
        | Inr amount \<Rightarrow>
          if RejectsCardData memo \<noteq> None then (Inl (Reject 400 ''VALIDATION_CARD_DATA''), db)
          else if length memo > maxMemoLen then (Inl (Reject 400 ''VALIDATION_MEMO''), db)
          else
            let p = \<lparr>pay_ID = newID, pay_UserID = UserID ident, pay_Purpose = PurposeP2P,
                     pay_Amount = amount, pay_Status = StatusPending, pay_PSPRef = [],
                     pay_Subject = toUserID, pay_Memo = memo,
                     pay_CreatedAt = now, pay_UpdatedAt = now\<rparr>
            in case (if down CallCreatePayment then None else pg_CreatePayment p db) of
                 None \<Rightarrow> (Inl Transient, db)
               | Some db1 \<Rightarrow>
                  (case tr_Send t (UserID ident) toUserID amount memo of
                     None \<Rightarrow> (Inl (Reject 502 ''P2P_PROVIDER_ERROR''), db1)
                   | Some ref \<Rightarrow> (Inr (pay_view (p\<lparr>pay_PSPRef := ref\<rparr>)), db1)))"

text \<open>The subscription a successful payment buys.\<close>

definition granted_subscription ::
  "string \<Rightarrow> instant \<Rightarrow> payment \<Rightarrow> pay_status \<Rightarrow> subscription option" where
  "granted_subscription newID now p st =
     (if st = StatusSucceeded \<and> (pay_Purpose p = PurposePremium \<or> pay_Purpose p = PurposeChannel)
      then Some \<lparr>sub_ID = newID, sub_UserID = pay_UserID p, sub_Purpose = pay_Purpose p,
                 sub_Subject = pay_Subject p, sub_PSPRef = pay_PSPRef p, sub_Active = True,
                 sub_StartedAt = now, sub_ExpiresAt = now + SubscriptionPeriod,
                 sub_CanceledAt = None\<rparr>
      else None)"

definition HandleWebhook ::
  "(pay_call \<Rightarrow> bool) \<Rightarrow> psp \<Rightarrow> instant \<Rightarrow> string \<Rightarrow> pay_db \<Rightarrow> string \<Rightarrow> string \<Rightarrow>
   unit result \<times> pay_db" where
  "HandleWebhook down psp now newID db raw signature =
     (case psp_VerifyWebhook psp raw signature of
        None \<Rightarrow> (Inl (Reject 400 ''WEBHOOK_SIGNATURE''), db)
      | Some ev \<Rightarrow>
        if down CallMarkEventProcessed then (Inl Transient, db)
        else case pg_MarkEventProcessed (ev_ID ev) (ev_PSPRef ev) (ev_RawKind ev) now db of
          None \<Rightarrow> (Inr (), db)
        | Some db1 \<Rightarrow>
          if down CallGetPaymentByPSPRef then (Inl Transient, db1)
          else case pg_GetPaymentByPSPRef db1 (ev_PSPRef ev) of
            None \<Rightarrow> (Inr (), db1)
          | Some p \<Rightarrow>
            (case Transition (pay_Status p) (ev_Status ev) of
               Inl _ \<Rightarrow> (Inr (), db1)
             | Inr changed \<Rightarrow>
               if \<not> changed then (Inr (), db1)
               else
                 let sub = granted_subscription newID now p (ev_Status ev)
                 in case (if down CallUpdateStatus then None
                          else pg_UpdateStatus (pay_ID p) (ev_Status ev) now sub db1) of
                      None \<Rightarrow> (Inl Transient, db1)
                    | Some db2 \<Rightarrow> (Inr (), db2)))"

definition MyPayments ::
  "(pay_call \<Rightarrow> bool) \<Rightarrow> pay_db \<Rightarrow> identity \<Rightarrow> int \<Rightarrow> payment_view list result" where
  "MyPayments down db ident limit =
     (if down CallListPaymentsByUser then Inl Transient
      else Inr (map pay_view (pg_ListPaymentsByUser db (UserID ident) (nat (pay_clamp limit)))))"

definition MySubscriptions ::
  "(pay_call \<Rightarrow> bool) \<Rightarrow> pay_db \<Rightarrow> identity \<Rightarrow> subscription_view list result" where
  "MySubscriptions down db ident =
     (if down CallListSubscriptionsByUser then Inl Transient
      else Inr (map subView (pg_ListSubscriptionsByUser db (UserID ident))))"

text \<open>A store failure is returned as it is by the entitlement checks: \<open>None\<close>.\<close>

definition HasPremium :: "(pay_call \<Rightarrow> bool) \<Rightarrow> instant \<Rightarrow> pay_db \<Rightarrow> string \<Rightarrow> bool option" where
  "HasPremium down now db uid =
     (if down CallActiveSubscription then None
      else Some (pg_ActiveSubscription db uid PurposePremium [] now \<noteq> None))"

definition HasChannelSubscription ::
  "(pay_call \<Rightarrow> bool) \<Rightarrow> instant \<Rightarrow> pay_db \<Rightarrow> string \<Rightarrow> string \<Rightarrow> bool option" where
  "HasChannelSubscription down now db uid channelID =
     (if down CallActiveSubscription then None
      else Some (pg_ActiveSubscription db uid PurposeChannel channelID now \<noteq> None))"

definition CancelSubscription ::
  "(pay_call \<Rightarrow> bool) \<Rightarrow> instant \<Rightarrow> pay_db \<Rightarrow> identity \<Rightarrow> string \<Rightarrow> unit result \<times> pay_db" where
  "CancelSubscription down now db ident subscriptionID =
     (if down CallCancelSubscription then (Inl Transient, db)
      else (Inr (), pg_CancelSubscription (UserID ident) subscriptionID now db))"

definition AdminList ::
  "(pay_call \<Rightarrow> bool) \<Rightarrow> pay_db \<Rightarrow> string \<Rightarrow> int \<Rightarrow> payment_view list result" where
  "AdminList down db status limit =
     (if status \<noteq> [] \<and> isl (ParseStatus status) then Inl (Reject 400 ''VALIDATION_STATUS'')
      else if down CallListPayments then Inl Transient
      else Inr (map pay_view (pg_ListPayments db status (nat (pay_clamp limit)))))"

definition AdminRefund ::
  "(pay_call \<Rightarrow> bool) \<Rightarrow> psp \<Rightarrow> instant \<Rightarrow> pay_db \<Rightarrow> string \<Rightarrow> unit result \<times> pay_db" where
  "AdminRefund down psp now db paymentID =
     (if down CallGetPayment then (Inl Transient, db)
      else case pg_GetPayment db paymentID of
        None \<Rightarrow> (Inl (Reject 404 ''PAYMENT_NOT_FOUND''), db)
      | Some p \<Rightarrow>
        if \<not> CanTransition (pay_Status p) StatusRefunded
        then (Inl (Reject 409 ''STATE_NOT_REFUNDABLE''), db)
        else if \<not> psp_Refund psp (pay_PSPRef p) then (Inl (Reject 502 ''PAYMENTS_PSP_ERROR''), db)
        else case (if down CallUpdateStatus then None
                   else pg_UpdateStatus (pay_ID p) StatusRefunded now None db) of
               None \<Rightarrow> (Inl Transient, db)
             | Some db1 \<Rightarrow> (Inr (), db1))"

section \<open>Requests\<close>

text \<open>
  The state-changing requests of \<^verbatim>\<open>http.go\<close> and of the admin console, with what the environment
  supplies to each: failing store calls, the provider, the clock and a fresh id.
\<close>

record pay_env =
  env_down :: "pay_call \<Rightarrow> bool"
  env_psp :: psp
  env_transfers :: "transfers option"
  env_now :: instant
  env_newID :: string

datatype pay_req =
    ReqPremium identity int string
  | ReqChannel identity string int string
  | ReqTransfer identity string int string string
  | ReqCancel identity string
  | ReqWebhook string string
  | ReqRefund string

fun pay_step :: "pay_db \<Rightarrow> pay_env \<times> pay_req \<Rightarrow> pay_db" where
  "pay_step db (e, ReqPremium ident cents cur) =
     snd (StartPremium (env_down e) (env_psp e) (env_now e) (env_newID e) db ident cents cur)"
| "pay_step db (e, ReqChannel ident ch cents cur) =
     snd (StartChannelSubscription (env_down e) (env_psp e) (env_now e) (env_newID e) db ident ch cents cur)"
| "pay_step db (e, ReqTransfer ident to cents cur memo) =
     snd (SendP2P (env_down e) (env_transfers e) (env_now e) (env_newID e) db ident to cents cur memo)"
| "pay_step db (e, ReqCancel ident sid) =
     snd (CancelSubscription (env_down e) (env_now e) db ident sid)"
| "pay_step db (e, ReqWebhook raw sig) =
     snd (HandleWebhook (env_down e) (env_psp e) (env_now e) (env_newID e) db raw sig)"
| "pay_step db (e, ReqRefund pid) =
     snd (AdminRefund (env_down e) (env_psp e) (env_now e) db pid)"

section \<open>What a request can do to the database\<close>

text \<open>
  Every request changes the database in one of these ways. The lemma \<open>pay_step_trans\<close> below
  is the link from the handlers; the invariants are then proved per rule.
\<close>

inductive pay_trans :: "pay_db \<Rightarrow> pay_db \<Rightarrow> bool" where
  stay: "pay_trans db db"
| create: "pg_CreatePayment p db = Some db' \<Longrightarrow> pay_Status p = StatusPending \<Longrightarrow> pay_PSPRef p = [] \<Longrightarrow>
    RejectsCardData (pay_Memo p) = None \<Longrightarrow>
    pay_Purpose p \<noteq> PurposeP2P \<longrightarrow> RejectsCardData (pay_Subject p) = None \<Longrightarrow> pay_trans db db'"
| mark: "pg_MarkEventProcessed e ref kind t db = Some db' \<Longrightarrow> pay_trans db db'"
| settle: "pg_MarkEventProcessed e ref kind t db = Some db1 \<Longrightarrow>
    pg_GetPaymentByPSPRef db1 ref = Some p \<Longrightarrow> CanTransition (pay_Status p) st \<Longrightarrow>
    pg_UpdateStatus (pay_ID p) st t (granted_subscription i t p st) db1 = Some db' \<Longrightarrow>
    pay_trans db db'"
| refund: "pg_GetPayment db i = Some p \<Longrightarrow> CanTransition (pay_Status p) StatusRefunded \<Longrightarrow>
    pg_UpdateStatus (pay_ID p) StatusRefunded t None db = Some db' \<Longrightarrow> pay_trans db db'"
| cancel: "pay_trans db (pg_CancelSubscription uid sid t db)"

lemma purpose_distinct [simp]:
  "PurposePremium \<noteq> PurposeP2P" "PurposeChannel \<noteq> PurposeP2P" "PurposePremium \<noteq> PurposeChannel"
  by (simp_all add: purpose_defs)

lemma Transition_True: "Transition from to = Inr True \<longleftrightarrow> CanTransition from to"
  by (auto simp: Transition_def CanTransition_iff)

lemma startPurchase_trans:
  assumes "purpose \<noteq> PurposeP2P"
  shows "pay_trans db (snd (startPurchase down psp now newID db ident purpose subject cents cur memo rec))"
  unfolding startPurchase_def Let_def
  by (auto simp: assms intro: pay_trans.stay pay_trans.create split: sum.split option.split)

lemma SendP2P_trans: "pay_trans db (snd (SendP2P down tr now newID db ident to cents cur memo))"
  unfolding SendP2P_def Let_def
  by (auto intro: pay_trans.stay pay_trans.create split: sum.split option.split)

lemma HandleWebhook_trans: "pay_trans db (snd (HandleWebhook down psp now newID db raw sig))"
  unfolding HandleWebhook_def Let_def
  by (auto intro: pay_trans.stay pay_trans.mark pay_trans.settle simp: Transition_True
      split: sum.split option.split)

lemma AdminRefund_trans: "pay_trans db (snd (AdminRefund down psp now db pid))"
  unfolding AdminRefund_def
  by (auto intro: pay_trans.stay pay_trans.refund split: option.split)

lemma pay_step_trans: "pay_trans db (pay_step db x)"
  by (cases "(db, x)" rule: pay_step.cases)
    (auto simp: StartPremium_def StartChannelSubscription_def CancelSubscription_def
      startPurchase_trans SendP2P_trans HandleWebhook_trans AdminRefund_trans
      intro: pay_trans.stay pay_trans.cancel)

section \<open>Invariants\<close>

lemma pay_trans_wf: "pay_trans db db' \<Longrightarrow> pay_db_wf db \<Longrightarrow> pay_db_wf db'"
  by (induction rule: pay_trans.induct)
    (auto intro: payment_rows.wf_ins wf_MarkEventProcessed wf_UpdateStatus wf_CancelSubscription)

interpretation pay_wf: invariant_system pay_step pay_db_wf
  by unfold_locales (rule pay_trans_wf [OF pay_step_trans])

lemma pay_db_wf_empty: "pay_db_wf empty_pay_db"
  by (simp add: pay_db_wf_def empty_pay_db_def psp_refs_unique_def one_live_sub_def)

text \<open>No card data at rest: memos always pass the guard, and subjects of purchases do.\<close>

definition card_free_row :: "payment_row \<Rightarrow> bool" where
  "card_free_row r \<longleftrightarrow>
     RejectsCardData (coalesce (r_memo r)) = None \<and>
     (r_purpose r \<noteq> PurposeP2P \<longrightarrow> RejectsCardData (coalesce (r_subject r)) = None)"

definition card_free :: "pay_db \<Rightarrow> bool" where
  "card_free db \<longleftrightarrow> list_all card_free_row (payments_tbl db)"

lemma payments_MarkEvent:
  "pg_MarkEventProcessed e ref kind t db = Some db' \<Longrightarrow>
   payments_tbl db' = payments_tbl db \<and> subscriptions_tbl db' = subscriptions_tbl db"
  by (auto simp: pg_MarkEventProcessed_def split: option.splits)

lemma payments_UpdateStatus:
  "pg_UpdateStatus pid to t sub db = Some db' \<Longrightarrow>
   payments_tbl db' = tbl_upd r_id pid (\<lambda>r. r\<lparr>r_status := to, r_updated_at := t\<rparr>) (payments_tbl db)
   \<and> payment_events_tbl db' = payment_events_tbl db
   \<and> (sub = None \<longrightarrow> subscriptions_tbl db' = subscriptions_tbl db)"
  by (auto simp: pg_UpdateStatus_def Let_def split: if_splits option.splits)

lemma card_free_UpdateStatus:
  "card_free db \<Longrightarrow> pg_UpdateStatus pid to t sub db = Some db' \<Longrightarrow> card_free db'"
  by (auto simp: card_free_def card_free_row_def list_all_iff set_tbl_upd dest!: payments_UpdateStatus)

lemma pay_trans_card_free: "pay_trans db db' \<Longrightarrow> card_free db \<Longrightarrow> card_free db'"
proof (induction rule: pay_trans.induct)
  case (create p db db')
  then show ?case
    by (auto simp: pg_CreatePayment_Some card_free_def card_free_row_def payment_to_row_def)
next
  case (settle e ref kind t db db1 p st i db')
  then have "card_free db1"
    by (simp add: card_free_def payments_MarkEvent)
  with settle show ?case by (blast intro: card_free_UpdateStatus)
next
  case (refund db i p t db')
  then show ?case by (blast intro: card_free_UpdateStatus)
qed (auto simp: card_free_def pg_CancelSubscription_def dest: payments_MarkEvent)

interpretation pay_cards: invariant_system pay_step card_free
  by unfold_locales (rule pay_trans_card_free [OF pay_step_trans])

text \<open>No handler ever records a provider reference, so nothing is ever settled.\<close>

definition unsettled :: "pay_db \<Rightarrow> bool" where
  "unsettled db \<longleftrightarrow>
     list_all (\<lambda>r. r_psp_ref r = None \<and> r_status r = StatusPending) (payments_tbl db)
     \<and> subscriptions_tbl db = []"

lemma unsettled_no_ref: "unsettled db \<Longrightarrow> pg_GetPaymentByPSPRef db ref = None"
  by (auto simp: unsettled_def pg_GetPaymentByPSPRef_def list_all_iff intro!: tbl_get_fresh)

lemma pay_trans_unsettled: "pay_trans db db' \<Longrightarrow> unsettled db \<Longrightarrow> unsettled db'"
proof (induction rule: pay_trans.induct)
  case (create p db db')
  then show ?case
    by (auto simp: pg_CreatePayment_Some unsettled_def payment_to_row_def)
next
  case (settle e ref kind t db db1 p st i db')
  then have "unsettled db1"
    by (simp add: unsettled_def payments_MarkEvent)
  with settle unsettled_no_ref show ?case by auto
next
  case (refund db i p t db')
  then have "pay_Status p = StatusPending"
    by (auto simp: unsettled_def pg_GetPayment_def list_all_iff dest: tbl_get_Some)
  with refund show ?case by (simp add: CanTransition_iff)
qed (auto simp: unsettled_def pg_CancelSubscription_def dest: payments_MarkEvent)

interpretation pay_unsettled: invariant_system pay_step unsettled
  by unfold_locales (rule pay_trans_unsettled [OF pay_step_trans])

section \<open>Webhooks\<close>

lemma MarkEvent_again:
  "pg_MarkEventProcessed e ref kind t db = Some db' \<Longrightarrow> e_event_id ` set (payment_events_tbl db') = insert e (e_event_id ` set (payment_events_tbl db))"
  by (auto simp: pg_MarkEventProcessed_def tbl_ins_def split: if_splits)

lemma MarkEvent_duplicate:
  "e \<in> e_event_id ` set (payment_events_tbl db) \<Longrightarrow> pg_MarkEventProcessed e ref kind t db = None"
  by (simp add: pg_MarkEventProcessed_def tbl_ins_def)

lemma MarkEvent_fresh:
  "e \<notin> e_event_id ` set (payment_events_tbl db) \<Longrightarrow> \<exists>db'. pg_MarkEventProcessed e ref kind t db = Some db'"
  by (simp add: pg_MarkEventProcessed_def tbl_ins_def)

text \<open>Once the event gate has been passed, the event stays recorded whatever happens next.\<close>

lemma HandleWebhook_records:
  assumes "psp_VerifyWebhook psp raw sig = Some ev" "\<not> down CallMarkEventProcessed"
  shows "ev_ID ev \<in> e_event_id ` set (payment_events_tbl (snd (HandleWebhook down psp now i db raw sig)))"
proof (cases "pg_MarkEventProcessed (ev_ID ev) (ev_PSPRef ev) (ev_RawKind ev) now db")
  case None
  then have "ev_ID ev \<in> e_event_id ` set (payment_events_tbl db)"
    using MarkEvent_fresh by (metis option.distinct(1))
  with None assms show ?thesis by (simp add: HandleWebhook_def)
next
  case (Some db1)
  then have "ev_ID ev \<in> e_event_id ` set (payment_events_tbl db1)"
    by (simp add: MarkEvent_again)
  moreover have "payment_events_tbl (snd (HandleWebhook down psp now i db raw sig)) = payment_events_tbl db1"
    using assms Some
    by (auto simp: HandleWebhook_def Let_def split: option.split sum.split dest: payments_UpdateStatus)
  ultimately show ?thesis by simp
qed

lemma HandleWebhook_duplicate:
  assumes "psp_VerifyWebhook psp raw sig = Some ev" "\<not> down CallMarkEventProcessed"
    "ev_ID ev \<in> e_event_id ` set (payment_events_tbl db)"
  shows "HandleWebhook down psp now i db raw sig = (Inr (), db)"
  using assms by (simp add: HandleWebhook_def MarkEvent_duplicate)

lemma pg_ActiveSubscription_ge:
  assumes "r \<in> set (subscriptions_tbl db)" "s_user_id r = uid" "s_purpose r = pu" "s_subject r = su"
    "s_active r" "s_canceled_at r = None" "s_expires_at r > now"
  shows "\<exists>sb. pg_ActiveSubscription db uid pu su now = Some sb \<and> sub_ExpiresAt sb \<ge> s_expires_at r"
proof -
  let ?c = "\<lambda>r. s_user_id r = uid \<and> s_purpose r = pu \<and> s_subject r = su \<and> s_active r
      \<and> s_canceled_at r = None \<and> s_expires_at r > now"
  let ?l = "order_desc s_expires_at (filter ?c (subscriptions_tbl db))"
  have r: "r \<in> set ?l" using assms by simp
  then obtain x xs where l: "?l = x # xs" by (cases ?l) auto
  with r sorted_order_desc [of s_expires_at "filter ?c (subscriptions_tbl db)"]
  have "s_expires_at x \<ge> s_expires_at r" by auto
  with l show ?thesis
    by (simp add: pg_ActiveSubscription_def scan_subscription_def)
qed

lemma upsert_grants:
  assumes "subscriptions_purpose_known (sub_Purpose sb)" "sub_ID sb \<notin> s_id ` set rows"
  shows "\<exists>rows' r. pg_upsert_subscription sb rows = Some rows' \<and> r \<in> set rows'
    \<and> s_user_id r = sub_UserID sb \<and> s_purpose r = sub_Purpose sb \<and> s_subject r = sub_Subject sb
    \<and> s_active r \<and> s_canceled_at r = None \<and> s_expires_at r \<ge> sub_ExpiresAt sb"
proof (cases "\<exists>r\<in>set rows. sub_live r \<and> sub_slot r = sub_slot (subscription_to_row sb)")
  case True
  then obtain r where r: "r \<in> set rows" "sub_live r" "sub_slot r = sub_slot (subscription_to_row sb)"
    by blast
  let ?g = "\<lambda>r. r\<lparr>s_expires_at := max (s_expires_at r) (s_expires_at (subscription_to_row sb)),
           s_psp_ref := s_psp_ref (subscription_to_row sb)\<rparr>"
  let ?f = "\<lambda>r. if sub_live r \<and> sub_slot r = sub_slot (subscription_to_row sb) then ?g r else r"
  have "pg_upsert_subscription sb rows = Some (map ?f rows)"
    using True assms(1) by (auto simp: pg_upsert_subscription_def Let_def subscription_to_row_def)
  moreover have "?g r \<in> set (map ?f rows)"
    using r by force
  ultimately show ?thesis
    using r(2,3) by (auto simp: sub_slot_def sub_live_def subscription_to_row_def)
next
  case False
  then have "pg_upsert_subscription sb rows = Some (rows @ [subscription_to_row sb])"
    using assms by (auto simp: pg_upsert_subscription_def Let_def tbl_ins_def subscription_to_row_def)
  then show ?thesis
    by (intro exI [of _ "rows @ [subscription_to_row sb]"] exI [of _ "subscription_to_row sb"])
      (simp add: subscription_to_row_def)
qed

lemma CanTransition_known: "CanTransition from to \<Longrightarrow> payments_status_known to"
  by (auto simp: CanTransition_iff payments_status_known_def status_defs)

lemma get_by_ref_get:
  assumes "pay_db_wf db" "pg_GetPaymentByPSPRef db ref = Some p"
  shows "pg_GetPayment db (pay_ID p) = Some p"
  using assms by (auto simp: pg_GetPaymentByPSPRef_def pg_GetPayment_def pay_db_wf_def tbl_get_wf
      dest!: tbl_get_Some)

lemma GetPayment_UpdateStatus:
  assumes "pg_UpdateStatus pid to t sub db = Some db'"
  shows "pg_GetPayment db' i = (if i = pid then map_option (\<lambda>p. p\<lparr>pay_Status := to, pay_UpdatedAt := t\<rparr>)
      (pg_GetPayment db pid) else pg_GetPayment db i)"
  using payments_UpdateStatus [OF assms]
  by (auto simp: pg_GetPayment_def tbl_get_upd option.map_comp comp_def scan_payment_def)

lemma MarkEvent_frame:
  assumes "pg_MarkEventProcessed e ref kind t db = Some db1"
  shows "pg_GetPayment db1 = pg_GetPayment db" "pg_GetPaymentByPSPRef db1 = pg_GetPaymentByPSPRef db"
    "subscriptions_tbl db1 = subscriptions_tbl db"
  using payments_MarkEvent [OF assms] by (auto simp: pg_GetPayment_def pg_GetPaymentByPSPRef_def fun_eq_iff)

lemma UpdateStatus_total:
  assumes "payments_status_known st" "i \<notin> s_id ` set (subscriptions_tbl db)"
    "payments_purpose_known (pay_Purpose p)"
  shows "\<exists>db'. pg_UpdateStatus (pay_ID p) st t (granted_subscription i t p st) db = Some db'
    \<and> (st = StatusSucceeded \<and> pay_Purpose p \<noteq> PurposeP2P \<longrightarrow>
       (\<exists>sb. pg_ActiveSubscription db' (pay_UserID p) (pay_Purpose p) (pay_Subject p) t = Some sb
          \<and> sub_ExpiresAt sb \<ge> t + SubscriptionPeriod))"
proof (cases "granted_subscription i t p st")
  case None
  with assms show ?thesis
    by (auto simp: pg_UpdateStatus_def granted_subscription_def payments_purpose_known_def purpose_defs
        split: if_splits)
next
  case (Some sb)
  then have sb: "sub_ID sb = i" "sub_UserID sb = pay_UserID p" "sub_Purpose sb = pay_Purpose p"
      "sub_Subject sb = pay_Subject p" "sub_ExpiresAt sb = t + SubscriptionPeriod"
      "subscriptions_purpose_known (sub_Purpose sb)"
    by (auto simp: granted_subscription_def subscriptions_purpose_known_def purpose_defs split: if_splits)
  from upsert_grants [OF sb(6), of "subscriptions_tbl db"] assms(2) sb
  obtain rows r where u: "pg_upsert_subscription sb (subscriptions_tbl db) = Some rows"
    and r: "r \<in> set rows" "s_user_id r = pay_UserID p" "s_purpose r = pay_Purpose p"
      "s_subject r = pay_Subject p" "s_active r" "s_canceled_at r = None"
      "s_expires_at r \<ge> t + SubscriptionPeriod"
    by auto
  let ?db = "db\<lparr>payments_tbl := tbl_upd r_id (pay_ID p) (\<lambda>r. r\<lparr>r_status := st, r_updated_at := t\<rparr>)
      (payments_tbl db), subscriptions_tbl := rows\<rparr>"
  have "pg_UpdateStatus (pay_ID p) st t (Some sb) db = Some ?db"
    using assms(1) u by (simp add: pg_UpdateStatus_def Let_def)
  moreover have "0 < SubscriptionPeriod"
    by (simp add: SubscriptionPeriod_def time_units)
  then have "\<exists>x. pg_ActiveSubscription ?db (pay_UserID p) (pay_Purpose p) (pay_Subject p) t = Some x
      \<and> sub_ExpiresAt x \<ge> s_expires_at r"
    using r by (intro pg_ActiveSubscription_ge) auto
  ultimately show ?thesis using Some r(7) by force
qed

end
