(* ===== verification/PaymentProps.thy ===== *)
theory PaymentProps
  imports PaymentService
begin

text \<open>
  The properties of the payments component, over the definitions of \<open>PaymentDomain\<close>,
  \<open>PaymentStore\<close> and \<open>PaymentService\<close>, with the example data their witnesses evaluate.
\<close>

section \<open>Example data for the witnesses\<close>

definition ex_hmac :: "string \<Rightarrow> string \<Rightarrow> string" where
  "ex_hmac key msg = key @ msg"

definition ex_hosted :: hosted_psp where
  "ex_hosted = \<lparr>h_checkoutBase = ''https://pay'', h_webhookSecret = ''k'', h_registerIntent = None,
     h_refund = Some (\<lambda>_. True), h_checkoutTTL = 30 * Minute\<rparr>"

definition ex_unmarshal :: "string \<Rightarrow> hosted_event option" where
  "ex_unmarshal body = Some \<lparr>he_ID = body, he_Ref = ''ref1'', he_Kind = ''payment.succeeded'', he_Status = []\<rparr>"

definition ex_psp :: psp where
  "ex_psp = HostedPSP ex_hmac ex_unmarshal ex_hosted 0"

definition ex_row :: payment_row where
  "ex_row = \<lparr>r_id = ''p1'', r_user_id = ''alice'', r_purpose = ''premium'', r_amount_cents = 999,
     r_currency = ''USD'', r_status = ''pending'', r_psp_ref = Some ''ref1'', r_subject = None,
     r_memo = None, r_created_at = 0, r_updated_at = 0\<rparr>"

definition ex_db :: pay_db where
  "ex_db = \<lparr>payments_tbl = [ex_row], subscriptions_tbl = [], payment_events_tbl = []\<rparr>"

definition ex_sub :: sub_row where
  "ex_sub = \<lparr>s_id = ''s1'', s_user_id = ''alice'', s_purpose = ''premium'', s_subject = [],
     s_psp_ref = Some ''ref1'', s_active = True, s_started_at = 0, s_expires_at = 100,
     s_canceled_at = None\<rparr>"

definition ex_db_paid :: pay_db where
  "ex_db_paid = \<lparr>payments_tbl = [ex_row\<lparr>r_status := ''succeeded''\<rparr>], subscriptions_tbl = [ex_sub],
     payment_events_tbl = []\<rparr>"

definition ex_alice :: identity where
  "ex_alice = \<lparr>UserID = ''alice'', DeviceID = ''d1'', SessionID = ''s''\<rparr>"

lemma ex_verify:
  "psp_VerifyWebhook ex_psp ''e1'' ''6b6531'' =
     Some \<lparr>ev_ID = ''e1'', ev_PSPRef = ''ref1'', ev_Status = StatusSucceeded, ev_RawKind = ''payment.succeeded''\<rparr>"
  by code_simp

lemma ex_db_wf: "pay_db_wf ex_db" "pay_db_wf ex_db_paid"
  by (simp_all add: pay_db_wf_def ex_db_def ex_db_paid_def ex_row_def ex_sub_def tbl_wf_def payment_row_ok_def
      payments_purpose_known_def payments_status_known_def psp_refs_unique_def one_live_sub_def
      subscriptions_purpose_known_def)



text \<open>
Exactly once: delivering the same signed webhook again, whatever the first delivery returned, is
acknowledged and changes nothing.
\<close>

theorem webhook_redelivery:
  assumes "HandleWebhook down psp now i db raw sig = (r, db1)"
    and "psp_VerifyWebhook psp raw sig \<noteq> None"
    and "\<not> down CallMarkEventProcessed" and "\<not> down' CallMarkEventProcessed"
  shows "HandleWebhook down' psp now' i' db1 raw sig = (Inr (), db1)"
proof -
  obtain ev where ev: "psp_VerifyWebhook psp raw sig = Some ev"
    using assms(2) by blast
  have "ev_ID ev \<in> e_event_id ` set (payment_events_tbl db1)"
    using HandleWebhook_records [of psp raw sig ev down now i db] ev assms(1,3) by simp
  with ev assms(4) show ?thesis by (simp add: HandleWebhook_duplicate)
qed

theorem webhook_redelivery_witness:
  "let db1 = snd (HandleWebhook (\<lambda>_. False) ex_psp 5 ''s9'' ex_db ''e1'' ''6b6531'') in
   HandleWebhook (\<lambda>_. False) ex_psp 6 ''s8'' db1 ''e1'' ''6b6531'' = (Inr (), db1)"
  using webhook_redelivery [of "\<lambda>_. False" ex_psp 5 "''s9''" ex_db "''e1''" "''6b6531''"] ex_verify
  by (cases "HandleWebhook (\<lambda>_. False) ex_psp 5 ''s9'' ex_db ''e1'' ''6b6531''") simp

text \<open>
The event is recorded before the work is done, so a delivery that failed with the retryable error has
changed neither payments nor subscriptions, and its retry is acknowledged without doing the work.
\<close>

theorem webhook_lost_after_transient:
  assumes "HandleWebhook down psp now i db raw sig = (Inl Transient, db1)"
    and "\<not> down CallMarkEventProcessed" and "\<not> down' CallMarkEventProcessed"
  shows "payments_tbl db1 = payments_tbl db \<and> subscriptions_tbl db1 = subscriptions_tbl db
    \<and> HandleWebhook down' psp now' i' db1 raw sig = (Inr (), db1)"
proof -
  from assms(1) obtain ev where ev: "psp_VerifyWebhook psp raw sig = Some ev"
    by (auto simp: HandleWebhook_def split: option.splits)
  have "payments_tbl db1 = payments_tbl db \<and> subscriptions_tbl db1 = subscriptions_tbl db"
    using assms(1,2) ev
    by (auto simp: HandleWebhook_def Let_def dest: payments_MarkEvent split: option.splits sum.splits if_splits)
  moreover have "ev_ID ev \<in> e_event_id ` set (payment_events_tbl db1)"
    using HandleWebhook_records [of psp raw sig ev down now i db] ev assms(1,2) by simp
  ultimately show ?thesis
    using ev assms(3) by (simp add: HandleWebhook_duplicate)
qed

theorem webhook_lost_after_transient_witness:
  "let db1 = snd (HandleWebhook (\<lambda>c. c = CallUpdateStatus) ex_psp 5 ''s9'' ex_db ''e1'' ''6b6531'') in
   fst (HandleWebhook (\<lambda>c. c = CallUpdateStatus) ex_psp 5 ''s9'' ex_db ''e1'' ''6b6531'') = Inl Transient
   \<and> payments_tbl db1 = payments_tbl ex_db
   \<and> HandleWebhook (\<lambda>_. False) ex_psp 6 ''s9'' db1 ''e1'' ''6b6531'' = (Inr (), db1)"
proof -
  let ?h = "HandleWebhook (\<lambda>c. c = CallUpdateStatus) ex_psp 5 ''s9'' ex_db ''e1'' ''6b6531''"
  have t: "fst ?h = Inl Transient"
    unfolding HandleWebhook_def ex_verify by code_simp
  then have "?h = (Inl Transient, snd ?h)"
    by (metis prod.collapse)
  from webhook_lost_after_transient [OF this, of "\<lambda>_. False" 6 "''s9''"] t show ?thesis
    by (simp add: Let_def)
qed

text \<open>
The status of a payment is one-way: however many status events arrive, at most two of them change it,
a terminal status absorbs them all, and repeating an event changes nothing.
\<close>

theorem status_lifecycle:
  "changes status_step s es \<le> 2
   \<and> (Status_Terminal s \<longrightarrow> run (\<lambda>s e. fst (status_step s e)) s es = s)
   \<and> status_step (fst (status_step s e)) e = (fst (status_step s e), False)"
  using pay_machine.changes_bound [of s es] pay_machine.terminal_after [of s es] pay_machine.redelivery [of s e]
    status_rank_le [of s]
  by simp

theorem status_lifecycle_witness:
  "run (\<lambda>s e. fst (status_step s e)) StatusRefunded [StatusSucceeded, StatusPending] = StatusRefunded"
proof -
  have "Status_Terminal StatusRefunded" by code_simp
  with status_lifecycle [of StatusRefunded "[StatusSucceeded, StatusPending]" StatusPending]
  show ?thesis by blast
qed

text \<open>
The guard finds every card number: a Luhn-valid run of 12 to 19 digits with optional single separators,
standing anywhere in a text and not continued by further digits on either side, is rejected.
\<close>

theorem pan_rejected:
  assumes "pan_shape pan" "12 \<le> length (stripSeparators pan)" "length (stripSeparators pan) \<le> 19"
    "luhnValid (stripSeparators pan)" "\<not> ends_open pre" "\<not> starts_open post"
  shows "RejectsCardData (pre @ pan @ post) = Some ErrCardData"
proof -
  have "pan \<in> set (FindAll_digitRun (pre @ pan @ post))"
    using assms by (intro FindAll_finds match_whole) auto
  with assms have "list_ex (\<lambda>candidate. let digits = stripSeparators candidate in
      \<not> (length digits < 12 \<or> length digits > 19) \<and> luhnValid digits)
      (FindAll_digitRun (pre @ pan @ post))"
    by (auto simp: list_ex_iff Let_def not_less intro!: bexI [of _ pan])
  moreover have "pre @ pan @ post \<noteq> []"
    using assms(1) by (auto simp: pan_shape_def)
  ultimately show ?thesis
    unfolding RejectsCardData_def by simp
qed

theorem pan_rejected_witness:
  "RejectsCardData (''pay '' @ ''4242 4242-42424242'' @ ''!'') = Some ErrCardData"
  by (rule pan_rejected) code_simp+

text \<open>
The Luhn check catches every single mistyped digit.
\<close>

theorem luhn_single_digit:
  assumes "luhnValid (u @ c # v)" "is_digit c" "is_digit d" "c \<noteq> d"
  shows "\<not> luhnValid (u @ d # v)"
proof
  assume "luhnValid (u @ d # v)"
  define alt where "alt = (\<not> even (length v))"
  have sum: "luhn_loop (rev (u @ x # v)) False 0
      = luhn_loop (rev v) False 0 + luhn_weight alt (digit_val x) + luhn_loop (rev u) (\<not> alt) 0" for x
    by (simp add: luhn_loop_append luhn_loop_Cons alt_def) (subst luhn_loop_acc, simp)
  have "(luhn_weight alt (digit_val c) - luhn_weight alt (digit_val d)) mod 10 = 0"
    using assms(1) \<open>luhnValid (u @ d # v)\<close> unfolding luhnValid_def sum
    by (rule mod_10_cancel)
  then have "digit_val c = digit_val d"
    using luhn_weight_inj [of "digit_val c" "digit_val d" alt]
      digit_val_range [OF assms(2)] digit_val_range [OF assms(3)] by simp
  with assms(4) digit_val_inj show False by blast
qed

theorem luhn_single_digit_witness:
  "\<not> luhnValid (''42424242'' @ CHR ''7'' # ''2424242'')"
  by (rule luhn_single_digit [of _ "CHR ''4''"]) code_simp+

text \<open>
No handler stores the provider's reference, so from an empty database no sequence of requests, of any
provider, ever moves a payment out of pending or grants a subscription.
\<close>

theorem no_payment_ever_settles: "unsettled (run pay_step empty_pay_db reqs)"
  by (rule pay_unsettled.keep_run) (simp add: unsettled_def empty_pay_db_def)


text \<open>
C36. After any sequence of requests every stored memo, and every stored subject of a purchase, passes the
card-data guard.
\<close>

theorem no_card_data_at_rest: "card_free (run pay_step empty_pay_db reqs)"
  by (rule pay_cards.keep_run) (simp add: card_free_def empty_pay_db_def)

text \<open>
Without the signature of the raw body under the configured secret, a webhook is rejected and nothing is
written, whatever store calls would fail.
\<close>

theorem forged_webhook_rejected:
  assumes "sig = [] \<or> sig \<noteq> SignWebhook hmac (h_webhookSecret h) raw"
  shows "HandleWebhook down (HostedPSP hmac unmarshal h t) now i db raw sig
    = (Inl (Reject 400 ''WEBHOOK_SIGNATURE''), db)"
proof -
  have "VerifyWebhook hmac (h_webhookSecret h) raw sig = Some ErrBadSignature"
    using assms by (auto simp: VerifyWebhook_def)
  then show ?thesis
    by (simp add: HandleWebhook_def HostedPSP_def hosted_VerifyWebhook_def)
qed

theorem forged_webhook_rejected_witness:
  "HandleWebhook (\<lambda>_. False) (HostedPSP ex_hmac ex_unmarshal ex_hosted 0) 5 ''s9'' ex_db ''e1'' ''00''
    = (Inl (Reject 400 ''WEBHOOK_SIGNATURE''), ex_db)"
proof (rule forged_webhook_rejected)
  show "''00'' = [] \<or> ''00'' \<noteq> SignWebhook ex_hmac (h_webhookSecret ex_hosted) ''e1''"
    by code_simp
qed

text \<open>
Cancelling the subscription that gives a user premium access ends that access at once, not at the end of
the paid period.
\<close>

theorem cancel_ends_access:
  assumes "pay_db_wf db"
    and "pg_ActiveSubscription db (UserID ident) PurposePremium [] now = Some sb"
    and "CancelSubscription down now db ident (sub_ID sb) = (Inr (), db')"
  shows "HasPremium (\<lambda>_. False) later db' (UserID ident) = Some False"
proof -
  let ?live = "\<lambda>r. s_user_id r = UserID ident \<and> s_purpose r = PurposePremium \<and> s_subject r = []
    \<and> s_active r \<and> s_canceled_at r = None"
  obtain r where r: "r \<in> set (subscriptions_tbl db)" "?live r" "sub_ID sb = s_id r"
  proof -
    let ?l = "order_desc s_expires_at (filter (\<lambda>r. s_user_id r = UserID ident \<and> s_purpose r = PurposePremium
      \<and> s_subject r = [] \<and> s_active r \<and> s_canceled_at r = None \<and> s_expires_at r > now) (subscriptions_tbl db))"
    from assms(2) obtain x xs where l: "?l = x # xs" and sb: "sb = scan_subscription x"
      by (auto simp: pg_ActiveSubscription_def split: list.splits)
    then have "x \<in> set ?l" by (metis list.set_intros(1))
    with that [of x] sb show thesis by (auto simp: scan_subscription_def)
  qed
  have only: "x = r" if "x \<in> set (subscriptions_tbl db)" "?live x" for x
  proof -
    have "distinct (map sub_slot (filter sub_live (subscriptions_tbl db)))"
      using assms(1) by (simp add: pay_db_wf_def one_live_sub_def)
    then have "inj_on sub_slot (set (filter sub_live (subscriptions_tbl db)))"
      by (simp add: distinct_map)
    moreover have "sub_slot x = sub_slot r" "sub_live x" "sub_live r"
      using that r by (auto simp: sub_slot_def sub_live_def)
    ultimately show ?thesis using that r by (auto simp: inj_on_def)
  qed
  have db': "db' = pg_CancelSubscription (UserID ident) (s_id r) now db"
    using assms(3) r(3) by (auto simp: CancelSubscription_def split: if_splits)
  have "\<not> ?live x" if "x \<in> set (subscriptions_tbl db')" for x
  proof
    assume live: "?live x"
    from that db' obtain y where y: "y \<in> set (subscriptions_tbl db)"
      "x = (if s_id y = s_id r \<and> s_user_id y = UserID ident \<and> s_canceled_at y = None
            then y\<lparr>s_canceled_at := Some now\<rparr> else y)"
      by (auto simp: pg_CancelSubscription_def)
    with live have "x = y" "s_id y \<noteq> s_id r \<or> s_user_id y \<noteq> UserID ident \<or> s_canceled_at y \<noteq> None"
      by (auto split: if_splits)
    with only [OF y(1)] live show False by auto
  qed
  then have "filter (\<lambda>x. ?live x \<and> s_expires_at x > later) (subscriptions_tbl db') = []"
    by (auto simp: filter_empty_conv)
  then show ?thesis
    by (simp add: HasPremium_def pg_ActiveSubscription_def order_desc_def)
qed

theorem cancel_ends_access_witness:
  "HasPremium (\<lambda>_. False) 7 ex_db_paid ''alice'' = Some True \<and>
   HasPremium (\<lambda>_. False) 7 (snd (CancelSubscription (\<lambda>_. False) 7 ex_db_paid ex_alice ''s1'')) ''alice'' = Some False"
proof -
  have a: "pg_ActiveSubscription ex_db_paid (UserID ex_alice) PurposePremium [] 7 = Some (scan_subscription ex_sub)"
    by code_simp
  have "HasPremium (\<lambda>_. False) 7 (pg_CancelSubscription ''alice'' ''s1'' 7 ex_db_paid) (UserID ex_alice) = Some False"
    by (rule cancel_ends_access [OF ex_db_wf(2) a, of "\<lambda>_. False"])
      (simp add: CancelSubscription_def ex_alice_def scan_subscription_def ex_sub_def)
  with a show ?thesis
    by (simp add: HasPremium_def CancelSubscription_def ex_alice_def)
qed

text \<open>
A successful refund sets the payment to refunded and leaves every premium and channel entitlement as it
was.
\<close>

theorem refund_keeps_entitlement:
  assumes "AdminRefund down psp now db pid = (Inr (), db')"
  shows "map_option pay_Status (pg_GetPayment db' pid) = Some StatusRefunded
    \<and> HasPremium down2 later db' uid = HasPremium down2 later db uid
    \<and> HasChannelSubscription down2 later db' uid ch = HasChannelSubscription down2 later db uid ch"
proof -
  from assms obtain p where p: "pg_GetPayment db pid = Some p"
    and u: "pg_UpdateStatus (pay_ID p) StatusRefunded now None db = Some db'"
    by (auto simp: AdminRefund_def split: option.splits if_splits)
  have "pay_ID p = pid"
    using p payment_rows.get_key by blast
  with p GetPayment_UpdateStatus [OF u, of pid] have "map_option pay_Status (pg_GetPayment db' pid) = Some StatusRefunded"
    by simp
  moreover have "subscriptions_tbl db' = subscriptions_tbl db"
    using payments_UpdateStatus [OF u] by simp
  ultimately show ?thesis
    by (simp add: HasPremium_def HasChannelSubscription_def pg_ActiveSubscription_def)
qed

theorem refund_keeps_entitlement_witness:
  "HasPremium (\<lambda>_. False) 7 (snd (AdminRefund (\<lambda>_. False) ex_psp 6 ex_db_paid ''p1'')) ''alice'' = Some True"
proof -
  let ?r = "AdminRefund (\<lambda>_. False) ex_psp 6 ex_db_paid ''p1''"
  have "fst ?r = Inr ()" by code_simp
  then have "?r = (Inr (), snd ?r)"
    by (metis prod.collapse)
  from refund_keeps_entitlement [OF this, of "\<lambda>_. False" 7 "''alice''"]
  have "HasPremium (\<lambda>_. False) 7 (snd ?r) ''alice'' = HasPremium (\<lambda>_. False) 7 ex_db_paid ''alice''"
    by blast
  also have "\<dots> = Some True" by code_simp
  finally show ?thesis .
qed

section \<open>Concrete behaviours\<close>

lemma mapKind_grants_on_failed_capture:
  "mapKind ''payment.capture_failed'' [] = Some StatusSucceeded
   \<and> mapKind ''invoice.unpaid'' [] = Some StatusSucceeded
   \<and> mapKind ''refund.succeeded'' [] = Some StatusSucceeded"
  by code_simp

lemma p2p_payee_not_guarded:
  "RejectsCardData ''4242424242424242'' = Some ErrCardData
   \<and> map r_subject (payments_tbl (snd (SendP2P (\<lambda>_. False)
        (Some \<lparr>tr_Send = (\<lambda>_ _ _ _. Some ''t1''), tr_Enabled = True\<rparr>) 0 ''p7'' empty_pay_db
        ex_alice ''4242424242424242'' 100 ''USD'' []))) = [Some ''4242424242424242'']"
proof
  show "RejectsCardData ''4242424242424242'' = Some ErrCardData" by code_simp
  have payee: "TrimSpace ''4242424242424242'' = ''4242424242424242''"
    by (simp add: TrimSpace_plain plain_def)
  have "RejectsCardData [] = None"
    by (simp add: RejectsCardData_def)
  moreover have "ToUpper (TrimSpace ''USD'') = ''USD''"
    by code_simp
  then have "NewMoney 100 ''USD'' = Inr \<lparr>Cents = 100, Currency = ''USD''\<rparr>"
    by (simp add: NewMoney_def supportedCurrencies_def MaxAmountCents_def)
  ultimately show "map r_subject (payments_tbl (snd (SendP2P (\<lambda>_. False)
        (Some \<lparr>tr_Send = (\<lambda>_ _ _ _. Some ''t1''), tr_Enabled = True\<rparr>) 0 ''p7'' empty_pay_db
        ex_alice ''4242424242424242'' 100 ''USD'' []))) = [Some ''4242424242424242'']"
    using payee by (simp add: SendP2P_def maxMemoLen_def ex_alice_def pg_CreatePayment_def payment_to_row_def
      payment_row_ok_def payments_purpose_known_def payments_status_known_def purpose_defs status_defs tbl_ins_def
      empty_pay_db_def Let_def)
qed

end
