(* ===== verification/PttFloor.thy ===== *)
theory PttFloor
  imports Contracts "HOL-Library.Sublist"
begin

text \<open>
  \<^verbatim>\<open>server/internal/ptt/domain/floor.go\<close>: the push-to-talk floor of one room, a fenced token with
  a FIFO queue of waiters. The empty string is "no holder", as in the Go struct. A method that
  mutates \<^verbatim>\<open>*Floor\<close> returns its result with the new floor; Go's \<^verbatim>\<open>-1\<close> of \<^verbatim>\<open>queueIndex\<close> is \<^const>\<open>None\<close>
  and a nil \<^verbatim>\<open>*Grant\<close> is \<^const>\<open>None\<close>. Fences are \<^typ>\<open>int\<close>: a counter bumped once per grant does not
  reach the bound of \<^verbatim>\<open>int64\<close>.
\<close>

section \<open>Types\<close>

definition MaxSpeakMS :: int where "MaxSpeakMS = 60000"
definition FloorTTL :: duration where "FloorTTL = 2 * Second"
definition MaxQueue :: nat where "MaxQueue = 500"

record grant =
  g_Device :: string
  g_Fence :: int

record acquire_result =
  ar_Granted :: "grant option"
  ar_Position :: nat
  ar_Full :: bool
  ar_Promoted :: "grant option"
  ar_Demoted :: string

record heartbeat_result =
  hr_Held :: bool
  hr_Fence :: int

record release_result =
  rr_Released :: bool
  rr_Next :: "grant option"

record sweep_result =
  sr_Demoted :: string
  sr_Promoted :: "grant option"

record floor =
  fl_holder :: string
  fl_fence :: int
  fl_expiry :: instant
  fl_queue :: "string list"
  fl_fenceSeq :: int

definition new_floor :: floor where
  "new_floor = \<lparr>fl_holder = [], fl_fence = 0, fl_expiry = 0, fl_queue = [], fl_fenceSeq = 0\<rparr>"

section \<open>Operations\<close>

definition held :: "floor \<Rightarrow> instant \<Rightarrow> bool" where
  "held f now \<longleftrightarrow> fl_holder f \<noteq> [] \<and> now < fl_expiry f"

definition evictIfLapsed :: "instant \<Rightarrow> floor \<Rightarrow> string \<times> floor" where
  "evictIfLapsed now f =
     (if fl_holder f \<noteq> [] \<and> \<not> now < fl_expiry f
      then (fl_holder f, f\<lparr>fl_holder := [], fl_fence := 0\<rparr>)
      else ([], f))"

definition grantTo :: "string \<Rightarrow> instant \<Rightarrow> duration \<Rightarrow> floor \<Rightarrow> grant \<times> floor" where
  "grantTo device now ttl f =
     (let n = fl_fenceSeq f + 1 in
      (\<lparr>g_Device = device, g_Fence = n\<rparr>,
       f\<lparr>fl_fenceSeq := n, fl_holder := device, fl_fence := n, fl_expiry := now + ttl\<rparr>))"

fun index_from :: "nat \<Rightarrow> string list \<Rightarrow> string \<Rightarrow> nat option" where
  "index_from i [] device = None"
| "index_from i (d # ds) device = (if d = device then Some i else index_from (Suc i) ds device)"

definition queueIndex :: "floor \<Rightarrow> string \<Rightarrow> nat option" where
  "queueIndex f device = index_from 0 (fl_queue f) device"

text \<open>Only called on a non-empty queue, as in the code.\<close>

definition popHead :: "floor \<Rightarrow> string \<times> floor" where
  "popHead f = (hd (fl_queue f), f\<lparr>fl_queue := tl (fl_queue f)\<rparr>)"

definition enqueue :: "string \<Rightarrow> floor \<Rightarrow> nat \<times> floor" where
  "enqueue device f =
     (case queueIndex f device of
        Some i \<Rightarrow> (i + 1, f)
      | None \<Rightarrow> (length (fl_queue f) + 1, f\<lparr>fl_queue := fl_queue f @ [device]\<rparr>))"

definition acquired ::
  "grant option \<Rightarrow> nat \<Rightarrow> bool \<Rightarrow> grant option \<Rightarrow> string \<Rightarrow> acquire_result" where
  "acquired g pos full promoted demoted =
     \<lparr>ar_Granted = g, ar_Position = pos, ar_Full = full, ar_Promoted = promoted, ar_Demoted = demoted\<rparr>"

definition Floor_Acquire :: "string \<Rightarrow> instant \<Rightarrow> duration \<Rightarrow> floor \<Rightarrow> acquire_result \<times> floor" where
  "Floor_Acquire device now ttl f0 =
     (let (demoted, f) = evictIfLapsed now f0 in
      if fl_holder f = [] then
        if length (fl_queue f) > 0 \<and> fl_queue f ! 0 \<noteq> device then
          let (head, f) = popHead f;
              (promoted, f) = grantTo head now ttl f;
              (pos, f) = enqueue device f
          in (acquired None pos False (Some promoted) demoted, f)
        else
          let f = (if length (fl_queue f) > 0 \<and> fl_queue f ! 0 = device then snd (popHead f) else f);
              (g, f) = grantTo device now ttl f
          in (acquired (Some g) 0 False None demoted, f)
      else if fl_holder f = device then
        (acquired (Some \<lparr>g_Device = device, g_Fence = fl_fence f\<rparr>) 0 False None [],
         f\<lparr>fl_expiry := now + ttl\<rparr>)
      else
        case queueIndex f device of
          Some i \<Rightarrow> (acquired None (i + 1) False None demoted, f)
        | None \<Rightarrow>
            if length (fl_queue f) \<ge> MaxQueue then (acquired None 0 True None demoted, f)
            else let (pos, f) = enqueue device f in (acquired None pos False None demoted, f))"

definition Floor_Heartbeat :: "string \<Rightarrow> instant \<Rightarrow> duration \<Rightarrow> floor \<Rightarrow> heartbeat_result \<times> floor" where
  "Floor_Heartbeat device now ttl f =
     (if fl_holder f = device \<and> held f now
      then (\<lparr>hr_Held = True, hr_Fence = fl_fence f\<rparr>, f\<lparr>fl_expiry := now + ttl\<rparr>)
      else (\<lparr>hr_Held = False, hr_Fence = 0\<rparr>, f))"

definition Floor_Release :: "string \<Rightarrow> instant \<Rightarrow> duration \<Rightarrow> floor \<Rightarrow> release_result \<times> floor" where
  "Floor_Release device now ttl f0 =
     (if fl_holder f0 \<noteq> device then (\<lparr>rr_Released = False, rr_Next = None\<rparr>, f0)
      else
        let f = f0\<lparr>fl_holder := [], fl_fence := 0\<rparr> in
        if length (fl_queue f) > 0 then
          let (head, f) = popHead f; (g, f) = grantTo head now ttl f
          in (\<lparr>rr_Released = True, rr_Next = Some g\<rparr>, f)
        else (\<lparr>rr_Released = True, rr_Next = None\<rparr>, f))"

definition Floor_Sweep :: "instant \<Rightarrow> duration \<Rightarrow> floor \<Rightarrow> sweep_result \<times> floor" where
  "Floor_Sweep now ttl f0 =
     (let (demoted, f) = evictIfLapsed now f0 in
      if fl_holder f = [] \<and> length (fl_queue f) > 0 then
        let (head, f) = popHead f; (g, f) = grantTo head now ttl f
        in (\<lparr>sr_Demoted = demoted, sr_Promoted = Some g\<rparr>, f)
      else (\<lparr>sr_Demoted = demoted, sr_Promoted = None\<rparr>, f))"

definition Floor_Idle :: "floor \<Rightarrow> instant \<Rightarrow> bool" where
  "Floor_Idle f now \<longleftrightarrow> \<not> held f now \<and> length (fl_queue f) = 0"

definition Floor_Snapshot :: "floor \<Rightarrow> instant \<Rightarrow> string \<times> nat" where
  "Floor_Snapshot f now = (if held f now then fl_holder f else [], length (fl_queue f))"

section \<open>One operation as a step\<close>

datatype floor_op =
    OpAcquire string instant duration
  | OpHeartbeat string instant duration
  | OpRelease string instant duration
  | OpSweep instant duration

text \<open>\<open>floor_do\<close> gives the grants an operation announces, in the order the service applies them.\<close>

fun floor_do :: "floor \<Rightarrow> floor_op \<Rightarrow> grant list \<times> floor" where
  "floor_do f (OpAcquire d now ttl) =
     (let (r, f') = Floor_Acquire d now ttl f in (opt_list (ar_Promoted r) @ opt_list (ar_Granted r), f'))"
| "floor_do f (OpHeartbeat d now ttl) = ([], snd (Floor_Heartbeat d now ttl f))"
| "floor_do f (OpRelease d now ttl) =
     (let (r, f') = Floor_Release d now ttl f in (opt_list (rr_Next r), f'))"
| "floor_do f (OpSweep now ttl) =
     (let (r, f') = Floor_Sweep now ttl f in (opt_list (sr_Promoted r), f'))"

definition floor_step :: "floor \<Rightarrow> floor_op \<Rightarrow> floor" where
  "floor_step f x = snd (floor_do f x)"

fun floor_grants :: "floor \<Rightarrow> floor_op list \<Rightarrow> grant list" where
  "floor_grants f [] = []"
| "floor_grants f (x # xs) = fst (floor_do f x) @ floor_grants (floor_step f x) xs"

section \<open>Invariant\<close>

definition floor_ok :: "floor \<Rightarrow> bool" where
  "floor_ok f \<longleftrightarrow>
     distinct (fl_queue f) \<and> length (fl_queue f) \<le> MaxQueue \<and>
     (fl_holder f \<noteq> [] \<longrightarrow> fl_holder f \<notin> set (fl_queue f) \<and> 0 < fl_fence f) \<and>
     0 \<le> fl_fence f \<and> fl_fence f \<le> fl_fenceSeq f"

lemmas floor_defs =
  evictIfLapsed_def grantTo_def popHead_def enqueue_def queueIndex_def acquired_def held_def opt_list_def

lemma index_from_None [simp]: "index_from i q d = None \<longleftrightarrow> d \<notin> set q"
  by (induction q arbitrary: i) auto

lemma index_from_absent [simp]: "d \<notin> set q \<Longrightarrow> index_from i q d = None"
  by simp

lemma index_from_Some: "index_from i q d = Some k \<Longrightarrow> i \<le> k \<and> k - i < length q \<and> q ! (k - i) = d"
proof (induction q arbitrary: i)
  case (Cons a q)
  show ?case
  proof (cases "a = d")
    case False
    with Cons.prems Cons.IH [of "Suc i"] have "Suc i \<le> k" "k - Suc i < length q" "q ! (k - Suc i) = d"
      by auto
    then show ?thesis by (simp add: nth_Cons' less_Suc_eq_le Suc_diff_le)
  qed (use Cons in auto)
qed simp

lemma new_floor_ok: "floor_ok new_floor"
  by (simp add: floor_ok_def new_floor_def)

lemma floor_ok_Acquire: "floor_ok f \<Longrightarrow> floor_ok (snd (Floor_Acquire d now ttl f))"
  unfolding Floor_Acquire_def
  by (cases "fl_queue f") (auto simp: floor_ok_def floor_defs Let_def split: option.split)

lemma floor_ok_Heartbeat: "floor_ok f \<Longrightarrow> floor_ok (snd (Floor_Heartbeat d now ttl f))"
  by (auto simp: Floor_Heartbeat_def floor_ok_def)

lemma floor_ok_Release: "floor_ok f \<Longrightarrow> floor_ok (snd (Floor_Release d now ttl f))"
  by (cases "fl_queue f") (auto simp: Floor_Release_def floor_ok_def floor_defs Let_def)

lemma floor_ok_Sweep: "floor_ok f \<Longrightarrow> floor_ok (snd (Floor_Sweep now ttl f))"
  by (cases "fl_queue f") (auto simp: Floor_Sweep_def floor_ok_def floor_defs Let_def)

lemma floor_step_simps:
  "floor_step f (OpAcquire d now ttl) = snd (Floor_Acquire d now ttl f)"
  "floor_step f (OpHeartbeat d now ttl) = snd (Floor_Heartbeat d now ttl f)"
  "floor_step f (OpRelease d now ttl) = snd (Floor_Release d now ttl f)"
  "floor_step f (OpSweep now ttl) = snd (Floor_Sweep now ttl f)"
  by (simp_all add: floor_step_def split_beta)

interpretation floor_inv: invariant_system floor_step floor_ok
proof
  show "floor_ok (floor_step f x)" if "floor_ok f" for f x
    using that
    by (cases x) (simp_all add: floor_step_simps floor_ok_Acquire floor_ok_Heartbeat floor_ok_Release floor_ok_Sweep)
qed

section \<open>Fences\<close>

text \<open>
  Every announced grant is for the new holder with its fence, and is either a fresh one (the next
  number of the sequence) or a refresh of the standing one.
\<close>

lemma floor_do_grants:
  assumes "floor_ok f" "floor_do f x = (gs, f')"
  shows "length gs \<le> 1 \<and> fl_fenceSeq f \<le> fl_fenceSeq f' \<and>
    (\<forall>g\<in>set gs. g_Device g = fl_holder f' \<and> g_Fence g = fl_fence f' \<and>
       (g_Fence g = fl_fenceSeq f + 1 \<or> fl_holder f \<noteq> [] \<and> fl_holder f' = fl_holder f \<and> fl_fence f' = fl_fence f))"
proof (cases x)
  case (OpAcquire d now ttl)
  with assms show ?thesis
    unfolding Floor_Acquire_def
    by (cases "fl_queue f") (auto simp: floor_ok_def floor_defs Let_def Floor_Acquire_def split: option.splits if_splits)
next
  case (OpHeartbeat d now ttl)
  with assms show ?thesis by (auto simp: Floor_Heartbeat_def)
next
  case (OpRelease d now ttl)
  with assms show ?thesis
    by (cases "fl_queue f") (auto simp: Floor_Release_def floor_defs Let_def split: if_splits)
next
  case (OpSweep now ttl)
  with assms show ?thesis
    by (cases "fl_queue f") (auto simp: Floor_Sweep_def floor_defs Let_def split: if_splits)
qed

lemma floor_do_holder:
  assumes "floor_ok f" "floor_do f x = (gs, f')" "fl_holder f' \<noteq> []"
  shows "fl_fence f' > fl_fenceSeq f \<or> fl_holder f' = fl_holder f \<and> fl_fence f' = fl_fence f"
proof (cases x)
  case (OpAcquire d now ttl)
  with assms show ?thesis
    by (cases "fl_queue f") (auto simp: floor_defs Let_def Floor_Acquire_def split: option.splits if_splits)
next
  case (OpHeartbeat d now ttl)
  with assms show ?thesis by (auto simp: Floor_Heartbeat_def)
next
  case (OpRelease d now ttl)
  with assms show ?thesis
    by (cases "fl_queue f") (auto simp: Floor_Release_def floor_defs Let_def split: if_splits)
next
  case (OpSweep now ttl)
  with assms show ?thesis
    by (cases "fl_queue f") (auto simp: Floor_Sweep_def floor_defs Let_def split: if_splits)
qed

definition fence_before :: "grant \<Rightarrow> grant \<Rightarrow> bool" where
  "fence_before a b \<longleftrightarrow> g_Fence a < g_Fence b \<or> a = b"

lemma later_grants:
  assumes "floor_ok f" "g \<in> set (floor_grants f xs)"
  shows "g_Fence g > fl_fenceSeq f \<or>
    fl_holder f \<noteq> [] \<and> g_Device g = fl_holder f \<and> g_Fence g = fl_fence f"
  using assms
proof (induction xs arbitrary: f)
  case (Cons x xs)
  obtain gs f' where do: "floor_do f x = (gs, f')" by (cases "floor_do f x")
  then have f': "floor_step f x = f'" by (simp add: floor_step_def)
  have ok: "floor_ok f'" using Cons.prems(1) f' floor_inv.keep by blast
  have "g \<in> set gs \<or> g \<in> set (floor_grants f' xs)" using Cons.prems(2) do f' by simp
  then show ?case
  proof
    assume "g \<in> set gs"
    then show ?thesis using floor_do_grants [OF Cons.prems(1) do] by force
  next
    assume "g \<in> set (floor_grants f' xs)"
    with Cons.IH [OF ok] floor_do_grants [OF Cons.prems(1) do] floor_do_holder [OF Cons.prems(1) do]
    show ?thesis by fastforce
  qed
qed simp

lemma grants_sorted: "floor_ok f \<Longrightarrow> sorted_wrt fence_before (floor_grants f xs)"
proof (induction xs arbitrary: f)
  case (Cons x xs)
  obtain gs f' where do: "floor_do f x = (gs, f')" by (cases "floor_do f x")
  then have f': "floor_step f x = f'" by (simp add: floor_step_def)
  have ok: "floor_ok f'" using Cons.prems f' floor_inv.keep by blast
  note g = floor_do_grants [OF Cons.prems do]
  have "fence_before a b" if "a \<in> set gs" "b \<in> set (floor_grants f' xs)" for a b
    using g that later_grants [OF ok that(2)] ok by (auto simp: fence_before_def floor_ok_def)
  moreover have "sorted_wrt fence_before gs" using g by (cases gs) auto
  ultimately show ?case using Cons.IH [OF ok] do f' by (simp add: sorted_wrt_append)
qed simp

section \<open>First in, first out\<close>

lemma queue_step:
  assumes "floor_do f x = (gs, f')"
  shows "\<exists>k ws. k \<le> length (fl_queue f) \<and> fl_queue f' = drop k (fl_queue f) @ ws
    \<and> subseq (take k (fl_queue f)) (map g_Device gs)"
proof (cases x)
  case (OpAcquire d now ttl)
  show ?thesis
  proof (cases "fl_queue f")
    case Nil
    then show ?thesis by (intro exI [of _ 0] exI [of _ "fl_queue f'"]) simp
  next
    case (Cons h q)
    with OpAcquire assms have "(\<exists>ws. fl_queue f' = fl_queue f @ ws)
      \<or> (\<exists>ws. fl_queue f' = q @ ws) \<and> map g_Device gs = [h]"
      by (auto simp: floor_defs Let_def Floor_Acquire_def split: option.splits if_splits)
    then show ?thesis
    proof
      assume "\<exists>ws. fl_queue f' = fl_queue f @ ws"
      then show ?thesis by (intro exI [of _ 0]) simp
    next
      assume "(\<exists>ws. fl_queue f' = q @ ws) \<and> map g_Device gs = [h]"
      with Cons show ?thesis by (intro exI [of _ 1]) simp
    qed
  qed
next
  case (OpHeartbeat d now ttl)
  with assms show ?thesis by (intro exI [of _ 0]) (auto simp: Floor_Heartbeat_def)
next
  case (OpRelease d now ttl)
  with assms show ?thesis
    by (cases "fl_queue f"; intro exI [of _ "if fl_holder f = d \<and> fl_queue f \<noteq> [] then 1 else 0"])
      (auto simp: Floor_Release_def floor_defs Let_def split: if_splits)
next
  case (OpSweep now ttl)
  with assms show ?thesis
    by (cases "fl_queue f"; intro exI [of _ "if gs = [] then 0 else 1"])
      (auto simp: Floor_Sweep_def floor_defs Let_def split: if_splits)
qed

lemma queue_run:
  "\<exists>n ws. n \<le> length (fl_queue f) \<and> fl_queue (run floor_step f xs) = drop n (fl_queue f) @ ws
    \<and> subseq (take n (fl_queue f)) (map g_Device (floor_grants f xs))"
proof (induction xs arbitrary: f)
  case Nil
  then show ?case by (intro exI [of _ 0]) simp
next
  case (Cons x xs)
  obtain gs f' where do: "floor_do f x = (gs, f')" by (cases "floor_do f x")
  then have f': "floor_step f x = f'" by (simp add: floor_step_def)
  from queue_step [OF do] obtain k w where k: "k \<le> length (fl_queue f)" "fl_queue f' = drop k (fl_queue f) @ w"
    "subseq (take k (fl_queue f)) (map g_Device gs)" by blast
  from Cons.IH [of f'] obtain n ws where n: "fl_queue (run floor_step f' xs) = drop n (fl_queue f') @ ws"
    "subseq (take n (fl_queue f')) (map g_Device (floor_grants f' xs))" by blast
  let ?q = "fl_queue f" let ?m = "min (k + n) (length ?q)"
  have "fl_queue (run floor_step f' xs) = drop ?m ?q @ drop (n - length (drop k ?q)) w @ ws"
    using n(1) k(1,2) by (simp add: min_def add.commute)
  moreover have "take ?m ?q = take k ?q @ take n (drop k ?q)"
    using k(1) by (simp add: min_def take_add)
  moreover have "subseq (take n (drop k ?q)) (map g_Device (floor_grants f' xs))"
    using n(2) k(2) by (metis list_emb_append2 take_append subseq_order.order_trans prefix_imp_subseq prefixI)
  ultimately show ?case
    using k(3) do f' list_emb_append_mono
    by (intro exI [of _ ?m] exI [of _ "drop (n - length (drop k ?q)) w @ ws"]) simp
qed

section \<open>Progress\<close>

lemma Sweep_promotes:
  assumes "fl_holder f = [] \<or> fl_expiry f \<le> t" "fl_queue f = h # q"
  shows "let f' = floor_step f (OpSweep t ttl) in
    fl_holder f' = h \<and> fl_queue f' = q \<and> fl_expiry f' = t + ttl"
  using assms by (auto simp: floor_step_simps Floor_Sweep_def floor_defs Let_def)

lemma sweeps_reach:
  assumes "length ts = Suc k" "k < length (fl_queue f)" "fl_holder f = [] \<or> fl_expiry f \<le> hd ts"
    "sorted_wrt (\<lambda>a b. a + ttl \<le> b) ts"
  shows "fl_holder (run floor_step f (map (\<lambda>t. OpSweep t ttl) ts)) = fl_queue f ! k"
  using assms
proof (induction k arbitrary: f ts)
  case 0
  then obtain t h q where "ts = [t]" "fl_queue f = h # q"
    by (auto simp: length_Suc_conv gr0_conv_Suc)
  with 0 Sweep_promotes [of f t h q ttl] show ?case by (simp add: Let_def)
next
  case (Suc k)
  then obtain t u us h q where d: "ts = t # u # us" "fl_queue f = h # q"
    by (cases "fl_queue f") (auto simp: length_Suc_conv)
  let ?f = "floor_step f (OpSweep t ttl)"
  have f: "fl_queue ?f = q" "fl_expiry ?f = t + ttl"
    using Sweep_promotes [of f t h q ttl] Suc.prems(3) d by (simp_all add: Let_def)
  have "fl_holder (run floor_step ?f (map (\<lambda>t. OpSweep t ttl) (u # us))) = fl_queue ?f ! k"
    using Suc.prems d f by (intro Suc.IH) auto
  with d f show ?case by simp
qed

end
