(* ===== verification/PttService.thy ===== *)
theory PttService
  imports PttFloor
begin

text \<open>
  The floor stores (\<^verbatim>\<open>ptt/adapters/memory.go\<close>, \<^verbatim>\<open>ptt/adapters/valkey.go\<close> with its Lua script) and
  the push-to-talk service over them (\<^verbatim>\<open>ptt/service.go\<close>). The service takes any store, as the Go
  interface \<^verbatim>\<open>FloorStore\<close> does, and returns the SFU and signalling calls it makes as a list; it
  ignores their errors (\<^verbatim>\<open>try\<close>), so the list does not depend on them.

  The Lua script works in milliseconds of Valkey's clock. Its floor value \<^verbatim>\<open>device|fence|expiry\<close>
  is kept as a record: participants are \<^verbatim>\<open>user:device\<close> identifiers, which hold no bar.
\<close>

section \<open>The store interface\<close>

record 's floor_store =
  fs_Acquire :: "'s \<Rightarrow> string \<Rightarrow> string \<Rightarrow> (acquire_result \<times> 's) option"
  fs_Heartbeat :: "'s \<Rightarrow> string \<Rightarrow> string \<Rightarrow> (heartbeat_result \<times> 's) option"
  fs_Release :: "'s \<Rightarrow> string \<Rightarrow> string \<Rightarrow> (release_result \<times> 's) option"
  fs_Sweep :: "'s \<Rightarrow> string \<Rightarrow> (sweep_result \<times> 's) option"
  fs_ActiveRooms :: "'s \<Rightarrow> string list option"
  fs_Snapshot :: "'s \<Rightarrow> string \<Rightarrow> ((string \<times> nat) \<times> 's) option"

section \<open>The in-memory store\<close>

text \<open>Each operation of the store reads the clock under the mutex; \<^verbatim>\<open>Sweep\<close> reads it twice.\<close>

type_synonym mem_floors = "(string \<times> floor) list"

definition mem_floor :: "string \<Rightarrow> mem_floors \<Rightarrow> floor \<times> mem_floors" where
  "mem_floor room m =
     (case tbl_get fst room m of
        Some rf \<Rightarrow> (snd rf, m)
      | None \<Rightarrow> (new_floor, m @ [(room, new_floor)]))"

definition mem_with :: "(floor \<Rightarrow> 'r \<times> floor) \<Rightarrow> string \<Rightarrow> mem_floors \<Rightarrow> 'r \<times> mem_floors" where
  "mem_with method room m =
     (let (f, m) = mem_floor room m; (r, f) = method f
      in (r, tbl_upd fst room (\<lambda>rf. (fst rf, f)) m))"

definition Mem_Acquire :: "instant \<Rightarrow> mem_floors \<Rightarrow> string \<Rightarrow> string \<Rightarrow> acquire_result \<times> mem_floors" where
  "Mem_Acquire now m room p = mem_with (Floor_Acquire p now FloorTTL) room m"

definition Mem_Heartbeat :: "instant \<Rightarrow> mem_floors \<Rightarrow> string \<Rightarrow> string \<Rightarrow> heartbeat_result \<times> mem_floors" where
  "Mem_Heartbeat now m room p = mem_with (Floor_Heartbeat p now FloorTTL) room m"

definition Mem_Release :: "instant \<Rightarrow> mem_floors \<Rightarrow> string \<Rightarrow> string \<Rightarrow> release_result \<times> mem_floors" where
  "Mem_Release now m room p = mem_with (Floor_Release p now FloorTTL) room m"

definition Mem_Sweep :: "instant \<Rightarrow> instant \<Rightarrow> mem_floors \<Rightarrow> string \<Rightarrow> sweep_result \<times> mem_floors" where
  "Mem_Sweep now now' m room =
     (let (r, m) = mem_with (Floor_Sweep now FloorTTL) room m in
      (r, if Floor_Idle (fst (mem_floor room m)) now' then tbl_del fst room m else m))"

definition Mem_Snapshot :: "instant \<Rightarrow> mem_floors \<Rightarrow> string \<Rightarrow> (string \<times> nat) \<times> mem_floors" where
  "Mem_Snapshot now m room = mem_with (\<lambda>f. (Floor_Snapshot f now, f)) room m"

definition Mem_ActiveRooms :: "instant \<Rightarrow> mem_floors \<Rightarrow> string list" where
  "Mem_ActiveRooms now m = map fst (filter (\<lambda>rf. \<not> Floor_Idle (snd rf) now) m)"

definition MemoryFloorStore :: "instant \<Rightarrow> (string \<Rightarrow> instant \<times> instant) \<Rightarrow> mem_floors floor_store" where
  "MemoryFloorStore now clock =
     \<lparr>fs_Acquire = (\<lambda>m room p. Some (Mem_Acquire now m room p)),
      fs_Heartbeat = (\<lambda>m room p. Some (Mem_Heartbeat now m room p)),
      fs_Release = (\<lambda>m room p. Some (Mem_Release now m room p)),
      fs_Sweep = (\<lambda>m room. Some (Mem_Sweep (fst (clock room)) (snd (clock room)) m room)),
      fs_ActiveRooms = (\<lambda>m. Some (Mem_ActiveRooms now m)),
      fs_Snapshot = (\<lambda>m room. Some (Mem_Snapshot now m room))\<rparr>"

section \<open>The Valkey store\<close>

record lua_value =
  lv_dev :: string
  lv_fence :: int
  lv_expiry :: int
  lv_px :: int

record lua_room =
  lr_floor :: "lua_value option"
  lr_queue :: "string list"
  lr_fence :: int

definition empty_lua_room :: lua_room where
  "empty_lua_room = \<lparr>lr_floor = None, lr_queue = [], lr_fence = 0\<rparr>"

record floor_result =
  fr_status :: string
  fr_fence :: int
  fr_position :: nat
  fr_promotedDev :: string
  fr_promotedFence :: int
  fr_demoted :: string

definition lua_reply :: "string \<Rightarrow> int \<Rightarrow> nat \<Rightarrow> string \<Rightarrow> int \<Rightarrow> string \<Rightarrow> floor_result" where
  "lua_reply st f pos dev pf dem =
     \<lparr>fr_status = st, fr_fence = f, fr_position = pos, fr_promotedDev = dev,
      fr_promotedFence = pf, fr_demoted = dem\<rparr>"

definition lua_setFloor :: "int \<Rightarrow> int \<Rightarrow> string \<Rightarrow> int \<Rightarrow> lua_room \<Rightarrow> lua_room" where
  "lua_setFloor now ttl dev fence r =
     r\<lparr>lr_floor := Some \<lparr>lv_dev = dev, lv_fence = fence, lv_expiry = now + ttl,
                        lv_px = now + ttl + 5000\<rparr>\<rparr>"

definition lua_grantTo :: "int \<Rightarrow> int \<Rightarrow> string \<Rightarrow> lua_room \<Rightarrow> int \<times> lua_room" where
  "lua_grantTo now ttl dev r =
     (let fence = lr_fence r + 1;
          r = lua_setFloor now ttl dev fence (r\<lparr>lr_fence := fence\<rparr>)
      in (fence, r\<lparr>lr_queue := removeAll dev (lr_queue r)\<rparr>))"

text \<open>\<^verbatim>\<open>GET\<close> of a key with a \<^verbatim>\<open>PX\<close> deadline.\<close>

definition lua_get :: "int \<Rightarrow> lua_room \<Rightarrow> lua_value option" where
  "lua_get now r =
     (case lr_floor r of None \<Rightarrow> None | Some v \<Rightarrow> if lv_px v < now then None else Some v)"

definition lua_head :: "lua_room \<Rightarrow> string option" where
  "lua_head r = (case lr_queue r of [] \<Rightarrow> None | h # _ \<Rightarrow> Some h)"

definition lua_lpop :: "lua_room \<Rightarrow> lua_room" where
  "lua_lpop r = r\<lparr>lr_queue := tl (lr_queue r)\<rparr>"

text \<open>The position of \<open>qpos\<close>, or the end of the queue after an \<^verbatim>\<open>RPUSH\<close>.\<close>

definition lua_queue :: "string \<Rightarrow> lua_room \<Rightarrow> nat \<times> lua_room" where
  "lua_queue dev r =
     (case index_from 1 (lr_queue r) dev of
        Some i \<Rightarrow> (i, r)
      | None \<Rightarrow> (length (lr_queue r) + 1, r\<lparr>lr_queue := lr_queue r @ [dev]\<rparr>))"

definition luaFloor ::
  "int \<Rightarrow> int \<Rightarrow> nat \<Rightarrow> string \<Rightarrow> string \<Rightarrow> lua_room \<Rightarrow> floor_result \<times> lua_room" where
  "luaFloor now ttl maxq action device r0 =
     (let v = lua_get now r0;
          lapsed = (case v of Some x \<Rightarrow> lv_expiry x \<le> now | None \<Rightarrow> False);
          holder = (if lapsed then None else map_option lv_dev v);
          hfence = (case v of Some x \<Rightarrow> lv_fence x | None \<Rightarrow> 0);
          demoted = (case v of Some x \<Rightarrow> if lapsed then lv_dev x else [] | None \<Rightarrow> []);
          r = (if v = None \<or> lapsed then r0\<lparr>lr_floor := None\<rparr> else r0)
      in
      if action = ''acquire'' then
        if holder = None then
          case lua_head r of
            Some head \<Rightarrow>
              if head \<noteq> device then
                let (pf, r) = lua_grantTo now ttl head (lua_lpop r);
                    (pos, r) = lua_queue device r
                in (lua_reply ''queued'' 0 pos head pf demoted, r)
              else
                let (f, r) = lua_grantTo now ttl device (lua_lpop r)
                in (lua_reply ''granted'' f 0 [] 0 demoted, r)
          | None \<Rightarrow>
              let (f, r) = lua_grantTo now ttl device r
              in (lua_reply ''granted'' f 0 [] 0 demoted, r)
        else if holder = Some device then
          (lua_reply ''granted'' hfence 0 [] 0 [], lua_setFloor now ttl device hfence r)
        else if device \<notin> set (lr_queue r) \<and> length (lr_queue r) \<ge> maxq then
          (lua_reply ''full'' 0 0 [] 0 demoted, r)
        else let (pos, r) = lua_queue device r in (lua_reply ''queued'' 0 pos [] 0 demoted, r)
      else if action = ''heartbeat'' then
        if holder = Some device then
          (lua_reply ''ok'' hfence 0 [] 0 [], lua_setFloor now ttl device hfence r)
        else (lua_reply ''lost'' 0 0 [] 0 [], r)
      else if action = ''release'' then
        if holder = Some device then
          let r = r\<lparr>lr_floor := None\<rparr> in
          case lua_head r of
            Some head \<Rightarrow>
              let (f, r) = lua_grantTo now ttl head (lua_lpop r)
              in (lua_reply ''released'' f 0 head f [], r)
          | None \<Rightarrow> (lua_reply ''released'' 0 0 [] 0 [], r)
        else (lua_reply ''noop'' 0 0 [] 0 [], r)
      else if action = ''sweep'' then
        case (if holder = None then lua_head r else None) of
          Some head \<Rightarrow>
            let (f, r) = lua_grantTo now ttl head (lua_lpop r)
            in (lua_reply ''swept'' 0 0 head f demoted, r)
        | None \<Rightarrow> (lua_reply ''swept'' 0 0 [] 0 demoted, r)
      else (lua_reply ''noop'' 0 0 [] 0 [], r))"

definition vk_grant :: "string \<Rightarrow> int \<Rightarrow> grant option" where
  "vk_grant device fence = (if device = [] then None else Some \<lparr>g_Device = device, g_Fence = fence\<rparr>)"

text \<open>The Go conversions of a script reply.\<close>

definition vk_acquire_result :: "string \<Rightarrow> floor_result \<Rightarrow> acquire_result" where
  "vk_acquire_result participant r =
     \<lparr>ar_Granted = (if fr_status r = ''granted''
                    then Some \<lparr>g_Device = participant, g_Fence = fr_fence r\<rparr> else None),
      ar_Position = fr_position r, ar_Full = (fr_status r = ''full''),
      ar_Promoted = vk_grant (fr_promotedDev r) (fr_promotedFence r), ar_Demoted = fr_demoted r\<rparr>"

definition vk_heartbeat_result :: "floor_result \<Rightarrow> heartbeat_result" where
  "vk_heartbeat_result r = \<lparr>hr_Held = (fr_status r = ''ok''), hr_Fence = fr_fence r\<rparr>"

definition vk_release_result :: "floor_result \<Rightarrow> release_result" where
  "vk_release_result r =
     \<lparr>rr_Released = (fr_status r = ''released''), rr_Next = vk_grant (fr_promotedDev r) (fr_promotedFence r)\<rparr>"

definition vk_sweep_result :: "floor_result \<Rightarrow> sweep_result" where
  "vk_sweep_result r =
     \<lparr>sr_Demoted = fr_demoted r, sr_Promoted = vk_grant (fr_promotedDev r) (fr_promotedFence r)\<rparr>"

record valkey =
  vk_floors :: "string \<Rightarrow> lua_room"
  vk_rooms :: "string list"

text \<open>\<open>vk_fail\<close> says which calls to the server fail; a failed \<^verbatim>\<open>EXISTS\<close> or \<^verbatim>\<open>LLEN\<close> reads as 0.\<close>

datatype vk_call = VkScript | VkSAdd | VkExists | VkLLen | VkSRem | VkSMembers | VkGet

record vk_env =
  vk_now :: int
  vk_fail :: "vk_call \<Rightarrow> bool"

definition FloorTTL_ms :: int where "FloorTTL_ms = FloorTTL div Millisecond"

definition vk_run :: "vk_env \<Rightarrow> valkey \<Rightarrow> string \<Rightarrow> string \<Rightarrow> string \<Rightarrow> (floor_result \<times> valkey) option" where
  "vk_run e s room action device =
     (if vk_fail e VkScript then None
      else let (res, r) = luaFloor (vk_now e) FloorTTL_ms MaxQueue action device (vk_floors s room)
           in Some (res, s\<lparr>vk_floors := (vk_floors s)(room := r)\<rparr>))"

definition Vk_Acquire :: "vk_env \<Rightarrow> valkey \<Rightarrow> string \<Rightarrow> string \<Rightarrow> (acquire_result \<times> valkey) option" where
  "Vk_Acquire e s room participant =
     (case vk_run e s room ''acquire'' participant of
        None \<Rightarrow> None
      | Some (r, s) \<Rightarrow>
          Some (vk_acquire_result participant r,
                if vk_fail e VkSAdd \<or> room \<in> set (vk_rooms s) then s
                else s\<lparr>vk_rooms := vk_rooms s @ [room]\<rparr>))"

definition Vk_Heartbeat :: "vk_env \<Rightarrow> valkey \<Rightarrow> string \<Rightarrow> string \<Rightarrow> (heartbeat_result \<times> valkey) option" where
  "Vk_Heartbeat e s room participant =
     map_option (\<lambda>(r, s). (vk_heartbeat_result r, s)) (vk_run e s room ''heartbeat'' participant)"

definition Vk_Release :: "vk_env \<Rightarrow> valkey \<Rightarrow> string \<Rightarrow> string \<Rightarrow> (release_result \<times> valkey) option" where
  "Vk_Release e s room participant =
     map_option (\<lambda>(r, s). (vk_release_result r, s)) (vk_run e s room ''release'' participant)"

definition Vk_Sweep :: "vk_env \<Rightarrow> valkey \<Rightarrow> string \<Rightarrow> (sweep_result \<times> valkey) option" where
  "Vk_Sweep e s room =
     (case vk_run e s room ''sweep'' [] of
        None \<Rightarrow> None
      | Some (r, s) \<Rightarrow>
          let gone = (fr_promotedDev r = []
                \<and> (vk_fail e VkExists \<or> lua_get (vk_now e) (vk_floors s room) = None)
                \<and> (vk_fail e VkLLen \<or> lr_queue (vk_floors s room) = []))
          in Some (vk_sweep_result r,
                   if gone \<and> \<not> vk_fail e VkSRem
                   then s\<lparr>vk_rooms := removeAll room (vk_rooms s)\<rparr> else s))"

definition Vk_ActiveRooms :: "vk_env \<Rightarrow> valkey \<Rightarrow> string list option" where
  "Vk_ActiveRooms e s = (if vk_fail e VkSMembers then None else Some (vk_rooms s))"

definition Vk_Snapshot :: "vk_env \<Rightarrow> valkey \<Rightarrow> string \<Rightarrow> ((string \<times> nat) \<times> valkey) option" where
  "Vk_Snapshot e s room =
     (if vk_fail e VkGet \<or> vk_fail e VkLLen then None
      else Some ((case lua_get (vk_now e) (vk_floors s room) of None \<Rightarrow> [] | Some v \<Rightarrow> lv_dev v,
                  length (lr_queue (vk_floors s room))), s))"

definition ValkeyFloorStore :: "vk_env \<Rightarrow> valkey floor_store" where
  "ValkeyFloorStore e =
     \<lparr>fs_Acquire = Vk_Acquire e, fs_Heartbeat = Vk_Heartbeat e, fs_Release = Vk_Release e,
      fs_Sweep = Vk_Sweep e, fs_ActiveRooms = Vk_ActiveRooms e, fs_Snapshot = Vk_Snapshot e\<rparr>"

section \<open>The service\<close>

datatype ptt_effect =
    AllowPublish string string int
  | DenyPublish string string
  | SigGrant string string int int
  | SigQueuePos string string nat
  | SigRevoke string string string

definition participantOf :: "string \<Rightarrow> string \<Rightarrow> string" where
  "participantOf userID deviceID = userID @ '':'' @ deviceID"

definition applyGrant :: "string \<Rightarrow> grant option \<Rightarrow> ptt_effect list" where
  "applyGrant room g =
     (case g of
        None \<Rightarrow> []
      | Some g \<Rightarrow> [AllowPublish room (g_Device g) (g_Fence g),
                   SigGrant room (g_Device g) (g_Fence g) MaxSpeakMS])"

definition applyDemote :: "string \<Rightarrow> string \<Rightarrow> ptt_effect list" where
  "applyDemote room demoted =
     (if demoted = [] then [] else [DenyPublish room demoted, SigRevoke room demoted ''lapsed''])"

text \<open>The handlers return whether the store answered, the calls made, and the new store.\<close>

definition Ptt_Acquire ::
  "'s floor_store \<Rightarrow> 's \<Rightarrow> string \<Rightarrow> identity \<Rightarrow> bool \<times> ptt_effect list \<times> 's" where
  "Ptt_Acquire fs s room ident =
     (let p = participantOf (UserID ident) (DeviceID ident) in
      case fs_Acquire fs s room p of
        None \<Rightarrow> (False, [], s)
      | Some (r, s) \<Rightarrow>
          (True,
           applyDemote room (ar_Demoted r) @ applyGrant room (ar_Promoted r) @
           (if ar_Granted r \<noteq> None then applyGrant room (ar_Granted r)
            else if ar_Full r then [SigRevoke room p ''queue_full'']
            else if ar_Position r > 0 then [SigQueuePos room p (ar_Position r)]
            else []),
           s))"

definition Ptt_Heartbeat ::
  "'s floor_store \<Rightarrow> 's \<Rightarrow> string \<Rightarrow> identity \<Rightarrow> bool \<times> ptt_effect list \<times> 's" where
  "Ptt_Heartbeat fs s room ident =
     (let p = participantOf (UserID ident) (DeviceID ident) in
      case fs_Heartbeat fs s room p of
        None \<Rightarrow> (False, [], s)
      | Some (r, s) \<Rightarrow>
          (True, if hr_Held r then [] else [DenyPublish room p, SigRevoke room p ''lost''], s))"

definition Ptt_Release ::
  "'s floor_store \<Rightarrow> 's \<Rightarrow> string \<Rightarrow> identity \<Rightarrow> bool \<times> ptt_effect list \<times> 's" where
  "Ptt_Release fs s room ident =
     (let p = participantOf (UserID ident) (DeviceID ident) in
      case fs_Release fs s room p of
        None \<Rightarrow> (False, [], s)
      | Some (r, s) \<Rightarrow>
          (True, if rr_Released r then DenyPublish room p # applyGrant room (rr_Next r) else [], s))"

text \<open>The loop of \<^verbatim>\<open>SweepAll\<close>: a room whose sweep fails is skipped.\<close>

fun sweep_rooms ::
  "'s floor_store \<Rightarrow> string list \<Rightarrow> 's \<Rightarrow> nat \<times> ptt_effect list \<times> 's" where
  "sweep_rooms fs [] s = (0, [], s)"
| "sweep_rooms fs (room # rooms) s =
     (case fs_Sweep fs s room of
        None \<Rightarrow> sweep_rooms fs rooms s
      | Some (r, s) \<Rightarrow>
          let (n, es, s) = sweep_rooms fs rooms s in
          (n + (if sr_Promoted r \<noteq> None then 1 else 0),
           applyDemote room (sr_Demoted r) @ applyGrant room (sr_Promoted r) @ es, s))"

definition SweepAll :: "'s floor_store \<Rightarrow> 's \<Rightarrow> nat option \<times> ptt_effect list \<times> 's" where
  "SweepAll fs s =
     (case fs_ActiveRooms fs s of
        None \<Rightarrow> (None, [], s)
      | Some rooms \<Rightarrow> let (n, es, s) = sweep_rooms fs rooms s in (Some n, es, s))"

definition Ptt_State :: "'s floor_store \<Rightarrow> 's \<Rightarrow> string \<Rightarrow> (string \<times> nat) option \<times> 's" where
  "Ptt_State fs s room =
     (case fs_Snapshot fs s room of None \<Rightarrow> (None, s) | Some (st, s) \<Rightarrow> (Some st, s))"

section \<open>Publish permissions\<close>

text \<open>The permissions the SFU holds after a list of calls, as (room, participant) pairs.\<close>

fun sfu_apply :: "(string \<times> string) set \<Rightarrow> ptt_effect \<Rightarrow> (string \<times> string) set" where
  "sfu_apply A (AllowPublish room p fence) = insert (room, p) A"
| "sfu_apply A (DenyPublish room p) = A - {(room, p)}"
| "sfu_apply A _ = A"

definition sfu_run :: "(string \<times> string) set \<Rightarrow> ptt_effect list \<Rightarrow> (string \<times> string) set" where
  "sfu_run A es = run sfu_apply A es"

lemma sfu_run_simps [simp]:
  "sfu_run A [] = A" "sfu_run A (e # es) = sfu_run (sfu_apply A e) es"
  "sfu_run A (es @ es') = sfu_run (sfu_run A es) es'"
  by (simp_all add: sfu_run_def run_append)

lemma sfu_applyDemote: "sfu_run A (applyDemote room d) = (if d = [] then A else A - {(room, d)})"
  by (simp add: applyDemote_def)

lemma sfu_applyGrant: "sfu_run A (applyGrant room g) = A \<union> (\<lambda>g. (room, g_Device g)) ` set (opt_list g)"
  by (auto simp: applyGrant_def opt_list_def split: option.split)

text \<open>
  The contract of a floor store towards the service: every change of a room's holder is reported, either
  as the demoted holder or by a release, and every grant reported is for the new holder.
\<close>

definition handover ::
  "(string \<Rightarrow> string) \<Rightarrow> (string \<Rightarrow> string) \<Rightarrow> string \<Rightarrow> string \<Rightarrow> grant list \<Rightarrow> bool" where
  "handover h h' room demoted gs \<longleftrightarrow>
     (\<forall>x. x \<noteq> room \<longrightarrow> h' x = h x) \<and>
     (if demoted = [] then h room = [] \<or> h' room = h room else demoted = h room) \<and>
     (\<forall>g\<in>set gs. g_Device g = h' room \<and> g_Device g \<noteq> [])"

locale fenced_floor =
  fixes fs :: "'s floor_store"
    and holder :: "'s \<Rightarrow> string \<Rightarrow> string"
    and inv :: "'s \<Rightarrow> bool"
  assumes acquire_law: "inv s \<Longrightarrow> p \<noteq> [] \<Longrightarrow> fs_Acquire fs s room p = Some (ar, s') \<Longrightarrow>
      inv s' \<and> handover (holder s) (holder s') room (ar_Demoted ar)
        (opt_list (ar_Promoted ar) @ opt_list (ar_Granted ar))"
    and heartbeat_law: "inv s \<Longrightarrow> p \<noteq> [] \<Longrightarrow> fs_Heartbeat fs s room p = Some (hr, s') \<Longrightarrow>
      inv s' \<and> holder s' = holder s"
    and release_law: "inv s \<Longrightarrow> p \<noteq> [] \<Longrightarrow> fs_Release fs s room p = Some (rr, s') \<Longrightarrow>
      inv s' \<and> (if rr_Released rr then handover (holder s) (holder s') room p (opt_list (rr_Next rr))
                else holder s' = holder s)"
    and sweep_law: "inv s \<Longrightarrow> fs_Sweep fs s room = Some (sr, s') \<Longrightarrow>
      inv s' \<and> handover (holder s) (holder s') room (sr_Demoted sr) (opt_list (sr_Promoted sr))"
begin

definition speakers_ok :: "'s \<Rightarrow> (string \<times> string) set \<Rightarrow> bool" where
  "speakers_ok s A \<longleftrightarrow> (\<forall>room p. (room, p) \<in> A \<longrightarrow> p \<noteq> [] \<and> p = holder s room)"

lemma handover_speakers:
  assumes "speakers_ok s A" "handover (holder s) (holder s') room demoted gs"
    "B \<subseteq> (if demoted = [] then A else A - {(room, demoted)}) \<union> (\<lambda>g. (room, g_Device g)) ` set gs"
  shows "speakers_ok s' B"
  unfolding speakers_ok_def
proof (intro allI impI)
  fix x p assume "(x, p) \<in> B"
  with assms(3) consider "(x, p) \<in> A" "demoted = [] \<or> x \<noteq> room \<or> p \<noteq> demoted"
    | g where "g \<in> set gs" "x = room" "p = g_Device g"
    by (auto split: if_splits)
  then show "p \<noteq> [] \<and> p = holder s' x"
  proof cases
    case 1
    with assms(1) have "p \<noteq> []" "p = holder s x" by (auto simp: speakers_ok_def)
    with 1(2) assms(2) show ?thesis by (cases "x = room") (auto simp: handover_def split: if_splits)
  qed (use assms(2) in \<open>auto simp: handover_def\<close>)
qed

lemma speakers_mono: "speakers_ok s A \<Longrightarrow> holder s' = holder s \<Longrightarrow> B \<subseteq> A \<Longrightarrow> speakers_ok s' B"
  unfolding speakers_ok_def by (metis subsetD)

lemma speakers_Acquire:
  assumes "inv s" "speakers_ok s A" "Ptt_Acquire fs s room ident = (ok, es, s')"
  shows "inv s' \<and> speakers_ok s' (sfu_run A es)"
proof (cases "fs_Acquire fs s room (participantOf (UserID ident) (DeviceID ident))")
  case (Some rs)
  obtain r s1 where rs: "rs = (r, s1)" by (cases rs)
  have p: "participantOf (UserID ident) (DeviceID ident) \<noteq> []" by (simp add: participantOf_def)
  note law = acquire_law [OF assms(1) p Some [unfolded rs]]
  have s': "s' = s1" using assms(3) Some rs by (simp add: Ptt_Acquire_def Let_def)
  have "sfu_run A es \<subseteq> (if ar_Demoted r = [] then A else A - {(room, ar_Demoted r)})
      \<union> (\<lambda>g. (room, g_Device g)) ` set (opt_list (ar_Promoted r) @ opt_list (ar_Granted r))"
    using assms(3) Some rs
    by (auto simp: Ptt_Acquire_def Let_def sfu_applyDemote sfu_applyGrant split: if_splits)
  then show ?thesis using handover_speakers [OF assms(2)] law s' by blast
qed (use assms in \<open>simp add: Ptt_Acquire_def Let_def\<close>)

lemma speakers_Heartbeat:
  assumes "inv s" "speakers_ok s A" "Ptt_Heartbeat fs s room ident = (ok, es, s')"
  shows "inv s' \<and> speakers_ok s' (sfu_run A es)"
proof (cases "fs_Heartbeat fs s room (participantOf (UserID ident) (DeviceID ident))")
  case (Some rs)
  obtain r s1 where rs: "rs = (r, s1)" by (cases rs)
  have p: "participantOf (UserID ident) (DeviceID ident) \<noteq> []" by (simp add: participantOf_def)
  have "s' = s1" "sfu_run A es \<subseteq> A"
    using assms(3) Some rs by (auto simp: Ptt_Heartbeat_def Let_def split: if_splits)
  with heartbeat_law [OF assms(1) p Some [unfolded rs]] speakers_mono [OF assms(2)] show ?thesis
    by blast
qed (use assms in \<open>simp add: Ptt_Heartbeat_def Let_def\<close>)

lemma speakers_Release:
  assumes "inv s" "speakers_ok s A" "Ptt_Release fs s room ident = (ok, es, s')"
  shows "inv s' \<and> speakers_ok s' (sfu_run A es)"
proof (cases "fs_Release fs s room (participantOf (UserID ident) (DeviceID ident))")
  case (Some rs)
  obtain r s1 where rs: "rs = (r, s1)" by (cases rs)
  let ?p = "participantOf (UserID ident) (DeviceID ident)"
  have p: "?p \<noteq> []" by (simp add: participantOf_def)
  note law = release_law [OF assms(1) p Some [unfolded rs]]
  have s': "s' = s1" using assms(3) Some rs by (simp add: Ptt_Release_def Let_def)
  show ?thesis
  proof (cases "rr_Released r")
    case True
    then have "sfu_run A es \<subseteq> (if ?p = [] then A else A - {(room, ?p)})
        \<union> (\<lambda>g. (room, g_Device g)) ` set (opt_list (rr_Next r))"
      using assms(3) Some rs p by (auto simp: Ptt_Release_def Let_def sfu_applyGrant)
    moreover have "handover (holder s) (holder s') room ?p (opt_list (rr_Next r))"
      using True law s' by simp
    ultimately show ?thesis using handover_speakers [OF assms(2)] law s' by blast
  next
    case False
    then have "es = []" "holder s' = holder s"
      using assms(3) Some rs law s' by (auto simp: Ptt_Release_def Let_def)
    then show ?thesis using law s' speakers_mono [OF assms(2)] by simp
  qed
qed (use assms in \<open>simp add: Ptt_Release_def Let_def\<close>)

lemma speakers_sweep_rooms:
  "inv s \<Longrightarrow> speakers_ok s A \<Longrightarrow> sweep_rooms fs rooms s = (n, es, s') \<Longrightarrow>
   inv s' \<and> speakers_ok s' (sfu_run A es)"
proof (induction rooms arbitrary: s A n es)
  case (Cons room rooms)
  show ?case
  proof (cases "fs_Sweep fs s room")
    case None
    with Cons show ?thesis by simp
  next
    case (Some rs)
    obtain r s1 where rs: "rs = (r, s1)" by (cases rs)
    obtain n1 es1 where rest: "sweep_rooms fs rooms s1 = (n1, es1, s')"
      using Cons.prems(3) Some rs by (auto split: prod.splits)
    let ?A = "sfu_run A (applyDemote room (sr_Demoted r) @ applyGrant room (sr_Promoted r))"
    have "?A \<subseteq> (if sr_Demoted r = [] then A else A - {(room, sr_Demoted r)})
        \<union> (\<lambda>g. (room, g_Device g)) ` set (opt_list (sr_Promoted r))"
      by (simp add: sfu_applyDemote sfu_applyGrant)
    with sweep_law [OF Cons.prems(1) Some [unfolded rs]] handover_speakers [OF Cons.prems(2)]
    have "inv s1 \<and> speakers_ok s1 ?A" by blast
    with Cons.IH [OF _ _ rest, of ?A] Cons.prems(3) Some rs rest show ?thesis by auto
  qed
qed simp

lemma speakers_SweepAll:
  assumes "inv s" "speakers_ok s A" "SweepAll fs s = (n, es, s')"
  shows "inv s' \<and> speakers_ok s' (sfu_run A es)"
  using assms by (auto simp: SweepAll_def split: option.splits prod.splits dest: speakers_sweep_rooms)

end

section \<open>The in-memory store keeps the contract\<close>

definition mem_at :: "mem_floors \<Rightarrow> string \<Rightarrow> floor" where
  "mem_at m room = (case tbl_get fst room m of None \<Rightarrow> new_floor | Some rf \<Rightarrow> snd rf)"

definition mem_holder :: "mem_floors \<Rightarrow> string \<Rightarrow> string" where
  "mem_holder m room = fl_holder (mem_at m room)"

definition waiting_ok :: "floor \<Rightarrow> bool" where
  "waiting_ok f \<longleftrightarrow> floor_ok f \<and> [] \<notin> set (fl_queue f)"

definition mem_ok :: "mem_floors \<Rightarrow> bool" where
  "mem_ok m \<longleftrightarrow> tbl_wf fst m \<and> (\<forall>rf\<in>set m. waiting_ok (snd rf))"

lemma waiting_ok_new [simp]: "waiting_ok new_floor"
  using new_floor_ok by (simp add: waiting_ok_def new_floor_def)

lemma waiting_ok_at: "mem_ok m \<Longrightarrow> waiting_ok (mem_at m room)"
  by (auto simp: mem_at_def mem_ok_def split: option.split dest!: tbl_get_Some)

lemma mem_floor_at: "fst (mem_floor room m) = mem_at m room"
  by (simp add: mem_floor_def mem_at_def split: option.split)

lemma mem_at_with:
  assumes "mem_with method room m = (r, m')"
  shows "r = fst (method (mem_at m room))"
    "mem_at m' x = (if x = room then snd (method (mem_at m room)) else mem_at m x)"
  using assms
  by (auto simp: mem_with_def mem_floor_def mem_at_def tbl_get_upd tbl_get_append tbl_get_Cons Let_def
      split: option.splits prod.splits)

lemma mem_ok_with:
  assumes "mem_ok m" "waiting_ok (snd (method (mem_at m room)))" "mem_with method room m = (r, m')"
  shows "mem_ok m'"
proof -
  let ?m = "snd (mem_floor room m)" let ?f = "snd (method (mem_at m room))"
  have "mem_ok ?m"
    using assms(1) by (auto simp: mem_floor_def mem_ok_def tbl_wf_def tbl_get_None split: option.split)
  moreover have "m' = tbl_upd fst room (\<lambda>rf. (fst rf, ?f)) ?m"
    using assms(3) mem_floor_at [of room m] by (auto simp: mem_with_def Let_def split: prod.splits)
  ultimately show ?thesis
    using assms(2) by (auto simp: mem_ok_def set_tbl_upd intro: tbl_wf_upd)
qed

text \<open>What one domain operation reports about its change of holder.\<close>

lemma Acquire_handover:
  assumes "waiting_ok f" "p \<noteq> []" "Floor_Acquire p now ttl f = (r, f')"
  shows "waiting_ok f' \<and>
    (if ar_Demoted r = [] then fl_holder f = [] \<or> fl_holder f' = fl_holder f else ar_Demoted r = fl_holder f) \<and>
    (\<forall>g\<in>set (opt_list (ar_Promoted r) @ opt_list (ar_Granted r)). g_Device g = fl_holder f' \<and> g_Device g \<noteq> [])"
proof -
  have ok: "floor_ok f'"
    using assms floor_ok_Acquire [of f p now ttl] by (simp add: waiting_ok_def)
  show ?thesis
  proof (cases "fl_queue f")
    case Nil
    with assms ok show ?thesis
      by (auto simp: waiting_ok_def floor_defs Let_def Floor_Acquire_def split: option.splits if_splits)
  next
    case (Cons h q)
    with assms ok show ?thesis
      by (auto simp: waiting_ok_def floor_defs Let_def Floor_Acquire_def split: option.splits if_splits)
  qed
qed

lemma Release_handover:
  assumes "waiting_ok f" "Floor_Release p now ttl f = (r, f')"
  shows "waiting_ok f' \<and>
    (if rr_Released r then p = fl_holder f \<and> (\<forall>g\<in>set (opt_list (rr_Next r)). g_Device g = fl_holder f' \<and> g_Device g \<noteq> [])
     else f' = f)"
proof -
  have ok: "floor_ok f'"
    using assms floor_ok_Release [of f p now ttl] by (simp add: waiting_ok_def)
  with assms show ?thesis
    by (cases "fl_queue f") (auto simp: waiting_ok_def floor_defs Let_def Floor_Release_def split: if_splits)
qed

lemma Sweep_handover:
  assumes "waiting_ok f" "Floor_Sweep now ttl f = (r, f')" "0 < ttl"
  shows "waiting_ok f' \<and>
    (if sr_Demoted r = [] then fl_holder f = [] \<or> fl_holder f' = fl_holder f else sr_Demoted r = fl_holder f) \<and>
    (\<forall>g\<in>set (opt_list (sr_Promoted r)). g_Device g = fl_holder f' \<and> g_Device g \<noteq> []) \<and>
    (\<not> held f' now \<and> fl_queue f' = [] \<longrightarrow> fl_holder f' = [])"
proof -
  have ok: "floor_ok f'"
    using assms floor_ok_Sweep [of f now ttl] by (simp add: waiting_ok_def)
  show ?thesis
  proof (cases "fl_queue f")
    case Nil
    with assms ok show ?thesis
      by (auto simp: waiting_ok_def floor_defs Let_def Floor_Sweep_def split: if_splits)
  next
    case (Cons h q)
    with assms ok show ?thesis
      by (auto simp: waiting_ok_def floor_defs Let_def Floor_Sweep_def split: if_splits)
  qed
qed

lemma mem_ok_del: "mem_ok m \<Longrightarrow> mem_ok (tbl_del fst room m)"
  by (auto simp: mem_ok_def tbl_wf_del)

lemma mem_at_del: "mem_at (tbl_del fst room m) x = (if x = room then new_floor else mem_at m x)"
  by (simp add: mem_at_def tbl_get_del)

lemma Mem_Sweep_law:
  assumes "mem_ok m" "Mem_Sweep now now m room = (r, m')"
  shows "mem_ok m' \<and> handover (mem_holder m) (mem_holder m') room (sr_Demoted r) (opt_list (sr_Promoted r))"
proof -
  obtain m1 where w: "mem_with (Floor_Sweep now FloorTTL) room m = (r, m1)"
    and m': "m' = (if Floor_Idle (mem_at m1 room) now then tbl_del fst room m1 else m1)"
    using assms(2) by (auto simp: Mem_Sweep_def mem_floor_at split: prod.splits)
  obtain f' where s: "Floor_Sweep now FloorTTL (mem_at m room) = (r, f')"
    using mem_at_with(1) [OF w] by (metis prod.collapse)
  have "0 < FloorTTL" by (simp add: FloorTTL_def time_units)
  note h = Sweep_handover [OF waiting_ok_at [OF assms(1)] s this]
  have at: "mem_at m1 x = (if x = room then f' else mem_at m x)" for x
    using mem_at_with(2) [OF w] s by simp
  have "mem_ok m1" using mem_ok_with [OF assms(1) _ w] s h by simp
  moreover have "mem_holder m' x = (if x = room then fl_holder f' else mem_holder m x)" for x
    using h at by (auto simp: m' mem_holder_def mem_at_del Floor_Idle_def new_floor_def)
  ultimately show ?thesis
    using h by (auto simp: m' mem_ok_del handover_def mem_holder_def)
qed

interpretation mem: fenced_floor "MemoryFloorStore now (\<lambda>room. (clk room, clk room))" mem_holder mem_ok
  for now clk
proof
  fix m p room m'
  show "mem_ok m' \<and> handover (mem_holder m) (mem_holder m') room (ar_Demoted ar)
      (opt_list (ar_Promoted ar) @ opt_list (ar_Granted ar))"
    if "mem_ok m" "p \<noteq> []" "fs_Acquire (MemoryFloorStore now (\<lambda>room. (clk room, clk room))) m room p = Some (ar, m')"
    for ar
  proof -
    from that have w: "mem_with (Floor_Acquire p now FloorTTL) room m = (ar, m')"
      by (simp add: MemoryFloorStore_def Mem_Acquire_def)
    obtain f' where s: "Floor_Acquire p now FloorTTL (mem_at m room) = (ar, f')"
      using mem_at_with(1) [OF w] by (metis prod.collapse)
    note h = Acquire_handover [OF waiting_ok_at [OF that(1)] that(2) s]
    then show ?thesis
      using mem_ok_with [OF that(1) _ w] mem_at_with(2) [OF w] s by (auto simp: handover_def mem_holder_def)
  qed
  show "mem_ok m' \<and> mem_holder m' = mem_holder m"
    if "mem_ok m" "p \<noteq> []" "fs_Heartbeat (MemoryFloorStore now (\<lambda>room. (clk room, clk room))) m room p = Some (hr, m')"
    for hr
  proof -
    from that have w: "mem_with (Floor_Heartbeat p now FloorTTL) room m = (hr, m')"
      by (simp add: MemoryFloorStore_def Mem_Heartbeat_def)
    have "waiting_ok (snd (Floor_Heartbeat p now FloorTTL (mem_at m room)))"
      using waiting_ok_at [OF that(1)] floor_ok_Heartbeat by (auto simp: waiting_ok_def Floor_Heartbeat_def)
    with mem_ok_with [OF that(1) _ w] mem_at_with(2) [OF w] show ?thesis
      by (auto simp: mem_holder_def fun_eq_iff Floor_Heartbeat_def)
  qed
  show "mem_ok m' \<and> (if rr_Released rr then handover (mem_holder m) (mem_holder m') room p (opt_list (rr_Next rr))
      else mem_holder m' = mem_holder m)"
    if "mem_ok m" "p \<noteq> []" "fs_Release (MemoryFloorStore now (\<lambda>room. (clk room, clk room))) m room p = Some (rr, m')"
    for rr
  proof -
    from that have w: "mem_with (Floor_Release p now FloorTTL) room m = (rr, m')"
      by (simp add: MemoryFloorStore_def Mem_Release_def)
    obtain f' where s: "Floor_Release p now FloorTTL (mem_at m room) = (rr, f')"
      using mem_at_with(1) [OF w] by (metis prod.collapse)
    note h = Release_handover [OF waiting_ok_at [OF that(1)] s]
    then show ?thesis
      using mem_ok_with [OF that(1) _ w] mem_at_with(2) [OF w] s that(2)
      by (auto simp: handover_def mem_holder_def fun_eq_iff)
  qed
  show "mem_ok m' \<and> handover (mem_holder m) (mem_holder m') room (sr_Demoted sr) (opt_list (sr_Promoted sr))"
    if "mem_ok m" "fs_Sweep (MemoryFloorStore now (\<lambda>room. (clk room, clk room))) m room = Some (sr, m')" for sr
    using that Mem_Sweep_law by (simp add: MemoryFloorStore_def)
qed

section \<open>The service over the in-memory store\<close>

datatype ptt_req =
    ReqAcquire instant string identity
  | ReqHeartbeat instant string identity
  | ReqRelease instant string identity
  | ReqSweepAll instant "string \<Rightarrow> instant"

definition mem_store_at :: "instant \<Rightarrow> mem_floors floor_store" where
  "mem_store_at now = MemoryFloorStore now (\<lambda>_. (now, now))"

type_synonym ptt_sys = "mem_floors \<times> (string \<times> string) set"

fun ptt_step :: "ptt_sys \<Rightarrow> ptt_req \<Rightarrow> ptt_sys" where
  "ptt_step (m, A) (ReqAcquire now room i) =
     (let (ok, es, m') = Ptt_Acquire (mem_store_at now) m room i in (m', sfu_run A es))"
| "ptt_step (m, A) (ReqHeartbeat now room i) =
     (let (ok, es, m') = Ptt_Heartbeat (mem_store_at now) m room i in (m', sfu_run A es))"
| "ptt_step (m, A) (ReqRelease now room i) =
     (let (ok, es, m') = Ptt_Release (mem_store_at now) m room i in (m', sfu_run A es))"
| "ptt_step (m, A) (ReqSweepAll now clk) =
     (let (n, es, m') = SweepAll (MemoryFloorStore now (\<lambda>room. (clk room, clk room))) m in (m', sfu_run A es))"

definition sys_ok :: "ptt_sys \<Rightarrow> bool" where
  "sys_ok s \<longleftrightarrow> mem_ok (fst s) \<and> mem.speakers_ok (fst s) (snd s)"

interpretation ptt_sys: invariant_system ptt_step sys_ok
proof
  fix s x assume s: "sys_ok s"
  obtain m A where [simp]: "s = (m, A)" by (cases s)
  show "sys_ok (ptt_step s x)"
  proof (cases x)
    case (ReqAcquire now room i)
    with s mem.speakers_Acquire [of m A now "\<lambda>_. now" room i] show ?thesis
      by (auto simp: sys_ok_def mem_store_at_def Let_def split: prod.splits)
  next
    case (ReqHeartbeat now room i)
    with s mem.speakers_Heartbeat [of m A now "\<lambda>_. now" room i] show ?thesis
      by (auto simp: sys_ok_def mem_store_at_def Let_def split: prod.splits)
  next
    case (ReqRelease now room i)
    with s mem.speakers_Release [of m A now "\<lambda>_. now" room i] show ?thesis
      by (auto simp: sys_ok_def mem_store_at_def Let_def split: prod.splits)
  next
    case (ReqSweepAll now clk)
    with s mem.speakers_SweepAll [of m A now clk] show ?thesis
      by (auto simp: sys_ok_def Let_def split: prod.splits)
  qed
qed

end
