(* ===== verification/PttProps.thy ===== *)
theory PttProps
  imports PttService
begin

text \<open>
  The properties of push-to-talk: the floor algorithm, the service over the in-memory store, and how far
  the Valkey script agrees with the algorithm.
\<close>

section \<open>The script against the algorithm\<close>














section \<open>Properties\<close>

definition ex_room :: lua_room where
  "ex_room = \<lparr>lr_floor = Some \<lparr>lv_dev = ''a:1'', lv_fence = 4, lv_expiry = 2000, lv_px = 7000\<rparr>,
     lr_queue = [''b:1''], lr_fence = 4\<rparr>"

definition ex_bob :: identity where
  "ex_bob = \<lparr>UserID = ''b'', DeviceID = ''1'', SessionID = ''s''\<rparr>"

definition ex_valkey :: valkey where
  "ex_valkey = \<lparr>vk_floors = (\<lambda>_. ex_room\<lparr>lr_queue := []\<rparr>), vk_rooms = [''r'']\<rparr>"

definition ex_vk_env :: vk_env where
  "ex_vk_env = \<lparr>vk_now = 3000, vk_fail = (\<lambda>_. False)\<rparr>"


text \<open>
Fencing: over any sequence of operations on a room's floor the announced grants carry non-decreasing
fences, and two grants with the same fence are the same grant, so a fence identifies one speaker.
\<close>

theorem fenced_grants: "sorted_wrt fence_before (floor_grants new_floor ops)"
  by (rule grants_sorted) (rule new_floor_ok)

text \<open>
The floor invariant: after any sequence of operations no waiter is queued twice, the holder does not
wait, at most 500 devices wait, and the standing fence is a number already issued.
\<close>

theorem floor_invariant: "floor_ok (run floor_step new_floor ops)"
  by (rule floor_inv.keep_run) (rule new_floor_ok)

text \<open>
First in, first out: over any sequence of operations the devices that leave the queue are its first
ones, they are granted the floor in queue order, and the others keep their order ahead of newcomers.
\<close>

theorem queue_is_fifo:
  "\<exists>n ws. n \<le> length (fl_queue f) \<and> fl_queue (run floor_step f ops) = drop n (fl_queue f) @ ws
    \<and> subseq (take n (fl_queue f)) (map g_Device (floor_grants f ops))"
  by (rule queue_run)

text \<open>
C23. No waiter starves behind silent holders: with sweeps at least a lease apart and the current lease over at
the first, the waiter at place k holds the floor after k + 1 sweeps.
\<close>

theorem waiter_reaches_floor:
  assumes "length ts = Suc k" "k < length (fl_queue f)" "fl_holder f = [] \<or> fl_expiry f \<le> hd ts"
    "sorted_wrt (\<lambda>a b. a + ttl \<le> b) ts"
  shows "fl_holder (run floor_step f (map (\<lambda>t. OpSweep t ttl) ts)) = fl_queue f ! k"
  using assms by (rule sweeps_reach)

theorem waiter_reaches_floor_witness:
  "fl_holder (run floor_step (new_floor\<lparr>fl_holder := ''a'', fl_expiry := 9, fl_queue := [''b'', ''c'']\<rparr>)
     (map (\<lambda>t. OpSweep t 5) [10, 20])) = ''c''"
  using waiter_reaches_floor [of "[10, 20]" 1 "new_floor\<lparr>fl_holder := ''a'', fl_expiry := 9, fl_queue := [''b'', ''c'']\<rparr>" 5]
  by simp



text \<open>
Over Valkey a lapsed speaker can stay unmuted: when another participant heartbeats after the holder's
lease has lapsed, the floor is dropped without a demotion, and that participant's next acquire leaves both
allowed to publish.
\<close>

theorem lua_lapse_unreported:
  assumes "lua_get (vk_now e) (vk_floors s room) = Some v" "lv_expiry v \<le> vk_now e"
    "lr_queue (vk_floors s room) = []" "vk_fail e = (\<lambda>_. False)"
    "participantOf (UserID i) (DeviceID i) \<noteq> lv_dev v" "(room, lv_dev v) \<in> A"
  shows "\<exists>es1 s1 es2 s2. Ptt_Heartbeat (ValkeyFloorStore e) s room i = (True, es1, s1)
    \<and> Ptt_Acquire (ValkeyFloorStore e) s1 room i = (True, es2, s2)
    \<and> {lv_dev v, participantOf (UserID i) (DeviceID i)} \<subseteq> {p. (room, p) \<in> sfu_run A (es1 @ es2)}"
proof -
  let ?p = "participantOf (UserID i) (DeviceID i)"
  obtain s1 where h: "Ptt_Heartbeat (ValkeyFloorStore e) s room i
      = (True, [DenyPublish room ?p, SigRevoke room ?p ''lost''], s1)"
    and f: "lr_floor (vk_floors s1 room) = None" "lr_queue (vk_floors s1 room) = []"
    using assms(1-4)
    by (auto simp: Ptt_Heartbeat_def ValkeyFloorStore_def Vk_Heartbeat_def vk_run_def luaFloor_def
        vk_heartbeat_result_def lua_reply_def Let_def)
  obtain fn s2 where a: "Ptt_Acquire (ValkeyFloorStore e) s1 room i
      = (True, [AllowPublish room ?p fn, SigGrant room ?p fn MaxSpeakMS], s2)"
    using f assms(4)
    by (auto simp: Ptt_Acquire_def ValkeyFloorStore_def Vk_Acquire_def vk_run_def luaFloor_def lua_get_def
        lua_head_def lua_grantTo_def vk_acquire_result_def lua_reply_def vk_grant_def applyDemote_def
        applyGrant_def Let_def)
  have "(room, lv_dev v) \<in> A - {(room, ?p)}" using assms(5,6) by auto
  with h a show ?thesis by auto
qed

theorem lua_lapse_unreported_witness:
  "\<exists>es1 s1 es2 s2. Ptt_Heartbeat (ValkeyFloorStore ex_vk_env) ex_valkey ''r'' ex_bob = (True, es1, s1)
    \<and> Ptt_Acquire (ValkeyFloorStore ex_vk_env) s1 ''r'' ex_bob = (True, es2, s2)
    \<and> {''a:1'', ''b:1''} \<subseteq> {p. (''r'', p) \<in> sfu_run {(''r'', ''a:1'')} (es1 @ es2)}"
  using lua_lapse_unreported [of ex_vk_env ex_valkey "''r''" "the (lr_floor ex_room)" ex_bob "{(''r'', ''a:1'')}"]
  by (simp add: ex_vk_env_def ex_valkey_def ex_room_def ex_bob_def lua_get_def participantOf_def)

text \<open>
The in-memory store restarts the fences of a room: once a sweep finds the room without live holder and
waiters, the room is dropped and the next grant carries fence 1 again.
\<close>

theorem idle_sweep_restarts_fences:
  assumes "\<not> held (mem_at m room) now" "fl_queue (mem_at m room) = []" "p \<noteq> []"
  shows "ar_Granted (fst (Mem_Acquire t (snd (Mem_Sweep now now m room)) room p)) = Some \<lparr>g_Device = p, g_Fence = 1\<rparr>"
proof -
  obtain r m1 where w: "mem_with (Floor_Sweep now FloorTTL) room m = (r, m1)" by (cases "mem_with (Floor_Sweep now FloorTTL) room m")
  have "Floor_Idle (mem_at m1 room) now"
    using mem_at_with(2) [OF w, of room] assms(1,2)
    by (auto simp: Floor_Idle_def Floor_Sweep_def evictIfLapsed_def held_def)
  then have "mem_at (snd (Mem_Sweep now now m room)) room = new_floor"
    using w by (simp add: Mem_Sweep_def mem_floor_at mem_at_del)
  moreover have "fst (mem_with g room m') = fst (g (mem_at m' room))"
    for g :: "floor \<Rightarrow> acquire_result \<times> floor" and m'
    by (cases "mem_with g room m'") (simp add: mem_at_with(1))
  ultimately show ?thesis
    by (simp add: Mem_Acquire_def Floor_Acquire_def floor_defs new_floor_def Let_def)
qed

theorem idle_sweep_restarts_fences_witness:
  "ar_Granted (fst (Mem_Acquire 20 (snd (Mem_Sweep 10 10
      [(''r'', new_floor\<lparr>fl_holder := ''a:1'', fl_fence := 7, fl_expiry := 9, fl_fenceSeq := 7\<rparr>)] ''r'')) ''r'' ''b:1''))
   = Some \<lparr>g_Device = ''b:1'', g_Fence = 1\<rparr>"
  by (rule idle_sweep_restarts_fences) (simp_all add: mem_at_def tbl_get_Cons held_def new_floor_def)

section \<open>Concrete behaviours\<close>

text \<open>
  \<^verbatim>\<open>Sweep\<close> reads the clock twice. When the lease ends between the two reads, the room is dropped without
  demoting its holder.
\<close>

lemma sweep_between_clock_reads:
  "Mem_Sweep 9 10 [(''r'', new_floor\<lparr>fl_holder := ''a:1'', fl_fence := 7, fl_expiry := 10, fl_fenceSeq := 7\<rparr>)] ''r''
   = (\<lparr>sr_Demoted = [], sr_Promoted = None\<rparr>, [])"
  by (simp add: Mem_Sweep_def mem_with_def mem_floor_def tbl_get_Cons Floor_Sweep_def evictIfLapsed_def
      tbl_upd_def tbl_del_def Floor_Idle_def held_def new_floor_def)

end
