(* ===== verification/GoCodec.thy ===== *)
theory GoCodec
  imports GoStrings
begin

text \<open>
  What the sources use of Go's \<^verbatim>\<open>encoding/base64\<close> (raw URL, raw standard and padded standard encoding), of
  \<^verbatim>\<open>strings.Split\<close> and \<^verbatim>\<open>strings.TrimPrefix\<close>, and of \<^verbatim>\<open>fmt\<close> for decimal numbers. Decoding skips line breaks and does not check the unused
  bits of the last character, as the library does.
\<close>

section \<open>Base64\<close>

definition b64_alnum :: string where
  "b64_alnum = ''ABCDEFGHIJKLMNOPQRSTUVWXYZabcdefghijklmnopqrstuvwxyz0123456789''"

definition b64_url :: string where "b64_url = b64_alnum @ ''-_''"
definition b64_std :: string where "b64_std = b64_alnum @ ''+/''"

fun b64_groups :: "nat list \<Rightarrow> nat list" where
  "b64_groups (a # b # c # r) =
     a div 4 # ((a mod 4) * 16 + b div 16) # ((b mod 16) * 4 + c div 64) # c mod 64 # b64_groups r"
| "b64_groups [a, b] = [a div 4, (a mod 4) * 16 + b div 16, (b mod 16) * 4]"
| "b64_groups [a] = [a div 4, (a mod 4) * 16]"
| "b64_groups [] = []"

definition RawURL_Encode :: "string \<Rightarrow> string" where
  "RawURL_Encode s = map (\<lambda>v. b64_url ! v) (b64_groups (map byte s))"

definition Std_Encode :: "string \<Rightarrow> string" where
  "Std_Encode s =
     (let e = map (\<lambda>v. b64_std ! v) (b64_groups (map byte s))
      in e @ replicate ((4 - length e mod 4) mod 4) (CHR ''=''))"

fun b64_bytes :: "nat list \<Rightarrow> nat list option" where
  "b64_bytes (w # x # y # z # r) =
     (case b64_bytes r of
        None \<Rightarrow> None
      | Some bs \<Rightarrow> Some ((w * 4 + x div 16) # ((x mod 16) * 16 + y div 4) # ((y mod 4) * 64 + z) # bs))"
| "b64_bytes [w, x, y] = Some [w * 4 + x div 16, (x mod 16) * 16 + y div 4]"
| "b64_bytes [w, x] = Some [w * 4 + x div 16]"
| "b64_bytes [w] = None"
| "b64_bytes [] = Some []"

definition b64_val :: "string \<Rightarrow> char \<Rightarrow> nat option" where
  "b64_val alph c = find (\<lambda>v. alph ! v = c) [0..<length alph]"

definition Raw_Decode :: "string \<Rightarrow> string \<Rightarrow> string option" where
  "Raw_Decode alph s =
     (let vs = map (b64_val alph) (filter (\<lambda>c. byte c \<noteq> 10 \<and> byte c \<noteq> 13) s) in
      if None \<in> set vs then None
      else map_option bytes_of (b64_bytes (map the vs)))"

definition RawURL_Decode :: "string \<Rightarrow> string option" where
  "RawURL_Decode s = Raw_Decode b64_url s"

definition RawStd_Encode :: "string \<Rightarrow> string" where
  "RawStd_Encode s = map (\<lambda>v. b64_std ! v) (b64_groups (map byte s))"

definition RawStd_Decode :: "string \<Rightarrow> string option" where
  "RawStd_Decode s = Raw_Decode b64_std s"

section \<open>Strings\<close>

definition TrimPrefix :: "string \<Rightarrow> string \<Rightarrow> string" where
  "TrimPrefix s p = (if HasPrefix s p then drop (length p) s else s)"

text \<open>\<^verbatim>\<open>strings.Split\<close> with a one-byte separator.\<close>

fun Split_char :: "char \<Rightarrow> string \<Rightarrow> string list" where
  "Split_char d [] = [[]]"
| "Split_char d (c # cs) =
     (if c = d then [] # Split_char d cs
      else case Split_char d cs of [] \<Rightarrow> [[c]] | p # ps \<Rightarrow> (c # p) # ps)"

section \<open>Decimal numbers\<close>

text \<open>\<^verbatim>\<open>%d\<close> of \<^verbatim>\<open>fmt.Sprintf\<close>, and zero-padded to a width.\<close>

definition dec_digit :: "nat \<Rightarrow> char" where
  "dec_digit d = ''0123456789'' ! d"

fun dec :: "nat \<Rightarrow> string" where
  "dec n = (if n < 10 then [dec_digit n] else dec (n div 10) @ [dec_digit (n mod 10)])"

declare dec.simps [simp del]

definition dec_pad :: "nat \<Rightarrow> nat \<Rightarrow> string" where
  "dec_pad w n = replicate (w - length (dec n)) (CHR ''0'') @ dec n"

text \<open>
  \<^verbatim>\<open>%d\<close> of \<^verbatim>\<open>fmt.Sscanf\<close> into an unsigned integer of so many bits, and into an \<^verbatim>\<open>int\<close>: blanks, for the latter a sign,
  at least one digit. The result is the number and the input that is left.
\<close>

definition dec_val :: "string \<Rightarrow> nat" where
  "dec_val ds = foldl (\<lambda>n c. n * 10 + (byte c - 48)) 0 ds"

definition is_blank :: "char \<Rightarrow> bool" where
  "is_blank c \<longleftrightarrow> byte c \<in> {9, 11, 12, 13, 32}"

definition scan_uint :: "nat \<Rightarrow> string \<Rightarrow> (nat \<times> string) option" where
  "scan_uint bits s =
     (let s1 = dropWhile is_blank s; ds = takeWhile is_digit s1
      in if ds = [] \<or> dec_val ds \<ge> 2 ^ bits then None else Some (dec_val ds, dropWhile is_digit s1))"

definition scan_int :: "string \<Rightarrow> (int \<times> string) option" where
  "scan_int s =
     (let s1 = dropWhile is_blank s;
          neg = (s1 \<noteq> [] \<and> hd s1 = CHR ''-'');
          s2 = (if s1 \<noteq> [] \<and> hd s1 \<in> {CHR ''+'', CHR ''-''} then tl s1 else s1);
          ds = takeWhile is_digit s2
      in if ds = [] \<or> dec_val ds \<ge> (if neg then 2 ^ 63 + 1 else 2 ^ 63) then None
         else Some (if neg then - int (dec_val ds) else int (dec_val ds), dropWhile is_digit s2))"

definition scan_lit :: "string \<Rightarrow> string \<Rightarrow> string option" where
  "scan_lit lit s = (if HasPrefix s lit then Some (drop (length lit) s) else None)"

section \<open>Laws\<close>

lemma Split_char_ne: "Split_char d s \<noteq> []"
  by (induction s) (auto split: list.split)

lemma Split_char_plain: "d \<notin> set s \<Longrightarrow> Split_char d s = [s]"
  by (induction s) auto

lemma Split_char_append: "d \<notin> set s \<Longrightarrow> Split_char d (s @ d # t) = s # Split_char d t"
  by (induction s) auto

lemma Split_char_join:
  "Split_char d s = [a, b, c] \<Longrightarrow> s = a @ d # b @ d # c"
proof -
  have join: "s = concat (map (\<lambda>p. p @ [d]) (butlast (Split_char d s))) @ last (Split_char d s)" for s
  proof (induction s)
    case (Cons x s)
    then show ?case using Split_char_ne [of d s] by (cases "Split_char d s") (auto split: if_splits)
  qed simp
  assume "Split_char d s = [a, b, c]"
  with join [of s] show ?thesis by simp
qed

lemma b64_group_bounds:
  fixes a b :: nat
  shows "a < 256 \<Longrightarrow> a div 4 < 64" "b < 256 \<Longrightarrow> (a mod 4) * 16 + b div 16 < 64"
    "b < 256 \<Longrightarrow> (a mod 16) * 4 + b div 64 < 64" "(a mod 4) * 16 < 64" "(a mod 16) * 4 < 64"
proof -
  have m: "a mod 4 \<le> 3" "a mod 16 \<le> 15" by (simp_all add: less_Suc_eq_le [symmetric])
  show "a < 256 \<Longrightarrow> a div 4 < 64" by (simp add: less_mult_imp_div_less)
  show "(a mod 4) * 16 + b div 16 < 64" if "b < 256"
  proof -
    have "b div 16 < 16" using that by (simp add: less_mult_imp_div_less)
    with m show ?thesis by linarith
  qed
  show "(a mod 16) * 4 + b div 64 < 64" if "b < 256"
  proof -
    have "b div 64 < 4" using that by (simp add: less_mult_imp_div_less)
    with m show ?thesis by linarith
  qed
  show "(a mod 4) * 16 < 64" "(a mod 16) * 4 < 64" using m by linarith+
qed

lemma b64_groups_bound: "\<forall>b\<in>set bs. b < 256 \<Longrightarrow> \<forall>v\<in>set (b64_groups bs). v < 64"
  by (induction bs rule: b64_groups.induct) (simp_all add: b64_group_bounds)

lemma b64_recombine:
  fixes a b c :: nat
  shows "c < 256 \<Longrightarrow> a div 4 * 4 + ((a mod 4) * 16 + c div 16) div 16 = a"
    "c < 256 \<Longrightarrow> (((a mod 4) * 16 + b div 16) mod 16) * 16 + ((b mod 16) * 4 + c div 64) div 4
      = (b div 16) mod 16 * 16 + b mod 16"
    "((b mod 16) * 4 + c div 64) mod 4 * 64 + c mod 64 = c div 64 mod 4 * 64 + c mod 64"
    "a div 4 * 4 + ((a mod 4) * 16) div 16 = a"
    "(((a mod 4) * 16 + b div 16) mod 16) * 16 + ((b mod 16) * 4) div 4 = (b div 16) mod 16 * 16 + b mod 16"
proof -
  show "a div 4 * 4 + ((a mod 4) * 16) div 16 = a" by simp
  show "a div 4 * 4 + ((a mod 4) * 16 + c div 16) div 16 = a" if "c < 256"
  proof -
    have "c div 16 < 16" using that by (simp add: less_mult_imp_div_less)
    then show ?thesis by simp
  qed
  show "(((a mod 4) * 16 + b div 16) mod 16) * 16 + ((b mod 16) * 4 + c div 64) div 4
      = (b div 16) mod 16 * 16 + b mod 16" if "c < 256"
  proof -
    have "c div 64 < 4" using that by (simp add: less_mult_imp_div_less)
    then show ?thesis by simp
  qed
  show "((b mod 16) * 4 + c div 64) mod 4 * 64 + c mod 64 = c div 64 mod 4 * 64 + c mod 64" by simp
  show "(((a mod 4) * 16 + b div 16) mod 16) * 16 + ((b mod 16) * 4) div 4 = (b div 16) mod 16 * 16 + b mod 16"
    by simp
qed

lemma b64_small:
  fixes b :: nat
  shows "b < 256 \<Longrightarrow> (b div 16) mod 16 * 16 + b mod 16 = b" "b < 256 \<Longrightarrow> b div 64 mod 4 * 64 + b mod 64 = b"
proof -
  show "(b div 16) mod 16 * 16 + b mod 16 = b" if "b < 256"
  proof -
    have "b div 16 < 16" using that by (simp add: less_mult_imp_div_less)
    then show ?thesis by simp
  qed
  show "b div 64 mod 4 * 64 + b mod 64 = b" if "b < 256"
  proof -
    have "b div 64 < 4" using that by (simp add: less_mult_imp_div_less)
    then show ?thesis by simp
  qed
qed

lemma b64_bytes_groups: "\<forall>b\<in>set bs. b < 256 \<Longrightarrow> b64_bytes (b64_groups bs) = Some bs"
proof (induction bs rule: b64_groups.induct)
  case (1 a b c r)
  then have "b64_bytes (b64_groups r) = Some r" by simp
  then show ?case using "1.prems" by (simp only: b64_groups.simps b64_bytes.simps option.case b64_recombine b64_small list.set_intros insert_iff list.simps ball_simps)
next
  case (2 a b)
  then show ?case by (simp only: b64_groups.simps b64_bytes.simps b64_recombine b64_small list.set_intros insert_iff list.simps ball_simps)
next
  case (3 a)
  then show ?case by (simp only: b64_groups.simps b64_bytes.simps b64_recombine)
qed simp

lemma b64_val_nth: "distinct alph \<Longrightarrow> v < length alph \<Longrightarrow> b64_val alph (alph ! v) = Some v"
  unfolding b64_val_def find_Some_iff by (intro exI [of _ v]) (auto simp: nth_eq_iff_index_eq)

lemma b64_url_set: "distinct b64_url" "length b64_url = 64" "CHR ''.'' \<notin> set b64_url"
  "list_all (\<lambda>c. byte c \<noteq> 10 \<and> byte c \<noteq> 13) b64_url"
  by code_simp+

lemma b64_url_table:
  assumes "v < 64"
  shows "b64_val b64_url (b64_url ! v) = Some v \<and> b64_url ! v \<noteq> CHR ''.'' \<and>
     byte (b64_url ! v) \<noteq> 10 \<and> byte (b64_url ! v) \<noteq> 13"
proof -
  have i: "b64_url ! v \<in> set b64_url" using assms b64_url_set(2) by simp
  then have "b64_url ! v \<noteq> CHR ''.''" using b64_url_set(3) by metis
  moreover have "byte (b64_url ! v) \<noteq> 10 \<and> byte (b64_url ! v) \<noteq> 13"
    using i b64_url_set(4) unfolding list_all_iff by blast
  moreover have "b64_val b64_url (b64_url ! v) = Some v"
    using assms b64_url_set(1,2) by (intro b64_val_nth) simp_all
  ultimately show ?thesis by blast
qed

lemma RawURL_no_dot: "CHR ''.'' \<notin> set (RawURL_Encode s)"
proof -
  have b: "\<forall>b\<in>set (map byte s). b < 256" by auto
  show ?thesis
  proof
    assume "CHR ''.'' \<in> set (RawURL_Encode s)"
    then obtain v where v: "v \<in> set (b64_groups (map byte s))" "b64_url ! v = CHR ''.''"
      unfolding RawURL_Encode_def by (metis (no_types, lifting) imageE list.set_map)
    then show False using b64_groups_bound [OF b] b64_url_table [of v] by blast
  qed
qed

lemma raw_roundtrip:
  assumes "distinct alph" "length alph = 64" "list_all (\<lambda>c. byte c \<noteq> 10 \<and> byte c \<noteq> 13) alph"
  shows "Raw_Decode alph (map (\<lambda>v. alph ! v) (b64_groups (map byte s))) = Some s"
proof -
  have b: "\<forall>b\<in>set (map byte s). b < 256" by auto
  let ?g = "b64_groups (map byte s)" and ?e = "map (\<lambda>v. alph ! v) (b64_groups (map byte s))"
  have v: "v \<in> set ?g \<Longrightarrow> v < length alph" for v using b64_groups_bound [OF b] assms(2) by simp
  have "filter (\<lambda>c. byte c \<noteq> 10 \<and> byte c \<noteq> 13) ?e = ?e"
    using v assms(3) by (auto simp: filter_id_conv list_all_length)
  moreover have "map (b64_val alph) ?e = map Some ?g" using v b64_val_nth [OF assms(1)] by auto
  ultimately have "map (b64_val alph) (filter (\<lambda>c. byte c \<noteq> 10 \<and> byte c \<noteq> 13) ?e) = map Some ?g" by simp
  then show ?thesis
    unfolding Raw_Decode_def Let_def by (simp only:) (auto simp: b64_bytes_groups [OF b] comp_def bytes_of_def)
qed

lemma RawURL_roundtrip: "RawURL_Decode (RawURL_Encode s) = Some s"
  unfolding RawURL_Decode_def RawURL_Encode_def by (rule raw_roundtrip [OF b64_url_set(1,2,4)])

lemma b64_std_set: "distinct b64_std" "length b64_std = 64" "CHR ''$'' \<notin> set b64_std"
  "list_all (\<lambda>c. byte c \<noteq> 10 \<and> byte c \<noteq> 13) b64_std"
  by code_simp+

lemma RawStd_roundtrip: "RawStd_Decode (RawStd_Encode s) = Some s"
  unfolding RawStd_Decode_def RawStd_Encode_def by (rule raw_roundtrip [OF b64_std_set(1,2,4)])

lemma RawStd_no_dollar: "CHR ''$'' \<notin> set (RawStd_Encode s)"
proof
  have b: "\<forall>b\<in>set (map byte s). b < 256" by auto
  assume "CHR ''$'' \<in> set (RawStd_Encode s)"
  then obtain v where v: "v \<in> set (b64_groups (map byte s))" "b64_std ! v = CHR ''$''"
    unfolding RawStd_Encode_def by (metis (no_types, lifting) imageE list.set_map)
  then have "v < 64" using b64_groups_bound [OF b] by blast
  then have "b64_std ! v \<in> set b64_std" using b64_std_set(2) by simp
  with v(2) b64_std_set(3) show False by metis
qed

lemma dec_digit_props: "d < 10 \<Longrightarrow> is_digit (dec_digit d) \<and> byte (dec_digit d) - 48 = d \<and> \<not> is_blank (dec_digit d) \<and>
    dec_digit d \<notin> {CHR ''+'', CHR ''-'', CHR ''$''}"
proof -
  have "list_all (\<lambda>d. is_digit (dec_digit d) \<and> byte (dec_digit d) - 48 = d \<and> \<not> is_blank (dec_digit d) \<and>
    dec_digit d \<notin> {CHR ''+'', CHR ''-'', CHR ''$''}) [0..<10]" by code_simp
  then show "d < 10 \<Longrightarrow> ?thesis" by (auto simp: list_all_iff)
qed

lemma dec_digits: "c \<in> set (dec n) \<Longrightarrow> \<exists>d<10. c = dec_digit d"
  by (induction n rule: dec.induct) (subst (asm) (2) dec.simps, auto split: if_splits intro: exI [of _ "n mod 10" for n])

lemma dec_ne: "dec n \<noteq> []"
  by (subst dec.simps) simp

lemma dec_val_dec: "dec_val (dec n) = n"
proof (induction n rule: dec.induct)
  case (1 n)
  show ?case
  proof (cases "n < 10")
    case False
    have "dec_val (dec n) = dec_val (dec (n div 10)) * 10 + (byte (dec_digit (n mod 10)) - 48)"
      using False by (subst dec.simps) (simp add: dec_val_def)
    with 1 [OF False] dec_digit_props [of "n mod 10"] show ?thesis by simp
  qed (subst dec.simps, simp add: dec_val_def dec_digit_props)
qed

lemma scan_dec:
  assumes "r = [] \<or> \<not> is_digit (hd r)"
  shows "n < 2 ^ bits \<Longrightarrow> scan_uint bits (dec n @ r) = Some (n, r)" "n < 2 ^ 63 \<Longrightarrow> scan_int (dec n @ r) = Some (int n, r)"
proof -
  have d: "\<forall>c\<in>set (dec n). is_digit c \<and> \<not> is_blank c \<and> c \<notin> {CHR ''+'', CHR ''-''}"
  proof
    fix c assume "c \<in> set (dec n)"
    then obtain d where "d < 10" "c = dec_digit d" using dec_digits by blast
    then show "is_digit c \<and> \<not> is_blank c \<and> c \<notin> {CHR ''+'', CHR ''-''}" using dec_digit_props [of d] by simp
  qed
  have h: "hd (dec n @ r) \<in> set (dec n)" using dec_ne [of n] by (cases "dec n") auto
  have t: "takeWhile is_digit (dec n @ r) = dec n" "dropWhile is_digit (dec n @ r) = r"
    using d assms by (cases r; auto simp: takeWhile_append dropWhile_append)+
  have b: "dropWhile is_blank (dec n @ r) = dec n @ r" using d h dec_ne [of n] by (simp add: dropWhile_eq_self_iff)
  show "n < 2 ^ bits \<Longrightarrow> scan_uint bits (dec n @ r) = Some (n, r)"
    using t b dec_ne [of n] by (simp add: scan_uint_def Let_def dec_val_dec)
  have s: "hd (dec n @ r) \<notin> {CHR ''+'', CHR ''-''}" using d h by blast
  show "n < 2 ^ 63 \<Longrightarrow> scan_int (dec n @ r) = Some (int n, r)"
    using t b s dec_ne [of n] by (simp add: scan_int_def Let_def dec_val_dec)
qed

lemma scan_lit_append: "scan_lit l (l @ r) = Some r"
  by (simp add: scan_lit_def HasPrefix_iff)

end
