(* ===== verification/CallDomain.thy ===== *)
theory CallDomain
  imports GoCodec Contracts
begin

text \<open>
  \<^verbatim>\<open>server/internal/calls\<close>, the parts without storage: the ring state machine
  (\<^verbatim>\<open>domain/ring.go\<close>), join tokens (\<^verbatim>\<open>token.go\<close>) and webhook authentication (\<^verbatim>\<open>webhook.go\<close>).
  HMAC-SHA256, SHA-256 and JSON marshalling are parameters.
\<close>

section \<open>Ring states\<close>

definition MaxCallees :: int where "MaxCallees = 31"
definition MissedAfter :: duration where "MissedAfter = 45 * Second"
definition JoinTokenTTL :: duration where "JoinTokenTTL = 60 * Second"
definition RingTTL :: duration where "RingTTL = 2 * Minute"
definition CallMaxTTL :: duration where "CallMaxTTL = 8 * Hour"
definition HistoryRetention :: duration where "HistoryRetention = 90 * 24 * Hour"

type_synonym call_kind = int

definition KindVoice :: call_kind where "KindVoice = 1"
definition KindVideo :: call_kind where "KindVideo = 2"

definition Kind_Valid :: "call_kind \<Rightarrow> bool" where
  "Kind_Valid k \<longleftrightarrow> k = KindVoice \<or> k = KindVideo"

datatype ring_state =
    StateRinging | StateAnswered | StateAnsweredElsewhere | StateDeclined | StateBusy
  | StateMissed | StateEnded

fun Ring_Terminal :: "ring_state \<Rightarrow> bool" where
  "Ring_Terminal StateDeclined = True"
| "Ring_Terminal StateBusy = True"
| "Ring_Terminal StateMissed = True"
| "Ring_Terminal StateEnded = True"
| "Ring_Terminal _ = False"

datatype ring_event = EventAnswer | EventDecline | EventBusy | EventMiss | EventCancel | EventHangup

fun Next :: "ring_state \<Rightarrow> ring_event \<Rightarrow> ring_state \<times> bool" where
  "Next StateRinging EventAnswer = (StateAnswered, True)"
| "Next StateRinging EventDecline = (StateDeclined, True)"
| "Next StateRinging EventBusy = (StateBusy, True)"
| "Next StateRinging EventMiss = (StateMissed, True)"
| "Next StateRinging EventCancel = (StateEnded, True)"
| "Next StateAnswered EventHangup = (StateEnded, True)"
| "Next cur ev = (cur, False)"

datatype call_error = ErrBadKind | ErrNoCallees | ErrTooManyCallees

definition ValidateCreate :: "call_kind \<Rightarrow> int \<Rightarrow> call_error option" where
  "ValidateCreate kind calleeCount =
     (if \<not> Kind_Valid kind then Some ErrBadKind
      else if calleeCount = 0 then Some ErrNoCallees
      else if calleeCount > MaxCallees then Some ErrTooManyCallees
      else None)"

section \<open>Join tokens\<close>

record join_grant =
  jg_Identity :: string
  jg_Room :: string
  jg_CanPublish :: bool
  jg_CanSubscribe :: bool

record video_grant =
  vg_Room :: string
  vg_RoomJoin :: bool
  vg_CanPublish :: bool
  vg_CanSubscribe :: bool
  vg_CanPublishData :: bool

record access_claims =
  ac_Iss :: string
  ac_Sub :: string
  ac_Name :: string
  ac_Nbf :: int
  ac_Exp :: int
  ac_Video :: video_grant

definition jwt_header :: string where
  "jwt_header = CHR 0x7B # CHR 0x22 # ''alg'' @ CHR 0x22 # CHR '':'' # CHR 0x22 # ''HS256'' @ CHR 0x22 # CHR '',''
     # CHR 0x22 # ''typ'' @ CHR 0x22 # CHR '':'' # CHR 0x22 # ''JWT'' @ [CHR 0x22, CHR 0x7D]"

text \<open>\<open>payload\<close> is the marshalled claims set.\<close>

definition jwt_sign :: "(string \<Rightarrow> string \<Rightarrow> string) \<Rightarrow> string \<Rightarrow> string \<Rightarrow> string" where
  "jwt_sign hmac secret payload =
     (let header = RawURL_Encode jwt_header;
          signingInput = header @ ''.'' @ RawURL_Encode payload;
          sig = RawURL_Encode (hmac secret signingInput)
      in signingInput @ ''.'' @ sig)"

definition Mint ::
  "(string \<Rightarrow> string \<Rightarrow> string) \<Rightarrow> (access_claims \<Rightarrow> string) \<Rightarrow> string \<Rightarrow> string \<Rightarrow>
   join_grant \<Rightarrow> duration \<Rightarrow> instant \<Rightarrow> string" where
  "Mint hmac marshal apiKey secret g ttl now =
     jwt_sign hmac secret (marshal
       \<lparr>ac_Iss = apiKey, ac_Sub = jg_Identity g, ac_Name = jg_Identity g,
        ac_Nbf = Unix (now - 5 * Second), ac_Exp = Unix (now + ttl),
        ac_Video = \<lparr>vg_Room = jg_Room g, vg_RoomJoin = True, vg_CanPublish = jg_CanPublish g,
                    vg_CanSubscribe = jg_CanSubscribe g, vg_CanPublishData = jg_CanPublish g\<rparr>\<rparr>)"

section \<open>Webhook authentication\<close>

record webhook_claims =
  wc_Iss :: string
  wc_Exp :: int
  wc_SHA256 :: string

record webhook_event =
  wh_Event :: string
  wh_Room :: string
  wh_Identity :: string
  wh_ID :: string

datatype webhook_error = ErrWebhookAuth | ErrWebhookBody | ErrWebhookJSON

definition verifyJWT ::
  "(string \<Rightarrow> string \<Rightarrow> string) \<Rightarrow> (string \<Rightarrow> webhook_claims option) \<Rightarrow> string \<Rightarrow> string \<Rightarrow> instant \<Rightarrow>
   string \<Rightarrow> webhook_error + webhook_claims" where
  "verifyJWT hmac unmarshal apiKey secret now token =
     (let parts = Split_char (CHR ''.'') token in
      if length parts \<noteq> 3 then Inl ErrWebhookAuth
      else
        let expected = RawURL_Encode (hmac secret (parts ! 0 @ ''.'' @ parts ! 1)) in
        if expected \<noteq> parts ! 2 then Inl ErrWebhookAuth
        else case RawURL_Decode (parts ! 1) of
          None \<Rightarrow> Inl ErrWebhookAuth
        | Some raw \<Rightarrow>
           (case unmarshal raw of
              None \<Rightarrow> Inl ErrWebhookAuth
            | Some c \<Rightarrow>
               if wc_Iss c \<noteq> apiKey then Inl ErrWebhookAuth
               else if wc_Exp c \<noteq> 0 \<and> now > wc_Exp c * Second then Inl ErrWebhookAuth
               else Inr c))"

definition Webhook_Verify ::
  "(string \<Rightarrow> string \<Rightarrow> string) \<Rightarrow> (string \<Rightarrow> string) \<Rightarrow> (string \<Rightarrow> webhook_claims option) \<Rightarrow>
   (string \<Rightarrow> webhook_event option) \<Rightarrow> string \<Rightarrow> string \<Rightarrow> instant \<Rightarrow> string \<Rightarrow> string \<Rightarrow>
   webhook_error + webhook_event" where
  "Webhook_Verify hmac sha256 unmarshalClaims unmarshalEvent apiKey secret now authHeader body =
     (let token = TrimSpace (TrimPrefix authHeader ''Bearer '') in
      case verifyJWT hmac unmarshalClaims apiKey secret now token of
        Inl e \<Rightarrow> Inl e
      | Inr claims \<Rightarrow>
         if wc_SHA256 claims \<noteq> Std_Encode (sha256 body) then Inl ErrWebhookBody
         else (case unmarshalEvent body of None \<Rightarrow> Inl ErrWebhookJSON | Some ev \<Rightarrow> Inr ev))"

section \<open>The ring machine is one-way\<close>

fun ring_rank :: "ring_state \<Rightarrow> nat" where
  "ring_rank StateRinging = 2"
| "ring_rank StateAnswered = 1"
| "ring_rank _ = 0"

lemma Next_True: "Next s e = (s', True) \<Longrightarrow> s = StateRinging \<or> s = StateAnswered \<and> s' = StateEnded"
  by (cases "(s, e)" rule: Next.cases) auto

interpretation ring_machine: event_machine Next Ring_Terminal ring_rank
proof
  fix s s' :: ring_state and e
  show "s' = s" if "Next s e = (s', False)" using that by (cases "(s, e)" rule: Next.cases) auto
  show "\<not> snd (Next s e)" if "Ring_Terminal s" using that by (cases s) auto
  show "ring_rank s' < ring_rank s" if "Next s e = (s', True)"
    using that by (cases "(s, e)" rule: Next.cases) auto
  show "\<not> snd (Next s' e)" if "Next s e = (s', True)"
    using that by (cases "(s, e)" rule: Next.cases) auto
qed

section \<open>Tokens\<close>

lemma plain_RawURL: "plain (RawURL_Encode s)"
proof -
  have "list_all (\<lambda>c. 32 < byte c \<and> byte c < 128) b64_url" by code_simp
  moreover have "set (RawURL_Encode s) \<subseteq> set b64_url"
  proof
    fix c assume "c \<in> set (RawURL_Encode s)"
    then obtain v where v: "v \<in> set (b64_groups (map byte s))" "c = b64_url ! v"
      unfolding RawURL_Encode_def by (metis (no_types, lifting) imageE list.set_map)
    have "\<forall>b\<in>set (map byte s). b < 256" by auto
    from b64_groups_bound [OF this] v show "c \<in> set b64_url"
      using b64_url_set(2) by (metis nth_mem)
  qed
  ultimately show ?thesis unfolding plain_def list_all_iff by blast
qed

lemma Split_jwt:
  "Split_char (CHR ''.'') (RawURL_Encode a @ ''.'' @ RawURL_Encode b @ ''.'' @ RawURL_Encode c)
   = [RawURL_Encode a, RawURL_Encode b, RawURL_Encode c]"
  using Split_char_append [OF RawURL_no_dot] Split_char_plain [OF RawURL_no_dot] by simp

end
