(* ===== verification/CallService.thy ===== *)
theory CallService
  imports CallDomain "HOL-Library.Char_ord" "HOL-Library.List_Lexorder" "HOL-Library.Product_Lexorder"
begin

text \<open>
  The call control plane: the Valkey ring store (\<^verbatim>\<open>calls/adapters/valkey.go\<close>), call history and device
  lookup in PostgreSQL (\<^verbatim>\<open>calls/adapters/pg.go\<close>) and the service (\<^verbatim>\<open>calls/service.go\<close>).

  A Valkey key is an option with its expiry instant, on the same clock as the service; the sorted set of
  ringing calls is a list of members with scores. Signalling and push calls are returned as a list: the
  service ignores their errors. The token minter is a parameter, as the Go interface \<^verbatim>\<open>Minter\<close> is.
\<close>

section \<open>Records\<close>

record ring_record =
  rg_RingID :: string
  rg_RoomID :: string
  rg_Kind :: call_kind
  rg_CallerID :: string
  rg_CallerDeviceID :: string
  rg_CalleeIDs :: "string list"
  rg_State :: ring_state
  rg_StartedAt :: instant
  rg_Deadline :: instant
  rg_AnsweredBy :: string

definition rg_answered :: "ring_record \<Rightarrow> bool" where
  "rg_answered r \<longleftrightarrow> rg_AnsweredBy r \<noteq> []"

record create_result =
  cr_RoomID :: string
  cr_JoinToken :: string
  cr_RingID :: string

type_synonym outcome = int

definition OutcomeCompleted :: outcome where "OutcomeCompleted = 0"
definition OutcomeMissed :: outcome where "OutcomeMissed = 1"
definition OutcomeDeclined :: outcome where "OutcomeDeclined = 2"
definition OutcomeFailed :: outcome where "OutcomeFailed = 3"

lemmas outcome_defs = OutcomeCompleted_def OutcomeMissed_def OutcomeDeclined_def OutcomeFailed_def

record call_record =
  ca_ID :: string
  ca_RoomID :: string
  ca_Kind :: call_kind
  ca_Initiator :: string
  ca_Participants :: "string list"
  ca_StartedAt :: "instant option"
  ca_EndedAt :: "instant option"
  ca_Outcome :: outcome

record call_offer =
  of_RingID :: string
  of_RoomID :: string
  of_Kind :: call_kind
  of_CallerUserID :: string
  of_CallerDeviceID :: string
  of_ParticipantUserIDs :: "string list"

record call_invite =
  iv_RingID :: string
  iv_RoomID :: string
  iv_Kind :: call_kind
  iv_CallerUserID :: string

datatype call_effect =
    SignalOffer "string list" call_offer
  | SignalRing "string list" string ring_state string
  | SignalEnd "string list" string string string
  | PushVoIP "string list" call_invite
  | PushMissed "string list" string

record device_row =
  dv_user_id :: string
  dv_id :: string
  dv_revoked_at :: "instant option"

record call_db =
  cd_rings :: "string \<Rightarrow> (ring_record \<times> instant) option"
  cd_rooms :: "string \<Rightarrow> (string \<times> instant) option"
  cd_ringing :: "(string \<times> int) list"
  cd_records :: "call_record list"
  cd_devices :: "device_row list"

definition empty_call_db :: call_db where
  "empty_call_db = \<lparr>cd_rings = Map.empty, cd_rooms = Map.empty, cd_ringing = [], cd_records = [], cd_devices = []\<rparr>"

section \<open>The ring store\<close>

definition vk_read :: "instant \<Rightarrow> ('a \<times> instant) option \<Rightarrow> 'a option" where
  "vk_read now v = (case v of None \<Rightarrow> None | Some (x, deadline) \<Rightarrow> if now < deadline then Some x else None)"

definition ZRem :: "string \<Rightarrow> (string \<times> int) list \<Rightarrow> (string \<times> int) list" where
  "ZRem m z = filter (\<lambda>x. fst x \<noteq> m) z"

definition ZAdd :: "string \<Rightarrow> int \<Rightarrow> (string \<times> int) list \<Rightarrow> (string \<times> int) list" where
  "ZAdd m score z = (m, score) # ZRem m z"

definition Ring_Save :: "instant \<Rightarrow> ring_record \<Rightarrow> duration \<Rightarrow> call_db \<Rightarrow> call_db" where
  "Ring_Save now r ttl db =
     db\<lparr>cd_rings := (cd_rings db)(rg_RingID r \<mapsto> (r, now + ttl)),
        cd_rooms := (cd_rooms db)(rg_RoomID r \<mapsto> (rg_RingID r, now + ttl)),
        cd_ringing := (if rg_State r = StateRinging
                       then ZAdd (rg_RingID r) (Unix (rg_Deadline r)) (cd_ringing db)
                       else ZRem (rg_RingID r) (cd_ringing db))\<rparr>"

definition Ring_Get :: "instant \<Rightarrow> call_db \<Rightarrow> string \<Rightarrow> ring_record option" where
  "Ring_Get now db ringID = vk_read now (cd_rings db ringID)"

definition Ring_GetByRoom :: "instant \<Rightarrow> call_db \<Rightarrow> string \<Rightarrow> ring_record option" where
  "Ring_GetByRoom now db roomID =
     (case vk_read now (cd_rooms db roomID) of None \<Rightarrow> None | Some ringID \<Rightarrow> Ring_Get now db ringID)"

text \<open>\<^verbatim>\<open>ZRANGE ... BYSCORE\<close>: by score, then by member; a count that is not positive means no limit.\<close>

definition ZRangeByScore :: "int \<Rightarrow> int \<Rightarrow> (string \<times> int) list \<Rightarrow> string list" where
  "ZRangeByScore stop count z =
     (let ids = map fst (sort_key (\<lambda>(m, s). (s, m)) (filter (\<lambda>x. snd x \<le> stop) z))
      in if count > 0 then take (nat count) ids else ids)"

text \<open>
  The loop over the due ids: an expired ring leaves the index (best effort), a ring no longer ringing is
  skipped, and a failed read ends the loop with an error.
\<close>

datatype call_op =
    CallSave string | CallGet string | CallGetByRoom | CallExpired | CallZRem string | CallUpsert string
  | CallHistory | CallPurge | CallDevices

fun expired_loop ::
  "(call_op \<Rightarrow> bool) \<Rightarrow> instant \<Rightarrow> string list \<Rightarrow> call_db \<Rightarrow> ring_record list option \<times> call_db" where
  "expired_loop down now [] db = (Some [], db)"
| "expired_loop down now (ringID # ids) db =
     (if down (CallGet ringID) then (None, db)
      else case Ring_Get now db ringID of
        None \<Rightarrow>
          expired_loop down now ids
            (if down (CallZRem ringID) then db else db\<lparr>cd_ringing := ZRem ringID (cd_ringing db)\<rparr>)
      | Some r \<Rightarrow>
          let (out, db) = expired_loop down now ids db
          in (if rg_State r = StateRinging then map_option ((#) r) out else out, db))"

definition ExpiredRinging ::
  "(call_op \<Rightarrow> bool) \<Rightarrow> instant \<Rightarrow> int \<Rightarrow> call_db \<Rightarrow> ring_record list option \<times> call_db" where
  "ExpiredRinging down now limit db =
     (if down CallExpired then (None, db)
      else expired_loop down now (ZRangeByScore (Unix now) limit (cd_ringing db)) db)"

section \<open>Call history and devices\<close>

definition kindToDB :: "call_kind \<Rightarrow> int" where "kindToDB k = k - 1"
definition kindFromDB :: "int \<Rightarrow> call_kind" where "kindFromDB k = k + 1"

text \<open>Rows keep the record with the kind as stored.\<close>

definition History_Upsert :: "call_record \<Rightarrow> call_record list \<Rightarrow> call_record list" where
  "History_Upsert r rows =
     (if ca_ID r \<in> ca_ID ` set rows
      then tbl_upd ca_ID (ca_ID r) (\<lambda>x. x\<lparr>ca_EndedAt := ca_EndedAt r, ca_Outcome := ca_Outcome r\<rparr>) rows
      else rows @ [r\<lparr>ca_Kind := kindToDB (ca_Kind r)\<rparr>])"

definition History_List ::
  "call_record list \<Rightarrow> string \<Rightarrow> string \<Rightarrow> nat \<Rightarrow> call_record list \<times> string" where
  "History_List rows userID cursor limit =
     (let mine = filter (\<lambda>r. userID \<in> set (ca_Participants r) \<and> (cursor = [] \<or> ca_ID r < cursor)) rows;
          out = map (\<lambda>r. r\<lparr>ca_Kind := kindFromDB (ca_Kind r)\<rparr>) (take (limit + 1) (rev (sort_key ca_ID mine)))
      in if length out > limit then (take limit out, ca_ID (out ! limit)) else (out, []))"

text \<open>A NULL \<^verbatim>\<open>started_at\<close> is never before the cutoff.\<close>

definition PurgeOlderThan :: "instant \<Rightarrow> call_record list \<Rightarrow> nat \<times> call_record list" where
  "PurgeOlderThan cutoff rows =
     (let old = (\<lambda>r. case ca_StartedAt r of None \<Rightarrow> False | Some t \<Rightarrow> t < cutoff)
      in (length (filter old rows), filter (\<lambda>r. \<not> old r) rows))"

definition DevicesOf :: "device_row list \<Rightarrow> string list \<Rightarrow> (string \<times> string list) list" where
  "DevicesOf rows userIDs =
     (let live = filter (\<lambda>d. dv_user_id d \<in> set userIDs \<and> dv_revoked_at d = None) rows
      in map (\<lambda>u. (u, map dv_id (filter (\<lambda>d. dv_user_id d = u) live))) (remdups (map dv_user_id live)))"

section \<open>The service\<close>

record call_env =
  ce_now :: instant
  ce_newRoom :: string
  ce_newRing :: string
  ce_mint :: "join_grant \<Rightarrow> duration \<Rightarrow> instant \<Rightarrow> string option"
  ce_down :: "call_op \<Rightarrow> bool"

definition joinGrant :: "identity \<Rightarrow> string \<Rightarrow> join_grant" where
  "joinGrant ident room =
     \<lparr>jg_Identity = UserID ident @ '':'' @ DeviceID ident, jg_Room = room,
      jg_CanPublish = True, jg_CanSubscribe = True\<rparr>"

definition validationError :: "call_error \<Rightarrow> api_error" where
  "validationError e =
     (case e of ErrBadKind \<Rightarrow> Reject 400 ''VALIDATION_KIND''
      | ErrNoCallees \<Rightarrow> Reject 400 ''VALIDATION_CALLEES''
      | ErrTooManyCallees \<Rightarrow> Reject 400 ''VALIDATION_CALLEES'')"

definition dedupExcept :: "string list \<Rightarrow> string \<Rightarrow> string list" where
  "dedupExcept xs except = dedup_seen (\<lambda>x. x = []) {except} xs"

definition deviceList :: "call_env \<Rightarrow> call_db \<Rightarrow> string list \<Rightarrow> string list" where
  "deviceList e db userIDs =
     (if userIDs = [] then []
      else if ce_down e CallDevices then []
      else concat (map snd (DevicesOf (cd_devices db) userIDs)))"

definition siblingDevices :: "call_env \<Rightarrow> call_db \<Rightarrow> string list \<Rightarrow> string \<Rightarrow> string list" where
  "siblingDevices e db calleeIDs exceptDevice =
     filter (\<lambda>d. d \<noteq> exceptDevice) (deviceList e db calleeIDs)"

definition loadRing :: "call_env \<Rightarrow> call_db \<Rightarrow> string \<Rightarrow> ring_record result" where
  "loadRing e db ringID =
     (if ce_down e (CallGet ringID) then Inl Transient
      else case Ring_Get (ce_now e) db ringID of
             None \<Rightarrow> Inl (Reject 404 ''RING_NOT_FOUND'')
           | Some r \<Rightarrow> Inr r)"

definition recordOutcome :: "call_env \<Rightarrow> ring_record \<Rightarrow> outcome \<Rightarrow> call_db \<Rightarrow> call_db" where
  "recordOutcome e r outcome db =
     (if ce_down e (CallUpsert (rg_RingID r)) then db
      else db\<lparr>cd_records := History_Upsert
        \<lparr>ca_ID = rg_RingID r, ca_RoomID = rg_RoomID r, ca_Kind = rg_Kind r, ca_Initiator = rg_CallerID r,
         ca_Participants = rg_CallerID r # rg_CalleeIDs r, ca_StartedAt = Some (rg_StartedAt r),
         ca_EndedAt = Some (ce_now e), ca_Outcome = outcome\<rparr> (cd_records db)\<rparr>)"

definition Call_Create ::
  "call_env \<Rightarrow> call_db \<Rightarrow> identity \<Rightarrow> string list \<Rightarrow> call_kind \<Rightarrow>
   create_result result \<times> call_effect list \<times> call_db" where
  "Call_Create e db caller calleeIDs kind =
     (case ValidateCreate kind (int (length calleeIDs)) of
        Some err \<Rightarrow> (Inl (validationError err), [], db)
      | None \<Rightarrow>
        let now = ce_now e; roomID = ''call-'' @ ce_newRoom e; ringID = ce_newRing e in
        case ce_mint e (joinGrant caller roomID) JoinTokenTTL now of
          None \<Rightarrow> (Inl Transient, [], db)
        | Some token \<Rightarrow>
          let r = \<lparr>rg_RingID = ringID, rg_RoomID = roomID, rg_Kind = kind,
                   rg_CallerID = UserID caller, rg_CallerDeviceID = DeviceID caller,
                   rg_CalleeIDs = dedupExcept calleeIDs (UserID caller),
                   rg_State = StateRinging, rg_StartedAt = now, rg_Deadline = now + MissedAfter,
                   rg_AnsweredBy = []\<rparr>
          in if ce_down e (CallSave ringID) then (Inl Transient, [], db)
             else
               let db1 = Ring_Save now r RingTTL db;
                   calleeDevices = deviceList e db1 (rg_CalleeIDs r);
                   participants = UserID caller # rg_CalleeIDs r
               in (Inr \<lparr>cr_RoomID = roomID, cr_JoinToken = token, cr_RingID = ringID\<rparr>,
                   [SignalOffer calleeDevices
                      \<lparr>of_RingID = ringID, of_RoomID = roomID, of_Kind = kind,
                       of_CallerUserID = UserID caller, of_CallerDeviceID = DeviceID caller,
                       of_ParticipantUserIDs = participants\<rparr>,
                    PushVoIP calleeDevices
                      \<lparr>iv_RingID = ringID, iv_RoomID = roomID, iv_Kind = kind,
                       iv_CallerUserID = UserID caller\<rparr>],
                   db1))"

definition Call_Answer ::
  "call_env \<Rightarrow> call_db \<Rightarrow> identity \<Rightarrow> string \<Rightarrow> string result \<times> call_effect list \<times> call_db" where
  "Call_Answer e db ident ringID =
     (case loadRing e db ringID of
        Inl err \<Rightarrow> (Inl err, [], db)
      | Inr r \<Rightarrow>
        if UserID ident \<notin> set (rg_CalleeIDs r) then (Inl (Reject 403 ''STATE_FORBIDDEN''), [], db)
        else
          let (nxt, ok) = Next (rg_State r) EventAnswer in
          if \<not> ok then
            if rg_State r = StateAnswered \<and> rg_AnsweredBy r = DeviceID ident then
              case ce_mint e (joinGrant ident (rg_RoomID r)) JoinTokenTTL (ce_now e) of
                None \<Rightarrow> (Inl Internal, [], db)
              | Some token \<Rightarrow> (Inr token, [], db)
            else (Inl (Reject 409 ''STATE_RING_CLOSED''), [], db)
          else
            let r = r\<lparr>rg_State := nxt, rg_AnsweredBy := DeviceID ident\<rparr> in
            if ce_down e (CallSave (rg_RingID r)) then (Inl Transient, [], db)
            else
              let db1 = Ring_Save (ce_now e) r CallMaxTTL db in
              case ce_mint e (joinGrant ident (rg_RoomID r)) JoinTokenTTL (ce_now e) of
                None \<Rightarrow> (Inl Transient, [], db1)
              | Some token \<Rightarrow>
                  (Inr token,
                   [SignalRing (deviceList e db1 [rg_CallerID r]) ringID StateAnswered (UserID ident),
                    SignalRing (siblingDevices e db1 (rg_CalleeIDs r) (DeviceID ident)) ringID
                      StateAnsweredElsewhere (UserID ident)],
                   db1))"

definition Call_Decline ::
  "call_env \<Rightarrow> call_db \<Rightarrow> identity \<Rightarrow> string \<Rightarrow> unit result \<times> call_effect list \<times> call_db" where
  "Call_Decline e db ident ringID =
     (case loadRing e db ringID of
        Inl err \<Rightarrow> (Inl err, [], db)
      | Inr r \<Rightarrow>
        if UserID ident \<notin> set (rg_CalleeIDs r) then (Inl (Reject 403 ''STATE_FORBIDDEN''), [], db)
        else
          let (nxt, ok) = Next (rg_State r) EventDecline in
          if \<not> ok then (Inr (), [], db)
          else
            let r = r\<lparr>rg_State := nxt\<rparr> in
            if ce_down e (CallSave (rg_RingID r)) then (Inl Transient, [], db)
            else
              let db1 = Ring_Save (ce_now e) r RingTTL db in
              (Inr (),
               [SignalRing (deviceList e db1 [rg_CallerID r]) ringID StateDeclined (UserID ident)],
               recordOutcome e r OutcomeDeclined db1))"

definition Call_Rejoin :: "call_env \<Rightarrow> call_db \<Rightarrow> identity \<Rightarrow> string \<Rightarrow> string result" where
  "Call_Rejoin e db ident roomID =
     (if ce_down e CallGetByRoom then Inl Transient
      else case Ring_GetByRoom (ce_now e) db roomID of
        None \<Rightarrow> Inl (Reject 404 ''CALL_NOT_FOUND'')
      | Some r \<Rightarrow>
        if UserID ident \<noteq> rg_CallerID r \<and> UserID ident \<notin> set (rg_CalleeIDs r)
        then Inl (Reject 403 ''STATE_FORBIDDEN'')
        else if Ring_Terminal (rg_State r) then Inl (Reject 409 ''STATE_CALL_ENDED'')
        else case ce_mint e (joinGrant ident roomID) JoinTokenTTL (ce_now e) of
               None \<Rightarrow> Inl Internal
             | Some token \<Rightarrow> Inr token)"

definition Call_History ::
  "call_env \<Rightarrow> call_db \<Rightarrow> identity \<Rightarrow> string \<Rightarrow> int \<Rightarrow> (call_record list \<times> string) result" where
  "Call_History e db ident cursor limit =
     (let limit = (if limit \<le> 0 \<or> limit > 100 then 50 else limit) in
      if ce_down e CallHistory then Inl Transient
      else Inr (History_List (cd_records db) (UserID ident) cursor (nat limit)))"

definition PurgeHistory :: "call_env \<Rightarrow> call_db \<Rightarrow> nat option \<times> call_db" where
  "PurgeHistory e db =
     (if ce_down e CallPurge then (None, db)
      else let (n, rows) = PurgeOlderThan (ce_now e - HistoryRetention) (cd_records db)
           in (Some n, db\<lparr>cd_records := rows\<rparr>))"

fun sweep_loop :: "call_env \<Rightarrow> ring_record list \<Rightarrow> call_db \<Rightarrow> nat \<times> call_effect list \<times> call_db" where
  "sweep_loop e [] db = (0, [], db)"
| "sweep_loop e (r # rs) db =
     (let (nxt, ok) = Next (rg_State r) EventMiss in
      if \<not> ok then sweep_loop e rs db
      else
        let r = r\<lparr>rg_State := nxt\<rparr> in
        if ce_down e (CallSave (rg_RingID r)) then sweep_loop e rs db
        else
          let db1 = Ring_Save (ce_now e) r RingTTL db;
              fx = [SignalRing (deviceList e db1 [rg_CallerID r]) (rg_RingID r) StateMissed [],
                    PushMissed (deviceList e db1 (rg_CalleeIDs r)) (rg_RingID r)];
              (n, fx', db2) = sweep_loop e rs (recordOutcome e r OutcomeMissed db1)
          in (n + 1, fx @ fx', db2))"

definition SweepMissed :: "call_env \<Rightarrow> call_db \<Rightarrow> int \<Rightarrow> nat option \<times> call_effect list \<times> call_db" where
  "SweepMissed e db limit =
     (case ExpiredRinging (ce_down e) (ce_now e) limit db of
        (None, db1) \<Rightarrow> (None, [], db1)
      | (Some expired, db1) \<Rightarrow> let (n, fx, db2) = sweep_loop e expired db1 in (Some n, fx, db2))"

definition Call_HandleWebhook ::
  "call_env \<Rightarrow> call_db \<Rightarrow> webhook_event \<Rightarrow> unit result \<times> call_effect list \<times> call_db" where
  "Call_HandleWebhook e db ev =
     (if wh_Event ev = ''room_finished'' then
        if ce_down e CallGetByRoom then (Inl Internal, [], db)
        else case Ring_GetByRoom (ce_now e) db (wh_Room ev) of
          None \<Rightarrow> (Inr (), [], db)
        | Some r0 \<Rightarrow>
          let open_ring = \<not> Ring_Terminal (rg_State r0);
              r = (if open_ring then r0\<lparr>rg_State := StateEnded\<rparr> else r0)
          in if open_ring \<and> ce_down e (CallSave (rg_RingID r)) then (Inl Internal, [], db)
             else
               let db1 = (if open_ring then Ring_Save (ce_now e) r RingTTL db else db);
                   fx = (if open_ring
                         then [SignalEnd (deviceList e db1 (rg_CallerID r # rg_CalleeIDs r))
                                 (rg_RingID r) (rg_RoomID r) ''room_finished'']
                         else []);
                   outcome = (if rg_answered r then OutcomeCompleted else OutcomeFailed)
               in (Inr (), fx, recordOutcome e r outcome db1)
      else if wh_Event ev = ''participant_joined'' then
        if ce_down e CallGetByRoom then (Inr (), [], db)
        else case Ring_GetByRoom (ce_now e) db (wh_Room ev) of
          None \<Rightarrow> (Inr (), [], db)
        | Some r \<Rightarrow>
          let (nxt, ok) = Next (rg_State r) EventAnswer in
          if ok \<and> \<not> ce_down e (CallSave (rg_RingID r))
          then (Inr (), [], Ring_Save (ce_now e) (r\<lparr>rg_State := nxt\<rparr>) CallMaxTTL db)
          else (Inr (), [], db)
      else (Inr (), [], db))"

section \<open>Requests\<close>

datatype call_req =
    CReqCreate identity "string list" call_kind
  | CReqAnswer identity string
  | CReqDecline identity string
  | CReqSweep int
  | CReqPurge
  | CReqWebhook webhook_event

fun call_step :: "call_db \<Rightarrow> call_env \<times> call_req \<Rightarrow> call_db" where
  "call_step db (e, CReqCreate i us k) = snd (snd (Call_Create e db i us k))"
| "call_step db (e, CReqAnswer i r) = snd (snd (Call_Answer e db i r))"
| "call_step db (e, CReqDecline i r) = snd (snd (Call_Decline e db i r))"
| "call_step db (e, CReqSweep n) = snd (snd (SweepMissed e db n))"
| "call_step db (e, CReqPurge) = snd (PurgeHistory e db)"
| "call_step db (e, CReqWebhook ev) = snd (snd (Call_HandleWebhook e db ev))"

section \<open>How a ring evolves\<close>

definition evolves :: "ring_record \<Rightarrow> ring_record \<Rightarrow> bool" where
  "evolves a b \<longleftrightarrow>
     b = a\<lparr>rg_State := rg_State b, rg_AnsweredBy := rg_AnsweredBy b\<rparr> \<and>
     (rg_State a = StateRinging \<or>
      rg_AnsweredBy b = rg_AnsweredBy a \<and>
      (rg_State b = rg_State a \<or> \<not> Ring_Terminal (rg_State a) \<and> rg_State b = StateEnded))"

lemma evolves_refl [simp]: "evolves r r"
  by (simp add: evolves_def)

lemma evolves_trans: "evolves a b \<Longrightarrow> evolves b c \<Longrightarrow> evolves a c"
  unfolding evolves_def by (cases a, cases b, cases c) auto

definition store_ok :: "call_db \<Rightarrow> bool" where
  "store_ok db \<longleftrightarrow>
     (\<forall>k r d. cd_rings db k = Some (r, d) \<longrightarrow> rg_RingID r = k) \<and> tbl_wf fst (cd_ringing db)"

text \<open>Every ring still alive at \<open>t\<close> that is ringing is in the index the sweeper scans.\<close>

definition indexed :: "instant \<Rightarrow> call_db \<Rightarrow> bool" where
  "indexed t db \<longleftrightarrow>
     (\<forall>k r d. cd_rings db k = Some (r, d) \<and> rg_State r = StateRinging \<and> t < d \<longrightarrow>
        (k, Unix (rg_Deadline r)) \<in> set (cd_ringing db))"

text \<open>The write steps of the handlers at one instant.\<close>

inductive call_trans :: "instant \<Rightarrow> call_db \<Rightarrow> call_db \<Rightarrow> bool" for now where
  save: "cd_rings db (rg_RingID r) = Some (r0, d) \<Longrightarrow> evolves r0 r \<Longrightarrow> rg_State r \<noteq> StateRinging \<Longrightarrow>
    call_trans now db (Ring_Save now r ttl db)"
| unindex: "Ring_Get now db k = None \<Longrightarrow> call_trans now db (db\<lparr>cd_ringing := ZRem k (cd_ringing db)\<rparr>)"
| records: "call_trans now db (db\<lparr>cd_records := rows\<rparr>)"

abbreviation call_steps :: "instant \<Rightarrow> call_db \<Rightarrow> call_db \<Rightarrow> bool" where
  "call_steps now \<equiv> (call_trans now)\<^sup>*\<^sup>*"

lemma set_ZRem [simp]: "set (ZRem k z) = {x \<in> set z. fst x \<noteq> k}"
  by (simp add: ZRem_def)

lemma tbl_wf_ZRem: "tbl_wf fst z \<Longrightarrow> tbl_wf fst (ZRem k z)"
  by (simp add: ZRem_def tbl_wf_def distinct_map_filter)

lemma tbl_wf_ZAdd: "tbl_wf fst z \<Longrightarrow> tbl_wf fst (ZAdd k s z)"
  using tbl_wf_ZRem [of z k] by (auto simp: ZAdd_def tbl_wf_def)

lemma call_trans_ok:
  assumes "call_trans now db db'"
  shows "store_ok db \<Longrightarrow> store_ok db'" "t \<le> now \<Longrightarrow> store_ok db \<Longrightarrow> indexed t db \<Longrightarrow> indexed now db'"
    "cd_devices db' = cd_devices db"
  using assms
  by (induction rule: call_trans.induct)
    (auto simp: store_ok_def indexed_def Ring_Save_def Ring_Get_def vk_read_def tbl_wf_ZRem tbl_wf_ZAdd ZAdd_def
      evolves_def split: if_splits)

lemma call_trans_evolves:
  assumes "call_trans now db db'" "cd_rings db k = Some (r, d)"
  shows "\<exists>r' d'. cd_rings db' k = Some (r', d') \<and> evolves r r'"
  using assms by (induction rule: call_trans.induct) (auto simp: Ring_Save_def)

lemma call_steps_ok:
  assumes "call_steps now db db'"
  shows "store_ok db \<Longrightarrow> store_ok db'" "t \<le> now \<Longrightarrow> store_ok db \<Longrightarrow> indexed t db \<Longrightarrow> indexed now db'"
    "cd_rings db k = Some (r, d) \<Longrightarrow> \<exists>r' d'. cd_rings db' k = Some (r', d') \<and> evolves r r'"
proof -
  show ok: "store_ok db'" if "store_ok db"
    using assms that by (induction rule: rtranclp_induct) (auto dest: call_trans_ok)
  show "indexed now db'" if "t \<le> now" "store_ok db" "indexed t db"
  proof -
    have "indexed now db" using that(1,3) by (fastforce simp: indexed_def)
    with assms have "store_ok db' \<and> indexed now db'"
      using that(2) by (induction rule: rtranclp_induct) (auto dest: call_trans_ok)
    then show ?thesis ..
  qed
  show "\<exists>r' d'. cd_rings db' k = Some (r', d') \<and> evolves r r'" if "cd_rings db k = Some (r, d)"
    using assms that
  proof (induction rule: rtranclp_induct)
    case (step y z)
    then show ?case by (meson call_trans_evolves evolves_trans)
  qed auto
qed

section \<open>The handlers take such steps\<close>

lemma Ring_Get_Some:
  assumes "store_ok db" "Ring_Get now db k = Some r"
  shows "rg_RingID r = k \<and> (\<exists>d. cd_rings db (rg_RingID r) = Some (r, d))"
proof -
  from assms(2) obtain d where d: "cd_rings db k = Some (r, d)"
    by (auto simp: Ring_Get_def vk_read_def split: option.splits if_splits)
  with assms(1) have "rg_RingID r = k" by (auto simp: store_ok_def)
  with d show ?thesis by auto
qed

lemma GetByRoom_Some:
  assumes "store_ok db" "Ring_GetByRoom now db room = Some r"
  shows "\<exists>d. cd_rings db (rg_RingID r) = Some (r, d)"
  using assms Ring_Get_Some by (fastforce simp: Ring_GetByRoom_def split: option.splits)

lemma save_step:
  assumes "cd_rings db (rg_RingID r0) = Some (r0, d)" "evolves r0 r" "rg_State r \<noteq> StateRinging"
  shows "call_steps now db (Ring_Save now r ttl db)"
proof -
  have "rg_RingID r = rg_RingID r0" using assms(2) unfolding evolves_def by (metis ring_record.select_convs(1) ring_record.surjective ring_record.update_convs(7,10))
  with assms show ?thesis by (auto intro!: r_into_rtranclp call_trans.save)
qed

lemma record_step: "call_steps now db (recordOutcome e r oc db)"
  by (auto simp: recordOutcome_def intro: r_into_rtranclp call_trans.records)

lemma Next_evolves:
  "Next (rg_State r) ev = (s, True) \<Longrightarrow> evolves r (r\<lparr>rg_State := s\<rparr>) \<and> s \<noteq> StateRinging"
  by (cases "(rg_State r, ev)" rule: Next.cases) (auto simp: evolves_def)

lemma Next_Answer: "Next s EventAnswer = (s', True) \<longleftrightarrow> s = StateRinging \<and> s' = StateAnswered"
  by (cases s) auto

lemma loadRing_Inr: "loadRing e db k = Inr r \<Longrightarrow> Ring_Get (ce_now e) db k = Some r"
  by (auto simp: loadRing_def split: if_splits option.splits)

lemma Answer_steps:
  assumes "store_ok db"
  shows "call_steps (ce_now e) db (snd (snd (Call_Answer e db i k)))"
proof (cases "loadRing e db k")
  case (Inr r)
  then obtain d where r: "cd_rings db (rg_RingID r) = Some (r, d)"
    using Ring_Get_Some [OF assms] loadRing_Inr by blast
  have "rg_State r = StateRinging \<Longrightarrow> evolves r (r\<lparr>rg_State := StateAnswered, rg_AnsweredBy := DeviceID i\<rparr>)"
    by (simp add: evolves_def)
  then have "rg_State r = StateRinging \<Longrightarrow> call_steps (ce_now e) db
      (Ring_Save (ce_now e) (r\<lparr>rg_State := StateAnswered, rg_AnsweredBy := DeviceID i\<rparr>) CallMaxTTL db)"
    by (intro save_step [OF r]) simp_all
  with Inr show ?thesis
    by (auto simp: Call_Answer_def Let_def Next_Answer split: prod.split option.split)
qed (simp add: Call_Answer_def)

lemma Decline_steps:
  assumes "store_ok db"
  shows "call_steps (ce_now e) db (snd (snd (Call_Decline e db i k)))"
proof (cases "loadRing e db k")
  case (Inr r)
  then obtain d where r: "cd_rings db (rg_RingID r) = Some (r, d)"
    using Ring_Get_Some [OF assms] loadRing_Inr by blast
  have "call_steps (ce_now e) db (recordOutcome e r' oc (Ring_Save (ce_now e) (r\<lparr>rg_State := s\<rparr>) ttl db))"
    if "Next (rg_State r) EventDecline = (s, True)" for s r' oc ttl
    using Next_evolves [OF that] by (intro rtranclp_trans [OF save_step [OF r] record_step]) simp_all
  with Inr show ?thesis
    by (auto simp: Call_Decline_def Let_def split: prod.split)
qed (simp add: Call_Decline_def)

lemma Webhook_steps:
  assumes "store_ok db"
  shows "call_steps (ce_now e) db (snd (snd (Call_HandleWebhook e db ev)))"
proof (cases "Ring_GetByRoom (ce_now e) db (wh_Room ev)")
  case (Some r)
  then obtain d where r: "cd_rings db (rg_RingID r) = Some (r, d)"
    using GetByRoom_Some [OF assms] by blast
  have ended: "call_steps (ce_now e) db (recordOutcome e r' oc (Ring_Save (ce_now e) (r\<lparr>rg_State := StateEnded\<rparr>) ttl db))"
    if "\<not> Ring_Terminal (rg_State r)" for r' oc ttl
    using that by (intro rtranclp_trans [OF save_step [OF r] record_step]) (simp_all add: evolves_def)
  have joined: "call_steps (ce_now e) db (Ring_Save (ce_now e) (r\<lparr>rg_State := s\<rparr>) ttl db)"
    if "Next (rg_State r) EventAnswer = (s, True)" for s ttl
    using Next_evolves [OF that] by (intro save_step [OF r]) simp_all
  show ?thesis
    using Some ended joined record_step
    by (auto simp: Call_HandleWebhook_def Let_def split: prod.split)
qed (auto simp: Call_HandleWebhook_def)

definition due_rings :: "instant \<Rightarrow> string list \<Rightarrow> call_db \<Rightarrow> ring_record list" where
  "due_rings now ids db = filter (\<lambda>r. rg_State r = StateRinging) (List.map_filter (Ring_Get now db) ids)"

lemma Ring_Get_cong: "cd_rings db' = cd_rings db \<Longrightarrow> Ring_Get now db' = Ring_Get now db"
  by (simp add: Ring_Get_def fun_eq_iff)

lemma due_rings_cong: "cd_rings db' = cd_rings db \<Longrightarrow> due_rings now ids db' = due_rings now ids db"
  using Ring_Get_cong [of db' db now] by (simp add: due_rings_def)

lemma expired_loop_res:
  "expired_loop down now ids db = (res, db') \<Longrightarrow>
   cd_rings db' = cd_rings db \<and> cd_records db' = cd_records db \<and> call_steps now db db' \<and>
   (res = None \<or> res = Some (due_rings now ids db)) \<and> ((\<forall>c. \<not> down c) \<longrightarrow> res \<noteq> None)"
proof (induction ids arbitrary: db res db')
  case Nil
  then show ?case by (auto simp: due_rings_def List.map_filter_def)
next
  case (Cons k ids)
  show ?case
  proof (cases "down (CallGet k)")
    case True
    with Cons.prems show ?thesis by auto
  next
    case False
    show ?thesis
    proof (cases "Ring_Get now db k")
      case None
      let ?db = "if down (CallZRem k) then db else db\<lparr>cd_ringing := ZRem k (cd_ringing db)\<rparr>"
      have l: "expired_loop down now ids ?db = (res, db')" using Cons.prems False None by simp
      have "call_steps now db ?db"
        using call_trans.unindex [OF None] by (auto intro: r_into_rtranclp)
      moreover have "due_rings now ids ?db = due_rings now (k # ids) db"
        using None due_rings_cong [of ?db db now ids] by (simp add: due_rings_def List.map_filter_def)
      moreover have "cd_rings ?db = cd_rings db" "cd_records ?db = cd_records db" by simp_all
      ultimately show ?thesis using Cons.IH [OF l] rtranclp_trans by metis
    next
      case (Some r)
      obtain out db1 where l: "expired_loop down now ids db = (out, db1)"
        by (cases "expired_loop down now ids db")
      with Cons.prems False Some have "db' = db1"
        "res = (if rg_State r = StateRinging then map_option ((#) r) out else out)" by auto
      with Cons.IH [OF l] Some show ?thesis
        by (auto simp: due_rings_def List.map_filter_def)
    qed
  qed
qed

lemma Ring_Save_other: "k \<noteq> rg_RingID r \<Longrightarrow> cd_rings (Ring_Save now r ttl db) k = cd_rings db k"
  by (simp add: Ring_Save_def)

lemma recordOutcome_rings [simp]:
  "cd_rings (recordOutcome e r oc db) = cd_rings db" "cd_rooms (recordOutcome e r oc db) = cd_rooms db"
  "cd_ringing (recordOutcome e r oc db) = cd_ringing db"
  by (simp_all add: recordOutcome_def)

lemma sweep_loop_steps:
  "distinct (map rg_RingID rs) \<Longrightarrow> \<forall>r\<in>set rs. \<exists>d. cd_rings db (rg_RingID r) = Some (r, d) \<Longrightarrow>
   call_steps (ce_now e) db (snd (snd (sweep_loop e rs db)))"
proof (induction rs arbitrary: db)
  case (Cons r rs)
  obtain s ok where n: "Next (rg_State r) EventMiss = (s, ok)" by (cases "Next (rg_State r) EventMiss")
  show ?case
  proof (cases "ok \<and> \<not> ce_down e (CallSave (rg_RingID r))")
    case False
    with Cons n show ?thesis by (auto simp: Let_def)
  next
    case True
    let ?r = "r\<lparr>rg_State := s\<rparr>"
    let ?db = "recordOutcome e ?r OutcomeMissed (Ring_Save (ce_now e) ?r RingTTL db)"
    obtain d where d: "cd_rings db (rg_RingID r) = Some (r, d)" using Cons.prems(2) by auto
    have "call_steps (ce_now e) db ?db"
      using Next_evolves [of r EventMiss s] n True
      by (intro rtranclp_trans [OF save_step [OF d] record_step]) simp_all
    moreover have "\<forall>r\<in>set rs. \<exists>d. cd_rings ?db (rg_RingID r) = Some (r, d)"
    proof
      fix x assume x: "x \<in> set rs"
      then have "rg_RingID x \<noteq> rg_RingID ?r" using Cons.prems(1) by (auto simp: image_iff)
      with Cons.prems(2) x show "\<exists>d. cd_rings ?db (rg_RingID x) = Some (x, d)"
        by (simp add: Ring_Save_other)
    qed
    ultimately show ?thesis
      using Cons.IH [of ?db] Cons.prems(1) n True by (auto simp: Let_def split: prod.split)
  qed
qed simp

lemma due_rings_stored:
  assumes "store_ok db" "distinct ids"
  shows "distinct (map rg_RingID (due_rings now ids db))"
    "\<forall>r\<in>set (due_rings now ids db). \<exists>d. cd_rings db (rg_RingID r) = Some (r, d)"
proof -
  show "\<forall>r\<in>set (due_rings now ids db). \<exists>d. cd_rings db (rg_RingID r) = Some (r, d)"
  proof
    fix r assume "r \<in> set (due_rings now ids db)"
    then obtain k where "Ring_Get now db k = Some r" by (auto simp: due_rings_def List.map_filter_def)
    then show "\<exists>d. cd_rings db (rg_RingID r) = Some (r, d)" using Ring_Get_Some [OF assms(1)] by blast
  qed
  have "map rg_RingID (List.map_filter (Ring_Get now db) ids) = filter (\<lambda>k. Ring_Get now db k \<noteq> None) ids" for ids
    using Ring_Get_Some [OF assms(1)] by (induction ids) (auto simp: List.map_filter_def)
  then have "distinct (map rg_RingID (List.map_filter (Ring_Get now db) ids))"
    using assms(2) by simp
  then show "distinct (map rg_RingID (due_rings now ids db))"
    by (simp add: due_rings_def distinct_map_filter)
qed

lemma distinct_ZRange: "tbl_wf fst z \<Longrightarrow> distinct (ZRangeByScore stop n z)"
proof -
  assume "tbl_wf fst z"
  then have "distinct (map fst (filter (\<lambda>x. snd x \<le> stop) z))"
    by (simp add: tbl_wf_def distinct_map_filter)
  then have "distinct (map fst (sort_key (\<lambda>(m, s). (s, m)) (filter (\<lambda>x. snd x \<le> stop) z)))"
    unfolding distinct_map by (simp add: distinct_sort)
  then show ?thesis by (simp add: ZRangeByScore_def Let_def)
qed

lemma Sweep_steps:
  assumes "store_ok db"
  shows "call_steps (ce_now e) db (snd (snd (SweepMissed e db n)))"
proof -
  let ?ids = "ZRangeByScore (Unix (ce_now e)) n (cd_ringing db)"
  obtain res db1 where l: "expired_loop (ce_down e) (ce_now e) ?ids db = (res, db1)"
    by (cases "expired_loop (ce_down e) (ce_now e) ?ids db")
  note x = expired_loop_res [OF l]
  have "distinct ?ids" using assms by (simp add: store_ok_def distinct_ZRange)
  note due = due_rings_stored [OF assms this, of "ce_now e"]
  have "call_steps (ce_now e) db1 (snd (snd (sweep_loop e (due_rings (ce_now e) ?ids db) db1)))"
    using due x by (intro sweep_loop_steps) auto
  with x l show ?thesis
    by (auto simp: SweepMissed_def ExpiredRinging_def split: prod.split option.split intro: rtranclp_trans)
qed

lemma call_step_steps:
  assumes "store_ok db" "\<And>i us k. x \<noteq> CReqCreate i us k"
  shows "call_steps (ce_now e) db (call_step db (e, x))"
  using assms Answer_steps Decline_steps Webhook_steps Sweep_steps call_trans.records
  by (cases x) (auto simp: PurgeHistory_def split: prod.split intro: r_into_rtranclp)

lemma Create_db:
  "snd (snd (Call_Create e db i us k)) = db \<or>
   (\<exists>r. snd (snd (Call_Create e db i us k)) = Ring_Save (ce_now e) r RingTTL db
      \<and> rg_RingID r = ce_newRing e \<and> rg_State r = StateRinging)"
  by (auto simp: Call_Create_def Let_def split: option.split)

text \<open>Whether a request creates the ring with this id.\<close>

fun creates :: "call_env \<times> call_req \<Rightarrow> string \<Rightarrow> bool" where
  "creates (e, CReqCreate i us k) ringID = (ce_newRing e = ringID)"
| "creates _ ringID = False"

lemma save_new_ok:
  "store_ok db \<Longrightarrow> store_ok (Ring_Save now r ttl db)"
  "indexed t db \<Longrightarrow> t \<le> now \<Longrightarrow> rg_State r = StateRinging \<Longrightarrow> indexed now (Ring_Save now r ttl db)"
proof -
  show "store_ok db \<Longrightarrow> store_ok (Ring_Save now r ttl db)"
    by (auto simp: store_ok_def Ring_Save_def tbl_wf_ZAdd tbl_wf_ZRem)
  show "indexed now (Ring_Save now r ttl db)" if "indexed t db" "t \<le> now" "rg_State r = StateRinging"
    using that by (auto simp: indexed_def Ring_Save_def ZAdd_def)
qed

text \<open>A request either opens a new ring or takes write steps on the stored ones.\<close>

lemma call_step_cases:
  assumes "store_ok db"
  shows "call_steps (ce_now (fst x)) db (call_step db x) \<or>
    (\<exists>r. call_step db x = Ring_Save (ce_now (fst x)) r RingTTL db \<and> creates x (rg_RingID r)
       \<and> rg_State r = StateRinging)"
proof -
  obtain e q where x: "x = (e, q)" by (cases x)
  show ?thesis
  proof (cases "\<exists>i us k. q = CReqCreate i us k")
    case True
    then obtain i us k where "q = CReqCreate i us k" by blast
    with Create_db [of e db i us k] x show ?thesis by auto
  next
    case False
    then have "call_steps (ce_now e) db (call_step db (e, q))" by (intro call_step_steps [OF assms]) blast
    with x show ?thesis by simp
  qed
qed

lemma call_step_ok:
  assumes "store_ok db"
  shows "store_ok (call_step db x)" "t \<le> ce_now (fst x) \<Longrightarrow> indexed t db \<Longrightarrow> indexed (ce_now (fst x)) (call_step db x)"
    "\<not> creates x k \<Longrightarrow> cd_rings db k = Some (r, d) \<Longrightarrow>
      \<exists>r' d'. cd_rings (call_step db x) k = Some (r', d') \<and> evolves r r'"
proof -
  show "store_ok (call_step db x)"
    using call_step_cases [OF assms, of x] call_steps_ok(1) [OF _ assms] save_new_ok(1) [OF assms] by auto
  show "indexed (ce_now (fst x)) (call_step db x)" if "t \<le> ce_now (fst x)" "indexed t db"
    using call_step_cases [OF assms, of x] call_steps_ok(2) [OF _ that(1) assms that(2)] save_new_ok(2) [OF that(2,1)]
    by auto
  show "\<exists>r' d'. cd_rings (call_step db x) k = Some (r', d') \<and> evolves r r'"
    if new: "\<not> creates x k" and k: "cd_rings db k = Some (r, d)"
    using call_step_cases [OF assms, of x]
  proof
    assume "call_steps (ce_now (fst x)) db (call_step db x)"
    then show ?thesis using call_steps_ok(3) k by blast
  next
    assume "\<exists>r. call_step db x = Ring_Save (ce_now (fst x)) r RingTTL db \<and> creates x (rg_RingID r)
       \<and> rg_State r = StateRinging"
    then obtain r0 where "call_step db x = Ring_Save (ce_now (fst x)) r0 RingTTL db" "rg_RingID r0 \<noteq> k"
      using new by auto
    with k show ?thesis by (auto simp: Ring_Save_other)
  qed
qed

interpretation call_store: invariant_system call_step store_ok
  by unfold_locales (rule call_step_ok(1))

lemma store_ok_empty [simp]: "store_ok empty_call_db" "indexed t empty_call_db"
  by (simp_all add: store_ok_def indexed_def empty_call_db_def)

lemma run_evolves:
  assumes "store_ok db" "\<forall>x\<in>set xs. \<not> creates x k" "cd_rings db k = Some (r, d)"
  shows "\<exists>r' d'. cd_rings (run call_step db xs) k = Some (r', d') \<and> evolves r r'"
  using assms
proof (induction xs arbitrary: db r d)
  case (Cons x xs)
  then obtain r1 d1 where "cd_rings (call_step db x) k = Some (r1, d1)" "evolves r r1"
    using call_step_ok(3) [OF Cons.prems(1)] by (meson list.set_intros(1))
  with Cons.IH [of "call_step db x" r1 d1] Cons.prems call_step_ok(1) show ?case
    by (auto intro: evolves_trans)
qed auto

lemma run_indexed:
  assumes "store_ok db" "indexed t db" "sorted (t # map (ce_now \<circ> fst) xs)"
  shows "indexed (last (t # map (ce_now \<circ> fst) xs)) (run call_step db xs)"
  using assms
proof (induction xs arbitrary: db t)
  case (Cons x xs)
  then have "indexed (ce_now (fst x)) (call_step db x)" by (intro call_step_ok(2)) simp_all
  with Cons.IH [OF call_step_ok(1) [OF Cons.prems(1)], of "ce_now (fst x)" x] Cons.prems show ?case by simp
qed simp

end
