(* ===== verification/CallProps.thy ===== *)
theory CallProps
  imports CallService
begin

text \<open>
  The properties of calls: the life of a ring over any sequence of requests, the missed-call sweep,
  history paging, and the authentication of webhooks.
\<close>

section \<open>The sweep\<close>

lemma upsert_has: "\<exists>c\<in>set (History_Upsert r rows). ca_ID c = ca_ID r \<and> ca_Outcome c = ca_Outcome r"
proof (cases "ca_ID r \<in> ca_ID ` set rows")
  case True
  then obtain c where "c \<in> set rows" "ca_ID c = ca_ID r" by auto
  with True show ?thesis
    by (auto simp: History_Upsert_def set_tbl_upd
        intro!: bexI [of _ "c\<lparr>ca_EndedAt := ca_EndedAt r, ca_Outcome := ca_Outcome r\<rparr>"] image_eqI [of _ _ c])
qed (simp add: History_Upsert_def)

lemma upsert_keeps: "c \<in> set rows \<Longrightarrow> ca_ID c \<noteq> ca_ID r \<Longrightarrow> c \<in> set (History_Upsert r rows)"
  by (force simp: History_Upsert_def set_tbl_upd)

lemma record_has:
  "\<not> ce_down e (CallUpsert (rg_RingID r)) \<Longrightarrow>
   \<exists>c\<in>set (cd_records (recordOutcome e r oc db)). ca_ID c = rg_RingID r \<and> ca_Outcome c = oc"
  using upsert_has [of "\<lparr>ca_ID = rg_RingID r, ca_RoomID = rg_RoomID r, ca_Kind = rg_Kind r, ca_Initiator = rg_CallerID r,
         ca_Participants = rg_CallerID r # rg_CalleeIDs r, ca_StartedAt = Some (rg_StartedAt r),
         ca_EndedAt = Some (ce_now e), ca_Outcome = oc\<rparr>" "cd_records db"]
  by (simp add: recordOutcome_def)

lemma record_keeps:
  "c \<in> set (cd_records db) \<Longrightarrow> ca_ID c \<noteq> rg_RingID r \<Longrightarrow> c \<in> set (cd_records (recordOutcome e r oc db))"
  using upsert_keeps by (simp add: recordOutcome_def)

lemma Ring_Save_records [simp]: "cd_records (Ring_Save now r ttl db) = cd_records db"
  by (simp add: Ring_Save_def)

lemma Ring_Save_same: "cd_rings (Ring_Save now r ttl db) (rg_RingID r) = Some (r, now + ttl)"
  by (simp add: Ring_Save_def)

lemma sweep_loop_db:
  "snd (snd (sweep_loop e (r # rs) db)) =
     (if snd (Next (rg_State r) EventMiss) \<and> \<not> ce_down e (CallSave (rg_RingID r))
      then snd (snd (sweep_loop e rs (recordOutcome e (r\<lparr>rg_State := fst (Next (rg_State r) EventMiss)\<rparr>) OutcomeMissed
        (Ring_Save (ce_now e) (r\<lparr>rg_State := fst (Next (rg_State r) EventMiss)\<rparr>) RingTTL db))))
      else snd (snd (sweep_loop e rs db)))"
  by (simp add: Let_def split: prod.split)

lemma sweep_loop_keeps:
  "k \<notin> rg_RingID ` set rs \<Longrightarrow> cd_rings (snd (snd (sweep_loop e rs db))) k = cd_rings db k"
  "k \<notin> rg_RingID ` set rs \<Longrightarrow> c \<in> set (cd_records db) \<Longrightarrow> ca_ID c = k \<Longrightarrow>
    c \<in> set (cd_records (snd (snd (sweep_loop e rs db))))"
proof (induction rs arbitrary: db)
  case (Cons r rs)
  {
    case 1
    with Cons.IH(1) show ?case by (simp add: sweep_loop_db Ring_Save_other del: sweep_loop.simps)
  next
    case 2
    with Cons.IH(2) record_keeps show ?case
      by (simp add: sweep_loop_db del: sweep_loop.simps)
  }
qed auto

lemma sweep_loop_missed:
  assumes "\<And>c. \<not> ce_down e c" "distinct (map rg_RingID rs)" "r \<in> set rs" "rg_State r = StateRinging"
  shows "cd_rings (snd (snd (sweep_loop e rs db))) (rg_RingID r)
      = Some (r\<lparr>rg_State := StateMissed\<rparr>, ce_now e + RingTTL)
    \<and> (\<exists>c\<in>set (cd_records (snd (snd (sweep_loop e rs db)))). ca_ID c = rg_RingID r \<and> ca_Outcome c = OutcomeMissed)"
  using assms(2,3)
proof (induction rs arbitrary: db)
  case (Cons x rs)
  show ?case
  proof (cases "x = r")
    case True
    let ?r = "r\<lparr>rg_State := StateMissed\<rparr>"
    let ?db = "recordOutcome e ?r OutcomeMissed (Ring_Save (ce_now e) ?r RingTTL db)"
    have fresh: "rg_RingID r \<notin> rg_RingID ` set rs" using Cons.prems(1) True by simp
    have loop: "snd (snd (sweep_loop e (x # rs) db)) = snd (snd (sweep_loop e rs ?db))"
      using True assms by (simp add: sweep_loop_db del: sweep_loop.simps)
    have "cd_rings ?db (rg_RingID r) = Some (?r, ce_now e + RingTTL)"
      using Ring_Save_same [of _ ?r] by simp
    moreover obtain c where "c \<in> set (cd_records ?db)" "ca_ID c = rg_RingID r" "ca_Outcome c = OutcomeMissed"
      using record_has [of e ?r OutcomeMissed "Ring_Save (ce_now e) ?r RingTTL db"] assms(1) by auto
    ultimately show ?thesis
      using loop sweep_loop_keeps(1) [OF fresh, of e ?db] sweep_loop_keeps(2) [OF fresh, of c ?db e] by auto
  next
    case False
    with Cons.prems Cons.IH show ?thesis by (auto simp: sweep_loop_db simp del: sweep_loop.simps)
  qed
qed simp

lemma ZRange_mem:
  assumes "(k, s) \<in> set z" "s \<le> stop" "n \<le> 0 \<or> length z \<le> nat n"
  shows "k \<in> set (ZRangeByScore stop n z)"
proof -
  have "length (filter (\<lambda>x. snd x \<le> stop) z) \<le> nat n" if "\<not> n \<le> 0"
    using assms(3) that length_filter_le [of "\<lambda>x. snd x \<le> stop" z] by linarith
  then have "ZRangeByScore stop n z = map fst (sort_key (\<lambda>(m, s). (s, m)) (filter (\<lambda>x. snd x \<le> stop) z))"
    by (simp add: ZRangeByScore_def Let_def)
  with assms show ?thesis by (force simp: image_iff)
qed

lemma Sweep_missed:
  assumes "store_ok db" "indexed (ce_now e) db" "\<And>c. \<not> ce_down e c"
    "n \<le> 0 \<or> length (cd_ringing db) \<le> nat n"
    "Ring_Get (ce_now e) db k = Some r" "rg_State r = StateRinging" "Unix (rg_Deadline r) \<le> Unix (ce_now e)"
  shows "Ring_Get (ce_now e) (snd (snd (SweepMissed e db n))) k = Some (r\<lparr>rg_State := StateMissed\<rparr>)
    \<and> (\<exists>c\<in>set (cd_records (snd (snd (SweepMissed e db n)))). ca_ID c = k \<and> ca_Outcome c = OutcomeMissed)"
proof -
  let ?ids = "ZRangeByScore (Unix (ce_now e)) n (cd_ringing db)"
  have k: "rg_RingID r = k" using Ring_Get_Some [OF assms(1,5)] by blast
  obtain d where d: "cd_rings db k = Some (r, d)" "ce_now e < d"
    using assms(5) by (auto simp: Ring_Get_def vk_read_def split: option.splits if_splits)
  then have "(k, Unix (rg_Deadline r)) \<in> set (cd_ringing db)"
    using assms(2,6) by (auto simp: indexed_def)
  then have "k \<in> set ?ids" using assms(4,7) by (intro ZRange_mem)
  then have r: "r \<in> set (due_rings (ce_now e) ?ids db)"
    using assms(5,6) by (force simp: due_rings_def List.map_filter_def)
  obtain res db1 where l: "expired_loop (ce_down e) (ce_now e) ?ids db = (res, db1)"
    by (cases "expired_loop (ce_down e) (ce_now e) ?ids db")
  with expired_loop_res [OF l] assms(3) have
    "snd (snd (SweepMissed e db n)) = snd (snd (sweep_loop e (due_rings (ce_now e) ?ids db) db1))"
    by (auto simp: SweepMissed_def ExpiredRinging_def split: prod.split)
  moreover have "distinct ?ids" using assms(1) by (simp add: store_ok_def distinct_ZRange)
  ultimately show ?thesis
    using sweep_loop_missed [OF assms(3) due_rings_stored(1) [OF assms(1)] r assms(6)] k
    by (simp add: Ring_Get_def vk_read_def RingTTL_def time_units)
qed

section \<open>Example data\<close>

definition ex_caller :: identity where
  "ex_caller = \<lparr>UserID = ''ann'', DeviceID = ''a1'', SessionID = ''s''\<rparr>"

definition ex_callee :: identity where
  "ex_callee = \<lparr>UserID = ''ben'', DeviceID = ''b1'', SessionID = ''s''\<rparr>"

definition ex_env :: "instant \<Rightarrow> call_env" where
  "ex_env t = \<lparr>ce_now = t, ce_newRoom = ''1'', ce_newRing = ''k1'', ce_mint = (\<lambda>_ _ _. Some ''tok''),
     ce_down = (\<lambda>_. False)\<rparr>"

definition ex_ring :: ring_record where
  "ex_ring = \<lparr>rg_RingID = ''k1'', rg_RoomID = ''call-1'', rg_Kind = KindVoice, rg_CallerID = ''ann'',
     rg_CallerDeviceID = ''a1'', rg_CalleeIDs = [''ben''], rg_State = StateRinging, rg_StartedAt = 0,
     rg_Deadline = MissedAfter, rg_AnsweredBy = []\<rparr>"

abbreviation ex_ring_reqs :: "(call_env \<times> call_req) list" where
  "ex_ring_reqs \<equiv> [(ex_env 0, CReqCreate ex_caller [''ben''] KindVoice)]"

lemma ex_ring_stored: "run call_step empty_call_db ex_ring_reqs = Ring_Save 0 ex_ring RingTTL empty_call_db"
  by (simp add: Call_Create_def ValidateCreate_def Kind_Valid_def KindVoice_def MaxCallees_def ex_env_def
      ex_ring_def ex_caller_def dedupExcept_def Let_def)

lemma ex_ring_get: "t < RingTTL \<Longrightarrow> Ring_Get t (Ring_Save 0 ex_ring RingTTL empty_call_db) ''k1'' = Some ex_ring"
  "t < RingTTL \<Longrightarrow> Ring_GetByRoom t (Ring_Save 0 ex_ring RingTTL empty_call_db) ''call-1'' = Some ex_ring"
  by (simp_all add: Ring_Get_def Ring_GetByRoom_def Ring_Save_def vk_read_def ex_ring_def)

section \<open>Properties\<close>





text \<open>
Unanswered calls become missed: over any requests with a non-decreasing clock, a healthy sweep that is not
cut short by its limit turns every live ring whose deadline second has come from ringing to missed, and the
history then shows the call as missed.
\<close>

theorem sweep_marks_missed:
  assumes "db = run call_step empty_call_db reqs" "sorted (map (ce_now \<circ> fst) reqs @ [ce_now e])"
    "\<forall>c. \<not> ce_down e c" "n \<le> 0 \<or> length (cd_ringing db) \<le> nat n"
    "Ring_Get (ce_now e) db k = Some r" "rg_State r = StateRinging" "Unix (rg_Deadline r) \<le> Unix (ce_now e)"
  shows "Ring_Get (ce_now e) (snd (snd (SweepMissed e db n))) k = Some (r\<lparr>rg_State := StateMissed\<rparr>)
    \<and> (\<exists>c\<in>set (cd_records (snd (snd (SweepMissed e db n)))). ca_ID c = k \<and> ca_Outcome c = OutcomeMissed)"
proof -
  have "store_ok db" unfolding assms(1) by (rule call_store.keep_run) simp
  moreover have "indexed (ce_now e) db"
  proof (cases reqs)
    case Nil
    with assms(1) show ?thesis by simp
  next
    case (Cons x xs)
    let ?t = "ce_now (fst x)"
    have "indexed (last (?t # map (ce_now \<circ> fst) reqs)) db"
      unfolding assms(1) using assms(2) Cons by (intro run_indexed) (auto simp: sorted_append)
    moreover have "last (?t # map (ce_now \<circ> fst) reqs) \<le> ce_now e"
      using assms(2) Cons by (auto simp: sorted_append last_map)
    ultimately show ?thesis by (fastforce simp: indexed_def)
  qed
  ultimately show ?thesis using assms(3-7) by (intro Sweep_missed) auto
qed

theorem sweep_marks_missed_witness:
  "Ring_Get MissedAfter (snd (snd (SweepMissed (ex_env MissedAfter) (run call_step empty_call_db ex_ring_reqs) 200))) ''k1''
   = Some (ex_ring\<lparr>rg_State := StateMissed\<rparr>)"
proof -
  have "Ring_Get MissedAfter (run call_step empty_call_db ex_ring_reqs) ''k1'' = Some ex_ring"
    unfolding ex_ring_stored by (rule ex_ring_get) (simp add: MissedAfter_def RingTTL_def time_units)
  moreover have "length (cd_ringing (run call_step empty_call_db ex_ring_reqs)) \<le> 200"
    unfolding ex_ring_stored by (simp add: Ring_Save_def empty_call_db_def ZAdd_def ZRem_def)
  ultimately show ?thesis
    using sweep_marks_missed [of "run call_step empty_call_db ex_ring_reqs" ex_ring_reqs "ex_env MissedAfter" 200 "''k1''" ex_ring]
    by (simp add: ex_env_def MissedAfter_def time_units ex_ring_def del: run.simps)
qed

text \<open>
Whoever joins the media room first closes the ring: a join webhook for a ringing call, of the caller too,
marks it answered with no answering device, and every callee's answer is then refused.
\<close>

theorem join_webhook_closes_ring:
  assumes "wh_Event ev = ''participant_joined''" "store_ok db"
    "Ring_GetByRoom (ce_now e) db (wh_Room ev) = Some r" "rg_State r = StateRinging" "rg_AnsweredBy r = []"
    "\<forall>c. \<not> ce_down e c" "UserID i \<in> set (rg_CalleeIDs r)" "DeviceID i \<noteq> []"
  shows "fst (Call_Answer e (snd (snd (Call_HandleWebhook e db ev))) i (rg_RingID r))
    = Inl (Reject 409 ''STATE_RING_CLOSED'')"
proof -
  have "snd (snd (Call_HandleWebhook e db ev)) = Ring_Save (ce_now e) (r\<lparr>rg_State := StateAnswered\<rparr>) CallMaxTTL db"
    using assms by (simp add: Call_HandleWebhook_def)
  moreover have "Ring_Get (ce_now e) (Ring_Save (ce_now e) (r\<lparr>rg_State := StateAnswered\<rparr>) CallMaxTTL db) (rg_RingID r)
      = Some (r\<lparr>rg_State := StateAnswered\<rparr>)"
    by (simp add: Ring_Get_def Ring_Save_def vk_read_def CallMaxTTL_def time_units)
  ultimately show ?thesis
    using assms by (simp add: Call_Answer_def loadRing_def)
qed

theorem join_webhook_closes_ring_witness:
  "fst (Call_Answer (ex_env 1) (snd (snd (Call_HandleWebhook (ex_env 1) (run call_step empty_call_db ex_ring_reqs)
      \<lparr>wh_Event = ''participant_joined'', wh_Room = ''call-1'', wh_Identity = ''ann:a1'', wh_ID = ''w''\<rparr>))) ex_callee ''k1'')
   = Inl (Reject 409 ''STATE_RING_CLOSED'')"
proof -
  let ?ev = "\<lparr>wh_Event = ''participant_joined'', wh_Room = ''call-1'', wh_Identity = ''ann:a1'', wh_ID = ''w''\<rparr>"
  have "store_ok (run call_step empty_call_db ex_ring_reqs)" by (rule call_store.keep_run) simp
  moreover have "Ring_GetByRoom 1 (run call_step empty_call_db ex_ring_reqs) ''call-1'' = Some ex_ring"
    unfolding ex_ring_stored by (rule ex_ring_get) (simp add: RingTTL_def time_units)
  ultimately show ?thesis
    using join_webhook_closes_ring [of ?ev "run call_step empty_call_db ex_ring_reqs" "ex_env 1" ex_ring ex_callee]
    by (simp add: ex_env_def ex_callee_def ex_ring_def del: run.simps)
qed

text \<open>
A declined call is rewritten as failed: after a callee has declined, the room-finished webhook of the same
room replaces the declined outcome in the history by failed.
\<close>

theorem finished_overwrites_declined:
  assumes "Ring_GetByRoom (ce_now e) db (wh_Room ev) = Some r" "rg_State r = StateDeclined" "rg_AnsweredBy r = []"
    "wh_Event ev = ''room_finished''" "\<forall>c. \<not> ce_down e c" "tbl_wf ca_ID (cd_records db)"
    "c \<in> set (cd_records db)" "ca_ID c = rg_RingID r" "ca_Outcome c = OutcomeDeclined"
  shows "\<exists>c'. filter (\<lambda>x. ca_ID x = rg_RingID r) (cd_records (snd (snd (Call_HandleWebhook e db ev)))) = [c']
    \<and> ca_Outcome c' = OutcomeFailed"
proof -
  let ?c = "c\<lparr>ca_EndedAt := Some (ce_now e), ca_Outcome := OutcomeFailed\<rparr>"
  have one: "filter (\<lambda>x. ca_ID x = rg_RingID r) rows = [c] \<Longrightarrow>
      filter (\<lambda>x. ca_ID x = rg_RingID r) (tbl_upd ca_ID (rg_RingID r)
        (\<lambda>x. x\<lparr>ca_EndedAt := Some (ce_now e), ca_Outcome := OutcomeFailed\<rparr>) rows) = [?c]" for rows
    by (induction rows) (auto simp: tbl_upd_def filter_empty_conv split: if_splits)
  have "filter (\<lambda>x. ca_ID x = rg_RingID r) (cd_records db) = [c]"
    using filter_key_wf [OF assms(6,7)] assms(8) by simp
  from one [OF this] show ?thesis
    using assms by (auto simp: Call_HandleWebhook_def recordOutcome_def History_Upsert_def rg_answered_def Let_def
        intro: rev_image_eqI)
qed

definition ex_declined_db :: call_db where
  "ex_declined_db = (Ring_Save 1 (ex_ring\<lparr>rg_State := StateDeclined\<rparr>) RingTTL empty_call_db)
     \<lparr>cd_records := [\<lparr>ca_ID = ''k1'', ca_RoomID = ''call-1'', ca_Kind = 0, ca_Initiator = ''ann'',
        ca_Participants = [''ann'', ''ben''], ca_StartedAt = Some 0, ca_EndedAt = Some 1, ca_Outcome = OutcomeDeclined\<rparr>]\<rparr>"

theorem finished_overwrites_declined_witness:
  "\<exists>c'. filter (\<lambda>x. ca_ID x = ''k1'') (cd_records (snd (snd (Call_HandleWebhook (ex_env 2) ex_declined_db
      \<lparr>wh_Event = ''room_finished'', wh_Room = ''call-1'', wh_Identity = [], wh_ID = ''w''\<rparr>)))) = [c']
    \<and> ca_Outcome c' = OutcomeFailed"
proof -
  let ?ev = "\<lparr>wh_Event = ''room_finished'', wh_Room = ''call-1'', wh_Identity = [], wh_ID = ''w''\<rparr>"
  have "Ring_GetByRoom 2 ex_declined_db ''call-1'' = Some (ex_ring\<lparr>rg_State := StateDeclined\<rparr>)"
    by (simp add: ex_declined_db_def Ring_GetByRoom_def Ring_Get_def Ring_Save_def vk_read_def ex_ring_def RingTTL_def
        time_units)
  then show ?thesis
    using finished_overwrites_declined [of "ex_env 2" ex_declined_db ?ev "ex_ring\<lparr>rg_State := StateDeclined\<rparr>" "hd (cd_records ex_declined_db)"]
    by (simp add: ex_env_def ex_declined_db_def ex_ring_def tbl_wf_def)
qed

text \<open>
History pages leave a gap: whenever a page announces a next cursor, the record with that id is a call of
the user that appears neither on this page nor on the page fetched with the cursor.
\<close>

theorem history_page_gap:
  assumes "tbl_wf ca_ID rows" "History_List rows uid cursor limit = (page, nxt)" "nxt \<noteq> []"
    "History_List rows uid nxt limit' = (page', nxt')"
  shows "(\<exists>c\<in>set rows. ca_ID c = nxt \<and> uid \<in> set (ca_Participants c))
    \<and> nxt \<notin> ca_ID ` set page \<and> nxt \<notin> ca_ID ` set page'"
proof -
  let ?mine = "filter (\<lambda>r. uid \<in> set (ca_Participants r) \<and> (cursor = [] \<or> ca_ID r < cursor)) rows"
  let ?s = "rev (sort_key ca_ID ?mine)"
  let ?k = "\<lambda>r. r\<lparr>ca_Kind := kindFromDB (ca_Kind r)\<rparr>"
  have long: "length ?s > limit" "nxt = ca_ID (?s ! limit)" "page = map ?k (take limit ?s)"
    using assms(2,3) by (auto simp: History_List_def Let_def take_map min_def split: if_splits)
  have "distinct (map ca_ID ?mine)" using assms(1) by (simp add: tbl_wf_def distinct_map_filter)
  then have "distinct (map ca_ID (sort_key ca_ID ?mine))" unfolding distinct_map by (simp add: distinct_sort)
  then have d: "distinct (map ca_ID ?s)" by (simp add: rev_map [symmetric])
  have "?s ! limit \<in> set ?mine" using long(1) nth_mem [of limit ?s] by simp
  moreover have "nxt \<notin> ca_ID ` set page"
  proof
    assume "nxt \<in> ca_ID ` set page"
    then obtain j where "j < limit" "map ca_ID ?s ! j = map ca_ID ?s ! limit"
      using long by (auto simp: in_set_conv_nth)
    with d long(1) show False by (simp add: distinct_conv_nth del: map_nth)
  qed
  moreover have "\<forall>r\<in>set page'. ca_ID r < nxt"
    using assms(3,4) by (auto simp: History_List_def Let_def split: if_splits dest!: in_set_takeD)
  ultimately show ?thesis using long(2) by auto
qed

definition ex_call :: "string \<Rightarrow> call_record" where
  "ex_call k = \<lparr>ca_ID = k, ca_RoomID = ''call-1'', ca_Kind = 0, ca_Initiator = ''ann'',
     ca_Participants = [''ann''], ca_StartedAt = Some 0, ca_EndedAt = Some 1, ca_Outcome = OutcomeCompleted\<rparr>"

theorem history_page_gap_witness:
  "let rows = [ex_call ''a'', ex_call ''b'', ex_call ''c'', ex_call ''d''];
       (page, nxt) = History_List rows ''ann'' [] 1; (page', nxt') = History_List rows ''ann'' nxt 1
   in nxt = ''c'' \<and> nxt \<notin> ca_ID ` set page \<and> nxt \<notin> ca_ID ` set page'"
proof -
  let ?rows = "[ex_call ''a'', ex_call ''b'', ex_call ''c'', ex_call ''d'']"
  have wf: "tbl_wf ca_ID ?rows" by (simp add: tbl_wf_def ex_call_def)
  have n: "snd (History_List ?rows ''ann'' [] 1) = ''c''" by code_simp
  obtain page where p: "History_List ?rows ''ann'' [] 1 = (page, ''c'')" using n by (metis prod.collapse)
  obtain page' nxt' where p': "History_List ?rows ''ann'' ''c'' 1 = (page', nxt')" by (cases "History_List ?rows ''ann'' ''c'' 1")
  from history_page_gap [OF wf p _ p'] p p' show ?thesis by simp
qed

lemma verify_signed:
  assumes "unmarshalClaims payload = Some c" "wc_Iss c = apiKey" "wc_Exp c = 0 \<or> now \<le> wc_Exp c * Second"
  shows "verifyJWT hmac unmarshalClaims apiKey secret now (jwt_sign hmac secret payload) = Inr c"
proof -
  let ?a = "RawURL_Encode jwt_header" let ?b = "RawURL_Encode payload"
  have "Split_char (CHR ''.'') (jwt_sign hmac secret payload) = [?a, ?b, RawURL_Encode (hmac secret (?a @ ''.'' @ ?b))]"
    using Split_jwt [of jwt_header payload] by (simp add: jwt_sign_def Let_def)
  with assms show ?thesis by (auto simp: verifyJWT_def Let_def RawURL_roundtrip)
qed

lemma header_token: "TrimSpace (TrimPrefix (''Bearer '' @ jwt_sign hmac secret payload) ''Bearer '') = jwt_sign hmac secret payload"
proof -
  have "plain (jwt_sign hmac secret payload)"
    using plain_RawURL by (simp add: jwt_sign_def Let_def) (simp add: plain_def)
  then show ?thesis by (simp add: TrimPrefix_def TrimSpace_plain)
qed

text \<open>
Webhook authentication is complete: a token signed as the server signs its own, with claims that name the
API key, are not expired and carry the body's hash, is accepted and gives the decoded event.
\<close>

theorem signed_webhook_accepted:
  assumes "unmarshalClaims payload = Some c" "wc_Iss c = apiKey" "wc_Exp c = 0 \<or> now \<le> wc_Exp c * Second"
    "wc_SHA256 c = Std_Encode (sha256 body)" "unmarshalEvent body = Some ev"
  shows "Webhook_Verify hmac sha256 unmarshalClaims unmarshalEvent apiKey secret now
    (''Bearer '' @ jwt_sign hmac secret payload) body = Inr ev"
proof -
  have "verifyJWT hmac unmarshalClaims apiKey secret now (jwt_sign hmac secret payload) = Inr c"
    using assms(1-3) by (rule verify_signed)
  with assms(4,5) show ?thesis unfolding Webhook_Verify_def header_token by simp
qed

definition ex_claims :: "string \<Rightarrow> webhook_claims option" where
  "ex_claims raw = Some \<lparr>wc_Iss = ''key'', wc_Exp = 0, wc_SHA256 = raw\<rparr>"

definition ex_event :: "string \<Rightarrow> webhook_event option" where
  "ex_event body = Some \<lparr>wh_Event = body, wh_Room = ''call-1'', wh_Identity = [], wh_ID = ''w''\<rparr>"

theorem signed_webhook_accepted_witness:
  "Webhook_Verify (\<lambda>k m. k @ m) rev ex_claims ex_event ''key'' ''sec'' 5
     (''Bearer '' @ jwt_sign (\<lambda>k m. k @ m) ''sec'' (Std_Encode (rev ''hi''))) ''hi'' = Inr (the (ex_event ''hi''))"
  using signed_webhook_accepted [of ex_claims "Std_Encode (rev ''hi'')" _ "''key''" 5 rev "''hi''" ex_event]
  by (simp add: ex_claims_def ex_event_def)

text \<open>
Webhook authentication is sound: an event is accepted only from a header holding a three-part token whose
last part is the signature of the first two under the API secret and whose signed claims name the API key, are
not expired, and carry the hash of the raw body.
\<close>

theorem webhook_auth_sound:
  assumes "Webhook_Verify hmac sha256 unmarshalClaims unmarshalEvent apiKey secret now hdr body = Inr ev"
  shows "\<exists>h p raw c. TrimSpace (TrimPrefix hdr ''Bearer '') = h @ ''.'' @ p @ ''.'' @ RawURL_Encode (hmac secret (h @ ''.'' @ p))
    \<and> RawURL_Decode p = Some raw \<and> unmarshalClaims raw = Some c \<and> wc_Iss c = apiKey
    \<and> (wc_Exp c = 0 \<or> now \<le> wc_Exp c * Second) \<and> wc_SHA256 c = Std_Encode (sha256 body)
    \<and> unmarshalEvent body = Some ev"
proof -
  let ?t = "TrimSpace (TrimPrefix hdr ''Bearer '')"
  let ?parts = "Split_char (CHR ''.'') ?t"
  from assms obtain c where v: "verifyJWT hmac unmarshalClaims apiKey secret now ?t = Inr c"
    and c: "wc_SHA256 c = Std_Encode (sha256 body)" "unmarshalEvent body = Some ev"
    by (auto simp: Webhook_Verify_def Let_def split: sum.splits if_splits option.splits)
  from v have "length ?parts = 3" by (auto simp: verifyJWT_def Let_def split: if_splits)
  then obtain h p s where parts: "?parts = [h, p, s]"
    by (auto simp: numeral_3_eq_3 length_Suc_conv)
  from v parts obtain raw where "s = RawURL_Encode (hmac secret (h @ ''.'' @ p))" "RawURL_Decode p = Some raw"
    "unmarshalClaims raw = Some c" "wc_Iss c = apiKey" "wc_Exp c = 0 \<or> now \<le> wc_Exp c * Second"
    by (auto simp: verifyJWT_def Let_def split: if_splits option.splits)
  with Split_char_join [OF parts] c show ?thesis by auto
qed

theorem webhook_auth_sound_witness:
  "\<exists>h p. jwt_sign (\<lambda>k m. k @ m) ''sec'' (Std_Encode (rev ''hi'')) = h @ ''.'' @ p @ ''.'' @ RawURL_Encode (''sec'' @ h @ ''.'' @ p)"
proof -
  let ?t = "jwt_sign (\<lambda>k m. k @ m) ''sec'' (Std_Encode (rev ''hi''))"
  have "verifyJWT (\<lambda>k m. k @ m) ex_claims ''key'' ''sec'' 5 ?t
      = Inr \<lparr>wc_Iss = ''key'', wc_Exp = 0, wc_SHA256 = Std_Encode (rev ''hi'')\<rparr>"
    by (rule verify_signed) (simp_all add: ex_claims_def)
  then have "Webhook_Verify (\<lambda>k m. k @ m) rev ex_claims ex_event ''key'' ''sec'' 5 (''Bearer '' @ ?t) ''hi''
      = Inr (the (ex_event ''hi''))"
    unfolding Webhook_Verify_def header_token by (simp add: ex_event_def)
  from webhook_auth_sound [OF this] show ?thesis unfolding header_token by blast
qed

end
