(* ===== verification/GroupStore.thy ===== *)
theory GroupStore
  imports GoCodec Contracts "HOL-Library.Char_ord" "HOL-Library.List_Lexorder"
begin

text \<open>
  Groups: the permission matrix (\<^verbatim>\<open>groups/domain/roles.go\<close>), the data model (\<^verbatim>\<open>groups/groups.go\<close>) and the
  PostgreSQL store (\<^verbatim>\<open>groups/adapters/pg.go\<close>). Membership is kept twice, in \<^verbatim>\<open>group_members\<close> and mirrored in
  \<^verbatim>\<open>conversation_members\<close>, from which messages are fanned out. A transaction that fails changes nothing.
  Foreign keys to users and media are not part of the model; those to groups and conversations are, with their
  cascades.
\<close>

section \<open>Roles and settings\<close>

type_synonym role = int

definition RoleMember :: role where "RoleMember = 0"
definition RoleAdmin :: role where "RoleAdmin = 1"
definition RoleOwner :: role where "RoleOwner = 2"

lemmas role_defs = RoleMember_def RoleAdmin_def RoleOwner_def

definition MaxMembers :: nat where "MaxMembers = 1024"

definition Role_Valid :: "role \<Rightarrow> bool" where
  "Role_Valid r \<longleftrightarrow> r \<ge> RoleMember \<and> r \<le> RoleOwner"

definition Role_String :: "role \<Rightarrow> string" where
  "Role_String r = (if r = RoleOwner then ''owner'' else if r = RoleAdmin then ''admin'' else ''member'')"

definition Assignable :: "role \<Rightarrow> bool" where
  "Assignable r \<longleftrightarrow> r = RoleMember \<or> r = RoleAdmin"

definition PolicyAll :: string where "PolicyAll = ''all''"
definition PolicyAdmins :: string where "PolicyAdmins = ''admins''"

record settings =
  WhoCanPost :: string
  WhoCanEditInfo :: string
  Announcements :: bool

definition DefaultSettings :: settings where
  "DefaultSettings = \<lparr>WhoCanPost = PolicyAll, WhoCanEditInfo = PolicyAdmins, Announcements = False\<rparr>"

definition validPolicy :: "string \<Rightarrow> bool" where
  "validPolicy p \<longleftrightarrow> p = PolicyAll \<or> p = PolicyAdmins"

definition Settings_Valid :: "settings \<Rightarrow> bool" where
  "Settings_Valid s \<longleftrightarrow> validPolicy (WhoCanPost s) \<and> validPolicy (WhoCanEditInfo s)"

definition CanManageMembers :: "role \<Rightarrow> bool" where "CanManageMembers r \<longleftrightarrow> r \<ge> RoleAdmin"
definition CanChangeRoles :: "role \<Rightarrow> bool" where "CanChangeRoles r \<longleftrightarrow> r = RoleOwner"
definition CanDeleteGroup :: "role \<Rightarrow> bool" where "CanDeleteGroup r \<longleftrightarrow> r = RoleOwner"
definition CanEditSettings :: "role \<Rightarrow> bool" where "CanEditSettings r \<longleftrightarrow> r \<ge> RoleAdmin"

definition CanEditInfo :: "role \<Rightarrow> settings \<Rightarrow> bool" where
  "CanEditInfo r s \<longleftrightarrow> (if WhoCanEditInfo s = PolicyAll then True else r \<ge> RoleAdmin)"

definition CanPost :: "role \<Rightarrow> settings \<Rightarrow> bool" where
  "CanPost r s \<longleftrightarrow> (if Announcements s \<or> WhoCanPost s = PolicyAdmins then r \<ge> RoleAdmin else True)"

definition CanRemove :: "role \<Rightarrow> role \<Rightarrow> bool" where
  "CanRemove actor target \<longleftrightarrow>
     (if target = RoleOwner then False
      else if target = RoleAdmin then actor = RoleOwner
      else actor \<ge> RoleAdmin)"

section \<open>Rows\<close>

record group =
  gr_ID :: string
  gr_Name :: string
  gr_Description :: string
  gr_AvatarRef :: string
  gr_Settings :: settings
  gr_Version :: int
  gr_CreatedBy :: string
  gr_CreatedAt :: instant

record member =
  mb_GroupID :: string
  mb_UserID :: string
  mb_Role :: role
  mb_JoinedAt :: instant

record invite_link =
  il_Token :: string
  il_GroupID :: string
  il_CreatedBy :: string
  il_ExpiresAt :: "instant option"
  il_RevokedAt :: "instant option"
  il_MaxUses :: "int option"
  il_Uses :: int

record grp_db =
  groups_tbl :: "group list"
  group_members_tbl :: "member list"
  invite_links_tbl :: "invite_link list"
  conversations_tbl :: "string list"
  conversation_members_tbl :: "(string \<times> string) list"

definition empty_grp_db :: grp_db where
  "empty_grp_db = \<lparr>groups_tbl = [], group_members_tbl = [], invite_links_tbl = [], conversations_tbl = [],
     conversation_members_tbl = []\<rparr>"

definition mb_key :: "member \<Rightarrow> string \<times> string" where
  "mb_key m = (mb_GroupID m, mb_UserID m)"

datatype repo_error = RepoNotFound | RepoFail | ErrInviteInvalid | ErrGroupFull | ErrAlreadyMember

section \<open>Statements\<close>

definition member_exists :: "grp_db \<Rightarrow> string \<Rightarrow> string \<Rightarrow> bool" where
  "member_exists db gid uid \<longleftrightarrow> (gid, uid) \<in> mb_key ` set (group_members_tbl db)"

definition group_exists :: "grp_db \<Rightarrow> string \<Rightarrow> bool" where
  "group_exists db gid \<longleftrightarrow> gid \<in> gr_ID ` set (groups_tbl db)"

text \<open>\<^verbatim>\<open>INSERT ... ON CONFLICT DO NOTHING\<close> of pairs; a new pair needs its conversation.\<close>

definition mirrorMembers :: "string \<Rightarrow> string list \<Rightarrow> grp_db \<Rightarrow> grp_db option" where
  "mirrorMembers convID userIDs db =
     (if userIDs = [] then Some db
      else if convID \<notin> set (conversations_tbl db) then None
      else Some (db\<lparr>conversation_members_tbl := conversation_members_tbl db @
             map (Pair convID) (dedup_seen (\<lambda>u. (convID, u) \<in> set (conversation_members_tbl db)) {} userIDs)\<rparr>))"

definition pg_CreateGroup :: "group \<Rightarrow> member list \<Rightarrow> grp_db \<Rightarrow> grp_db option" where
  "pg_CreateGroup g members db =
     (case tbl_ins gr_ID g (groups_tbl db) of
        None \<Rightarrow> None
      | Some gs \<Rightarrow>
         let rows = group_members_tbl db @ members in
         if \<not> tbl_wf mb_key rows then None
         else mirrorMembers (gr_ID g) (map mb_UserID members)
           (db\<lparr>groups_tbl := gs, group_members_tbl := rows,
               conversations_tbl := (if gr_ID g \<in> set (conversations_tbl db) then conversations_tbl db
                                     else conversations_tbl db @ [gr_ID g])\<rparr>))"

definition pg_GetGroup :: "grp_db \<Rightarrow> string \<Rightarrow> group option" where
  "pg_GetGroup db gid = map_option (\<lambda>g. g\<lparr>gr_AvatarRef := []\<rparr>) (tbl_get gr_ID gid (groups_tbl db))"

definition pg_GetMember :: "grp_db \<Rightarrow> string \<Rightarrow> string \<Rightarrow> member option" where
  "pg_GetMember db gid uid = tbl_get mb_key (gid, uid) (group_members_tbl db)"

definition members_of :: "grp_db \<Rightarrow> string \<Rightarrow> member list" where
  "members_of db gid = filter (\<lambda>m. mb_GroupID m = gid) (group_members_tbl db)"

definition pg_ListMembers :: "grp_db \<Rightarrow> string \<Rightarrow> string \<Rightarrow> nat \<Rightarrow> member list" where
  "pg_ListMembers db gid afterUserID limit =
     take limit (sort_key mb_UserID
       (filter (\<lambda>m. afterUserID = [] \<or> mb_UserID m > afterUserID) (members_of db gid)))"

definition pg_CountMembers :: "grp_db \<Rightarrow> string \<Rightarrow> nat" where
  "pg_CountMembers db gid = length (members_of db gid)"

definition pg_MembersAndVersion :: "grp_db \<Rightarrow> string \<Rightarrow> (string list \<times> int) option" where
  "pg_MembersAndVersion db gid =
     (case tbl_get gr_ID gid (groups_tbl db) of
        None \<Rightarrow> None
      | Some g \<Rightarrow> Some (map mb_UserID (members_of db gid), gr_Version g))"

text \<open>\<^verbatim>\<open>UPDATE groups SET version = version + 1 ... RETURNING version\<close>.\<close>

definition bump_version :: "string \<Rightarrow> (group \<Rightarrow> group) \<Rightarrow> grp_db \<Rightarrow> (int \<times> grp_db) option" where
  "bump_version gid upd db =
     (case tbl_get gr_ID gid (groups_tbl db) of
        None \<Rightarrow> None
      | Some g \<Rightarrow> Some (gr_Version g + 1,
          db\<lparr>groups_tbl := tbl_upd gr_ID gid (\<lambda>g. (upd g)\<lparr>gr_Version := gr_Version g + 1\<rparr>) (groups_tbl db)\<rparr>))"

definition pg_UpdateInfo ::
  "string \<Rightarrow> string option \<Rightarrow> string option \<Rightarrow> string option \<Rightarrow> grp_db \<Rightarrow> (int \<times> grp_db) option" where
  "pg_UpdateInfo gid name description avatarRef db =
     bump_version gid (\<lambda>g. g\<lparr>gr_Name := case_option (gr_Name g) id name,
        gr_Description := case_option (gr_Description g) id description,
        gr_AvatarRef := case_option (gr_AvatarRef g) id avatarRef\<rparr>) db"

definition pg_UpdateSettings :: "string \<Rightarrow> settings \<Rightarrow> grp_db \<Rightarrow> (int \<times> grp_db) option" where
  "pg_UpdateSettings gid st db = bump_version gid (\<lambda>g. g\<lparr>gr_Settings := st\<rparr>) db"

definition pg_AddMembers ::
  "string \<Rightarrow> string list \<Rightarrow> instant \<Rightarrow> grp_db \<Rightarrow> (string list \<times> int \<times> grp_db) option" where
  "pg_AddMembers gid userIDs now db =
     (let added = dedup_seen (member_exists db gid) {} userIDs;
          db1 = db\<lparr>group_members_tbl := group_members_tbl db @
                  map (\<lambda>u. \<lparr>mb_GroupID = gid, mb_UserID = u, mb_Role = RoleMember, mb_JoinedAt = now\<rparr>) added\<rparr>
      in if \<not> group_exists db gid then None
         else case mirrorMembers gid added db1 of
                None \<Rightarrow> None
              | Some db2 \<Rightarrow> map_option (\<lambda>(v, db3). (added, v, db3)) (bump_version gid id db2))"

definition pg_RemoveMember :: "string \<Rightarrow> string \<Rightarrow> grp_db \<Rightarrow> (int \<times> bool \<times> grp_db) option" where
  "pg_RemoveMember gid uid db =
     (if \<not> member_exists db gid uid then Some (0, False, db)
      else map_option (\<lambda>(v, db2). (v, True, db2))
        (bump_version gid id
          (db\<lparr>group_members_tbl := tbl_del mb_key (gid, uid) (group_members_tbl db),
              conversation_members_tbl := tbl_del id (gid, uid) (conversation_members_tbl db)\<rparr>)))"

definition pg_SetRole :: "string \<Rightarrow> string \<Rightarrow> role \<Rightarrow> grp_db \<Rightarrow> repo_error + (int \<times> grp_db)" where
  "pg_SetRole gid uid role db =
     (if \<not> member_exists db gid uid then Inl RepoNotFound
      else case bump_version gid id
          (db\<lparr>group_members_tbl := tbl_upd mb_key (gid, uid) (\<lambda>m. m\<lparr>mb_Role := role\<rparr>) (group_members_tbl db)\<rparr>) of
        None \<Rightarrow> Inl RepoFail
      | Some r \<Rightarrow> Inr r)"

text \<open>The delete cascades to members, invites and the group's conversation with its members.\<close>

definition pg_DeleteGroup :: "string \<Rightarrow> grp_db \<Rightarrow> grp_db option" where
  "pg_DeleteGroup gid db =
     (if \<not> group_exists db gid then None
      else Some (db\<lparr>groups_tbl := tbl_del gr_ID gid (groups_tbl db),
             group_members_tbl := filter (\<lambda>m. mb_GroupID m \<noteq> gid) (group_members_tbl db),
             invite_links_tbl := filter (\<lambda>l. il_GroupID l \<noteq> gid) (invite_links_tbl db),
             conversations_tbl := filter (\<lambda>c. c \<noteq> gid) (conversations_tbl db),
             conversation_members_tbl := filter (\<lambda>p. fst p \<noteq> gid) (conversation_members_tbl db)\<rparr>))"

definition pg_CreateInvite :: "invite_link \<Rightarrow> grp_db \<Rightarrow> grp_db option" where
  "pg_CreateInvite l db =
     (if \<not> group_exists db (il_GroupID l) then None
      else case tbl_ins il_Token (l\<lparr>il_Uses := 0, il_RevokedAt := None\<rparr>) (invite_links_tbl db) of
             None \<Rightarrow> None
           | Some rows \<Rightarrow> Some (db\<lparr>invite_links_tbl := rows\<rparr>))"

definition pg_GetInvite :: "grp_db \<Rightarrow> string \<Rightarrow> invite_link option" where
  "pg_GetInvite db token = tbl_get il_Token token (invite_links_tbl db)"

definition pg_RevokeInvite :: "string \<Rightarrow> instant \<Rightarrow> grp_db \<Rightarrow> grp_db option" where
  "pg_RevokeInvite token now db =
     (if token \<notin> il_Token ` set (invite_links_tbl db) then None
      else Some (db\<lparr>invite_links_tbl :=
             tbl_upd il_Token token (\<lambda>l. l\<lparr>il_RevokedAt := Some now\<rparr>) (invite_links_tbl db)\<rparr>))"

definition invite_usable :: "instant \<Rightarrow> invite_link \<Rightarrow> bool" where
  "invite_usable now l \<longleftrightarrow>
     \<not> (il_RevokedAt l \<noteq> None \<or>
        (case il_ExpiresAt l of None \<Rightarrow> False | Some t \<Rightarrow> now > t) \<or>
        (case il_MaxUses l of None \<Rightarrow> False | Some n \<Rightarrow> il_Uses l \<ge> n))"

text \<open>The whole transaction. An error with a group is the already-member case.\<close>

definition pg_JoinViaInvite ::
  "string \<Rightarrow> string \<Rightarrow> nat \<Rightarrow> instant \<Rightarrow> grp_db \<Rightarrow> (repo_error \<times> group option) + (group \<times> int \<times> grp_db)" where
  "pg_JoinViaInvite token userID maxMembers now db =
     (case pg_GetInvite db token of
        None \<Rightarrow> Inl (ErrInviteInvalid, None)
      | Some l \<Rightarrow>
        if \<not> invite_usable now l then Inl (ErrInviteInvalid, None)
        else let gid = il_GroupID l in
        case tbl_get gr_ID gid (groups_tbl db) of
          None \<Rightarrow> Inl (ErrInviteInvalid, None)
        | Some row \<Rightarrow>
          let g = row\<lparr>gr_AvatarRef := [], gr_CreatedBy := [], gr_CreatedAt := 0\<rparr> in
          if member_exists db gid userID then Inl (ErrAlreadyMember, Some g)
          else if pg_CountMembers db gid \<ge> maxMembers then Inl (ErrGroupFull, None)
          else
            let db1 = db\<lparr>group_members_tbl := group_members_tbl db @
                  [\<lparr>mb_GroupID = gid, mb_UserID = userID, mb_Role = RoleMember, mb_JoinedAt = now\<rparr>]\<rparr> in
            case mirrorMembers gid [userID] db1 of
              None \<Rightarrow> Inl (RepoFail, None)
            | Some db2 \<Rightarrow>
              let db3 = db2\<lparr>invite_links_tbl :=
                    tbl_upd il_Token token (\<lambda>l. l\<lparr>il_Uses := il_Uses l + 1\<rparr>) (invite_links_tbl db2)\<rparr> in
              case bump_version gid id db3 of
                None \<Rightarrow> Inl (RepoFail, None)
              | Some (v, db4) \<Rightarrow> Inr (g\<lparr>gr_Version := v\<rparr>, v, db4))"

section \<open>Invariant\<close>

definition is_owner :: "member \<Rightarrow> bool" where
  "is_owner m \<longleftrightarrow> mb_Role m = RoleOwner"

definition group_ok :: "grp_db \<Rightarrow> string \<Rightarrow> bool" where
  "group_ok db gid \<longleftrightarrow>
     length (filter is_owner (members_of db gid)) = 1 \<and>
     length (members_of db gid) \<le> MaxMembers \<and>
     gid \<in> set (conversations_tbl db) \<and>
     (\<forall>u. (gid, u) \<in> set (conversation_members_tbl db) \<longleftrightarrow> member_exists db gid u)"

definition invite_ok :: "invite_link \<Rightarrow> bool" where
  "invite_ok l \<longleftrightarrow> (case il_MaxUses l of None \<Rightarrow> True | Some n \<Rightarrow> il_Uses l \<le> max n 0)"

definition grp_ok :: "grp_db \<Rightarrow> bool" where
  "grp_ok db \<longleftrightarrow>
     tbl_wf gr_ID (groups_tbl db) \<and> tbl_wf mb_key (group_members_tbl db) \<and> tbl_wf il_Token (invite_links_tbl db) \<and>
     (\<forall>m\<in>set (group_members_tbl db). group_exists db (mb_GroupID m) \<and> Role_Valid (mb_Role m)) \<and>
     (\<forall>l\<in>set (invite_links_tbl db). group_exists db (il_GroupID l) \<and> invite_ok l) \<and>
     (\<forall>c\<in>set (conversations_tbl db). group_exists db c) \<and>
     (\<forall>p\<in>set (conversation_members_tbl db). fst p \<in> set (conversations_tbl db)) \<and>
     (\<forall>gid. group_exists db gid \<longrightarrow> group_ok db gid)"

end
