(* ===== verification/GroupService.thy ===== *)
theory GroupService
  imports GroupStore
begin

text \<open>
  The groups service (\<^verbatim>\<open>groups/service.go\<close>), the membership read path (\<^verbatim>\<open>groups/membership.go\<close>) and its
  Valkey cache (\<^verbatim>\<open>groups/adapters/cache.go\<close>). Events are published best effort; a handler returns them as a
  list with its result and the new tables.
\<close>

section \<open>Environment and events\<close>

datatype grp_call =
    GCreateGroup | GGetGroup | GGetMember | GGetTarget | GListMembers | GCountMembers | GUpdateInfo | GUpdateSettings
  | GAddMembers | GRemoveMember | GSetRole | GDeleteGroup | GCreateInvite | GGetInvite | GRevokeInvite
  | GJoinViaInvite

record grp_env =
  ge_now :: instant
  ge_newID :: string
  ge_rand :: "string option"
  ge_down :: "grp_call \<Rightarrow> bool"

datatype group_event =
    MemberAdded string int string string
  | MemberRemoved string int string string
  | RoleChanged string int string string role
  | InfoChanged string int string
  | SettingsChanged string int string
  | GroupDeleted string string

record group_view =
  gv_ID :: string
  gv_Name :: string
  gv_Description :: string
  gv_Settings :: settings
  gv_Version :: int
  gv_MyRole :: string

definition grp_view :: "group \<Rightarrow> string \<Rightarrow> group_view" where
  "grp_view g myRole =
     \<lparr>gv_ID = gr_ID g, gv_Name = gr_Name g, gv_Description = gr_Description g,
      gv_Settings = gr_Settings g, gv_Version = gr_Version g, gv_MyRole = myRole\<rparr>"

section \<open>Helpers\<close>

definition notMember :: api_error where "notMember = Reject 403 ''STATE_NOT_MEMBER''"
definition forbidden :: api_error where "forbidden = Reject 403 ''STATE_FORBIDDEN''"

definition mapGroupErr :: "repo_error \<Rightarrow> api_error" where
  "mapGroupErr e = (if e = RepoNotFound then Reject 404 ''GROUP_NOT_FOUND'' else Transient)"

definition caller :: "grp_env \<Rightarrow> grp_db \<Rightarrow> string \<Rightarrow> string \<Rightarrow> member result" where
  "caller e db groupID userID =
     (if ge_down e GGetMember then Inl Transient
      else case pg_GetMember db groupID userID of None \<Rightarrow> Inl notMember | Some m \<Rightarrow> Inr m)"

definition dedupeExcluding :: "string list \<Rightarrow> string \<Rightarrow> string list" where
  "dedupeExcluding ids exclude = dedup_seen (\<lambda>x. x = [] \<or> x = exclude) {} (map TrimSpace ids)"

definition newToken :: "grp_env \<Rightarrow> string option" where
  "newToken e = map_option RawURL_Encode (ge_rand e)"

section \<open>Operations\<close>

definition Grp_Create ::
  "grp_env \<Rightarrow> grp_db \<Rightarrow> identity \<Rightarrow> string \<Rightarrow> string \<Rightarrow> string list \<Rightarrow>
   group_view result \<times> group_event list \<times> grp_db" where
  "Grp_Create e db ident name description memberIDs =
     (let name = TrimSpace name in
      if name = [] then (Inl (Reject 400 ''VALIDATION_NAME''), [], db)
      else
        let memberIDs = dedupeExcluding memberIDs (UserID ident) in
        if 1 + length memberIDs > MaxMembers then (Inl (Reject 409 ''STATE_GROUP_FULL''), [], db)
        else
          let now = ge_now e;
              g = \<lparr>gr_ID = ge_newID e, gr_Name = name, gr_Description = description, gr_AvatarRef = [],
                   gr_Settings = DefaultSettings, gr_Version = 0, gr_CreatedBy = UserID ident,
                   gr_CreatedAt = now\<rparr>;
              members = \<lparr>mb_GroupID = gr_ID g, mb_UserID = UserID ident, mb_Role = RoleOwner, mb_JoinedAt = now\<rparr>
                # map (\<lambda>uid. \<lparr>mb_GroupID = gr_ID g, mb_UserID = uid, mb_Role = RoleMember, mb_JoinedAt = now\<rparr>) memberIDs
          in case (if ge_down e GCreateGroup then None else pg_CreateGroup g members db) of
               None \<Rightarrow> (Inl Transient, [], db)
             | Some db1 \<Rightarrow>
                 (Inr (grp_view g (Role_String RoleOwner)),
                  map (MemberAdded (gr_ID g) (gr_Version g) (UserID ident)) memberIDs, db1))"

definition Grp_Get :: "grp_env \<Rightarrow> grp_db \<Rightarrow> identity \<Rightarrow> string \<Rightarrow> group_view result" where
  "Grp_Get e db ident groupID =
     (case caller e db groupID (UserID ident) of
        Inl err \<Rightarrow> Inl err
      | Inr me \<Rightarrow>
        if ge_down e GGetGroup then Inl Transient
        else case pg_GetGroup db groupID of
               None \<Rightarrow> Inl (mapGroupErr RepoNotFound)
             | Some g \<Rightarrow> Inr (grp_view g (Role_String (mb_Role me))))"

definition Grp_UpdateInfo ::
  "grp_env \<Rightarrow> grp_db \<Rightarrow> identity \<Rightarrow> string \<Rightarrow> string option \<Rightarrow> string option \<Rightarrow> string option \<Rightarrow>
   unit result \<times> group_event list \<times> grp_db" where
  "Grp_UpdateInfo e db ident groupID name description avatarRef =
     (case caller e db groupID (UserID ident) of
        Inl err \<Rightarrow> (Inl err, [], db)
      | Inr me \<Rightarrow>
        if ge_down e GGetGroup then (Inl Transient, [], db)
        else case pg_GetGroup db groupID of
          None \<Rightarrow> (Inl (mapGroupErr RepoNotFound), [], db)
        | Some g \<Rightarrow>
          if \<not> CanEditInfo (mb_Role me) (gr_Settings g) then (Inl forbidden, [], db)
          else if (case name of None \<Rightarrow> False | Some n \<Rightarrow> TrimSpace n = [])
          then (Inl (Reject 400 ''VALIDATION_NAME''), [], db)
          else if ge_down e GUpdateInfo then (Inl Transient, [], db)
          else case pg_UpdateInfo groupID name description avatarRef db of
                 None \<Rightarrow> (Inl (mapGroupErr RepoNotFound), [], db)
               | Some (version, db1) \<Rightarrow> (Inr (), [InfoChanged groupID version (UserID ident)], db1))"

definition SetSettings ::
  "grp_env \<Rightarrow> grp_db \<Rightarrow> identity \<Rightarrow> string \<Rightarrow> settings \<Rightarrow> unit result \<times> group_event list \<times> grp_db" where
  "SetSettings e db ident groupID st =
     (case caller e db groupID (UserID ident) of
        Inl err \<Rightarrow> (Inl err, [], db)
      | Inr me \<Rightarrow>
        if \<not> CanEditSettings (mb_Role me) then (Inl forbidden, [], db)
        else if \<not> Settings_Valid st then (Inl (Reject 400 ''VALIDATION_SETTINGS''), [], db)
        else if ge_down e GUpdateSettings then (Inl Transient, [], db)
        else case pg_UpdateSettings groupID st db of
               None \<Rightarrow> (Inl (mapGroupErr RepoNotFound), [], db)
             | Some (version, db1) \<Rightarrow> (Inr (), [SettingsChanged groupID version (UserID ident)], db1))"

definition Grp_ListMembers ::
  "grp_env \<Rightarrow> grp_db \<Rightarrow> identity \<Rightarrow> string \<Rightarrow> string \<Rightarrow> int \<Rightarrow> ((string \<times> string) list \<times> string) result" where
  "Grp_ListMembers e db ident groupID cursor limit =
     (case caller e db groupID (UserID ident) of
        Inl err \<Rightarrow> Inl err
      | Inr me \<Rightarrow>
        let limit = nat (if limit \<le> 0 \<or> limit > 200 then 100 else limit) in
        if ge_down e GListMembers then Inl Transient
        else
          let members = pg_ListMembers db groupID cursor (limit + 1);
              nxt = (if length members > limit then mb_UserID (members ! (limit - 1)) else []);
              members = (if length members > limit then take limit members else members)
          in Inr (map (\<lambda>m. (mb_UserID m, Role_String (mb_Role m))) members, nxt))"

definition Grp_AddMembers ::
  "grp_env \<Rightarrow> grp_db \<Rightarrow> identity \<Rightarrow> string \<Rightarrow> string list \<Rightarrow>
   string list result \<times> group_event list \<times> grp_db" where
  "Grp_AddMembers e db ident groupID userIDs =
     (case caller e db groupID (UserID ident) of
        Inl err \<Rightarrow> (Inl err, [], db)
      | Inr me \<Rightarrow>
        if \<not> CanManageMembers (mb_Role me) then (Inl forbidden, [], db)
        else
          let userIDs = dedupeExcluding userIDs [] in
          if userIDs = [] then (Inr [], [], db)
          else if ge_down e GCountMembers then (Inl Transient, [], db)
          else if pg_CountMembers db groupID + length userIDs > MaxMembers
          then (Inl (Reject 409 ''STATE_GROUP_FULL''), [], db)
          else case (if ge_down e GAddMembers then None else pg_AddMembers groupID userIDs (ge_now e) db) of
                 None \<Rightarrow> (Inl Transient, [], db)
               | Some (added, version, db1) \<Rightarrow>
                   (Inr added, map (MemberAdded groupID version (UserID ident)) added, db1))"

definition Grp_RemoveMember ::
  "grp_env \<Rightarrow> grp_db \<Rightarrow> identity \<Rightarrow> string \<Rightarrow> string \<Rightarrow> unit result \<times> group_event list \<times> grp_db" where
  "Grp_RemoveMember e db ident groupID targetID =
     (case caller e db groupID (UserID ident) of
        Inl err \<Rightarrow> (Inl err, [], db)
      | Inr me \<Rightarrow>
        if \<not> CanManageMembers (mb_Role me) then (Inl forbidden, [], db)
        else if ge_down e GGetTarget then (Inl Transient, [], db)
        else case pg_GetMember db groupID targetID of
          None \<Rightarrow> (Inl (Reject 404 ''MEMBER_NOT_FOUND''), [], db)
        | Some target \<Rightarrow>
          if \<not> CanRemove (mb_Role me) (mb_Role target) then (Inl forbidden, [], db)
          else case (if ge_down e GRemoveMember then None else pg_RemoveMember groupID targetID db) of
                 None \<Rightarrow> (Inl Transient, [], db)
               | Some (version, removed, db1) \<Rightarrow>
                   (Inr (), if removed then [MemberRemoved groupID version (UserID ident) targetID] else [], db1))"

definition Grp_SetRole ::
  "grp_env \<Rightarrow> grp_db \<Rightarrow> identity \<Rightarrow> string \<Rightarrow> string \<Rightarrow> role \<Rightarrow> unit result \<times> group_event list \<times> grp_db" where
  "Grp_SetRole e db ident groupID targetID role =
     (case caller e db groupID (UserID ident) of
        Inl err \<Rightarrow> (Inl err, [], db)
      | Inr me \<Rightarrow>
        if \<not> CanChangeRoles (mb_Role me) then (Inl forbidden, [], db)
        else if \<not> Assignable role then (Inl (Reject 400 ''VALIDATION_ROLE''), [], db)
        else if targetID = UserID ident then (Inl (Reject 409 ''STATE_OWNER_SELF''), [], db)
        else if ge_down e GGetTarget then (Inl Transient, [], db)
        else case pg_GetMember db groupID targetID of
          None \<Rightarrow> (Inl (Reject 404 ''MEMBER_NOT_FOUND''), [], db)
        | Some _ \<Rightarrow>
          if ge_down e GSetRole then (Inl Transient, [], db)
          else case pg_SetRole groupID targetID role db of
                 Inl err \<Rightarrow> (Inl (mapGroupErr err), [], db)
               | Inr (version, db1) \<Rightarrow>
                   (Inr (), [RoleChanged groupID version (UserID ident) targetID role], db1))"

definition Leave ::
  "grp_env \<Rightarrow> grp_db \<Rightarrow> identity \<Rightarrow> string \<Rightarrow> unit result \<times> group_event list \<times> grp_db" where
  "Leave e db ident groupID =
     (case caller e db groupID (UserID ident) of
        Inl err \<Rightarrow> (Inl err, [], db)
      | Inr me \<Rightarrow>
        if mb_Role me = RoleOwner then (Inl (Reject 409 ''STATE_OWNER_MUST_TRANSFER''), [], db)
        else case (if ge_down e GRemoveMember then None else pg_RemoveMember groupID (UserID ident) db) of
               None \<Rightarrow> (Inl Transient, [], db)
             | Some (version, removed, db1) \<Rightarrow>
                 (Inr (), if removed then [MemberRemoved groupID version (UserID ident) (UserID ident)] else [], db1))"

definition Grp_Delete ::
  "grp_env \<Rightarrow> grp_db \<Rightarrow> identity \<Rightarrow> string \<Rightarrow> unit result \<times> group_event list \<times> grp_db" where
  "Grp_Delete e db ident groupID =
     (case caller e db groupID (UserID ident) of
        Inl err \<Rightarrow> (Inl err, [], db)
      | Inr me \<Rightarrow>
        if \<not> CanDeleteGroup (mb_Role me) then (Inl forbidden, [], db)
        else if ge_down e GDeleteGroup then (Inl Transient, [], db)
        else case pg_DeleteGroup groupID db of
               None \<Rightarrow> (Inl (mapGroupErr RepoNotFound), [], db)
             | Some db1 \<Rightarrow> (Inr (), [GroupDeleted groupID (UserID ident)], db1))"

text \<open>The result is the token; the URL and the QR text are the token behind a fixed prefix.\<close>

definition CreateInviteLink ::
  "grp_env \<Rightarrow> grp_db \<Rightarrow> identity \<Rightarrow> string \<Rightarrow> instant option \<Rightarrow> int option \<Rightarrow>
   (string \<times> string \<times> string) result \<times> group_event list \<times> grp_db" where
  "CreateInviteLink e db ident groupID expires maxUses =
     (case caller e db groupID (UserID ident) of
        Inl err \<Rightarrow> (Inl err, [], db)
      | Inr me \<Rightarrow>
        if \<not> CanManageMembers (mb_Role me) then (Inl forbidden, [], db)
        else case newToken e of
          None \<Rightarrow> (Inl Transient, [], db)
        | Some token \<Rightarrow>
          let l = \<lparr>il_Token = token, il_GroupID = groupID, il_CreatedBy = UserID ident, il_ExpiresAt = expires,
                   il_RevokedAt = None, il_MaxUses = maxUses, il_Uses = 0\<rparr>
          in case (if ge_down e GCreateInvite then None else pg_CreateInvite l db) of
               None \<Rightarrow> (Inl Transient, [], db)
             | Some db1 \<Rightarrow>
                 let url = ''https://wa.invite/'' @ token in (Inr (token, url, url), [], db1))"

definition RevokeInviteLink ::
  "grp_env \<Rightarrow> grp_db \<Rightarrow> identity \<Rightarrow> string \<Rightarrow> unit result \<times> group_event list \<times> grp_db" where
  "RevokeInviteLink e db ident token =
     (if ge_down e GGetInvite then (Inl Transient, [], db)
      else case pg_GetInvite db token of
        None \<Rightarrow> (Inl (Reject 404 ''INVITE_NOT_FOUND''), [], db)
      | Some l \<Rightarrow>
        (case caller e db (il_GroupID l) (UserID ident) of
           Inl err \<Rightarrow> (Inl err, [], db)
         | Inr me \<Rightarrow>
           if \<not> CanManageMembers (mb_Role me) then (Inl forbidden, [], db)
           else if ge_down e GRevokeInvite then (Inl Transient, [], db)
           else case pg_RevokeInvite token (ge_now e) db of
                  None \<Rightarrow> (Inl (mapGroupErr RepoNotFound), [], db)
                | Some db1 \<Rightarrow> (Inr (), [], db1)))"

definition Join ::
  "grp_env \<Rightarrow> grp_db \<Rightarrow> identity \<Rightarrow> string \<Rightarrow> group_view result \<times> group_event list \<times> grp_db" where
  "Join e db ident token =
     (if ge_down e GJoinViaInvite then (Inl Transient, [], db)
      else case pg_JoinViaInvite token (UserID ident) MaxMembers (ge_now e) db of
        Inl (err, g) \<Rightarrow>
          (case err of
             ErrInviteInvalid \<Rightarrow> (Inl (Reject 403 ''INVITE_INVALID''), [], db)
           | ErrGroupFull \<Rightarrow> (Inl (Reject 409 ''STATE_GROUP_FULL''), [], db)
           | ErrAlreadyMember \<Rightarrow> (Inr (grp_view (the g) (Role_String RoleMember)), [], db)
           | _ \<Rightarrow> (Inl Transient, [], db))
      | Inr (g, version, db1) \<Rightarrow>
          (Inr (grp_view g (Role_String RoleMember)),
           [MemberAdded (gr_ID g) version (UserID ident) (UserID ident)], db1))"

section \<open>The membership cache\<close>

text \<open>
  Two keys per group, the member set and its version, each with its own expiry; a read takes them one after
  the other, at two instants.
\<close>

record grp_cache =
  ch_members :: "string \<Rightarrow> (string list \<times> instant) option"
  ch_version :: "string \<Rightarrow> (int \<times> instant) option"

definition empty_grp_cache :: grp_cache where
  "empty_grp_cache = \<lparr>ch_members = Map.empty, ch_version = Map.empty\<rparr>"

definition cacheTTL :: duration where "cacheTTL = 15 * Minute"

definition key_alive :: "instant \<Rightarrow> ('a \<times> instant) option \<Rightarrow> 'a option" where
  "key_alive now v = (case v of None \<Rightarrow> None | Some (x, t) \<Rightarrow> if now < t then Some x else None)"

definition Cache_Get :: "instant \<Rightarrow> instant \<Rightarrow> grp_cache \<Rightarrow> string \<Rightarrow> (string list \<times> int) option" where
  "Cache_Get now now' c gid =
     (case key_alive now (ch_version c gid) of
        None \<Rightarrow> None
      | Some version \<Rightarrow> Some (case key_alive now' (ch_members c gid) of None \<Rightarrow> [] | Some ms \<Rightarrow> ms, version))"

definition Cache_Put :: "instant \<Rightarrow> string \<Rightarrow> string list \<Rightarrow> int \<Rightarrow> grp_cache \<Rightarrow> grp_cache" where
  "Cache_Put now gid members version c =
     c\<lparr>ch_members := (ch_members c)(gid := if members = [] then None else Some (remdups members, now + cacheTTL)),
       ch_version := (ch_version c)(gid \<mapsto> (version, now + cacheTTL))\<rparr>"

definition Cache_Invalidate :: "string \<Rightarrow> grp_cache \<Rightarrow> grp_cache" where
  "Cache_Invalidate gid c =
     c\<lparr>ch_members := (ch_members c)(gid := None), ch_version := (ch_version c)(gid := None)\<rparr>"

record ms_env =
  me_now :: instant
  me_now' :: instant
  me_getFails :: bool
  me_putFails :: bool
  me_sourceFails :: bool

definition Members ::
  "ms_env \<Rightarrow> grp_db \<Rightarrow> grp_cache \<Rightarrow> string \<Rightarrow> int \<Rightarrow> (string list \<times> int) option \<times> grp_cache" where
  "Members e db c groupID minVersion =
     (let reload =
        (if me_sourceFails e then (None, c)
         else case pg_MembersAndVersion db groupID of
                None \<Rightarrow> (None, c)
              | Some (members, version) \<Rightarrow>
                  (Some (members, version),
                   if me_putFails e then c else Cache_Put (me_now e) groupID members version c))
      in case (if me_getFails e then None else Cache_Get (me_now e) (me_now' e) c groupID) of
           None \<Rightarrow> reload
         | Some (members, version) \<Rightarrow>
             if version \<ge> minVersion then (Some (members, version), c) else reload)"

definition OnMembershipEvent :: "bool \<Rightarrow> string \<Rightarrow> grp_cache \<Rightarrow> grp_cache" where
  "OnMembershipEvent fails groupID c = (if fails then c else Cache_Invalidate groupID c)"

section \<open>Requests\<close>

datatype grp_req =
    GReqCreate string string "string list"
  | GReqUpdateInfo string "string option" "string option" "string option"
  | GReqSetSettings string settings
  | GReqAddMembers string "string list"
  | GReqRemoveMember string string
  | GReqSetRole string string role
  | GReqLeave string
  | GReqDelete string
  | GReqCreateInvite string "instant option" "int option"
  | GReqRevokeInvite string
  | GReqJoin string

fun grp_handle :: "grp_db \<Rightarrow> grp_env \<Rightarrow> identity \<Rightarrow> grp_req \<Rightarrow> group_event list \<times> grp_db" where
  "grp_handle db e i (GReqCreate n d us) = snd (Grp_Create e db i n d us)"
| "grp_handle db e i (GReqUpdateInfo g n d a) = snd (Grp_UpdateInfo e db i g n d a)"
| "grp_handle db e i (GReqSetSettings g st) = snd (SetSettings e db i g st)"
| "grp_handle db e i (GReqAddMembers g us) = snd (Grp_AddMembers e db i g us)"
| "grp_handle db e i (GReqRemoveMember g u) = snd (Grp_RemoveMember e db i g u)"
| "grp_handle db e i (GReqSetRole g u r) = snd (Grp_SetRole e db i g u r)"
| "grp_handle db e i (GReqLeave g) = snd (Leave e db i g)"
| "grp_handle db e i (GReqDelete g) = snd (Grp_Delete e db i g)"
| "grp_handle db e i (GReqCreateInvite g t n) = snd (CreateInviteLink e db i g t n)"
| "grp_handle db e i (GReqRevokeInvite tok) = snd (RevokeInviteLink e db i tok)"
| "grp_handle db e i (GReqJoin tok) = snd (Join e db i tok)"

fun grp_step :: "grp_db \<Rightarrow> grp_env \<times> identity \<times> grp_req \<Rightarrow> grp_db" where
  "grp_step db (e, i, q) = snd (grp_handle db e i q)"

section \<open>Write steps\<close>

definition new_members :: "string \<Rightarrow> instant \<Rightarrow> string list \<Rightarrow> member list" where
  "new_members gid now us = map (\<lambda>u. \<lparr>mb_GroupID = gid, mb_UserID = u, mb_Role = RoleMember, mb_JoinedAt = now\<rparr>) us"

definition role_of :: "grp_db \<Rightarrow> string \<Rightarrow> string \<Rightarrow> role option" where
  "role_of db gid u = map_option mb_Role (pg_GetMember db gid u)"

text \<open>The write steps an actor's request can take, with the guards the handlers check first; \<open>nid\<close> is the id a new
  group gets.\<close>

inductive grp_trans :: "string \<Rightarrow> string \<Rightarrow> grp_db \<Rightarrow> grp_db \<Rightarrow> bool" for actor nid where
  stay: "grp_trans actor nid db db"
| create: "pg_CreateGroup g (\<lparr>mb_GroupID = gr_ID g, mb_UserID = actor, mb_Role = RoleOwner, mb_JoinedAt = now\<rparr>
      # new_members (gr_ID g) now us) db = Some db' \<Longrightarrow> distinct (actor # us) \<Longrightarrow> 1 + length us \<le> MaxMembers \<Longrightarrow>
    gr_Version g = 0 \<Longrightarrow> gr_ID g = nid \<Longrightarrow> grp_trans actor nid db db'"
| info: "bump_version gid upd db = Some (v, db') \<Longrightarrow> (\<And>g. gr_ID (upd g) = gr_ID g) \<Longrightarrow> grp_trans actor nid db db'"
| add: "pg_AddMembers gid us now db = Some (added, v, db') \<Longrightarrow> length (members_of db gid) + length us \<le> MaxMembers \<Longrightarrow>
    grp_trans actor nid db db'"
| remove: "pg_RemoveMember gid u db = Some (v, r, db') \<Longrightarrow> role_of db gid u = Some t \<Longrightarrow> t \<noteq> RoleOwner \<Longrightarrow>
    u = actor \<or> (\<exists>a. role_of db gid actor = Some a \<and> CanRemove a t) \<Longrightarrow> grp_trans actor nid db db'"
| role: "pg_SetRole gid u r db = Inr (v, db') \<Longrightarrow> Assignable r \<Longrightarrow> role_of db gid actor = Some RoleOwner \<Longrightarrow>
    u \<noteq> actor \<Longrightarrow> grp_trans actor nid db db'"
| delete: "pg_DeleteGroup gid db = Some db' \<Longrightarrow> role_of db gid actor = Some RoleOwner \<Longrightarrow> grp_trans actor nid db db'"
| invite: "pg_CreateInvite l db = Some db' \<Longrightarrow> grp_trans actor nid db db'"
| revoke: "pg_RevokeInvite tok now db = Some db' \<Longrightarrow> grp_trans actor nid db db'"
| join: "pg_JoinViaInvite tok actor MaxMembers now db = Inr (g, v, db') \<Longrightarrow> grp_trans actor nid db db'"

lemma caller_Inr: "caller e db gid u = Inr me \<Longrightarrow> role_of db gid u = Some (mb_Role me)"
  by (auto simp: caller_def role_of_def split: if_splits option.splits)

lemma distinct_dedupe: "distinct (u # dedupeExcluding us u)"
  by (simp add: dedupeExcluding_def set_dedup_seen distinct_dedup_seen)

lemma Create_trans: "grp_trans (UserID i) (ge_newID e) db (snd (snd (Grp_Create e db i n d us)))"
proof -
  let ?us = "dedupeExcluding us (UserID i)"
  let ?g = "\<lparr>gr_ID = ge_newID e, gr_Name = TrimSpace n, gr_Description = d, gr_AvatarRef = [],
    gr_Settings = DefaultSettings, gr_Version = 0, gr_CreatedBy = UserID i, gr_CreatedAt = ge_now e\<rparr>"
  let ?ms = "\<lparr>mb_GroupID = gr_ID ?g, mb_UserID = UserID i, mb_Role = RoleOwner, mb_JoinedAt = ge_now e\<rparr>
    # new_members (gr_ID ?g) (ge_now e) ?us"
  let ?db = "snd (snd (Grp_Create e db i n d us))"
  have "?db = db \<or> pg_CreateGroup ?g ?ms db = Some ?db \<and> 1 + length ?us \<le> MaxMembers"
    unfolding Grp_Create_def Let_def by (auto simp: new_members_def not_less split: option.split)
  then show ?thesis
  proof
    assume "pg_CreateGroup ?g ?ms db = Some ?db \<and> 1 + length ?us \<le> MaxMembers"
    then show ?thesis using distinct_dedupe [of "UserID i" us] by (intro grp_trans.create [of ?g]) auto
  qed (simp add: grp_trans.stay)
qed

lemma Info_trans:
  "grp_trans (UserID i) (ge_newID e) db (snd (snd (Grp_UpdateInfo e db i g n d a)))"
  "grp_trans (UserID i) (ge_newID e) db (snd (snd (SetSettings e db i g st)))"
  by (auto simp: Grp_UpdateInfo_def SetSettings_def pg_UpdateInfo_def pg_UpdateSettings_def
      intro: grp_trans.stay grp_trans.info split: option.split sum.split)

lemma Add_trans: "grp_trans (UserID i) (ge_newID e) db (snd (snd (Grp_AddMembers e db i g us)))"
  by (auto simp: Grp_AddMembers_def Let_def pg_CountMembers_def intro: grp_trans.stay grp_trans.add
      split: option.split sum.split)

lemma Remove_trans: "grp_trans (UserID i) (ge_newID e) db (snd (snd (Grp_RemoveMember e db i g u)))"
proof (cases "caller e db g (UserID i)")
  case (Inr me)
  show ?thesis
    using caller_Inr [OF Inr] Inr
    by (auto simp: Grp_RemoveMember_def role_of_def CanRemove_def intro: grp_trans.stay
        grp_trans.remove split: option.split)
qed (simp add: Grp_RemoveMember_def grp_trans.stay)

lemma SetRole_trans: "grp_trans (UserID i) (ge_newID e) db (snd (snd (Grp_SetRole e db i g u r)))"
proof (cases "caller e db g (UserID i)")
  case (Inr me)
  show ?thesis
    using caller_Inr [OF Inr] Inr
    by (auto simp: Grp_SetRole_def CanChangeRoles_def intro: grp_trans.stay
        grp_trans.role split: option.split sum.split)
qed (simp add: Grp_SetRole_def grp_trans.stay)

lemma Leave_trans: "grp_trans (UserID i) (ge_newID e) db (snd (snd (Leave e db i g)))"
proof (cases "caller e db g (UserID i)")
  case (Inr me)
  show ?thesis
    using caller_Inr [OF Inr] Inr
    by (auto simp: Leave_def intro: grp_trans.stay grp_trans.remove split: option.split)
qed (simp add: Leave_def grp_trans.stay)

lemma Delete_trans: "grp_trans (UserID i) (ge_newID e) db (snd (snd (Grp_Delete e db i g)))"
proof (cases "caller e db g (UserID i)")
  case (Inr me)
  show ?thesis
    using caller_Inr [OF Inr] Inr
    by (auto simp: Grp_Delete_def CanDeleteGroup_def intro: grp_trans.stay grp_trans.delete split: option.split)
qed (simp add: Grp_Delete_def grp_trans.stay)

lemma Invite_trans:
  "grp_trans (UserID i) (ge_newID e) db (snd (snd (CreateInviteLink e db i g t n)))"
  "grp_trans (UserID i) (ge_newID e) db (snd (snd (RevokeInviteLink e db i tok)))"
  by (auto simp: CreateInviteLink_def RevokeInviteLink_def Let_def intro: grp_trans.stay
      grp_trans.invite grp_trans.revoke split: option.split sum.split)

lemma Join_trans: "grp_trans (UserID i) (ge_newID e) db (snd (snd (Join e db i tok)))"
  by (auto simp: Join_def intro: grp_trans.stay grp_trans.join split: sum.split repo_error.split)

lemma grp_step_trans: "grp_trans (UserID i) (ge_newID e) db (grp_step db (e, i, q))"
  by (cases q) (simp_all add: Create_trans Info_trans Add_trans Remove_trans SetRole_trans Leave_trans Delete_trans
      Invite_trans Join_trans)

end
