(* ===== verification/GroupInv.thy ===== *)
theory GroupInv
  imports GroupService
begin

text \<open>
  The invariant of the groups tables: keys, one owner per group, the member cap, invite limits, and the mirror
  of membership into the group's conversation. One lemma per write statement; \<open>grp_inv\<close> lifts it to requests.
\<close>

section \<open>Statements\<close>

lemma bump_Some:
  assumes "bump_version gid upd db = Some (v, db')" "\<And>g. gr_ID (upd g) = gr_ID g"
  shows "group_exists db gid" "group_exists db' = group_exists db" "members_of db' = members_of db"
    "group_members_tbl db' = group_members_tbl db" "invite_links_tbl db' = invite_links_tbl db"
    "conversations_tbl db' = conversations_tbl db" "conversation_members_tbl db' = conversation_members_tbl db"
    "tbl_wf gr_ID (groups_tbl db) \<Longrightarrow> tbl_wf gr_ID (groups_tbl db')"
    "tbl_get gr_ID k (groups_tbl db') = (if k = gid then map_option (\<lambda>g. (upd g)\<lparr>gr_Version := gr_Version g + 1\<rparr>)
       (tbl_get gr_ID gid (groups_tbl db)) else tbl_get gr_ID k (groups_tbl db))"
proof -
  let ?f = "\<lambda>g. (upd g)\<lparr>gr_Version := gr_Version g + 1\<rparr>"
  obtain g where g: "tbl_get gr_ID gid (groups_tbl db) = Some g"
    and db': "db' = db\<lparr>groups_tbl := tbl_upd gr_ID gid ?f (groups_tbl db)\<rparr>"
    using assms(1) by (auto simp: bump_version_def split: option.splits)
  show "group_exists db gid" using g by (auto simp: group_exists_def dest: tbl_get_Some)
  show "group_exists db' = group_exists db"
  proof
    fix x
    have "map gr_ID (groups_tbl db') = map gr_ID (groups_tbl db)"
      using assms(2) by (simp add: db' map_key_upd)
    then show "group_exists db' x = group_exists db x"
      unfolding group_exists_def by (metis list.set_map)
  qed
  show "members_of db' = members_of db" by (auto simp: fun_eq_iff members_of_def db')
  show "tbl_wf gr_ID (groups_tbl db) \<Longrightarrow> tbl_wf gr_ID (groups_tbl db')"
    using assms(2) by (auto simp: db' intro: tbl_wf_upd)
  show "tbl_get gr_ID k (groups_tbl db') = (if k = gid then map_option ?f (tbl_get gr_ID gid (groups_tbl db))
      else tbl_get gr_ID k (groups_tbl db))"
    using assms(2) by (simp add: db' tbl_get_upd)
qed (use assms(1) in \<open>auto simp: bump_version_def split: option.splits\<close>)

lemma member_exists_cong: "group_members_tbl db' = group_members_tbl db \<Longrightarrow> member_exists db' = member_exists db"
  by (simp add: fun_eq_iff member_exists_def)

lemma grp_ok_bump:
  assumes "grp_ok db" "bump_version gid upd db = Some (v, db')" "\<And>g. gr_ID (upd g) = gr_ID g"
  shows "grp_ok db'"
proof -
  note b = bump_Some [OF assms(2) assms(3)]
  from assms(1) b(8) show ?thesis
    unfolding grp_ok_def group_ok_def b(2-7) member_exists_cong [OF b(4)] by blast
qed

lemma members_of_append: "members_of (db\<lparr>group_members_tbl := group_members_tbl db @ ms\<rparr>) gid
    = members_of db gid @ filter (\<lambda>m. mb_GroupID m = gid) ms"
  by (simp add: members_of_def)

lemma new_members_simps [simp]:
  "filter (\<lambda>m. mb_GroupID m = x) (new_members gid now us) = (if x = gid then new_members gid now us else [])"
  "filter is_owner (new_members gid now us) = []" "length (new_members gid now us) = length us"
  "mb_key ` set (new_members gid now us) = Pair gid ` set us" "map mb_UserID (new_members gid now us) = us"
  "map mb_key (new_members gid now us) = map (Pair gid) us"
  by (auto simp: new_members_def is_owner_def role_defs mb_key_def filter_empty_conv image_iff comp_def)

lemma new_members_set: "m \<in> set (new_members gid now us) \<Longrightarrow> mb_GroupID m = gid \<and> mb_Role m = RoleMember"
  by (auto simp: new_members_def)

lemma mirror_Some:
  assumes "mirrorMembers gid us db = Some db'"
  shows "groups_tbl db' = groups_tbl db" "group_members_tbl db' = group_members_tbl db"
    "invite_links_tbl db' = invite_links_tbl db" "conversations_tbl db' = conversations_tbl db"
    "set (conversation_members_tbl db') = set (conversation_members_tbl db) \<union> Pair gid ` set us"
    "us \<noteq> [] \<Longrightarrow> gid \<in> set (conversations_tbl db)"
  using assms by (auto simp: mirrorMembers_def set_dedup_seen split: if_splits)

lemma mirror_total: "gid \<in> set (conversations_tbl db) \<Longrightarrow> \<exists>db'. mirrorMembers gid us db = Some db'"
  by (simp add: mirrorMembers_def)

lemma append_members_ok:
  assumes ok: "grp_ok db" and g: "group_exists db gid" and d: "distinct us"
    and fresh: "\<forall>u\<in>set us. \<not> member_exists db gid u"
    and cap: "length (members_of db gid) + length us \<le> MaxMembers"
    and m: "mirrorMembers gid us (db\<lparr>group_members_tbl := group_members_tbl db @ new_members gid now us\<rparr>) = Some db'"
  shows "grp_ok db'"
proof -
  let ?ms = "group_members_tbl db @ new_members gid now us"
  note mi = mirror_Some [OF m, simplified]
  have ge: "group_exists db' = group_exists db" by (auto simp: fun_eq_iff group_exists_def mi)
  have me: "member_exists db' x u \<longleftrightarrow> member_exists db x u \<or> x = gid \<and> u \<in> set us" for x u
    by (auto simp: member_exists_def mi image_Un)
  have mo: "members_of db' x = members_of db x @ (if x = gid then new_members gid now us else [])" for x
    by (simp add: members_of_def mi)
  have "tbl_wf mb_key ?ms"
    using ok d fresh by (auto simp: grp_ok_def tbl_wf_def distinct_map inj_on_def member_exists_def)
  moreover have "Role_Valid RoleMember" by (simp add: Role_Valid_def role_defs)
  moreover have "group_ok db' x" if "group_exists db x" for x
  proof -
    have "group_ok db x" using ok that by (simp add: grp_ok_def)
    then show ?thesis using cap by (auto simp: group_ok_def mo me mi)
  qed
  moreover have "gid \<in> set (conversations_tbl db)" using ok g by (simp add: grp_ok_def group_ok_def)
  ultimately show ?thesis
    using ok g unfolding grp_ok_def ge mi by (auto dest: new_members_set)
qed

lemma AddMembers_Some:
  assumes "pg_AddMembers gid us now db = Some (added, v, db')"
  obtains db2 where "added = dedup_seen (member_exists db gid) {} us" "group_exists db gid"
    "mirrorMembers gid added (db\<lparr>group_members_tbl := group_members_tbl db @ new_members gid now added\<rparr>) = Some db2"
    "bump_version gid id db2 = Some (v, db')"
  using assms by (auto simp: pg_AddMembers_def Let_def new_members_def [symmetric] split: if_splits option.splits)

lemma grp_ok_AddMembers:
  assumes "grp_ok db" "pg_AddMembers gid us now db = Some (added, v, db')"
    "length (members_of db gid) + length us \<le> MaxMembers"
  shows "grp_ok db'"
proof -
  from assms(2) obtain db2 where a: "added = dedup_seen (member_exists db gid) {} us" "group_exists db gid"
    "mirrorMembers gid added (db\<lparr>group_members_tbl := group_members_tbl db @ new_members gid now added\<rparr>) = Some db2"
    "bump_version gid id db2 = Some (v, db')" by (rule AddMembers_Some)
  have "length added \<le> length us" using length_dedup_seen by (simp add: a(1))
  then have "grp_ok db2"
    using assms(1,3) a by (intro append_members_ok [OF _ _ _ _ _ a(3)]) (auto simp: distinct_dedup_seen set_dedup_seen)
  then show ?thesis using a(4) by (rule grp_ok_bump) simp
qed

text \<open>Removing a member that is not the owner.\<close>

lemma members_of_del:
  "members_of (db\<lparr>group_members_tbl := tbl_del mb_key (gid, u) (group_members_tbl db)\<rparr>) x
    = (if x = gid then filter (\<lambda>m. mb_UserID m \<noteq> u) (members_of db gid) else members_of db x)"
  by (auto simp: members_of_def tbl_del_def mb_key_def intro!: filter_cong)

lemma role_of_Some:
  "role_of db gid u = Some r \<longleftrightarrow> (\<exists>m. tbl_get mb_key (gid, u) (group_members_tbl db) = Some m \<and> mb_Role m = r)"
  by (auto simp: role_of_def pg_GetMember_def)

lemma owner_role:
  assumes "tbl_wf mb_key (group_members_tbl db)" "m \<in> set (members_of db gid)"
  shows "role_of db gid (mb_UserID m) = Some (mb_Role m)"
  using assms tbl_get_wf [of mb_key "group_members_tbl db" m]
  by (auto simp: role_of_def pg_GetMember_def members_of_def mb_key_def)

lemma grp_ok_RemoveMember:
  assumes ok: "grp_ok db" and r: "pg_RemoveMember gid u db = Some (v, r, db')"
    and t: "role_of db gid u = Some t" "t \<noteq> RoleOwner"
  shows "grp_ok db'"
proof -
  let ?db = "db\<lparr>group_members_tbl := tbl_del mb_key (gid, u) (group_members_tbl db),
    conversation_members_tbl := tbl_del id (gid, u) (conversation_members_tbl db)\<rparr>"
  have wf: "tbl_wf mb_key (group_members_tbl db)" using ok by (simp add: grp_ok_def)
  have ge: "group_exists ?db = group_exists db" by (simp add: fun_eq_iff group_exists_def)
  have me: "member_exists ?db x y \<longleftrightarrow> member_exists db x y \<and> (x, y) \<noteq> (gid, u)" for x y
    by (auto simp: member_exists_def)
  have mo: "members_of ?db x = (if x = gid then filter (\<lambda>m. mb_UserID m \<noteq> u) (members_of db gid) else members_of db x)" for x
    using members_of_del by (simp add: members_of_def)
  have own: "filter is_owner (filter (\<lambda>m. mb_UserID m \<noteq> u) (members_of db gid)) = filter is_owner (members_of db gid)"
    using owner_role [OF wf] t by (auto simp: is_owner_def intro!: filter_cong)
  have "group_ok ?db x" if "group_exists db x" for x
  proof -
    have "group_ok db x" using ok that by (simp add: grp_ok_def)
    then show ?thesis
      using own by (auto simp: group_ok_def mo me intro: le_trans [OF length_filter_le])
  qed
  then have "grp_ok ?db"
    using ok unfolding grp_ok_def ge by (auto simp: tbl_wf_del)
  then show ?thesis
    using r ok by (auto simp: pg_RemoveMember_def split: if_splits dest: grp_ok_bump)
qed

lemma owners_upd:
  assumes "\<And>m. m \<in> set ms \<Longrightarrow> mb_key m = k \<Longrightarrow> \<not> is_owner m" "r \<noteq> RoleOwner"
  shows "length (filter is_owner (filter (\<lambda>m. mb_GroupID m = x) (tbl_upd mb_key k (\<lambda>m. m\<lparr>mb_Role := r\<rparr>) ms)))
    = length (filter is_owner (filter (\<lambda>m. mb_GroupID m = x) ms))"
  using assms by (induction ms) (auto simp: tbl_upd_def is_owner_def)

lemma grp_ok_SetRole:
  assumes ok: "grp_ok db" and r: "pg_SetRole gid u r db = Inr (v, db')" and a: "Assignable r"
    and o: "role_of db gid actor = Some RoleOwner" "u \<noteq> actor"
  shows "grp_ok db'"
proof -
  let ?up = "tbl_upd mb_key (gid, u) (\<lambda>m. m\<lparr>mb_Role := r\<rparr>) (group_members_tbl db)"
  let ?db = "db\<lparr>group_members_tbl := ?up\<rparr>"
  have wf: "tbl_wf mb_key (group_members_tbl db)" using ok by (simp add: grp_ok_def)
  have keys: "map mb_key ?up = map mb_key (group_members_tbl db)" by (rule map_key_upd) (simp add: mb_key_def)
  have ge: "group_exists ?db = group_exists db" by (simp add: fun_eq_iff group_exists_def)
  have me: "member_exists ?db = member_exists db"
  proof -
    have "mb_key ` set ?up = mb_key ` set (group_members_tbl db)" by (metis keys list.set_map)
    then show ?thesis by (simp add: fun_eq_iff member_exists_def)
  qed
  obtain w where w: "w \<in> set (group_members_tbl db)" "mb_key w = (gid, actor)" "is_owner w"
    using o(1) by (auto simp: role_of_Some is_owner_def dest: tbl_get_Some)
  have no: "\<not> is_owner m" if m: "m \<in> set (group_members_tbl db)" "mb_key m = (gid, u)" for m
  proof
    assume "is_owner m"
    have g: "group_ok db gid" using ok w by (auto simp: grp_ok_def mb_key_def)
    have "{w, m} \<subseteq> set (filter is_owner (members_of db gid))"
      using w m \<open>is_owner m\<close> by (auto simp: members_of_def mb_key_def)
    moreover have "card (set (filter is_owner (members_of db gid))) \<le> 1"
      using g card_length [of "filter is_owner (members_of db gid)"] by (simp add: group_ok_def)
    ultimately have "w = m" by (metis card_le_Suc0_iff_eq One_nat_def insert_subset List.finite_set)
    with w m o(2) show False by simp
  qed
  have "r \<noteq> RoleOwner" using a by (auto simp: Assignable_def role_defs)
  with no have own: "length (filter is_owner (members_of ?db x)) = length (filter is_owner (members_of db x))" for x
    using owners_upd [of "group_members_tbl db" "(gid, u)" r x] by (simp add: members_of_def del: filter_filter)
  have len: "length (members_of ?db x) = length (members_of db x)" for x
    unfolding members_of_def by (induction "group_members_tbl db") (auto simp: tbl_upd_def filter_map comp_def intro!: arg_cong [where f = length] filter_cong)
  have "group_ok ?db x" if "group_exists db x" for x
    using ok that own [of x] len [of x] by (simp add: grp_ok_def group_ok_def me)
  moreover have "tbl_wf mb_key ?up" using wf by (intro tbl_wf_upd) (auto simp: mb_key_def)
  moreover have "Role_Valid r" using a by (auto simp: Assignable_def Role_Valid_def role_defs)
  ultimately have "grp_ok ?db"
    using ok unfolding grp_ok_def ge by (auto simp: set_tbl_upd)
  then show ?thesis
    using r by (auto simp: pg_SetRole_def split: if_splits option.splits dest: grp_ok_bump)
qed

lemma grp_ok_DeleteGroup:
  assumes ok: "grp_ok db" and d: "pg_DeleteGroup gid db = Some db'"
  shows "grp_ok db'"
proof -
  have db': "db' = db\<lparr>groups_tbl := tbl_del gr_ID gid (groups_tbl db),
             group_members_tbl := filter (\<lambda>m. mb_GroupID m \<noteq> gid) (group_members_tbl db),
             invite_links_tbl := filter (\<lambda>l. il_GroupID l \<noteq> gid) (invite_links_tbl db),
             conversations_tbl := filter (\<lambda>c. c \<noteq> gid) (conversations_tbl db),
             conversation_members_tbl := filter (\<lambda>p. fst p \<noteq> gid) (conversation_members_tbl db)\<rparr>"
    using d by (auto simp: pg_DeleteGroup_def split: if_splits)
  have ge: "group_exists db' x \<longleftrightarrow> group_exists db x \<and> x \<noteq> gid" for x by (auto simp: group_exists_def db')
  have mo: "x \<noteq> gid \<Longrightarrow> members_of db' x = members_of db x" for x
    by (auto simp: members_of_def db' intro: filter_cong)
  have me: "member_exists db' x u \<longleftrightarrow> member_exists db x u \<and> x \<noteq> gid" for x u
    by (auto simp: member_exists_def db' mb_key_def)
  have "group_ok db' x" if "group_exists db x" "x \<noteq> gid" for x
    using ok that by (auto simp: grp_ok_def group_ok_def mo me) (auto simp: db')
  moreover have "tbl_wf gr_ID (groups_tbl db')" "tbl_wf mb_key (group_members_tbl db')"
      "tbl_wf il_Token (invite_links_tbl db')"
    using ok by (auto simp: grp_ok_def db' tbl_wf_del) (auto simp: tbl_wf_def distinct_map_filter)
  ultimately show ?thesis
    using ok unfolding grp_ok_def ge by (auto simp: db')
qed

lemma grp_ok_invites:
  assumes ok: "grp_ok db" and w: "tbl_wf il_Token rows"
    and l: "\<forall>l\<in>set rows. group_exists db (il_GroupID l) \<and> invite_ok l"
  shows "grp_ok (db\<lparr>invite_links_tbl := rows\<rparr>)"
proof -
  let ?db = "db\<lparr>invite_links_tbl := rows\<rparr>"
  have "group_exists ?db = group_exists db" "members_of ?db = members_of db" "member_exists ?db = member_exists db"
    by (simp_all add: fun_eq_iff group_exists_def members_of_def member_exists_def)
  with assms show ?thesis unfolding grp_ok_def group_ok_def by simp
qed

lemma grp_ok_CreateInvite:
  assumes "grp_ok db" "pg_CreateInvite l db = Some db'"
  shows "grp_ok db'"
proof -
  let ?l = "l\<lparr>il_Uses := 0, il_RevokedAt := None\<rparr>"
  have db': "db' = db\<lparr>invite_links_tbl := invite_links_tbl db @ [?l]\<rparr>"
    and l: "group_exists db (il_GroupID l)" "il_Token l \<notin> il_Token ` set (invite_links_tbl db)"
    using assms(2) by (auto simp: pg_CreateInvite_def tbl_ins_def split: if_splits)
  have "invite_ok ?l" by (cases "il_MaxUses l") (simp_all add: invite_ok_def)
  moreover have "tbl_wf il_Token (invite_links_tbl db @ [?l])"
    using assms(1) l(2) by (simp add: grp_ok_def tbl_wf_def)
  ultimately show ?thesis
    unfolding db' using assms(1) l(1) by (intro grp_ok_invites) (auto simp: grp_ok_def)
qed

lemma grp_ok_upd_invite:
  assumes "grp_ok db" "\<And>l. il_Token (f l) = il_Token l" "\<And>l. il_GroupID (f l) = il_GroupID l"
    "\<And>l. l \<in> set (invite_links_tbl db) \<Longrightarrow> il_Token l = tok \<Longrightarrow> invite_ok (f l)"
  shows "grp_ok (db\<lparr>invite_links_tbl := tbl_upd il_Token tok f (invite_links_tbl db)\<rparr>)"
  using assms by (intro grp_ok_invites) (auto simp: grp_ok_def set_tbl_upd intro: tbl_wf_upd)

lemma grp_ok_RevokeInvite:
  assumes "grp_ok db" "pg_RevokeInvite tok now db = Some db'"
  shows "grp_ok db'"
proof -
  have "invite_ok (l\<lparr>il_RevokedAt := Some now\<rparr>)" if "l \<in> set (invite_links_tbl db)" for l
  proof -
    have "invite_ok l" using assms(1) that by (simp add: grp_ok_def)
    then show ?thesis by (cases "il_MaxUses l") (simp_all add: invite_ok_def)
  qed
  then have "grp_ok (db\<lparr>invite_links_tbl := tbl_upd il_Token tok (\<lambda>l. l\<lparr>il_RevokedAt := Some now\<rparr>) (invite_links_tbl db)\<rparr>)"
    by (intro grp_ok_upd_invite [OF assms(1)]) auto
  then show ?thesis using assms(2) by (simp add: pg_RevokeInvite_def split: if_splits)
qed

lemma Join_Inr:
  assumes "pg_JoinViaInvite tok u maxMembers now db = Inr (g, v, db')"
  obtains l row db2 where "pg_GetInvite db tok = Some l" "invite_usable now l"
    "tbl_get gr_ID (il_GroupID l) (groups_tbl db) = Some row" "\<not> member_exists db (il_GroupID l) u"
    "length (members_of db (il_GroupID l)) < maxMembers"
    "mirrorMembers (il_GroupID l) [u]
       (db\<lparr>group_members_tbl := group_members_tbl db @ new_members (il_GroupID l) now [u]\<rparr>) = Some db2"
    "bump_version (il_GroupID l) id
       (db2\<lparr>invite_links_tbl := tbl_upd il_Token tok (\<lambda>l. l\<lparr>il_Uses := il_Uses l + 1\<rparr>) (invite_links_tbl db2)\<rparr>)
       = Some (v, db')"
    "gr_ID g = il_GroupID l" "gr_Version g = v"
proof -
  from assms obtain l row db2 where l: "pg_GetInvite db tok = Some l" "invite_usable now l"
    and row: "tbl_get gr_ID (il_GroupID l) (groups_tbl db) = Some row"
    and rest: "\<not> member_exists db (il_GroupID l) u" "length (members_of db (il_GroupID l)) < maxMembers"
    "mirrorMembers (il_GroupID l) [u]
       (db\<lparr>group_members_tbl := group_members_tbl db @ new_members (il_GroupID l) now [u]\<rparr>) = Some db2"
    "bump_version (il_GroupID l) id
       (db2\<lparr>invite_links_tbl := tbl_upd il_Token tok (\<lambda>l. l\<lparr>il_Uses := il_Uses l + 1\<rparr>) (invite_links_tbl db2)\<rparr>)
       = Some (v, db')"
    and g: "gr_ID g = gr_ID row" "gr_Version g = v"
    by (auto simp: pg_JoinViaInvite_def Let_def pg_CountMembers_def new_members_def
        split: option.splits if_splits prod.splits)
  from g(1) tbl_get_key [OF row] have "gr_ID g = il_GroupID l" by simp
  from that [OF l row rest this g(2)] show thesis .
qed

lemma grp_ok_Join:
  assumes ok: "grp_ok db" and j: "pg_JoinViaInvite tok u MaxMembers now db = Inr (g, v, db')"
  shows "grp_ok db'"
proof -
  from j obtain l row db2 where l: "pg_GetInvite db tok = Some l" "invite_usable now l"
    and row: "tbl_get gr_ID (il_GroupID l) (groups_tbl db) = Some row"
    and m: "\<not> member_exists db (il_GroupID l) u" "length (members_of db (il_GroupID l)) < MaxMembers"
      "mirrorMembers (il_GroupID l) [u]
         (db\<lparr>group_members_tbl := group_members_tbl db @ new_members (il_GroupID l) now [u]\<rparr>) = Some db2"
    and b: "bump_version (il_GroupID l) id
       (db2\<lparr>invite_links_tbl := tbl_upd il_Token tok (\<lambda>l. l\<lparr>il_Uses := il_Uses l + 1\<rparr>) (invite_links_tbl db2)\<rparr>)
       = Some (v, db')"
    by (rule Join_Inr)
  have "group_exists db (il_GroupID l)" using tbl_get_mem [OF row] by (simp add: group_exists_def)
  then have ok2: "grp_ok db2" using ok m by (intro append_members_ok [OF _ _ _ _ _ m(3)]) auto
  have "x = l" if "x \<in> set (invite_links_tbl db2)" "il_Token x = tok" for x
    using that mirror_Some(3) [OF m(3)] l(1) ok tbl_get_wf [of il_Token "invite_links_tbl db" x]
    by (auto simp: pg_GetInvite_def grp_ok_def)
  moreover have "invite_ok (l\<lparr>il_Uses := il_Uses l + 1\<rparr>)"
    using l(2) by (auto simp: invite_usable_def invite_ok_def split: option.splits)
  ultimately have "grp_ok (db2\<lparr>invite_links_tbl := tbl_upd il_Token tok (\<lambda>l. l\<lparr>il_Uses := il_Uses l + 1\<rparr>) (invite_links_tbl db2)\<rparr>)"
    by (intro grp_ok_upd_invite [OF ok2]) auto
  then show ?thesis using b by (rule grp_ok_bump) simp
qed

lemma Create_Some:
  assumes "grp_ok db" "pg_CreateGroup g ms db = Some db'" "\<forall>m\<in>set ms. mb_GroupID m = gr_ID g"
  shows "\<not> group_exists db (gr_ID g)" "groups_tbl db' = groups_tbl db @ [g]"
    "group_members_tbl db' = group_members_tbl db @ ms" "tbl_wf mb_key (group_members_tbl db')"
    "invite_links_tbl db' = invite_links_tbl db" "set (conversations_tbl db') = insert (gr_ID g) (set (conversations_tbl db))"
    "set (conversation_members_tbl db') = set (conversation_members_tbl db) \<union> Pair (gr_ID g) ` set (map mb_UserID ms)"
proof -
  let ?db = "db\<lparr>groups_tbl := groups_tbl db @ [g], group_members_tbl := group_members_tbl db @ ms,
      conversations_tbl := (if gr_ID g \<in> set (conversations_tbl db) then conversations_tbl db
                            else conversations_tbl db @ [gr_ID g])\<rparr>"
  have m: "gr_ID g \<notin> gr_ID ` set (groups_tbl db)" "tbl_wf mb_key (group_members_tbl db @ ms)"
    "mirrorMembers (gr_ID g) (map mb_UserID ms) ?db = Some db'"
    using assms(2) by (auto simp: pg_CreateGroup_def Let_def tbl_ins_def split: if_splits)
  note mi = mirror_Some [OF m(3), simplified]
  show "\<not> group_exists db (gr_ID g)" using m(1) by (simp add: group_exists_def)
  show "groups_tbl db' = groups_tbl db @ [g]" "group_members_tbl db' = group_members_tbl db @ ms"
    "invite_links_tbl db' = invite_links_tbl db" using mi by simp_all
  show "tbl_wf mb_key (group_members_tbl db')" using m(2) mi by simp
  show "set (conversations_tbl db') = insert (gr_ID g) (set (conversations_tbl db))" using mi by auto
  show "set (conversation_members_tbl db') = set (conversation_members_tbl db) \<union> Pair (gr_ID g) ` set (map mb_UserID ms)"
    using mi by simp
qed

lemma grp_ok_CreateGroup:
  assumes ok: "grp_ok db"
    and c: "pg_CreateGroup g (\<lparr>mb_GroupID = gr_ID g, mb_UserID = actor, mb_Role = RoleOwner, mb_JoinedAt = now\<rparr>
      # new_members (gr_ID g) now us) db = Some db'"
    and cap: "1 + length us \<le> MaxMembers"
  shows "grp_ok db'"
proof -
  let ?o = "\<lparr>mb_GroupID = gr_ID g, mb_UserID = actor, mb_Role = RoleOwner, mb_JoinedAt = now\<rparr>"
  have g: "\<forall>m\<in>set (?o # new_members (gr_ID g) now us). mb_GroupID m = gr_ID g"
    by (auto dest: new_members_set)
  note cr = Create_Some [OF ok c g]
  have none: "\<not> member_exists db (gr_ID g) u" "members_of db (gr_ID g) = []" "gr_ID g \<notin> set (conversations_tbl db)" for u
    using ok cr(1) by (auto simp: grp_ok_def member_exists_def members_of_def mb_key_def filter_empty_conv)
  then have nopair: "(gr_ID g, u) \<notin> set (conversation_members_tbl db)" for u using ok by (force simp: grp_ok_def)
  have ge: "group_exists db' x \<longleftrightarrow> group_exists db x \<or> x = gr_ID g" for x by (auto simp: group_exists_def cr)
  have me: "member_exists db' x u \<longleftrightarrow> member_exists db x u \<or> x = gr_ID g \<and> (u = actor \<or> u \<in> set us)" for x u
    by (auto simp: member_exists_def cr image_Un mb_key_def new_members_def image_iff)
  have mo: "members_of db' x = (if x = gr_ID g then ?o # new_members (gr_ID g) now us else members_of db x)" for x
    using none(2) by (simp add: members_of_def cr)
  have "group_ok db' x" if "group_exists db' x" for x
  proof (cases "x = gr_ID g")
    case True
    have "filter is_owner (?o # new_members (gr_ID g) now us) = [?o]" by (simp add: is_owner_def)
    with True cap nopair none show ?thesis by (auto simp: group_ok_def mo me cr)
  next
    case False
    with that ge have "group_ok db x" using ok by (simp add: grp_ok_def)
    with False show ?thesis by (auto simp: group_ok_def mo me cr)
  qed
  moreover have "Role_Valid RoleMember" "Role_Valid RoleOwner" by (simp_all add: Role_Valid_def role_defs)
  ultimately show ?thesis
    using ok cr(1,4) unfolding grp_ok_def ge
    by (auto simp: cr tbl_wf_def group_exists_def dest: new_members_set)
qed

section \<open>Requests\<close>

lemma grp_trans_ok: "grp_trans actor nid db db' \<Longrightarrow> grp_ok db \<Longrightarrow> grp_ok db'"
proof (induction rule: grp_trans.induct)
  case (create g now us db db')
  then show ?case using grp_ok_CreateGroup by blast
next
  case (info gid upd db v db')
  then show ?case by (blast intro: grp_ok_bump)
qed (auto intro: grp_ok_AddMembers grp_ok_RemoveMember grp_ok_SetRole grp_ok_DeleteGroup grp_ok_CreateInvite
    grp_ok_RevokeInvite grp_ok_Join)

interpretation grp_inv: invariant_system grp_step grp_ok
proof
  fix db and x :: "grp_env \<times> identity \<times> grp_req"
  obtain e i q where "x = (e, i, q)" by (cases x)
  then show "grp_ok db \<Longrightarrow> grp_ok (grp_step db x)" using grp_trans_ok [OF grp_step_trans] by simp
qed

lemma grp_ok_empty: "grp_ok empty_grp_db"
  by (simp add: grp_ok_def empty_grp_db_def group_exists_def)

section \<open>How roles change\<close>

lemma role_of_get: "role_of db gid u = map_option mb_Role (tbl_get mb_key (gid, u) (group_members_tbl db))"
  by (simp add: role_of_def pg_GetMember_def)

lemma role_of_append:
  "group_members_tbl db' = group_members_tbl db @ ms \<Longrightarrow> role_of db gid u = Some r \<Longrightarrow> role_of db' gid u = Some r"
  by (auto simp: role_of_get tbl_get_append)

lemma role_of_same: "group_members_tbl db' = group_members_tbl db \<Longrightarrow> role_of db' = role_of db"
  by (simp add: fun_eq_iff role_of_get)

lemma role_of_Remove:
  assumes "pg_RemoveMember gid u db = Some (v, r, db')"
  shows "role_of db' x y = (if (x, y) = (gid, u) \<and> r then None else role_of db x y)"
proof (cases "member_exists db gid u")
  case True
  with assms have "group_members_tbl db' = tbl_del mb_key (gid, u) (group_members_tbl db)" "r"
    by (auto simp: pg_RemoveMember_def dest: bump_Some(4))
  then show ?thesis by (simp add: role_of_get tbl_get_del)
qed (use assms in \<open>auto simp: pg_RemoveMember_def\<close>)

lemma role_of_SetRole:
  assumes "pg_SetRole gid u r db = Inr (v, db')"
  shows "role_of db' x y = (if (x, y) = (gid, u) then Some r else role_of db x y)"
proof -
  have "member_exists db gid u"
    and t: "group_members_tbl db' = tbl_upd mb_key (gid, u) (\<lambda>m. m\<lparr>mb_Role := r\<rparr>) (group_members_tbl db)"
    using assms by (auto simp: pg_SetRole_def split: if_splits option.splits dest: bump_Some(4))
  then obtain m where "tbl_get mb_key (gid, u) (group_members_tbl db) = Some m"
    by (cases "tbl_get mb_key (gid, u) (group_members_tbl db)") (auto simp: member_exists_def tbl_get_None)
  with t show ?thesis by (simp add: role_of_get tbl_get_upd mb_key_def)
qed

lemma AddMembers_tbl: "pg_AddMembers gid us now db = Some (added, v, db') \<Longrightarrow>
    \<exists>ms. group_members_tbl db' = group_members_tbl db @ ms"
  by (elim AddMembers_Some) (auto simp: mirror_Some(2) dest!: bump_Some(4))

lemma Join_tbl: "pg_JoinViaInvite tok u n now db = Inr (g, v, db') \<Longrightarrow>
    \<exists>ms. group_members_tbl db' = group_members_tbl db @ ms"
  by (elim Join_Inr) (auto simp: mirror_Some(2) dest!: bump_Some(4))

lemma Create_tbl: "pg_CreateGroup g ms db = Some db' \<Longrightarrow> group_members_tbl db' = group_members_tbl db @ ms"
  by (auto simp: pg_CreateGroup_def Let_def mirror_Some(2) split: option.splits if_splits)

lemma Invite_tbl:
  "pg_CreateInvite l db = Some db' \<Longrightarrow> group_members_tbl db' = group_members_tbl db"
  "pg_RevokeInvite tok now db = Some db' \<Longrightarrow> group_members_tbl db' = group_members_tbl db"
  by (auto simp: pg_CreateInvite_def pg_RevokeInvite_def split: if_splits option.splits)

lemma Delete_role:
  assumes "pg_DeleteGroup gid db = Some db'"
  shows "x \<noteq> gid \<Longrightarrow> role_of db' x u = role_of db x u" "\<not> group_exists db' gid"
proof -
  have "x \<noteq> gid \<Longrightarrow> tbl_get mb_key (x, u) (filter (\<lambda>m. mb_GroupID m \<noteq> gid) ms) = tbl_get mb_key (x, u) ms" for ms
    by (induction ms) (auto simp: tbl_get_Cons mb_key_def)
  then show "x \<noteq> gid \<Longrightarrow> role_of db' x u = role_of db x u"
    using assms by (auto simp: pg_DeleteGroup_def role_of_get split: if_splits)
  show "\<not> group_exists db' gid"
    using assms by (auto simp: pg_DeleteGroup_def group_exists_def split: if_splits)
qed

text \<open>
  What can happen to a member's role in one request: nothing; the group's owner deletes the group; the member,
  not the owner, leaves or is removed by someone whose role allows it; or the owner gives another member a role.
\<close>

definition role_change :: "grp_db \<Rightarrow> grp_db \<Rightarrow> string \<Rightarrow> string \<Rightarrow> string \<Rightarrow> role \<Rightarrow> bool" where
  "role_change db db' actor gid u r \<longleftrightarrow>
     role_of db' gid u = Some r \<or>
     \<not> group_exists db' gid \<and> role_of db gid actor = Some RoleOwner \<or>
     role_of db' gid u = None \<and> r \<noteq> RoleOwner \<and>
       (u = actor \<or> (\<exists>a. role_of db gid actor = Some a \<and> CanRemove a r)) \<or>
     (\<exists>r'. role_of db' gid u = Some r' \<and> Assignable r') \<and> role_of db gid actor = Some RoleOwner \<and> u \<noteq> actor"

lemma grp_trans_role:
  assumes "grp_trans actor nid db db'" "role_of db gid u = Some r"
  shows "role_change db db' actor gid u r"
  using assms
proof (induction rule: grp_trans.induct)
  case (create g now us db db')
  then show ?case using role_of_append [OF Create_tbl] by (auto simp: role_change_def)
next
  case (info gid' upd db v db')
  then show ?case using role_of_same [OF bump_Some(4)] by (auto simp: role_change_def)
next
  case (add gid' us now db added v db')
  then show ?case using role_of_append AddMembers_tbl by (metis role_change_def)
next
  case (remove gid' u' db v r' db' t)
  then show ?case using role_of_Remove [OF remove.hyps(1), of gid u] by (auto simp: role_change_def split: if_splits)
next
  case (role gid' u' r' db v db')
  then show ?case using role_of_SetRole [OF role.hyps(1), of gid u] by (auto simp: role_change_def split: if_splits)
next
  case (delete gid' db db')
  then show ?case using Delete_role [OF delete.hyps(1)] by (cases "gid = gid'") (auto simp: role_change_def)
next
  case (join tok now db g v db')
  then show ?case using role_of_append Join_tbl by (metis role_change_def)
qed (auto simp: role_change_def role_of_same [OF Invite_tbl(1)] role_of_same [OF Invite_tbl(2)])

end
