(* ===== verification/Paging.thy ===== *)
theory Paging
  imports Prelude "HOL-Library.Char_ord" "HOL-Library.List_Lexorder"
begin

text \<open>
  A client that follows the cursors of a list endpoint until a page names no next one. \<open>keyset_complete\<close> is for
  endpoints that return the rows after a cursor in key order, one page at a time: the pages are all the rows.
\<close>

fun all_pages :: "(string \<Rightarrow> ('v list \<times> string) result) \<Rightarrow> nat \<Rightarrow> string \<Rightarrow> 'v list result option" where
  "all_pages fetch 0 cursor = None"
| "all_pages fetch (Suc n) cursor =
     (case fetch cursor of
        Inl e \<Rightarrow> Some (Inl e)
      | Inr (vs, nxt) \<Rightarrow>
          if nxt = [] then Some (Inr vs)
          else map_option (map_sum id (\<lambda>ws. vs @ ws)) (all_pages fetch n nxt))"

text \<open>The rows after a cursor, at most \<open>limit\<close> of them, and the key of the last one when there are more.\<close>

definition keyset_page :: "('r \<Rightarrow> string) \<Rightarrow> ('r \<Rightarrow> 'v) \<Rightarrow> nat \<Rightarrow> 'r list \<Rightarrow> string \<Rightarrow> 'v list \<times> string" where
  "keyset_page key view limit rows cursor =
     (let rest = filter (\<lambda>r. cursor = [] \<or> key r > cursor) rows
      in (map view (take limit rest), if length rest > limit then key (rest ! (limit - 1)) else []))"

lemma filter_after:
  fixes key :: "'r \<Rightarrow> 'k :: linorder"
  assumes "sorted_wrt (\<lambda>a b. key a < key b) rows" "k < length rows"
  shows "filter (\<lambda>r. key r > key (rows ! k)) rows = drop (Suc k) rows"
proof -
  let ?P = "\<lambda>r. key r > key (rows ! k)"
  have "\<forall>r\<in>set (take (Suc k) rows). \<not> ?P r"
  proof
    fix r assume "r \<in> set (take (Suc k) rows)"
    then obtain i where "i \<le> k" "r = rows ! i" using assms(2) by (auto simp: in_set_conv_nth less_Suc_eq_le)
    then show "\<not> ?P r" using sorted_wrt_nth_less [OF assms(1), of i k] assms(2) by (cases "i = k") auto
  qed
  moreover have "\<forall>r\<in>set (drop (Suc k) rows). ?P r"
    using sorted_wrt_nth_less [OF assms(1), of k] assms(2) by (auto simp: in_set_conv_nth)
  ultimately have "filter ?P (take (Suc k) rows @ drop (Suc k) rows) = drop (Suc k) rows"
    by (simp only: filter_append filter_False filter_True append_Nil)
  then show ?thesis by simp
qed

lemma keyset_from:
  assumes s: "sorted_wrt (\<lambda>a b. key a < key b) rows" and ne: "\<forall>r\<in>set rows. key r \<noteq> []" and l: "0 < limit"
    and f: "\<And>c. fetch c = Inr (keyset_page key view limit rows c)"
    and c: "filter (\<lambda>r. c = [] \<or> key r > c) rows = drop k rows" and n: "length rows - k < n"
  shows "all_pages fetch n c = Some (Inr (map view (drop k rows)))"
  using c n
proof (induction n arbitrary: c k)
  case (Suc n)
  show ?case
  proof (cases "length (drop k rows) > limit")
    case True
    let ?j = "k + limit - 1"
    have j: "?j < length rows" "Suc ?j = k + limit" using True l by auto
    have last: "drop k rows ! (limit - 1) = rows ! ?j" using True l by simp
    then have "fetch c = Inr (map view (take limit (drop k rows)), key (rows ! ?j))"
      using f [of c] Suc.prems(1) True by (simp add: keyset_page_def)
    moreover have "key (rows ! ?j) \<noteq> []" using ne j by simp
    moreover have "all_pages fetch n (key (rows ! ?j)) = Some (Inr (map view (drop (k + limit) rows)))"
    proof (rule Suc.IH)
      show "filter (\<lambda>r. key (rows ! ?j) = [] \<or> key (rows ! ?j) < key r) rows = drop (k + limit) rows"
        using filter_after [OF s j(1)] j(2) \<open>key (rows ! ?j) \<noteq> []\<close> by simp
      show "length rows - (k + limit) < n" using Suc.prems(2) True l by simp
    qed
    moreover have "map view (take limit (drop k rows)) @ map view (drop (k + limit) rows) = map view (drop k rows)"
      by (metis add.commute append_take_drop_id drop_drop map_append)
    ultimately show ?thesis by simp
  qed (use f [of c] Suc.prems(1) in \<open>simp add: keyset_page_def\<close>)
qed simp

lemma keyset_complete:
  assumes "sorted_wrt (\<lambda>a b. key a < key b) rows" "\<forall>r\<in>set rows. key r \<noteq> []" "0 < limit"
    "\<And>c. fetch c = Inr (keyset_page key view limit rows c)"
  shows "all_pages fetch (Suc (length rows)) [] = Some (Inr (map view rows))"
  using keyset_from [OF assms, of "[]" 0 "Suc (length rows)"] by (simp del: all_pages.simps)

lemma sorted_distinct_key:
  "distinct (map key xs) \<Longrightarrow> sorted_wrt (\<lambda>a b. key a < key b) (sort_key key xs)"
proof -
  assume "distinct (map key xs)"
  then have "sorted_wrt (<) (map key (sort_key key xs))"
    by (simp add: strict_sorted_iff distinct_map)
  then show ?thesis by (simp add: sorted_wrt_map)
qed

end
