(* ===== verification/GroupCache.thy ===== *)
theory GroupCache
  imports GroupInv Paging
begin

text \<open>
  Group versions and the membership cache. Every change of a group's membership raises its version, so a cached
  set tagged with the current version is the current set; \<open>ms_run_ok\<close> is that, over any mix of group requests,
  cached reads and invalidations. The last section follows the cursors of the member list.
\<close>

section \<open>Versions\<close>

definition group_at :: "grp_db \<Rightarrow> string \<Rightarrow> group option" where
  "group_at db gid = tbl_get gr_ID gid (groups_tbl db)"

definition member_set :: "grp_db \<Rightarrow> string \<Rightarrow> string set" where
  "member_set db gid = mb_UserID ` set (members_of db gid)"

lemma group_at_exists: "group_exists db gid \<longleftrightarrow> group_at db gid \<noteq> None"
  by (auto simp: group_exists_def group_at_def tbl_get_None)

lemma bump_version_at:
  assumes "bump_version gid upd db = Some (v, db')" "\<And>g. gr_ID (upd g) = gr_ID g"
    "group_at db x = Some g" "group_at db' x = Some g'"
  shows "gr_Version g' = (if x = gid then gr_Version g + 1 else gr_Version g)"
  using bump_Some(9) [OF assms(1,2), of x] assms(3,4) by (auto simp: group_at_def split: if_splits)

lemma bump_other: "bump_version gid upd db = Some (v, db') \<Longrightarrow> (\<And>g. gr_ID (upd g) = gr_ID g) \<Longrightarrow> x \<noteq> gid \<Longrightarrow>
    group_at db' x = group_at db x"
  using bump_Some(9) [of gid upd db v db' x] by (simp add: group_at_def)

text \<open>A step of a group that stays: either its version rises, or version and members are what they were.\<close>

definition ver_step :: "grp_db \<Rightarrow> grp_db \<Rightarrow> string \<Rightarrow> bool" where
  "ver_step db db' x \<longleftrightarrow> (\<forall>g g'. group_at db x = Some g \<longrightarrow> group_at db' x = Some g' \<longrightarrow>
     gr_Version g < gr_Version g' \<or> gr_Version g = gr_Version g' \<and> member_set db' x = member_set db x)"

lemma ver_step_bump:
  assumes "bump_version gid upd db1 = Some (v, db')" "\<And>g. gr_ID (upd g) = gr_ID g"
    "groups_tbl db1 = groups_tbl db" "x \<noteq> gid \<Longrightarrow> members_of db1 x = members_of db x"
  shows "ver_step db db' x"
proof -
  have "group_at db1 = group_at db" by (simp add: fun_eq_iff group_at_def assms(3))
  then show ?thesis
    using bump_version_at [OF assms(1,2)] bump_Some(3) [OF assms(1,2)] assms(4)
    by (auto simp: ver_step_def member_set_def split: if_splits)
qed

lemma ver_step_same:
  "groups_tbl db' = groups_tbl db \<Longrightarrow> group_members_tbl db' = group_members_tbl db \<Longrightarrow> ver_step db db' x"
  by (auto simp: ver_step_def group_at_def member_set_def members_of_def)

lemma ver_step_add: "pg_AddMembers gid us now db = Some (added, v, db') \<Longrightarrow> ver_step db db' x"
  by (elim AddMembers_Some, rule ver_step_bump, assumption) (auto simp: mirror_Some members_of_def)

lemma ver_step_join: "pg_JoinViaInvite tok u n now db = Inr (g, v, db') \<Longrightarrow> ver_step db db' x"
  by (elim Join_Inr, rule ver_step_bump, assumption) (auto simp: mirror_Some members_of_def)

lemma ver_step_remove: "pg_RemoveMember gid u db = Some (v, r, db') \<Longrightarrow> ver_step db db' x"
  by (auto simp: pg_RemoveMember_def ver_step_same split: if_splits
      intro!: ver_step_bump [where gid = gid and upd = id]) (simp add: members_of_def tbl_del_def mb_key_def, metis (mono_tags, lifting) filter_cong)

lemma ver_step_role:
  assumes "pg_SetRole gid u r db = Inr (v, db')"
  shows "ver_step db db' x"
proof -
  let ?db = "db\<lparr>group_members_tbl := tbl_upd mb_key (gid, u) (\<lambda>m. m\<lparr>mb_Role := r\<rparr>) (group_members_tbl db)\<rparr>"
  have b: "bump_version gid id ?db = Some (v, db')"
    using assms by (auto simp: pg_SetRole_def split: if_splits option.splits)
  have "x \<noteq> gid \<Longrightarrow> filter (\<lambda>m. mb_GroupID m = x) (tbl_upd mb_key (gid, u) f ms) = filter (\<lambda>m. mb_GroupID m = x) ms"
    if "\<And>m. mb_GroupID (f m) = mb_GroupID m" for f ms
    using that by (induction ms) (auto simp: tbl_upd_def mb_key_def)
  then show ?thesis
    by (intro ver_step_bump [OF b]) (auto simp: members_of_def)
qed

lemma ver_step_delete:
  assumes "pg_DeleteGroup gid db = Some db'"
  shows "ver_step db db' x"
proof (cases "x = gid")
  case True
  then show ?thesis
    using Delete_role(2) [OF assms] by (auto simp: ver_step_def group_at_exists)
next
  case False
  then have "group_at db' x = group_at db x" "members_of db' x = members_of db x"
    using assms by (auto simp: pg_DeleteGroup_def group_at_def tbl_get_del members_of_def split: if_splits
        intro: filter_cong)
  then show ?thesis by (auto simp: ver_step_def member_set_def)
qed

lemma ver_step_create:
  assumes "pg_CreateGroup g ms db = Some db'" "\<forall>m\<in>set ms. mb_GroupID m = gr_ID g"
  shows "ver_step db db' x"
proof -
  have new: "gr_ID g \<notin> gr_ID ` set (groups_tbl db)" and t: "groups_tbl db' = groups_tbl db @ [g]"
    using assms(1) by (auto simp: pg_CreateGroup_def Let_def tbl_ins_def mirror_Some split: if_splits)
  show ?thesis
  proof (cases "group_at db x")
    case (Some a)
    with new have "x \<noteq> gr_ID g" by (auto simp: group_at_def dest: tbl_get_mem)
    then have "members_of db' x = members_of db x"
      using assms(2) by (auto simp: members_of_def Create_tbl [OF assms(1)] filter_empty_conv)
    moreover have "group_at db' x = Some a" using Some by (simp add: group_at_def t tbl_get_append)
    ultimately show ?thesis using Some by (simp add: ver_step_def member_set_def)
  qed (simp add: ver_step_def)
qed

lemma grp_trans_ver: "grp_trans actor nid db db' \<Longrightarrow> ver_step db db' x"
proof (induction rule: grp_trans.induct)
  case (create g now us db db')
  then show ?case by (intro ver_step_create) (auto dest: new_members_set)
next
  case (info gid upd db v db')
  then show ?case using ver_step_bump [OF info.hyps(1)] by simp
next
  case (invite l db db')
  then show ?case by (intro ver_step_same) (auto simp: pg_CreateInvite_def split: if_splits option.splits)
next
  case (revoke tok now db db')
  then show ?case by (intro ver_step_same) (auto simp: pg_RevokeInvite_def split: if_splits)
qed (auto intro: ver_step_same ver_step_add ver_step_remove ver_step_role ver_step_delete ver_step_join)

section \<open>Ids of groups\<close>

lemma group_exists_groups: "groups_tbl db' = groups_tbl db \<Longrightarrow> group_exists db' = group_exists db"
  by (simp add: fun_eq_iff group_exists_def)

lemma grp_trans_new: "grp_trans actor nid db db' \<Longrightarrow> group_exists db' x \<Longrightarrow> group_exists db x \<or> x = nid"
proof (induction rule: grp_trans.induct)
  case (create g now us db db')
  then have "groups_tbl db' = groups_tbl db @ [g]"
    by (auto simp: pg_CreateGroup_def Let_def tbl_ins_def mirror_Some split: if_splits)
  with create show ?case by (auto simp: group_exists_def)
next
  case (info gid upd db v db')
  then show ?case using bump_Some(2) [OF info.hyps(1)] by simp
next
  case (add gid us now db added v db')
  from add.hyps(1) obtain db2 where "groups_tbl db2 = groups_tbl db" "bump_version gid id db2 = Some (v, db')"
  proof (rule AddMembers_Some)
    fix db2
    assume m: "mirrorMembers gid added (db\<lparr>group_members_tbl := group_members_tbl db @ new_members gid now added\<rparr>) = Some db2"
      and b: "bump_version gid id db2 = Some (v, db')"
    from mirror_Some(1) [OF m] have "groups_tbl db2 = groups_tbl db" by simp
    then show thesis using b by (rule that)
  qed
  then have "group_exists db' = group_exists db" using bump_Some(2) [of gid id db2 v db'] group_exists_groups [of db2 db] by simp
  with add.prems show ?case by simp
next
  case (join tok now db g v db')
  from join.hyps(1) obtain db2 and l :: invite_link where "groups_tbl db2 = groups_tbl db" "bump_version (il_GroupID l) id db2 = Some (v, db')"
  proof (rule Join_Inr)
    fix l :: invite_link and db2 :: grp_db
    let ?db = "db2\<lparr>invite_links_tbl := tbl_upd il_Token tok (\<lambda>l. l\<lparr>il_Uses := il_Uses l + 1\<rparr>) (invite_links_tbl db2)\<rparr>"
    assume "mirrorMembers (il_GroupID l) [actor] (db\<lparr>group_members_tbl := group_members_tbl db @ new_members (il_GroupID l) now [actor]\<rparr>) = Some db2"
      and b: "bump_version (il_GroupID l) id ?db = Some (v, db')"
    then have "groups_tbl ?db = groups_tbl db" by (simp add: mirror_Some(1))
    then show thesis using b by (rule that)
  qed
  then have "group_exists db' = group_exists db"
    using bump_Some(2) [of "il_GroupID l" id db2 v db'] group_exists_groups [of db2 db] by simp
  with join.prems show ?case by simp
qed (auto simp: pg_RemoveMember_def pg_SetRole_def pg_DeleteGroup_def pg_CreateInvite_def pg_RevokeInvite_def
    group_exists_def [abs_def] split: if_splits option.splits dest!: bump_Some(2) dest: fun_cong)

section \<open>Requests, cached reads and invalidations\<close>

datatype ms_op =
    MsRequest grp_env identity grp_req
  | MsRead ms_env string int
  | MsEvent bool string

fun ms_step :: "grp_db \<times> grp_cache \<Rightarrow> ms_op \<Rightarrow> grp_db \<times> grp_cache" where
  "ms_step (db, c) (MsRequest e i q) = (grp_step db (e, i, q), c)"
| "ms_step (db, c) (MsRead e gid minVersion) = (db, snd (Members e db c gid minVersion))"
| "ms_step (db, c) (MsEvent fails gid) = (db, OnMembershipEvent fails gid c)"

text \<open>The ids drawn for new groups along a run.\<close>

fun drawn_ids :: "ms_op list \<Rightarrow> string list" where
  "drawn_ids [] = []"
| "drawn_ids (MsRequest e i q # ops) = ge_newID e # drawn_ids ops"
| "drawn_ids (MsRead e gid m # ops) = drawn_ids ops"
| "drawn_ids (MsEvent f gid # ops) = drawn_ids ops"

text \<open>
  A cached entry: both keys expire together, its version is at most the group's, and at the group's version the
  cached set is the group's members.
\<close>

definition entry_ok :: "grp_db \<Rightarrow> grp_cache \<Rightarrow> string \<Rightarrow> int \<Rightarrow> instant \<Rightarrow> bool" where
  "entry_ok db c gid v t \<longleftrightarrow>
     (\<exists>ms. ch_members c gid = (if ms = [] then None else Some (ms, t)) \<and>
        (\<forall>g. group_at db gid = Some g \<longrightarrow> v \<le> gr_Version g \<and> (v = gr_Version g \<longrightarrow> set ms = member_set db gid)))"

definition ms_ok :: "string set \<Rightarrow> grp_db \<times> grp_cache \<Rightarrow> bool" where
  "ms_ok used s \<longleftrightarrow> (case s of (db, c) \<Rightarrow>
     (\<forall>gid. group_exists db gid \<longrightarrow> gid \<in> used) \<and>
     (\<forall>gid v t. ch_version c gid = Some (v, t) \<longrightarrow> gid \<in> used \<and> entry_ok db c gid v t))"

lemma entry_ok_step:
  assumes "entry_ok db c gid v t" "ver_step db db' gid" "group_exists db' gid \<Longrightarrow> group_exists db gid"
  shows "entry_ok db' c gid v t"
proof -
  from assms(1) obtain ms where m: "ch_members c gid = (if ms = [] then None else Some (ms, t))"
    and g: "\<And>g. group_at db gid = Some g \<Longrightarrow> v \<le> gr_Version g \<and> (v = gr_Version g \<longrightarrow> set ms = member_set db gid)"
    by (auto simp: entry_ok_def)
  have "v \<le> gr_Version g' \<and> (v = gr_Version g' \<longrightarrow> set ms = member_set db' gid)" if g': "group_at db' gid = Some g'" for g'
  proof -
    from assms(3) g' obtain g0 where "group_at db gid = Some g0" by (auto simp: group_at_exists)
    with g [of g0] assms(2) g' show ?thesis by (fastforce simp: ver_step_def)
  qed
  with m show ?thesis by (auto simp: entry_ok_def)
qed

lemma ms_ok_request:
  assumes "ms_ok used (db, c)" "ge_newID e \<notin> used"
  shows "ms_ok (insert (ge_newID e) used) (grp_step db (e, i, q), c)"
proof -
  let ?db = "grp_step db (e, i, q)"
  note tr = grp_step_trans [of i e db q]
  have "entry_ok ?db c gid v t" if "ch_version c gid = Some (v, t)" for gid v t
  proof (rule entry_ok_step)
    show "entry_ok db c gid v t" using assms(1) that by (simp add: ms_ok_def)
    show "ver_step db ?db gid" using tr by (rule grp_trans_ver)
    show "group_exists db gid" if "group_exists ?db gid"
      using grp_trans_new [OF tr that] assms \<open>ch_version c gid = Some (v, t)\<close> by (auto simp: ms_ok_def)
  qed
  moreover have "gid \<in> insert (ge_newID e) used" if "group_exists ?db gid" for gid
    using grp_trans_new [OF tr that] assms(1) by (auto simp: ms_ok_def)
  ultimately show ?thesis using assms(1) by (auto simp: ms_ok_def)
qed

lemma MembersAndVersion_at:
  "pg_MembersAndVersion db gid = Some (ms, v) \<longleftrightarrow>
    (\<exists>g. group_at db gid = Some g \<and> v = gr_Version g \<and> ms = map mb_UserID (members_of db gid))"
  by (auto simp: pg_MembersAndVersion_def group_at_def split: option.splits)

lemma ms_ok_Put:
  assumes "ms_ok used (db, c)" "pg_MembersAndVersion db gid = Some (ms, v)"
  shows "ms_ok used (db, Cache_Put now gid ms v c)"
proof -
  obtain g where g: "group_at db gid = Some g" "v = gr_Version g" "ms = map mb_UserID (members_of db gid)"
    using assms(2) by (auto simp: MembersAndVersion_at)
  have "entry_ok db (Cache_Put now gid ms v c) gid v (now + cacheTTL)"
    using g by (auto simp: entry_ok_def Cache_Put_def member_set_def intro!: exI [of _ "remdups ms"])
  moreover have "gid \<in> used" using assms(1) g by (auto simp: ms_ok_def group_at_exists)
  moreover have "x \<noteq> gid \<Longrightarrow> entry_ok db (Cache_Put now gid ms v c) x = entry_ok db c x" for x
    by (simp add: fun_eq_iff entry_ok_def Cache_Put_def)
  ultimately show ?thesis
    using assms(1) by (auto simp: ms_ok_def) (auto simp: Cache_Put_def split: if_splits)
qed

lemma ms_ok_Invalidate: "ms_ok used (db, c) \<Longrightarrow> ms_ok used (db, Cache_Invalidate gid c)"
proof -
  have "x \<noteq> gid \<Longrightarrow> entry_ok db (Cache_Invalidate gid c) x = entry_ok db c x" for x
    by (simp add: fun_eq_iff entry_ok_def Cache_Invalidate_def)
  then show "ms_ok used (db, c) \<Longrightarrow> ms_ok used (db, Cache_Invalidate gid c)"
    by (auto simp: ms_ok_def) (auto simp: Cache_Invalidate_def split: if_splits)
qed

lemma ms_ok_Members: "ms_ok used (db, c) \<Longrightarrow> ms_ok used (db, snd (Members e db c gid m))"
  by (auto simp: Members_def Let_def ms_ok_Put split: option.split)

lemma ms_run_ok:
  "ms_ok used s \<Longrightarrow> distinct (drawn_ids ops) \<Longrightarrow> set (drawn_ids ops) \<inter> used = {} \<Longrightarrow>
   ms_ok (used \<union> set (drawn_ids ops)) (run ms_step s ops)"
proof (induction ops arbitrary: s used)
  case (Cons x ops)
  obtain db c where s: "s = (db, c)" by (cases s)
  show ?case
  proof (cases x)
    case (MsRequest e i q)
    with Cons.prems s have "ms_ok (insert (ge_newID e) used) (ms_step s x)" by (simp add: ms_ok_request del: grp_step.simps)
    from Cons.IH [OF this] Cons.prems MsRequest show ?thesis by (simp add: insert_commute)
  next
    case (MsRead e gid m)
    with Cons s show ?thesis by (simp add: ms_ok_Members)
  next
    case (MsEvent f gid)
    with Cons s show ?thesis by (simp add: OnMembershipEvent_def ms_ok_Invalidate)
  qed
qed simp

lemma ms_ok_empty: "ms_ok {} (empty_grp_db, empty_grp_cache)"
  by (simp add: ms_ok_def empty_grp_db_def empty_grp_cache_def group_exists_def)

lemma ms_ok_read:
  assumes ok: "ms_ok used (db, c)" and cur: "pg_MembersAndVersion db gid = Some (cur, v)"
    and up: "\<not> me_sourceFails e" and at: "me_now' e = me_now e" and m: "m \<le> v"
  shows "\<exists>ms w. fst (Members e db c gid m) = Some (ms, w) \<and> m \<le> w \<and> w \<le> v \<and> (w = v \<longrightarrow> set ms = set cur)"
proof (cases "if me_getFails e then None else Cache_Get (me_now e) (me_now' e) c gid")
  case None
  then have "fst (Members e db c gid m) = Some (cur, v)" using cur up by (simp add: Members_def)
  with m show ?thesis by auto
next
  case (Some p)
  obtain ms w where p: "p = (ms, w)" by (cases p)
  with Some have get: "\<not> me_getFails e" "Cache_Get (me_now e) (me_now' e) c gid = Some (ms, w)"
    by (auto split: if_splits)
  then obtain t where t: "ch_version c gid = Some (w, t)" "me_now e < t"
    by (auto simp: Cache_Get_def key_alive_def split: option.splits if_splits)
  from ok t(1) have "entry_ok db c gid w t" by (simp add: ms_ok_def)
  then obtain ms' where ms': "ch_members c gid = (if ms' = [] then None else Some (ms', t))"
    and e: "\<And>g. group_at db gid = Some g \<Longrightarrow> w \<le> gr_Version g \<and> (w = gr_Version g \<longrightarrow> set ms' = member_set db gid)"
    by (auto simp: entry_ok_def)
  from ms' t get(2) at have "ms = ms'" by (simp add: Cache_Get_def key_alive_def split: if_splits)
  with cur e have "w \<le> v \<and> (w = v \<longrightarrow> set ms = set cur)" by (auto simp: MembersAndVersion_at member_set_def)
  moreover have "fst (Members e db c gid m) = Some (if m \<le> w then (ms, w) else (cur, v))"
    using get cur up by (simp add: Members_def)
  ultimately show ?thesis using m by auto
qed

section \<open>Member pages\<close>

definition page_limit :: "int \<Rightarrow> nat" where
  "page_limit limit = nat (if limit \<le> 0 \<or> limit > 200 then 100 else limit)"

lemma ListMembers_page:
  assumes "pg_GetMember db gid (UserID i) \<noteq> None" "\<not> ge_down e GGetMember" "\<not> ge_down e GListMembers"
  shows "Grp_ListMembers e db i gid cursor limit =
    Inr (keyset_page mb_UserID (\<lambda>m. (mb_UserID m, Role_String (mb_Role m))) (page_limit limit)
      (sort_key mb_UserID (members_of db gid)) cursor)"
proof -
  let ?n = "page_limit limit"
  let ?rest = "filter (\<lambda>m. cursor = [] \<or> cursor < mb_UserID m) (sort_key mb_UserID (members_of db gid))"
  have "0 < ?n" by (simp add: page_limit_def)
  moreover have "pg_ListMembers db gid cursor (?n + 1) = take (?n + 1) ?rest"
    by (simp add: pg_ListMembers_def filter_sort)
  ultimately show ?thesis
    using assms unfolding Grp_ListMembers_def caller_def page_limit_def [symmetric] Let_def keyset_page_def
    by (auto simp: min_def)
qed

end
