(* ===== verification/ChatStore.thy ===== *)
theory ChatStore
  imports GoStrings Contracts "HOL-Library.AList" "HOL-Library.Char_ord" "HOL-Library.List_Lexorder" "HOL-Library.Product_Lexorder"
begin

text \<open>
  The message path: its data (\<^verbatim>\<open>chat/chat.go\<close>, \<^verbatim>\<open>chat/receipt.go\<close>), the PostgreSQL store
  (\<^verbatim>\<open>chat/adapters/pg.go\<close>: sequence numbers, the per-device inbox, replay, acknowledgements, direct
  conversations), the Valkey de-duplication record (\<^verbatim>\<open>chat/adapters/valkey.go\<close>), the receipt coalescer
  (\<^verbatim>\<open>chat/coalesce.go\<close>) and the ids of \<^verbatim>\<open>platform/id\<close>.
\<close>

section \<open>Ids\<close>

text \<open>
  The \<^verbatim>\<open>google/uuid\<close> package is a parameter: it gives the version and the time of a well-formed UUID.
  \<^verbatim>\<open>id.TimeOf\<close> is the second component.
\<close>

type_synonym uuid_lib = "string \<Rightarrow> (int \<times> instant) option"

definition id_Parse :: "uuid_lib \<Rightarrow> string \<Rightarrow> instant option" where
  "id_Parse lib s = (case lib s of None \<Rightarrow> None | Some (ver, t) \<Rightarrow> if ver \<noteq> 7 then None else Some t)"

section \<open>Messages\<close>

type_synonym msg_kind = int

definition KindText :: msg_kind where "KindText = 1"
definition KindOverlayEdit :: msg_kind where "KindOverlayEdit = 3"
definition KindOverlayDelete :: msg_kind where "KindOverlayDelete = 4"
definition KindReaction :: msg_kind where "KindReaction = 5"
definition KindPin :: msg_kind where "KindPin = 6"

lemmas kind_defs = KindText_def KindOverlayEdit_def KindOverlayDelete_def KindReaction_def KindPin_def

definition requiresTarget :: "msg_kind \<Rightarrow> bool" where
  "requiresTarget k \<longleftrightarrow> k \<in> {KindOverlayEdit, KindOverlayDelete, KindReaction, KindPin}"

record accept_request =
  aq_SenderUserID :: string
  aq_SenderDeviceID :: string
  aq_ConversationID :: string
  aq_MsgUUID :: string
  aq_Kind :: msg_kind
  aq_OverlayTarget :: string
  aq_Ciphertext :: string

record accept_result =
  as_Seq :: int
  as_ServerTimeMS :: int
  as_RecipientCount :: nat
  as_Deduped :: bool

record cursor =
  cu_ConversationID :: string
  cu_LastSeq :: int

record inbox_item =
  ii_ConversationID :: string
  ii_Seq :: int
  ii_MsgUUID :: string
  ii_SenderUserID :: string
  ii_SenderDeviceID :: string
  ii_Kind :: msg_kind
  ii_OverlayTarget :: string
  ii_Ciphertext :: string
  ii_AcceptedAtMS :: int

section \<open>Overlay windows\<close>

definition EditWindow :: duration where "EditWindow = 15 * Minute"
definition DeleteWindow :: duration where "DeleteWindow = 48 * Hour"

datatype window_result = WindowOK | WindowEditClosed | WindowDeleteClosed | WindowBadTarget

definition CheckOverlayWindow :: "uuid_lib \<Rightarrow> bool \<Rightarrow> bool \<Rightarrow> string \<Rightarrow> instant \<Rightarrow> window_result" where
  "CheckOverlayWindow lib editKind deleteKind targetUUID now =
     (if \<not> editKind \<and> \<not> deleteKind then WindowOK
      else case id_Parse lib targetUUID of
        None \<Rightarrow> WindowBadTarget
      | Some t \<Rightarrow>
          let age = now - t in
          if editKind \<and> age > EditWindow then WindowEditClosed
          else if deleteKind \<and> age > DeleteWindow then WindowDeleteClosed
          else WindowOK)"

section \<open>Tables\<close>

record conversation =
  cv_ID :: string
  cv_Seq :: int
  cv_DirectKey :: "string option"

record device =
  dv_ID :: string
  dv_UserID :: string
  dv_Revoked :: bool

record inbox_row =
  ib_Device :: string
  ib_Conversation :: string
  ib_Seq :: int
  ib_MsgUUID :: string
  ib_SenderDevice :: string
  ib_Kind :: msg_kind
  ib_OverlayTarget :: "string option"
  ib_Ciphertext :: string
  ib_AcceptedAt :: instant
  ib_ExpiresAt :: instant

text \<open>\<open>cd_ReadReceipts\<close>: the live users with their \<^verbatim>\<open>privacy.read_receipts\<close> setting.\<close>

record chat_db =
  cd_Conversations :: "conversation list"
  cd_Members :: "(string \<times> string) list"
  cd_Devices :: "device list"
  cd_Inbox :: "inbox_row list"
  cd_ReadReceipts :: "(string \<times> string option) list"

definition ib_key :: "inbox_row \<Rightarrow> string \<times> string \<times> int \<times> string" where
  "ib_key r = (ib_Device r, ib_Conversation r, ib_Seq r, ib_MsgUUID r)"

text \<open>\<^verbatim>\<open>INSERT ... ON CONFLICT DO NOTHING\<close> on the inbox's primary key.\<close>

definition inbox_insert :: "inbox_row \<Rightarrow> inbox_row list \<Rightarrow> inbox_row list" where
  "inbox_insert r rows = (if ib_key r \<in> ib_key ` set rows then rows else rows @ [r])"

section \<open>Accepting a message\<close>

record accept_params =
  ap_SenderUserID :: string
  ap_SenderDeviceID :: string
  ap_ConversationID :: string
  ap_MsgUUID :: string
  ap_Kind :: msg_kind
  ap_OverlayTarget :: string
  ap_Ciphertext :: string
  ap_AcceptedAt :: instant
  ap_ExpiresAt :: instant

record store_result =
  sr_Seq :: int
  sr_RecipientDeviceIDs :: "string list"

datatype store_error = ErrNotMember | StoreFail

text \<open>The active devices of a conversation's members, but one.\<close>

definition user_devices :: "chat_db \<Rightarrow> string \<Rightarrow> string \<Rightarrow> string list" where
  "user_devices db except u =
     map dv_ID (filter (\<lambda>d. dv_UserID d = u \<and> \<not> dv_Revoked d \<and> dv_ID d \<noteq> except) (cd_Devices db))"

definition member_devices :: "chat_db \<Rightarrow> string \<Rightarrow> string \<Rightarrow> string list" where
  "member_devices db conv except =
     concat (map (user_devices db except) (map snd (filter (\<lambda>p. fst p = conv) (cd_Members db))))"

definition Store_Accept :: "accept_params \<Rightarrow> chat_db \<Rightarrow> store_error + (store_result \<times> chat_db)" where
  "Store_Accept p db =
     (if (ap_ConversationID p, ap_SenderUserID p) \<notin> set (cd_Members db) then Inl ErrNotMember
      else case tbl_get cv_ID (ap_ConversationID p) (cd_Conversations db) of
        None \<Rightarrow> Inl StoreFail
      | Some c \<Rightarrow>
        let seq = cv_Seq c + 1;
            deviceIDs = member_devices db (ap_ConversationID p) (ap_SenderDeviceID p);
            overlay = (if ap_OverlayTarget p \<noteq> [] then Some (ap_OverlayTarget p) else None);
            row = (\<lambda>did. \<lparr>ib_Device = did, ib_Conversation = ap_ConversationID p, ib_Seq = seq,
                     ib_MsgUUID = ap_MsgUUID p, ib_SenderDevice = ap_SenderDeviceID p, ib_Kind = ap_Kind p,
                     ib_OverlayTarget = overlay, ib_Ciphertext = ap_Ciphertext p,
                     ib_AcceptedAt = ap_AcceptedAt p, ib_ExpiresAt = ap_ExpiresAt p\<rparr>)
        in Inr (\<lparr>sr_Seq = seq, sr_RecipientDeviceIDs = deviceIDs\<rparr>,
             db\<lparr>cd_Conversations := tbl_upd cv_ID (ap_ConversationID p) (\<lambda>c. c\<lparr>cv_Seq := cv_Seq c + 1\<rparr>) (cd_Conversations db),
                cd_Inbox := fold (\<lambda>did. inbox_insert (row did)) deviceIDs (cd_Inbox db)\<rparr>))"

section \<open>Direct conversations\<close>

definition directKey :: "string \<Rightarrow> string \<Rightarrow> string" where
  "directKey a b = (if a \<le> b then a @ '':'' @ b else b @ '':'' @ a)"

definition add_member :: "string \<times> string \<Rightarrow> (string \<times> string) list \<Rightarrow> (string \<times> string) list" where
  "add_member p ms = (if p \<in> set ms then ms else ms @ [p])"

definition GetOrCreateDirect :: "string \<Rightarrow> string \<Rightarrow> string \<Rightarrow> chat_db \<Rightarrow> (string \<times> chat_db) option" where
  "GetOrCreateDirect newID userA userB db =
     (let dk = directKey userA userB;
          inserted = (if Some dk \<in> cv_DirectKey ` set (cd_Conversations db) then Some (cd_Conversations db)
                      else tbl_ins cv_ID \<lparr>cv_ID = newID, cv_Seq = 0, cv_DirectKey = Some dk\<rparr> (cd_Conversations db))
      in case inserted of
           None \<Rightarrow> None
         | Some cs \<Rightarrow>
           (case tbl_get cv_DirectKey (Some dk) cs of
              None \<Rightarrow> None
            | Some c \<Rightarrow> Some (cv_ID c, db\<lparr>cd_Conversations := cs,
                cd_Members := add_member (cv_ID c, userB) (add_member (cv_ID c, userA) (cd_Members db))\<rparr>)))"

section \<open>Receipts\<close>

type_synonym receipt_kind = int

definition ReceiptDelivered :: receipt_kind where "ReceiptDelivered = 1"
definition ReceiptRead :: receipt_kind where "ReceiptRead = 2"

record receipt_in =
  ri_ConversationID :: string
  ri_Kind :: receipt_kind
  ri_UpToSeq :: int

record receipt_out =
  ro_ConversationID :: string
  ro_Kind :: receipt_kind
  ro_UpToSeq :: int
  ro_FromUserID :: string

definition ReceiptTargets :: "chat_db \<Rightarrow> string \<Rightarrow> string \<Rightarrow> string \<Rightarrow> string list" where
  "ReceiptTargets db conversationID submitterUserID submitterDeviceID =
     (if (conversationID, submitterUserID) \<in> set (cd_Members db)
      then member_devices db conversationID submitterDeviceID else [])"

definition ReadReceiptsEnabled :: "chat_db \<Rightarrow> string \<Rightarrow> bool" where
  "ReadReceiptsEnabled db userID =
     (case map_of (cd_ReadReceipts db) userID of
        None \<Rightarrow> False
      | Some setting \<Rightarrow> case_option ''everyone'' id setting \<noteq> ''nobody'')"

section \<open>Replay and acknowledgement\<close>

definition zeroUUID :: string where "zeroUUID = ''00000000-0000-0000-0000-000000000000''"

text \<open>The row joined with its sender's device, as a delivery unit.\<close>

definition item_of :: "chat_db \<Rightarrow> inbox_row \<Rightarrow> inbox_item" where
  "item_of db r =
     \<lparr>ii_ConversationID = ib_Conversation r, ii_Seq = ib_Seq r, ii_MsgUUID = ib_MsgUUID r,
      ii_SenderUserID = (case tbl_get dv_ID (ib_SenderDevice r) (cd_Devices db) of None \<Rightarrow> [] | Some d \<Rightarrow> dv_UserID d),
      ii_SenderDeviceID = ib_SenderDevice r, ii_Kind = ib_Kind r,
      ii_OverlayTarget = (case ib_OverlayTarget r of None \<Rightarrow> [] | Some t \<Rightarrow> t),
      ii_Ciphertext = ib_Ciphertext r, ii_AcceptedAtMS = UnixMilli (ib_AcceptedAt r)\<rparr>"

definition ib_pos :: "inbox_row \<Rightarrow> string \<times> int" where
  "ib_pos r = (ib_Conversation r, ib_Seq r)"

definition replay_scan :: "chat_db \<Rightarrow> string \<Rightarrow> string \<times> int \<Rightarrow> nat \<Rightarrow> inbox_row list" where
  "replay_scan db deviceID lastPos batchSize =
     take batchSize (sort_key ib_pos (filter (\<lambda>r. ib_Device r = deviceID \<and> ib_pos r > lastPos) (cd_Inbox db)))"

fun cursor_map :: "cursor list \<Rightarrow> string \<Rightarrow> int" where
  "cursor_map [] conv = 0"
| "cursor_map (c # cs) conv =
     (if conv \<in> cu_ConversationID ` set cs then cursor_map cs conv
      else if cu_ConversationID c = conv then cu_LastSeq c else 0)"

text \<open>
  The replay loop, on the tables as they are. \<open>emit\<close> says whether the stream takes a batch; the result is the
  batches that were sent and whether the stream failed. A scan without a row limit of at least one never drains.
\<close>

partial_function (option) pull_loop ::
  "chat_db \<Rightarrow> string \<Rightarrow> (string \<Rightarrow> int) \<Rightarrow> nat \<Rightarrow> (inbox_item list \<Rightarrow> bool) \<Rightarrow> string \<times> int \<Rightarrow>
   (inbox_item list list \<times> bool) option" where
  "pull_loop db deviceID aft batchSize emit lastPos =
     (let rows = replay_scan db deviceID lastPos batchSize;
          batch = map (item_of db) (filter (\<lambda>r. \<not> ib_Seq r \<le> aft (ib_Conversation r)) rows)
      in if batch \<noteq> [] \<and> \<not> emit batch then Some ([], True)
         else
           let sent = (if batch \<noteq> [] then [batch] else [])
           in if length rows < batchSize then Some (sent, False)
              else Option.bind (pull_loop db deviceID aft batchSize emit (if rows = [] then lastPos else ib_pos (last rows)))
                (\<lambda>(bs, failed). Some (sent @ bs, failed)))"

definition Store_PullInbox ::
  "chat_db \<Rightarrow> string \<Rightarrow> cursor list \<Rightarrow> nat \<Rightarrow> (inbox_item list \<Rightarrow> bool) \<Rightarrow> (inbox_item list list \<times> bool) option" where
  "Store_PullInbox db deviceID cursors batchSize emit =
     pull_loop db deviceID (cursor_map cursors) batchSize emit (zeroUUID, 0)"

definition covered :: "string \<Rightarrow> cursor \<Rightarrow> inbox_row \<Rightarrow> bool" where
  "covered deviceID c r \<longleftrightarrow>
     ib_Device r = deviceID \<and> ib_Conversation r = cu_ConversationID c \<and> ib_Seq r \<le> cu_LastSeq c"

definition Store_AckDelivered :: "string \<Rightarrow> cursor list \<Rightarrow> chat_db \<Rightarrow> chat_db" where
  "Store_AckDelivered deviceID upTo db =
     db\<lparr>cd_Inbox := fold (\<lambda>c rows. filter (\<lambda>r. \<not> covered deviceID c r) rows) upTo (cd_Inbox db)\<rparr>"

section \<open>De-duplication records\<close>

text \<open>The value of a key: the pending marker or a sequence number.\<close>

datatype dedupe_val = Pending | Seqno int

type_synonym dedupe = "string \<Rightarrow> (dedupe_val \<times> instant) option"

definition dedupeTTL :: duration where "dedupeTTL = 24 * Hour"

definition dedupe_get :: "dedupe \<Rightarrow> instant \<Rightarrow> string \<Rightarrow> dedupe_val option" where
  "dedupe_get m now u = (case m u of None \<Rightarrow> None | Some (v, t) \<Rightarrow> if now < t then Some v else None)"

datatype claim_result = Won | Prior int | InFlight

definition Claim :: "instant \<Rightarrow> string \<Rightarrow> dedupe \<Rightarrow> claim_result \<times> dedupe" where
  "Claim now u m =
     (case dedupe_get m now u of
        None \<Rightarrow> (Won, m(u \<mapsto> (Pending, now + dedupeTTL)))
      | Some Pending \<Rightarrow> (InFlight, m)
      | Some (Seqno n) \<Rightarrow> (Prior n, m))"

definition Commit :: "instant \<Rightarrow> string \<Rightarrow> int \<Rightarrow> dedupe \<Rightarrow> dedupe" where
  "Commit now u seq m = m(u \<mapsto> (Seqno seq, now + dedupeTTL))"

definition Release :: "string \<Rightarrow> dedupe \<Rightarrow> dedupe" where
  "Release u m = m(u := None)"

section \<open>Coalescing receipts\<close>

type_synonym coalescer = "((string \<times> receipt_kind) \<times> int) list"

definition pending_seq :: "coalescer \<Rightarrow> string \<times> receipt_kind \<Rightarrow> int" where
  "pending_seq c k = (case map_of c k of None \<Rightarrow> 0 | Some n \<Rightarrow> n)"

definition Submit :: "string \<Rightarrow> receipt_kind \<Rightarrow> int \<Rightarrow> coalescer \<Rightarrow> coalescer" where
  "Submit conversationID kind upToSeq c =
     (let k = (conversationID, kind)
      in if upToSeq > pending_seq c k then AList.update k upToSeq c else c)"

definition Drain :: "coalescer \<Rightarrow> receipt_in list \<times> coalescer" where
  "Drain c = (map (\<lambda>((conv, kind), seq). \<lparr>ri_ConversationID = conv, ri_Kind = kind, ri_UpToSeq = seq\<rparr>) c, [])"

end
