(* ===== verification/ChatService.thy ===== *)
theory ChatService
  imports ChatStore
begin

text \<open>
  The chat service (\<^verbatim>\<open>chat/service.go\<close>, \<^verbatim>\<open>SubmitReceipt\<close> of \<^verbatim>\<open>chat/receipt.go\<close>). \<open>Accept\<close> is
  made of the three pieces of the handler that touch shared state, each atomic in its store: the claim, the
  transaction with the release of a failed one, and the commit with the live deliveries. The service runs many
  accepts at once; \<open>chat_step\<close> interleaves the pieces of different requests.
\<close>

section \<open>Environment\<close>

record chat_env =
  ce_now :: instant
  ce_claimFails :: bool
  ce_storeFails :: bool
  ce_releaseFails :: bool
  ce_commitFails :: bool
  ce_pubFails :: "string \<Rightarrow> bool"

record chat_sys =
  cs_db :: chat_db
  cs_dedupe :: dedupe

definition InboxTTL :: duration where "InboxTTL = 30 * 24 * Hour"
definition ReplayBatchSize :: nat where "ReplayBatchSize = 100"

section \<open>Accept\<close>

definition accept_validate :: "uuid_lib \<Rightarrow> instant \<Rightarrow> accept_request \<Rightarrow> api_error option" where
  "accept_validate lib now req =
     (if id_Parse lib (aq_MsgUUID req) = None then Some (Reject 400 ''VALIDATION_MSG_ID'')
      else if aq_Ciphertext req = [] then Some (Reject 400 ''VALIDATION_EMPTY'')
      else if requiresTarget (aq_Kind req) \<and> aq_OverlayTarget req = [] then Some (Reject 400 ''VALIDATION_OVERLAY'')
      else if requiresTarget (aq_Kind req) \<and> id_Parse lib (aq_OverlayTarget req) = None
      then Some (Reject 400 ''VALIDATION_OVERLAY'')
      else case CheckOverlayWindow lib (aq_Kind req = KindOverlayEdit) (aq_Kind req = KindOverlayDelete)
                  (aq_OverlayTarget req) now of
        WindowOK \<Rightarrow> None
      | WindowEditClosed \<Rightarrow> Some (Reject 403 ''VALIDATION_EDIT_WINDOW_CLOSED'')
      | WindowDeleteClosed \<Rightarrow> Some (Reject 403 ''VALIDATION_DELETE_WINDOW_CLOSED'')
      | WindowBadTarget \<Rightarrow> Some (Reject 400 ''VALIDATION_OVERLAY''))"

text \<open>Validation and the claim; \<open>None\<close> means the claim was won and the accept goes on.\<close>

definition accept_claim ::
  "uuid_lib \<Rightarrow> chat_env \<Rightarrow> accept_request \<Rightarrow> dedupe \<Rightarrow> accept_result result option \<times> dedupe" where
  "accept_claim lib e req m =
     (case accept_validate lib (ce_now e) req of
        Some err \<Rightarrow> (Some (Inl err), m)
      | None \<Rightarrow>
        if ce_claimFails e then (Some (Inl Transient), m)
        else case Claim (ce_now e) (aq_MsgUUID req) m of
          (Won, m1) \<Rightarrow> (None, m1)
        | (InFlight, m1) \<Rightarrow> (Some (Inl Transient), m1)
        | (Prior n, m1) \<Rightarrow>
            (Some (Inr \<lparr>as_Seq = n, as_ServerTimeMS = UnixMilli (ce_now e), as_RecipientCount = 0, as_Deduped = True\<rparr>), m1))"

definition params_of :: "instant \<Rightarrow> accept_request \<Rightarrow> accept_params" where
  "params_of now req =
     \<lparr>ap_SenderUserID = aq_SenderUserID req, ap_SenderDeviceID = aq_SenderDeviceID req,
      ap_ConversationID = aq_ConversationID req, ap_MsgUUID = aq_MsgUUID req, ap_Kind = aq_Kind req,
      ap_OverlayTarget = aq_OverlayTarget req, ap_Ciphertext = aq_Ciphertext req,
      ap_AcceptedAt = now, ap_ExpiresAt = now + InboxTTL\<rparr>"

text \<open>The transaction, and on failure the release of the claim.\<close>

definition accept_store :: "chat_env \<Rightarrow> accept_request \<Rightarrow> chat_sys \<Rightarrow> (api_error + store_result) \<times> chat_sys" where
  "accept_store e req s =
     (case (if ce_storeFails e then Inl StoreFail else Store_Accept (params_of (ce_now e) req) (cs_db s)) of
        Inl err \<Rightarrow>
          (Inl (if err = ErrNotMember then Reject 403 ''STATE_NOT_MEMBER'' else Transient),
           s\<lparr>cs_dedupe := (if ce_releaseFails e then cs_dedupe s else Release (aq_MsgUUID req) (cs_dedupe s))\<rparr>)
      | Inr (res, db1) \<Rightarrow> (Inr res, s\<lparr>cs_db := db1\<rparr>))"

definition live_item :: "instant \<Rightarrow> accept_request \<Rightarrow> int \<Rightarrow> inbox_item" where
  "live_item now req seq =
     \<lparr>ii_ConversationID = aq_ConversationID req, ii_Seq = seq, ii_MsgUUID = aq_MsgUUID req,
      ii_SenderUserID = aq_SenderUserID req, ii_SenderDeviceID = aq_SenderDeviceID req, ii_Kind = aq_Kind req,
      ii_OverlayTarget = aq_OverlayTarget req, ii_Ciphertext = aq_Ciphertext req, ii_AcceptedAtMS = UnixMilli now\<rparr>"

text \<open>The commit and the deliveries that reached the broker.\<close>

definition accept_finish ::
  "chat_env \<Rightarrow> accept_request \<Rightarrow> store_result \<Rightarrow> chat_sys \<Rightarrow> accept_result \<times> (string \<times> inbox_item) list \<times> chat_sys" where
  "accept_finish e req res s =
     (\<lparr>as_Seq = sr_Seq res, as_ServerTimeMS = UnixMilli (ce_now e),
       as_RecipientCount = length (sr_RecipientDeviceIDs res), as_Deduped = False\<rparr>,
      map (\<lambda>did. (did, live_item (ce_now e) req (sr_Seq res)))
        (filter (\<lambda>did. \<not> ce_pubFails e did) (sr_RecipientDeviceIDs res)),
      s\<lparr>cs_dedupe := (if ce_commitFails e then cs_dedupe s else Commit (ce_now e) (aq_MsgUUID req) (sr_Seq res) (cs_dedupe s))\<rparr>)"

definition Accept ::
  "uuid_lib \<Rightarrow> chat_env \<Rightarrow> accept_request \<Rightarrow> chat_sys \<Rightarrow> accept_result result \<times> (string \<times> inbox_item) list \<times> chat_sys" where
  "Accept lib e req s =
     (case accept_claim lib e req (cs_dedupe s) of
        (Some r, m1) \<Rightarrow> (r, [], s\<lparr>cs_dedupe := m1\<rparr>)
      | (None, m1) \<Rightarrow>
        (case accept_store e req (s\<lparr>cs_dedupe := m1\<rparr>) of
           (Inl err, s1) \<Rightarrow> (Inl err, [], s1)
         | (Inr res, s1) \<Rightarrow>
             let (r, out, s2) = accept_finish e req res s1 in (Inr r, out, s2)))"

section \<open>Replay, acknowledgement, receipts\<close>

definition PullInbox ::
  "chat_db \<Rightarrow> string \<Rightarrow> cursor list \<Rightarrow> int \<Rightarrow> (inbox_item list \<Rightarrow> bool) \<Rightarrow> (inbox_item list list \<times> bool) option result" where
  "PullInbox db deviceID cursors batchSize emit =
     (if deviceID = [] then Inl (Reject 400 ''VALIDATION_DEVICE'')
      else Inr (Store_PullInbox db deviceID cursors
        (if batchSize \<le> 0 \<or> batchSize > int ReplayBatchSize then ReplayBatchSize else nat batchSize) emit))"

definition AckDelivered :: "bool \<Rightarrow> string \<Rightarrow> cursor list \<Rightarrow> chat_db \<Rightarrow> unit result \<times> chat_db" where
  "AckDelivered storeFails deviceID upTo db =
     (if deviceID = [] then (Inl (Reject 400 ''VALIDATION_DEVICE''), db)
      else
        let valid = filter (\<lambda>c. cu_ConversationID c \<noteq> [] \<and> cu_LastSeq c > 0) upTo
        in if valid = [] then (Inr (), db)
           else if storeFails then (Inl Internal, db)
           else (Inr (), Store_AckDelivered deviceID valid db))"

record receipt_env =
  re_wired :: bool
  re_enabledFails :: bool
  re_targetsFails :: bool
  re_relayFails :: "string \<Rightarrow> bool"

definition SubmitReceipt ::
  "receipt_env \<Rightarrow> chat_db \<Rightarrow> string \<Rightarrow> string \<Rightarrow> receipt_in \<Rightarrow> unit result \<times> (string \<times> receipt_out) list" where
  "SubmitReceipt e db fromUserID fromDeviceID r =
     (if ri_ConversationID r = [] \<or> ri_UpToSeq r \<le> 0 then (Inl (Reject 400 ''VALIDATION_RECEIPT''), [])
      else if ri_Kind r \<noteq> ReceiptDelivered \<and> ri_Kind r \<noteq> ReceiptRead
      then (Inl (Reject 400 ''VALIDATION_RECEIPT''), [])
      else if \<not> re_wired e then (Inr (), [])
      else if ri_Kind r = ReceiptRead \<and> re_enabledFails e then (Inl Transient, [])
      else if ri_Kind r = ReceiptRead \<and> \<not> ReadReceiptsEnabled db fromUserID then (Inr (), [])
      else if re_targetsFails e then (Inl Transient, [])
      else
        let out = \<lparr>ro_ConversationID = ri_ConversationID r, ro_Kind = ri_Kind r, ro_UpToSeq = ri_UpToSeq r,
                   ro_FromUserID = fromUserID\<rparr>
        in (Inr (), map (\<lambda>dev. (dev, out))
             (filter (\<lambda>dev. \<not> re_relayFails e dev) (ReceiptTargets db (ri_ConversationID r) fromUserID fromDeviceID))))"

section \<open>Sequences of requests\<close>

datatype chat_op =
    OpAccept chat_env accept_request
  | OpAck bool string "cursor list"
  | OpDirect string string string

fun chat_op_step :: "uuid_lib \<Rightarrow> chat_sys \<Rightarrow> chat_op \<Rightarrow> chat_sys" where
  "chat_op_step lib s (OpAccept e req) = snd (snd (Accept lib e req s))"
| "chat_op_step lib s (OpAck fails d upTo) = s\<lparr>cs_db := snd (AckDelivered fails d upTo (cs_db s))\<rparr>"
| "chat_op_step lib s (OpDirect nid a b) =
     s\<lparr>cs_db := (case GetOrCreateDirect nid a b (cs_db s) of None \<Rightarrow> cs_db s | Some (c, db1) \<Rightarrow> db1)\<rparr>"

section \<open>Concurrent accepts\<close>

text \<open>
  Requests in flight, each with the environment of its handler: those that hold a claim, and those whose
  transaction is done. \<open>cf_log\<close> records the messages whose transaction has committed, with their sequence number.
\<close>

record chat_conc =
  cf_sys :: chat_sys
  cf_claimed :: "(chat_env \<times> accept_request) list"
  cf_stored :: "(chat_env \<times> accept_request \<times> store_result) list"
  cf_log :: "(string \<times> int) list"

inductive chat_step :: "uuid_lib \<Rightarrow> chat_conc \<Rightarrow> chat_conc \<Rightarrow> bool" for lib where
  claim_answered: "accept_claim lib e req (cs_dedupe (cf_sys c)) = (Some r, m) \<Longrightarrow>
    chat_step lib c (c\<lparr>cf_sys := (cf_sys c)\<lparr>cs_dedupe := m\<rparr>\<rparr>)"
| claim_won: "accept_claim lib e req (cs_dedupe (cf_sys c)) = (None, m) \<Longrightarrow>
    chat_step lib c (c\<lparr>cf_sys := (cf_sys c)\<lparr>cs_dedupe := m\<rparr>, cf_claimed := (e, req) # cf_claimed c\<rparr>)"
| store_failed: "cf_claimed c = xs @ (e, req) # ys \<Longrightarrow> accept_store e req (cf_sys c) = (Inl err, s) \<Longrightarrow>
    chat_step lib c (c\<lparr>cf_sys := s, cf_claimed := xs @ ys\<rparr>)"
| store_done: "cf_claimed c = xs @ (e, req) # ys \<Longrightarrow> accept_store e req (cf_sys c) = (Inr res, s) \<Longrightarrow>
    chat_step lib c (c\<lparr>cf_sys := s, cf_claimed := xs @ ys, cf_stored := (e, req, res) # cf_stored c,
      cf_log := (aq_MsgUUID req, sr_Seq res) # cf_log c\<rparr>)"
| finish: "cf_stored c = xs @ (e, req, res) # ys \<Longrightarrow> accept_finish e req res (cf_sys c) = (r, out, s) \<Longrightarrow>
    chat_step lib c (c\<lparr>cf_sys := s, cf_stored := xs @ ys\<rparr>)"
| ack: "chat_step lib c (c\<lparr>cf_sys := (cf_sys c)\<lparr>cs_db := snd (AckDelivered fails d upTo (cs_db (cf_sys c)))\<rparr>\<rparr>)"

inductive_cases chat_stepE: "chat_step lib c c'"

text \<open>Steps whose clocks are within one life time of a de-duplication record.\<close>

inductive chat_reach :: "uuid_lib \<Rightarrow> instant \<Rightarrow> chat_conc \<Rightarrow> chat_conc \<Rightarrow> bool" for lib t0 c0 where
  start: "chat_reach lib t0 c0 c0"
| step: "chat_reach lib t0 c0 c \<Longrightarrow> chat_step lib c c' \<Longrightarrow>
    \<forall>(e, req)\<in>set (cf_claimed c'). t0 \<le> ce_now e \<and> ce_now e < t0 + dedupeTTL \<Longrightarrow> chat_reach lib t0 c0 c'"

end
