(* ===== verification/ChatInv.thy ===== *)
theory ChatInv
  imports ChatService Paging
begin

text \<open>
  The invariant of the message tables and what replay returns; the invariant of concurrent accepts.
\<close>

section \<open>The invariant of the tables\<close>

definition ib_unit :: "inbox_row \<Rightarrow> string \<times> string \<times> int" where
  "ib_unit r = (ib_Device r, ib_Conversation r, ib_Seq r)"

definition conv_seq :: "chat_db \<Rightarrow> string \<Rightarrow> int" where
  "conv_seq db conv = (case tbl_get cv_ID conv (cd_Conversations db) of None \<Rightarrow> 0 | Some c \<Rightarrow> cv_Seq c)"

definition conv_exists :: "chat_db \<Rightarrow> string \<Rightarrow> bool" where
  "conv_exists db conv \<longleftrightarrow> conv \<in> cv_ID ` set (cd_Conversations db)"

text \<open>
  Keys are unique, members belong to conversations, and every inbox row has a sequence number its conversation has
  given out; a device has one row per conversation and sequence number.
\<close>

definition chat_ok :: "chat_db \<Rightarrow> bool" where
  "chat_ok db \<longleftrightarrow>
     tbl_wf cv_ID (cd_Conversations db) \<and> distinct (cd_Members db) \<and> tbl_wf dv_ID (cd_Devices db) \<and>
     (\<forall>c\<in>set (cd_Conversations db). 0 \<le> cv_Seq c) \<and>
     (\<forall>p\<in>set (cd_Members db). conv_exists db (fst p)) \<and>
     distinct (map ib_unit (cd_Inbox db)) \<and>
     (\<forall>r\<in>set (cd_Inbox db). conv_exists db (ib_Conversation r) \<and> 0 < ib_Seq r \<and> ib_Seq r \<le> conv_seq db (ib_Conversation r))"

lemma set_user_devices:
  "set (user_devices db x u) = {dv_ID d | d. d \<in> set (cd_Devices db) \<and> dv_UserID d = u \<and> \<not> dv_Revoked d \<and> dv_ID d \<noteq> x}"
  by (auto simp: user_devices_def)

lemma in_member_devices:
  "i \<in> set (member_devices db conv x) \<longleftrightarrow> (\<exists>d\<in>set (cd_Devices db). dv_ID d = i \<and> (conv, dv_UserID d) \<in> set (cd_Members db) \<and>
     \<not> dv_Revoked d \<and> i \<noteq> x)"
  unfolding member_devices_def by (fastforce simp: set_user_devices)

lemma distinct_member_devices:
  assumes "distinct (cd_Members db)" "tbl_wf dv_ID (cd_Devices db)"
  shows "distinct (member_devices db conv x)"
proof -
  have one: "distinct (user_devices db x u)" for u
    using assms(2) by (simp add: user_devices_def tbl_wf_def distinct_map_filter)
  have disj: "u \<noteq> w \<Longrightarrow> set (user_devices db x u) \<inter> set (user_devices db x w) = {}" for u w
    using assms(2) by (auto simp: set_user_devices tbl_wf_def distinct_map dest: inj_onD)
  have "distinct us \<Longrightarrow> distinct (concat (map (user_devices db x) us))" for us
  proof (induction us)
    case (Cons u us)
    have "set (user_devices db x u) \<inter> set (user_devices db x w) = {}" if "w \<in> set us" for w
      using disj [of u w] Cons.prems that by auto
    then have "set (user_devices db x u) \<inter> set (concat (map (user_devices db x) us)) = {}" by auto
    with Cons one show ?case by simp
  qed simp
  moreover have "distinct (map snd (filter (\<lambda>p. fst p = conv) (cd_Members db)))"
    using assms(1) by (auto simp: distinct_map inj_on_def)
  ultimately show ?thesis unfolding member_devices_def by blast
qed

lemma fold_insert_fresh:
  assumes "distinct ds" "\<And>d. d \<in> set ds \<Longrightarrow> ib_key (row d) \<notin> ib_key ` set rows" "\<And>d. ib_Device (row d) = d"
  shows "fold (\<lambda>d. inbox_insert (row d)) ds rows = rows @ map row ds"
  using assms(1,2)
proof (induction ds arbitrary: rows)
  case (Cons d ds)
  have "ib_key (row d') \<noteq> ib_key (row d)" if "d' \<in> set ds" for d'
    using Cons.prems(1) that assms(3) [of d] assms(3) [of d'] by (auto simp: ib_key_def)
  moreover have "inbox_insert (row d) rows = rows @ [row d]" using Cons.prems(2) [of d] by (simp add: inbox_insert_def)
  ultimately show ?case using Cons.IH [of "rows @ [row d]"] Cons.prems by auto
qed simp

definition accept_row :: "accept_params \<Rightarrow> int \<Rightarrow> string \<Rightarrow> inbox_row" where
  "accept_row p seq did =
     \<lparr>ib_Device = did, ib_Conversation = ap_ConversationID p, ib_Seq = seq, ib_MsgUUID = ap_MsgUUID p,
      ib_SenderDevice = ap_SenderDeviceID p, ib_Kind = ap_Kind p,
      ib_OverlayTarget = (if ap_OverlayTarget p \<noteq> [] then Some (ap_OverlayTarget p) else None),
      ib_Ciphertext = ap_Ciphertext p, ib_AcceptedAt = ap_AcceptedAt p, ib_ExpiresAt = ap_ExpiresAt p\<rparr>"

text \<open>What the accept transaction does to well-formed tables.\<close>

lemma Store_Accept_Inr:
  assumes ok: "chat_ok db" and a: "Store_Accept p db = Inr (res, db')"
  shows "(ap_ConversationID p, ap_SenderUserID p) \<in> set (cd_Members db)"
    "sr_Seq res = conv_seq db (ap_ConversationID p) + 1"
    "sr_RecipientDeviceIDs res = member_devices db (ap_ConversationID p) (ap_SenderDeviceID p)"
    "cd_Inbox db' = cd_Inbox db @ map (accept_row p (sr_Seq res)) (sr_RecipientDeviceIDs res)"
    "cd_Members db' = cd_Members db" "cd_Devices db' = cd_Devices db"
    "conv_seq db' conv = (if conv = ap_ConversationID p then sr_Seq res else conv_seq db conv)"
    "conv_exists db' = conv_exists db" "tbl_wf cv_ID (cd_Conversations db')"
    "\<forall>c\<in>set (cd_Conversations db'). 0 \<le> cv_Seq c"
proof -
  let ?c = "ap_ConversationID p"
  obtain c where c: "tbl_get cv_ID ?c (cd_Conversations db) = Some c"
    and res: "res = \<lparr>sr_Seq = cv_Seq c + 1, sr_RecipientDeviceIDs = member_devices db ?c (ap_SenderDeviceID p)\<rparr>"
    and db': "db' = db\<lparr>cd_Conversations := tbl_upd cv_ID ?c (\<lambda>c. c\<lparr>cv_Seq := cv_Seq c + 1\<rparr>) (cd_Conversations db),
        cd_Inbox := fold (\<lambda>did. inbox_insert (accept_row p (cv_Seq c + 1) did)) (member_devices db ?c (ap_SenderDeviceID p)) (cd_Inbox db)\<rparr>"
    and m: "(?c, ap_SenderUserID p) \<in> set (cd_Members db)"
    using a by (auto simp: Store_Accept_def accept_row_def Let_def split: if_splits option.splits)
  have seq: "conv_seq db ?c = cv_Seq c" using c by (simp add: conv_seq_def)
  have fresh: "ib_key (accept_row p (cv_Seq c + 1) d) \<notin> ib_key ` set (cd_Inbox db)" for d
    using ok seq by (fastforce simp: chat_ok_def ib_key_def accept_row_def)
  show "(?c, ap_SenderUserID p) \<in> set (cd_Members db)" by (fact m)
  show "sr_Seq res = conv_seq db ?c + 1" "sr_RecipientDeviceIDs res = member_devices db ?c (ap_SenderDeviceID p)"
    by (simp_all add: res seq)
  show "cd_Inbox db' = cd_Inbox db @ map (accept_row p (sr_Seq res)) (sr_RecipientDeviceIDs res)"
    using fold_insert_fresh [OF distinct_member_devices, of db ?c "ap_SenderDeviceID p" "accept_row p (cv_Seq c + 1)" "cd_Inbox db"]
      ok fresh by (simp add: db' res chat_ok_def accept_row_def)
  show "cd_Members db' = cd_Members db" "cd_Devices db' = cd_Devices db" by (simp_all add: db')
  show "conv_seq db' conv = (if conv = ?c then sr_Seq res else conv_seq db conv)"
    using c by (simp add: conv_seq_def db' res tbl_get_upd)
  have "map cv_ID (cd_Conversations db') = map cv_ID (cd_Conversations db)" by (simp add: db' map_key_upd)
  then have "cv_ID ` set (cd_Conversations db') = cv_ID ` set (cd_Conversations db)" by (metis list.set_map)
  then show "conv_exists db' = conv_exists db" by (simp add: fun_eq_iff conv_exists_def)
  show "tbl_wf cv_ID (cd_Conversations db')" using ok by (auto simp: chat_ok_def db' intro: tbl_wf_upd)
  show "\<forall>c\<in>set (cd_Conversations db'). 0 \<le> cv_Seq c" using ok by (auto simp: chat_ok_def db' set_tbl_upd)
qed

lemma chat_ok_Accept:
  assumes ok: "chat_ok db" and a: "Store_Accept p db = Inr (res, db')"
  shows "chat_ok db'"
proof -
  note sa = Store_Accept_Inr [OF ok a]
  let ?new = "map (accept_row p (sr_Seq res)) (sr_RecipientDeviceIDs res)"
  have units: "map ib_unit ?new = map (\<lambda>d. (d, ap_ConversationID p, sr_Seq res)) (sr_RecipientDeviceIDs res)"
    by (simp add: ib_unit_def accept_row_def)
  have "distinct (sr_RecipientDeviceIDs res)"
    using ok unfolding sa(3) by (intro distinct_member_devices) (auto simp: chat_ok_def)
  then have "distinct (map ib_unit ?new)" unfolding units by (simp add: distinct_map inj_on_def)
  moreover have "ib_unit r \<notin> set (map ib_unit ?new)" if "r \<in> set (cd_Inbox db)" for r
    unfolding units using ok that sa(2) by (fastforce simp: chat_ok_def ib_unit_def)
  moreover have "distinct (map ib_unit (cd_Inbox db))" using ok by (simp add: chat_ok_def)
  moreover have "set (map ib_unit (cd_Inbox db)) \<inter> set (map ib_unit ?new) = {}"
    using calculation(2) unfolding disjoint_iff by (metis (no_types, lifting) imageE list.set_map)
  ultimately have "distinct (map ib_unit (cd_Inbox db) @ map ib_unit ?new)"
    by (simp only: distinct_append)
  then have "distinct (map ib_unit (cd_Inbox db'))" by (simp only: sa(4) map_append)
  moreover have c: "conv_exists db (ap_ConversationID p)" using ok sa(1) by (force simp: chat_ok_def)
  moreover have "0 \<le> conv_seq db (ap_ConversationID p)"
    using ok by (auto simp: chat_ok_def conv_seq_def split: option.split dest: tbl_get_Some)
  moreover have "ib_Seq r \<le> conv_seq db' (ib_Conversation r)" if "r \<in> set (cd_Inbox db)" for r
    using ok that sa(2) sa(7) [of "ib_Conversation r"] by (fastforce simp: chat_ok_def)
  ultimately show ?thesis
    using ok sa(2,9,10) unfolding chat_ok_def sa(5,6,8)
    by (auto simp: sa(4) sa(7) accept_row_def)
qed

lemma Store_Ack_inbox:
  "cd_Inbox (Store_AckDelivered d upTo db) = filter (\<lambda>r. \<forall>c\<in>set upTo. \<not> covered d c r) (cd_Inbox db)"
proof -
  have "fold (\<lambda>c rows. filter (\<lambda>r. \<not> covered d c r) rows) upTo rows = filter (\<lambda>r. \<forall>c\<in>set upTo. \<not> covered d c r) rows" for rows
    by (induction upTo arbitrary: rows) (auto intro: filter_cong)
  then show ?thesis by (simp add: Store_AckDelivered_def)
qed

lemma AckDelivered_inbox:
  "\<exists>P. snd (AckDelivered f d upTo db) = db\<lparr>cd_Inbox := filter P (cd_Inbox db)\<rparr> \<and>
     (\<forall>r. \<not> P r \<longrightarrow> (\<exists>c\<in>set upTo. covered d c r))"
proof (cases "snd (AckDelivered f d upTo db) = db")
  case True
  then show ?thesis by (intro exI [of _ "\<lambda>_. True"]) simp
next
  case False
  let ?v = "filter (\<lambda>c. cu_ConversationID c \<noteq> [] \<and> cu_LastSeq c > 0) upTo"
  have "snd (AckDelivered f d upTo db) = Store_AckDelivered d ?v db"
    using False by (auto simp: AckDelivered_def Let_def split: if_splits)
  then have "snd (AckDelivered f d upTo db) = db\<lparr>cd_Inbox := filter (\<lambda>r. \<forall>c\<in>set ?v. \<not> covered d c r) (cd_Inbox db)\<rparr>"
    using Store_Ack_inbox [of d ?v db] by (simp add: Store_AckDelivered_def)
  then show ?thesis by (intro exI [of _ "\<lambda>r. \<forall>c\<in>set ?v. \<not> covered d c r"]) auto
qed

lemma chat_ok_filter: "chat_ok db \<Longrightarrow> chat_ok (db\<lparr>cd_Inbox := filter P (cd_Inbox db)\<rparr>)"
  by (auto simp: chat_ok_def conv_exists_def conv_seq_def distinct_map_filter)

lemma chat_ok_Ack: "chat_ok db \<Longrightarrow> chat_ok (snd (AckDelivered f d upTo db))"
  using AckDelivered_inbox [of f d upTo db] chat_ok_filter by force

section \<open>Direct conversations\<close>

lemma directKey_sym: "directKey a b = directKey b a"
  by (auto simp: directKey_def)

lemma split_colon:
  assumes "a @ CHR '':'' # b = c @ CHR '':'' # d" "CHR '':'' \<notin> set a" "CHR '':'' \<notin> set c"
  shows "a = c \<and> b = d"
  using assms by (induction a arbitrary: c) (case_tac c; auto)+

lemma directKey_inj:
  assumes "directKey a b = directKey c d" "\<forall>x\<in>{a, b, c, d}. CHR '':'' \<notin> set x"
  shows "{a, b} = {c, d}"
  using assms split_colon [of a b c d] split_colon [of a b d c] split_colon [of b a c d] split_colon [of b a d c]
  by (auto simp: directKey_def split: if_splits)

text \<open>A conversation with a direct key has exactly the two users of the key.\<close>

definition direct_ok :: "chat_db \<Rightarrow> bool" where
  "direct_ok db \<longleftrightarrow> (\<forall>c\<in>set (cd_Conversations db). \<forall>dk. cv_DirectKey c = Some dk \<longrightarrow>
     (\<exists>a b. dk = directKey a b \<and> CHR '':'' \<notin> set a \<and> CHR '':'' \<notin> set b \<and>
        {u. (cv_ID c, u) \<in> set (cd_Members db)} = {a, b}))"

lemma set_add_member [simp]: "set (add_member p ms) = insert p (set ms)"
  by (auto simp: add_member_def)

lemma distinct_add_member: "distinct ms \<Longrightarrow> distinct (add_member p ms)"
  by (simp add: add_member_def)

lemma Direct_Some:
  assumes "GetOrCreateDirect nid a b db = Some (conv, db')"
  obtains c where "c \<in> set (cd_Conversations db')" "cv_ID c = conv" "cv_DirectKey c = Some (directKey a b)"
    "cd_Members db' = add_member (conv, b) (add_member (conv, a) (cd_Members db))"
    "cd_Inbox db' = cd_Inbox db" "cd_Devices db' = cd_Devices db"
    "cd_Conversations db' = cd_Conversations db \<and> c \<in> set (cd_Conversations db) \<or>
     nid \<notin> cv_ID ` set (cd_Conversations db) \<and> Some (directKey a b) \<notin> cv_DirectKey ` set (cd_Conversations db) \<and>
       c = \<lparr>cv_ID = nid, cv_Seq = 0, cv_DirectKey = Some (directKey a b)\<rparr> \<and>
       cd_Conversations db' = cd_Conversations db @ [c]"
proof -
  let ?dk = "directKey a b"
  from assms obtain cs c where c: "tbl_get cv_DirectKey (Some ?dk) cs = Some c" "cv_ID c = conv"
    and cs: "(if Some ?dk \<in> cv_DirectKey ` set (cd_Conversations db) then Some (cd_Conversations db)
        else tbl_ins cv_ID \<lparr>cv_ID = nid, cv_Seq = 0, cv_DirectKey = Some ?dk\<rparr> (cd_Conversations db)) = Some cs"
    and db': "db' = db\<lparr>cd_Conversations := cs, cd_Members := add_member (conv, b) (add_member (conv, a) (cd_Members db))\<rparr>"
    by (auto simp: GetOrCreateDirect_def Let_def split: option.splits)
  have mem: "c \<in> set cs" "cv_DirectKey c = Some ?dk" using tbl_get_Some [OF c(1)] by auto
  show thesis
  proof (rule that [of c])
    show "cd_Conversations db' = cd_Conversations db \<and> c \<in> set (cd_Conversations db) \<or>
       nid \<notin> cv_ID ` set (cd_Conversations db) \<and> Some ?dk \<notin> cv_DirectKey ` set (cd_Conversations db) \<and>
       c = \<lparr>cv_ID = nid, cv_Seq = 0, cv_DirectKey = Some ?dk\<rparr> \<and> cd_Conversations db' = cd_Conversations db @ [c]"
    proof (cases "Some ?dk \<in> cv_DirectKey ` set (cd_Conversations db)")
      case False
      then have "cs = cd_Conversations db @ [\<lparr>cv_ID = nid, cv_Seq = 0, cv_DirectKey = Some ?dk\<rparr>]"
        "nid \<notin> cv_ID ` set (cd_Conversations db)"
        using cs by (auto simp: tbl_ins_def split: if_splits)
      moreover have "c \<notin> set (cd_Conversations db)" using False mem(2) by (metis imageI)
      ultimately show ?thesis using False mem by (auto simp: db')
    qed (use cs mem in \<open>auto simp: db'\<close>)
  qed (use mem c(2) in \<open>auto simp: db'\<close>)
qed

lemma conv_seq_append: "conv_exists db x \<Longrightarrow> cd_Conversations db' = cd_Conversations db @ cs \<Longrightarrow> conv_seq db' x = conv_seq db x"
  by (auto simp: conv_seq_def conv_exists_def tbl_get_append tbl_get_None split: option.split)

lemma chat_ok_Direct:
  assumes ok: "chat_ok db" and d: "GetOrCreateDirect nid a b db = Some (conv, db')"
  shows "chat_ok db'"
proof -
  obtain c where c: "c \<in> set (cd_Conversations db')" "cv_ID c = conv"
    and m: "cd_Members db' = add_member (conv, b) (add_member (conv, a) (cd_Members db))"
    and i: "cd_Inbox db' = cd_Inbox db" "cd_Devices db' = cd_Devices db"
    and cs: "cd_Conversations db' = cd_Conversations db \<or>
     nid \<notin> cv_ID ` set (cd_Conversations db) \<and> c = \<lparr>cv_ID = nid, cv_Seq = 0, cv_DirectKey = Some (directKey a b)\<rparr> \<and>
       cd_Conversations db' = cd_Conversations db @ [c]"
    using d by (rule Direct_Some) auto
  have ex: "conv_exists db' x" if "conv_exists db x" for x using cs that by (auto simp: conv_exists_def)
  have "conv_exists db' conv" using c by (auto simp: conv_exists_def)
  moreover have "conv_seq db' x = conv_seq db x" if "conv_exists db x" for x
    using cs conv_seq_append [OF that] by (auto simp: conv_seq_def)
  moreover have "tbl_wf cv_ID (cd_Conversations db') \<and> (\<forall>c\<in>set (cd_Conversations db'). 0 \<le> cv_Seq c)"
    using cs ok by (auto simp: chat_ok_def tbl_wf_def)
  moreover have "distinct (cd_Members db')" using ok by (simp add: m chat_ok_def distinct_add_member)
  ultimately show ?thesis using ok ex by (auto simp: chat_ok_def m i)
qed

lemma direct_ok_Direct:
  assumes ok: "chat_ok db" and dk: "direct_ok db" and d: "GetOrCreateDirect nid a b db = Some (conv, db')"
    and ids: "CHR '':'' \<notin> set a" "CHR '':'' \<notin> set b"
  shows "direct_ok db' \<and> {u. (conv, u) \<in> set (cd_Members db')} = {a, b}"
proof -
  obtain c where c: "c \<in> set (cd_Conversations db')" "cv_ID c = conv" "cv_DirectKey c = Some (directKey a b)"
    and m: "cd_Members db' = add_member (conv, b) (add_member (conv, a) (cd_Members db))"
    and cs: "cd_Conversations db' = cd_Conversations db \<and> c \<in> set (cd_Conversations db) \<or>
     nid \<notin> cv_ID ` set (cd_Conversations db) \<and> Some (directKey a b) \<notin> cv_DirectKey ` set (cd_Conversations db) \<and>
       c = \<lparr>cv_ID = nid, cv_Seq = 0, cv_DirectKey = Some (directKey a b)\<rparr> \<and>
       cd_Conversations db' = cd_Conversations db @ [c]"
    using d by (rule Direct_Some)
  have old: "{u. (conv, u) \<in> set (cd_Members db)} \<subseteq> {a, b}"
    using cs
  proof
    assume "cd_Conversations db' = cd_Conversations db \<and> c \<in> set (cd_Conversations db)"
    then obtain x y where xy: "directKey a b = directKey x y" "CHR '':'' \<notin> set x" "CHR '':'' \<notin> set y"
      "{u. (conv, u) \<in> set (cd_Members db)} = {x, y}" using dk c by (fastforce simp: direct_ok_def)
    from directKey_inj [OF xy(1)] ids xy show ?thesis by auto
  next
    assume "nid \<notin> cv_ID ` set (cd_Conversations db) \<and> Some (directKey a b) \<notin> cv_DirectKey ` set (cd_Conversations db) \<and>
       c = \<lparr>cv_ID = nid, cv_Seq = 0, cv_DirectKey = Some (directKey a b)\<rparr> \<and> cd_Conversations db' = cd_Conversations db @ [c]"
    then have "\<not> conv_exists db conv" using c(2) by (auto simp: conv_exists_def)
    then show ?thesis using ok by (auto simp: chat_ok_def)
  qed
  then have mem: "{u. (conv, u) \<in> set (cd_Members db')} = {a, b}" by (auto simp: m)
  have same: "x = c" if "x \<in> set (cd_Conversations db')" "cv_ID x = conv" for x
    using chat_ok_Direct [OF ok d] c(1,2) that tbl_get_wf [of cv_ID "cd_Conversations db'"] by (metis chat_ok_def option.inject)
  have "\<exists>p q. k = directKey p q \<and> CHR '':'' \<notin> set p \<and> CHR '':'' \<notin> set q \<and> {u. (cv_ID x, u) \<in> set (cd_Members db')} = {p, q}"
    if x: "x \<in> set (cd_Conversations db')" "cv_DirectKey x = Some k" for x k
  proof (cases "cv_ID x = conv")
    case True
    with same x c(3) mem ids show ?thesis by fastforce
  next
    case False
    then have "x \<in> set (cd_Conversations db)" using cs x(1) c(2) by auto
    moreover have "{u. (cv_ID x, u) \<in> set (cd_Members db')} = {u. (cv_ID x, u) \<in> set (cd_Members db)}" using False by (auto simp: m)
    ultimately show ?thesis using dk x(2) by (simp add: direct_ok_def)
  qed
  with mem show ?thesis by (auto simp: direct_ok_def)
qed

end
