(* ===== verification/ChatRun.thy ===== *)
theory ChatRun
  imports ChatInv
begin

text \<open>
  Replay, runs of chat requests, and concurrent accepts: the lemmas behind the properties of the message path.
\<close>

section \<open>Replay\<close>

definition pending :: "chat_db \<Rightarrow> string \<Rightarrow> inbox_row list" where
  "pending db d = sort_key ib_pos (filter (\<lambda>r. ib_Device r = d) (cd_Inbox db))"

lemma set_pending [simp]: "set (pending db d) = {r \<in> set (cd_Inbox db). ib_Device r = d}"
  by (auto simp: pending_def)

lemma sorted_pending:
  assumes "chat_ok db"
  shows "sorted_wrt (\<lambda>a b. ib_pos a < ib_pos b) (pending db d)"
proof -
  have "distinct (map ib_unit (filter (\<lambda>r. ib_Device r = d) (cd_Inbox db)))"
    using assms by (simp add: chat_ok_def distinct_map_filter)
  then have "distinct (map ib_pos (filter (\<lambda>r. ib_Device r = d) (cd_Inbox db)))"
    by (auto simp: distinct_map inj_on_def ib_unit_def ib_pos_def)
  then show ?thesis unfolding pending_def by (rule sorted_distinct_key)
qed

lemma replay_scan_pending: "replay_scan db d pos n = take n (filter (\<lambda>r. ib_pos r > pos) (pending db d))"
  by (simp add: replay_scan_def pending_def filter_sort)

text \<open>What one scan of the rows after a position leaves for the next.\<close>

lemma after_scan:
  assumes "sorted_wrt (\<lambda>a b. ib_pos a < ib_pos b) rows" "filter (\<lambda>r. ib_pos r > pos) rows = drop k rows"
    "0 < n" "n \<le> length (drop k rows)"
  shows "filter (\<lambda>r. ib_pos r > ib_pos (last (take n (drop k rows)))) rows = drop (k + n) rows"
proof -
  have k: "k + n - 1 < length rows" "Suc (k + n - 1) = k + n" using assms(3,4) by auto
  have "last (take n (drop k rows)) = rows ! (k + n - 1)"
    using assms(3,4) by (subst last_conv_nth) (auto simp: min_def)
  with filter_after [OF assms(1) k(1)] k(2) show ?thesis by simp
qed

text \<open>The batches of a replay whose stream takes them all.\<close>

definition fresh :: "(string \<Rightarrow> int) \<Rightarrow> inbox_row \<Rightarrow> bool" where
  "fresh aft r \<longleftrightarrow> aft (ib_Conversation r) < ib_Seq r"

lemma pull_loop_from:
  assumes ok: "chat_ok db" and n: "0 < n"
    and pos: "filter (\<lambda>r. ib_pos r > pos) (pending db d) = drop k (pending db d)"
  shows "\<exists>bs. pull_loop db d aft n (\<lambda>_. True) pos = Some (bs, False) \<and>
    concat bs = map (item_of db) (filter (fresh aft) (drop k (pending db d))) \<and>
    (\<forall>b\<in>set bs. b \<noteq> [] \<and> length b \<le> n)"
  using pos
proof (induction "length (pending db d) - k" arbitrary: pos k rule: less_induct)
  case less
  let ?rest = "drop k (pending db d)"
  let ?rows = "take n ?rest"
  let ?batch = "map (item_of db) (filter (fresh aft) ?rows)"
  let ?sent = "if ?batch \<noteq> [] then [?batch] else []"
  have scan: "replay_scan db d pos n = ?rows" using less.prems by (simp add: replay_scan_pending)
  have fr: "(\<lambda>r. \<not> ib_Seq r \<le> aft (ib_Conversation r)) = fresh aft" by (auto simp: fun_eq_iff fresh_def)
  have sent: "concat ?sent = ?batch" "\<forall>b\<in>set ?sent. b \<noteq> [] \<and> length b \<le> n"
    by (auto intro: order_trans [OF length_filter_le])
  have unfold: "pull_loop db d aft n (\<lambda>_. True) pos =
    (if length ?rows < n then Some (?sent, False)
     else Option.bind (pull_loop db d aft n (\<lambda>_. True) (if ?rows = [] then pos else ib_pos (last ?rows)))
       (\<lambda>(bs, failed). Some (?sent @ bs, failed)))"
    by (subst pull_loop.simps) (simp add: scan Let_def fr)
  show ?case
  proof (cases "length ?rows < n")
    case True
    then have "?rows = ?rest" by simp
    with True sent show ?thesis unfolding unfold by auto
  next
    case False
    then have len: "n \<le> length ?rest" by (simp add: not_less)
    then have ne: "?rows \<noteq> []" and dec: "length (pending db d) - (k + n) < length (pending db d) - k" using n by auto
    obtain bs where bs: "pull_loop db d aft n (\<lambda>_. True) (ib_pos (last ?rows)) = Some (bs, False)"
      "concat bs = map (item_of db) (filter (fresh aft) (drop (k + n) (pending db d)))" "\<forall>b\<in>set bs. b \<noteq> [] \<and> length b \<le> n"
      using less.hyps [of "k + n", OF dec after_scan [OF sorted_pending [OF ok] less.prems n len]] by blast
    have "?rest = ?rows @ drop (k + n) (pending db d)" by (metis add.commute append_take_drop_id drop_drop)
    then have "map (item_of db) (filter (fresh aft) ?rest) = ?batch @ concat bs" by (metis bs(2) filter_append map_append)
    moreover have "pull_loop db d aft n (\<lambda>_. True) pos = Some (?sent @ bs, False)"
      unfolding unfold using False ne bs(1) by simp
    ultimately show ?thesis using sent bs(3) by auto
  qed
qed

lemma Store_Pull_all:
  assumes ok: "chat_ok db" and n: "0 < n" and z: "\<forall>r\<in>set (cd_Inbox db). zeroUUID \<le> ib_Conversation r"
  shows "\<exists>bs. Store_PullInbox db d cs n (\<lambda>_. True) = Some (bs, False) \<and>
    concat bs = map (item_of db) (filter (fresh (cursor_map cs)) (pending db d)) \<and>
    (\<forall>b\<in>set bs. b \<noteq> [] \<and> length b \<le> n)"
proof -
  have "filter (\<lambda>r. ib_pos r > (zeroUUID, 0)) (pending db d) = drop 0 (pending db d)"
    using ok z by (auto simp: ib_pos_def chat_ok_def less_prod_def' intro!: filter_True) (metis order_le_imp_less_or_eq)
  from pull_loop_from [OF ok n this] show ?thesis by (simp add: Store_PullInbox_def)
qed

section \<open>Runs of requests\<close>

lemma accept_store_cases:
  "(\<exists>err m. accept_store e req s = (Inl err, s\<lparr>cs_dedupe := m\<rparr>) \<and> (m = cs_dedupe s \<or> m = Release (aq_MsgUUID req) (cs_dedupe s))) \<or>
   (\<exists>res db'. accept_store e req s = (Inr res, s\<lparr>cs_db := db'\<rparr>) \<and> Store_Accept (params_of (ce_now e) req) (cs_db s) = Inr (res, db'))"
proof (cases "if ce_storeFails e then Inl StoreFail else Store_Accept (params_of (ce_now e) req) (cs_db s)")
  case (Inl err)
  let ?m = "if ce_releaseFails e then cs_dedupe s else Release (aq_MsgUUID req) (cs_dedupe s)"
  have "accept_store e req s = (Inl (if err = ErrNotMember then Reject 403 ''STATE_NOT_MEMBER'' else Transient), s\<lparr>cs_dedupe := ?m\<rparr>)"
    unfolding accept_store_def Inl by simp
  moreover have "?m = cs_dedupe s \<or> ?m = Release (aq_MsgUUID req) (cs_dedupe s)" by simp
  ultimately show ?thesis by blast
next
  case (Inr p)
  then show ?thesis by (cases p) (auto simp: accept_store_def split: if_splits)
qed

lemma Accept_cases:
  "cs_db (snd (snd (Accept lib e req s))) = cs_db s \<and>
     (\<forall>r. fst (Accept lib e req s) = Inr r \<longrightarrow> as_Deduped r) \<or>
   (\<exists>res db' r. Store_Accept (params_of (ce_now e) req) (cs_db s) = Inr (res, db') \<and>
      cs_db (snd (snd (Accept lib e req s))) = db' \<and> fst (Accept lib e req s) = Inr r \<and> as_Seq r = sr_Seq res \<and> \<not> as_Deduped r)"
proof (cases "accept_claim lib e req (cs_dedupe s)")
  case (Pair a m)
  show ?thesis
  proof (cases a)
    case None
    from accept_store_cases [of e req "s\<lparr>cs_dedupe := m\<rparr>"] Pair None show ?thesis
      by (elim disjE exE conjE) (auto simp: Accept_def accept_finish_def)
  next
    case (Some r)
    with Pair show ?thesis
      by (auto simp: Accept_def accept_claim_def split: option.splits if_splits claim_result.splits prod.splits)
  qed
qed

lemma chat_ok_op: "chat_ok (cs_db s) \<Longrightarrow> chat_ok (cs_db (chat_op_step lib s op))"
proof (cases op)
  case (OpAccept e req)
  assume "chat_ok (cs_db s)"
  with Accept_cases [of lib e req s] OpAccept show ?thesis by (auto intro: chat_ok_Accept)
qed (auto intro: chat_ok_Ack chat_ok_Direct split: option.split)

interpretation chat_inv: invariant_system "chat_op_step lib" "\<lambda>s. chat_ok (cs_db s)" for lib
  by unfold_locales (rule chat_ok_op)

text \<open>A row survives every request but an acknowledgement that covers it.\<close>

definition acked :: "chat_op \<Rightarrow> inbox_row \<Rightarrow> bool" where
  "acked op r \<longleftrightarrow> (case op of OpAck f d upTo \<Rightarrow> \<exists>c\<in>set upTo. covered d c r | _ \<Rightarrow> False)"

lemma row_kept_op:
  assumes ok: "chat_ok (cs_db s)" and r: "r \<in> set (cd_Inbox (cs_db s))" and "\<not> acked op r"
  shows "r \<in> set (cd_Inbox (cs_db (chat_op_step lib s op)))"
proof (cases op)
  case (OpAccept e req)
  with Accept_cases [of lib e req s] r Store_Accept_Inr(4) [OF ok] show ?thesis by fastforce
next
  case (OpAck f d upTo)
  with AckDelivered_inbox [of f d upTo "cs_db s"] r assms(3) show ?thesis by (auto simp: acked_def)
next
  case (OpDirect nid a b)
  with r show ?thesis by (auto split: option.split elim: Direct_Some)
qed

lemma row_kept_run:
  "chat_ok (cs_db s) \<Longrightarrow> r \<in> set (cd_Inbox (cs_db s)) \<Longrightarrow> \<forall>op\<in>set ops. \<not> acked op r \<Longrightarrow>
   r \<in> set (cd_Inbox (cs_db (run (chat_op_step lib) s ops)))"
  by (induction ops arbitrary: s) (auto intro: row_kept_op chat_ok_op simp del: chat_op_step.simps)

lemma conv_seq_op:
  assumes ok: "chat_ok (cs_db s)" and c: "conv_exists (cs_db s) x"
  shows "conv_exists (cs_db (chat_op_step lib s op)) x \<and> conv_seq (cs_db s) x \<le> conv_seq (cs_db (chat_op_step lib s op)) x"
proof (cases op)
  case (OpAccept e req)
  from Accept_cases [of lib e req s] show ?thesis
  proof
    assume "\<exists>res db' r. Store_Accept (params_of (ce_now e) req) (cs_db s) = Inr (res, db') \<and>
      cs_db (snd (snd (Accept lib e req s))) = db' \<and> fst (Accept lib e req s) = Inr r \<and> as_Seq r = sr_Seq res \<and> \<not> as_Deduped r"
    then obtain res db' where a: "Store_Accept (params_of (ce_now e) req) (cs_db s) = Inr (res, db')"
      and db': "cs_db (snd (snd (Accept lib e req s))) = db'" by blast
    show ?thesis
      using Store_Accept_Inr(2,8) [OF ok a] Store_Accept_Inr(7) [OF ok a, of x] c by (simp add: OpAccept db')
  qed (use c OpAccept in simp)
next
  case (OpAck f d upTo)
  with AckDelivered_inbox [of f d upTo "cs_db s"] c show ?thesis by (auto simp: conv_exists_def conv_seq_def)
next
  case (OpDirect nid a b)
  show ?thesis
  proof (cases "GetOrCreateDirect nid a b (cs_db s)")
    case (Some p)
    then obtain conv db' where p: "GetOrCreateDirect nid a b (cs_db s) = Some (conv, db')" by (cases p) auto
    then obtain cs where cs: "cd_Conversations db' = cd_Conversations (cs_db s) @ cs"
      by (rule Direct_Some) (metis append_Nil2)
    then have "conv_exists db' x" using c by (auto simp: conv_exists_def)
    with conv_seq_append [OF c cs] p show ?thesis by (simp add: OpDirect)
  qed (use c OpDirect in simp)
qed

lemma conv_seq_run:
  "chat_ok (cs_db s) \<Longrightarrow> conv_exists (cs_db s) x \<Longrightarrow>
   conv_exists (cs_db (run (chat_op_step lib) s ops)) x \<and> conv_seq (cs_db s) x \<le> conv_seq (cs_db (run (chat_op_step lib) s ops)) x"
proof (induction ops arbitrary: s)
  case (Cons op ops)
  have "conv_exists (cs_db (chat_op_step lib s op)) x" "conv_seq (cs_db s) x \<le> conv_seq (cs_db (chat_op_step lib s op)) x"
    using conv_seq_op [OF Cons.prems] by blast+
  moreover note Cons.IH [OF chat_ok_op [OF Cons.prems(1)] this(1)]
  ultimately show ?case unfolding run.simps by linarith
qed simp

section \<open>Concurrent accepts\<close>

definition in_window :: "instant \<Rightarrow> chat_env \<Rightarrow> bool" where
  "in_window t0 e \<longleftrightarrow> t0 \<le> ce_now e \<and> ce_now e < t0 + dedupeTTL"

definition slots :: "(chat_env \<times> accept_request) list \<Rightarrow> (string \<times> int) list \<Rightarrow> string \<Rightarrow> nat" where
  "slots claimed log u =
     length (filter (\<lambda>p. aq_MsgUUID (snd p) = u) claimed) + length (filter (\<lambda>p. fst p = u) log)"

text \<open>
  A message id without a record is neither claimed nor committed; otherwise it is claimed once or committed once.
  A recorded sequence number is the committed one, and records outlive the window.
\<close>

definition counts_ok :: "dedupe \<Rightarrow> (chat_env \<times> accept_request) list \<Rightarrow> (string \<times> int) list \<Rightarrow> bool" where
  "counts_ok m claimed log \<longleftrightarrow> (\<forall>u. slots claimed log u \<le> (if m u = None then 0 else 1))"

definition records_ok :: "instant \<Rightarrow> dedupe \<Rightarrow> (string \<times> int) list \<Rightarrow> bool" where
  "records_ok t0 m log \<longleftrightarrow>
     (\<forall>u v t. m u = Some (v, t) \<longrightarrow> t0 + dedupeTTL \<le> t \<and> (\<forall>n. v = Seqno n \<longrightarrow> (u, n) \<in> set log))"

definition stored_ok :: "instant \<Rightarrow> (chat_env \<times> accept_request \<times> store_result) list \<Rightarrow> (string \<times> int) list \<Rightarrow> bool" where
  "stored_ok t0 stored log \<longleftrightarrow>
     (\<forall>(e, req, res)\<in>set stored. in_window t0 e \<and> (aq_MsgUUID req, sr_Seq res) \<in> set log)"

definition conc_ok :: "instant \<Rightarrow> chat_conc \<Rightarrow> bool" where
  "conc_ok t0 c \<longleftrightarrow>
     (\<forall>(e, req)\<in>set (cf_claimed c). in_window t0 e) \<and> stored_ok t0 (cf_stored c) (cf_log c) \<and>
     records_ok t0 (cs_dedupe (cf_sys c)) (cf_log c) \<and> counts_ok (cs_dedupe (cf_sys c)) (cf_claimed c) (cf_log c)"

lemma counts_ok_at: "counts_ok m cl lg \<Longrightarrow> slots cl lg u \<le> (if m u = None then 0 else 1)"
  by (simp add: counts_ok_def)

lemma slots_le_one: "counts_ok m cl lg \<Longrightarrow> slots cl lg u \<le> 1"
  using counts_ok_at [of m cl lg u] by (cases "m u = None") simp_all

lemma records_alive:
  "records_ok t0 m lg \<Longrightarrow> now < t0 + dedupeTTL \<Longrightarrow> dedupe_get m now u = map_option fst (m u)"
  by (fastforce simp: records_ok_def dedupe_get_def split: option.split)

lemma accept_claim_None:
  assumes "accept_claim lib e req m = (None, m')"
  shows "dedupe_get m (ce_now e) (aq_MsgUUID req) = None" "m' = m(aq_MsgUUID req \<mapsto> (Pending, ce_now e + dedupeTTL))"
  using assms by (auto simp: accept_claim_def Claim_def split: option.splits if_splits dedupe_val.splits prod.splits claim_result.splits)

lemma accept_claim_Some:
  assumes "accept_claim lib e req m = (Some r, m')"
  shows "m' = m" "r = Inr a \<Longrightarrow> dedupe_get m (ce_now e) (aq_MsgUUID req) = Some (Seqno (as_Seq a))"
  using assms by (auto simp: accept_claim_def Claim_def split: option.splits if_splits dedupe_val.splits prod.splits claim_result.splits)

lemma conc_claim:
  assumes ok: "conc_ok t0 c" and w: "in_window t0 e" and cl: "accept_claim lib e req (cs_dedupe (cf_sys c)) = (None, m)"
  shows "conc_ok t0 (c\<lparr>cf_sys := (cf_sys c)\<lparr>cs_dedupe := m\<rparr>, cf_claimed := (e, req) # cf_claimed c\<rparr>)"
proof -
  let ?u = "aq_MsgUUID req" and ?m = "cs_dedupe (cf_sys c)"
  have a: "dedupe_get ?m (ce_now e) ?u = None" "m = ?m(?u \<mapsto> (Pending, ce_now e + dedupeTTL))"
    using accept_claim_None [OF cl] by auto
  have rec: "records_ok t0 ?m (cf_log c)" and cnt: "counts_ok ?m (cf_claimed c) (cf_log c)" using ok by (auto simp: conc_ok_def)
  have none: "?m ?u = None" using a(1) records_alive [OF rec] w by (simp add: in_window_def)
  have "records_ok t0 m (cf_log c)" using rec w by (auto simp: a(2) records_ok_def in_window_def)
  moreover have "slots ((e, req) # cf_claimed c) (cf_log c) u \<le> (if m u = None then 0 else 1)" for u
    using counts_ok_at [OF cnt, of u] none by (cases "u = ?u") (auto simp: slots_def a(2))
  ultimately show ?thesis using ok w by (simp add: conc_ok_def counts_ok_def)
qed

lemma conc_store_failed:
  assumes ok: "conc_ok t0 c" and cl: "cf_claimed c = xs @ (e, req) # ys" and st: "accept_store e req (cf_sys c) = (Inl err, s)"
  shows "conc_ok t0 (c\<lparr>cf_sys := s, cf_claimed := xs @ ys\<rparr>)"
proof -
  let ?u = "aq_MsgUUID req" and ?m = "cs_dedupe (cf_sys c)"
  obtain m where s: "s = (cf_sys c)\<lparr>cs_dedupe := m\<rparr>" and m: "m = ?m \<or> m = Release ?u ?m"
    using accept_store_cases [of e req "cf_sys c"] st by auto
  have cnt: "counts_ok ?m (xs @ (e, req) # ys) (cf_log c)" using ok by (simp add: conc_ok_def cl)
  have "slots (xs @ ys) (cf_log c) u \<le> (if m u = None then 0 else 1)" for u
    using counts_ok_at [OF cnt, of u] m by (cases "u = ?u") (auto simp: slots_def Release_def split: if_splits)
  moreover have "records_ok t0 m (cf_log c)" using ok m by (auto simp: conc_ok_def records_ok_def Release_def split: if_splits)
  ultimately show ?thesis using ok by (simp add: conc_ok_def counts_ok_def cl s)
qed

lemma conc_store_done:
  assumes ok: "conc_ok t0 c" and cl: "cf_claimed c = xs @ (e, req) # ys" and st: "accept_store e req (cf_sys c) = (Inr res, s)"
  shows "conc_ok t0 (c\<lparr>cf_sys := s, cf_claimed := xs @ ys, cf_stored := (e, req, res) # cf_stored c,
      cf_log := (aq_MsgUUID req, sr_Seq res) # cf_log c\<rparr>)"
proof -
  let ?m = "cs_dedupe (cf_sys c)" and ?log = "(aq_MsgUUID req, sr_Seq res) # cf_log c"
  have d: "cs_dedupe s = ?m" using accept_store_cases [of e req "cf_sys c"] st by auto
  have "slots (xs @ ys) ?log u = slots (cf_claimed c) (cf_log c) u" for u by (simp add: slots_def cl)
  then have "counts_ok ?m (xs @ ys) ?log" using ok by (simp add: conc_ok_def counts_ok_def)
  moreover have "records_ok t0 ?m ?log" using ok by (fastforce simp: conc_ok_def records_ok_def)
  moreover have "stored_ok t0 ((e, req, res) # cf_stored c) ?log" using ok cl by (auto simp: conc_ok_def stored_ok_def)
  ultimately show ?thesis using ok by (simp add: conc_ok_def cl d)
qed

lemma conc_finish:
  assumes ok: "conc_ok t0 c" and st: "cf_stored c = xs @ (e, req, res) # ys" and fi: "accept_finish e req res (cf_sys c) = (r, out, s)"
  shows "conc_ok t0 (c\<lparr>cf_sys := s, cf_stored := xs @ ys\<rparr>)"
proof -
  let ?u = "aq_MsgUUID req" and ?m = "cs_dedupe (cf_sys c)"
  obtain m where s: "s = (cf_sys c)\<lparr>cs_dedupe := m\<rparr>" and m: "m = ?m \<or> m = Commit (ce_now e) ?u (sr_Seq res) ?m"
    using fi by (auto simp: accept_finish_def)
  have e: "in_window t0 e" "(?u, sr_Seq res) \<in> set (cf_log c)" and cnt: "counts_ok ?m (cf_claimed c) (cf_log c)"
    and rec: "records_ok t0 ?m (cf_log c)" using ok st by (auto simp: conc_ok_def stored_ok_def)
  have "slots (cf_claimed c) (cf_log c) ?u \<noteq> 0" using e(2) by (force simp: slots_def filter_empty_conv)
  then have "?m ?u \<noteq> None" using counts_ok_at [OF cnt, of ?u] by (metis le_zero_eq)
  then have "(m u = None) = (?m u = None)" for u using m by (auto simp: Commit_def split: if_splits)
  then have "counts_ok m (cf_claimed c) (cf_log c)" using cnt unfolding counts_ok_def by simp
  moreover have "records_ok t0 m (cf_log c)" using rec m e by (auto simp: records_ok_def Commit_def in_window_def split: if_splits)
  ultimately show ?thesis using ok by (auto simp: conc_ok_def s st stored_ok_def)
qed

lemma conc_ok_reach:
  assumes "chat_reach lib t0 c0 c" "conc_ok t0 c0"
  shows "conc_ok t0 c"
  using assms
proof (induction rule: chat_reach.induct)
  case (step c c')
  then have ok: "conc_ok t0 c" by simp
  show ?case using step.hyps(2)
  proof (cases rule: chat_step.cases)
    case (claim_answered e req r m)
    with ok accept_claim_Some(1) show ?thesis by fastforce
  next
    case (claim_won e req m)
    then have "in_window t0 e" using step.hyps(3) by (simp add: in_window_def)
    with claim_won ok show ?thesis using conc_claim by blast
  next
    case (ack fails d upTo)
    with ok show ?thesis by (simp add: conc_ok_def)
  qed (use ok conc_store_failed conc_store_done conc_finish in metis)+
qed

definition chat_idle :: "chat_db \<Rightarrow> chat_conc" where
  "chat_idle db = \<lparr>cf_sys = \<lparr>cs_db = db, cs_dedupe = Map.empty\<rparr>, cf_claimed = [], cf_stored = [], cf_log = []\<rparr>"

lemma conc_ok_idle: "conc_ok t0 (chat_idle db)"
  by (simp add: conc_ok_def chat_idle_def stored_ok_def records_ok_def counts_ok_def slots_def)

lemma distinct_of_counts: "(\<And>u. length (filter (\<lambda>p. fst p = u) ps) \<le> 1) \<Longrightarrow> distinct (map fst ps)"
proof (induction ps)
  case (Cons p ps)
  have le: "length (filter (\<lambda>q. fst q = u) ps) \<le> 1" for u using Cons.prems [of u] by (simp split: if_splits)
  have "filter (\<lambda>q. fst q = fst p) ps = []" using Cons.prems [of "fst p"] by simp
  then show ?case using Cons.IH le by (auto simp: filter_empty_conv)
qed simp

section \<open>Coalesced receipts\<close>

definition submit_all :: "receipt_in list \<Rightarrow> coalescer" where
  "submit_all rs = fold (\<lambda>r. Submit (ri_ConversationID r) (ri_Kind r) (ri_UpToSeq r)) rs []"

definition marks :: "receipt_in list \<Rightarrow> string \<times> receipt_kind \<Rightarrow> int set" where
  "marks rs k = {n. 0 < n \<and> (\<exists>r\<in>set rs. (ri_ConversationID r, ri_Kind r) = k \<and> ri_UpToSeq r = n)}"

lemma finite_marks [simp]: "finite (marks rs k)"
  by (rule finite_subset [of _ "ri_UpToSeq ` set rs"]) (auto simp: marks_def)

lemma marks_snoc: "marks (rs @ [r]) k =
    (if k = (ri_ConversationID r, ri_Kind r) \<and> 0 < ri_UpToSeq r then insert (ri_UpToSeq r) (marks rs k) else marks rs k)"
  by (auto simp: marks_def)

lemma marks_pos: "marks rs k \<noteq> {} \<Longrightarrow> 0 < Max (marks rs k)"
  using Max_in [OF finite_marks, of rs k] by (simp add: marks_def)

lemma marks_max:
  "n \<in> marks rs (conv, kind) \<and> (\<forall>x\<in>marks rs (conv, kind). x \<le> n) \<longleftrightarrow>
   0 < n \<and> (\<exists>r\<in>set rs. ri_ConversationID r = conv \<and> ri_Kind r = kind \<and> ri_UpToSeq r = n) \<and>
   (\<forall>r\<in>set rs. ri_ConversationID r = conv \<longrightarrow> ri_Kind r = kind \<longrightarrow> ri_UpToSeq r \<le> n)"
  by (auto simp: marks_def) (metis dual_order.trans linorder_not_le order_less_imp_le)

lemma submit_all_seq:
  "distinct (map fst (submit_all rs)) \<and>
   map_of (submit_all rs) k = (if marks rs k = {} then None else Some (Max (marks rs k)))"
proof (induction rs rule: rev_induct)
  case (snoc r rs)
  let ?k = "(ri_ConversationID r, ri_Kind r)" and ?n = "ri_UpToSeq r" and ?S = "marks rs k"
  have snoc': "submit_all (rs @ [r]) = Submit (ri_ConversationID r) (ri_Kind r) (ri_UpToSeq r) (submit_all rs)"
    by (simp add: submit_all_def)
  have p: "pending_seq (submit_all rs) k = (if ?S = {} then 0 else Max ?S)"
    using snoc.IH by (simp add: pending_seq_def)
  have "map_of (submit_all (rs @ [r])) k = (if k = ?k \<and> ?n > pending_seq (submit_all rs) k then Some ?n else map_of (submit_all rs) k)"
    by (auto simp: snoc' Submit_def Let_def update_conv')
  also have "\<dots> = (if marks (rs @ [r]) k = {} then None else Some (Max (marks (rs @ [r]) k)))"
  proof (cases "k = ?k \<and> 0 < ?n")
    case True
    obtain M where M: "?S \<noteq> {} \<longrightarrow> Max ?S = M" by blast
    then have "?S \<noteq> {} \<longrightarrow> Max (insert ?n ?S) = max ?n M" using Max_insert [OF finite_marks] by simp
    with True M p snoc.IH show ?thesis unfolding marks_snoc by (cases "?S = {}") (auto simp: max_def)
  next
    case False
    have "0 \<le> pending_seq (submit_all rs) k" unfolding p using marks_pos [of rs k] by (metis less_imp_le order_refl)
    with False have "\<not> (k = ?k \<and> ?n > pending_seq (submit_all rs) k)" by linarith
    with False snoc.IH show ?thesis by (simp only: marks_snoc if_False)
  qed
  finally show ?case using snoc.IH by (simp add: snoc' Submit_def Let_def distinct_update)
qed (simp add: submit_all_def marks_def)

end
