(* ===== verification/ChatProps.thy ===== *)
theory ChatProps
  imports ChatRun
begin

text \<open>
  What the message path guarantees: one transaction per message id, order, delivery until acknowledgement, complete
  replay, overlay windows, direct conversations and receipts; and what happens when a de-duplication record is lost.
\<close>

section \<open>Inputs of the witnesses\<close>

definition ex_uuid :: uuid_lib where
  "ex_uuid s = (if s = [] then None else Some (7, 0))"

definition ex_cenv :: "instant \<Rightarrow> chat_env" where
  "ex_cenv now = \<lparr>ce_now = now, ce_claimFails = False, ce_storeFails = False, ce_releaseFails = False,
     ce_commitFails = False, ce_pubFails = (\<lambda>_. False)\<rparr>"

definition ex_msg :: "string \<Rightarrow> accept_request" where
  "ex_msg u = \<lparr>aq_SenderUserID = ''ua'', aq_SenderDeviceID = ''da'', aq_ConversationID = ''c1'', aq_MsgUUID = u,
     aq_Kind = KindText, aq_OverlayTarget = [], aq_Ciphertext = ''x''\<rparr>"

definition ex_chat_db :: chat_db where
  "ex_chat_db = \<lparr>cd_Conversations = [\<lparr>cv_ID = ''c1'', cv_Seq = 0, cv_DirectKey = None\<rparr>],
     cd_Members = [(''c1'', ''ua''), (''c1'', ''ub'')],
     cd_Devices = [\<lparr>dv_ID = ''da'', dv_UserID = ''ua'', dv_Revoked = False\<rparr>, \<lparr>dv_ID = ''db'', dv_UserID = ''ub'', dv_Revoked = False\<rparr>],
     cd_Inbox = [], cd_ReadReceipts = []\<rparr>"

definition ex_chat :: chat_sys where
  "ex_chat = \<lparr>cs_db = ex_chat_db, cs_dedupe = Map.empty\<rparr>"

lemma ex_chat_ok: "chat_ok (cs_db ex_chat)"
  by (simp add: chat_ok_def ex_chat_def ex_chat_db_def tbl_wf_def conv_exists_def)

lemmas chat_eval = ex_chat_def ex_chat_db_def ex_cenv_def ex_msg_def ex_uuid_def Accept_def accept_claim_def accept_validate_def
  id_Parse_def requiresTarget_def kind_defs CheckOverlayWindow_def Claim_def dedupe_get_def accept_store_def params_of_def
  Store_Accept_def tbl_get_Cons member_devices_def user_devices_def inbox_insert_def accept_finish_def Commit_def Let_def

definition ex_chat1 :: chat_sys where
  "ex_chat1 = snd (snd (Accept ex_uuid (ex_cenv 0) (ex_msg ''m'') ex_chat))"

lemma ex_chat1_rows: "cd_Inbox (cs_db ex_chat1) = [accept_row (params_of 0 (ex_msg ''m'')) 1 ''db'']"
  by (simp add: ex_chat1_def chat_eval accept_row_def)

lemma ex_zero: "zeroUUID \<le> ''c1''"
  by (simp add: zeroUUID_def less_eq_char_def less_char_def)

lemma ex_chat1_zero: "\<forall>r\<in>set (cd_Inbox (cs_db ex_chat1)). zeroUUID \<le> ib_Conversation r"
  using ex_zero by (simp add: ex_chat1_rows accept_row_def params_of_def ex_msg_def)

lemma ex_chat1_ok: "chat_ok (cs_db ex_chat1)"
  using chat_ok_op [OF ex_chat_ok, of ex_uuid "OpAccept (ex_cenv 0) (ex_msg ''m'')"] by (simp add: ex_chat1_def)

lemma ex_accept: "Accept ex_uuid (ex_cenv 0) (ex_msg ''m'') ex_chat =
    (Inr \<lparr>as_Seq = 1, as_ServerTimeMS = 0, as_RecipientCount = 1, as_Deduped = False\<rparr>,
     [(''db'', live_item 0 (ex_msg ''m'') 1)], ex_chat1)"
  by (simp add: ex_chat1_def) (simp add: chat_eval UnixMilli_def live_item_def)

section \<open>Accepting\<close>

text \<open>
C1. At most one transaction per message id: however the claims, transactions, releases and commits of concurrent accepts
interleave within one life time of a de-duplication record, no message id is committed twice, and every duplicate that
is acknowledged is acknowledged with the sequence number of that one commit.
\<close>

theorem accepted_once:
  assumes "chat_reach lib t0 (chat_idle db) c"
  shows "distinct (map fst (cf_log c)) \<and>
    (\<forall>e req a m. accept_claim lib e req (cs_dedupe (cf_sys c)) = (Some (Inr a), m) \<longrightarrow>
       (aq_MsgUUID req, as_Seq a) \<in> set (cf_log c))"
proof -
  have ok: "conc_ok t0 c" using conc_ok_reach [OF assms conc_ok_idle] .
  have "length (filter (\<lambda>p. fst p = u) (cf_log c)) \<le> 1" for u
  proof -
    have "counts_ok (cs_dedupe (cf_sys c)) (cf_claimed c) (cf_log c)" using ok by (simp add: conc_ok_def)
    then have "slots (cf_claimed c) (cf_log c) u \<le> 1" by (rule slots_le_one)
    then show ?thesis by (simp add: slots_def)
  qed
  then have "distinct (map fst (cf_log c))" by (rule distinct_of_counts)
  moreover have "(aq_MsgUUID req, as_Seq a) \<in> set (cf_log c)"
    if "accept_claim lib e req (cs_dedupe (cf_sys c)) = (Some (Inr a), m)" for e req a m
    using accept_claim_Some(2) [OF that] ok
    by (auto simp: conc_ok_def records_ok_def dedupe_get_def split: option.splits if_splits)
  ultimately show ?thesis by blast
qed

text \<open>Two accepts of one message: the first claims, the second is told to retry.\<close>

lemma ex_reach: "chat_reach ex_uuid 0 (chat_idle ex_chat_db)
    ((chat_idle ex_chat_db)\<lparr>cf_sys := ex_chat\<lparr>cs_dedupe := [''m'' \<mapsto> (Pending, dedupeTTL)]\<rparr>, cf_claimed := [(ex_cenv 0, ex_msg ''m'')]\<rparr>)"
proof -
  let ?c = "chat_idle ex_chat_db" and ?m = "[''m'' \<mapsto> (Pending, dedupeTTL)]"
  have "accept_claim ex_uuid (ex_cenv 0) (ex_msg ''m'') (cs_dedupe (cf_sys ?c)) = (None, ?m)"
    by (simp add: chat_eval chat_idle_def)
  from chat_step.claim_won [OF this]
  have "chat_step ex_uuid ?c (?c\<lparr>cf_sys := ex_chat\<lparr>cs_dedupe := ?m\<rparr>, cf_claimed := [(ex_cenv 0, ex_msg ''m'')]\<rparr>)"
    by (simp add: chat_idle_def ex_chat_def)
  then show ?thesis
    by (rule chat_reach.step [OF chat_reach.start]) (simp add: ex_cenv_def dedupeTTL_def Hour_def Minute_def Second_def Millisecond_def)
qed

theorem accepted_once_witness: "distinct (map fst (cf_log ((chat_idle ex_chat_db)
    \<lparr>cf_sys := ex_chat\<lparr>cs_dedupe := [''m'' \<mapsto> (Pending, dedupeTTL)]\<rparr>, cf_claimed := [(ex_cenv 0, ex_msg ''m'')]\<rparr>)))"
  using accepted_once [OF ex_reach] by blast

text \<open>
Messages of a conversation are numbered in the order they are accepted: of two accepts in one conversation that are not
duplicates, with any requests in between, the later one gets the larger sequence number.
\<close>

theorem accept_order:
  assumes "chat_ok (cs_db s)" "Accept lib e q s = (Inr r, out, s1)" "\<not> as_Deduped r"
    "Accept lib e' q' (run (chat_op_step lib) s1 ops) = (Inr r', out', s2)" "\<not> as_Deduped r'"
    "aq_ConversationID q' = aq_ConversationID q"
  shows "as_Seq r < as_Seq r'"
proof -
  let ?s = "run (chat_op_step lib) s1 ops" and ?c = "aq_ConversationID q"
  obtain res db where a: "Store_Accept (params_of (ce_now e) q) (cs_db s) = Inr (res, db)" "cs_db s1 = db" "as_Seq r = sr_Seq res"
    using Accept_cases [of lib e q s] assms(2,3) by auto
  have ok1: "chat_ok (cs_db s1)" using chat_ok_Accept [OF assms(1) a(1)] a(2) by simp
  have at1: "conv_seq (cs_db s1) ?c = as_Seq r" using Store_Accept_Inr(7) [OF assms(1) a(1)] a(2,3) by (simp add: params_of_def)
  have "(?c, aq_SenderUserID q) \<in> set (cd_Members (cs_db s))" using Store_Accept_Inr(1) [OF assms(1) a(1)] by (simp add: params_of_def)
  then have "conv_exists (cs_db s) ?c" using assms(1) by (force simp: chat_ok_def)
  then have "conv_exists (cs_db s1) ?c" using Store_Accept_Inr(8) [OF assms(1) a(1)] a(2) by simp
  with conv_seq_run [OF ok1] at1 have ge: "as_Seq r \<le> conv_seq (cs_db ?s) ?c" by force
  obtain res' db' where b: "Store_Accept (params_of (ce_now e') q') (cs_db ?s) = Inr (res', db')" "as_Seq r' = sr_Seq res'"
    using Accept_cases [of lib e' q' ?s] assms(4,5) by auto
  have "chat_ok (cs_db ?s)" using chat_inv.keep_run [OF ok1] .
  from Store_Accept_Inr(2) [OF this b(1)] b(2) ge assms(6) show ?thesis by (simp add: params_of_def)
qed

lemma ex_accept2: "\<exists>r out s2. Accept ex_uuid (ex_cenv 5) (ex_msg ''n'') (run (chat_op_step ex_uuid)
    ex_chat1 []) = (Inr r, out, s2) \<and> \<not> as_Deduped r \<and> as_Seq r = 2"
  by (simp add: ex_chat1_def) (simp add: chat_eval tbl_upd_def)

theorem accept_order_witness: "(1::int) < as_Seq (projr (fst (Accept ex_uuid (ex_cenv 5) (ex_msg ''n'') (run (chat_op_step ex_uuid)
    ex_chat1 []))))"
proof -
  obtain r out s2 where a: "Accept ex_uuid (ex_cenv 5) (ex_msg ''n'') (run (chat_op_step ex_uuid)
    ex_chat1 []) = (Inr r, out, s2)" "\<not> as_Deduped r"
    using ex_accept2 by blast
  from accept_order [OF ex_chat_ok ex_accept _ a(1) a(2)] a(1) show ?thesis by (simp add: ex_msg_def)
qed

section \<open>Delivery\<close>

lemma accepted_row:
  assumes ok: "chat_ok (cs_db s)" and a: "Accept lib e q s = (Inr r, out, s1)" "\<not> as_Deduped r"
    and d: "d \<in> set (cd_Devices (cs_db s))" "(aq_ConversationID q, dv_UserID d) \<in> set (cd_Members (cs_db s))"
      "\<not> dv_Revoked d" "dv_ID d \<noteq> aq_SenderDeviceID q"
  shows "accept_row (params_of (ce_now e) q) (as_Seq r) (dv_ID d) \<in> set (cd_Inbox (cs_db s1))"
proof -
  obtain res db where st: "Store_Accept (params_of (ce_now e) q) (cs_db s) = Inr (res, db)" "cs_db s1 = db" "as_Seq r = sr_Seq res"
    using Accept_cases [of lib e q s] a by auto
  have "dv_ID d \<in> set (sr_RecipientDeviceIDs res)"
    using d unfolding Store_Accept_Inr(3) [OF ok st(1)] in_member_devices by (auto simp: params_of_def)
  then show ?thesis by (simp add: st(2,3) Store_Accept_Inr(4) [OF ok st(1)])
qed

text \<open>
C16. Replay is complete and ordered: a pull of a device's inbox, with any batch size, drains; its batches are non-empty, hold
at most 100 items, and together are exactly the rows of the device beyond its cursors, in conversation and sequence order.
\<close>

theorem replay_complete:
  assumes "chat_ok db" "d \<noteq> []" "\<forall>r\<in>set (cd_Inbox db). zeroUUID \<le> ib_Conversation r"
  shows "\<exists>bs. PullInbox db d cursors n (\<lambda>_. True) = Inr (Some (bs, False)) \<and>
    concat bs = map (item_of db) (filter (\<lambda>r. cursor_map cursors (ib_Conversation r) < ib_Seq r)
      (sort_key (\<lambda>r. (ib_Conversation r, ib_Seq r)) (filter (\<lambda>r. ib_Device r = d) (cd_Inbox db)))) \<and>
    (\<forall>b\<in>set bs. b \<noteq> [] \<and> length b \<le> 100)"
proof -
  let ?n = "if n \<le> 0 \<or> n > int ReplayBatchSize then ReplayBatchSize else nat n"
  have n: "0 < ?n" "?n \<le> 100" by (auto simp: ReplayBatchSize_def)
  obtain bs where bs: "Store_PullInbox db d cursors ?n (\<lambda>_. True) = Some (bs, False)"
    "concat bs = map (item_of db) (filter (fresh (cursor_map cursors)) (pending db d))" "\<forall>b\<in>set bs. b \<noteq> [] \<and> length b \<le> ?n"
    using Store_Pull_all [OF assms(1) n(1) assms(3)] by blast
  have "ib_pos = (\<lambda>r. (ib_Conversation r, ib_Seq r))" "fresh (cursor_map cursors) = (\<lambda>r. cursor_map cursors (ib_Conversation r) < ib_Seq r)"
    by (auto simp: fun_eq_iff ib_pos_def fresh_def)
  with bs n(2) assms(2) show ?thesis
    by (intro exI [of _ bs]) (auto simp: PullInbox_def pending_def intro: le_trans)
qed

theorem replay_complete_witness:
  "\<exists>bs. PullInbox (cs_db ex_chat1) ''db'' [] 0 (\<lambda>_. True) = Inr (Some (bs, False)) \<and> length (concat bs) = 1"
  using replay_complete [OF ex_chat1_ok _ ex_chat1_zero, of "''db''" "[]" 0]
  by (auto simp: ex_chat1_rows accept_row_def)



section \<open>Lost records\<close>

text \<open>
A lost de-duplication record means a second copy: when a message is accepted again after its record has expired (a day
after the first accept), it gets a new sequence number, and every recipient device then holds two rows with that message
id. The primary key of the inbox, which contains the sequence number, does not suppress the copy.
\<close>

theorem expired_record_duplicates:
  assumes ok: "chat_ok (cs_db s)" and a: "Accept lib e q s = (Inr r, out, s1)" "\<not> as_Deduped r" "\<not> ce_commitFails e"
    and a': "Accept lib e' q s1 = (Inr r', out', s2)" and late: "ce_now e + dedupeTTL \<le> ce_now e'"
    and d: "d \<in> set (cd_Devices (cs_db s))" "(aq_ConversationID q, dv_UserID d) \<in> set (cd_Members (cs_db s))"
      "\<not> dv_Revoked d" "dv_ID d \<noteq> aq_SenderDeviceID q"
  shows "as_Seq r' \<noteq> as_Seq r \<and> (\<exists>x\<in>set (cd_Inbox (cs_db s2)). \<exists>y\<in>set (cd_Inbox (cs_db s2)).
    ib_Device x = dv_ID d \<and> ib_Device y = dv_ID d \<and> ib_MsgUUID x = aq_MsgUUID q \<and> ib_MsgUUID y = aq_MsgUUID q \<and>
    ib_Seq x = as_Seq r \<and> ib_Seq y = as_Seq r')"
proof -
  obtain res db where st: "Store_Accept (params_of (ce_now e) q) (cs_db s) = Inr (res, db)" "cs_db s1 = db" "as_Seq r = sr_Seq res"
    using Accept_cases [of lib e q s] a by auto
  have ok1: "chat_ok (cs_db s1)" using chat_ok_Accept [OF ok st(1)] st(2) by simp
  have rec: "cs_dedupe s1 (aq_MsgUUID q) = Some (Seqno (as_Seq r), ce_now e + dedupeTTL)"
    using a by (auto simp: Accept_def accept_finish_def Commit_def Let_def
        split: option.splits prod.splits sum.splits) (auto simp: accept_claim_def split: option.splits if_splits prod.splits claim_result.splits)
  then have "dedupe_get (cs_dedupe s1) (ce_now e') (aq_MsgUUID q) = None" using late by (simp add: dedupe_get_def)
  then have nd: "\<not> as_Deduped r'"
    using a' by (auto simp: Accept_def accept_claim_def Claim_def accept_finish_def Let_def
        split: option.splits prod.splits sum.splits if_splits)
  obtain res' db' where st': "Store_Accept (params_of (ce_now e') q) (cs_db s1) = Inr (res', db')" "cs_db s2 = db'" "as_Seq r' = sr_Seq res'"
    using Accept_cases [of lib e' q s1] a' nd by auto
  have "as_Seq r' = as_Seq r + 1"
    using Store_Accept_Inr(2) [OF ok1 st'(1)] Store_Accept_Inr(7) [OF ok st(1)] st(2,3) st'(3) by (simp add: params_of_def)
  moreover have "accept_row (params_of (ce_now e) q) (as_Seq r) (dv_ID d) \<in> set (cd_Inbox (cs_db s2))"
    using accepted_row [OF ok a(1,2) d] Store_Accept_Inr(4) [OF ok1 st'(1)] st'(2) by auto
  moreover have "accept_row (params_of (ce_now e') q) (as_Seq r') (dv_ID d) \<in> set (cd_Inbox (cs_db s2))"
    using accepted_row [OF ok1 a' nd, of d] d Store_Accept_Inr(5,6) [OF ok st(1)] st(2) by simp
  ultimately show ?thesis by (force simp: accept_row_def params_of_def)
qed

theorem expired_record_duplicates_witness:
  "let s2 = snd (snd (Accept ex_uuid (ex_cenv dedupeTTL) (ex_msg ''m'') ex_chat1)) in
   \<exists>x\<in>set (cd_Inbox (cs_db s2)). \<exists>y\<in>set (cd_Inbox (cs_db s2)).
     ib_Device x = ''db'' \<and> ib_Device y = ''db'' \<and> ib_MsgUUID x = ''m'' \<and> ib_MsgUUID y = ''m'' \<and> ib_Seq x = 1 \<and> ib_Seq y = 2"
proof -
  have "\<exists>r out s2. Accept ex_uuid (ex_cenv dedupeTTL) (ex_msg ''m'') ex_chat1 = (Inr r, out, s2) \<and> as_Seq r = 2"
    by (simp add: ex_chat1_def) (simp add: chat_eval tbl_upd_def)
  then obtain r out s2 where a: "Accept ex_uuid (ex_cenv dedupeTTL) (ex_msg ''m'') ex_chat1 = (Inr r, out, s2)" "as_Seq r = 2" by blast
  let ?d = "\<lparr>dv_ID = ''db'', dv_UserID = ''ub'', dv_Revoked = False\<rparr>"
  have "?d \<in> set (cd_Devices (cs_db ex_chat))" "(aq_ConversationID (ex_msg ''m''), dv_UserID ?d) \<in> set (cd_Members (cs_db ex_chat))"
    by (simp_all add: ex_chat_def ex_chat_db_def ex_msg_def)
  from expired_record_duplicates [OF ex_chat_ok ex_accept _ _ a(1) _ this] a
  show ?thesis by (simp add: ex_msg_def ex_cenv_def)
qed

text \<open>
A failed commit blocks retries: when an accept succeeds but recording its sequence number fails, every retry of that
message within a day is told to try again, and never gets the acknowledgement of the accepted message.
\<close>

theorem failed_commit_blocks_retry:
  assumes a: "Accept lib e q s = (Inr r, out, s1)" "\<not> as_Deduped r" "ce_commitFails e"
    and q': "aq_MsgUUID q' = aq_MsgUUID q" "ce_now e' < ce_now e + dedupeTTL"
  shows "\<exists>err. Accept lib e' q' s1 = (Inl err, [], s1) \<and> (accept_validate lib (ce_now e') q' = None \<longrightarrow> err = Transient)"
proof -
  obtain m where m: "accept_claim lib e q (cs_dedupe s) = (None, m)"
    using a(1,2) by (auto simp: Accept_def accept_claim_def split: option.splits if_splits prod.splits claim_result.splits)
  have "cs_dedupe s1 = m"
    using a(1,3) m accept_store_cases [of e q "s\<lparr>cs_dedupe := m\<rparr>"] by (auto simp: Accept_def accept_finish_def)
  then have "cs_dedupe s1 (aq_MsgUUID q) = Some (Pending, ce_now e + dedupeTTL)" using accept_claim_None(2) [OF m] by simp
  then have "Claim (ce_now e') (aq_MsgUUID q') (cs_dedupe s1) = (InFlight, cs_dedupe s1)"
    using q' by (simp add: Claim_def dedupe_get_def)
  then show ?thesis
    by (auto simp: Accept_def accept_claim_def split: option.split)
qed

theorem failed_commit_blocks_retry_witness:
  "\<exists>err. Accept ex_uuid (ex_cenv 1) (ex_msg ''m'') (snd (snd (Accept ex_uuid (ex_cenv 0\<lparr>ce_commitFails := True\<rparr>) (ex_msg ''m'') ex_chat)))
     = (Inl err, [], snd (snd (Accept ex_uuid (ex_cenv 0\<lparr>ce_commitFails := True\<rparr>) (ex_msg ''m'') ex_chat)))"
proof -
  have "\<exists>r out s1. Accept ex_uuid (ex_cenv 0\<lparr>ce_commitFails := True\<rparr>) (ex_msg ''m'') ex_chat = (Inr r, out, s1) \<and> \<not> as_Deduped r"
    by (simp add: chat_eval)
  then obtain r out s1 where a: "Accept ex_uuid (ex_cenv 0\<lparr>ce_commitFails := True\<rparr>) (ex_msg ''m'') ex_chat = (Inr r, out, s1)" "\<not> as_Deduped r"
    by blast
  from failed_commit_blocks_retry [OF a, of "ex_msg ''m''" "ex_cenv 1"] show ?thesis
    using a(1) by (auto simp: ex_cenv_def dedupeTTL_def time_units)
qed

section \<open>Overlays, direct conversations, receipts\<close>

text \<open>
Overlay windows hold: an edit is accepted only if its target is a UUIDv7 at most 15 minutes old by its own time stamp, a
delete only if it is at most 48 hours old, and no other request than one with a UUIDv7 id and a ciphertext is accepted.
\<close>

theorem overlay_windows:
  assumes "Accept lib e q s = (Inr r, out, s1)"
  shows "id_Parse lib (aq_MsgUUID q) \<noteq> None \<and> aq_Ciphertext q \<noteq> [] \<and>
    (requiresTarget (aq_Kind q) \<longrightarrow> id_Parse lib (aq_OverlayTarget q) \<noteq> None) \<and>
    (aq_Kind q = KindOverlayEdit \<longrightarrow> (\<exists>t. id_Parse lib (aq_OverlayTarget q) = Some t \<and> ce_now e - t \<le> 15 * Minute)) \<and>
    (aq_Kind q = KindOverlayDelete \<longrightarrow> (\<exists>t. id_Parse lib (aq_OverlayTarget q) = Some t \<and> ce_now e - t \<le> 48 * Hour))"
proof -
  have "accept_validate lib (ce_now e) q = None"
    using assms by (auto simp: Accept_def accept_claim_def split: option.splits)
  then show ?thesis
    by (auto simp: accept_validate_def CheckOverlayWindow_def EditWindow_def DeleteWindow_def Let_def kind_defs
        split: if_splits option.splits window_result.splits)
qed

theorem overlay_windows_witness: "id_Parse ex_uuid (aq_MsgUUID (ex_msg ''m'')) \<noteq> None"
  using overlay_windows [OF ex_accept] by blast

text \<open>
Two users share one direct conversation: when the tables are consistent and user ids are free of colons, asking for the
conversation of two users, in either order and however often, gives the same conversation, its members are exactly
these two, and different pairs of users get different conversations.
\<close>

theorem direct_conversation:
  assumes ok: "chat_ok db" "direct_ok db" and d: "GetOrCreateDirect nid a b db = Some (conv, db')"
    and ids: "\<forall>x\<in>{a, b, x, y}. CHR '':'' \<notin> set x"
  shows "{u. (conv, u) \<in> set (cd_Members db')} = {a, b} \<and>
    GetOrCreateDirect nid' b a db' = Some (conv, db') \<and> GetOrCreateDirect nid' a b db' = Some (conv, db') \<and>
    (\<forall>conv' db''. GetOrCreateDirect nid' x y db' = Some (conv', db'') \<longrightarrow> conv' = conv \<longrightarrow> {x, y} = {a, b})"
proof -
  have m: "direct_ok db'" "{u. (conv, u) \<in> set (cd_Members db')} = {a, b}" using direct_ok_Direct [OF ok d] ids by auto
  have ok': "chat_ok db'" using chat_ok_Direct [OF ok(1) d] .
  from d obtain c where c: "tbl_get cv_DirectKey (Some (directKey a b)) (cd_Conversations db') = Some c" "cv_ID c = conv"
    by (auto simp: GetOrCreateDirect_def Let_def split: option.splits)
  have mem: "Some (directKey a b) \<in> cv_DirectKey ` set (cd_Conversations db')" using tbl_get_Some [OF c(1)] by force
  have "add_member (conv, a) (cd_Members db') = cd_Members db'" "add_member (conv, b) (cd_Members db') = cd_Members db'"
    using m(2) by (auto simp: add_member_def)
  then have "GetOrCreateDirect nid' b a db' = Some (conv, db')" "GetOrCreateDirect nid' a b db' = Some (conv, db')"
    using c mem by (simp_all add: GetOrCreateDirect_def directKey_sym [of b a])
  moreover have "{x, y} = {a, b}" if x: "GetOrCreateDirect nid' x y db' = Some (conv', db'')" "conv' = conv" for conv' db''
  proof (rule directKey_inj)
    have cin: "c \<in> set (cd_Conversations db')" "cv_DirectKey c = Some (directKey a b)" using tbl_get_Some [OF c(1)] by auto
    obtain c' :: conversation where c': "cv_ID c' = conv" "cv_DirectKey c' = Some (directKey x y)"
      and new: "c' \<in> set (cd_Conversations db') \<or> cv_ID c' \<notin> cv_ID ` set (cd_Conversations db')"
    proof (rule Direct_Some [OF x(1)])
      fix c' :: conversation
      assume a: "cv_ID c' = conv'" "cv_DirectKey c' = Some (directKey x y)" "cd_Conversations db'' = cd_Conversations db' \<and> c' \<in> set (cd_Conversations db') \<or>
        nid' \<notin> cv_ID ` set (cd_Conversations db') \<and> Some (directKey x y) \<notin> cv_DirectKey ` set (cd_Conversations db') \<and>
        c' = \<lparr>cv_ID = nid', cv_Seq = 0, cv_DirectKey = Some (directKey x y)\<rparr> \<and> cd_Conversations db'' = cd_Conversations db' @ [c']"
      show thesis by (rule that [of c']) (use a x(2) in auto)
    qed
    from new c'(1) c(2) cin(1) have "c' \<in> set (cd_Conversations db')" by (metis imageI)
    then have "c' = c" using ok' cin(1) c(2) c'(1) tbl_get_wf [of cv_ID "cd_Conversations db'"] by (metis chat_ok_def option.inject)
    with cin(2) c'(2) show "directKey x y = directKey a b" by simp
  qed (use ids in auto)
  ultimately show ?thesis using m(2) by blast
qed

theorem direct_conversation_witness:
  "\<exists>conv db'. GetOrCreateDirect ''c2'' ''ua'' ''ub'' ex_chat_db = Some (conv, db') \<and> GetOrCreateDirect ''c3'' ''ub'' ''ua'' db' = Some (conv, db')"
proof -
  have "chat_ok ex_chat_db" "direct_ok ex_chat_db" using ex_chat_ok by (simp_all add: ex_chat_def direct_ok_def ex_chat_db_def)
  moreover have "\<exists>conv db'. GetOrCreateDirect ''c2'' ''ua'' ''ub'' ex_chat_db = Some (conv, db')"
    by (simp add: GetOrCreateDirect_def ex_chat_db_def tbl_ins_def tbl_get_Cons)
  then obtain conv db' where d: "GetOrCreateDirect ''c2'' ''ua'' ''ub'' ex_chat_db = Some (conv, db')" by blast
  ultimately show ?thesis using direct_conversation [OF _ _ d, of "''ua''" "''ub''" "''c3''"] d by auto
qed

text \<open>
C28. Receipts respect privacy: a relayed receipt carries the submitted kind and watermark and the submitter's name, goes only
to active devices of members of the conversation other than the submitting device, is only sent for a member, and a read
receipt only for a user who has not turned read receipts off.
\<close>

theorem receipts_private:
  assumes "SubmitReceipt e db u dev r = (res, out)" "(t, ro) \<in> set out"
  shows "(ri_ConversationID r, u) \<in> set (cd_Members db) \<and> t \<noteq> dev \<and>
    (\<exists>d\<in>set (cd_Devices db). dv_ID d = t \<and> \<not> dv_Revoked d \<and> (ri_ConversationID r, dv_UserID d) \<in> set (cd_Members db)) \<and>
    ro = \<lparr>ro_ConversationID = ri_ConversationID r, ro_Kind = ri_Kind r, ro_UpToSeq = ri_UpToSeq r, ro_FromUserID = u\<rparr> \<and>
    (ri_Kind r = ReceiptRead \<longrightarrow> (\<exists>v. map_of (cd_ReadReceipts db) u = Some v \<and> v \<noteq> Some ''nobody''))"
proof -
  have out: "out = map (\<lambda>d. (d, \<lparr>ro_ConversationID = ri_ConversationID r, ro_Kind = ri_Kind r, ro_UpToSeq = ri_UpToSeq r, ro_FromUserID = u\<rparr>))
      (filter (\<lambda>d. \<not> re_relayFails e d) (ReceiptTargets db (ri_ConversationID r) u dev))"
    and priv: "ri_Kind r = ReceiptRead \<Longrightarrow> ReadReceiptsEnabled db u"
    using assms by (auto simp: SubmitReceipt_def Let_def split: if_splits)
  have t: "t \<in> set (ReceiptTargets db (ri_ConversationID r) u dev)"
    and ro: "ro = \<lparr>ro_ConversationID = ri_ConversationID r, ro_Kind = ri_Kind r, ro_UpToSeq = ri_UpToSeq r, ro_FromUserID = u\<rparr>"
    using assms(2) by (auto simp: out)
  from t have "(ri_ConversationID r, u) \<in> set (cd_Members db)" "t \<in> set (member_devices db (ri_ConversationID r) dev)"
    by (auto simp: ReceiptTargets_def split: if_splits)
  moreover have "\<exists>v. map_of (cd_ReadReceipts db) u = Some v \<and> v \<noteq> Some ''nobody''" if "ReadReceiptsEnabled db u"
    using that by (auto simp: ReadReceiptsEnabled_def split: option.splits)
  ultimately show ?thesis using priv ro by (auto simp: in_member_devices)
qed

theorem receipts_private_witness:
  "(''c1'', ''ub'') \<in> set (cd_Members ex_chat_db) \<and> (''da''::string) \<noteq> ''db''"
proof -
  let ?r = "\<lparr>ri_ConversationID = ''c1'', ri_Kind = ReceiptDelivered, ri_UpToSeq = 1\<rparr>"
  let ?e = "\<lparr>re_wired = True, re_enabledFails = False, re_targetsFails = False, re_relayFails = (\<lambda>_. False)\<rparr>"
  have "SubmitReceipt ?e ex_chat_db ''ub'' ''db'' ?r = (Inr (), [(''da'', \<lparr>ro_ConversationID = ''c1'', ro_Kind = ReceiptDelivered, ro_UpToSeq = 1, ro_FromUserID = ''ub''\<rparr>)])"
    by (simp add: SubmitReceipt_def ReceiptDelivered_def ReceiptRead_def ReceiptTargets_def ex_chat_db_def member_devices_def user_devices_def)
  from receipts_private [OF this, of "''da''"] show ?thesis by simp
qed

text \<open>
Coalescing loses nothing: after any receipts, a drain gives at most one receipt per conversation and kind, and gives one
with a watermark exactly when that is positive and the largest watermark submitted for them.
\<close>

theorem coalescing_lossless:
  "distinct (map (\<lambda>r. (ri_ConversationID r, ri_Kind r)) (fst (Drain (submit_all rs)))) \<and>
   (\<lparr>ri_ConversationID = conv, ri_Kind = kind, ri_UpToSeq = n\<rparr> \<in> set (fst (Drain (submit_all rs))) \<longleftrightarrow>
     0 < n \<and> (\<exists>r\<in>set rs. ri_ConversationID r = conv \<and> ri_Kind r = kind \<and> ri_UpToSeq r = n) \<and>
     (\<forall>r\<in>set rs. ri_ConversationID r = conv \<longrightarrow> ri_Kind r = kind \<longrightarrow> ri_UpToSeq r \<le> n))"
proof -
  let ?c = "submit_all rs" and ?S = "marks rs (conv, kind)"
  have d: "distinct (map fst ?c)" and m: "map_of ?c (conv, kind) = (if ?S = {} then None else Some (Max ?S))"
    using submit_all_seq [of rs "(conv, kind)"] by auto
  have "map (\<lambda>r. (ri_ConversationID r, ri_Kind r)) (fst (Drain ?c)) = map fst ?c" by (auto simp: Drain_def)
  moreover have "\<lparr>ri_ConversationID = conv, ri_Kind = kind, ri_UpToSeq = n\<rparr> \<in> set (fst (Drain ?c)) \<longleftrightarrow> ((conv, kind), n) \<in> set ?c"
    by (force simp: Drain_def)
  moreover have "((conv, kind), n) \<in> set ?c \<longleftrightarrow> map_of ?c (conv, kind) = Some n" using d by simp
  moreover have "map_of ?c (conv, kind) = Some n \<longleftrightarrow> n \<in> ?S \<and> (\<forall>x\<in>?S. x \<le> n)"
    using m Max_eq_iff [OF finite_marks, of rs "(conv, kind)" n] by auto
  moreover have "n \<in> ?S \<and> (\<forall>x\<in>?S. x \<le> n) \<longleftrightarrow> 0 < n \<and> (\<exists>r\<in>set rs. ri_ConversationID r = conv \<and> ri_Kind r = kind \<and> ri_UpToSeq r = n) \<and>
     (\<forall>r\<in>set rs. ri_ConversationID r = conv \<longrightarrow> ri_Kind r = kind \<longrightarrow> ri_UpToSeq r \<le> n)"
    by (rule marks_max)
  ultimately show ?thesis using d by simp
qed

theorem coalescing_lossless_witness:
  "\<lparr>ri_ConversationID = ''c'', ri_Kind = 2, ri_UpToSeq = 7\<rparr> \<in> set (fst (Drain (submit_all
     [\<lparr>ri_ConversationID = ''c'', ri_Kind = 2, ri_UpToSeq = 7\<rparr>, \<lparr>ri_ConversationID = ''c'', ri_Kind = 2, ri_UpToSeq = 4\<rparr>])))"
  by (subst coalescing_lossless [THEN conjunct2]) simp

end
