(* ===== verification/RateLimit.thy ===== *)
theory RateLimit
  imports Contracts Complex_Main "HOL-Library.Log_Nat"
begin

text \<open>
  The rate limiter (\<^verbatim>\<open>platform/ratelimit\<close>): the GCRA decision, the in-memory backend and the Lua script of
  the Valkey backend with the expiry of its keys. The contract both backends meet is the locale \<open>gcra_meter\<close>;
  the bound on what a limiter admits is proved there once.
\<close>

section \<open>Parameters\<close>

text \<open>A Go \<^verbatim>\<open>float64\<close> is its value. \<open>round64\<close> rounds a positive number to 53 significant bits, ties to even.\<close>

definition round_half_even :: "rat \<Rightarrow> int" where
  "round_half_even y =
     (let f = \<lfloor>y\<rfloor>; r = y - of_int f
      in if r < 1 / 2 \<or> r = 1 / 2 \<and> even f then f else f + 1)"

definition two_pow :: "int \<Rightarrow> rat" where
  "two_pow k = (if k \<ge> 0 then 2 ^ nat k else 1 / 2 ^ nat (- k))"

definition round64 :: "rat \<Rightarrow> rat" where
  "round64 x =
     (if x \<le> 0 then 0
      else
        let (n, d) = quotient_of x;
            k = bitlen n - bitlen d;
            e = (if two_pow k \<le> x then k else k - 1);
            ulp = two_pow (e - 52)
        in of_int (round_half_even (x / ulp)) * ulp)"

record params =
  pm_Rate :: rat
  pm_Burst :: int

definition Params_Validate :: "params \<Rightarrow> bool" where
  "Params_Validate p \<longleftrightarrow> \<not> pm_Rate p \<le> 0 \<and> \<not> pm_Burst p < 1"

definition emission :: "params \<Rightarrow> duration" where
  "emission p = \<lfloor>round64 (of_int Second / pm_Rate p)\<rfloor>"

definition tolerance :: "params \<Rightarrow> duration" where
  "tolerance p = (pm_Burst p - 1) * emission p"

record rl_result =
  rl_Allowed :: bool
  rl_RetryAfter :: duration

section \<open>The decision\<close>

definition decide :: "instant \<Rightarrow> instant \<Rightarrow> params \<Rightarrow> rl_result \<times> instant" where
  "decide now tat p =
     (let tat = (if tat < now then now else tat);
          ahead = tat - now
      in if ahead > tolerance p
         then (\<lparr>rl_Allowed = False, rl_RetryAfter = ahead - tolerance p\<rparr>, tat)
         else (\<lparr>rl_Allowed = True, rl_RetryAfter = 0\<rparr>, tat + emission p))"

section \<open>The in-memory backend\<close>

type_synonym memory_limiter = "string \<Rightarrow> instant option"

text \<open>The zero \<^verbatim>\<open>time.Time\<close>, which a lookup of a missing key gives: the start of year 1.\<close>

definition zeroTime :: instant where "zeroTime = - 62135596800 * Second"

definition Memory_Allow :: "instant \<Rightarrow> string \<Rightarrow> params \<Rightarrow> memory_limiter \<Rightarrow> rl_result option \<times> memory_limiter" where
  "Memory_Allow now key p tats =
     (if \<not> Params_Validate p then (None, tats)
      else
        let (res, newTAT) = decide now (case tats key of None \<Rightarrow> zeroTime | Some t \<Rightarrow> t) p
        in (Some res, if rl_Allowed res then tats(key \<mapsto> newTAT) else tats))"

section \<open>The Valkey backend\<close>

text \<open>A key holds a TAT in microseconds and the microsecond at which it expires. Times are the server's clock.\<close>

type_synonym valkey_limiter = "string \<Rightarrow> (int \<times> int) option"

definition vk_get :: "valkey_limiter \<Rightarrow> int \<Rightarrow> string \<Rightarrow> int option" where
  "vk_get m now key = (case m key of None \<Rightarrow> None | Some (v, ex) \<Rightarrow> if now < ex then Some v else None)"

definition luaGCRA :: "int \<Rightarrow> string \<Rightarrow> int \<Rightarrow> int \<Rightarrow> valkey_limiter \<Rightarrow> (int \<times> int) \<times> valkey_limiter" where
  "luaGCRA now key em tol m =
     (let tat = (case vk_get m now key of None \<Rightarrow> now | Some t \<Rightarrow> if t < now then now else t)
      in if tat - now > tol then ((0, tat - tol - now), m)
         else
           let newtat = tat + em;
               ttl = \<lceil>of_int (newtat - now) / (1000000 :: rat)\<rceil> + 1
           in ((1, 0), m(key \<mapsto> (newtat, now + ttl * 1000000))))"

definition Microsecond :: duration where "Microsecond = 1000"

text \<open>\<open>None\<close>: the parameters are invalid or the server is down; the callers fail closed.\<close>

definition Valkey_Allow ::
  "bool \<Rightarrow> int \<Rightarrow> string \<Rightarrow> params \<Rightarrow> valkey_limiter \<Rightarrow> rl_result option \<times> valkey_limiter" where
  "Valkey_Allow down now key p m =
     (if \<not> Params_Validate p then (None, m)
      else if down then (None, m)
      else
        let ((allowed, retryUs), m1) = luaGCRA now key (emission p div Microsecond) (tolerance p div Microsecond) m
        in (Some \<lparr>rl_Allowed = (allowed = 1), rl_RetryAfter = retryUs * Microsecond\<rparr>, m1))"

section \<open>Bounds of the parameters\<close>

lemma round_half_even_nonneg: "0 \<le> y \<Longrightarrow> 0 \<le> round_half_even y"
  by (auto simp: round_half_even_def Let_def)

lemma two_pow_pos: "0 < two_pow k"
  by (simp add: two_pow_def)

lemma round64_nonneg: "0 \<le> round64 x"
  by (auto simp: round64_def Let_def two_pow_pos less_imp_le intro!: mult_nonneg_nonneg round_half_even_nonneg divide_nonneg_pos
      split: prod.split)

lemma emission_nonneg: "0 \<le> emission p"
  using round64_nonneg by (simp add: emission_def)

lemma tolerance_nonneg: "Params_Validate p \<Longrightarrow> 0 \<le> tolerance p"
  using emission_nonneg [of p] by (simp add: tolerance_def Params_Validate_def)

section \<open>The contract\<close>

text \<open>
  Attempts are triples of an instant, a key and parameters; the instants at which attempts on a key are admitted,
  and the state after all of them.
\<close>

fun admitted :: "(int \<Rightarrow> 'k \<Rightarrow> 'p \<Rightarrow> 's \<Rightarrow> bool \<times> 's) \<Rightarrow> 'k \<Rightarrow> 's \<Rightarrow> (int \<times> 'k \<times> 'p) list \<Rightarrow> int list" where
  "admitted allow k s [] = []"
| "admitted allow k s ((now, k', p) # es) =
     (if fst (allow now k' p s) \<and> k' = k then [now] else []) @ admitted allow k (snd (allow now k' p s)) es"

fun attempts :: "(int \<Rightarrow> 'k \<Rightarrow> 'p \<Rightarrow> 's \<Rightarrow> 'r \<times> 's) \<Rightarrow> 's \<Rightarrow> (int \<times> 'k \<times> 'p) list \<Rightarrow> 'r list \<times> 's" where
  "attempts allow s [] = ([], s)"
| "attempts allow s ((now, k, p) # es) =
     (let (r, s1) = allow now k p s; (rs, s2) = attempts allow s1 es in (r # rs, s2))"

lemma admitted_times: "set (admitted allow k s es) \<subseteq> fst ` set es"
  by (induction allow k s es rule: admitted.induct) auto

text \<open>
  \<open>tat s k now\<close> is the theoretical arrival time of a key, never before \<open>now\<close>. An attempt on a key with
  increment \<open>T\<close> and tolerance \<open>tau\<close> is only admitted when that time is at most \<open>tau\<close> ahead, and then moves it by
  \<open>T\<close>. A limiter may also refuse for other reasons, which costs nothing.
\<close>

locale gcra_meter =
  fixes allow :: "int \<Rightarrow> 'k \<Rightarrow> 'p \<Rightarrow> 's \<Rightarrow> bool \<times> 's"
    and tat :: "'s \<Rightarrow> 'k \<Rightarrow> int \<Rightarrow> int"
    and T :: "'p \<Rightarrow> int"
    and tau :: "'p \<Rightarrow> int"
    and ok :: "'s \<Rightarrow> bool"
  assumes ok_allow: "ok s \<Longrightarrow> ok (snd (allow now k p s))"
    and T_nonneg: "0 \<le> T p"
    and tat_later: "ok s \<Longrightarrow> now \<le> t \<Longrightarrow> tat s k t = max (tat s k now) t"
    and admitted_only: "ok s \<Longrightarrow> fst (allow now k p s) \<Longrightarrow> tat s k now - now \<le> tau p"
    and tat_admitted: "ok s \<Longrightarrow> fst (allow now k p s) \<Longrightarrow> tat (snd (allow now k p s)) k now = tat s k now + T p"
    and denied_same: "\<not> fst (allow now k p s) \<Longrightarrow> snd (allow now k p s) = s"
    and other_key: "k' \<noteq> k \<Longrightarrow> tat (snd (allow now k' p s)) k t = tat s k t"
begin

lemma tat_ahead: "ok s \<Longrightarrow> now \<le> tat s k now"
  using tat_later [of s now now k] by simp

lemma ok_attempts: "ok s \<Longrightarrow> ok (snd (attempts allow s es))"
proof (induction es arbitrary: s)
  case (Cons e es)
  then show ?case using ok_allow by (cases e) (simp add: case_prod_beta)
qed simp

lemma spacing:
  assumes "ok s" "sorted (t0 # map fst es)" "\<forall>e\<in>set es. fst (snd e) = k \<longrightarrow> T (snd (snd e)) = d \<and> tau (snd (snd e)) = w"
    "admitted allow k s es \<noteq> []"
  shows "tat s k t0 + (int (length (admitted allow k s es)) - 1) * d \<le> last (admitted allow k s es) + w"
  using assms
proof (induction es arbitrary: s t0)
  case (Cons e es)
  obtain now k' q where e: "e = (now, k', q)" by (cases e)
  let ?s = "snd (allow now k' q s)" and ?A = "admitted allow k (snd (allow now k' q s)) es"
  have ok: "ok ?s" using Cons.prems(1) by (rule ok_allow)
  have le: "t0 \<le> now" and st: "sorted (now # map fst es)" using Cons.prems(2) e by auto
  have mono: "tat s k t0 \<le> tat s k now" using tat_later [OF Cons.prems(1) le, of k] by simp
  have IH: "?A \<noteq> [] \<Longrightarrow> tat ?s k now + (int (length ?A) - 1) * d \<le> last ?A + w"
    using Cons.IH [OF ok st] Cons.prems(3) by simp
  show ?case
  proof (cases "fst (allow now k' q s) \<and> k' = k")
    case True
    then have q: "T q = d" "tau q = w" "k' = k" and adm: "admitted allow k s (e # es) = now # ?A" using Cons.prems(3) e by auto
    have "tat s k now - now \<le> w" using True q admitted_only [OF Cons.prems(1), of now k q] by auto
    moreover have "tat ?s k now = tat s k now + d" using True q tat_admitted [OF Cons.prems(1), of now k q] by simp
    ultimately show ?thesis using IH mono unfolding adm by (cases "?A = []") (auto simp: algebra_simps)
  next
    case False
    then have adm: "admitted allow k s (e # es) = ?A" using e by auto
    have "tat ?s k now = tat s k now"
      using False denied_same [of now k' q s] other_key [of k' k now q s now] by (cases "k' = k") auto
    with IH mono Cons.prems(4) show ?thesis unfolding adm by simp
  qed
qed simp

lemma window_bound:
  assumes "ok s" "sorted (map fst es)" "\<forall>e\<in>set es. fst (snd e) = k \<longrightarrow> T (snd (snd e)) = d \<and> tau (snd (snd e)) = w"
    "\<forall>e\<in>set es. t0 \<le> fst e \<and> fst e \<le> t0 + L" "0 \<le> L" "0 \<le> w" "0 \<le> d"
  shows "(int (length (admitted allow k s es)) - 1) * d \<le> L + w"
proof (cases "admitted allow k s es = []")
  case True
  then show ?thesis using assms(5,6,7) by simp
next
  case False
  with assms(4) have "last (admitted allow k s es) \<le> t0 + L" using last_in_set admitted_times [of allow k s es] by fastforce
  moreover have "sorted (t0 # map fst es)" using assms(2,4) by auto
  then have "tat s k t0 + (int (length (admitted allow k s es)) - 1) * d \<le> last (admitted allow k s es) + w"
    using spacing [OF assms(1) _ assms(3) False] by blast
  ultimately show ?thesis using tat_ahead [OF assms(1), of t0 k] by linarith
qed

end

section \<open>The backends meet the contract\<close>

definition granted :: "rl_result option \<times> 's \<Rightarrow> bool \<times> 's" where
  "granted x = (case fst x of None \<Rightarrow> False | Some r \<Rightarrow> rl_Allowed r, snd x)"

definition mem_tat :: "memory_limiter \<Rightarrow> string \<Rightarrow> instant \<Rightarrow> instant" where
  "mem_tat m k now = max (case m k of None \<Rightarrow> zeroTime | Some t \<Rightarrow> t) now"

definition mem_allow :: "instant \<Rightarrow> string \<Rightarrow> params \<Rightarrow> memory_limiter \<Rightarrow> bool \<times> memory_limiter" where
  "mem_allow now k p m = granted (Memory_Allow now k p m)"

interpretation memory: gcra_meter mem_allow mem_tat emission tolerance "\<lambda>_. True"
proof unfold_locales
  show "mem_tat (snd (mem_allow now k p m)) k now = mem_tat m k now + emission p" if "fst (mem_allow now k p m)" for now k p m
    using that emission_nonneg [of p]
    by (auto simp: mem_allow_def mem_tat_def granted_def Memory_Allow_def decide_def Let_def split: option.splits if_splits)
qed (auto simp: mem_allow_def mem_tat_def granted_def Memory_Allow_def decide_def Let_def emission_nonneg
      split: option.splits if_splits prod.splits)

definition vk_tat :: "valkey_limiter \<Rightarrow> string \<Rightarrow> int \<Rightarrow> int" where
  "vk_tat m k now = (case vk_get m now k of None \<Rightarrow> now | Some t \<Rightarrow> max t now)"

text \<open>A key expires only after its TAT has passed.\<close>

definition vk_ok :: "valkey_limiter \<Rightarrow> bool" where
  "vk_ok m \<longleftrightarrow> (\<forall>k v ex. m k = Some (v, ex) \<longrightarrow> v \<le> ex)"

definition vk_allow :: "int \<Rightarrow> string \<Rightarrow> bool \<times> params \<Rightarrow> valkey_limiter \<Rightarrow> bool \<times> valkey_limiter" where
  "vk_allow now k q m = granted (Valkey_Allow (fst q) now k (snd q) m)"

text \<open>When a TAT written now expires.\<close>

definition vk_expiry :: "int \<Rightarrow> int \<Rightarrow> int" where
  "vk_expiry now newtat = now + (\<lceil>of_int (newtat - now) / (1000000 :: rat)\<rceil> + 1) * 1000000"

lemma expiry_covers: "newtat < vk_expiry now newtat"
proof -
  have "x \<le> \<lceil>of_int x / (1000000 :: rat)\<rceil> * 1000000" for x :: int
  proof -
    have "(of_int x :: rat) \<le> of_int \<lceil>of_int x / (1000000 :: rat)\<rceil> * 1000000"
      using le_of_int_ceiling [of "of_int x / (1000000 :: rat)"] by (simp only: pos_divide_le_eq zero_less_numeral)
    also have "\<dots> = of_int (\<lceil>of_int x / (1000000 :: rat)\<rceil> * 1000000)" by simp
    finally show ?thesis by (simp only: of_int_le_iff)
  qed
  from this [of "newtat - now"] show ?thesis by (simp add: vk_expiry_def algebra_simps)
qed

lemma vk_tat_max: "vk_ok m \<Longrightarrow> vk_tat m k now = (case m k of None \<Rightarrow> now | Some (v, ex) \<Rightarrow> max v now)"
  by (fastforce simp: vk_tat_def vk_get_def vk_ok_def split: option.splits)

lemma luaGCRA_allow: "luaGCRA now key em tol m =
  (if vk_tat m key now - now > tol then ((0, vk_tat m key now - tol - now), m)
   else ((1, 0), m(key \<mapsto> (vk_tat m key now + em, vk_expiry now (vk_tat m key now + em)))))"
  by (auto simp: luaGCRA_def vk_expiry_def vk_tat_def Let_def max_def split: option.splits)

lemma vk_ok_set: "vk_ok m \<Longrightarrow> vk_ok (m(k \<mapsto> (t, vk_expiry now t)))"
  using expiry_covers [of t now] by (auto simp: vk_ok_def)

lemma vk_allow_cases:
  obtains (denied) "vk_allow now k q m = (False, m)"
  | (admitted) "Params_Validate (snd q)" "\<not> fst q" "vk_tat m k now - now \<le> tolerance (snd q) div Microsecond"
      "vk_allow now k q m = (True, m(k \<mapsto> (vk_tat m k now + emission (snd q) div Microsecond,
         vk_expiry now (vk_tat m k now + emission (snd q) div Microsecond))))"
  by (cases "Params_Validate (snd q) \<and> \<not> fst q \<and> vk_tat m k now - now \<le> tolerance (snd q) div Microsecond")
    (auto simp: vk_allow_def granted_def Valkey_Allow_def luaGCRA_allow)

interpretation valkey: gcra_meter vk_allow vk_tat "\<lambda>q. emission (snd q) div Microsecond" "\<lambda>q. tolerance (snd q) div Microsecond" vk_ok
proof unfold_locales
  fix m now k q t k'
  let ?r = "vk_allow now k q m" and ?T = "emission (snd q) div Microsecond"
  show T: "0 \<le> ?T" using emission_nonneg by (simp add: Microsecond_def pos_imp_zdiv_nonneg_iff)
  show "vk_ok m \<Longrightarrow> vk_ok (snd ?r)" by (cases rule: vk_allow_cases [of now k q m]) (simp_all add: vk_ok_set)
  show "vk_ok m \<Longrightarrow> now \<le> t \<Longrightarrow> vk_tat m k t = max (vk_tat m k now) t"
    by (auto simp: vk_tat_max split: option.splits)
  show "vk_ok m \<Longrightarrow> fst ?r \<Longrightarrow> vk_tat m k now - now \<le> tolerance (snd q) div Microsecond"
    by (cases rule: vk_allow_cases [of now k q m]) simp_all
  show "vk_tat (snd ?r) k now = vk_tat m k now + ?T" if ok: "vk_ok m" and a: "fst ?r"
  proof (cases rule: vk_allow_cases [of now k q m])
    case admitted
    then have "now \<le> vk_tat m k now + ?T" using T ok by (auto simp: vk_tat_max split: option.splits)
    then show ?thesis using admitted(4) vk_tat_max [OF vk_ok_set [OF ok, of k "vk_tat m k now + ?T" now]] by simp
  qed (use a in simp)
  show "\<not> fst ?r \<Longrightarrow> snd ?r = m" by (cases rule: vk_allow_cases [of now k q m]) simp_all
  show "k' \<noteq> k \<Longrightarrow> vk_tat (snd (vk_allow now k' q m)) k t = vk_tat m k t"
    by (cases rule: vk_allow_cases [of now k' q m]) (simp_all add: vk_tat_def vk_get_def)
qed

end
