(* ===== verification/RateLimitProps.thy ===== *)
theory RateLimitProps
  imports RateLimit
begin

text \<open>
  What the rate limiter guarantees: the bound on admissions in any window, the honesty of its retry hint, and that
  the Valkey script decides as the in-memory algorithm does.
\<close>

definition ex_limit :: params where "ex_limit = \<lparr>pm_Rate = 1, pm_Burst = 20\<rparr>"

lemma ex_emission: "emission ex_limit = 1000000000"
  by code_simp


section \<open>The bound\<close>

text \<open>
C21. The production limiter holds its limit: after any earlier attempts, in every window of L microseconds in which all
attempts on a key use one valid setting, and whatever attempts on other keys and outages there are in between, at most
so many attempts on the key are admitted that their spacing, beyond the first, fits into the window and the burst
tolerance. With an emission interval of a whole number of microseconds this is the burst plus one per interval.
\<close>

theorem limiter_bound:
  assumes "sorted (map fst es)" "\<forall>(t, k', down, p')\<in>set es. t0 \<le> t \<and> t \<le> t0 + L \<and> (k' = k \<longrightarrow> p' = p)" "0 \<le> L"
    "Params_Validate p" "s = snd (attempts vk_allow Map.empty before)"
  shows "(int (length (admitted vk_allow k s es)) - 1) * (emission p div Microsecond) \<le> L + tolerance p div Microsecond \<and>
    (Microsecond dvd emission p \<longrightarrow>
      (int (length (admitted vk_allow k s es)) - pm_Burst p) * (emission p div Microsecond) \<le> L)"
proof -
  let ?n = "int (length (admitted vk_allow k s es))" and ?T = "emission p div Microsecond" and ?w = "tolerance p div Microsecond"
  have ok: "vk_ok s" using valkey.ok_attempts [of Map.empty before] assms(5) by (simp add: vk_ok_def)
  have w: "0 \<le> ?w" using tolerance_nonneg [OF assms(4)] by (simp add: Microsecond_def pos_imp_zdiv_nonneg_iff)
  have bound: "(?n - 1) * ?T \<le> L + ?w"
    by (rule valkey.window_bound [OF ok assms(1) _ _ assms(3) w valkey.T_nonneg [of "(False, p)", simplified], where ?t0.0 = t0])
      (use assms(2) in fastforce)+
  moreover have "?w = (pm_Burst p - 1) * ?T" if "Microsecond dvd emission p"
    using that by (auto simp: tolerance_def div_mult_swap)
  ultimately show ?thesis by (auto simp: algebra_simps)
qed

theorem limiter_bound_witness:
  "(int (length (admitted vk_allow ''k'' Map.empty [(5, ''k'', False, ex_limit), (6, ''k'', False, ex_limit)])) - 20) * 1000000 \<le> 1"
  using limiter_bound [of "[(5, ''k'', False, ex_limit), (6, ''k'', False, ex_limit)]" 5 1 "''k''" ex_limit Map.empty "[]"]
  by (simp add: Params_Validate_def ex_limit_def [THEN arg_cong, of pm_Rate] ex_limit_def [THEN arg_cong, of pm_Burst] ex_emission Microsecond_def del: admitted.simps)

section \<open>The retry hint\<close>

text \<open>
The retry hint is exact: when an attempt is refused with a wait, nothing has been charged, the wait is positive, and a
next attempt on the key is admitted if and only if it comes at least that much later.
\<close>

theorem retry_after_exact:
  assumes "Memory_Allow now k p m = (Some r, m1)" "\<not> rl_Allowed r" "now \<le> t"
  shows "m1 = m \<and> 0 < rl_RetryAfter r \<and>
    (\<exists>r' m2. Memory_Allow t k p m1 = (Some r', m2) \<and> (rl_Allowed r' \<longleftrightarrow> now + rl_RetryAfter r \<le> t))"
  using assms tolerance_nonneg [of p] by (auto simp: Memory_Allow_def decide_def Let_def split: if_splits option.splits)

definition ex_full :: memory_limiter where "ex_full = [''k'' \<mapsto> 30000000000]"

theorem retry_after_exact_witness: "Memory_Allow 0 ''k'' ex_limit ex_full = (Some \<lparr>rl_Allowed = False, rl_RetryAfter = 11000000000\<rparr>, ex_full) \<and>
  (\<exists>r m. Memory_Allow 11000000000 ''k'' ex_limit ex_full = (Some r, m) \<and> rl_Allowed r)"
proof -
  have a: "Memory_Allow 0 ''k'' ex_limit ex_full = (Some \<lparr>rl_Allowed = False, rl_RetryAfter = 11000000000\<rparr>, ex_full)"
    by (simp add: Memory_Allow_def decide_def tolerance_def ex_emission ex_full_def Params_Validate_def ex_limit_def [THEN arg_cong, of pm_Rate]
        ex_limit_def [THEN arg_cong, of pm_Burst])
  from retry_after_exact [OF a, of 11000000000] a show ?thesis by auto
qed

section \<open>The script decides as the algorithm\<close>

text \<open>The Valkey backend as seen by a caller, with its server up; times in microseconds.\<close>

definition vk_try :: "int \<Rightarrow> string \<Rightarrow> params \<Rightarrow> valkey_limiter \<Rightarrow> rl_result option \<times> valkey_limiter" where
  "vk_try now k p m = Valkey_Allow False now k p m"

definition mem_try :: "int \<Rightarrow> string \<Rightarrow> params \<Rightarrow> memory_limiter \<Rightarrow> rl_result option \<times> memory_limiter" where
  "mem_try now k p m = Memory_Allow (now * Microsecond) k p m"

text \<open>Both backends in terms of the theoretical arrival time.\<close>

lemma mem_try_tat: "mem_try now k p m =
  (if \<not> Params_Validate p then (None, m)
   else if mem_tat m k (now * Microsecond) - now * Microsecond > tolerance p
   then (Some \<lparr>rl_Allowed = False, rl_RetryAfter = mem_tat m k (now * Microsecond) - now * Microsecond - tolerance p\<rparr>, m)
   else (Some \<lparr>rl_Allowed = True, rl_RetryAfter = 0\<rparr>, m(k \<mapsto> mem_tat m k (now * Microsecond) + emission p)))"
  by (auto simp: mem_try_def Memory_Allow_def decide_def mem_tat_def Let_def max_def split: option.splits)

lemma vk_try_tat: "vk_try now k p v =
  (if \<not> Params_Validate p then (None, v)
   else if vk_tat v k now - now > tolerance p div Microsecond
   then (Some \<lparr>rl_Allowed = False, rl_RetryAfter = (vk_tat v k now - tolerance p div Microsecond - now) * Microsecond\<rparr>, v)
   else (Some \<lparr>rl_Allowed = True, rl_RetryAfter = 0\<rparr>,
     v(k \<mapsto> (vk_tat v k now + emission p div Microsecond, vk_expiry now (vk_tat v k now + emission p div Microsecond)))))"
  by (simp add: vk_try_def Valkey_Allow_def luaGCRA_allow)

definition same_tats :: "int \<Rightarrow> valkey_limiter \<Rightarrow> memory_limiter \<Rightarrow> bool" where
  "same_tats now v m \<longleftrightarrow> vk_ok v \<and> (\<forall>k. vk_tat v k now * Microsecond = mem_tat m k (now * Microsecond))"

lemma same_tats_later:
  assumes "same_tats now v m" "now \<le> t"
  shows "same_tats t v m"
proof -
  have "vk_tat v k t * Microsecond = mem_tat m k (t * Microsecond)" for k
  proof -
    have "vk_tat v k t * Microsecond = max (vk_tat v k now * Microsecond) (t * Microsecond)"
      using valkey.tat_later [of v now t k] assms by (auto simp: same_tats_def Microsecond_def max_mult_distrib_right)
    also have "\<dots> = mem_tat m k (t * Microsecond)"
      using memory.tat_later [of "now * Microsecond" "t * Microsecond" m k] assms by (simp add: same_tats_def Microsecond_def)
    finally show ?thesis .
  qed
  with assms(1) show ?thesis by (simp add: same_tats_def)
qed

lemma vk_tat_set: "vk_tat (v(k \<mapsto> (t, vk_expiry now t))) k' now = (if k' = k then max t now else vk_tat v k' now)"
  using expiry_covers [of t now] by (auto simp: vk_tat_def vk_get_def)

lemma mem_tat_set: "mem_tat (m(k \<mapsto> t)) k' now = (if k' = k then max t now else mem_tat m k' now)"
  by (simp add: mem_tat_def)

lemma try_same:
  assumes s: "same_tats now v m" and p: "Params_Validate p \<Longrightarrow> Microsecond dvd emission p"
  shows "fst (vk_try now k p v) = fst (mem_try now k p m) \<and> same_tats now (snd (vk_try now k p v)) (snd (mem_try now k p m))"
proof (cases "Params_Validate p")
  case True
  let ?V = "vk_tat v k now" and ?M = "mem_tat m k (now * Microsecond)"
  define T w where "T = emission p div Microsecond" and "w = tolerance p div Microsecond"
  have T: "emission p = T * Microsecond" "tolerance p = w * Microsecond"
    using p [OF True] by (auto simp: T_def w_def tolerance_def div_mult_swap)
  have tat: "?M = ?V * Microsecond" and ok: "vk_ok v" using s by (auto simp: same_tats_def)
  have iff: "?M - now * Microsecond > tolerance p \<longleftrightarrow> ?V - now > w" unfolding tat T by (auto simp: Microsecond_def)
  show ?thesis
  proof (cases "?V - now > w")
    case False
    have now: "now \<le> ?V + T" using valkey.tat_ahead [OF ok, of now k] emission_nonneg [of p] T(1) by (simp add: Microsecond_def)
    have ok': "vk_ok (v(k \<mapsto> (?V + T, vk_expiry now (?V + T))))" using ok by (rule vk_ok_set)
    have "vk_tat (v(k \<mapsto> (?V + T, vk_expiry now (?V + T)))) k' now * Microsecond =
        mem_tat (m(k \<mapsto> ?M + emission p)) k' (now * Microsecond)" for k'
    proof (cases "k' = k")
      case True
      have "(?V + T) * Microsecond = ?M + emission p" "now * Microsecond \<le> ?M + emission p"
        using now unfolding tat T by (auto simp: algebra_simps Microsecond_def)
      with now True show ?thesis by (simp add: vk_tat_set mem_tat_set max_absorb1)
    qed (use s in \<open>simp add: same_tats_def vk_tat_set mem_tat_set\<close>)
    with True False iff ok' show ?thesis by (simp add: vk_try_tat mem_try_tat same_tats_def flip: T_def w_def)
  next
    case c: True
    have "(?V - w - now) * Microsecond = ?M - now * Microsecond - tolerance p" unfolding tat T by (simp add: algebra_simps)
    with True c iff s show ?thesis by (simp add: vk_try_tat mem_try_tat flip: T_def w_def)
  qed
qed (use s in \<open>simp add: vk_try_tat mem_try_tat\<close>)

lemma attempts_same:
  assumes "same_tats t0 v m" "sorted (t0 # map fst es)" "\<forall>e\<in>set es. Params_Validate (snd (snd e)) \<longrightarrow> Microsecond dvd emission (snd (snd e))"
  shows "fst (attempts vk_try v es) = fst (attempts mem_try m es)"
  using assms
proof (induction es arbitrary: t0 v m)
  case (Cons e es)
  obtain now k p where e: "e = (now, k, p)" by (cases e)
  have s: "same_tats now v m" using same_tats_later [OF Cons.prems(1)] Cons.prems(2) e by simp
  have t: "fst (vk_try now k p v) = fst (mem_try now k p m)" "same_tats now (snd (vk_try now k p v)) (snd (mem_try now k p m))"
    using try_same [OF s, of p k] Cons.prems(3) e by auto
  have "fst (attempts vk_try (snd (vk_try now k p v)) es) = fst (attempts mem_try (snd (mem_try now k p m)) es)"
    by (rule Cons.IH [OF t(2)]) (use Cons.prems e in auto)
  with t(1) e show ?case by (simp add: case_prod_beta)
qed simp

text \<open>
The Valkey script, its truncation to microseconds and the expiry of its keys included, gives the answers of the
in-memory algorithm: on every sequence of attempts with a clock that does not go back and intervals of whole
microseconds, starting from nothing, each answer is the same, retry hints included.
\<close>

theorem valkey_matches_memory:
  assumes "sorted (map fst es)" "\<forall>(t, k, p)\<in>set es. zeroTime \<le> t * Microsecond \<and> (Params_Validate p \<longrightarrow> Microsecond dvd emission p)"
  shows "fst (attempts vk_try Map.empty es) = fst (attempts mem_try Map.empty es)"
proof (cases es)
  case (Cons e es')
  have "zeroTime \<le> fst e * Microsecond" using assms(2) Cons by auto
  then have "same_tats (fst e) Map.empty Map.empty"
    by (simp add: same_tats_def vk_ok_def vk_tat_def vk_get_def mem_tat_def)
  moreover have "sorted (fst e # map fst es)" using assms(1) Cons by simp
  ultimately show ?thesis by (rule attempts_same) (use assms(2) in fastforce)
qed simp

theorem valkey_matches_memory_witness:
  "fst (attempts vk_try Map.empty [(5, ''k'', ex_limit), (7, ''k'', ex_limit)]) =
   fst (attempts mem_try Map.empty [(5, ''k'', ex_limit), (7, ''k'', ex_limit)])"
  by (rule valkey_matches_memory) (auto simp: ex_emission Microsecond_def zeroTime_def time_units)

end
