(* ===== verification/FanOutWorker.thy ===== *)
theory FanOutWorker
  imports Contracts
begin

text \<open>
  The group fan-out worker (\<^verbatim>\<open>fanout/\<close>): \<open>Fanout\<close> expands a group message to inbox rows in batches, \<open>Pool\<close> is its
  bounded queue, and \<open>OnDeviceReceipt\<close> turns device receipts into one aggregate tick. The repository has no
  implementation of the worker's device resolver, inbox writer and aggregate store: they are parameters, and the lemmas
  name what the interface comments promise of them.
\<close>

section \<open>One fan-out\<close>

definition BatchSize :: nat where "BatchSize = 500"

record fanout_job =
  fj_GroupID :: string
  fj_ConversationID :: string
  fj_Seq :: int
  fj_MsgUUID :: string
  fj_SenderUserID :: string
  fj_SenderDeviceID :: string
  fj_Kind :: int
  fj_Ciphertext :: string
  fj_AcceptedAtMS :: int
  fj_ExpiresAtMS :: int
  fj_Version :: int

record fan_row =
  fr_DeviceID :: string
  fr_ConversationID :: string
  fr_Seq :: int
  fr_MsgUUID :: string
  fr_SenderUserID :: string
  fr_SenderDeviceID :: string
  fr_Kind :: int
  fr_Ciphertext :: string
  fr_AcceptedAtMS :: int
  fr_ExpiresAtMS :: int

definition job_row :: "fanout_job \<Rightarrow> string \<Rightarrow> fan_row" where
  "job_row job d =
     \<lparr>fr_DeviceID = d, fr_ConversationID = fj_ConversationID job, fr_Seq = fj_Seq job, fr_MsgUUID = fj_MsgUUID job,
      fr_SenderUserID = fj_SenderUserID job, fr_SenderDeviceID = fj_SenderDeviceID job, fr_Kind = fj_Kind job,
      fr_Ciphertext = fj_Ciphertext job, fr_AcceptedAtMS = fj_AcceptedAtMS job, fr_ExpiresAtMS = fj_ExpiresAtMS job\<rparr>"

definition job_rows :: "fanout_job \<Rightarrow> string list \<Rightarrow> fan_row list" where
  "job_rows job devices = map (job_row job) (filter (\<lambda>d. d \<noteq> fj_SenderDeviceID job) devices)"

text \<open>
  The batches from \<open>start\<close> on. \<open>ins\<close> writes one batch and says whether it succeeded. The result is the number of rows
  written, whether an insert failed, the rows whose delivery was published (successfully or not) and the inbox.
\<close>

function fan_loop ::
  "(fan_row list \<Rightarrow> 'w \<Rightarrow> bool \<times> 'w) \<Rightarrow> fan_row list \<Rightarrow> nat \<Rightarrow> 'w \<Rightarrow> (nat \<times> bool) \<times> fan_row list \<times> 'w" where
  "fan_loop ins rows start w =
     (if \<not> start < length rows then ((length rows, False), [], w)
      else
        let end = (if start + BatchSize > length rows then length rows else start + BatchSize);
            batch = take (end - start) (drop start rows)
        in case ins batch w of
             (False, w1) \<Rightarrow> ((start, True), [], w1)
           | (True, w1) \<Rightarrow>
               (let (r, pubs, w2) = fan_loop ins rows (start + BatchSize) w1 in (r, batch @ pubs, w2)))"
  by pat_completeness auto
termination
  by (relation "measure (\<lambda>(ins, rows, start, w). length rows - start)") (auto simp: BatchSize_def)

declare fan_loop.simps [simp del]

record ('e, 'w) fan_deps =
  fd_members :: "string \<Rightarrow> int \<Rightarrow> 'e + string list"
  fd_devices :: "string list \<Rightarrow> 'e + string list"
  fd_insert :: "fan_row list \<Rightarrow> 'w \<Rightarrow> bool \<times> 'w"
  fd_aggregates :: bool

text \<open>
  The whole worker: the number of rows written and, on failure, \<open>None\<close> for a failed insert or the resolver's error;
  the count announced to the aggregate receipts; the published rows; the inbox.
\<close>

definition Fanout ::
  "('e, 'w) fan_deps \<Rightarrow> fanout_job \<Rightarrow> 'w \<Rightarrow> (nat \<times> 'e option option) \<times> nat option \<times> fan_row list \<times> 'w" where
  "Fanout fd job w =
     (case fd_members fd (fj_GroupID job) (fj_Version job) of
        Inl e \<Rightarrow> ((0, Some (Some e)), None, [], w)
      | Inr members \<Rightarrow>
        (case fd_devices fd members of
           Inl e \<Rightarrow> ((0, Some (Some e)), None, [], w)
         | Inr devices \<Rightarrow>
             let rows = job_rows job devices;
                 expected = (if fd_aggregates fd \<and> length rows > 0 then Some (length rows) else None);
                 ((n, failed), pubs, w1) = fan_loop (fd_insert fd) rows 0 w
             in ((n, if failed then Some None else None), expected, pubs, w1)))"

section \<open>The pool\<close>

text \<open>The queue, its capacity, and the jobs workers have taken, in order.\<close>

record pool =
  po_jobs :: "fanout_job list"
  po_depth :: nat
  po_taken :: "fanout_job list"

definition NewPool :: "int \<Rightarrow> pool" where
  "NewPool queueDepth = \<lparr>po_jobs = [], po_depth = (if queueDepth \<le> 0 then 1024 else nat queueDepth), po_taken = []\<rparr>"

definition Pool_Submit :: "fanout_job \<Rightarrow> pool \<Rightarrow> bool \<times> pool" where
  "Pool_Submit job p =
     (if length (po_jobs p) < po_depth p then (True, p\<lparr>po_jobs := po_jobs p @ [job]\<rparr>) else (False, p))"

definition QueueDepth :: "pool \<Rightarrow> nat" where "QueueDepth p = length (po_jobs p)"

text \<open>A worker receives a job and runs it; what \<open>Fanout\<close> returns is only logged.\<close>

definition pool_run :: "('e, 'w) fan_deps \<Rightarrow> pool \<times> 'w \<Rightarrow> pool \<times> 'w" where
  "pool_run fd pw =
     (case po_jobs (fst pw) of
        [] \<Rightarrow> pw
      | job # rest \<Rightarrow> ((fst pw)\<lparr>po_jobs := rest, po_taken := po_taken (fst pw) @ [job]\<rparr>, snd (snd (snd (Fanout fd job (snd pw))))))"

datatype pool_op = PSubmit fanout_job | PTake

fun pool_step :: "('e, 'w) fan_deps \<Rightarrow> (pool \<times> 'w) \<times> fanout_job list \<Rightarrow> pool_op \<Rightarrow> (pool \<times> 'w) \<times> fanout_job list" where
  "pool_step fd ((p, w), acc) (PSubmit job) =
     (((snd (Pool_Submit job p)), w), if fst (Pool_Submit job p) then acc @ [job] else acc)"
| "pool_step fd (pw, acc) PTake = (pool_run fd pw, acc)"

section \<open>Aggregate receipts\<close>

text \<open>\<open>reached\<close> is the aggregate store: the device count, the expected total and whether the device is new.\<close>

definition OnDeviceReceipt ::
  "(string \<Rightarrow> int \<Rightarrow> string \<Rightarrow> 'a \<Rightarrow> (nat \<times> nat \<times> bool) option \<times> 'a) \<Rightarrow> string \<Rightarrow> string \<Rightarrow> int \<Rightarrow> string \<Rightarrow> 'a \<Rightarrow>
   bool \<times> (string \<times> string \<times> int) list \<times> 'a" where
  "OnDeviceReceipt reached senderUserID msgUUID kind deviceID s =
     (case reached msgUUID kind deviceID s of
        (None, s1) \<Rightarrow> (False, [], s1)
      | (Some (count, expected, added), s1) \<Rightarrow>
          if added \<and> expected > 0 \<and> count = expected then (True, [(senderUserID, msgUUID, kind)], s1) else (True, [], s1))"

section \<open>Lemmas\<close>

text \<open>
  What the inbox writer promises, in terms of the recipients (\<open>held\<close>) its table has rows for: a batch is one statement,
  which writes all its rows or none, and a row that is there already is left alone.
\<close>

definition writes_batches :: "('w \<Rightarrow> (string \<times> string) set) \<Rightarrow> (fan_row list \<Rightarrow> 'w \<Rightarrow> bool \<times> 'w) \<Rightarrow> bool" where
  "writes_batches held ins \<longleftrightarrow>
     (\<forall>b w. held (snd (ins b w)) = held w \<union> (if fst (ins b w) then (\<lambda>r. (fr_DeviceID r, fr_MsgUUID r)) ` set b else {}))"

definition row_keys :: "fan_row list \<Rightarrow> (string \<times> string) set" where
  "row_keys rows = (\<lambda>r. (fr_DeviceID r, fr_MsgUUID r)) ` set rows"

lemma row_keys_simps [simp]: "row_keys [] = {}" "row_keys (xs @ ys) = row_keys xs \<union> row_keys ys"
  by (auto simp: row_keys_def)

lemma row_keys_job: "row_keys (job_rows job ds) = {(d, fj_MsgUUID job) | d. d \<in> set ds \<and> d \<noteq> fj_SenderDeviceID job}"
  by (auto simp: row_keys_def job_rows_def job_row_def image_image)

lemma fan_loop_step: "start < length rows \<Longrightarrow> fan_loop ins rows start w =
  (case ins (take BatchSize (drop start rows)) w of
     (False, w1) \<Rightarrow> ((start, True), [], w1)
   | (True, w1) \<Rightarrow> (let (r, pubs, w2) = fan_loop ins rows (start + BatchSize) w1 in (r, take BatchSize (drop start rows) @ pubs, w2)))"
proof -
  assume "start < length rows"
  moreover have "take ((if start + BatchSize > length rows then length rows else start + BatchSize) - start) (drop start rows) =
    take BatchSize (drop start rows)"
    by simp
  ultimately show ?thesis by (subst fan_loop.simps) (simp only: Let_def if_False not_True_eq_False simp_thms)
qed

lemma fan_loop_spec:
  assumes "writes_batches held ins" "fan_loop ins rows start w = ((n, failed), pubs, w1)"
  shows "pubs = take (n - start) (drop start rows) \<and> held w1 = held w \<union> row_keys pubs \<and>
    (if failed then start \<le> n \<and> n < length rows \<and> BatchSize dvd n - start else n = length rows)"
  using assms(2)
proof (induction "length rows - start" arbitrary: start w n failed pubs w1 rule: less_induct)
  case less
  show ?case
  proof (cases "start < length rows")
    case True
    let ?b = "take BatchSize (drop start rows)"
    obtain s w2 where i: "ins ?b w = (s, w2)" by (cases "ins ?b w")
    have h: "held w2 = held w \<union> (if s then row_keys ?b else {})"
      using assms(1) i unfolding writes_batches_def row_keys_def by (metis fst_conv snd_conv)
    show ?thesis
    proof (cases s)
      case s: True
      obtain pubs2 where f: "fan_loop ins rows (start + BatchSize) w2 = ((n, failed), pubs2, w1)" and p: "pubs = ?b @ pubs2"
        using less.prems True s i by (auto simp: fan_loop_step split: prod.splits)
      have IH: "pubs2 = take (n - (start + BatchSize)) (drop (start + BatchSize) rows)" "held w1 = held w2 \<union> row_keys pubs2"
        "if failed then start + BatchSize \<le> n \<and> n < length rows \<and> BatchSize dvd n - (start + BatchSize) else n = length rows"
        using less.hyps [OF _ f] True by (auto simp: BatchSize_def)
      have n: "failed \<Longrightarrow> n - start = BatchSize + (n - (start + BatchSize))" using IH(3) by auto
      have "pubs = take (n - start) (drop start rows)"
      proof (cases failed)
        case c: True
        show ?thesis unfolding n [OF c] p IH(1) take_add by (simp add: add.commute)
      next
        case False
        then have "pubs2 = drop BatchSize (drop start rows)" using IH(1,3) by (simp add: add.commute)
        with False p IH(3) show ?thesis by (simp del: drop_drop)
      qed
      moreover have "if failed then start \<le> n \<and> n < length rows \<and> BatchSize dvd n - start else n = length rows"
        using IH(3) n dvd_add [of BatchSize BatchSize "n - (start + BatchSize)"] by (cases failed) auto
      moreover have "held w1 = held w \<union> row_keys pubs" using h s IH(2) p by auto
      ultimately show ?thesis by blast
    qed (use less.prems True i h in \<open>auto simp: fan_loop_step\<close>)
  qed (use less.prems in \<open>auto simp: fan_loop.simps\<close>)
qed

text \<open>Jobs that were accepted have been taken, in order, or wait, in order; the queue is never over its depth.\<close>

definition pool_ok :: "(pool \<times> 'w) \<times> fanout_job list \<Rightarrow> bool" where
  "pool_ok s \<longleftrightarrow> (case s of ((p, w), acc) \<Rightarrow> acc = po_taken p @ po_jobs p \<and> length (po_jobs p) \<le> po_depth p)"

interpretation pool_inv: invariant_system "pool_step fd" pool_ok
proof
  show "pool_ok (pool_step fd s x)" if "pool_ok s" for s x
    using that by (cases s; cases x) (auto simp: pool_ok_def Pool_Submit_def pool_run_def split: list.splits prod.splits)
qed

text \<open>
  What the aggregate store promises: a set of devices per message and kind, whose size it returns, and the expected
  total of the message; other messages and kinds are not touched.
\<close>

definition counts_devices ::
  "('a \<Rightarrow> string \<Rightarrow> int \<Rightarrow> string set) \<Rightarrow> ('a \<Rightarrow> string \<Rightarrow> nat) \<Rightarrow>
   (string \<Rightarrow> int \<Rightarrow> string \<Rightarrow> 'a \<Rightarrow> (nat \<times> nat \<times> bool) option \<times> 'a) \<Rightarrow> bool" where
  "counts_devices at exp reached \<longleftrightarrow>
     (\<forall>m k d s. case reached m k d s of
        (None, s1) \<Rightarrow> at s1 = at s \<and> exp s1 = exp s
      | (Some (c, e, a), s1) \<Rightarrow> c = card (insert d (at s m k)) \<and> e = exp s m \<and> (a \<longleftrightarrow> d \<notin> at s m k) \<and>
          at s1 = (\<lambda>m' k'. if m' = m \<and> k' = k then insert d (at s m k) else at s m' k') \<and> exp s1 = exp s)"

text \<open>The ticks of a sequence of receipts, each a sender, a message, a kind and a device.\<close>

fun ticks ::
  "(string \<Rightarrow> int \<Rightarrow> string \<Rightarrow> 'a \<Rightarrow> (nat \<times> nat \<times> bool) option \<times> 'a) \<Rightarrow> (string \<times> string \<times> int \<times> string) list \<Rightarrow> 'a \<Rightarrow>
   (string \<times> string \<times> int) list \<times> 'a" where
  "ticks reached [] s = ([], s)"
| "ticks reached ((u, m, k, d) # rs) s =
     (let (okay, out, s1) = OnDeviceReceipt reached u m k d s; (outs, s2) = ticks reached rs s1 in (out @ outs, s2))"

lemma counts_devicesD:
  assumes "counts_devices at exp reached" "OnDeviceReceipt reached u m k d s = (okay, out, s1)"
  shows "at s1 = (\<lambda>m' k'. if okay \<and> m' = m \<and> k' = k then insert d (at s m k) else at s m' k')" "exp s1 = exp s"
    "out = (if okay \<and> d \<notin> at s m k \<and> 0 < exp s m \<and> card (insert d (at s m k)) = exp s m then [(u, m, k)] else [])"
proof -
  obtain r s2 where r: "reached m k d s = (r, s2)" by (cases "reached m k d s")
  have "case (r, s2) of
        (None, s1) \<Rightarrow> at s1 = at s \<and> exp s1 = exp s
      | (Some (c, e, a), s1) \<Rightarrow> c = card (insert d (at s m k)) \<and> e = exp s m \<and> (a \<longleftrightarrow> d \<notin> at s m k) \<and>
          at s1 = (\<lambda>m' k'. if m' = m \<and> k' = k then insert d (at s m k) else at s m' k') \<and> exp s1 = exp s"
    using assms(1) [unfolded counts_devices_def, THEN spec [of _ m], THEN spec [of _ k], THEN spec [of _ d], THEN spec [of _ s]] unfolding r .
  with assms(2) r show "at s1 = (\<lambda>m' k'. if okay \<and> m' = m \<and> k' = k then insert d (at s m k) else at s m' k')" "exp s1 = exp s"
    "out = (if okay \<and> d \<notin> at s m k \<and> 0 < exp s m \<and> card (insert d (at s m k)) = exp s m then [(u, m, k)] else [])"
    by (auto simp: OnDeviceReceipt_def split: option.splits if_splits)
qed

lemma ticks_count:
  assumes "counts_devices at exp reached" "ticks reached rs s = (out, s1)" "finite (at s m k)" "0 < exp s m"
  shows "length (filter (\<lambda>t. snd t = (m, k)) out) = (if card (at s m k) < exp s m \<and> exp s m \<le> card (at s1 m k) then 1 else 0) \<and>
    finite (at s1 m k) \<and> at s m k \<subseteq> at s1 m k"
  using assms(2-4)
proof (induction rs arbitrary: s out)
  case (Cons r rs)
  obtain u m' k' d where r: "r = (u, m', k', d)" by (cases r)
  obtain okay o1 s2 o2 where f: "OnDeviceReceipt reached u m' k' d s = (okay, o1, s2)" "ticks reached rs s2 = (o2, s1)" "out = o1 @ o2"
    using Cons.prems(1) r by (auto split: prod.splits)
  note D = counts_devicesD [OF assms(1) f(1)]
  have fin: "finite (at s2 m k)" using Cons.prems(2) by (auto simp: D)
  have IH: "length (filter (\<lambda>t. snd t = (m, k)) o2) = (if card (at s2 m k) < exp s m \<and> exp s m \<le> card (at s1 m k) then 1 else 0) \<and>
    finite (at s1 m k) \<and> at s2 m k \<subseteq> at s1 m k"
    using Cons.IH [OF f(2) fin] Cons.prems(3) D(2) by simp
  then have le: "card (at s2 m k) \<le> card (at s1 m k)" by (simp add: card_mono)
  show ?case
  proof (cases "okay \<and> m' = m \<and> k' = k \<and> d \<notin> at s m k")
    case True
    then have c: "card (at s2 m k) = Suc (card (at s m k))" using Cons.prems(2) by (simp add: D)
    show ?thesis using True IH le c f(3) Cons.prems by (auto simp: D insert_absorb)
  next
    case False
    then have "at s2 m k = at s m k" "filter (\<lambda>t. snd t = (m, k)) o1 = []" by (auto simp: D insert_absorb)
    with IH f(3) show ?thesis by simp
  qed
qed simp

end
