(* ===== verification/FanOutProps.thy ===== *)
theory FanOutProps
  imports FanOutWorker
begin

text \<open>What the fan-out worker guarantees: coverage, in spite of failed batches and retries; the order and bound of its
  queue; and one aggregate tick per message and kind.\<close>

section \<open>Coverage\<close>

lemma Fanout_Inr:
  assumes "fd_members fd (fj_GroupID job) (fj_Version job) = Inr ms" "fd_devices fd ms = Inr ds"
    "Fanout fd job w = ((n, err), ex, pubs, w1)" "writes_batches held (fd_insert fd)"
  shows "pubs = take n (job_rows job ds)" "held w1 = held w \<union> row_keys pubs"
    "if err = None then n = length (job_rows job ds) else err = Some None \<and> n < length (job_rows job ds) \<and> BatchSize dvd n"
proof -
  obtain n' failed pubs' w' where l: "fan_loop (fd_insert fd) (job_rows job ds) 0 w = ((n', failed), pubs', w')"
    by (metis surj_pair)
  with assms(1-3) have e: "n' = n" "pubs' = pubs" "w' = w1" "err = (if failed then Some None else None)"
    by (auto simp: Fanout_def Let_def)
  from fan_loop_spec [OF assms(4) l] show "pubs = take n (job_rows job ds)" "held w1 = held w \<union> row_keys pubs"
    "if err = None then n = length (job_rows job ds) else err = Some None \<and> n < length (job_rows job ds) \<and> BatchSize dvd n"
    unfolding e by (auto split: if_splits)
qed

text \<open>A job handed to the worker again and again, over an inbox that may fail now and then.\<close>

fun redeliver :: "nat \<Rightarrow> ('e, 'w) fan_deps \<Rightarrow> fanout_job \<Rightarrow> 'w \<Rightarrow> (nat \<times> 'e option option) list \<times> 'w" where
  "redeliver 0 fd job w = ([], w)"
| "redeliver (Suc k) fd job w =
     (let (r, ex, pubs, w1) = Fanout fd job w; (rs, w2) = redeliver k fd job w1 in (r # rs, w2))"

text \<open>
Fan-out covers the group exactly, also through retries: with an inbox writer that writes a batch as a whole or not at all
and ignores rows it has, a job that is redelivered any number of times, some of them failing half way, has put a row for
the message to exactly the devices of the members other than the sending one as soon as one delivery succeeds, and at any
time to no other device; a failed delivery reports the full batches it has written.
\<close>

theorem fanout_exact:
  assumes "writes_batches held (fd_insert fd)" "fd_members fd (fj_GroupID job) (fj_Version job) = Inr ms"
    "fd_devices fd ms = Inr ds" "redeliver k fd job w = (rs, w1)"
  shows "held w \<subseteq> held w1 \<and> held w1 \<subseteq> held w \<union> {(d, fj_MsgUUID job) | d. d \<in> set ds \<and> d \<noteq> fj_SenderDeviceID job} \<and>
    ((\<exists>n. (n, None) \<in> set rs) \<longrightarrow> held w1 = held w \<union> {(d, fj_MsgUUID job) | d. d \<in> set ds \<and> d \<noteq> fj_SenderDeviceID job}) \<and>
    (\<forall>(n, err)\<in>set rs. if err = None then n = length (filter (\<lambda>d. d \<noteq> fj_SenderDeviceID job) ds) else BatchSize dvd n)"
  unfolding row_keys_job [symmetric] using assms(4)
proof (induction k arbitrary: w rs)
  case (Suc k)
  obtain n err ex pubs w2 where f: "Fanout fd job w = ((n, err), ex, pubs, w2)" by (metis surj_pair)
  obtain rs2 where r: "redeliver k fd job w2 = (rs2, w1)" "rs = (n, err) # rs2"
    using Suc.prems f by (auto split: prod.splits)
  note F = Fanout_Inr [OF assms(2,3) f assms(1)]
  have sub: "row_keys pubs \<subseteq> row_keys (job_rows job ds)" using F(1) by (auto simp: row_keys_def dest: in_set_takeD)
  have full: "err = None \<Longrightarrow> row_keys pubs = row_keys (job_rows job ds)" using F(1,3) by simp
  have len: "length (job_rows job ds) = length (filter (\<lambda>d. d \<noteq> fj_SenderDeviceID job) ds)" by (simp add: job_rows_def)
  from Suc.IH [OF r(1)] F(2,3) sub full show ?case unfolding r(2) by (auto simp: len split: if_splits)
qed simp

definition ex_fan :: "(string, (string \<times> string) list) fan_deps" where
  "ex_fan = \<lparr>fd_members = (\<lambda>g v. Inr [''a'', ''b'']), fd_devices = (\<lambda>us. Inr [''d1'', ''d2'']),
     fd_insert = (\<lambda>b w. (True, map (\<lambda>r. (fr_DeviceID r, fr_MsgUUID r)) b @ w)), fd_aggregates = True\<rparr>"

definition ex_job :: fanout_job where
  "ex_job = \<lparr>fj_GroupID = ''g'', fj_ConversationID = ''g'', fj_Seq = 1, fj_MsgUUID = ''m'', fj_SenderUserID = ''a'',
     fj_SenderDeviceID = ''d1'', fj_Kind = 1, fj_Ciphertext = ''x'', fj_AcceptedAtMS = 0, fj_ExpiresAtMS = 9, fj_Version = 0\<rparr>"

theorem fanout_exact_witness:
  "set (snd (redeliver 2 ex_fan ex_job [])) = {(''d2'', ''m'')}"
proof -
  have w: "writes_batches set (fd_insert ex_fan)" by (auto simp: writes_batches_def ex_fan_def)
  have r: "(1, None) \<in> set (fst (redeliver 2 ex_fan ex_job []))"
    by (simp add: numeral_2_eq_2 Fanout_def ex_fan_def ex_job_def job_rows_def fan_loop.simps BatchSize_def)
  have "fd_members ex_fan (fj_GroupID ex_job) (fj_Version ex_job) = Inr [''a'', ''b'']" "fd_devices ex_fan [''a'', ''b''] = Inr [''d1'', ''d2'']"
    by (simp_all add: ex_fan_def)
  from fanout_exact [OF w this, of 2 "[]" "fst (redeliver 2 ex_fan ex_job [])" "snd (redeliver 2 ex_fan ex_job [])"] r
  have "set (snd (redeliver 2 ex_fan ex_job [])) = {(d, fj_MsgUUID ex_job) | d. d \<in> set [''d1'', ''d2''] \<and> d \<noteq> fj_SenderDeviceID ex_job}"
    by auto
  also have "\<dots> = {(''d2'', ''m'')}" by (auto simp: ex_job_def)
  finally show ?thesis .
qed

section \<open>The queue\<close>

text \<open>
  Jobs leave the queue in the order they were accepted, none is lost or taken twice, and the backlog never exceeds the
  configured depth.
\<close>

theorem pool_fifo:
  assumes "run (pool_step fd) ((NewPool depth, w), []) ops = ((p, w1), accepted)"
  shows "accepted = po_taken p @ po_jobs p \<and> QueueDepth p \<le> (if depth \<le> 0 then 1024 else nat depth)"
proof -
  have "pool_ok ((NewPool depth, w), [])" by (simp add: pool_ok_def NewPool_def)
  from pool_inv.keep_run [OF this, of fd ops] assms have ok: "pool_ok ((p, w1), accepted)" by simp
  have "po_depth (fst (fst (pool_step fd s x))) = po_depth (fst (fst s))" for s :: "(pool \<times> _) \<times> fanout_job list" and x
    by (cases s; cases x) (auto simp: Pool_Submit_def pool_run_def split: list.splits)
  then have "po_depth (fst (fst (run (pool_step fd) s ops))) = po_depth (fst (fst s))" for s
    by (induction ops arbitrary: s) auto
  from this [of "((NewPool depth, w), [])"] ok assms show ?thesis by (auto simp: pool_ok_def QueueDepth_def NewPool_def)
qed

section \<open>Aggregate receipts\<close>

text \<open>
One tick per message and kind: with a store that counts the distinct devices of a message and kind, over any receipts
for any messages, duplicates and store failures included, the tick of a message with a positive expected total is emitted
exactly once when at least that many devices have reached the state, and not before.
\<close>

theorem one_aggregate_tick:
  assumes "counts_devices at exp reached" "ticks reached rs s = (out, s1)" "at s m k = {}" "0 < exp s m"
  shows "length (filter (\<lambda>(u, m', k'). m' = m \<and> k' = k) out) = (if exp s m \<le> card (at s1 m k) then 1 else 0)"
proof -
  have "filter (\<lambda>(u, m', k'). m' = m \<and> k' = k) out = filter (\<lambda>t. snd t = (m, k)) out" by (rule filter_cong) auto
  then show ?thesis using ticks_count [OF assms(1,2), of m k] assms(3,4) by simp
qed

definition ex_reached :: "string \<Rightarrow> int \<Rightarrow> string \<Rightarrow> (string \<Rightarrow> int \<Rightarrow> string list) \<Rightarrow> (nat \<times> nat \<times> bool) option \<times> (string \<Rightarrow> int \<Rightarrow> string list)" where
  "ex_reached m k d s =
     (if d \<in> set (s m k) then (Some (length (remdups (s m k)), 2, False), s)
      else (Some (Suc (length (remdups (s m k))), 2, True), (\<lambda>m' k'. if m' = m \<and> k' = k then d # s m k else s m' k')))"

theorem one_aggregate_tick_witness:
  "length (filter (\<lambda>(u, m', k'). m' = ''m'' \<and> k' = 1)
     (fst (ticks ex_reached [(''u'', ''m'', 1, ''d1''), (''u'', ''m'', 1, ''d1''), (''u'', ''m'', 1, ''d2'')] (\<lambda>_ _. [])))) = 1"
proof -
  let ?rs = "[(''u'', ''m'', 1, ''d1''), (''u'', ''m'', 1, ''d1''), (''u'', ''m'', 1, ''d2'')]"
  have c: "counts_devices (\<lambda>s m k. set (s m k)) (\<lambda>_ _. 2) ex_reached"
    by (auto simp: counts_devices_def ex_reached_def length_remdups_card_conv insert_absorb fun_eq_iff)
  have "card (set (snd (ticks ex_reached ?rs (\<lambda>_ _. [])) ''m'' 1)) = 2" by (simp add: OnDeviceReceipt_def ex_reached_def)
  with one_aggregate_tick [OF c, of ?rs "\<lambda>_ _. []" _ _ "''m''" 1, OF surjective_pairing] show ?thesis by simp
qed

end
