(* ===== verification/AuthDomain.thy ===== *)
theory AuthDomain
  imports GoCodec RateLimit
begin

text \<open>
  The pure part of authentication (\<^verbatim>\<open>auth/domain\<close>): OTP codes and their verification, the 2FA PIN in PHC format,
  refresh tokens and sessions. The crypto libraries are parameters: \<^verbatim>\<open>crypto/hmac\<close> with SHA-256, \<^verbatim>\<open>crypto/sha256\<close>
  and \<^verbatim>\<open>golang.org/x/crypto/argon2\<close>. The entropy source is the bytes it will deliver before it fails.
\<close>

record crypto =
  cr_hmac :: "string \<Rightarrow> string \<Rightarrow> string"
  cr_sha256 :: "string \<Rightarrow> string"
  cr_argonVersion :: nat
  cr_argon :: "string \<Rightarrow> string \<Rightarrow> nat \<Rightarrow> nat \<Rightarrow> nat \<Rightarrow> nat \<Rightarrow> string"

text \<open>\<^verbatim>\<open>io.ReadFull\<close> of so many bytes.\<close>

definition ReadFull :: "nat \<Rightarrow> string \<Rightarrow> (string \<times> string) option" where
  "ReadFull n entropy = (if length entropy < n then None else Some (take n entropy, drop n entropy))"

section \<open>One-time codes\<close>

definition OTPValidity :: duration where "OTPValidity = 10 * Minute"
definition OTPMaxAttempts :: int where "OTPMaxAttempts = 5"

datatype channel = ChannelSMS | ChannelEmail | ChannelMock

fun Channel_String :: "channel \<Rightarrow> string" where
  "Channel_String ChannelSMS = ''sms''"
| "Channel_String ChannelEmail = ''email''"
| "Channel_String ChannelMock = ''mock''"

record challenge =
  ch_ID :: string
  ch_PhoneHash :: string
  ch_CodeHash :: string
  ch_Salt :: string
  ch_Channel :: channel
  ch_Attempts :: int
  ch_VerifiedAt :: "instant option"
  ch_PinPending :: bool
  ch_CreatedAt :: instant
  ch_ExpiresAt :: instant

definition code_limit :: nat where "code_limit = 4294000000"

text \<open>Rejection sampling of a big-endian 32-bit word.\<close>

definition Uint32 :: "char \<Rightarrow> char \<Rightarrow> char \<Rightarrow> char \<Rightarrow> nat" where
  "Uint32 a b c d = ((byte a * 256 + byte b) * 256 + byte c) * 256 + byte d"

fun NewCode :: "string \<Rightarrow> (string \<times> string) option" where
  "NewCode (a # b # c # d # entropy) =
     (let n = Uint32 a b c d
      in if n < code_limit then Some (dec_pad 6 (n mod 1000000), entropy) else NewCode entropy)"
| "NewCode _ = None"

definition HashCode :: "crypto \<Rightarrow> string \<Rightarrow> string \<Rightarrow> string" where
  "HashCode cr salt code = cr_hmac cr salt code"

datatype verify_outcome = VerifyOK | VerifyWrongCode | VerifyExpired | VerifyTooManyAttempts | VerifyAlreadyUsed

definition VerifyCode :: "crypto \<Rightarrow> challenge \<Rightarrow> string \<Rightarrow> instant \<Rightarrow> verify_outcome" where
  "VerifyCode cr ch code now =
     (if ch_VerifiedAt ch \<noteq> None then VerifyAlreadyUsed
      else if now > ch_ExpiresAt ch then VerifyExpired
      else if ch_Attempts ch \<ge> OTPMaxAttempts then VerifyTooManyAttempts
      else if ch_CodeHash ch = HashCode cr (ch_Salt ch) code then VerifyOK
      else VerifyWrongCode)"

section \<open>The PIN\<close>

definition pinArgonTime :: nat where "pinArgonTime = 3"
definition pinArgonMemory :: nat where "pinArgonMemory = 64 * 1024"
definition pinArgonThreads :: nat where "pinArgonThreads = 4"
definition pinArgonKeyLen :: nat where "pinArgonKeyLen = 32"
definition pinSaltLen :: nat where "pinSaltLen = 16"
definition PINMinLength :: nat where "PINMinLength = 4"

lemmas pin_consts = pinArgonTime_def pinArgonMemory_def pinArgonThreads_def pinArgonKeyLen_def pinSaltLen_def PINMinLength_def

definition HashPIN :: "crypto \<Rightarrow> string \<Rightarrow> string \<Rightarrow> string option" where
  "HashPIN cr pin entropy =
     (if length pin < PINMinLength then None
      else case ReadFull pinSaltLen entropy of
        None \<Rightarrow> None
      | Some (salt, _) \<Rightarrow>
          let key = cr_argon cr pin salt pinArgonTime pinArgonMemory pinArgonThreads pinArgonKeyLen
          in Some (''$argon2id$v='' @ dec (cr_argonVersion cr) @ ''$m='' @ dec pinArgonMemory @ '',t='' @ dec pinArgonTime @
               '',p='' @ dec pinArgonThreads @ ''$'' @ RawStd_Encode salt @ ''$'' @ RawStd_Encode key))"

definition scan_version :: "string \<Rightarrow> int option" where
  "scan_version s = Option.bind (scan_lit ''v='' s) (\<lambda>r. map_option fst (scan_int r))"

definition scan_params :: "string \<Rightarrow> (nat \<times> nat \<times> nat) option" where
  "scan_params s =
     Option.bind (scan_lit ''m='' s) (\<lambda>r.
     Option.bind (scan_uint 32 r) (\<lambda>(mem, r).
     Option.bind (scan_lit '',t='' r) (\<lambda>r.
     Option.bind (scan_uint 32 r) (\<lambda>(tm, r).
     Option.bind (scan_lit '',p='' r) (\<lambda>r.
     Option.bind (scan_uint 8 r) (\<lambda>(threads, r).
       Some (mem, tm, threads)))))))"

text \<open>\<open>None\<close>: the stored hash is unreadable.\<close>

definition CheckPIN :: "crypto \<Rightarrow> string \<Rightarrow> string \<Rightarrow> bool option" where
  "CheckPIN cr phc pin =
     (let parts = Split_char (CHR ''$'') phc
      in if length parts \<noteq> 6 \<or> parts ! 0 \<noteq> [] \<or> parts ! 1 \<noteq> ''argon2id'' then None
         else case scan_version (parts ! 2) of
           None \<Rightarrow> None
         | Some version \<Rightarrow>
           if version \<noteq> int (cr_argonVersion cr) then None
           else case scan_params (parts ! 3) of
             None \<Rightarrow> None
           | Some (mem, tm, threads) \<Rightarrow>
             (case (RawStd_Decode (parts ! 4), RawStd_Decode (parts ! 5)) of
                (Some salt, Some want) \<Rightarrow> Some (cr_argon cr pin salt tm mem threads (length want) = want)
              | _ \<Rightarrow> None))"

section \<open>Sessions\<close>

record session =
  se_ID :: string
  se_DeviceID :: string
  se_UserID :: string
  se_RefreshHash :: string
  se_RotatedFrom :: "string option"
  se_ExpiresAt :: instant
  se_RevokedAt :: "instant option"

datatype refresh_outcome = RefreshRotate | RefreshExpired | RefreshRevoked

definition EvaluateSession :: "session \<Rightarrow> instant \<Rightarrow> refresh_outcome" where
  "EvaluateSession s now =
     (if se_RevokedAt s \<noteq> None then RefreshRevoked
      else if now > se_ExpiresAt s then RefreshExpired
      else RefreshRotate)"

definition HashToken :: "crypto \<Rightarrow> string \<Rightarrow> string" where
  "HashToken cr token = cr_sha256 cr token"

definition NewRefreshToken :: "crypto \<Rightarrow> string \<Rightarrow> (string \<times> string) option" where
  "NewRefreshToken cr entropy =
     (case ReadFull 32 entropy of
        None \<Rightarrow> None
      | Some (raw, _) \<Rightarrow> let tok = RawURL_Encode raw in Some (tok, HashToken cr tok))"

section \<open>Laws\<close>

text \<open>Every code is drawn by the same number of words: the sampling is unbiased.\<close>

lemma code_words:
  assumes "c < 1000000"
  shows "card {n. n < code_limit \<and> n mod 1000000 = c} = 4294"
proof -
  have "{n. n < code_limit \<and> n mod 1000000 = c} = (\<lambda>q. q * 1000000 + c) ` {..<4294}"
  proof (intro set_eqI iffI)
    fix n assume "n \<in> {n. n < code_limit \<and> n mod 1000000 = c}"
    then have n: "n < 4294 * 1000000" "n mod 1000000 = c" by (auto simp: code_limit_def)
    then have "n div 1000000 < 4294" by (simp add: less_mult_imp_div_less)
    moreover have "n = n div 1000000 * 1000000 + c" using n(2) by (metis div_mult_mod_eq)
    ultimately show "n \<in> (\<lambda>q. q * 1000000 + c) ` {..<4294}" by blast
  next
    fix n assume "n \<in> (\<lambda>q. q * 1000000 + c) ` {..<4294}"
    then obtain q where "q < 4294" "n = q * 1000000 + c" by blast
    with assms show "n \<in> {n. n < code_limit \<and> n mod 1000000 = c}" by (simp add: code_limit_def)
  qed
  moreover have "inj_on (\<lambda>q. q * 1000000 + c) {..<4294::nat}" by (auto simp: inj_on_def)
  ultimately show ?thesis by (simp add: card_image)
qed

lemma length_dec: "n < 10 ^ k \<Longrightarrow> 0 < k \<Longrightarrow> length (dec n) \<le> k"
proof (induction n arbitrary: k rule: dec.induct)
  case (1 n)
  show ?case
  proof (cases "n < 10")
    case False
    then obtain j where k: "k = Suc j" "0 < j" using 1(2,3) by (cases k; cases "k - 1") auto
    have "n div 10 < 10 ^ j" using 1(2) k(1) by (simp add: less_mult_imp_div_less mult.commute)
    then have "length (dec (n div 10)) \<le> j" using 1(1) [OF False] k(2) by simp
    then show ?thesis using False k(1) by (subst dec.simps) simp
  qed (use 1(3) in \<open>subst dec.simps, simp\<close>)
qed

lemma NewCode_six_digits: "NewCode entropy = Some (code, rest) \<Longrightarrow> length code = 6 \<and> list_all is_digit code"
proof (induction entropy rule: NewCode.induct)
  case (1 a b c d entropy)
  show ?case
  proof (cases "Uint32 a b c d < code_limit")
    case True
    let ?n = "Uint32 a b c d mod 1000000"
    have "length (dec ?n) \<le> 6" using length_dec [of ?n 6] by simp
    moreover have "list_all is_digit (dec ?n)" using dec_digits dec_digit_props by (metis list_all_iff)
    moreover have "is_digit (CHR ''0'')" by code_simp
    ultimately show ?thesis using 1(2) True by (auto simp: dec_pad_def list_all_iff Let_def)
  qed (use 1 in simp)
qed simp_all

text \<open>The PHC string read back.\<close>

lemma PHC_split:
  assumes "CHR ''$'' \<notin> set v" "CHR ''$'' \<notin> set p" "CHR ''$'' \<notin> set s" "CHR ''$'' \<notin> set k"
  shows "Split_char (CHR ''$'') (''$argon2id$'' @ v @ ''$'' @ p @ ''$'' @ s @ ''$'' @ k) = [[], ''argon2id'', v, p, s, k]"
  using assms by (simp add: Split_char_append Split_char_plain)

lemma dec_no_dollar: "CHR ''$'' \<notin> set (dec n)"
  using dec_digits [of "CHR ''$''" n] dec_digit_props by fastforce

lemma CheckPIN_HashPIN:
  assumes "HashPIN cr pin entropy = Some phc" "cr_argonVersion cr < 2 ^ 63"
    "length (cr_argon cr pin (take 16 entropy) 3 65536 4 32) = 32"
  shows "CheckPIN cr phc pin' = Some (cr_argon cr pin' (take 16 entropy) 3 65536 4 32 = cr_argon cr pin (take 16 entropy) 3 65536 4 32)"
proof -
  let ?salt = "take 16 entropy" and ?key = "cr_argon cr pin (take 16 entropy) 3 65536 4 32"
  let ?v = "''v='' @ dec (cr_argonVersion cr)" and ?p = "''m='' @ dec 65536 @ '',t='' @ dec 3 @ '',p='' @ dec 4"
  have phc: "phc = ''$argon2id$'' @ ?v @ ''$'' @ ?p @ ''$'' @ RawStd_Encode ?salt @ ''$'' @ RawStd_Encode ?key"
    using assms(1) by (auto simp: HashPIN_def ReadFull_def pin_consts Let_def split: if_splits)
  have parts: "Split_char (CHR ''$'') phc = [[], ''argon2id'', ?v, ?p, RawStd_Encode ?salt, RawStd_Encode ?key]"
    unfolding phc by (rule PHC_split) (simp_all add: dec_no_dollar RawStd_no_dollar)
  have v: "scan_version ?v = Some (int (cr_argonVersion cr))"
    using scan_dec(2) [of "[]" "cr_argonVersion cr"] assms(2) by (simp add: scan_version_def scan_lit_append del: append_Cons)
  have nd: "\<not> is_digit (CHR '','')" by code_simp
  have p: "scan_params ?p = Some (65536, 3, 4)"
    using scan_dec(1) [of "'',t='' @ dec 3 @ '',p='' @ dec 4" 65536 32] scan_dec(1) [of "'',p='' @ dec 4" 3 32] scan_dec(1) [of "[]" 4 8] nd
    by (simp add: scan_params_def scan_lit_append del: append_Cons)
  show ?thesis
    unfolding CheckPIN_def parts using v p assms(3) by (simp add: RawStd_roundtrip)
qed

end
