(* ===== verification/AuthStore.thy ===== *)
theory AuthStore
  imports AuthDomain
begin

text \<open>
  The tables of users, devices, sessions, one-time challenges and device links, and the PostgreSQL repositories over them
  (\<^verbatim>\<open>auth/adapters/pg.go\<close>, \<^verbatim>\<open>devices/adapters/pg.go\<close>). A statement that violates a key or a unique index fails
  and leaves the tables alone.
\<close>

section \<open>Tables\<close>

record user_row =
  us_ID :: string
  us_PhoneHash :: string
  us_PINHash :: string
  us_Status :: int
  us_Deleted :: bool

record device_row =
  de_ID :: string
  de_UserID :: string
  de_IsPrimary :: bool
  de_Platform :: int
  de_Name :: string
  de_IdentityKey :: string
  de_Cert :: string
  de_RegisteredAt :: instant
  de_LastActiveAt :: "instant option"
  de_RevokedAt :: "instant option"

record session_row =
  ss_ID :: string
  ss_DeviceID :: string
  ss_RefreshHash :: string
  ss_RotatedFrom :: "string option"
  ss_LastUsedAt :: "instant option"
  ss_ExpiresAt :: instant
  ss_RevokedAt :: "instant option"

datatype link_state = LinkPending | LinkApproved | LinkConsumed

record link =
  li_Token :: string
  li_Platform :: int
  li_Name :: string
  li_IdentityKey :: string
  li_State :: link_state
  li_ApprovedBy :: string
  li_UserID :: string
  li_DeviceID :: string
  li_Cert :: string
  li_CreatedAt :: instant
  li_ExpiresAt :: instant

text \<open>
  The attempt log has the key \<^verbatim>\<open>(phone_hash, at)\<close>. Of the prekeys, signed prekeys and push tokens only their device
  matters here.
\<close>

record auth_db =
  ad_Users :: "user_row list"
  ad_Devices :: "device_row list"
  ad_Sessions :: "session_row list"
  ad_Challenges :: "challenge list"
  ad_Links :: "link list"
  ad_Attempts :: "(string \<times> instant \<times> bool) list"
  ad_Prekeys :: "string list"
  ad_SignedPrekeys :: "string list"
  ad_PushTokens :: "string list"

definition empty_auth_db :: auth_db where
  "empty_auth_db = \<lparr>ad_Users = [], ad_Devices = [], ad_Sessions = [], ad_Challenges = [], ad_Links = [],
     ad_Attempts = [], ad_Prekeys = [], ad_SignedPrekeys = [], ad_PushTokens = []\<rparr>"

definition active_devices :: "auth_db \<Rightarrow> string \<Rightarrow> device_row list" where
  "active_devices db u = filter (\<lambda>d. de_UserID d = u \<and> de_RevokedAt d = None) (ad_Devices db)"

section \<open>Challenges\<close>

definition Challenges_Create :: "challenge \<Rightarrow> auth_db \<Rightarrow> auth_db option" where
  "Challenges_Create ch db = map_option (\<lambda>t. db\<lparr>ad_Challenges := t\<rparr>) (tbl_ins ch_ID (ch\<lparr>ch_VerifiedAt := None\<rparr>) (ad_Challenges db))"

definition Challenges_Get :: "string \<Rightarrow> auth_db \<Rightarrow> challenge option" where
  "Challenges_Get i db = tbl_get ch_ID i (ad_Challenges db)"

definition IncrementAttempts :: "string \<Rightarrow> auth_db \<Rightarrow> auth_db" where
  "IncrementAttempts i db = db\<lparr>ad_Challenges := tbl_upd ch_ID i (\<lambda>c. c\<lparr>ch_Attempts := ch_Attempts c + 1\<rparr>) (ad_Challenges db)\<rparr>"

definition MarkVerified :: "string \<Rightarrow> bool \<Rightarrow> instant \<Rightarrow> auth_db \<Rightarrow> auth_db" where
  "MarkVerified i pinPending t_at db =
     db\<lparr>ad_Challenges := tbl_upd ch_ID i (\<lambda>c. c\<lparr>ch_VerifiedAt := Some t_at, ch_PinPending := pinPending\<rparr>) (ad_Challenges db)\<rparr>"

definition Attempts_Record :: "string \<Rightarrow> bool \<Rightarrow> instant \<Rightarrow> auth_db \<Rightarrow> auth_db" where
  "Attempts_Record ph success t_at db =
     (if (ph, t_at) \<in> (\<lambda>(p, t, s). (p, t)) ` set (ad_Attempts db) then db
      else db\<lparr>ad_Attempts := ad_Attempts db @ [(ph, t_at, success)]\<rparr>)"

section \<open>Users\<close>

definition ByPhoneHash :: "string \<Rightarrow> auth_db \<Rightarrow> user_row option" where
  "ByPhoneHash ph db = find (\<lambda>u. us_PhoneHash u = ph \<and> \<not> us_Deleted u) (ad_Users db)"

definition ByID :: "string \<Rightarrow> auth_db \<Rightarrow> user_row option" where
  "ByID i db = find (\<lambda>u. us_ID u = i \<and> \<not> us_Deleted u) (ad_Users db)"

definition SetPINHash :: "string \<Rightarrow> string \<Rightarrow> auth_db \<Rightarrow> auth_db option" where
  "SetPINHash i phc db =
     (if ByID i db = None then None
      else Some (db\<lparr>ad_Users := map (\<lambda>u. if us_ID u = i \<and> \<not> us_Deleted u then u\<lparr>us_PINHash := phc\<rparr> else u) (ad_Users db)\<rparr>))"

section \<open>Sessions\<close>

text \<open>A new session: new id and refresh hash, a known device.\<close>

definition ins_session :: "session_row \<Rightarrow> auth_db \<Rightarrow> auth_db option" where
  "ins_session s db =
     (if ss_ID s \<in> ss_ID ` set (ad_Sessions db) \<or> ss_RefreshHash s \<in> ss_RefreshHash ` set (ad_Sessions db) \<or>
         ss_DeviceID s \<notin> de_ID ` set (ad_Devices db) then None
      else Some (db\<lparr>ad_Sessions := ad_Sessions db @ [s]\<rparr>))"

definition Sessions_Create :: "session \<Rightarrow> auth_db \<Rightarrow> auth_db option" where
  "Sessions_Create s db =
     ins_session \<lparr>ss_ID = se_ID s, ss_DeviceID = se_DeviceID s, ss_RefreshHash = se_RefreshHash s, ss_RotatedFrom = None,
       ss_LastUsedAt = None, ss_ExpiresAt = se_ExpiresAt s, ss_RevokedAt = None\<rparr> db"

text \<open>The row joined with its device.\<close>

definition sessions_one :: "(session_row \<Rightarrow> bool) \<Rightarrow> auth_db \<Rightarrow> session option" where
  "sessions_one P db =
     (case find (\<lambda>s. P s \<and> ss_DeviceID s \<in> de_ID ` set (ad_Devices db)) (ad_Sessions db) of
        None \<Rightarrow> None
      | Some s \<Rightarrow> map_option (\<lambda>d. \<lparr>se_ID = ss_ID s, se_DeviceID = ss_DeviceID s, se_UserID = de_UserID d,
          se_RefreshHash = ss_RefreshHash s, se_RotatedFrom = ss_RotatedFrom s, se_ExpiresAt = ss_ExpiresAt s,
          se_RevokedAt = ss_RevokedAt s\<rparr>) (tbl_get de_ID (ss_DeviceID s) (ad_Devices db)))"

definition ByRefreshHash :: "string \<Rightarrow> auth_db \<Rightarrow> session option" where
  "ByRefreshHash h db = sessions_one (\<lambda>s. ss_RefreshHash s = h) db"

definition ByRotatedFrom :: "string \<Rightarrow> auth_db \<Rightarrow> session option" where
  "ByRotatedFrom h db = sessions_one (\<lambda>s. ss_RotatedFrom s = Some h \<and> ss_RevokedAt s = None) db"

text \<open>\<open>None\<close>: the new hash is taken. Otherwise whether a row was rotated.\<close>

definition Rotate :: "string \<Rightarrow> string \<Rightarrow> string \<Rightarrow> instant \<Rightarrow> auth_db \<Rightarrow> (bool \<times> auth_db) option" where
  "Rotate sessionID oldHash newHash t_at db =
     (let hit = (\<lambda>s. ss_ID s = sessionID \<and> ss_RefreshHash s = oldHash \<and> ss_RevokedAt s = None)
      in if \<not> list_ex hit (ad_Sessions db) then Some (False, db)
         else if list_ex (\<lambda>s. \<not> hit s \<and> ss_RefreshHash s = newHash) (ad_Sessions db) then None
         else Some (True, db\<lparr>ad_Sessions := map (\<lambda>s. if hit s
           then s\<lparr>ss_RefreshHash := newHash, ss_RotatedFrom := Some oldHash, ss_LastUsedAt := Some t_at\<rparr> else s) (ad_Sessions db)\<rparr>))"

definition Sessions_Revoke :: "string \<Rightarrow> instant \<Rightarrow> auth_db \<Rightarrow> auth_db" where
  "Sessions_Revoke i t_at db =
     db\<lparr>ad_Sessions := map (\<lambda>s. if ss_ID s = i \<and> ss_RevokedAt s = None then s\<lparr>ss_RevokedAt := Some t_at\<rparr> else s) (ad_Sessions db)\<rparr>"

section \<open>Registration\<close>

definition maxDevicesPerUser :: nat where "maxDevicesPerUser = 5"

record register_params =
  rp_UserID :: string
  rp_PhoneHash :: string
  rp_DeviceID :: string
  rp_Platform :: int
  rp_DeviceName :: string
  rp_IdentityKey :: string
  rp_SessionID :: string
  rp_RefreshHash :: string
  rp_SessionExpiresAt :: instant
  rp_Now :: instant

datatype register_error = ErrDeviceLimit | UniqueViolation | RegisterFail

text \<open>A new device: a new id, a known user, and no second active primary device (\<^verbatim>\<open>one_primary_per_user\<close>).\<close>

definition ins_device :: "device_row \<Rightarrow> auth_db \<Rightarrow> auth_db option" where
  "ins_device d db =
     (if de_ID d \<in> de_ID ` set (ad_Devices db) \<or> de_UserID d \<notin> us_ID ` set (ad_Users db) \<or> (de_IsPrimary d \<and> list_ex de_IsPrimary (active_devices db (de_UserID d))) then None
      else Some (db\<lparr>ad_Devices := ad_Devices db @ [d]\<rparr>))"

definition register_try :: "register_params \<Rightarrow> auth_db \<Rightarrow> register_error + ((string \<times> bool) \<times> auth_db)" where
  "register_try p db =
     (let (userID, newUser, db1) =
        (case ByPhoneHash (rp_PhoneHash p) db of
           Some u \<Rightarrow> (us_ID u, False, Some db)
         | None \<Rightarrow> (rp_UserID p, True,
             if rp_UserID p \<in> us_ID ` set (ad_Users db) \<or> rp_PhoneHash p \<in> us_PhoneHash ` set (ad_Users db) then None
             else Some (db\<lparr>ad_Users := ad_Users db @ [\<lparr>us_ID = rp_UserID p, us_PhoneHash = rp_PhoneHash p, us_PINHash = [],
                    us_Status = 0, us_Deleted = False\<rparr>]\<rparr>)))
      in case db1 of
           None \<Rightarrow> Inl UniqueViolation
         | Some db1 \<Rightarrow>
           let active = length (active_devices db1 userID)
           in if active \<ge> maxDevicesPerUser then Inl ErrDeviceLimit
              else case ins_device \<lparr>de_ID = rp_DeviceID p, de_UserID = userID, de_IsPrimary = (active = 0),
                     de_Platform = rp_Platform p, de_Name = rp_DeviceName p, de_IdentityKey = rp_IdentityKey p,
                     de_Cert = rp_IdentityKey p, de_RegisteredAt = rp_Now p, de_LastActiveAt = None, de_RevokedAt = None\<rparr> db1 of
                None \<Rightarrow> Inl UniqueViolation
              | Some db2 \<Rightarrow>
                (case ins_session \<lparr>ss_ID = rp_SessionID p, ss_DeviceID = rp_DeviceID p, ss_RefreshHash = rp_RefreshHash p,
                        ss_RotatedFrom = None, ss_LastUsedAt = None, ss_ExpiresAt = rp_SessionExpiresAt p, ss_RevokedAt = None\<rparr> db2 of
                   None \<Rightarrow> Inl UniqueViolation
                 | Some db3 \<Rightarrow> Inr ((userID, newUser), db3)))"

text \<open>A unique violation is retried once, on the tables as they are then.\<close>

definition RegisterDevice :: "register_params \<Rightarrow> auth_db \<Rightarrow> register_error + ((string \<times> bool) \<times> auth_db)" where
  "RegisterDevice p db =
     (case register_try p db of
        Inl UniqueViolation \<Rightarrow> register_try p db
      | r \<Rightarrow> r)"

section \<open>Devices\<close>

definition ListByUser :: "string \<Rightarrow> auth_db \<Rightarrow> device_row list" where
  "ListByUser u db = order_asc de_RegisteredAt (active_devices db u)"

definition Device_Get :: "string \<Rightarrow> auth_db \<Rightarrow> device_row option" where
  "Device_Get i db = tbl_get de_ID i (ad_Devices db)"

definition owned_active :: "string \<Rightarrow> string \<Rightarrow> device_row \<Rightarrow> bool" where
  "owned_active u i d \<longleftrightarrow> de_ID d = i \<and> de_UserID d = u \<and> de_RevokedAt d = None"

definition Device_Rename :: "string \<Rightarrow> string \<Rightarrow> string \<Rightarrow> auth_db \<Rightarrow> bool \<times> auth_db" where
  "Device_Rename u i name db =
     (length (filter (owned_active u i) (ad_Devices db)) = 1,
      db\<lparr>ad_Devices := map (\<lambda>d. if owned_active u i d then d\<lparr>de_Name := name\<rparr> else d) (ad_Devices db)\<rparr>)"

definition CountActive :: "string \<Rightarrow> auth_db \<Rightarrow> nat" where
  "CountActive u db = length (active_devices db u)"

definition RevokeDevice :: "string \<Rightarrow> string \<Rightarrow> instant \<Rightarrow> auth_db \<Rightarrow> bool \<times> auth_db" where
  "RevokeDevice u i t_at db =
     (if \<not> list_ex (owned_active u i) (ad_Devices db) then (False, db)
      else (True, db\<lparr>
        ad_Devices := map (\<lambda>d. if owned_active u i d then d\<lparr>de_RevokedAt := Some t_at\<rparr> else d) (ad_Devices db),
        ad_Sessions := map (\<lambda>s. if ss_DeviceID s = i \<and> ss_RevokedAt s = None then s\<lparr>ss_RevokedAt := Some t_at\<rparr> else s) (ad_Sessions db),
        ad_Prekeys := filter (\<lambda>d. d \<noteq> i) (ad_Prekeys db),
        ad_SignedPrekeys := filter (\<lambda>d. d \<noteq> i) (ad_SignedPrekeys db),
        ad_PushTokens := filter (\<lambda>d. d \<noteq> i) (ad_PushTokens db)\<rparr>))"

section \<open>Links\<close>

definition CreateLink :: "link \<Rightarrow> auth_db \<Rightarrow> auth_db option" where
  "CreateLink l db =
     map_option (\<lambda>t. db\<lparr>ad_Links := t\<rparr>)
       (tbl_ins li_Token (l\<lparr>li_ApprovedBy := [], li_UserID := [], li_DeviceID := [], li_Cert := []\<rparr>) (ad_Links db))"

definition GetLink :: "string \<Rightarrow> auth_db \<Rightarrow> link option" where
  "GetLink token db = tbl_get li_Token token (ad_Links db)"

record approve_params =
  ap_Token :: string
  ap_UserID :: string
  ap_NewDeviceID :: string
  ap_ApprovedBy :: string
  ap_Platform :: int
  ap_Name :: string
  ap_IdentityKey :: string
  ap_Cert :: string
  ap_Now :: instant

text \<open>\<open>Inl True\<close>: no pending link with that token (\<^verbatim>\<open>ErrNotFound\<close>); \<open>Inl False\<close>: the device was not inserted.\<close>

definition ApproveLink :: "approve_params \<Rightarrow> auth_db \<Rightarrow> bool + auth_db" where
  "ApproveLink p db =
     (let hit = (\<lambda>l. li_Token l = ap_Token p \<and> li_State l = LinkPending)
      in if \<not> list_ex hit (ad_Links db) then Inl True
         else case ins_device \<lparr>de_ID = ap_NewDeviceID p, de_UserID = ap_UserID p, de_IsPrimary = False, de_Platform = ap_Platform p,
                de_Name = ap_Name p, de_IdentityKey = ap_IdentityKey p, de_Cert = ap_Cert p, de_RegisteredAt = ap_Now p,
                de_LastActiveAt = None, de_RevokedAt = None\<rparr> db of
              None \<Rightarrow> Inl False
            | Some db1 \<Rightarrow> Inr (db1\<lparr>ad_Links := map (\<lambda>l. if hit l then l\<lparr>li_State := LinkApproved, li_ApprovedBy := ap_ApprovedBy p,
                li_UserID := ap_UserID p, li_DeviceID := ap_NewDeviceID p, li_Cert := ap_Cert p\<rparr> else l) (ad_Links db1)\<rparr>))"

definition ConsumeLink :: "string \<Rightarrow> auth_db \<Rightarrow> auth_db" where
  "ConsumeLink token db = db\<lparr>ad_Links := tbl_upd li_Token token (\<lambda>l. l\<lparr>li_State := LinkConsumed\<rparr>) (ad_Links db)\<rparr>"

end
