(* ===== verification/AuthService.thy ===== *)
theory AuthService
  imports AuthStore
begin

text \<open>
  The authentication service (\<^verbatim>\<open>auth/service.go\<close>) and the device service (\<^verbatim>\<open>devices/service.go\<close>), over the tables of
  \<open>AuthStore\<close> and the rate limiter. Signing an access token is a call of a JWT library and a parameter. The optional
  product-analytics hook has no effect on the service and is left out.
\<close>

section \<open>Environment\<close>

datatype auth_call =
    ChallengesGet | ChallengesCreate | AttemptsIncrement | ChallengesMark | AttemptsRecord
  | UsersGet | UsersSet | SessionsGet | SessionsRotated | SessionsRotate | SessionsRevoke | SessionsCreate
  | Register | OTPSend | LimiterCall
  | DevicesList | DevicesRename | DevicesRevoke | DevicesGet | DevicesCount
  | LinksCreate | LinksGet | LinksApprove | LinksConsume

text \<open>
  One request: its clock, the calls that fail, the bytes the entropy source delivers, the ids it draws, and the
  configuration of the service.
\<close>

record auth_env =
  au_now :: instant
  au_fails :: "auth_call \<Rightarrow> bool"
  au_entropy :: string
  au_id1 :: string
  au_id2 :: string
  au_id3 :: string
  au_issue :: "string \<Rightarrow> string \<Rightarrow> string \<Rightarrow> string option"
  au_channel :: channel
  au_pepper :: string
  au_refreshTTL :: duration
  au_crypto :: crypto

record auth_sys =
  asy_db :: auth_db
  asy_limiter :: valkey_limiter

abbreviation with_db :: "auth_sys \<Rightarrow> auth_db \<Rightarrow> auth_sys" where
  "with_db s db \<equiv> s\<lparr>asy_db := db\<rparr>"

definition RateLimited :: api_error where "RateLimited = APIError ''RATE_LIMITED'' 429 True"

text \<open>One check of the limiter: an error of the limiter, or a refusal, ends the request.\<close>

definition rate_check :: "auth_env \<Rightarrow> string \<Rightarrow> params \<Rightarrow> auth_sys \<Rightarrow> api_error option \<times> auth_sys" where
  "rate_check e key p s =
     (case Valkey_Allow (au_fails e LimiterCall) (au_now e div Microsecond) key p (asy_limiter s) of
        (None, m) \<Rightarrow> (Some Transient, s\<lparr>asy_limiter := m\<rparr>)
      | (Some res, m) \<Rightarrow> (if rl_Allowed res then None else Some RateLimited, s\<lparr>asy_limiter := m\<rparr>))"

fun rate_checks :: "auth_env \<Rightarrow> (string \<times> params) list \<Rightarrow> auth_sys \<Rightarrow> api_error option \<times> auth_sys" where
  "rate_checks e [] s = (None, s)"
| "rate_checks e ((key, p) # ls) s =
     (case rate_check e key p s of
        (Some err, s1) \<Rightarrow> (Some err, s1)
      | (None, s1) \<Rightarrow> rate_checks e ls s1)"

section \<open>Requesting a code\<close>

definition match_e164 :: "string \<Rightarrow> bool" where
  "match_e164 h \<longleftrightarrow> (case h of
     p # d # ds \<Rightarrow> p = CHR ''+'' \<and> is_digit d \<and> d \<noteq> CHR ''0'' \<and> list_all is_digit ds \<and> 6 \<le> length ds \<and> length ds \<le> 14
   | _ \<Rightarrow> False)"

definition email_char :: "char \<Rightarrow> bool" where
  "email_char c \<longleftrightarrow> c \<noteq> CHR ''@'' \<and> byte c \<notin> {9, 10, 12, 13, 32}"

definition match_email :: "string \<Rightarrow> bool" where
  "match_email h \<longleftrightarrow>
     (case Split_char (CHR ''@'') h of
        [user, host] \<Rightarrow> user \<noteq> [] \<and> list_all email_char user \<and> list_all email_char host \<and>
          list_ex (\<lambda>i. host ! i = CHR ''.'') [1..<length host - 1]
      | _ \<Rightarrow> False)"

definition validHandle :: "auth_env \<Rightarrow> string \<Rightarrow> bool" where
  "validHandle e h = (if au_channel e = ChannelEmail then match_email h else match_e164 h)"

text \<open>Lower-casing is the one of ASCII handles.\<close>

definition PhoneHash :: "auth_env \<Rightarrow> string \<Rightarrow> string" where
  "PhoneHash e handle = cr_hmac (au_crypto e) (au_pepper e) (ToLower (TrimSpace handle))"

definition otp_limits :: "string \<Rightarrow> string \<Rightarrow> (string \<times> params) list" where
  "otp_limits ph ip =
     [(''rl:otp:num1h:'' @ hex_encode ph, \<lparr>pm_Rate = round64 (3 / 3600), pm_Burst = 3\<rparr>),
      (''rl:otp:num1d:'' @ hex_encode ph, \<lparr>pm_Rate = round64 (5 / 86400), pm_Burst = 5\<rparr>),
      (''rl:otp:ip1d:'' @ ip, \<lparr>pm_Rate = round64 (10 / 86400), pm_Burst = 10\<rparr>)]"

text \<open>The third component is what the sender was given: destination and code.\<close>

definition RequestOTP ::
  "auth_env \<Rightarrow> string \<Rightarrow> string \<Rightarrow> auth_sys \<Rightarrow> (string \<times> string) result \<times> auth_sys \<times> (string \<times> string) option" where
  "RequestOTP e handle0 ip s =
     (let handle = TrimSpace handle0
      in if \<not> validHandle e handle then (Inl (Reject 400 ''VALIDATION_PHONE''), s, None)
         else
           let ph = PhoneHash e handle
           in case rate_checks e (otp_limits ph ip) s of
                (Some err, s1) \<Rightarrow> (Inl err, s1, None)
              | (None, s1) \<Rightarrow>
                (case NewCode (au_entropy e) of
                   None \<Rightarrow> (Inl Transient, s1, None)
                 | Some (code, rest) \<Rightarrow>
                   (case ReadFull 16 rest of
                      None \<Rightarrow> (Inl Transient, s1, None)
                    | Some (salt, _) \<Rightarrow>
                      let ch = \<lparr>ch_ID = au_id1 e, ch_PhoneHash = ph, ch_CodeHash = HashCode (au_crypto e) salt code, ch_Salt = salt,
                                ch_Channel = au_channel e, ch_Attempts = 0, ch_VerifiedAt = None, ch_PinPending = False,
                                ch_CreatedAt = au_now e, ch_ExpiresAt = au_now e + OTPValidity\<rparr>
                      in case (if au_fails e ChallengesCreate then None else Challenges_Create ch (asy_db s1)) of
                           None \<Rightarrow> (Inl Transient, s1, None)
                         | Some db1 \<Rightarrow>
                             if au_fails e OTPSend then (Inl Transient, with_db s1 db1, None)
                             else (Inr (ch_ID ch, Channel_String (ch_Channel ch)), with_db s1 db1, Some (handle, code)))))"

section \<open>Registering a device\<close>

record device_info =
  di_Platform :: string
  di_Name :: string
  di_IdentityKey :: string

record token_pair =
  tp_AccessJWT :: string
  tp_RefreshToken :: string
  tp_UserID :: string
  tp_DeviceID :: string
  tp_SessionID :: string
  tp_RequiresPIN :: bool

definition platformCode :: "string \<Rightarrow> int option" where
  "platformCode p =
     (if p = ''ios'' then Some 0 else if p = ''android'' then Some 1 else if p = ''web'' then Some 2 else None)"

definition register :: "auth_env \<Rightarrow> string \<Rightarrow> device_info \<Rightarrow> auth_sys \<Rightarrow> token_pair result \<times> auth_sys" where
  "register e phoneHash dev s =
     (case platformCode (di_Platform dev) of
        None \<Rightarrow> (Inl (Reject 400 ''VALIDATION_DEVICE''), s)
      | Some platform \<Rightarrow>
        if di_IdentityKey dev = [] then (Inl (Reject 400 ''VALIDATION_DEVICE''), s)
        else case NewRefreshToken (au_crypto e) (au_entropy e) of
          None \<Rightarrow> (Inl Transient, s)
        | Some (refresh, rhash) \<Rightarrow>
          let p = \<lparr>rp_UserID = au_id1 e, rp_PhoneHash = phoneHash, rp_DeviceID = au_id2 e, rp_Platform = platform,
                   rp_DeviceName = di_Name dev, rp_IdentityKey = di_IdentityKey dev, rp_SessionID = au_id3 e,
                   rp_RefreshHash = rhash, rp_SessionExpiresAt = au_now e + au_refreshTTL e, rp_Now = au_now e\<rparr>
          in case (if au_fails e Register then Inl RegisterFail else RegisterDevice p (asy_db s)) of
               Inl ErrDeviceLimit \<Rightarrow> (Inl (Reject 403 ''STATE_DEVICE_LIMIT''), s)
             | Inl _ \<Rightarrow> (Inl Transient, s)
             | Inr ((userID, newUser), db1) \<Rightarrow>
               (case au_issue e userID (rp_DeviceID p) (rp_SessionID p) of
                  None \<Rightarrow> (Inl Transient, with_db s db1)
                | Some access \<Rightarrow>
                    (Inr \<lparr>tp_AccessJWT = access, tp_RefreshToken = refresh, tp_UserID = userID, tp_DeviceID = rp_DeviceID p,
                          tp_SessionID = rp_SessionID p, tp_RequiresPIN = False\<rparr>, with_db s db1)))"

section \<open>Verifying\<close>

definition record_attempt :: "auth_env \<Rightarrow> string \<Rightarrow> bool \<Rightarrow> auth_db \<Rightarrow> auth_db" where
  "record_attempt e ph success db = (if au_fails e AttemptsRecord then db else Attempts_Record ph success (au_now e) db)"

definition requires_pin :: token_pair where
  "requires_pin = \<lparr>tp_AccessJWT = [], tp_RefreshToken = [], tp_UserID = [], tp_DeviceID = [], tp_SessionID = [], tp_RequiresPIN = True\<rparr>"

definition VerifyOTP :: "auth_env \<Rightarrow> string \<Rightarrow> string \<Rightarrow> device_info \<Rightarrow> auth_sys \<Rightarrow> token_pair result \<times> auth_sys" where
  "VerifyOTP e challengeID code dev s =
     (if au_fails e ChallengesGet then (Inl Transient, s)
      else case Challenges_Get challengeID (asy_db s) of
        None \<Rightarrow> (Inl (Reject 401 ''AUTH_OTP_INVALID''), s)
      | Some ch \<Rightarrow>
        (case VerifyCode (au_crypto e) ch code (au_now e) of
           VerifyWrongCode \<Rightarrow>
             (Inl (Reject 401 ''AUTH_OTP_INVALID''),
              with_db s (record_attempt e (ch_PhoneHash ch) False
                (if au_fails e AttemptsIncrement then asy_db s else IncrementAttempts (ch_ID ch) (asy_db s))))
         | VerifyExpired \<Rightarrow> (Inl (Reject 401 ''AUTH_OTP_EXPIRED''), s)
         | VerifyTooManyAttempts \<Rightarrow> (Inl (Reject 401 ''AUTH_OTP_INVALID''), s)
         | VerifyAlreadyUsed \<Rightarrow> (Inl (Reject 401 ''AUTH_OTP_INVALID''), s)
         | VerifyOK \<Rightarrow>
           let s1 = with_db s (record_attempt e (ch_PhoneHash ch) True (asy_db s));
               finish = (if au_fails e ChallengesMark then (Inl Transient, s1)
                 else register e (ch_PhoneHash ch) dev (with_db s1 (MarkVerified (ch_ID ch) False (au_now e) (asy_db s1))))
           in if au_fails e UsersGet then (Inl Transient, s1)
              else case ByPhoneHash (ch_PhoneHash ch) (asy_db s1) of
                None \<Rightarrow> finish
              | Some u \<Rightarrow>
                if us_Status u = 1 then (Inl (Reject 403 ''ACCOUNT_SUSPENDED''), s1)
                else if us_PINHash u \<noteq> []
                then (if au_fails e ChallengesMark then (Inl Transient, s1)
                      else (Inr requires_pin, with_db s1 (MarkVerified (ch_ID ch) True (au_now e) (asy_db s1))))
                else finish))"

definition pin_limit :: params where "pin_limit = \<lparr>pm_Rate = round64 (5 / 3600), pm_Burst = 3\<rparr>"

definition VerifyPIN :: "auth_env \<Rightarrow> string \<Rightarrow> string \<Rightarrow> device_info \<Rightarrow> auth_sys \<Rightarrow> token_pair result \<times> auth_sys" where
  "VerifyPIN e challengeID pin dev s =
     (if au_fails e ChallengesGet then (Inl Transient, s)
      else case Challenges_Get challengeID (asy_db s) of
        None \<Rightarrow> (Inl (Reject 401 ''AUTH_PIN_INVALID''), s)
      | Some ch \<Rightarrow>
        if ch_VerifiedAt ch = None \<or> \<not> ch_PinPending ch then (Inl (Reject 401 ''AUTH_PIN_INVALID''), s)
        else if au_now e > ch_ExpiresAt ch then (Inl (Reject 401 ''AUTH_OTP_EXPIRED''), s)
        else case rate_check e (''rl:pin:'' @ hex_encode (ch_PhoneHash ch)) pin_limit s of
          (Some err, s1) \<Rightarrow> (Inl err, s1)
        | (None, s1) \<Rightarrow>
          if au_fails e UsersGet then (Inl Transient, s1)
          else case ByPhoneHash (ch_PhoneHash ch) (asy_db s1) of
            None \<Rightarrow> (Inl Transient, s1)
          | Some u \<Rightarrow>
            (case CheckPIN (au_crypto e) (us_PINHash u) pin of
               None \<Rightarrow> (Inl Transient, s1)
             | Some False \<Rightarrow>
                 (Inl (Reject 401 ''AUTH_PIN_INVALID''), with_db s1 (record_attempt e (ch_PhoneHash ch) False (asy_db s1)))
             | Some True \<Rightarrow>
                 if au_fails e ChallengesMark then (Inl Transient, s1)
                 else register e (ch_PhoneHash ch) dev (with_db s1 (MarkVerified (ch_ID ch) False (au_now e) (asy_db s1)))))"

section \<open>Refresh, logout, PIN\<close>

definition Refresh :: "auth_env \<Rightarrow> string \<Rightarrow> auth_sys \<Rightarrow> token_pair result \<times> auth_sys" where
  "Refresh e refreshToken s =
     (let h = HashToken (au_crypto e) refreshToken
      in if au_fails e SessionsGet then (Inl Transient, s)
         else case ByRefreshHash h (asy_db s) of
           None \<Rightarrow>
             (case (if au_fails e SessionsRotated then None else ByRotatedFrom h (asy_db s)) of
                Some old \<Rightarrow>
                  (Inl (Reject 401 ''AUTH_REFRESH_REUSED''),
                   if au_fails e SessionsRevoke then s else with_db s (Sessions_Revoke (se_ID old) (au_now e) (asy_db s)))
              | None \<Rightarrow> (Inl (Reject 401 ''AUTH_TOKEN_INVALID''), s))
         | Some sess \<Rightarrow>
           (case EvaluateSession sess (au_now e) of
              RefreshRevoked \<Rightarrow> (Inl (Reject 401 ''AUTH_DEVICE_REVOKED''), s)
            | RefreshExpired \<Rightarrow> (Inl (Reject 401 ''AUTH_TOKEN_EXPIRED''), s)
            | RefreshRotate \<Rightarrow>
              (case NewRefreshToken (au_crypto e) (au_entropy e) of
                 None \<Rightarrow> (Inl Transient, s)
               | Some (newTok, newHash) \<Rightarrow>
                 (case (if au_fails e SessionsRotate then None else Rotate (se_ID sess) h newHash (au_now e) (asy_db s)) of
                    None \<Rightarrow> (Inl Transient, s)
                  | Some (False, db1) \<Rightarrow> (Inl (Reject 401 ''AUTH_TOKEN_INVALID''), with_db s db1)
                  | Some (True, db1) \<Rightarrow>
                    (case au_issue e (se_UserID sess) (se_DeviceID sess) (se_ID sess) of
                       None \<Rightarrow> (Inl Transient, with_db s db1)
                     | Some access \<Rightarrow>
                         (Inr \<lparr>tp_AccessJWT = access, tp_RefreshToken = newTok, tp_UserID = se_UserID sess,
                               tp_DeviceID = se_DeviceID sess, tp_SessionID = se_ID sess, tp_RequiresPIN = False\<rparr>, with_db s db1))))))"

definition MintLinkedSession :: "auth_env \<Rightarrow> string \<Rightarrow> string \<Rightarrow> auth_sys \<Rightarrow> (string \<times> string \<times> string) result \<times> auth_sys" where
  "MintLinkedSession e userID deviceID s =
     (case NewRefreshToken (au_crypto e) (au_entropy e) of
        None \<Rightarrow> (Inl Transient, s)
      | Some (refreshTok, rhash) \<Rightarrow>
        (case (if au_fails e SessionsCreate then None else Sessions_Create
                \<lparr>se_ID = au_id1 e, se_DeviceID = deviceID, se_UserID = userID, se_RefreshHash = rhash, se_RotatedFrom = None,
                 se_ExpiresAt = au_now e + au_refreshTTL e, se_RevokedAt = None\<rparr> (asy_db s)) of
           None \<Rightarrow> (Inl Transient, s)
         | Some db1 \<Rightarrow>
           (case au_issue e userID deviceID (au_id1 e) of
              None \<Rightarrow> (Inl Transient, with_db s db1)
            | Some accessTok \<Rightarrow> (Inr (accessTok, refreshTok, au_id1 e), with_db s db1))))"

definition Logout :: "auth_env \<Rightarrow> identity \<Rightarrow> auth_sys \<Rightarrow> unit result \<times> auth_sys" where
  "Logout e ident s =
     (if au_fails e SessionsRevoke then (Inl Transient, s)
      else (Inr (), with_db s (Sessions_Revoke (SessionID ident) (au_now e) (asy_db s))))"

definition SetPIN :: "auth_env \<Rightarrow> identity \<Rightarrow> string \<Rightarrow> string \<Rightarrow> auth_sys \<Rightarrow> unit result \<times> auth_sys" where
  "SetPIN e ident oldPIN newPIN s =
     (case (if au_fails e UsersGet then None else ByID (UserID ident) (asy_db s)) of
        None \<Rightarrow> (Inl Transient, s)
      | Some u \<Rightarrow>
        if us_PINHash u \<noteq> [] \<and> CheckPIN (au_crypto e) (us_PINHash u) oldPIN \<noteq> Some True
        then (Inl (Reject 401 ''AUTH_PIN_INVALID''), s)
        else case HashPIN (au_crypto e) newPIN (au_entropy e) of
          None \<Rightarrow> (Inl (Reject 400 ''VALIDATION_PIN''), s)
        | Some phc \<Rightarrow>
          (case (if au_fails e UsersSet then None else SetPINHash (UserID ident) phc (asy_db s)) of
             None \<Rightarrow> (Inl Transient, s)
           | Some db1 \<Rightarrow> (Inr (), with_db s db1)))"

section \<open>Devices\<close>

datatype device_event = DeviceAdded string string | DeviceRevoked string string

record device_view =
  dw_ID :: string
  dw_IsPrimary :: bool
  dw_Platform :: string
  dw_Name :: string
  dw_LastActive :: int

definition platformName :: "int \<Rightarrow> string" where
  "platformName p = (if p = 0 then ''ios'' else if p = 1 then ''android'' else if p = 2 then ''web'' else ''unknown'')"

definition Dev_List :: "auth_env \<Rightarrow> identity \<Rightarrow> auth_sys \<Rightarrow> device_view list result" where
  "Dev_List e ident s =
     (if au_fails e DevicesList then Inl Transient
      else Inr (map (\<lambda>d. \<lparr>dw_ID = de_ID d, dw_IsPrimary = de_IsPrimary d, dw_Platform = platformName (de_Platform d),
        dw_Name = de_Name d, dw_LastActive = (case de_LastActiveAt d of None \<Rightarrow> 0 | Some t \<Rightarrow> UnixMilli t)\<rparr>)
        (ListByUser (UserID ident) (asy_db s))))"

definition Dev_Rename :: "auth_env \<Rightarrow> identity \<Rightarrow> string \<Rightarrow> string \<Rightarrow> auth_sys \<Rightarrow> unit result \<times> auth_sys" where
  "Dev_Rename e ident deviceID name s =
     (if name = [] \<or> length name > 100 then (Inl (Reject 400 ''VALIDATION_NAME''), s)
      else if au_fails e DevicesRename then (Inl Transient, s)
      else case Device_Rename (UserID ident) deviceID name (asy_db s) of
        (okay, db1) \<Rightarrow> (if \<not> okay then Inl (Reject 404 ''DEVICE_NOT_FOUND'') else Inr (), with_db s db1))"

definition Dev_Revoke :: "auth_env \<Rightarrow> identity \<Rightarrow> string \<Rightarrow> auth_sys \<Rightarrow> unit result \<times> device_event list \<times> auth_sys" where
  "Dev_Revoke e ident deviceID s =
     (if au_fails e DevicesRevoke then (Inl Transient, [], s)
      else case RevokeDevice (UserID ident) deviceID (au_now e) (asy_db s) of
        (False, db1) \<Rightarrow> (Inl (Reject 404 ''DEVICE_NOT_FOUND''), [], with_db s db1)
      | (True, db1) \<Rightarrow> (Inr (), [DeviceRevoked (UserID ident) deviceID], with_db s db1))"

section \<open>Linking\<close>

definition MaxDevicesPerUser :: nat where "MaxDevicesPerUser = 5"
definition LinkTTL :: duration where "LinkTTL = 5 * Minute"

definition LinkInit :: "auth_env \<Rightarrow> device_info \<Rightarrow> auth_sys \<Rightarrow> (string \<times> string) result \<times> auth_sys" where
  "LinkInit e req s =
     (case platformCode (di_Platform req) of
        None \<Rightarrow> (Inl (Reject 400 ''VALIDATION_DEVICE''), s)
      | Some platform \<Rightarrow>
        if di_IdentityKey req = [] then (Inl (Reject 400 ''VALIDATION_DEVICE''), s)
        else case ReadFull 32 (au_entropy e) of
          None \<Rightarrow> (Inl Transient, s)
        | Some (tokenRaw, _) \<Rightarrow>
          let token = RawURL_Encode tokenRaw;
              l = \<lparr>li_Token = token, li_Platform = platform, li_Name = di_Name req, li_IdentityKey = di_IdentityKey req,
                   li_State = LinkPending, li_ApprovedBy = [], li_UserID = [], li_DeviceID = [], li_Cert = [],
                   li_CreatedAt = au_now e, li_ExpiresAt = au_now e + LinkTTL\<rparr>
          in case (if au_fails e LinksCreate then None else CreateLink l (asy_db s)) of
               None \<Rightarrow> (Inl Transient, s)
             | Some db1 \<Rightarrow>
                 (Inr (token, ''{\"identity_key\":\"'' @ Std_Encode (di_IdentityKey req) @ ''\",\"link_token\":\"'' @ token @ ''\"}''),
                  with_db s db1))"

definition LinkApprove ::
  "auth_env \<Rightarrow> identity \<Rightarrow> string \<Rightarrow> string \<Rightarrow> auth_sys \<Rightarrow> unit result \<times> device_event list \<times> auth_sys" where
  "LinkApprove e ident token cert s =
     (if cert = [] then (Inl (Reject 400 ''VALIDATION_CERT''), [], s)
      else if au_fails e LinksGet then (Inl Transient, [], s)
      else case GetLink token (asy_db s) of
        None \<Rightarrow> (Inl (Reject 404 ''LINK_NOT_FOUND''), [], s)
      | Some l \<Rightarrow>
        if au_now e > li_ExpiresAt l then (Inl (Reject 410 ''LINK_EXPIRED''), [], s)
        else if li_State l \<noteq> LinkPending then (Inl (Reject 409 ''LINK_ALREADY_HANDLED''), [], s)
        else case (if au_fails e DevicesGet then None else Device_Get (DeviceID ident) (asy_db s)) of
          None \<Rightarrow> (Inl Transient, [], s)
        | Some approver \<Rightarrow>
          if \<not> de_IsPrimary approver then (Inl (Reject 403 ''NOT_PRIMARY_DEVICE''), [], s)
          else if au_fails e DevicesCount then (Inl Transient, [], s)
          else if CountActive (UserID ident) (asy_db s) \<ge> MaxDevicesPerUser then (Inl (Reject 403 ''STATE_DEVICE_LIMIT''), [], s)
          else if au_fails e LinksApprove then (Inl Transient, [], s)
          else case ApproveLink \<lparr>ap_Token = token, ap_UserID = UserID ident, ap_NewDeviceID = au_id1 e, ap_ApprovedBy = DeviceID ident,
                 ap_Platform = li_Platform l, ap_Name = li_Name l, ap_IdentityKey = li_IdentityKey l, ap_Cert = cert,
                 ap_Now = au_now e\<rparr> (asy_db s) of
              Inl True \<Rightarrow> (Inl (Reject 409 ''LINK_ALREADY_HANDLED''), [], s)
            | Inl False \<Rightarrow> (Inl Transient, [], s)
            | Inr db1 \<Rightarrow> (Inr (), [DeviceAdded (UserID ident) (au_id1 e)], with_db s db1))"

datatype link_result = LinkWait | LinkTokens string string string

definition LinkComplete :: "auth_env \<Rightarrow> string \<Rightarrow> auth_sys \<Rightarrow> link_result result \<times> auth_sys" where
  "LinkComplete e token s =
     (if au_fails e LinksGet then (Inl Transient, s)
      else case GetLink token (asy_db s) of
        None \<Rightarrow> (Inl (Reject 404 ''LINK_NOT_FOUND''), s)
      | Some l \<Rightarrow>
        if au_now e > li_ExpiresAt l then (Inl (Reject 410 ''LINK_EXPIRED''), s)
        else case li_State l of
          LinkPending \<Rightarrow> (Inr LinkWait, s)
        | LinkConsumed \<Rightarrow> (Inl (Reject 409 ''LINK_ALREADY_USED''), s)
        | LinkApproved \<Rightarrow>
          (case MintLinkedSession e (li_UserID l) (li_DeviceID l) s of
             (Inl err, s1) \<Rightarrow> (Inl Transient, s1)
           | (Inr (access, refresh, _), s1) \<Rightarrow>
               if au_fails e LinksConsume then (Inl Transient, s1)
               else (Inr (LinkTokens access refresh (li_DeviceID l)), with_db s1 (ConsumeLink token (asy_db s1)))))"

section \<open>Requests\<close>

datatype auth_req =
    AReqOTP auth_env string string
  | AVerifyOTP auth_env string string device_info
  | AVerifyPIN auth_env string string device_info
  | ARefresh auth_env string
  | ALogout auth_env identity
  | ASetPIN auth_env identity string string
  | ARename auth_env identity string string
  | ARevoke auth_env identity string
  | ALinkInit auth_env device_info
  | ALinkApprove auth_env identity string string
  | ALinkComplete auth_env string

fun auth_step :: "auth_sys \<Rightarrow> auth_req \<Rightarrow> auth_sys" where
  "auth_step s (AReqOTP e h ip) = fst (snd (RequestOTP e h ip s))"
| "auth_step s (AVerifyOTP e c code dev) = snd (VerifyOTP e c code dev s)"
| "auth_step s (AVerifyPIN e c pin dev) = snd (VerifyPIN e c pin dev s)"
| "auth_step s (ARefresh e tok) = snd (Refresh e tok s)"
| "auth_step s (ALogout e i) = snd (Logout e i s)"
| "auth_step s (ASetPIN e i old new) = snd (SetPIN e i old new s)"
| "auth_step s (ARename e i d n) = snd (Dev_Rename e i d n s)"
| "auth_step s (ARevoke e i d) = snd (snd (Dev_Revoke e i d s))"
| "auth_step s (ALinkInit e r) = snd (LinkInit e r s)"
| "auth_step s (ALinkApprove e i tok c) = snd (snd (LinkApprove e i tok c s))"
| "auth_step s (ALinkComplete e tok) = snd (LinkComplete e tok s)"

definition empty_auth :: auth_sys where
  "empty_auth = \<lparr>asy_db = empty_auth_db, asy_limiter = Map.empty\<rparr>"

end
