(* ===== verification/AuthInv.thy ===== *)
theory AuthInv
  imports AuthService
begin

text \<open>
  What every request of the authentication and device services does to the tables, as a relation: each handler is a
  sequence of the transitions below. The invariant of the tables and the life of a challenge are proved on the
  transitions.
\<close>

section \<open>Transitions\<close>

definition ch_open :: "challenge \<Rightarrow> bool" where "ch_open ch \<longleftrightarrow> ch_VerifiedAt ch = None"
definition ch_waits :: "challenge \<Rightarrow> bool" where "ch_waits ch \<longleftrightarrow> ch_VerifiedAt ch \<noteq> None \<and> ch_PinPending ch"

inductive auth_trans :: "auth_db \<Rightarrow> auth_db \<Rightarrow> bool" where
  t_challenge: "Challenges_Create ch db = Some db' \<Longrightarrow> ch_Attempts ch = 0 \<Longrightarrow> \<not> ch_PinPending ch \<Longrightarrow> auth_trans db db'"
| t_wrong: "Challenges_Get i db = Some ch \<Longrightarrow> ch_open ch \<Longrightarrow> ch_Attempts ch < OTPMaxAttempts \<Longrightarrow>
    auth_trans db (IncrementAttempts i db)"
| t_attempt: "auth_trans db (Attempts_Record ph b t db)"
| t_pending: "Challenges_Get i db = Some ch \<Longrightarrow> ch_open ch \<Longrightarrow> auth_trans db (MarkVerified i True t db)"
| t_verified: "Challenges_Get i db = Some ch \<Longrightarrow> ch_open ch \<or> ch_waits ch \<Longrightarrow> auth_trans db (MarkVerified i False t db)"
| t_register: "RegisterDevice p db = Inr (r, db') \<Longrightarrow> auth_trans db db'"
| t_rotate: "Rotate i old new t db = Some (okay, db') \<Longrightarrow> auth_trans db db'"
| t_revoke_session: "auth_trans db (Sessions_Revoke i t db)"
| t_pin: "SetPINHash i phc db = Some db' \<Longrightarrow> auth_trans db db'"
| t_rename: "auth_trans db (snd (Device_Rename u i n db))"
| t_revoke_device: "auth_trans db (snd (RevokeDevice u i t db))"
| t_link: "CreateLink l db = Some db' \<Longrightarrow> li_State l = LinkPending \<Longrightarrow> auth_trans db db'"
| t_approve: "CountActive (ap_UserID p) db < MaxDevicesPerUser \<Longrightarrow> ApproveLink p db = Inr db' \<Longrightarrow> auth_trans db db'"
| t_mint: "GetLink tok db = Some l \<Longrightarrow> li_State l = LinkApproved \<Longrightarrow> se_DeviceID se = li_DeviceID l \<Longrightarrow>
    Sessions_Create se db = Some db' \<Longrightarrow> auth_trans db db'"
| t_consume: "auth_trans db (ConsumeLink tok db)"

abbreviation auth_trans_star :: "auth_db \<Rightarrow> auth_db \<Rightarrow> bool" where
  "auth_trans_star \<equiv> auth_trans\<^sup>*\<^sup>*"

section \<open>Handlers are sequences of transitions\<close>

lemma rate_check_db: "rate_check e k p s = (r, s1) \<Longrightarrow> asy_db s1 = asy_db s"
  by (auto simp: rate_check_def split: prod.splits option.splits if_splits)

lemma rate_checks_db: "rate_checks e ls s = (r, s1) \<Longrightarrow> asy_db s1 = asy_db s"
  by (induction e ls s arbitrary: r s1 rule: rate_checks.induct) (auto split: prod.splits option.splits dest: rate_check_db)

text \<open>The transitions in a form that applies to the records the handlers build.\<close>

lemma challenge_star: "Challenges_Create ch db = Some db' \<Longrightarrow> ch_Attempts ch = 0 \<and> \<not> ch_PinPending ch \<longrightarrow> auth_trans_star db db'"
  by (auto intro: t_challenge)

lemma approve_star: "ApproveLink p db = Inr db' \<Longrightarrow> CountActive (ap_UserID p) db < MaxDevicesPerUser \<longrightarrow> auth_trans_star db db'"
  by (auto intro: t_approve)

lemma mint_star: "Sessions_Create se db = Some db' \<Longrightarrow> GetLink tok db = Some l \<Longrightarrow> li_State l = LinkApproved \<Longrightarrow>
    se_DeviceID se = li_DeviceID l \<longrightarrow> auth_trans_star db db'"
  by (auto intro: t_mint)

lemma link_star: "CreateLink l db = Some db' \<Longrightarrow> li_State l = LinkPending \<longrightarrow> auth_trans_star db db'"
  by (auto intro: t_link)

lemma RequestOTP_trans: "auth_trans_star (asy_db s) (asy_db (fst (snd (RequestOTP e h ip s))))"
  by (auto simp: RequestOTP_def Let_def dest!: rate_checks_db challenge_star
      split: option.splits prod.splits if_splits)

lemma register_trans: "auth_trans_star (asy_db s) (asy_db (snd (register e ph dev s)))"
  by (auto simp: register_def Let_def intro: r_into_rtranclp t_register
      split: option.splits prod.splits if_splits sum.splits register_error.splits)

lemma record_attempt_trans: "auth_trans_star db (record_attempt e ph b db)"
  by (auto simp: record_attempt_def intro: t_attempt)

lemma Get_record_attempt [simp]: "Challenges_Get i (record_attempt e ph b db) = Challenges_Get i db"
  by (simp add: record_attempt_def Challenges_Get_def Attempts_Record_def)

lemma Challenges_Get_ID: "Challenges_Get i db = Some ch \<Longrightarrow> ch_ID ch = i"
  by (auto simp: Challenges_Get_def dest: tbl_get_key)

lemma mark_register_trans:
  assumes "auth_trans_star db (asy_db s)" "Challenges_Get i (asy_db s) = Some ch" "ch_open ch \<or> ch_waits ch"
  shows "auth_trans_star db (asy_db (snd (register e ph dev (with_db s (MarkVerified i False t (asy_db s))))))"
proof -
  have "auth_trans (asy_db s) (MarkVerified i False t (asy_db s))" using assms(2,3) by (rule t_verified)
  with assms(1) have "auth_trans_star db (MarkVerified i False t (asy_db s))" by (rule rtranclp.rtrancl_into_rtrancl)
  then show ?thesis using register_trans [of "with_db s (MarkVerified i False t (asy_db s))" e ph dev] by simp
qed

lemma VerifyOTP_trans: "auth_trans_star (asy_db s) (asy_db (snd (VerifyOTP e i code dev s)))"
proof (cases "Challenges_Get i (asy_db s)")
  case (Some ch)
  note i = Challenges_Get_ID [OF Some]
  let ?s = "with_db s (record_attempt e (ch_PhoneHash ch) True (asy_db s))"
  show ?thesis
  proof (cases "VerifyCode (au_crypto e) ch code (au_now e)")
    case VerifyOK
    then have op: "ch_open ch" by (auto simp: VerifyCode_def ch_open_def split: if_splits)
    have r: "auth_trans_star (asy_db s) (asy_db ?s)" by (simp add: record_attempt_trans)
    have g: "Challenges_Get i (asy_db ?s) = Some ch" using Some by simp
    have m: "auth_trans_star (asy_db s) (asy_db (snd (register e (ch_PhoneHash ch) dev (with_db ?s (MarkVerified i False (au_now e) (asy_db ?s))))))"
      by (rule mark_register_trans [OF r g]) (simp add: op)
    have p: "auth_trans_star (asy_db s) (MarkVerified i True (au_now e) (asy_db ?s))"
      using r t_pending [OF g op] by (rule rtranclp.rtrancl_into_rtrancl)
    show ?thesis using Some VerifyOK m p r by (auto simp: VerifyOTP_def Let_def i split: option.splits)
  next
    case VerifyWrongCode
    then have "ch_open ch" "ch_Attempts ch < OTPMaxAttempts" by (auto simp: VerifyCode_def ch_open_def split: if_splits)
    then have "auth_trans_star (asy_db s) (IncrementAttempts i (asy_db s))" using Some by (intro r_into_rtranclp t_wrong)
    then show ?thesis using Some VerifyWrongCode
      by (auto simp: VerifyOTP_def i intro: rtranclp_trans [OF _ record_attempt_trans] record_attempt_trans)
  qed (use Some in \<open>auto simp: VerifyOTP_def\<close>)
qed (auto simp: VerifyOTP_def)

lemma VerifyPIN_trans: "auth_trans_star (asy_db s) (asy_db (snd (VerifyPIN e i pin dev s)))"
proof (cases "Challenges_Get i (asy_db s)")
  case (Some ch)
  note i = Challenges_Get_ID [OF Some]
  obtain r s1 where rc: "rate_check e (''rl:pin:'' @ hex_encode (ch_PhoneHash ch)) pin_limit s = (r, s1)" by (metis surj_pair)
  have db: "asy_db s1 = asy_db s" using rc by (rule rate_check_db)
  show ?thesis
  proof (cases "ch_waits ch")
    case True
    have m: "auth_trans_star (asy_db s) (asy_db (snd (register e (ch_PhoneHash ch) dev (with_db s1 (MarkVerified i False (au_now e) (asy_db s1))))))"
      by (rule mark_register_trans [of _ _ i ch]) (use Some True db in simp_all)
    show ?thesis using Some rc db m
      by (auto simp: VerifyPIN_def i record_attempt_trans split: option.splits bool.splits)
  qed (use Some in \<open>auto simp: VerifyPIN_def ch_waits_def\<close>)
qed (auto simp: VerifyPIN_def)

lemma Refresh_trans: "auth_trans_star (asy_db s) (asy_db (snd (Refresh e tok s)))"
  by (auto simp: Refresh_def Let_def intro: r_into_rtranclp t_rotate t_revoke_session
      split: option.splits refresh_outcome.splits prod.splits bool.splits)

lemma SetPIN_trans: "auth_trans_star (asy_db s) (asy_db (snd (SetPIN e ident old new s)))"
  by (auto simp: SetPIN_def intro: r_into_rtranclp t_pin split: option.splits)

lemma Dev_trans:
  "auth_trans_star (asy_db s) (asy_db (snd (Logout e ident s)))"
  "auth_trans_star (asy_db s) (asy_db (snd (Dev_Rename e ident d n s)))"
  "auth_trans_star (asy_db s) (asy_db (snd (snd (Dev_Revoke e ident d s))))"
  using t_rename [of "asy_db s" "UserID ident" d n] t_revoke_device [of "asy_db s" "UserID ident" d "au_now e"]
  by (auto simp: Logout_def Dev_Rename_def Dev_Revoke_def intro: r_into_rtranclp t_revoke_session split: prod.splits bool.splits)

lemma LinkInit_trans: "auth_trans_star (asy_db s) (asy_db (snd (LinkInit e r s)))"
  by (auto simp: LinkInit_def Let_def dest!: link_star split: option.splits prod.splits)

lemma LinkApprove_trans: "auth_trans_star (asy_db s) (asy_db (snd (snd (LinkApprove e ident tok c s))))"
  by (auto simp: LinkApprove_def not_le dest!: approve_star split: option.splits sum.splits bool.splits)

lemma LinkComplete_trans: "auth_trans_star (asy_db s) (asy_db (snd (LinkComplete e tok s)))"
proof -
  have m: "auth_trans_star (asy_db s) (asy_db (snd (MintLinkedSession e (li_UserID l) (li_DeviceID l) s)))"
    if "GetLink tok (asy_db s) = Some l" "li_State l = LinkApproved" for l
    using that by (auto simp: MintLinkedSession_def dest!: mint_star [OF _ that] split: option.splits prod.splits)
  have c: "auth_trans_star (asy_db s) (ConsumeLink tok (asy_db (snd (MintLinkedSession e (li_UserID l) (li_DeviceID l) s))))"
    if "GetLink tok (asy_db s) = Some l" "li_State l = LinkApproved" for l
    using m [OF that] t_consume by (rule rtranclp.rtrancl_into_rtrancl)
  show ?thesis
    using m c by (auto simp: LinkComplete_def split: option.splits link_state.splits prod.splits sum.splits)
qed

lemma auth_step_trans: "auth_trans_star (asy_db s) (asy_db (auth_step s req))"
  by (cases req) (simp_all add: RequestOTP_trans VerifyOTP_trans VerifyPIN_trans Refresh_trans SetPIN_trans Dev_trans LinkInit_trans
      LinkApprove_trans LinkComplete_trans)

section \<open>The invariant of the tables\<close>

definition auth_ok :: "auth_db \<Rightarrow> bool" where
  "auth_ok db \<longleftrightarrow>
     tbl_wf us_ID (ad_Users db) \<and> tbl_wf us_PhoneHash (ad_Users db) \<and> tbl_wf de_ID (ad_Devices db) \<and>
     tbl_wf ss_ID (ad_Sessions db) \<and> tbl_wf ss_RefreshHash (ad_Sessions db) \<and> tbl_wf ch_ID (ad_Challenges db) \<and>
     tbl_wf li_Token (ad_Links db) \<and>
     de_UserID ` set (ad_Devices db) \<subseteq> us_ID ` set (ad_Users db) \<and>
     ss_DeviceID ` set (ad_Sessions db) \<subseteq> de_ID ` set (ad_Devices db) \<and>
     (\<forall>u. length (active_devices db u) \<le> maxDevicesPerUser) \<and>
     (\<forall>u. length (filter de_IsPrimary (active_devices db u)) \<le> 1) \<and>
     (\<forall>ch\<in>set (ad_Challenges db). 0 \<le> ch_Attempts ch \<and> ch_Attempts ch \<le> OTPMaxAttempts)"

lemma auth_ok_empty: "auth_ok empty_auth_db"
  by (simp add: auth_ok_def empty_auth_db_def active_devices_def)

text \<open>The invariant in four parts, by the tables they are about.\<close>

definition users_ok :: "user_row list \<Rightarrow> bool" where
  "users_ok us \<longleftrightarrow> tbl_wf us_ID us \<and> tbl_wf us_PhoneHash us"

definition devices_ok :: "string set \<Rightarrow> device_row list \<Rightarrow> bool" where
  "devices_ok U ds \<longleftrightarrow> tbl_wf de_ID ds \<and> de_UserID ` set ds \<subseteq> U \<and>
     (\<forall>u. length (filter (\<lambda>d. de_UserID d = u \<and> de_RevokedAt d = None) ds) \<le> maxDevicesPerUser) \<and>
     (\<forall>u. length (filter de_IsPrimary (filter (\<lambda>d. de_UserID d = u \<and> de_RevokedAt d = None) ds)) \<le> 1)"

definition sessions_ok :: "string set \<Rightarrow> session_row list \<Rightarrow> bool" where
  "sessions_ok D ss \<longleftrightarrow> tbl_wf ss_ID ss \<and> tbl_wf ss_RefreshHash ss \<and> ss_DeviceID ` set ss \<subseteq> D"

definition challenges_ok :: "challenge list \<Rightarrow> bool" where
  "challenges_ok cs \<longleftrightarrow> tbl_wf ch_ID cs \<and> (\<forall>ch\<in>set cs. 0 \<le> ch_Attempts ch \<and> ch_Attempts ch \<le> OTPMaxAttempts)"

lemma auth_ok_parts: "auth_ok db \<longleftrightarrow>
  users_ok (ad_Users db) \<and> devices_ok (us_ID ` set (ad_Users db)) (ad_Devices db) \<and>
  sessions_ok (de_ID ` set (ad_Devices db)) (ad_Sessions db) \<and> challenges_ok (ad_Challenges db) \<and> tbl_wf li_Token (ad_Links db)"
  unfolding auth_ok_def users_ok_def devices_ok_def sessions_ok_def challenges_ok_def active_devices_def by blast

text \<open>Updates that keep a key.\<close>

lemma tbl_wf_map_key: "tbl_wf key rows \<Longrightarrow> (\<And>r. r \<in> set rows \<Longrightarrow> key (f r) = key r) \<Longrightarrow> tbl_wf key (map f rows)"
  unfolding tbl_wf_def by (metis (mono_tags, lifting) map_cong map_map comp_apply)

lemma challenges_ok_new:
  "challenges_ok (ad_Challenges db) \<Longrightarrow> Challenges_Create ch db = Some db' \<Longrightarrow> ch_Attempts ch = 0 \<Longrightarrow> challenges_ok (ad_Challenges db')"
  unfolding Challenges_Create_def challenges_ok_def
  by (auto simp: OTPMaxAttempts_def tbl_ins_Some tbl_wf_def)

lemma challenges_ok_upd:
  assumes "challenges_ok cs" "\<And>c. ch_ID (f c) = ch_ID c"
    "\<And>c. tbl_get ch_ID i cs = Some c \<Longrightarrow> 0 \<le> ch_Attempts (f c) \<and> ch_Attempts (f c) \<le> OTPMaxAttempts"
  shows "challenges_ok (tbl_upd ch_ID i f cs)"
proof -
  have wf: "tbl_wf ch_ID cs" using assms(1) by (simp add: challenges_ok_def)
  have "0 \<le> ch_Attempts (f c) \<and> ch_Attempts (f c) \<le> OTPMaxAttempts" if "c \<in> set cs" "ch_ID c = i" for c
    using assms(3) tbl_get_wf [OF wf that(1)] that(2) by simp
  then show ?thesis using assms(1,2) wf by (auto simp: challenges_ok_def set_tbl_upd intro: tbl_wf_upd)
qed

lemma ins_device_Some:
  "ins_device d db = Some db' \<Longrightarrow> db' = db\<lparr>ad_Devices := ad_Devices db @ [d]\<rparr> \<and> de_ID d \<notin> de_ID ` set (ad_Devices db) \<and>
    de_UserID d \<in> us_ID ` set (ad_Users db) \<and> (de_IsPrimary d \<longrightarrow> filter de_IsPrimary (active_devices db (de_UserID d)) = [])"
  by (auto simp: ins_device_def list_ex_iff filter_empty_conv split: if_splits)

lemma devices_ok_ins:
  assumes "devices_ok (us_ID ` set (ad_Users db)) (ad_Devices db)" "ins_device d db = Some db'"
    "length (active_devices db (de_UserID d)) < maxDevicesPerUser"
  shows "devices_ok (us_ID ` set (ad_Users db')) (ad_Devices db')"
proof -
  note d = ins_device_Some [OF assms(2)]
  have "length (filter (\<lambda>x. de_UserID x = u \<and> de_RevokedAt x = None) (ad_Devices db @ [d])) \<le> maxDevicesPerUser" for u
    using assms(1,3) by (auto simp: devices_ok_def active_devices_def)
  moreover have "length (filter de_IsPrimary (filter (\<lambda>x. de_UserID x = u \<and> de_RevokedAt x = None) (ad_Devices db @ [d]))) \<le> 1" for u
  proof (cases "de_IsPrimary d \<and> de_UserID d = u")
    case True
    then have e: "filter de_IsPrimary (filter (\<lambda>x. de_UserID x = u \<and> de_RevokedAt x = None) (ad_Devices db)) = []"
      using d by (simp add: active_devices_def)
    have "length (filter de_IsPrimary (filter (\<lambda>x. de_UserID x = u \<and> de_RevokedAt x = None) [d])) \<le> 1" by simp
    then show ?thesis unfolding filter_append e by simp
  qed (use assms(1) in \<open>auto simp: devices_ok_def\<close>)
  ultimately show ?thesis using assms(1) d by (auto simp: devices_ok_def tbl_wf_def)
qed

lemma devices_ok_map:
  assumes "devices_ok U ds" "\<And>d. de_ID (f d) = de_ID d" "\<And>d. de_UserID (f d) = de_UserID d" "\<And>d. de_IsPrimary (f d) = de_IsPrimary d"
    "\<And>d. de_RevokedAt (f d) = None \<Longrightarrow> de_RevokedAt d = None"
  shows "devices_ok U (map f ds)"
proof -
  have le: "length (filter P (map f ds)) \<le> length (filter Q ds)" if "\<And>d. P (f d) \<Longrightarrow> Q d" for P Q
    using that by (induction ds) auto
  have a: "length (filter (\<lambda>d. de_UserID d = u \<and> de_RevokedAt d = None) (map f ds)) \<le> maxDevicesPerUser" for u
  proof (rule order_trans [OF le])
    show "de_UserID d = u \<and> de_RevokedAt d = None" if "de_UserID (f d) = u \<and> de_RevokedAt (f d) = None" for d
      using that assms(3,5) by simp
    show "length (filter (\<lambda>d. de_UserID d = u \<and> de_RevokedAt d = None) ds) \<le> maxDevicesPerUser"
      using assms(1) by (simp add: devices_ok_def)
  qed
  have p: "length (filter de_IsPrimary (filter (\<lambda>d. de_UserID d = u \<and> de_RevokedAt d = None) (map f ds))) \<le> 1" for u
    unfolding filter_filter
  proof (rule order_trans [OF le])
    show "(de_UserID d = u \<and> de_RevokedAt d = None) \<and> de_IsPrimary d"
      if "(de_UserID (f d) = u \<and> de_RevokedAt (f d) = None) \<and> de_IsPrimary (f d)" for d
      using that assms(3-5) by simp
    show "length (filter (\<lambda>d. (de_UserID d = u \<and> de_RevokedAt d = None) \<and> de_IsPrimary d) ds) \<le> 1"
      using assms(1) unfolding devices_ok_def filter_filter by blast
  qed
  have "tbl_wf de_ID (map f ds)" "de_UserID ` set (map f ds) = de_UserID ` set ds"
    using assms(1-3) by (auto simp: devices_ok_def intro: tbl_wf_map_key simp: image_image)
  with assms(1) a p show ?thesis unfolding devices_ok_def by metis
qed

lemma sessions_ok_map:
  assumes "sessions_ok D ss" "\<And>s. ss_ID (f s) = ss_ID s" "\<And>s. ss_DeviceID (f s) = ss_DeviceID s" "\<And>s. ss_RefreshHash (f s) = ss_RefreshHash s"
  shows "sessions_ok D (map f ss)"
  using assms by (auto simp: sessions_ok_def intro: tbl_wf_map_key)

lemma sessions_ok_ins:
  "sessions_ok (de_ID ` set (ad_Devices db)) (ad_Sessions db) \<Longrightarrow> ins_session s db = Some db' \<Longrightarrow>
   sessions_ok (de_ID ` set (ad_Devices db')) (ad_Sessions db') \<and> db' = db\<lparr>ad_Sessions := ad_Sessions db @ [s]\<rparr>"
  unfolding ins_session_def sessions_ok_def tbl_wf_def by (auto split: if_splits) blast

lemma sessions_ok_rotate:
  assumes ok: "sessions_ok D (ad_Sessions db)" and r: "Rotate i old new t db = Some (okay, db')"
  shows "sessions_ok D (ad_Sessions db')"
proof (cases okay)
  case True
  let ?hit = "\<lambda>s. ss_ID s = i \<and> ss_RefreshHash s = old \<and> ss_RevokedAt s = None"
  let ?f = "\<lambda>s. if ?hit s then s\<lparr>ss_RefreshHash := new, ss_RotatedFrom := Some old, ss_LastUsedAt := Some t\<rparr> else s"
  have db': "ad_Sessions db' = map ?f (ad_Sessions db)" and new: "\<And>s. s \<in> set (ad_Sessions db) \<Longrightarrow> \<not> ?hit s \<Longrightarrow> ss_RefreshHash s \<noteq> new"
    using r True by (auto simp: Rotate_def Let_def list_ex_iff split: if_splits)
  have d: "distinct (ad_Sessions db)" and id: "inj_on ss_ID (set (ad_Sessions db))" and rh: "inj_on ss_RefreshHash (set (ad_Sessions db))"
    using ok by (auto simp: sessions_ok_def tbl_wf_def distinct_map)
  have "inj_on (\<lambda>s. ss_RefreshHash (?f s)) (set (ad_Sessions db))"
  proof (rule inj_onI)
    fix x y assume m: "x \<in> set (ad_Sessions db)" "y \<in> set (ad_Sessions db)" and e: "ss_RefreshHash (?f x) = ss_RefreshHash (?f y)"
    define h :: "session_row \<Rightarrow> bool" where "h = ?hit"
    have f: "ss_RefreshHash (?f z) = (if h z then new else ss_RefreshHash z)" for z by (simp add: h_def)
    have "h x \<Longrightarrow> h y \<Longrightarrow> ss_ID x = ss_ID y" by (simp add: h_def)
    moreover have "\<not> h z \<Longrightarrow> z \<in> set (ad_Sessions db) \<Longrightarrow> ss_RefreshHash z \<noteq> new" for z using new [of z] by (simp add: h_def)
    ultimately have "ss_ID x = ss_ID y \<or> ss_RefreshHash x = ss_RefreshHash y" using e m unfolding f by (metis (full_types))
    then show "x = y" using inj_onD [OF id _ m] inj_onD [OF rh _ m] by blast
  qed
  then have "tbl_wf ss_RefreshHash (map ?f (ad_Sessions db))" using d by (simp add: tbl_wf_def distinct_map comp_def)
  moreover have "tbl_wf ss_ID (map ?f (ad_Sessions db))" using ok by (auto simp: sessions_ok_def intro: tbl_wf_map_key)
  ultimately show ?thesis using ok unfolding db' sessions_ok_def by auto
qed (use assms in \<open>auto simp: Rotate_def Let_def split: if_splits\<close>)

lemma RegisterDevice_Inr: "RegisterDevice p db = Inr (r, db') \<Longrightarrow> register_try p db = Inr (r, db')"
  by (auto simp: RegisterDevice_def split: sum.splits register_error.splits)

text \<open>What a registration does: the user found or new, the device, its first session.\<close>

lemma register_try_Inr:
  assumes "register_try p db = Inr ((u, new), db')"
  obtains db1 db2 d s where
    "(new = False \<and> db1 = db \<and> (\<exists>x. ByPhoneHash (rp_PhoneHash p) db = Some x \<and> u = us_ID x)) \<or>
     (new = True \<and> u = rp_UserID p \<and> ByPhoneHash (rp_PhoneHash p) db = None \<and> rp_UserID p \<notin> us_ID ` set (ad_Users db) \<and>
      rp_PhoneHash p \<notin> us_PhoneHash ` set (ad_Users db) \<and>
      db1 = db\<lparr>ad_Users := ad_Users db @ [\<lparr>us_ID = u, us_PhoneHash = rp_PhoneHash p, us_PINHash = [], us_Status = 0, us_Deleted = False\<rparr>]\<rparr>)"
    "length (active_devices db1 u) < maxDevicesPerUser" "ins_device d db1 = Some db2" "de_UserID d = u" "de_ID d = rp_DeviceID p"
    "de_IsPrimary d \<longleftrightarrow> active_devices db1 u = []" "de_RevokedAt d = None"
    "ins_session s db2 = Some db'" "ss_ID s = rp_SessionID p" "ss_DeviceID s = rp_DeviceID p" "ss_RefreshHash s = rp_RefreshHash p"
    "ss_RevokedAt s = None" "ss_RotatedFrom s = None"
proof (cases "ByPhoneHash (rp_PhoneHash p) db")
  case None
  show thesis
    using assms None
    by (auto simp: register_try_def Let_def split: if_splits option.splits intro!: that)
next
  case (Some x)
  show thesis
    using assms Some
    by (auto simp: register_try_def Let_def split: if_splits option.splits intro!: that)
qed

lemma users_ok_register:
  assumes "users_ok (ad_Users db)" "register_try p db = Inr ((u, new), db')"
  shows "users_ok (ad_Users db')"
  by (rule register_try_Inr [OF assms(2)])
    (use assms(1) in \<open>auto simp: users_ok_def tbl_wf_def dest!: ins_device_Some simp: ins_session_def split: if_splits\<close>)

lemma active_users_upd [simp]: "active_devices (db\<lparr>ad_Users := x\<rparr>) u = active_devices db u"
  by (simp add: active_devices_def)

lemma auth_ok_register:
  assumes ok: "auth_ok db" and r: "RegisterDevice p db = Inr (r, db')"
  shows "auth_ok db'"
proof -
  obtain u new where t: "register_try p db = Inr ((u, new), db')" using RegisterDevice_Inr [OF r] by (cases r) auto
  have us: "users_ok (ad_Users db')" using users_ok_register [OF _ t] ok by (simp add: auth_ok_parts)
  from t show ?thesis
  proof (rule register_try_Inr)
    fix db1 db2 d s
    assume a: "(new = False \<and> db1 = db \<and> (\<exists>x. ByPhoneHash (rp_PhoneHash p) db = Some x \<and> u = us_ID x)) \<or>
     (new = True \<and> u = rp_UserID p \<and> ByPhoneHash (rp_PhoneHash p) db = None \<and> rp_UserID p \<notin> us_ID ` set (ad_Users db) \<and>
      rp_PhoneHash p \<notin> us_PhoneHash ` set (ad_Users db) \<and>
      db1 = db\<lparr>ad_Users := ad_Users db @ [\<lparr>us_ID = u, us_PhoneHash = rp_PhoneHash p, us_PINHash = [], us_Status = 0, us_Deleted = False\<rparr>]\<rparr>)"
      and lt: "length (active_devices db1 u) < maxDevicesPerUser" and i: "ins_device d db1 = Some db2" "de_UserID d = u"
      and s: "ins_session s db2 = Some db'"
    have db1: "ad_Devices db1 = ad_Devices db" "ad_Sessions db1 = ad_Sessions db" "ad_Challenges db1 = ad_Challenges db" "ad_Links db1 = ad_Links db"
      "us_ID ` set (ad_Users db) \<subseteq> us_ID ` set (ad_Users db1)" using a by auto
    have "devices_ok (us_ID ` set (ad_Users db1)) (ad_Devices db1)"
      using ok db1 unfolding auth_ok_parts devices_ok_def by (metis subset_trans)
    then have d: "devices_ok (us_ID ` set (ad_Users db2)) (ad_Devices db2)"
      by (rule devices_ok_ins [OF _ i(1)]) (use i(2) lt in simp)
    note i' = ins_device_Some [OF i(1)]
    have "sessions_ok (de_ID ` set (ad_Devices db2)) (ad_Sessions db2)"
      using ok db1 i' by (auto simp: auth_ok_parts sessions_ok_def)
    from sessions_ok_ins [OF this s] d us ok db1 i' show "auth_ok db'" by (auto simp: auth_ok_parts)
  qed
qed

text \<open>The link after its approval.\<close>

definition approved :: "approve_params \<Rightarrow> link \<Rightarrow> link" where
  "approved p l = (if li_Token l = ap_Token p \<and> li_State l = LinkPending then l\<lparr>li_State := LinkApproved, li_ApprovedBy := ap_ApprovedBy p,
     li_UserID := ap_UserID p, li_DeviceID := ap_NewDeviceID p, li_Cert := ap_Cert p\<rparr> else l)"

lemma ApproveLink_Inr:
  assumes "ApproveLink p db = Inr db'"
  shows "\<exists>d db1. ins_device d db = Some db1 \<and> de_UserID d = ap_UserID p \<and> de_ID d = ap_NewDeviceID p \<and> \<not> de_IsPrimary d \<and>
    de_RevokedAt d = None \<and> db' = db1\<lparr>ad_Links := map (approved p) (ad_Links db1)\<rparr>"
proof -
  let ?d = "\<lparr>de_ID = ap_NewDeviceID p, de_UserID = ap_UserID p, de_IsPrimary = False, de_Platform = ap_Platform p,
    de_Name = ap_Name p, de_IdentityKey = ap_IdentityKey p, de_Cert = ap_Cert p, de_RegisteredAt = ap_Now p,
    de_LastActiveAt = None, de_RevokedAt = None\<rparr>"
  obtain db1 where "ins_device ?d db = Some db1" "db' = db1\<lparr>ad_Links := map (approved p) (ad_Links db1)\<rparr>"
    using assms unfolding approved_def ApproveLink_def Let_def by (auto split: if_splits option.splits)
  then show ?thesis by (intro exI [of _ ?d] exI [of _ db1]) simp
qed

lemma auth_ok_approve:
  assumes ok: "auth_ok db" and c: "CountActive (ap_UserID p) db < MaxDevicesPerUser" and a: "ApproveLink p db = Inr db'"
  shows "auth_ok db'"
proof -
  obtain d db1 where i: "ins_device d db = Some db1" "de_UserID d = ap_UserID p" and db': "db' = db1\<lparr>ad_Links := map (approved p) (ad_Links db1)\<rparr>"
    using ApproveLink_Inr [OF a] by blast
  have "length (active_devices db (de_UserID d)) < maxDevicesPerUser"
    using c i(2) by (simp add: CountActive_def MaxDevicesPerUser_def maxDevicesPerUser_def)
  then have "devices_ok (us_ID ` set (ad_Users db1)) (ad_Devices db1)"
    by (rule devices_ok_ins [OF _ i(1), rotated]) (use ok in \<open>simp add: auth_ok_parts\<close>)
  moreover have "tbl_wf li_Token (map (approved p) (ad_Links db1))"
    using ok ins_device_Some [OF i(1)] by (auto simp: auth_ok_parts approved_def intro: tbl_wf_map_key)
  ultimately show ?thesis using ok ins_device_Some [OF i(1)] db' by (auto simp: auth_ok_parts sessions_ok_def)
qed

lemma auth_ok_device_map:
  assumes "auth_ok db" "\<And>d. de_ID (f d) = de_ID d" "\<And>d. de_UserID (f d) = de_UserID d" "\<And>d. de_IsPrimary (f d) = de_IsPrimary d"
    "\<And>d. de_RevokedAt (f d) = None \<Longrightarrow> de_RevokedAt d = None"
    "\<And>s. ss_ID (g s) = ss_ID s" "\<And>s. ss_DeviceID (g s) = ss_DeviceID s" "\<And>s. ss_RefreshHash (g s) = ss_RefreshHash s"
  shows "auth_ok (db\<lparr>ad_Devices := map f (ad_Devices db), ad_Sessions := map g (ad_Sessions db)\<rparr>)"
proof -
  have "devices_ok (us_ID ` set (ad_Users db)) (map f (ad_Devices db))"
    by (rule devices_ok_map) (use assms in \<open>auto simp: auth_ok_parts\<close>)
  moreover have "sessions_ok (de_ID ` set (ad_Devices db)) (map g (ad_Sessions db))"
    by (rule sessions_ok_map) (use assms in \<open>auto simp: auth_ok_parts\<close>)
  moreover have "de_ID ` set (map f (ad_Devices db)) = de_ID ` set (ad_Devices db)" by (rule image_map_key) (rule assms(2))
  ultimately show ?thesis using assms(1) by (simp add: auth_ok_parts del: set_map)
qed

lemma auth_trans_ok: "auth_trans db db' \<Longrightarrow> auth_ok db \<Longrightarrow> auth_ok db'"
proof (induction rule: auth_trans.induct)
  case (t_challenge ch db db')
  then show ?case using challenges_ok_new [of db ch db'] by (auto simp: auth_ok_parts Challenges_Create_def)
next
  case (t_wrong i db ch)
  then have "challenges_ok (tbl_upd ch_ID i (\<lambda>c. c\<lparr>ch_Attempts := ch_Attempts c + 1\<rparr>) (ad_Challenges db))"
    by (intro challenges_ok_upd) (auto simp: auth_ok_parts Challenges_Get_def challenges_ok_def dest: tbl_get_Some)
  with t_wrong show ?case by (simp add: auth_ok_parts IncrementAttempts_def)
next
  case (t_pending i db ch t)
  then have "challenges_ok (tbl_upd ch_ID i (\<lambda>c. c\<lparr>ch_VerifiedAt := Some t, ch_PinPending := True\<rparr>) (ad_Challenges db))"
    by (intro challenges_ok_upd) (auto simp: auth_ok_parts challenges_ok_def dest: tbl_get_Some)
  with t_pending show ?case by (simp add: auth_ok_parts MarkVerified_def)
next
  case (t_verified i db ch t)
  then have "challenges_ok (tbl_upd ch_ID i (\<lambda>c. c\<lparr>ch_VerifiedAt := Some t, ch_PinPending := False\<rparr>) (ad_Challenges db))"
    by (intro challenges_ok_upd) (auto simp: auth_ok_parts challenges_ok_def dest: tbl_get_Some)
  with t_verified show ?case by (simp add: auth_ok_parts MarkVerified_def)
next
  case (t_register p db r db')
  then show ?case using auth_ok_register by blast
next
  case (t_rotate i old new t db okay db')
  moreover have "db' = db\<lparr>ad_Sessions := ad_Sessions db'\<rparr>" using t_rotate(1) by (auto simp: Rotate_def Let_def split: if_splits)
  ultimately show ?case using sessions_ok_rotate [of _ db i old new t okay db'] unfolding auth_ok_parts by (metis auth_db.select_convs auth_db.surjective auth_db.update_convs(3))
next
  case (t_revoke_session db i t)
  then show ?case by (auto simp: auth_ok_parts Sessions_Revoke_def intro: sessions_ok_map)
next
  case (t_pin i phc db db')
  let ?f = "\<lambda>u. if us_ID u = i \<and> \<not> us_Deleted u then u\<lparr>us_PINHash := phc\<rparr> else u"
  have db': "db' = db\<lparr>ad_Users := map ?f (ad_Users db)\<rparr>" using t_pin(1) by (simp add: SetPINHash_def split: if_splits)
  have "us_ID ` set (map ?f (ad_Users db)) = us_ID ` set (ad_Users db)" by (rule image_map_key) simp
  moreover have "users_ok (map ?f (ad_Users db))"
    using t_pin(2) by (auto simp: auth_ok_parts users_ok_def intro!: tbl_wf_map_key)
  ultimately show ?case using t_pin(2) unfolding db' auth_ok_parts by (simp del: set_map)
next
  case (t_rename db u i n)
  let ?f = "\<lambda>d. if owned_active u i d then d\<lparr>de_Name := n\<rparr> else d"
  have "auth_ok (db\<lparr>ad_Devices := map ?f (ad_Devices db), ad_Sessions := map (\<lambda>s. s) (ad_Sessions db)\<rparr>)"
    by (rule auth_ok_device_map [OF t_rename]) (simp_all split: if_splits)
  then show ?case by (simp add: Device_Rename_def auth_ok_parts)
next
  case (t_revoke_device db u i t)
  let ?f = "\<lambda>d. if owned_active u i d then d\<lparr>de_RevokedAt := Some t\<rparr> else d"
  let ?g = "\<lambda>s. if ss_DeviceID s = i \<and> ss_RevokedAt s = None then s\<lparr>ss_RevokedAt := Some t\<rparr> else s"
  have "auth_ok (db\<lparr>ad_Devices := map ?f (ad_Devices db), ad_Sessions := map ?g (ad_Sessions db)\<rparr>)"
    by (rule auth_ok_device_map [OF t_revoke_device]) (simp_all split: if_splits)
  with t_revoke_device show ?case by (simp add: RevokeDevice_def auth_ok_parts)
next
  case (t_link l db db')
  then show ?case by (auto simp: auth_ok_parts CreateLink_def tbl_ins_Some tbl_wf_def)
next
  case (t_approve p db db')
  then show ?case using auth_ok_approve by blast
next
  case (t_mint tok db l se db')
  then obtain s where i: "ins_session s db = Some db'" by (auto simp: Sessions_Create_def)
  have "sessions_ok (de_ID ` set (ad_Devices db)) (ad_Sessions db)" using t_mint(5) by (simp add: auth_ok_parts)
  from sessions_ok_ins [OF this i] t_mint(5) show ?case by (auto simp: auth_ok_parts)
next
  case (t_consume db tok)
  then show ?case by (auto simp: auth_ok_parts ConsumeLink_def intro: tbl_wf_upd)
qed (auto simp: auth_ok_parts Attempts_Record_def)

lemma auth_star_ok: "auth_trans_star db db' \<Longrightarrow> auth_ok db \<Longrightarrow> auth_ok db'"
  by (induction rule: rtranclp_induct) (auto intro: auth_trans_ok)

interpretation auth_inv: invariant_system auth_step "\<lambda>s. auth_ok (asy_db s)"
  by unfold_locales (rule auth_star_ok [OF auth_step_trans])

section \<open>The life of a challenge\<close>

text \<open>A challenge is open, waits for the PIN, or is used up.\<close>

definition ch_rank :: "challenge \<Rightarrow> nat" where
  "ch_rank ch = (if ch_open ch then 0 else if ch_waits ch then 1 else 2)"

definition ch_later :: "challenge \<Rightarrow> challenge \<Rightarrow> bool" where
  "ch_later c c' \<longleftrightarrow> ch_rank c \<le> ch_rank c' \<and> ch_Attempts c \<le> ch_Attempts c'"

lemma ch_later_refl [simp]: "ch_later c c"
  by (simp add: ch_later_def)

lemma ch_later_trans: "ch_later a b \<Longrightarrow> ch_later b c \<Longrightarrow> ch_later a c"
  by (auto simp: ch_later_def)

lemma Register_frame:
  assumes "RegisterDevice p db = Inr (r, db')"
  obtains d s where "ad_Challenges db' = ad_Challenges db" "ad_Links db' = ad_Links db" "ad_Devices db' = ad_Devices db @ [d]"
    "de_ID d = rp_DeviceID p" "de_ID d \<notin> de_ID ` set (ad_Devices db)" "de_RevokedAt d = None" "ad_Sessions db' = ad_Sessions db @ [s]"
    "ss_DeviceID s = de_ID d" "ss_RefreshHash s = rp_RefreshHash p" "ss_RefreshHash s \<notin> ss_RefreshHash ` set (ad_Sessions db)"
    "ss_RotatedFrom s = None" "ss_RevokedAt s = None"
proof -
  obtain u new where "register_try p db = Inr ((u, new), db')" using RegisterDevice_Inr [OF assms] by (cases r) auto
  then show thesis
  proof (rule register_try_Inr, goal_cases)
    case (1 db1 db2 d s)
    have "ad_Challenges db1 = ad_Challenges db" "ad_Links db1 = ad_Links db" "ad_Devices db1 = ad_Devices db" "ad_Sessions db1 = ad_Sessions db"
      using 1(1) by auto
    with 1 ins_device_Some [OF 1(3)] show thesis by (intro that [of d s]) (auto simp: ins_session_def split: if_splits)
  qed
qed

lemma Challenges_Get_upd:
  assumes "Challenges_Get i db = Some c" "\<And>c. ch_ID (f c) = ch_ID c"
  shows "tbl_get ch_ID i (tbl_upd ch_ID j f (ad_Challenges db)) = Some (if i = j then f c else c)"
  using assms by (auto simp: Challenges_Get_def tbl_get_upd)

lemma auth_trans_challenge:
  "auth_trans db db' \<Longrightarrow> Challenges_Get i db = Some c \<Longrightarrow> \<exists>c'. Challenges_Get i db' = Some c' \<and> ch_later c c'"
proof (induction rule: auth_trans.induct)
  case (t_challenge ch db db')
  then show ?case by (auto simp: Challenges_Get_def Challenges_Create_def tbl_ins_Some tbl_get_append)
next
  case (t_wrong j db ch)
  then show ?case
    by (auto simp: Challenges_Get_upd IncrementAttempts_def Challenges_Get_def [of _ "_\<lparr>ad_Challenges := _\<rparr>"]
        ch_later_def ch_rank_def ch_open_def ch_waits_def)
next
  case (t_pending j db ch t)
  then show ?case
    by (auto simp: Challenges_Get_upd MarkVerified_def Challenges_Get_def [of _ "_\<lparr>ad_Challenges := _\<rparr>"]
        ch_later_def ch_rank_def ch_open_def ch_waits_def)
next
  case (t_verified j db ch t)
  then show ?case
    by (auto simp: Challenges_Get_upd MarkVerified_def Challenges_Get_def [of _ "_\<lparr>ad_Challenges := _\<rparr>"]
        ch_later_def ch_rank_def ch_open_def ch_waits_def)
next
  case (t_register p db r db')
  then show ?case by (elim Register_frame) (simp add: Challenges_Get_def)
next
  case (t_approve p db db')
  then show ?case using ApproveLink_Inr [OF t_approve(2)] by (auto simp: Challenges_Get_def dest!: ins_device_Some)
qed (auto simp: Challenges_Get_def Attempts_Record_def Rotate_def Let_def Sessions_Revoke_def SetPINHash_def Device_Rename_def RevokeDevice_def
    CreateLink_def Sessions_Create_def ins_session_def ConsumeLink_def split: if_splits)

lemma auth_star_challenge:
  "auth_trans_star db db' \<Longrightarrow> Challenges_Get i db = Some c \<Longrightarrow> \<exists>c'. Challenges_Get i db' = Some c' \<and> ch_later c c'"
proof (induction rule: rtranclp_induct)
  case (step b d)
  then obtain c1 where "Challenges_Get i b = Some c1" "ch_later c c1" by auto
  with auth_trans_challenge [OF step(2)] ch_later_trans show ?case by blast
qed simp

lemma auth_run_star: "auth_trans_star (asy_db s) (asy_db (run auth_step s reqs))"
proof (induction reqs arbitrary: s)
  case (Cons r reqs)
  from rtranclp_trans [OF auth_step_trans [of s r] Cons.IH] show ?case by simp
qed simp

section \<open>Sessions and devices that are over\<close>

lemma Rotate_sessions:
  assumes "Rotate i old new t db = Some (okay, db')"
  obtains f where "ad_Sessions db' = map f (ad_Sessions db)" "ad_Devices db' = ad_Devices db" "ad_Links db' = ad_Links db"
    "\<And>s. ss_ID (f s) = ss_ID s" "\<And>s. ss_DeviceID (f s) = ss_DeviceID s" "\<And>s. ss_RevokedAt (f s) = ss_RevokedAt s"
proof -
  let ?f = "\<lambda>s. if okay \<and> ss_ID s = i \<and> ss_RefreshHash s = old \<and> ss_RevokedAt s = None
    then s\<lparr>ss_RefreshHash := new, ss_RotatedFrom := Some old, ss_LastUsedAt := Some t\<rparr> else s"
  show thesis by (rule that [of ?f]) (use assms in \<open>auto simp: Rotate_def Let_def split: if_splits\<close>)
qed

text \<open>Once revoked, a session stays revoked.\<close>

definition session_over :: "string \<Rightarrow> auth_db \<Rightarrow> bool" where
  "session_over i db \<longleftrightarrow> i \<in> ss_ID ` set (ad_Sessions db) \<and> (\<forall>s\<in>set (ad_Sessions db). ss_ID s = i \<longrightarrow> ss_RevokedAt s \<noteq> None)"

lemma session_over_map:
  assumes "session_over i db" "ad_Sessions db' = map f (ad_Sessions db)" "\<And>s. ss_ID (f s) = ss_ID s"
    "\<And>s. ss_RevokedAt s \<noteq> None \<Longrightarrow> ss_RevokedAt (f s) \<noteq> None"
  shows "session_over i db'"
  using assms unfolding session_over_def by (auto simp: image_image)

lemma session_over_ins: "session_over i db \<Longrightarrow> ins_session s db = Some db' \<Longrightarrow> session_over i db'"
  by (auto simp: session_over_def ins_session_def split: if_splits)

lemma session_over_trans: "auth_trans db db' \<Longrightarrow> session_over i db \<Longrightarrow> session_over i db'"
proof (induction rule: auth_trans.induct)
  case (t_register p db r db')
  obtain u new where "register_try p db = Inr ((u, new), db')" using RegisterDevice_Inr [OF t_register(1)] by (cases r) auto
  then show ?case
  proof (rule register_try_Inr, goal_cases)
    case (1 db1 db2 d s)
    have "ad_Sessions db2 = ad_Sessions db" using 1(1) ins_device_Some [OF 1(3)] by auto
    then have "session_over i db2" using t_register(2) by (simp add: session_over_def)
    then show ?case using session_over_ins 1(8) by blast
  qed
next
  case (t_rotate j old new t db okay db')
  from t_rotate(1) show ?case
  proof (rule Rotate_sessions, goal_cases)
    case (1 f)
    show ?case by (rule session_over_map [OF t_rotate(2) 1(1)]) (simp_all add: 1)
  qed
next
  case (t_revoke_session db j t)
  then show ?case by (rule session_over_map [where f = "\<lambda>s. if ss_ID s = j \<and> ss_RevokedAt s = None then s\<lparr>ss_RevokedAt := Some t\<rparr> else s"]) (auto simp: Sessions_Revoke_def)
next
  case (t_revoke_device db u j t)
  show ?case
  proof (cases "list_ex (owned_active u j) (ad_Devices db)")
    case True
    show ?thesis by (rule session_over_map [OF t_revoke_device, where f = "\<lambda>s. if ss_DeviceID s = j \<and> ss_RevokedAt s = None then s\<lparr>ss_RevokedAt := Some t\<rparr> else s"])
      (auto simp: RevokeDevice_def True)
  qed (use t_revoke_device in \<open>simp add: RevokeDevice_def\<close>)
next
  case (t_approve p db db')
  then show ?case using ApproveLink_Inr [OF t_approve(2)] by (auto simp: session_over_def dest!: ins_device_Some)
next
  case (t_mint tok db l se db')
  then show ?case using session_over_ins by (auto simp: Sessions_Create_def)
qed (auto simp: session_over_def Challenges_Create_def IncrementAttempts_def MarkVerified_def Attempts_Record_def SetPINHash_def
    Device_Rename_def CreateLink_def ConsumeLink_def split: if_splits)

lemma session_over_star: "auth_trans_star db db' \<Longrightarrow> session_over i db \<Longrightarrow> session_over i db'"
  by (induction rule: rtranclp_induct) (auto intro: session_over_trans)

text \<open>A device without a live session and without a link that could give it one.\<close>

definition device_over :: "string \<Rightarrow> auth_db \<Rightarrow> bool" where
  "device_over i db \<longleftrightarrow> i \<in> de_ID ` set (ad_Devices db) \<and>
     (\<forall>s\<in>set (ad_Sessions db). ss_DeviceID s = i \<longrightarrow> ss_RevokedAt s \<noteq> None) \<and>
     (\<forall>l\<in>set (ad_Links db). li_State l = LinkApproved \<longrightarrow> li_DeviceID l \<noteq> i)"

lemma device_over_map:
  assumes "device_over i db" "ad_Sessions db' = map f (ad_Sessions db)" "ad_Devices db' = map g (ad_Devices db)" "ad_Links db' = ad_Links db"
    "\<And>s. ss_DeviceID (f s) = ss_DeviceID s" "\<And>s. ss_RevokedAt s \<noteq> None \<Longrightarrow> ss_RevokedAt (f s) \<noteq> None" "\<And>d. de_ID (g d) = de_ID d"
  shows "device_over i db'"
  using assms unfolding device_over_def by (auto simp: image_image)

lemma device_over_trans: "auth_trans db db' \<Longrightarrow> device_over i db \<Longrightarrow> device_over i db'"
proof (induction rule: auth_trans.induct)
  case (t_register p db r db')
  from t_register(1) show ?case
    by (rule Register_frame) (use t_register(2) in \<open>auto simp: device_over_def\<close>)
next
  case (t_rotate j old new t db okay db')
  from t_rotate(1) show ?case
  proof (rule Rotate_sessions, goal_cases)
    case (1 f)
    show ?case by (rule device_over_map [OF t_rotate(2) 1(1), where g = "\<lambda>d. d"]) (simp_all add: 1)
  qed
next
  case (t_revoke_session db j t)
  then show ?case by (rule device_over_map [where g = "\<lambda>d. d" and f = "\<lambda>s. if ss_ID s = j \<and> ss_RevokedAt s = None then s\<lparr>ss_RevokedAt := Some t\<rparr> else s"])
    (auto simp: Sessions_Revoke_def)
next
  case (t_rename db u j n)
  then show ?case by (rule device_over_map [where f = "\<lambda>d. d" and g = "\<lambda>d. if owned_active u j d then d\<lparr>de_Name := n\<rparr> else d"])
    (auto simp: Device_Rename_def)
next
  case (t_revoke_device db u j t)
  show ?case
  proof (cases "list_ex (owned_active u j) (ad_Devices db)")
    case True
    show ?thesis by (rule device_over_map [OF t_revoke_device, where f = "\<lambda>s. if ss_DeviceID s = j \<and> ss_RevokedAt s = None then s\<lparr>ss_RevokedAt := Some t\<rparr> else s" and g = "\<lambda>d. if owned_active u j d then d\<lparr>de_RevokedAt := Some t\<rparr> else d"])
      (auto simp: RevokeDevice_def True)
  qed (use t_revoke_device in \<open>simp add: RevokeDevice_def\<close>)
next
  case (t_link l db db')
  then show ?case by (auto simp: device_over_def CreateLink_def tbl_ins_Some)
next
  case (t_approve p db db')
  obtain d db1 where "ins_device d db = Some db1" "de_ID d = ap_NewDeviceID p" "db' = db1\<lparr>ad_Links := map (approved p) (ad_Links db1)\<rparr>"
    using ApproveLink_Inr [OF t_approve(2)] by blast
  with t_approve(3) show ?case by (auto simp: device_over_def approved_def dest!: ins_device_Some)
next
  case (t_mint tok db l se db')
  have "l \<in> set (ad_Links db)" using t_mint(1) by (auto simp: GetLink_def dest: tbl_get_Some)
  with t_mint show ?case by (auto simp: device_over_def Sessions_Create_def ins_session_def split: if_splits)
next
  case (t_consume db tok)
  then show ?case by (auto simp: device_over_def ConsumeLink_def set_tbl_upd)
qed (auto simp: device_over_def Challenges_Create_def IncrementAttempts_def MarkVerified_def Attempts_Record_def SetPINHash_def split: if_splits)

lemma device_over_star: "auth_trans_star db db' \<Longrightarrow> device_over i db \<Longrightarrow> device_over i db'"
  by (induction rule: rtranclp_induct) (auto intro: device_over_trans)

text \<open>How they end.\<close>

lemma session_over_revoke:
  assumes "i \<in> ss_ID ` set (ad_Sessions db)"
  shows "session_over i (Sessions_Revoke i t db)"
proof -
  let ?f = "\<lambda>s. if ss_ID s = i \<and> ss_RevokedAt s = None then s\<lparr>ss_RevokedAt := Some t\<rparr> else s"
  have "ss_ID ` set (map ?f (ad_Sessions db)) = ss_ID ` set (ad_Sessions db)" by (rule image_map_key) simp
  moreover have "\<forall>s\<in>set (map ?f (ad_Sessions db)). ss_ID s = i \<longrightarrow> ss_RevokedAt s \<noteq> None"
    unfolding set_map by (intro ballI, elim imageE) simp
  ultimately show ?thesis using assms by (simp add: session_over_def Sessions_Revoke_def del: set_map)
qed

lemma device_over_revoke:
  assumes "RevokeDevice u i t db = (True, db')" "\<forall>l\<in>set (ad_Links db). li_State l = LinkApproved \<longrightarrow> li_DeviceID l \<noteq> i"
  shows "device_over i db'"
proof -
  let ?f = "\<lambda>d. if owned_active u i d then d\<lparr>de_RevokedAt := Some t\<rparr> else d"
  let ?g = "\<lambda>s. if ss_DeviceID s = i \<and> ss_RevokedAt s = None then s\<lparr>ss_RevokedAt := Some t\<rparr> else s"
  have ex: "list_ex (owned_active u i) (ad_Devices db)" using assms(1) by (auto simp: RevokeDevice_def split: if_splits)
  have db': "ad_Devices db' = map ?f (ad_Devices db)" "ad_Sessions db' = map ?g (ad_Sessions db)" "ad_Links db' = ad_Links db"
    using assms(1) by (auto simp: RevokeDevice_def ex)
  have "de_ID ` set (map ?f (ad_Devices db)) = de_ID ` set (ad_Devices db)" by (rule image_map_key) simp
  moreover have "i \<in> de_ID ` set (ad_Devices db)" using ex by (auto simp: list_ex_iff owned_active_def)
  moreover have "\<forall>s\<in>set (map ?g (ad_Sessions db)). ss_DeviceID s = i \<longrightarrow> ss_RevokedAt s \<noteq> None"
    unfolding set_map by (intro ballI, elim imageE) simp
  ultimately show ?thesis using assms(2) unfolding device_over_def db' by blast
qed

text \<open>Tokens of a refresh belong to a live session.\<close>

lemma sessions_one_Some:
  assumes "sessions_one P db = Some se"
  obtains s where "s \<in> set (ad_Sessions db)" "P s" "se_ID se = ss_ID s" "se_DeviceID se = ss_DeviceID s" "se_RevokedAt se = ss_RevokedAt s"
    "se_RefreshHash se = ss_RefreshHash s"
proof -
  from assms obtain s :: session_row and d :: device_row where f: "find (\<lambda>s. P s \<and> ss_DeviceID s \<in> de_ID ` set (ad_Devices db)) (ad_Sessions db) = Some s"
    and se: "se = \<lparr>se_ID = ss_ID s, se_DeviceID = ss_DeviceID s, se_UserID = de_UserID d, se_RefreshHash = ss_RefreshHash s,
      se_RotatedFrom = ss_RotatedFrom s, se_ExpiresAt = ss_ExpiresAt s, se_RevokedAt = ss_RevokedAt s\<rparr>"
    by (auto simp: sessions_one_def split: option.splits)
  from f have "s \<in> set (ad_Sessions db)" "P s" by (auto simp: find_Some_iff)
  then show thesis by (rule that) (simp_all add: se)
qed

lemma Refresh_Inr:
  assumes "Refresh e tok s = (Inr tp, s1)"
  obtains x new where "x \<in> set (ad_Sessions (asy_db s))" "ss_RefreshHash x = HashToken (au_crypto e) tok" "ss_RevokedAt x = None"
    "ss_ID x = tp_SessionID tp" "ss_DeviceID x = tp_DeviceID tp" "new = HashToken (au_crypto e) (tp_RefreshToken tp)"
    "Rotate (ss_ID x) (HashToken (au_crypto e) tok) new (au_now e) (asy_db s) = Some (True, asy_db s1)"
proof -
  let ?h = "HashToken (au_crypto e) tok"
  obtain se new where se: "ByRefreshHash ?h (asy_db s) = Some se" "se_RevokedAt se = None" "se_ID se = tp_SessionID tp" "se_DeviceID se = tp_DeviceID tp"
    "new = HashToken (au_crypto e) (tp_RefreshToken tp)" "Rotate (se_ID se) ?h new (au_now e) (asy_db s) = Some (True, asy_db s1)"
    using assms by (auto simp: Refresh_def Let_def EvaluateSession_def NewRefreshToken_def
        split: if_splits option.splits refresh_outcome.splits prod.splits bool.splits)
  from se(1) obtain x where "x \<in> set (ad_Sessions (asy_db s))" "ss_RefreshHash x = ?h" "se_ID se = ss_ID x" "se_DeviceID se = ss_DeviceID x"
    "se_RevokedAt se = ss_RevokedAt x"
    unfolding ByRefreshHash_def by (rule sessions_one_Some) blast
  with se show thesis by (intro that [of x new]) auto
qed

lemma RevokeDevice_True:
  assumes "RevokeDevice u d now db = (True, db')"
  shows "list_ex (owned_active u d) (ad_Devices db)" "ad_Links db' = ad_Links db"
    "ad_Sessions db' = map (\<lambda>x. if ss_DeviceID x = d \<and> ss_RevokedAt x = None then x\<lparr>ss_RevokedAt := Some now\<rparr> else x) (ad_Sessions db)"
    "ad_Devices db' = map (\<lambda>x. if owned_active u d x then x\<lparr>de_RevokedAt := Some now\<rparr> else x) (ad_Devices db)"
  using assms by (auto simp: RevokeDevice_def split: if_splits)

end
