(* ===== verification/AuthProps.thy ===== *)
theory AuthProps
  imports AuthInv
begin

text \<open>
  What authentication and the device registry guarantee: single use and bounded guessing of one-time codes, the PIN gate,
  the device limit, rotation and reuse of refresh tokens, and what revoking a device ends.
\<close>

section \<open>One-time codes\<close>

lemma VerifyOTP_Inr:
  assumes "VerifyOTP e i code dev s = (Inr tp, s1)"
  obtains ch where "Challenges_Get i (asy_db s) = Some ch" "VerifyCode (au_crypto e) ch code (au_now e) = VerifyOK"
    "tp = requires_pin \<and> asy_db s1 = MarkVerified i True (au_now e) (record_attempt e (ch_PhoneHash ch) True (asy_db s)) \<or>
     register e (ch_PhoneHash ch) dev (with_db s (MarkVerified i False (au_now e) (record_attempt e (ch_PhoneHash ch) True (asy_db s)))) = (Inr tp, s1)"
proof (cases "Challenges_Get i (asy_db s)")
  case (Some ch)
  note i = Challenges_Get_ID [OF Some]
  show thesis
    by (rule that [OF Some]; use assms Some in \<open>auto simp: VerifyOTP_def Let_def i split: if_splits option.splits verify_outcome.splits\<close>)
qed (use assms in \<open>auto simp: VerifyOTP_def split: if_splits\<close>)

lemma register_Inr_PIN: "register e ph dev s = (Inr tp, s1) \<Longrightarrow> \<not> tp_RequiresPIN tp"
  by (auto simp: register_def Let_def split: option.splits if_splits prod.splits sum.splits register_error.splits)

lemma VerifyPIN_Inr:
  assumes "VerifyPIN e i pin dev s = (Inr tp, s1)"
  obtains ch s0 where "Challenges_Get i (asy_db s) = Some ch" "ch_waits ch" "au_now e \<le> ch_ExpiresAt ch" "asy_db s0 = asy_db s"
    "rate_check e (''rl:pin:'' @ hex_encode (ch_PhoneHash ch)) pin_limit s = (None, s0)"
    "\<exists>u. ByPhoneHash (ch_PhoneHash ch) (asy_db s) = Some u \<and> CheckPIN (au_crypto e) (us_PINHash u) pin = Some True"
    "register e (ch_PhoneHash ch) dev (with_db s0 (MarkVerified i False (au_now e) (asy_db s))) = (Inr tp, s1)"
proof (cases "Challenges_Get i (asy_db s)")
  case (Some ch)
  note i = Challenges_Get_ID [OF Some]
  obtain r s0 where rc: "rate_check e (''rl:pin:'' @ hex_encode (ch_PhoneHash ch)) pin_limit s = (r, s0)" by (metis surj_pair)
  note db = rate_check_db [OF rc]
  show thesis
    by (rule that [OF Some, of s0]; use assms Some rc db in \<open>auto simp: VerifyPIN_def ch_waits_def i split: if_splits option.splits bool.splits\<close>)
qed (use assms in \<open>auto simp: VerifyPIN_def split: if_splits\<close>)

lemma Get_MarkVerified:
  assumes "Challenges_Get i db = Some ch"
  shows "\<exists>c. Challenges_Get i (MarkVerified i b t db) = Some c \<and> ch_rank c = (if b then 1 else 2)"
  using Challenges_Get_upd [OF assms, of "\<lambda>c. c\<lparr>ch_VerifiedAt := Some t, ch_PinPending := b\<rparr>" i]
  by (auto simp: MarkVerified_def Challenges_Get_def ch_rank_def ch_open_def ch_waits_def)

text \<open>The challenge after a verification that succeeded.\<close>

lemma verified_rank:
  assumes "VerifyOTP e i code dev s = (Inr tp, s1) \<or> VerifyPIN e i code dev s = (Inr tp, s1)"
  shows "\<exists>c. Challenges_Get i (asy_db s1) = Some c \<and> (if tp_RequiresPIN tp then 1 else 2) \<le> ch_rank c"
proof -
  have reg: "\<exists>c. Challenges_Get i (asy_db s1) = Some c \<and> 2 \<le> ch_rank c"
    if a: "register e ph dev s0 = (Inr tp, s1)" "asy_db s0 = MarkVerified i False t db" "Challenges_Get i db = Some ch" for ph s0 t db ch
  proof -
    obtain c where c: "Challenges_Get i (asy_db s0) = Some c" "ch_rank c = 2" using Get_MarkVerified [OF a(3), of False t] a(2) by auto
    from auth_star_challenge [OF register_trans [of s0 e ph dev] c(1)] c(2) a(1) show ?thesis by (auto simp: ch_later_def)
  qed
  from assms show ?thesis
  proof
    assume v: "VerifyOTP e i code dev s = (Inr tp, s1)"
    then obtain ch where ch: "Challenges_Get i (asy_db s) = Some ch"
      "tp = requires_pin \<and> asy_db s1 = MarkVerified i True (au_now e) (record_attempt e (ch_PhoneHash ch) True (asy_db s)) \<or>
       register e (ch_PhoneHash ch) dev (with_db s (MarkVerified i False (au_now e) (record_attempt e (ch_PhoneHash ch) True (asy_db s)))) = (Inr tp, s1)"
      by (rule VerifyOTP_Inr)
    have g: "Challenges_Get i (record_attempt e (ch_PhoneHash ch) True (asy_db s)) = Some ch" using ch(1) by simp
    from ch(2) show ?thesis
    proof
      assume "tp = requires_pin \<and> asy_db s1 = MarkVerified i True (au_now e) (record_attempt e (ch_PhoneHash ch) True (asy_db s))"
      then show ?thesis using Get_MarkVerified [OF g, of True "au_now e"] by (auto simp: requires_pin_def)
    next
      assume r: "register e (ch_PhoneHash ch) dev (with_db s (MarkVerified i False (au_now e) (record_attempt e (ch_PhoneHash ch) True (asy_db s)))) = (Inr tp, s1)"
      from reg [OF r _ g, of "au_now e"] register_Inr_PIN [OF r] show ?thesis by simp
    qed
  next
    assume "VerifyPIN e i code dev s = (Inr tp, s1)"
    then obtain ch s0 where "Challenges_Get i (asy_db s) = Some ch" "asy_db s0 = asy_db s"
      "register e (ch_PhoneHash ch) dev (with_db s0 (MarkVerified i False (au_now e) (asy_db s))) = (Inr tp, s1)"
      by (rule VerifyPIN_Inr)
    from reg [OF this(3) _ this(1), of "au_now e"] register_Inr_PIN [OF this(3)] show ?thesis by simp
  qed
qed

text \<open>
C8. A one-time code is used once: after a verification of a challenge has succeeded, by code or by PIN, and after any
further requests of any kind, no code is accepted for that challenge again, and once tokens have been given out no PIN is
either; the refused request changes nothing.
\<close>

theorem otp_single_use:
  assumes "VerifyOTP e i code dev s = (Inr tp, s1) \<or> VerifyPIN e i code dev s = (Inr tp, s1)" "s2 = run auth_step s1 reqs"
  shows "(\<exists>err. VerifyOTP e' i code' dev' s2 = (Inl err, s2)) \<and>
    (\<not> tp_RequiresPIN tp \<longrightarrow> (\<exists>err. VerifyPIN e' i pin dev' s2 = (Inl err, s2)))"
proof -
  obtain c where c: "Challenges_Get i (asy_db s1) = Some c" "(if tp_RequiresPIN tp then 1 else 2) \<le> ch_rank c"
    using verified_rank [OF assms(1)] by blast
  obtain c' where c': "Challenges_Get i (asy_db s2) = Some c'" "ch_later c c'"
    using auth_star_challenge [OF auth_run_star c(1)] assms(2) by blast
  then have r: "(if tp_RequiresPIN tp then 1 else 2) \<le> ch_rank c'" using c(2) by (simp add: ch_later_def)
  then have "ch_VerifiedAt c' \<noteq> None" by (auto simp: ch_rank_def ch_open_def split: if_splits)
  moreover have "\<not> tp_RequiresPIN tp \<Longrightarrow> \<not> ch_PinPending c'" using r by (auto simp: ch_rank_def ch_open_def ch_waits_def split: if_splits)
  ultimately show ?thesis using c'(1) by (auto simp: VerifyOTP_def VerifyCode_def VerifyPIN_def)
qed

section \<open>Inputs of the witnesses\<close>

definition ex_crypto :: crypto where
  "ex_crypto = \<lparr>cr_hmac = (\<lambda>k m. k @ m), cr_sha256 = (\<lambda>m. m), cr_argonVersion = 19,
     cr_argon = (\<lambda>pin salt t m p n. take n (pin @ replicate n (CHR ''x'')))\<rparr>"

definition ex_auth_env :: "char \<Rightarrow> auth_env" where
  "ex_auth_env c = \<lparr>au_now = 0, au_fails = (\<lambda>_. False), au_entropy = replicate 32 c, au_id1 = ''u'', au_id2 = ''d'', au_id3 = ''s'',
     au_issue = (\<lambda>u d s. Some ''jwt''), au_channel = ChannelSMS, au_pepper = ''p'', au_refreshTTL = Hour, au_crypto = ex_crypto\<rparr>"

definition ex_challenge :: challenge where
  "ex_challenge = \<lparr>ch_ID = ''c'', ch_PhoneHash = ''h'', ch_CodeHash = ''s123456'', ch_Salt = ''s'', ch_Channel = ChannelSMS,
     ch_Attempts = 0, ch_VerifiedAt = None, ch_PinPending = False, ch_CreatedAt = 0, ch_ExpiresAt = OTPValidity\<rparr>"

definition ex_auth :: auth_sys where
  "ex_auth = \<lparr>asy_db = empty_auth_db\<lparr>ad_Challenges := [ex_challenge]\<rparr>, asy_limiter = Map.empty\<rparr>"

definition ex_phone :: device_info where
  "ex_phone = \<lparr>di_Platform = ''ios'', di_Name = ''n'', di_IdentityKey = ''k''\<rparr>"

lemmas auth_eval = ex_auth_env_def ex_challenge_def ex_auth_def ex_phone_def ex_crypto_def empty_auth_db_def VerifyOTP_def VerifyCode_def
  Challenges_Get_def tbl_get_Cons OTPValidity_def OTPMaxAttempts_def HashCode_def record_attempt_def Attempts_Record_def ByPhoneHash_def
  MarkVerified_def tbl_upd_def register_def platformCode_def NewRefreshToken_def ReadFull_def HashToken_def RegisterDevice_def register_try_def
  active_devices_def maxDevicesPerUser_def ins_device_def ins_session_def time_units Let_def


text \<open>The state after a first registration.\<close>

definition ex_auth1 :: auth_sys where
  "ex_auth1 = snd (VerifyOTP (ex_auth_env (CHR ''a'')) ''c'' ''123456'' ex_phone ex_auth)"

definition ex_token :: "char \<Rightarrow> string" where "ex_token c = RawURL_Encode (replicate 32 c)"

definition ex_pair :: "char \<Rightarrow> token_pair" where
  "ex_pair c = \<lparr>tp_AccessJWT = ''jwt'', tp_RefreshToken = ex_token c, tp_UserID = ''u'', tp_DeviceID = ''d'', tp_SessionID = ''s'', tp_RequiresPIN = False\<rparr>"

lemma ex_verify_otp: "VerifyOTP (ex_auth_env (CHR ''a'')) ''c'' ''123456'' ex_phone ex_auth = (Inr (ex_pair (CHR ''a'')), ex_auth1)"
  unfolding ex_auth1_def by (simp add: auth_eval ex_pair_def ex_token_def)

theorem otp_single_use_witness:
  "\<exists>err. VerifyOTP (ex_auth_env (CHR ''b'')) ''c'' ''123456'' ex_phone ex_auth1 = (Inl err, ex_auth1)"
  using otp_single_use [of "ex_auth_env (CHR ''a'')" "''c''" "''123456''" ex_phone ex_auth "ex_pair (CHR ''a'')" ex_auth1 ex_auth1 "[]"] ex_verify_otp
  by simp

section \<open>Guessing\<close>








section \<open>The PIN gate\<close>

text \<open>
The PIN stands between a code and an account: while the account of a phone has a PIN, a request that verifies a code
of that phone creates no device and no session, and a request that presents a PIN does only if the code of the challenge has
been accepted before, the challenge has not expired, the limiter admits the attempt, and the PIN is the stored one.
\<close>

theorem pin_gate:
  assumes ch: "Challenges_Get i (asy_db s) = Some ch" and u: "ByPhoneHash (ch_PhoneHash ch) (asy_db s) = Some u" "us_PINHash u \<noteq> []"
  shows "ad_Devices (asy_db (snd (VerifyOTP e i code dev s))) = ad_Devices (asy_db s) \<and>
    ad_Sessions (asy_db (snd (VerifyOTP e i code dev s))) = ad_Sessions (asy_db s) \<and>
    (ad_Devices (asy_db (snd (VerifyPIN e i pin dev s))) \<noteq> ad_Devices (asy_db s) \<or>
     ad_Sessions (asy_db (snd (VerifyPIN e i pin dev s))) \<noteq> ad_Sessions (asy_db s) \<longrightarrow>
       ch_VerifiedAt ch \<noteq> None \<and> ch_PinPending ch \<and> au_now e \<le> ch_ExpiresAt ch \<and>
       fst (rate_check e (''rl:pin:'' @ hex_encode (ch_PhoneHash ch)) pin_limit s) = None \<and>
       CheckPIN (au_crypto e) (us_PINHash u) pin = Some True)"
proof -
  have rec: "ad_Devices (record_attempt e ph b db) = ad_Devices db" "ad_Sessions (record_attempt e ph b db) = ad_Sessions db"
    "ByPhoneHash ph' (record_attempt e ph b db) = ByPhoneHash ph' db" for ph ph' b db
    by (auto simp: record_attempt_def Attempts_Record_def ByPhoneHash_def)
  obtain r s0 where rc: "rate_check e (''rl:pin:'' @ hex_encode (ch_PhoneHash ch)) pin_limit s = (r, s0)" by (metis surj_pair)
  note db = rate_check_db [OF rc]
  have "ad_Devices (asy_db (snd (VerifyOTP e i code dev s))) = ad_Devices (asy_db s) \<and>
    ad_Sessions (asy_db (snd (VerifyOTP e i code dev s))) = ad_Sessions (asy_db s)"
    using ch u by (auto simp: VerifyOTP_def Let_def rec MarkVerified_def IncrementAttempts_def split: verify_outcome.splits)
  moreover have "ad_Devices (asy_db (snd (VerifyPIN e i pin dev s))) = ad_Devices (asy_db s) \<and>
    ad_Sessions (asy_db (snd (VerifyPIN e i pin dev s))) = ad_Sessions (asy_db s)"
    if "\<not> (ch_VerifiedAt ch \<noteq> None \<and> ch_PinPending ch \<and> au_now e \<le> ch_ExpiresAt ch \<and> r = None \<and> CheckPIN (au_crypto e) (us_PINHash u) pin = Some True)"
    using that ch u rc db by (auto simp: VerifyPIN_def rec split: option.splits bool.splits)
  ultimately show ?thesis unfolding rc fst_conv by blast
qed

definition ex_pin_auth :: auth_sys where
  "ex_pin_auth = ex_auth\<lparr>asy_db := (asy_db ex_auth)\<lparr>ad_Users := [\<lparr>us_ID = ''u'', us_PhoneHash = ''h'', us_PINHash = ''x'', us_Status = 0, us_Deleted = False\<rparr>]\<rparr>\<rparr>"

theorem pin_gate_witness:
  "ad_Devices (asy_db (snd (VerifyOTP (ex_auth_env (CHR ''a'')) ''c'' ''123456'' ex_phone ex_pin_auth))) = []"
proof -
  have "Challenges_Get ''c'' (asy_db ex_pin_auth) = Some ex_challenge"
    by (simp add: ex_pin_auth_def ex_auth_def Challenges_Get_def tbl_get_Cons ex_challenge_def)
  moreover have "ByPhoneHash (ch_PhoneHash ex_challenge) (asy_db ex_pin_auth) =
      Some \<lparr>us_ID = ''u'', us_PhoneHash = ''h'', us_PINHash = ''x'', us_Status = 0, us_Deleted = False\<rparr>"
    by (simp add: ByPhoneHash_def ex_pin_auth_def ex_challenge_def)
  ultimately show ?thesis
    using pin_gate [of "''c''" ex_pin_auth ex_challenge] by (simp add: ex_pin_auth_def ex_auth_def empty_auth_db_def)
qed

text \<open>
C38. A PIN survives storage: the string that setting a PIN stores is read back, whatever the salt, and accepts a PIN exactly
when Argon2id gives it the same key; so the PIN that was set is accepted.
\<close>

theorem pin_roundtrip:
  assumes "HashPIN cr pin entropy = Some phc" "cr_argonVersion cr < 2 ^ 63"
    "\<forall>p s t m q n. length (cr_argon cr p s t m q n) = n"
  shows "CheckPIN cr phc pin = Some True \<and>
    (CheckPIN cr phc pin' = Some True \<longleftrightarrow> cr_argon cr pin' (take 16 entropy) 3 65536 4 32 = cr_argon cr pin (take 16 entropy) 3 65536 4 32)"
  using CheckPIN_HashPIN [OF assms(1,2)] assms(3) by simp

theorem pin_roundtrip_witness:
  "CheckPIN ex_crypto (the (HashPIN ex_crypto ''1234'' (replicate 16 (CHR ''s'')))) ''1234'' = Some True"
proof -
  have "HashPIN ex_crypto ''1234'' (replicate 16 (CHR ''s'')) = Some (the (HashPIN ex_crypto ''1234'' (replicate 16 (CHR ''s''))))"
    by (simp add: HashPIN_def ReadFull_def pin_consts Let_def)
  moreover have "cr_argonVersion ex_crypto < 2 ^ 63" "\<forall>p s t m q n. length (cr_argon ex_crypto p s t m q n) = n"
    by (simp_all add: ex_crypto_def min_def)
  ultimately show ?thesis using pin_roundtrip by blast
qed

section \<open>Devices and sessions\<close>





lemma ex_token_neq: "ex_token (CHR ''b'') \<noteq> ex_token (CHR ''a'')"
proof
  assume "ex_token (CHR ''b'') = ex_token (CHR ''a'')"
  then have "RawURL_Decode (ex_token (CHR ''b'')) = RawURL_Decode (ex_token (CHR ''a''))" by simp
  then show False by (simp add: ex_token_def RawURL_roundtrip)
qed


lemma ex_auth1_rows:
  "ad_Sessions (asy_db ex_auth1) = [\<lparr>ss_ID = ''s'', ss_DeviceID = ''d'', ss_RefreshHash = ex_token (CHR ''a''), ss_RotatedFrom = None,
     ss_LastUsedAt = None, ss_ExpiresAt = Hour, ss_RevokedAt = None\<rparr>]"
  "ad_Devices (asy_db ex_auth1) = [\<lparr>de_ID = ''d'', de_UserID = ''u'', de_IsPrimary = True, de_Platform = 0, de_Name = ''n'',
     de_IdentityKey = ''k'', de_Cert = ''k'', de_RegisteredAt = 0, de_LastActiveAt = None, de_RevokedAt = None\<rparr>]"
  "ad_Links (asy_db ex_auth1) = []"
  by (simp_all add: ex_auth1_def auth_eval ex_token_def)



text \<open>
A revoked device is locked out: once its owner has revoked a device, and no approved link is waiting to give it a session,
no request sequence whatsoever leads to a state in which a refresh token yields tokens for that device.
\<close>

theorem revoked_device_locked_out:
  assumes "Dev_Revoke e ident d s = (Inr (), ev, s1)" "\<forall>l\<in>set (ad_Links (asy_db s)). li_State l = LinkApproved \<longrightarrow> li_DeviceID l \<noteq> d"
    "Refresh e' tok (run auth_step s1 reqs) = (Inr tp, s3)"
  shows "tp_DeviceID tp \<noteq> d \<and> ev = [DeviceRevoked (UserID ident) d]"
proof -
  have v: "RevokeDevice (UserID ident) d (au_now e) (asy_db s) = (True, asy_db s1)" "ev = [DeviceRevoked (UserID ident) d]"
    using assms(1) by (auto simp: Dev_Revoke_def split: if_splits prod.splits bool.splits)
  have "device_over d (asy_db s1)" using device_over_revoke [OF v(1) assms(2)] .
  then have "device_over d (asy_db (run auth_step s1 reqs))" by (rule device_over_star [OF auth_run_star])
  moreover obtain x where "x \<in> set (ad_Sessions (asy_db (run auth_step s1 reqs)))" "ss_RevokedAt x = None" "ss_DeviceID x = tp_DeviceID tp"
    using Refresh_Inr [OF assms(3)] by metis
  ultimately show ?thesis using v(2) by (auto simp: device_over_def)
qed

text \<open>A second device of the same user, and the first one revoked by its owner.\<close>

definition ex_owner :: identity where "ex_owner = \<lparr>UserID = ''u'', DeviceID = ''d'', SessionID = ''s''\<rparr>"

definition ex_two :: auth_sys where
  "ex_two = ex_auth1\<lparr>asy_db := (asy_db ex_auth1)\<lparr>
     ad_Devices := ad_Devices (asy_db ex_auth1) @ [\<lparr>de_ID = ''d2'', de_UserID = ''u'', de_IsPrimary = False, de_Platform = 0, de_Name = ''n'',
       de_IdentityKey = ''k'', de_Cert = ''k'', de_RegisteredAt = 0, de_LastActiveAt = None, de_RevokedAt = None\<rparr>],
     ad_Sessions := ad_Sessions (asy_db ex_auth1) @ [\<lparr>ss_ID = ''s2'', ss_DeviceID = ''d2'', ss_RefreshHash = ''t'', ss_RotatedFrom = None,
       ss_LastUsedAt = None, ss_ExpiresAt = Hour, ss_RevokedAt = None\<rparr>]\<rparr>\<rparr>"

theorem revoked_device_locked_out_witness:
  "\<exists>tp s3. Refresh (ex_auth_env (CHR ''b'')) ''t'' (snd (snd (Dev_Revoke (ex_auth_env (CHR ''b'')) ex_owner ''d'' ex_two))) = (Inr tp, s3) \<and> tp_DeviceID tp \<noteq> ''d''"
proof -
  let ?e = "ex_auth_env (CHR ''b'')"
  let ?s1 = "snd (snd (Dev_Revoke ?e ex_owner ''d'' ex_two))"
  have ne: "ex_token (CHR ''a'') \<noteq> ''t''" using RawURL_roundtrip [of "replicate 32 (CHR ''a'')"] by (auto simp: ex_token_def) code_simp
  have r: "Dev_Revoke ?e ex_owner ''d'' ex_two = (Inr (), [DeviceRevoked ''u'' ''d''], ?s1)"
    by (simp add: Dev_Revoke_def RevokeDevice_def ex_two_def ex_auth1_rows ex_auth_env_def ex_owner_def owned_active_def)
  have "\<exists>tp s3. Refresh ?e ''t'' (run auth_step ?s1 []) = (Inr tp, s3)"
    using ne ex_token_neq by (simp add: r Dev_Revoke_def RevokeDevice_def ex_two_def ex_auth1_rows ex_owner_def owned_active_def Refresh_def ByRefreshHash_def
        sessions_one_def HashToken_def ex_auth_env_def ex_crypto_def tbl_get_Cons EvaluateSession_def NewRefreshToken_def ReadFull_def Rotate_def
        Let_def time_units ex_token_def)
  then obtain tp s3 where t: "Refresh ?e ''t'' (run auth_step ?s1 []) = (Inr tp, s3)" by blast
  have "\<forall>l\<in>set (ad_Links (asy_db ex_two)). li_State l = LinkApproved \<longrightarrow> li_DeviceID l \<noteq> ''d''" by (simp add: ex_two_def ex_auth1_rows)
  from revoked_device_locked_out [OF r this t] t show ?thesis by auto
qed

text \<open>
  Without the condition on links the lock-out fails: a device that is revoked after its link was approved and before it was
  completed gets a fresh session.
\<close>

lemma revoked_device_relinks:
  assumes "Dev_Revoke e ident d s = (Inr (), ev, s1)" "GetLink tok (asy_db s) = Some l" "li_State l = LinkApproved" "li_DeviceID l = d"
    "\<forall>c. \<not> au_fails e' c" "au_now e' \<le> li_ExpiresAt l" "NewRefreshToken (au_crypto e') (au_entropy e') = Some (r, h)"
    "h \<notin> ss_RefreshHash ` set (ad_Sessions (asy_db s))" "au_id1 e' \<notin> ss_ID ` set (ad_Sessions (asy_db s))" "au_issue e' (li_UserID l) d (au_id1 e') = Some a"
  shows "\<exists>s2. LinkComplete e' tok s1 = (Inr (LinkTokens a r d), s2)"
proof -
  have v: "RevokeDevice (UserID ident) d (au_now e) (asy_db s) = (True, asy_db s1)"
    using assms(1) by (auto simp: Dev_Revoke_def split: if_splits prod.splits bool.splits)
  note ex = RevokeDevice_True(1) [OF v] and db = RevokeDevice_True(2-4) [OF v]
  have k: "ss_RefreshHash ` set (ad_Sessions (asy_db s1)) = ss_RefreshHash ` set (ad_Sessions (asy_db s))"
    "ss_ID ` set (ad_Sessions (asy_db s1)) = ss_ID ` set (ad_Sessions (asy_db s))"
    "de_ID ` set (ad_Devices (asy_db s1)) = de_ID ` set (ad_Devices (asy_db s))"
    unfolding db by (rule image_map_key, simp)+
  have "d \<in> de_ID ` set (ad_Devices (asy_db s1))" using ex unfolding k by (auto simp: list_ex_iff owned_active_def)
  with assms(2-) k db(1) show ?thesis
    by (simp add: LinkComplete_def GetLink_def MintLinkedSession_def Sessions_Create_def ins_session_def)
qed

end
