(* ===== verification/Server.thy ===== *)
theory Server
  imports GroupInv ChatRun AuthInv
begin

text \<open>
  The core API as one process: groups, chat and authentication over one database. Three tables are shared. Groups write
  \<^verbatim>\<open>conversations\<close> and \<^verbatim>\<open>conversation_members\<close>, from which chat computes who receives a message; authentication
  and the device list write \<^verbatim>\<open>devices\<close>, which chat reads. Requests of the three components interleave in any order;
  each request is one step of its component followed by the change of the shared rows the others see.
\<close>

section \<open>The shared tables\<close>

record server =
  sv_groups :: grp_db
  sv_chat :: chat_sys
  sv_auth :: auth_sys

definition chat_device :: "device_row \<Rightarrow> device" where
  "chat_device d = \<lparr>dv_ID = de_ID d, dv_UserID = de_UserID d, dv_Revoked = (de_RevokedAt d \<noteq> None)\<rparr>"

text \<open>
  What a group request changes for chat: a new group brings its conversation with sequence number 0, a deleted group takes
  its conversation away, and the members of the group conversations are those the request leaves.
\<close>

definition group_rows :: "grp_db \<Rightarrow> grp_db \<Rightarrow> chat_db \<Rightarrow> chat_db" where
  "group_rows g g' db =
     db\<lparr>cd_Conversations :=
           filter (\<lambda>c. cv_ID c \<notin> set (conversations_tbl g) \<or> cv_ID c \<in> set (conversations_tbl g')) (cd_Conversations db) @
           map (\<lambda>i. \<lparr>cv_ID = i, cv_Seq = 0, cv_DirectKey = None\<rparr>) (filter (\<lambda>i. i \<notin> set (conversations_tbl g)) (conversations_tbl g')),
        cd_Members :=
           filter (\<lambda>p. fst p \<notin> set (conversations_tbl g)) (cd_Members db) @ conversation_members_tbl g'\<rparr>"

text \<open>The id of a new group is drawn at random; it is not the id of a conversation that exists.\<close>

definition fresh_group :: "grp_db \<Rightarrow> grp_db \<Rightarrow> chat_db \<Rightarrow> bool" where
  "fresh_group g g' db \<longleftrightarrow> (\<forall>i\<in>set (conversations_tbl g') - set (conversations_tbl g). \<not> conv_exists db i)"

text \<open>What a request of authentication or of the device list changes for chat: the devices.\<close>

definition with_auth :: "auth_sys \<Rightarrow> server \<Rightarrow> server" where
  "with_auth a s = s\<lparr>sv_auth := a,
     sv_chat := (sv_chat s)\<lparr>cs_db := (cs_db (sv_chat s))\<lparr>cd_Devices := map chat_device (ad_Devices (asy_db a))\<rparr>\<rparr>\<rparr>"

inductive server_step :: "uuid_lib \<Rightarrow> server \<Rightarrow> server \<Rightarrow> bool" for lib :: uuid_lib where
  group_request: "g' = grp_step (sv_groups s) r \<Longrightarrow> fresh_group (sv_groups s) g' (cs_db (sv_chat s)) \<Longrightarrow>
    server_step lib s (s\<lparr>sv_groups := g', sv_chat := (sv_chat s)\<lparr>cs_db := group_rows (sv_groups s) g' (cs_db (sv_chat s))\<rparr>\<rparr>)"
| chat_request: "server_step lib s (s\<lparr>sv_chat := chat_op_step lib (sv_chat s) op\<rparr>)"
| auth_request: "server_step lib s (with_auth (auth_step (sv_auth s) q) s)"

definition empty_server :: server where
  "empty_server = \<lparr>sv_groups = empty_grp_db,
     sv_chat = \<lparr>cs_db = \<lparr>cd_Conversations = [], cd_Members = [], cd_Devices = [], cd_Inbox = [], cd_ReadReceipts = []\<rparr>, cs_dedupe = Map.empty\<rparr>,
     sv_auth = empty_auth\<rparr>"

section \<open>Invariant\<close>

text \<open>Chat sees the conversations and members that groups keep, direct conversations are apart from them, and devices agree.\<close>

definition linked :: "grp_db \<Rightarrow> chat_db \<Rightarrow> bool" where
  "linked g db \<longleftrightarrow>
     set (conversations_tbl g) \<subseteq> cv_ID ` set (cd_Conversations db) \<and>
     (\<forall>c\<in>set (cd_Conversations db). cv_DirectKey c \<noteq> None \<longrightarrow> cv_ID c \<notin> set (conversations_tbl g)) \<and>
     (\<forall>p\<in>set (cd_Members db). conv_exists db (fst p)) \<and>
     (\<forall>i\<in>set (conversations_tbl g). \<forall>u. (i, u) \<in> set (cd_Members db) \<longleftrightarrow> (i, u) \<in> set (conversation_members_tbl g))"

definition server_ok :: "server \<Rightarrow> bool" where
  "server_ok s \<longleftrightarrow> grp_ok (sv_groups s) \<and> auth_ok (asy_db (sv_auth s)) \<and> linked (sv_groups s) (cs_db (sv_chat s)) \<and>
     cd_Devices (cs_db (sv_chat s)) = map chat_device (ad_Devices (asy_db (sv_auth s)))"

lemma linked_group:
  assumes "linked g db" "fresh_group g g' db" "\<forall>p\<in>set (conversation_members_tbl g'). fst p \<in> set (conversations_tbl g')"
  shows "linked g' (group_rows g g' db)"
proof -
  let ?db = "group_rows g g' db"
  have ex: "conv_exists ?db i" if "conv_exists db i" "i \<notin> set (conversations_tbl g) \<or> i \<in> set (conversations_tbl g')" for i
    using that by (auto simp: conv_exists_def group_rows_def)
  have new: "conv_exists ?db i" if "i \<in> set (conversations_tbl g')" for i
  proof (cases "i \<in> set (conversations_tbl g)")
    case True
    then have "conv_exists db i" using assms(1) by (auto simp: linked_def conv_exists_def)
    then show ?thesis using ex that by blast
  next
    case False
    then show ?thesis using that by (force simp: conv_exists_def group_rows_def)
  qed
  have "cv_ID c \<notin> set (conversations_tbl g')" if "c \<in> set (cd_Conversations ?db)" "cv_DirectKey c \<noteq> None" for c
  proof -
    have c: "c \<in> set (cd_Conversations db)" using that by (auto simp: group_rows_def)
    then have "cv_ID c \<notin> set (conversations_tbl g)" using assms(1) that(2) by (auto simp: linked_def)
    moreover have "conv_exists db (cv_ID c)" using c by (auto simp: conv_exists_def)
    ultimately show ?thesis using assms(2) by (auto simp: fresh_group_def)
  qed
  moreover have "conv_exists ?db (fst p)" if "p \<in> set (cd_Members ?db)" for p
  proof -
    from that consider "p \<in> set (cd_Members db)" "fst p \<notin> set (conversations_tbl g)" | "p \<in> set (conversation_members_tbl g')"
      by (auto simp: group_rows_def)
    then show ?thesis using assms(1,3) ex new by cases (auto simp: linked_def)
  qed
  moreover have "(i, u) \<in> set (cd_Members ?db) \<longleftrightarrow> (i, u) \<in> set (conversation_members_tbl g')" if "i \<in> set (conversations_tbl g')" for i u
  proof (cases "i \<in> set (conversations_tbl g)")
    case False
    then have "\<not> conv_exists db i" using assms(2) that by (auto simp: fresh_group_def)
    then have "(i, u) \<notin> set (cd_Members db)" using assms(1) by (auto simp: linked_def)
    then show ?thesis by (auto simp: group_rows_def)
  qed (auto simp: group_rows_def)
  ultimately show ?thesis using new by (auto simp: linked_def conv_exists_def)
qed

text \<open>A chat request leaves the keys of the conversations that exist as they are, and members join direct conversations only.\<close>

lemma linked_direct:
  assumes "linked g db" "GetOrCreateDirect nid a b db = Some (conv, db')"
  shows "linked g db'"
proof -
  from assms(2) show ?thesis
  proof (rule Direct_Some)
    fix c
    assume c: "c \<in> set (cd_Conversations db')" "cv_ID c = conv" "cv_DirectKey c = Some (directKey a b)"
      and m: "cd_Members db' = add_member (conv, b) (add_member (conv, a) (cd_Members db))"
      and cs: "cd_Conversations db' = cd_Conversations db \<and> c \<in> set (cd_Conversations db) \<or>
        nid \<notin> cv_ID ` set (cd_Conversations db) \<and> Some (directKey a b) \<notin> cv_DirectKey ` set (cd_Conversations db) \<and>
        c = \<lparr>cv_ID = nid, cv_Seq = 0, cv_DirectKey = Some (directKey a b)\<rparr> \<and> cd_Conversations db' = cd_Conversations db @ [c]"
    have apart: "conv \<notin> set (conversations_tbl g)" using cs assms(1) c by (auto simp: linked_def)
    have sub: "set (cd_Conversations db) \<subseteq> set (cd_Conversations db')" using cs by auto
    have "\<forall>c\<in>set (cd_Conversations db'). cv_DirectKey c \<noteq> None \<longrightarrow> cv_ID c \<notin> set (conversations_tbl g)"
      using cs assms(1) apart c(2) by (auto simp: linked_def)
    moreover have "\<forall>p\<in>set (cd_Members db'). conv_exists db' (fst p)"
    proof
      fix p assume "p \<in> set (cd_Members db')"
      then have "p \<in> set (cd_Members db) \<or> fst p = conv" by (auto simp: m add_member_def split: if_splits)
      moreover have "conv_exists db (fst p) \<Longrightarrow> conv_exists db' (fst p)" using sub by (auto simp: conv_exists_def)
      moreover have "conv_exists db' conv" using c(1,2) by (auto simp: conv_exists_def)
      ultimately show "conv_exists db' (fst p)" using assms(1) by (auto simp: linked_def)
    qed
    moreover have "(i, u) \<in> set (cd_Members db') \<longleftrightarrow> (i, u) \<in> set (cd_Members db)" if "i \<in> set (conversations_tbl g)" for i u
      using that apart by (auto simp: m add_member_def)
    moreover have "cv_ID ` set (cd_Conversations db) \<subseteq> cv_ID ` set (cd_Conversations db')" using sub by (rule image_mono)
    ultimately show ?thesis using assms(1) by (auto simp: linked_def)
  qed
qed

lemma linked_keys:
  assumes "linked g db" "cd_Members db' = cd_Members db"
    "map (\<lambda>c. (cv_ID c, cv_DirectKey c)) (cd_Conversations db') = map (\<lambda>c. (cv_ID c, cv_DirectKey c)) (cd_Conversations db)"
  shows "linked g db'"
proof -
  have k: "(\<lambda>c. (cv_ID c, cv_DirectKey c)) ` set (cd_Conversations db') = (\<lambda>c. (cv_ID c, cv_DirectKey c)) ` set (cd_Conversations db)"
    using arg_cong [OF assms(3), of set] by simp
  have ids: "cv_ID ` set (cd_Conversations db') = cv_ID ` set (cd_Conversations db)"
    using arg_cong [OF k, of "image fst"] by (simp add: image_image)
  have "\<forall>c\<in>set (cd_Conversations db'). cv_DirectKey c \<noteq> None \<longrightarrow> cv_ID c \<notin> set (conversations_tbl g)"
  proof (intro ballI impI)
    fix c assume c: "c \<in> set (cd_Conversations db')" "cv_DirectKey c \<noteq> None"
    then have "(cv_ID c, cv_DirectKey c) \<in> (\<lambda>c. (cv_ID c, cv_DirectKey c)) ` set (cd_Conversations db)" using k by blast
    then obtain x where "x \<in> set (cd_Conversations db)" "cv_ID x = cv_ID c" "cv_DirectKey x = cv_DirectKey c" by auto
    then show "cv_ID c \<notin> set (conversations_tbl g)" using assms(1) c(2) by (force simp: linked_def)
  qed
  then show ?thesis using assms(1,2) ids by (auto simp: linked_def conv_exists_def)
qed

lemma Store_Accept_frame:
  assumes "Store_Accept p db = Inr (res, db')"
  shows "(ap_ConversationID p, ap_SenderUserID p) \<in> set (cd_Members db)"
    "sr_RecipientDeviceIDs res = member_devices db (ap_ConversationID p) (ap_SenderDeviceID p)"
    "cd_Members db' = cd_Members db" "cd_Devices db' = cd_Devices db"
    "map (\<lambda>c. (cv_ID c, cv_DirectKey c)) (cd_Conversations db') = map (\<lambda>c. (cv_ID c, cv_DirectKey c)) (cd_Conversations db)"
  using assms by (auto simp: Store_Accept_def Let_def tbl_upd_def split: if_splits option.splits)

lemma linked_chat:
  assumes "linked g (cs_db c)"
  shows "linked g (cs_db (chat_op_step lib c op)) \<and> cd_Devices (cs_db (chat_op_step lib c op)) = cd_Devices (cs_db c)"
proof (cases op)
  case (OpAccept e req)
  with Accept_cases [of lib e req c] assms show ?thesis
    by (auto intro: linked_keys dest: Store_Accept_frame(3-5))
next
  case (OpAck f d upTo)
  with AckDelivered_inbox [of f d upTo "cs_db c"] assms show ?thesis by (auto intro: linked_keys)
next
  case (OpDirect nid a b)
  with assms show ?thesis by (auto split: option.split intro: linked_direct elim: Direct_Some)
qed

lemma server_ok_step: "server_step lib s s' \<Longrightarrow> server_ok s \<Longrightarrow> server_ok s'"
proof (induction rule: server_step.induct)
  case (group_request g' s r)
  then have "grp_ok g'" by (auto simp: server_ok_def intro: grp_inv.keep)
  moreover have "linked g' (group_rows (sv_groups s) g' (cs_db (sv_chat s)))"
    using group_request(2,3) \<open>grp_ok g'\<close> by (intro linked_group) (auto simp: server_ok_def grp_ok_def)
  ultimately show ?case using group_request(3) by (simp add: server_ok_def group_rows_def)
next
  case (chat_request s op)
  then show ?case using linked_chat [of "sv_groups s" "sv_chat s" lib op] by (simp add: server_ok_def)
next
  case (auth_request s q)
  then show ?case by (auto simp: with_auth_def server_ok_def linked_def conv_exists_def intro: auth_inv.keep)
qed

lemma server_ok_empty: "server_ok empty_server"
proof -
  have "grp_ok empty_grp_db" "auth_ok (asy_db empty_auth)" using grp_ok_empty auth_ok_empty by (simp_all add: empty_auth_def)
  then show ?thesis by (simp add: server_ok_def empty_server_def linked_def empty_grp_db_def empty_auth_def empty_auth_db_def)
qed

lemma server_ok_steps: "(server_step lib)\<^sup>*\<^sup>* s s' \<Longrightarrow> server_ok s \<Longrightarrow> server_ok s'"
  by (induction rule: rtranclp_induct) (auto intro: server_ok_step)

section \<open>Who receives a message\<close>

lemma group_conversation:
  assumes "grp_ok g" "group_exists g gid" "linked g db"
  shows "(gid, u) \<in> set (cd_Members db) \<longleftrightarrow> member_exists g gid u"
  using assms by (auto simp: grp_ok_def group_ok_def linked_def)

text \<open>The active devices of a group's members.\<close>

definition group_devices :: "server \<Rightarrow> string \<Rightarrow> string set" where
  "group_devices s gid = {de_ID d | d. d \<in> set (ad_Devices (asy_db (sv_auth s))) \<and> de_RevokedAt d = None \<and> member_exists (sv_groups s) gid (de_UserID d)}"

lemma group_member_devices:
  assumes "server_ok s" "group_exists (sv_groups s) gid"
  shows "set (member_devices (cs_db (sv_chat s)) gid x) = group_devices s gid - {x}"
proof -
  have g: "grp_ok (sv_groups s)" "linked (sv_groups s) (cs_db (sv_chat s))"
    "cd_Devices (cs_db (sv_chat s)) = map chat_device (ad_Devices (asy_db (sv_auth s)))" using assms(1) by (auto simp: server_ok_def)
  show ?thesis
    by (auto simp: set_eq_iff in_member_devices g(3) group_conversation [OF g(1) assms(2) g(2)] group_devices_def chat_device_def)
qed


lemma fold_insert_rows:
  "(set rows \<subseteq> set (fold (\<lambda>d. inbox_insert (row d)) ds rows)) \<and>
   (\<forall>d\<in>set ds. \<exists>x\<in>set (fold (\<lambda>d. inbox_insert (row d)) ds rows). ib_key x = ib_key (row d))"
proof (induction ds arbitrary: rows)
  case (Cons d ds)
  let ?r = "inbox_insert (row d) rows"
  have "set rows \<subseteq> set ?r" "\<exists>x\<in>set ?r. ib_key x = ib_key (row d)" by (auto simp: inbox_insert_def image_iff)
  with Cons.IH [of ?r] show ?case by (fastforce simp del: fold_simps(2) simp add: fold_simps(2))
qed simp

lemma Accept_recipients:
  assumes "Accept lib e q c = (Inr r, out, c')" "\<not> as_Deduped r"
  obtains res where "Store_Accept (params_of (ce_now e) q) (cs_db c) = Inr (res, cs_db c')" "as_Seq r = sr_Seq res"
    "map fst out = filter (\<lambda>d. \<not> ce_pubFails e d) (sr_RecipientDeviceIDs res)"
proof (cases "accept_claim lib e q (cs_dedupe c)")
  case (Pair a m)
  show thesis
  proof (cases a)
    case None
    from accept_store_cases [of e q "c\<lparr>cs_dedupe := m\<rparr>"] show thesis
    proof (elim disjE exE conjE)
      fix res db'
      assume "accept_store e q (c\<lparr>cs_dedupe := m\<rparr>) = (Inr res, c\<lparr>cs_dedupe := m\<rparr>\<lparr>cs_db := db'\<rparr>)"
        "Store_Accept (params_of (ce_now e) q) (cs_db (c\<lparr>cs_dedupe := m\<rparr>)) = Inr (res, db')"
      then show thesis using assms(1) Pair None by (intro that [of res]) (auto simp: Accept_def accept_finish_def comp_def)
    qed (use assms(1) Pair None in \<open>auto simp: Accept_def\<close>)
  next
    case (Some x)
    with Pair assms show thesis by (auto simp: Accept_def accept_claim_def split: option.splits if_splits claim_result.splits prod.splits)
  qed
qed

lemma Accept_silent:
  assumes "Accept lib e q c = (res, out, c')" "\<not> (\<exists>r. res = Inr r \<and> \<not> as_Deduped r)"
  shows "out = []"
  using assms by (auto simp: Accept_def accept_finish_def split: prod.splits option.splits sum.splits)

lemma Store_Accept_rows:
  assumes "Store_Accept p db = Inr (res, db')" "d \<in> set (sr_RecipientDeviceIDs res)"
  shows "\<exists>x\<in>set (cd_Inbox db'). ib_Device x = d \<and> ib_Conversation x = ap_ConversationID p \<and> ib_Seq x = sr_Seq res \<and> ib_MsgUUID x = ap_MsgUUID p"
proof -
  obtain row where "cd_Inbox db' = fold (\<lambda>d. inbox_insert (row d)) (sr_RecipientDeviceIDs res) (cd_Inbox db)"
    "\<And>d. ib_key (row d) = (d, ap_ConversationID p, sr_Seq res, ap_MsgUUID p)"
    using assms(1) by (auto simp: Store_Accept_def Let_def ib_key_def split: if_splits option.splits)
  with fold_insert_rows [of "cd_Inbox db" row "sr_RecipientDeviceIDs res"] assms(2) show ?thesis by (fastforce simp: ib_key_def)
qed

lemma Store_Accept_only:
  assumes "Store_Accept p db = Inr (res, db')" "x \<in> set (cd_Inbox db')"
  shows "x \<in> set (cd_Inbox db) \<or> ib_Device x \<in> set (sr_RecipientDeviceIDs res)"
proof -
  have fold: "y \<in> set (fold (\<lambda>d. inbox_insert (row d)) ds rows) \<Longrightarrow> y \<in> set rows \<or> y \<in> row ` set ds" for y row ds rows
    by (induction ds arbitrary: rows) (force simp: inbox_insert_def split: if_splits)+
  obtain row where rows: "cd_Inbox db' = fold (\<lambda>d. inbox_insert (row d)) (sr_RecipientDeviceIDs res) (cd_Inbox db)" "\<And>d. ib_Device (row d) = d"
    using assms(1) by (auto simp: Store_Accept_def Let_def split: if_splits option.splits)
  from fold assms(2) [unfolded rows(1)] have "x \<in> set (cd_Inbox db) \<or> x \<in> row ` set (sr_RecipientDeviceIDs res)" .
  then show ?thesis using rows(2) by auto
qed

section \<open>Revoked devices\<close>

definition revoked_device :: "string \<Rightarrow> auth_db \<Rightarrow> bool" where
  "revoked_device i db \<longleftrightarrow> (\<exists>d\<in>set (ad_Devices db). de_ID d = i \<and> de_RevokedAt d \<noteq> None)"

lemma revoked_device_map:
  assumes "revoked_device i db" "ad_Devices db' = map f (ad_Devices db)" "\<And>d. de_ID (f d) = de_ID d"
    "\<And>d. de_RevokedAt d \<noteq> None \<Longrightarrow> de_RevokedAt (f d) \<noteq> None"
  shows "revoked_device i db'"
  using assms unfolding revoked_device_def by auto

lemma revoked_device_trans: "auth_trans db db' \<Longrightarrow> revoked_device i db \<Longrightarrow> revoked_device i db'"
proof (induction rule: auth_trans.induct)
  case (t_register p db r db')
  from t_register(1) show ?case by (rule Register_frame) (use t_register(2) in \<open>auto simp: revoked_device_def\<close>)
next
  case (t_rotate j old new t db okay db')
  from t_rotate(1) show ?case by (rule Rotate_sessions) (use t_rotate(2) in \<open>simp add: revoked_device_def\<close>)
next
  case (t_rename db u j n)
  then show ?case by (rule revoked_device_map [where f = "\<lambda>d. if owned_active u j d then d\<lparr>de_Name := n\<rparr> else d"]) (auto simp: Device_Rename_def)
next
  case (t_revoke_device db u j t)
  show ?case
  proof (cases "list_ex (owned_active u j) (ad_Devices db)")
    case True
    show ?thesis by (rule revoked_device_map [OF t_revoke_device, where f = "\<lambda>d. if owned_active u j d then d\<lparr>de_RevokedAt := Some t\<rparr> else d"])
      (auto simp: RevokeDevice_def True)
  qed (use t_revoke_device in \<open>simp add: RevokeDevice_def\<close>)
next
  case (t_approve p db db')
  obtain d db1 where "ins_device d db = Some db1" "db' = db1\<lparr>ad_Links := map (approved p) (ad_Links db1)\<rparr>"
    using ApproveLink_Inr [OF t_approve(2)] by blast
  with t_approve(3) show ?case by (auto simp: revoked_device_def dest!: ins_device_Some)
qed (auto simp: revoked_device_def Challenges_Create_def IncrementAttempts_def MarkVerified_def Attempts_Record_def SetPINHash_def
    Sessions_Revoke_def CreateLink_def Sessions_Create_def ins_session_def ConsumeLink_def split: if_splits)

lemma revoked_device_star: "auth_trans_star db db' \<Longrightarrow> revoked_device i db \<Longrightarrow> revoked_device i db'"
  by (induction rule: rtranclp_induct) (auto intro: revoked_device_trans)

lemma revoked_device_step: "server_step lib s s' \<Longrightarrow> revoked_device i (asy_db (sv_auth s)) \<Longrightarrow> revoked_device i (asy_db (sv_auth s'))"
  by (induction rule: server_step.induct) (auto simp: with_auth_def intro: revoked_device_star [OF auth_step_trans])

lemma revoked_device_steps:
  "(server_step lib)\<^sup>*\<^sup>* s s' \<Longrightarrow> revoked_device i (asy_db (sv_auth s)) \<Longrightarrow> revoked_device i (asy_db (sv_auth s'))"
  by (induction rule: rtranclp_induct) (auto intro: revoked_device_step)

lemma Dev_Revoke_revoked:
  assumes "Dev_Revoke e ident d s = (Inr (), ev, s')"
  shows "revoked_device d (asy_db s')"
proof -
  have "RevokeDevice (UserID ident) d (au_now e) (asy_db s) = (True, asy_db s')"
    using assms by (auto simp: Dev_Revoke_def split: if_splits prod.splits bool.splits)
  note t = RevokeDevice_True [OF this]
  from t(1) obtain x where x: "x \<in> set (ad_Devices (asy_db s))" "owned_active (UserID ident) d x" by (auto simp: list_ex_iff)
  let ?f = "\<lambda>x. if owned_active (UserID ident) d x then x\<lparr>de_RevokedAt := Some (au_now e)\<rparr> else x"
  have "?f x \<in> set (ad_Devices (asy_db s'))" unfolding t(4) set_map using x(1) by (rule imageI)
  moreover have "de_ID (?f x) = d" "de_RevokedAt (?f x) \<noteq> None" using x(2) by (simp_all add: owned_active_def)
  ultimately show ?thesis unfolding revoked_device_def by blast
qed

lemma revoked_not_recipient:
  assumes "server_ok s" "revoked_device i (asy_db (sv_auth s))"
  shows "i \<notin> set (member_devices (cs_db (sv_chat s)) conv x)"
proof
  assume "i \<in> set (member_devices (cs_db (sv_chat s)) conv x)"
  moreover have "cd_Devices (cs_db (sv_chat s)) = map chat_device (ad_Devices (asy_db (sv_auth s)))" using assms(1) by (simp add: server_ok_def)
  ultimately obtain d where d: "d \<in> set (ad_Devices (asy_db (sv_auth s)))" "de_ID d = i" "de_RevokedAt d = None"
    by (auto simp: in_member_devices chat_device_def)
  moreover obtain d' where "d' \<in> set (ad_Devices (asy_db (sv_auth s)))" "de_ID d' = i" "de_RevokedAt d' \<noteq> None"
    using assms(2) by (auto simp: revoked_device_def)
  moreover have "inj_on de_ID (set (ad_Devices (asy_db (sv_auth s))))"
    using assms(1) by (simp add: server_ok_def auth_ok_def tbl_wf_def distinct_map)
  ultimately show False by (metis inj_onD)
qed

end
