(* ===== verification/ServerProps.thy ===== *)
theory ServerProps
  imports Server ChatProps
begin

text \<open>
  Properties of the components together: who receives a message, whatever requests of groups, chat, authentication and devices
  came before it.
\<close>

section \<open>Inputs of the witnesses\<close>

text \<open>Alice and Bob, with a device each, in group \<open>c1\<close>.\<close>

definition ex_two_users :: server where
  "ex_two_users =
     \<lparr>sv_groups = \<lparr>groups_tbl = [\<lparr>gr_ID = ''c1'', gr_Name = ''G'', gr_Description = [], gr_AvatarRef = [],
          gr_Settings = DefaultSettings, gr_Version = 1, gr_CreatedBy = ''ua'', gr_CreatedAt = 0\<rparr>],
        group_members_tbl = [\<lparr>mb_GroupID = ''c1'', mb_UserID = ''ua'', mb_Role = RoleOwner, mb_JoinedAt = 0\<rparr>,
          \<lparr>mb_GroupID = ''c1'', mb_UserID = ''ub'', mb_Role = RoleMember, mb_JoinedAt = 0\<rparr>],
        invite_links_tbl = [], conversations_tbl = [''c1''], conversation_members_tbl = [(''c1'', ''ua''), (''c1'', ''ub'')]\<rparr>,
      sv_chat = ex_chat,
      sv_auth = \<lparr>asy_db = empty_auth_db\<lparr>
          ad_Users := map (\<lambda>u. \<lparr>us_ID = u, us_PhoneHash = u, us_PINHash = [], us_Status = 0, us_Deleted = False\<rparr>) [''ua'', ''ub''],
          ad_Devices := map (\<lambda>(d, u). \<lparr>de_ID = d, de_UserID = u, de_IsPrimary = True, de_Platform = 0, de_Name = ''n'', de_IdentityKey = ''k'',
            de_Cert = ''k'', de_RegisteredAt = 0, de_LastActiveAt = None, de_RevokedAt = None\<rparr>) [(''da'', ''ua''), (''db'', ''ub'')]\<rparr>,
        asy_limiter = Map.empty\<rparr>\<rparr>"

lemma ex_two_groups: "grp_ok (sv_groups ex_two_users)"
  by (auto simp: grp_ok_def group_ok_def ex_two_users_def tbl_wf_def mb_key_def group_exists_def members_of_def is_owner_def
      role_defs Role_Valid_def member_exists_def MaxMembers_def)

lemma ex_two_auth: "auth_ok (asy_db (sv_auth ex_two_users))"
  by (auto simp: auth_ok_def ex_two_users_def empty_auth_db_def tbl_wf_def active_devices_def maxDevicesPerUser_def)

lemma ex_two_ok: "server_ok ex_two_users"
  using ex_two_groups ex_two_auth
  by (auto simp: server_ok_def linked_def) (auto simp: ex_two_users_def ex_chat_def ex_chat_db_def conv_exists_def chat_device_def)

section \<open>Properties\<close>

text \<open>
C2. A message reaches exactly the group: whatever requests of groups, chat, authentication and devices have been served in
whatever order, a message that is accepted for a group comes from a member of the group, is stored in the inbox of every active
device of every current member except the sending device, and is published to exactly those of them that the broker accepts.
\<close>

theorem group_message_reaches_members:
  assumes "server_ok s0" "(server_step lib)\<^sup>*\<^sup>* s0 s" "group_exists (sv_groups s) (aq_ConversationID q)"
    "Accept lib e q (sv_chat s) = (Inr r, out, c')" "\<not> as_Deduped r"
  shows "member_exists (sv_groups s) (aq_ConversationID q) (aq_SenderUserID q) \<and>
    fst ` set out = {d \<in> group_devices s (aq_ConversationID q). d \<noteq> aq_SenderDeviceID q \<and> \<not> ce_pubFails e d} \<and>
    (\<forall>d\<in>group_devices s (aq_ConversationID q) - {aq_SenderDeviceID q}. \<exists>x\<in>set (cd_Inbox (cs_db c')). ib_Device x = d \<and>
       ib_Conversation x = aq_ConversationID q \<and> ib_Seq x = as_Seq r \<and> ib_MsgUUID x = aq_MsgUUID q)"
proof -
  have ok: "server_ok s" using server_ok_steps assms(1,2) by blast
  obtain res where st: "Store_Accept (params_of (ce_now e) q) (cs_db (sv_chat s)) = Inr (res, cs_db c')" and seq: "as_Seq r = sr_Seq res"
    and out: "map fst out = filter (\<lambda>d. \<not> ce_pubFails e d) (sr_RecipientDeviceIDs res)"
    using Accept_recipients [OF assms(4,5)] by blast
  have rcp: "set (sr_RecipientDeviceIDs res) = group_devices s (aq_ConversationID q) - {aq_SenderDeviceID q}"
    using group_member_devices [OF ok assms(3)] Store_Accept_frame(2) [OF st] by (simp add: params_of_def)
  have "member_exists (sv_groups s) (aq_ConversationID q) (aq_SenderUserID q)"
    using group_conversation [OF _ assms(3)] Store_Accept_frame(1) [OF st] ok by (auto simp: server_ok_def params_of_def)
  moreover have "fst ` set out = {d \<in> group_devices s (aq_ConversationID q). d \<noteq> aq_SenderDeviceID q \<and> \<not> ce_pubFails e d}"
    using arg_cong [OF out, of set] rcp by auto
  ultimately show ?thesis using Store_Accept_rows [OF st] rcp seq by (simp add: params_of_def)
qed

theorem group_message_reaches_members_witness:
  "fst ` set [(''db'', live_item 0 (ex_msg ''m'') 1)] = {d \<in> group_devices ex_two_users ''c1''. d \<noteq> ''da''}"
proof -
  have "Accept ex_uuid (ex_cenv 0) (ex_msg ''m'') (sv_chat ex_two_users) =
    (Inr \<lparr>as_Seq = 1, as_ServerTimeMS = 0, as_RecipientCount = 1, as_Deduped = False\<rparr>, [(''db'', live_item 0 (ex_msg ''m'') 1)], ex_chat1)"
    using ex_accept by (simp add: ex_two_users_def)
  moreover have "group_exists (sv_groups ex_two_users) (aq_ConversationID (ex_msg ''m''))"
    by (simp add: ex_two_users_def ex_msg_def group_exists_def)
  ultimately show ?thesis
    using group_message_reaches_members [OF ex_two_ok rtranclp.rtrancl_refl] by (fastforce simp: ex_msg_def ex_cenv_def)
qed

text \<open>
C14. A revoked device hears nothing: from the moment its owner has revoked a device, whatever requests of groups, chat,
authentication and devices follow, no message of any conversation is published to it or added to its inbox.
\<close>

theorem revoked_device_hears_nothing:
  assumes "server_ok s0" "Dev_Revoke e0 ident d (sv_auth s0) = (Inr (), ev, a)" "(server_step lib)\<^sup>*\<^sup>* (with_auth a s0) s"
    "Accept lib e q (sv_chat s) = (res, out, c')"
  shows "d \<notin> fst ` set out \<and>
    (\<forall>x\<in>set (cd_Inbox (cs_db c')). ib_Device x = d \<longrightarrow> x \<in> set (cd_Inbox (cs_db (sv_chat s))))"
proof -
  have "with_auth a s0 = with_auth (auth_step (sv_auth s0) (ARevoke e0 ident d)) s0" using assms(2) by simp
  then have "server_ok (with_auth a s0)" using server_ok_step [OF auth_request assms(1)] by metis
  then have ok: "server_ok s" using server_ok_steps assms(3) by blast
  have "revoked_device d (asy_db (sv_auth (with_auth a s0)))" using Dev_Revoke_revoked [OF assms(2)] by (simp add: with_auth_def)
  then have rev: "revoked_device d (asy_db (sv_auth s))" using revoked_device_steps assms(3) by blast
  show ?thesis
  proof (cases "\<exists>r. res = Inr r \<and> \<not> as_Deduped r")
    case False
    then have "cs_db c' = cs_db (sv_chat s)" using Accept_cases [of lib e q "sv_chat s"] assms(4) by auto
    then show ?thesis using Accept_silent [OF assms(4) False] by simp
  next
    case True
    then obtain r where r: "res = Inr r" "\<not> as_Deduped r" by blast
    obtain sr where st: "Store_Accept (params_of (ce_now e) q) (cs_db (sv_chat s)) = Inr (sr, cs_db c')"
      and out: "map fst out = filter (\<lambda>d. \<not> ce_pubFails e d) (sr_RecipientDeviceIDs sr)"
      using Accept_recipients [OF assms(4) [unfolded r(1)] r(2)] by blast
    have "d \<notin> set (sr_RecipientDeviceIDs sr)" using revoked_not_recipient [OF ok rev] Store_Accept_frame(2) [OF st] by simp
    then show ?thesis using arg_cong [OF out, of set] Store_Accept_only [OF st] by auto
  qed
qed

definition ex_revoking :: auth_env where
  "ex_revoking = \<lparr>au_now = 1, au_fails = (\<lambda>_. False), au_entropy = [], au_id1 = ''x'', au_id2 = ''y'', au_id3 = ''z'',
     au_issue = (\<lambda>_ _ _. None), au_channel = ChannelMock, au_pepper = [], au_refreshTTL = Hour,
     au_crypto = \<lparr>cr_hmac = (\<lambda>_ s. s), cr_sha256 = (\<lambda>s. s), cr_argonVersion = 19, cr_argon = (\<lambda>_ _ _ _ _ n. replicate n (CHR ''x''))\<rparr>\<rparr>"

theorem revoked_device_hears_nothing_witness:
  "let s1 = with_auth (snd (snd (Dev_Revoke ex_revoking \<lparr>UserID = ''ub'', DeviceID = ''dx'', SessionID = ''s''\<rparr> ''db'' (sv_auth ex_two_users)))) ex_two_users
   in ''db'' \<notin> fst ` set (fst (snd (Accept ex_uuid (ex_cenv 0) (ex_msg ''m'') (sv_chat s1))))"
proof -
  let ?i = "\<lparr>UserID = ''ub'', DeviceID = ''dx'', SessionID = ''s''\<rparr> :: identity"
  let ?a = "snd (snd (Dev_Revoke ex_revoking ?i ''db'' (sv_auth ex_two_users)))"
  let ?c = "sv_chat (with_auth ?a ex_two_users)"
  have r: "Dev_Revoke ex_revoking ?i ''db'' (sv_auth ex_two_users) = (Inr (), [DeviceRevoked ''ub'' ''db''], ?a)"
    by (simp add: Dev_Revoke_def RevokeDevice_def ex_revoking_def ex_two_users_def owned_active_def)
  have a: "Accept ex_uuid (ex_cenv 0) (ex_msg ''m'') ?c = (fst (Accept ex_uuid (ex_cenv 0) (ex_msg ''m'') ?c),
      fst (snd (Accept ex_uuid (ex_cenv 0) (ex_msg ''m'') ?c)), snd (snd (Accept ex_uuid (ex_cenv 0) (ex_msg ''m'') ?c)))" by simp
  from revoked_device_hears_nothing [OF ex_two_ok r rtranclp.rtrancl_refl a] show ?thesis by (simp add: Let_def)
qed

end
