(* ===== verification/GatewayConn.thy ===== *)
theory GatewayConn
  imports ChatService
begin

text \<open>
  One WebSocket connection of the gateway: the replay gate (\<^verbatim>\<open>gateway/replay.go\<close>), the bounded outbound queue and the
  write pump (\<^verbatim>\<open>gateway/conn.go\<close>), the feeds and the replay of \<^verbatim>\<open>gateway/server.go\<close>, and the coalescing of receipts
  (\<^verbatim>\<open>gateway/receipts.go\<close>). Frames are values: their protobuf encoding is a library's, and the frame ids, which are
  there for tracing only, are left out.

  Live deliveries, the replay, the write pump and the read loop run concurrently. The gate is under a lock, the
  queue is a channel, and a delivery subscription calls its handler one message at a time; so each delivery, each replayed
  batch, the end of the replay, each written frame and each client frame is one step, in any order. A live item that finds
  the gate open is queued after the lock is released; by then the replay is over, so only frames of other feeds can get
  between.
\<close>

section \<open>The replay gate\<close>

definition maxReplayBuffer :: nat where "maxReplayBuffer = 1024"

record replay_gate =
  rg_open :: bool
  rg_seen :: "(string \<times> int) list"
  rg_buffered :: "inbox_item list"

definition newReplayGate :: "bool \<Rightarrow> replay_gate" where
  "newReplayGate open = \<lparr>rg_open = open, rg_seen = [], rg_buffered = []\<rparr>"

text \<open>A Go map gives 0 for a key that is missing.\<close>

definition seen_at :: "(string \<times> int) list \<Rightarrow> string \<Rightarrow> int" where
  "seen_at m conv = (case map_of m conv of None \<Rightarrow> 0 | Some n \<Rightarrow> n)"

definition holdLive :: "inbox_item \<Rightarrow> replay_gate \<Rightarrow> (bool \<times> bool) \<times> replay_gate" where
  "holdLive item g =
     (if rg_open g then ((True, False), g)
      else if length (rg_buffered g) \<ge> maxReplayBuffer then ((False, True), g)
      else ((False, False), g\<lparr>rg_buffered := rg_buffered g @ [item]\<rparr>))"

definition advance1 :: "inbox_item \<Rightarrow> (string \<times> int) list \<Rightarrow> (string \<times> int) list" where
  "advance1 it m = (if ii_Seq it > seen_at m (ii_ConversationID it) then AList.update (ii_ConversationID it) (ii_Seq it) m else m)"

definition advance :: "inbox_item list \<Rightarrow> replay_gate \<Rightarrow> replay_gate" where
  "advance items g = g\<lparr>rg_seen := fold advance1 items (rg_seen g)\<rparr>"

definition item_key :: "inbox_item \<Rightarrow> string \<times> int" where
  "item_key it = (ii_ConversationID it, ii_Seq it)"

text \<open>The items of a sorted buffer that the watermark does not cover, each advancing it.\<close>

fun uncovered :: "(string \<times> int) list \<Rightarrow> inbox_item list \<Rightarrow> inbox_item list \<times> (string \<times> int) list" where
  "uncovered m [] = ([], m)"
| "uncovered m (it # its) =
     (if ii_Seq it \<le> seen_at m (ii_ConversationID it) then uncovered m its
      else let (p, m') = uncovered (AList.update (ii_ConversationID it) (ii_Seq it) m) its in (it # p, m'))"

text \<open>
  The items to flush and the gate afterwards, given what the flush answers. The list to flush shares the array of the
  buffer, so a refused flush leaves it written over the front of the buffer.
\<close>

definition finish :: "(inbox_item list \<Rightarrow> bool) \<Rightarrow> replay_gate \<Rightarrow> bool \<times> replay_gate" where
  "finish flush g =
     (let sorted = sort_key item_key (rg_buffered g);
          (pending, seen) = uncovered (rg_seen g) sorted
      in if pending \<noteq> [] \<and> \<not> flush pending
         then (False, g\<lparr>rg_seen := seen, rg_buffered := pending @ drop (length pending) sorted\<rparr>)
         else (True, \<lparr>rg_open = True, rg_seen = [], rg_buffered = []\<rparr>))"

section \<open>Connections\<close>

datatype frame =
    FError string
  | FPong int
  | FMsgAck accept_result
  | FItems "inbox_item list" bool bool
  | FReceipt receipt_out
  | FCall string
  | FPresence string bool int
  | FTyping string string bool
  | FChannelEvent string string

text \<open>What the client sends, as far as this connection is concerned.\<close>

record msg_send =
  ms_ConversationID :: string
  ms_MsgUUID :: string
  ms_Kind :: msg_kind
  ms_OverlayTarget :: string
  ms_Ciphertext :: string

text \<open>Calls to core-api, with the identity the connection has authenticated.\<close>

datatype rpc =
    RpcAccept string string msg_send
  | RpcAck string "cursor list"
  | RpcReceipt string string receipt_in

datatype accept_reply = ReplyAck accept_result | ReplyError string | ReplyTransport

definition outboundQueueSize :: nat where "outboundQueueSize = 512"

definition CloseBadHandshake :: nat where "CloseBadHandshake = 4400"
definition CloseAuthExpired :: nat where "CloseAuthExpired = 4401"
definition CloseRevoked :: nat where "CloseRevoked = 4403"
definition CloseReplaced :: nat where "CloseReplaced = 4409"
definition CloseDrain :: nat where "CloseDrain = 1012"
definition CloseSlowConsumer :: nat where "CloseSlowConsumer = 1013"
definition StatusNormalClosure :: nat where "StatusNormalClosure = 1000"
definition StatusGoingAway :: nat where "StatusGoingAway = 1001"
definition StatusInternalError :: nat where "StatusInternalError = 1011"

text \<open>
  \<open>cn_sent\<close> is what has been written to the socket, \<open>cn_calls\<close> the calls made to core-api. \<open>cn_closed\<close> holds the first
  close code: closing again does nothing.
\<close>

record conn =
  cn_deviceID :: string
  cn_userID :: string
  cn_outbound :: "frame list"
  cn_gate :: replay_gate
  cn_replaying :: bool
  cn_rcoal :: coalescer
  cn_closed :: "nat option"
  cn_sent :: "frame list"
  cn_calls :: "rpc list"

definition new_conn :: "string \<Rightarrow> string \<Rightarrow> bool \<Rightarrow> conn" where
  "new_conn deviceID userID willReplay =
     \<lparr>cn_deviceID = deviceID, cn_userID = userID, cn_outbound = [], cn_gate = newReplayGate (\<not> willReplay),
      cn_replaying = willReplay, cn_rcoal = [], cn_closed = None, cn_sent = [], cn_calls = []\<rparr>"

definition Conn_Close :: "nat \<Rightarrow> conn \<Rightarrow> conn" where
  "Conn_Close code c = (if cn_closed c = None then c\<lparr>cn_closed := Some code\<rparr> else c)"

definition Deliver :: "frame \<Rightarrow> conn \<Rightarrow> bool \<times> conn" where
  "Deliver f c =
     (if length (cn_outbound c) < outboundQueueSize then (True, c\<lparr>cn_outbound := cn_outbound c @ [f]\<rparr>) else (False, c))"

text \<open>A frame that must not be lost, and one that may be.\<close>

definition deliver_or_close :: "frame \<Rightarrow> conn \<Rightarrow> conn" where
  "deliver_or_close f c = (case Deliver f c of (True, c1) \<Rightarrow> c1 | (False, c1) \<Rightarrow> Conn_Close CloseSlowConsumer c1)"

definition deliver_or_drop :: "frame \<Rightarrow> conn \<Rightarrow> conn" where
  "deliver_or_drop f c = snd (Deliver f c)"

text \<open>The write pump takes one frame; a write on a closed socket fails.\<close>

definition writePump :: "bool \<Rightarrow> conn \<Rightarrow> conn" where
  "writePump writeFails c =
     (case cn_outbound c of
        [] \<Rightarrow> c
      | f # fs \<Rightarrow>
         if writeFails \<or> cn_closed c \<noteq> None then Conn_Close StatusGoingAway (c\<lparr>cn_outbound := fs\<rparr>)
         else c\<lparr>cn_outbound := fs, cn_sent := cn_sent c @ [f]\<rparr>)"

section \<open>Feeds\<close>

record delivery =
  dl_Item :: "inbox_item option"
  dl_RecipientDeviceID :: string

text \<open>\<open>None\<close> is a payload the protobuf decoder rejects.\<close>

definition decodeDelivery :: "delivery option \<Rightarrow> string \<Rightarrow> inbox_item option" where
  "decodeDelivery payload deviceID =
     (case payload of
        None \<Rightarrow> None
      | Some d \<Rightarrow>
         (case dl_Item d of
            None \<Rightarrow> None
          | Some it \<Rightarrow> if dl_RecipientDeviceID d \<noteq> [] \<and> dl_RecipientDeviceID d \<noteq> deviceID then None else Some it))"

definition decodeReceipt :: "receipt_out option \<Rightarrow> receipt_out option" where
  "decodeReceipt payload =
     (case payload of
        None \<Rightarrow> None
      | Some r \<Rightarrow> if ro_ConversationID r = [] \<or> ro_UpToSeq r \<le> 0 then None else Some r)"

definition on_delivery :: "delivery option \<Rightarrow> conn \<Rightarrow> conn" where
  "on_delivery payload c =
     (case decodeDelivery payload (cn_deviceID c) of
        None \<Rightarrow> c
      | Some item \<Rightarrow>
         let ((deliver, overflow), g) = holdLive item (cn_gate c);
             c1 = c\<lparr>cn_gate := g\<rparr>
         in if overflow then Conn_Close CloseSlowConsumer c1
            else if \<not> deliver then c1
            else deliver_or_close (FItems [item] False False) c1)"

definition on_receipt :: "receipt_out option \<Rightarrow> conn \<Rightarrow> conn" where
  "on_receipt payload c = (case decodeReceipt payload of None \<Rightarrow> c | Some r \<Rightarrow> deliver_or_drop (FReceipt r) c)"

definition on_call :: "string option \<Rightarrow> conn \<Rightarrow> conn" where
  "on_call payload c = (case payload of None \<Rightarrow> c | Some f \<Rightarrow> deliver_or_drop (FCall f) c)"

section \<open>Replay\<close>

text \<open>The callback that core-api's stream calls for each batch, its end, and its failure. A replay that is over takes no part any more.\<close>

definition replay_batch :: "inbox_item list \<Rightarrow> conn \<Rightarrow> conn" where
  "replay_batch items c =
     (if \<not> cn_replaying c then c
      else
        let c1 = c\<lparr>cn_gate := advance items (cn_gate c)\<rparr>
        in case Deliver (FItems items True False) c1 of
             (True, c2) \<Rightarrow> c2
           | (False, c2) \<Rightarrow> Conn_Close CloseSlowConsumer (c2\<lparr>cn_replaying := False\<rparr>))"

definition replay_done :: "conn \<Rightarrow> conn" where
  "replay_done c =
     (if \<not> cn_replaying c then c
      else case Deliver (FItems [] True True) (c\<lparr>cn_replaying := False\<rparr>) of
        (False, c1) \<Rightarrow> Conn_Close CloseSlowConsumer c1
      | (True, c1) \<Rightarrow>
          let flush = (\<lambda>items. fst (Deliver (FItems items False False) c1));
              pending = fst (uncovered (rg_seen (cn_gate c1)) (sort_key item_key (rg_buffered (cn_gate c1))));
              (ok, g) = finish flush (cn_gate c1);
              c2 = (if pending = [] then c1 else snd (Deliver (FItems pending False False) c1))\<lparr>cn_gate := g\<rparr>
          in if ok then c2 else Conn_Close CloseSlowConsumer c2)"

definition replay_failed :: "bool \<Rightarrow> conn \<Rightarrow> conn" where
  "replay_failed ctxDone c =
     (if \<not> cn_replaying c then c
      else if ctxDone then c\<lparr>cn_replaying := False\<rparr>
      else Conn_Close StatusInternalError (c\<lparr>cn_replaying := False\<rparr>))"

section \<open>Client frames\<close>

definition handleMsgSend :: "accept_reply \<Rightarrow> msg_send \<Rightarrow> conn \<Rightarrow> conn" where
  "handleMsgSend reply msg c =
     (let c1 = c\<lparr>cn_calls := cn_calls c @ [RpcAccept (cn_userID c) (cn_deviceID c) msg]\<rparr>
      in deliver_or_close
           (case reply of
              ReplyTransport \<Rightarrow> FError ''TRANSIENT_UNAVAILABLE''
            | ReplyError code \<Rightarrow> FError code
            | ReplyAck ack \<Rightarrow> FMsgAck ack) c1)"

definition handleClientAck :: "cursor list \<Rightarrow> conn \<Rightarrow> conn" where
  "handleClientAck upTo c =
     (if upTo = [] then c else c\<lparr>cn_calls := cn_calls c @ [RpcAck (cn_deviceID c) upTo]\<rparr>)"

text \<open>The coalescer of the gateway is that of chat with a guard against junk.\<close>

definition rcoal_submit :: "string \<Rightarrow> receipt_kind \<Rightarrow> int \<Rightarrow> coalescer \<Rightarrow> coalescer" where
  "rcoal_submit conv kind seq m =
     (if conv = [] \<or> seq \<le> 0 \<or> (kind \<noteq> ReceiptDelivered \<and> kind \<noteq> ReceiptRead) then m else Submit conv kind seq m)"

definition receipt_flush :: "conn \<Rightarrow> conn" where
  "receipt_flush c =
     (let (rs, m) = Drain (cn_rcoal c)
      in c\<lparr>cn_rcoal := m, cn_calls := cn_calls c @ map (RpcReceipt (cn_userID c) (cn_deviceID c)) rs\<rparr>)"

section \<open>Steps\<close>

datatype conn_op =
    CLive "delivery option"
  | CReceipt "receipt_out option"
  | CCall "string option"
  | CReplay "inbox_item list"
  | CReplayDone
  | CReplayFailed bool
  | CWrite bool
  | CPing int
  | CMsgSend accept_reply msg_send
  | CClientAck "cursor list"
  | CReceiptIn string receipt_kind int
  | CFlush
  | CPresence string bool int
  | CTyping string string bool
  | CChannelEvent string string
  | CClose nat

fun conn_step :: "conn \<Rightarrow> conn_op \<Rightarrow> conn" where
  "conn_step c (CLive p) = on_delivery p c"
| "conn_step c (CReceipt p) = on_receipt p c"
| "conn_step c (CCall p) = on_call p c"
| "conn_step c (CReplay items) = replay_batch items c"
| "conn_step c CReplayDone = replay_done c"
| "conn_step c (CReplayFailed ctxDone) = replay_failed ctxDone c"
| "conn_step c (CWrite fails) = writePump fails c"
| "conn_step c (CPing ts) = deliver_or_close (FPong ts) c"
| "conn_step c (CMsgSend reply msg) = handleMsgSend reply msg c"
| "conn_step c (CClientAck upTo) = handleClientAck upTo c"
| "conn_step c (CReceiptIn conv kind seq) = c\<lparr>cn_rcoal := rcoal_submit conv kind seq (cn_rcoal c)\<rparr>"
| "conn_step c CFlush = receipt_flush c"
| "conn_step c (CPresence u online seen) = deliver_or_drop (FPresence u online seen) c"
| "conn_step c (CTyping u conv rec) = deliver_or_drop (FTyping u conv rec) c"
| "conn_step c (CChannelEvent ch post) = deliver_or_drop (FChannelEvent ch post) c"
| "conn_step c (CClose code) = Conn_Close code c"

text \<open>The inbox items among frames.\<close>

fun frame_items :: "frame \<Rightarrow> inbox_item list" where
  "frame_items (FItems items r d) = items"
| "frame_items _ = []"

definition sent_items :: "conn \<Rightarrow> inbox_item list" where
  "sent_items c = concat (map frame_items (cn_sent c @ cn_outbound c))"

end
