(* ===== verification/GatewayReplay.thy ===== *)
theory GatewayReplay
  imports GatewayConn
begin

text \<open>
  What a connection sends while its inbox is replayed and live traffic arrives: the replayed items, then the live items the
  replay did not cover, then live traffic as it comes.
\<close>

section \<open>The watermark\<close>

definition watermark :: "inbox_item list \<Rightarrow> string \<Rightarrow> int" where
  "watermark items conv = fold max (map ii_Seq (filter (\<lambda>i. ii_ConversationID i = conv) items)) 0"

lemma seen_at_update: "seen_at (AList.update k v m) conv = (if conv = k then v else seen_at m conv)"
  by (simp add: seen_at_def update_conv')

lemma seen_at_advance:
  "seen_at (fold advance1 items m) conv = fold max (map ii_Seq (filter (\<lambda>i. ii_ConversationID i = conv) items)) (seen_at m conv)"
proof (induction items arbitrary: m)
  case (Cons it items)
  have "seen_at (advance1 it m) conv = (if ii_ConversationID it = conv then max (ii_Seq it) (seen_at m conv) else seen_at m conv)"
    by (auto simp: advance1_def seen_at_update)
  with Cons show ?case by simp
qed simp

lemma watermark_seen: "seen_at (fold advance1 items []) conv = watermark items conv"
  unfolding seen_at_advance watermark_def by (simp add: seen_at_def)

lemma fold_max_ge: "(x::int) \<le> fold max xs x \<and> (\<forall>y\<in>set xs. y \<le> fold max xs x)"
proof (induction xs arbitrary: x)
  case (Cons y xs)
  from Cons [of "max y x"] show ?case by (auto simp: max_def split: if_splits) 
qed simp

lemma watermark_ge: "i \<in> set items \<Longrightarrow> ii_Seq i \<le> watermark items (ii_ConversationID i)"
  using fold_max_ge [of 0 "map ii_Seq (filter (\<lambda>j. ii_ConversationID j = ii_ConversationID i) items)"] by (auto simp: watermark_def)

section \<open>The flush\<close>

lemma uncovered_spec:
  assumes "sorted (map item_key xs)" "uncovered m xs = (p, m')"
  shows "set p \<subseteq> set xs \<and> (\<forall>i\<in>set p. seen_at m (ii_ConversationID i) < ii_Seq i) \<and> sorted_wrt (<) (map item_key p) \<and>
    (\<forall>i\<in>set xs. seen_at m (ii_ConversationID i) < ii_Seq i \<longrightarrow> item_key i \<in> item_key ` set p)"
  using assms
proof (induction xs arbitrary: m p m')
  case (Cons it xs)
  note srt = Cons.prems(1)
  show ?case
  proof (cases "ii_Seq it \<le> seen_at m (ii_ConversationID it)")
    case True
    then show ?thesis using Cons.IH [of m p m'] Cons.prems by auto
  next
    case False
    let ?m = "AList.update (ii_ConversationID it) (ii_Seq it) m"
    obtain p1 where u: "uncovered ?m xs = (p1, m')" and p: "p = it # p1"
      using Cons.prems(2) False by (auto simp: Let_def split: prod.splits)
    have IH: "set p1 \<subseteq> set xs" "\<forall>i\<in>set p1. seen_at ?m (ii_ConversationID i) < ii_Seq i" "sorted_wrt (<) (map item_key p1)"
      "\<forall>i\<in>set xs. seen_at ?m (ii_ConversationID i) < ii_Seq i \<longrightarrow> item_key i \<in> item_key ` set p1"
      using Cons.IH [OF _ u] srt by auto
    have "item_key it < item_key i" if "i \<in> set p1" for i
    proof -
      have "item_key it \<le> item_key i" using srt IH(1) that by auto
      moreover have "item_key it \<noteq> item_key i" using IH(2) that by (auto simp: item_key_def seen_at_update)
      ultimately show ?thesis by simp
    qed
    moreover have "seen_at m (ii_ConversationID i) < ii_Seq i" if "i \<in> set p1" for i
      using IH(2) that False by (cases "ii_ConversationID i = ii_ConversationID it") (force simp: seen_at_update)+
    moreover have "item_key i \<in> item_key ` set p" if "i \<in> set xs" "seen_at m (ii_ConversationID i) < ii_Seq i" for i
    proof (cases "item_key i = item_key it")
      case False
      have "item_key it \<le> item_key i" using srt that(1) by auto
      with False have "seen_at ?m (ii_ConversationID i) < ii_Seq i" using that(2)
        by (auto simp: seen_at_update item_key_def less_eq_prod_def)
      then show ?thesis using IH(4) that(1) by (auto simp: p)
    qed (simp add: p)
    ultimately show ?thesis using False IH by (auto simp: p)
  qed
qed simp

definition flushed :: "inbox_item list \<Rightarrow> inbox_item list \<Rightarrow> inbox_item list" where
  "flushed replayed held = fst (uncovered (fold advance1 replayed []) (sort_key item_key held))"

lemma flushed_spec:
  "set (flushed replayed held) \<subseteq> set held" "sorted_wrt (<) (map item_key (flushed replayed held))"
  "item_key ` set (flushed replayed held) = {item_key i | i. i \<in> set held \<and> watermark replayed (ii_ConversationID i) < ii_Seq i}"
  "i \<in> set (flushed replayed held) \<Longrightarrow> watermark replayed (ii_ConversationID i) < ii_Seq i"
proof -
  obtain p m' where u: "uncovered (fold advance1 replayed []) (sort_key item_key held) = (p, m')" by fastforce
  have s: "set p \<subseteq> set held" "\<forall>i\<in>set p. watermark replayed (ii_ConversationID i) < ii_Seq i" "sorted_wrt (<) (map item_key p)"
    "\<forall>i\<in>set held. watermark replayed (ii_ConversationID i) < ii_Seq i \<longrightarrow> item_key i \<in> item_key ` set p"
    using uncovered_spec [OF _ u] by (simp_all add: watermark_seen)
  have f: "flushed replayed held = p" using u by (simp add: flushed_def)
  show "set (flushed replayed held) \<subseteq> set held" "sorted_wrt (<) (map item_key (flushed replayed held))"
    "i \<in> set (flushed replayed held) \<Longrightarrow> watermark replayed (ii_ConversationID i) < ii_Seq i" using s f by auto
  show "item_key ` set (flushed replayed held) = {item_key i | i. i \<in> set held \<and> watermark replayed (ii_ConversationID i) < ii_Seq i}"
    using s f by auto
qed

lemma flush_order:
  assumes "\<forall>conv. sorted_wrt (<) (map ii_Seq (filter (\<lambda>i. ii_ConversationID i = conv) replayed))"
  shows "sorted_wrt (<) (map ii_Seq (filter (\<lambda>i. ii_ConversationID i = conv) (replayed @ flushed replayed held)))"
proof -
  let ?f = "filter (\<lambda>i. ii_ConversationID i = conv)"
  have "sorted_wrt (\<lambda>x y. item_key x < item_key y) (?f (flushed replayed held))"
    using flushed_spec(2) [of replayed held] by (intro sorted_wrt_filter) (simp add: sorted_wrt_map)
  then have "sorted_wrt (\<lambda>x y. ii_Seq x < ii_Seq y) (?f (flushed replayed held))"
    by (rule sorted_wrt_mono_rel [rotated]) (auto simp: item_key_def less_prod_def)
  moreover have "ii_Seq x < ii_Seq y" if "x \<in> set (?f replayed)" "y \<in> set (?f (flushed replayed held))" for x y
    using watermark_ge [of x replayed] flushed_spec(4) [of y replayed held] that by force
  ultimately show ?thesis using assms by (auto simp: sorted_wrt_append sorted_wrt_map)
qed

section \<open>Steps of a connection\<close>

definition lives :: "string \<Rightarrow> conn_op list \<Rightarrow> inbox_item list" where
  "lives d ops = concat (map (\<lambda>op. case op of CLive p \<Rightarrow> opt_list (decodeDelivery p d) | _ \<Rightarrow> []) ops)"

definition replayed :: "conn_op list \<Rightarrow> inbox_item list" where
  "replayed ops = concat (map (\<lambda>op. case op of CReplay items \<Rightarrow> items | _ \<Rightarrow> []) ops)"

definition ends_replay :: "conn_op \<Rightarrow> bool" where
  "ends_replay op \<longleftrightarrow> (case op of CReplayDone \<Rightarrow> True | CReplayFailed b \<Rightarrow> True | _ \<Rightarrow> False)"

lemmas conn_defs = on_delivery_def on_receipt_def on_call_def replay_batch_def replay_failed_def writePump_def deliver_or_close_def
  deliver_or_drop_def handleMsgSend_def handleClientAck_def receipt_flush_def Deliver_def Conn_Close_def Let_def

lemma Conn_Close_closed: "cn_closed (Conn_Close code c) \<noteq> None"
  by (simp add: Conn_Close_def)

lemma closed_stays: "cn_closed c \<noteq> None \<Longrightarrow> cn_closed (conn_step c op) \<noteq> None"
  by (cases op) (auto simp: conn_defs replay_done_def holdLive_def finish_def split: option.splits list.splits prod.splits bool.splits)

lemma closed_stays_run: "cn_closed c \<noteq> None \<Longrightarrow> cn_closed (run conn_step c ops) \<noteq> None"
proof (induction ops arbitrary: c)
  case (Cons op ops)
  from Cons.IH [OF closed_stays [OF Cons.prems]] show ?case by simp
qed simp

text \<open>While the replay runs.\<close>

definition replaying :: "string \<Rightarrow> inbox_item list \<Rightarrow> inbox_item list \<Rightarrow> conn \<Rightarrow> bool" where
  "replaying d rs ls c \<longleftrightarrow> cn_deviceID c = d \<and> cn_replaying c \<and> \<not> rg_open (cn_gate c) \<and> rg_buffered (cn_gate c) = ls \<and>
     rg_seen (cn_gate c) = fold advance1 rs [] \<and> sent_items c = rs"

lemma replaying_step:
  assumes "replaying d rs ls c" "\<not> ends_replay op" "cn_closed (conn_step c op) = None"
  shows "replaying d (rs @ replayed [op]) (ls @ lives d [op]) (conn_step c op)"
  using assms
  by (cases op) (auto simp: conn_defs holdLive_def advance_def replaying_def replayed_def lives_def ends_replay_def sent_items_def opt_list_def
      split: option.splits list.splits if_splits prod.splits accept_reply.splits)

text \<open>After it.\<close>

definition flowing :: "string \<Rightarrow> inbox_item list \<Rightarrow> conn \<Rightarrow> bool" where
  "flowing d is c \<longleftrightarrow> cn_deviceID c = d \<and> \<not> cn_replaying c \<and> rg_open (cn_gate c) \<and> sent_items c = is"

lemma flowing_step:
  assumes "flowing d is c" "cn_closed (conn_step c op) = None"
  shows "flowing d (is @ lives d [op]) (conn_step c op)"
  using assms
  by (cases op) (auto simp: conn_defs replay_done_def holdLive_def flowing_def lives_def sent_items_def opt_list_def
      split: option.splits list.splits if_splits prod.splits accept_reply.splits)

lemma replaying_done:
  assumes "replaying d rs ls c" "cn_closed (conn_step c CReplayDone) = None"
  shows "flowing d (rs @ flushed rs ls) (conn_step c CReplayDone)"
proof -
  obtain p m where u: "uncovered (fold advance1 rs []) (sort_key item_key ls) = (p, m)" by fastforce
  with assms show ?thesis
    by (auto simp: replay_done_def replaying_def flowing_def finish_def flushed_def Deliver_def Conn_Close_def sent_items_def Let_def
        split: if_splits)
qed

lemma replaying_run:
  "replaying d rs ls c \<Longrightarrow> \<forall>op\<in>set ops. \<not> ends_replay op \<Longrightarrow> cn_closed (run conn_step c ops) = None \<Longrightarrow>
   replaying d (rs @ replayed ops) (ls @ lives d ops) (run conn_step c ops)"
proof (induction ops arbitrary: c rs ls)
  case (Cons op ops)
  have "cn_closed (conn_step c op) = None" using Cons.prems(3) closed_stays_run by (metis run.simps(2))
  from Cons.IH [OF replaying_step [OF Cons.prems(1) _ this]] Cons.prems(2,3) show ?case
    by (simp add: replayed_def lives_def del: conn_step.simps)
qed (simp add: replayed_def lives_def)

lemma flowing_run:
  "flowing d is c \<Longrightarrow> cn_closed (run conn_step c ops) = None \<Longrightarrow> flowing d (is @ lives d ops) (run conn_step c ops)"
proof (induction ops arbitrary: c "is")
  case (Cons op ops)
  have "cn_closed (conn_step c op) = None" using Cons.prems(2) closed_stays_run by (metis run.simps(2))
  from Cons.IH [OF flowing_step [OF Cons.prems(1) this]] Cons.prems(2) show ?case by (simp add: lives_def del: conn_step.simps)
qed (simp add: lives_def)

lemma replaying_new: "replaying d [] [] (new_conn d u True)"
  by (simp add: replaying_def new_conn_def newReplayGate_def sent_items_def)

lemma replay_run:
  assumes "cn_closed (run conn_step (new_conn d u True) (pre @ CReplayDone # post)) = None" "\<forall>op\<in>set pre. \<not> ends_replay op"
  shows "sent_items (run conn_step (new_conn d u True) (pre @ CReplayDone # post)) =
    replayed pre @ flushed (replayed pre) (lives d pre) @ lives d post"
proof -
  let ?c1 = "run conn_step (new_conn d u True) pre" and ?c2 = "conn_step (run conn_step (new_conn d u True) pre) CReplayDone"
  have run: "run conn_step (new_conn d u True) (pre @ CReplayDone # post) = run conn_step ?c2 post" by (simp add: run_append)
  have c2: "cn_closed ?c2 = None" using assms(1) closed_stays_run unfolding run by blast
  then have c1: "cn_closed ?c1 = None" using closed_stays by blast
  have "replaying d (replayed pre) (lives d pre) ?c1" using replaying_run [OF replaying_new assms(2) c1] by simp
  from flowing_run [OF replaying_done [OF this c2]] assms(1) show ?thesis by (simp add: run flowing_def del: conn_step.simps)
qed

end
