(* ===== verification/GatewayRoutes.thy ===== *)
theory GatewayRoutes
  imports GatewayConn AuthDomain "HOL-Library.Word"
begin

unbundle bit_operations_syntax

text \<open>
  The gateway's pods: the sharded registry of connections (\<^verbatim>\<open>gateway/registry.go\<close>), the routing table in Valkey
  (\<^verbatim>\<open>gateway/routes.go\<close>, \<^verbatim>\<open>gateway/adapters/valkey.go\<close>), resume tokens (\<^verbatim>\<open>gateway/resume.go\<close>,
  \<^verbatim>\<open>gateway/adapters/resume.go\<close>), and the life of a connection in \<^verbatim>\<open>gateway/server.go\<close> as far as they are concerned.
  A connection stands for its pointer, a number here.
\<close>

section \<open>Registry\<close>

definition shardCount :: nat where "shardCount = 256"

text \<open>32-bit FNV-1a.\<close>

definition fnv32a :: "string \<Rightarrow> 32 word" where
  "fnv32a s = fold (\<lambda>b h. (h XOR word_of_nat (of_char b)) * 16777619) s 2166136261"

type_synonym registry = "(string \<times> nat) list list"

definition NewRegistry :: registry where "NewRegistry = replicate shardCount []"

definition shardFor :: "string \<Rightarrow> nat" where
  "shardFor deviceID = unat (fnv32a deviceID) mod shardCount"

definition Registry_Get :: "string \<Rightarrow> registry \<Rightarrow> nat option" where
  "Registry_Get d r = map_of (r ! shardFor d) d"

definition Registry_Add :: "string \<Rightarrow> nat \<Rightarrow> registry \<Rightarrow> nat option \<times> registry" where
  "Registry_Add d c r =
     (let i = shardFor d; old = map_of (r ! i) d
      in (if old = Some c then None else old, r[i := AList.update d c (r ! i)]))"

definition Registry_Remove :: "string \<Rightarrow> nat \<Rightarrow> registry \<Rightarrow> bool \<times> registry" where
  "Registry_Remove d c r =
     (let i = shardFor d
      in if map_of (r ! i) d \<noteq> Some c then (False, r) else (True, r[i := AList.delete d (r ! i)]))"

definition Registry_Count :: "registry \<Rightarrow> nat" where
  "Registry_Count r = sum_list (map length r)"

definition shard_ok :: "nat \<Rightarrow> (string \<times> nat) list \<Rightarrow> bool" where
  "shard_ok i m \<longleftrightarrow> distinct (map fst m) \<and> (\<forall>d\<in>fst ` set m. shardFor d = i)"

definition registry_ok :: "registry \<Rightarrow> bool" where
  "registry_ok r \<longleftrightarrow> length r = shardCount \<and> (\<forall>i < shardCount. shard_ok i (r ! i))"

lemma shardFor_less: "shardFor d < shardCount"
  by (simp add: shardFor_def shardCount_def)

lemma registry_ok_new: "registry_ok NewRegistry"
  by (simp add: registry_ok_def NewRegistry_def shard_ok_def)

lemma Registry_Get_new: "Registry_Get d NewRegistry = None"
  using shardFor_less [of d] by (simp add: Registry_Get_def NewRegistry_def)

lemma registry_ok_upd: "registry_ok r \<Longrightarrow> shard_ok i m \<Longrightarrow> registry_ok (r[i := m])"
  by (cases "i < length r") (auto simp: registry_ok_def nth_list_update)

lemma registry_shard: "registry_ok r \<Longrightarrow> shard_ok (shardFor d) (r ! shardFor d)"
  using shardFor_less [of d] by (simp add: registry_ok_def)

lemma Registry_Add_ok: "registry_ok r \<Longrightarrow> registry_ok (snd (Registry_Add d c r))"
  using registry_shard [of r d]
  by (auto simp: Registry_Add_def Let_def shard_ok_def dom_update distinct_update intro!: registry_ok_upd)

lemma Registry_Remove_ok: "registry_ok r \<Longrightarrow> registry_ok (snd (Registry_Remove d c r))"
  using registry_shard [of r d]
  by (auto simp: Registry_Remove_def Let_def shard_ok_def distinct_map_filter AList.delete_eq intro!: registry_ok_upd)

lemma Registry_Add_displaced: "fst (Registry_Add d c r) = (if Registry_Get d r = Some c then None else Registry_Get d r)"
  by (simp add: Registry_Add_def Registry_Get_def Let_def)

lemma Registry_Remove_removed: "fst (Registry_Remove d c r) \<longleftrightarrow> Registry_Get d r = Some c"
  by (simp add: Registry_Remove_def Registry_Get_def Let_def)

text \<open>The shards together are one map.\<close>

lemma Registry_Get_Add: "registry_ok r \<Longrightarrow> Registry_Get x (snd (Registry_Add d c r)) = (if x = d then Some c else Registry_Get x r)"
  using shardFor_less [of d]
  by (auto simp: registry_ok_def Registry_Get_def Registry_Add_def Let_def nth_list_update update_conv')

lemma Registry_Get_Remove:
  "registry_ok r \<Longrightarrow> Registry_Get x (snd (Registry_Remove d c r)) = (if x = d \<and> Registry_Get d r = Some c then None else Registry_Get x r)"
  using shardFor_less [of d]
  by (auto simp: registry_ok_def Registry_Get_def Registry_Remove_def Let_def nth_list_update delete_conv')

lemma Registry_Count_card:
  assumes "registry_ok r"
  shows "Registry_Count r = card {d. Registry_Get d r \<noteq> None}"
proof -
  let ?S = "\<lambda>i. fst ` set (r ! i)"
  have ok: "\<And>i. i < shardCount \<Longrightarrow> shard_ok i (r ! i)" and len: "length r = shardCount" using assms by (auto simp: registry_ok_def)
  have "{d. Registry_Get d r \<noteq> None} = (\<Union>i\<in>{..< shardCount}. ?S i)"
  proof (intro equalityI subsetI)
    fix d assume "d \<in> (\<Union>i\<in>{..< shardCount}. ?S i)"
    then obtain i where i: "i < shardCount" "d \<in> ?S i" by auto
    then have "shardFor d = i" using ok by (auto simp: shard_ok_def)
    then show "d \<in> {d. Registry_Get d r \<noteq> None}" using i(2) by (simp add: Registry_Get_def map_of_eq_None_iff)
  qed (use shardFor_less in \<open>auto simp: Registry_Get_def map_of_eq_None_iff\<close>)
  also have "card \<dots> = (\<Sum>i\<in>{..< shardCount}. card (?S i))"
  proof (rule card_UN_disjoint)
    show "\<forall>i\<in>{..< shardCount}. \<forall>j\<in>{..< shardCount}. i \<noteq> j \<longrightarrow> ?S i \<inter> ?S j = {}"
      using ok unfolding shard_ok_def disjoint_iff by (metis lessThan_iff)
  qed simp_all
  also have "\<dots> = (\<Sum>i\<in>{..< shardCount}. length (r ! i))"
    using ok by (intro sum.cong refl) (metis distinct_card length_map lessThan_iff set_map shard_ok_def)
  also have "\<dots> = Registry_Count r"
    by (simp add: Registry_Count_def len sum_list_sum_nth atLeast0LessThan)
  finally show ?thesis by simp
qed

section \<open>Routes\<close>

type_synonym routes = "string \<Rightarrow> (string \<times> int) option"

definition route_get :: "int \<Rightarrow> string \<Rightarrow> routes \<Rightarrow> string option" where
  "route_get now d m = (case m d of None \<Rightarrow> None | Some (pod, expires) \<Rightarrow> if now < expires then Some pod else None)"

definition Route_Claim :: "int \<Rightarrow> string \<Rightarrow> string \<Rightarrow> int \<Rightarrow> routes \<Rightarrow> routes" where
  "Route_Claim now d pod ttl m = m(d \<mapsto> (pod, now + ttl))"

definition Route_Refresh :: "int \<Rightarrow> string \<Rightarrow> string \<Rightarrow> int \<Rightarrow> routes \<Rightarrow> bool \<times> routes" where
  "Route_Refresh now d pod ttl m = (if route_get now d m = Some pod then (True, m(d \<mapsto> (pod, now + ttl))) else (False, m))"

definition Route_Release :: "int \<Rightarrow> string \<Rightarrow> string \<Rightarrow> routes \<Rightarrow> routes" where
  "Route_Release now d pod m = (if route_get now d m = Some pod then m(d := None) else m)"

section \<open>Resume tokens\<close>

definition resumeTokenTTL :: duration where "resumeTokenTTL = 30 * 24 * Hour"

definition NewResumeToken :: "string \<Rightarrow> string option" where
  "NewResumeToken entropy = map_option (\<lambda>(b, rest). RawURL_Encode b) (ReadFull 32 entropy)"

definition HashResumeToken :: "crypto \<Rightarrow> string \<Rightarrow> string" where
  "HashResumeToken cr token = hex_encode (cr_sha256 cr token)"

type_synonym resume_store = "string \<Rightarrow> (string \<times> instant) option"

record resume_env =
  rs_now :: instant
  rs_crypto :: crypto
  rs_entropy :: string
  rs_getFails :: bool
  rs_setFails :: bool

definition Resume_Validate :: "resume_env \<Rightarrow> string \<Rightarrow> string \<Rightarrow> resume_store \<Rightarrow> bool option" where
  "Resume_Validate e d token m =
     (if rs_getFails e then None
      else case m d of
        None \<Rightarrow> Some False
      | Some (stored, expires) \<Rightarrow> Some (rs_now e < expires \<and> stored = HashResumeToken (rs_crypto e) token))"

definition Resume_Rotate :: "resume_env \<Rightarrow> string \<Rightarrow> duration \<Rightarrow> resume_store \<Rightarrow> string option \<times> resume_store" where
  "Resume_Rotate e d ttl m =
     (case NewResumeToken (rs_entropy e) of
        None \<Rightarrow> (None, m)
      | Some token \<Rightarrow>
         if rs_setFails e then (None, m) else (Some token, m(d \<mapsto> (HashResumeToken (rs_crypto e) token, rs_now e + ttl))))"

record hello =
  he_AccessJwt :: string
  he_ResumeToken :: string
  he_LastCursors :: "cursor list"

text \<open>\<open>wired\<close> tells whether the server has a resume store.\<close>

definition applyResume :: "bool \<Rightarrow> resume_env \<Rightarrow> string \<Rightarrow> hello \<Rightarrow> resume_store \<Rightarrow> (cursor list \<times> string) \<times> resume_store" where
  "applyResume wired e d h m =
     (if \<not> wired then (([], []), m)
      else
        let cursors = (if he_ResumeToken h \<noteq> [] \<and> Resume_Validate e d (he_ResumeToken h) m = Some True then he_LastCursors h else []);
            (token, m1) = Resume_Rotate e d resumeTokenTTL m
        in ((cursors, case token of None \<Rightarrow> [] | Some t \<Rightarrow> t), m1))"

section \<open>Handshake\<close>

text \<open>
  \<open>frame\<close> is what was read: nothing readable, a frame that is not a hello, or a hello. The verifier and the authorizer
  are parameters.
\<close>

datatype first_frame = ReadFailed | NotHello | Hello hello

datatype handshake_result = HandshakeClosed nat "frame option" | HandshakeOK identity hello

definition handshake ::
  "(string \<Rightarrow> identity option) \<Rightarrow> (identity \<Rightarrow> bool option) \<Rightarrow> first_frame \<Rightarrow> handshake_result" where
  "handshake verify authorize fr =
     (case fr of
        ReadFailed \<Rightarrow> HandshakeClosed CloseBadHandshake None
      | NotHello \<Rightarrow> HandshakeClosed CloseBadHandshake (Some (FError ''VALIDATION_HANDSHAKE''))
      | Hello h \<Rightarrow>
         if he_AccessJwt h = [] then HandshakeClosed CloseBadHandshake (Some (FError ''VALIDATION_HANDSHAKE''))
         else case verify (he_AccessJwt h) of
           None \<Rightarrow> HandshakeClosed CloseAuthExpired (Some (FError ''AUTH_TOKEN_EXPIRED''))
         | Some ident \<Rightarrow>
            (case authorize ident of
               None \<Rightarrow> HandshakeClosed StatusInternalError None
             | Some False \<Rightarrow> HandshakeClosed CloseRevoked (Some (FError ''AUTH_DEVICE_REVOKED''))
             | Some True \<Rightarrow> HandshakeOK ident h))"

section \<open>Feeds of a new connection\<close>

datatype feed = FeedDelivery | FeedReceipts | FeedCalls

text \<open>
  The subscriptions that \<^verbatim>\<open>Handle\<close> opens in turn, given which the server has, which of them fail, and whether the
  acknowledgement can be written: whether the connection goes on, and the subscriptions that are left.
\<close>

definition open_feeds :: "(feed \<Rightarrow> bool) \<Rightarrow> (feed \<Rightarrow> bool) \<Rightarrow> bool \<Rightarrow> bool \<times> feed list" where
  "open_feeds has fails ackFails =
     (if has FeedDelivery \<and> fails FeedDelivery then (False, [])
      else
        let s1 = (if has FeedDelivery then [FeedDelivery] else [])
        in if has FeedReceipts \<and> fails FeedReceipts then (False, s1)
           else
             let s2 = s1 @ (if has FeedReceipts then [FeedReceipts] else [])
             in if has FeedCalls \<and> fails FeedCalls then (False, [])
                else if ackFails then (False, [])
                else (True, s2 @ (if has FeedCalls then [FeedCalls] else [])))"

section \<open>Pods\<close>

datatype conn_phase = PClaimed | PServing | PReleasing | PGone

record gconn =
  gc_id :: nat
  gc_device :: string
  gc_pod :: string
  gc_phase :: conn_phase
  gc_displaced :: bool
  gc_closed :: "nat option"

record pods =
  pd_clock :: int
  pd_routes :: routes
  pd_regs :: "string \<Rightarrow> registry"
  pd_conns :: "gconn list"

definition empty_pods :: pods where
  "empty_pods = \<lparr>pd_clock = 0, pd_routes = Map.empty, pd_regs = (\<lambda>_. NewRegistry), pd_conns = []\<rparr>"

definition upd_conn :: "nat \<Rightarrow> (gconn \<Rightarrow> gconn) \<Rightarrow> pods \<Rightarrow> pods" where
  "upd_conn i f s = s\<lparr>pd_conns := tbl_upd gc_id i f (pd_conns s)\<rparr>"

definition close_conn :: "nat \<Rightarrow> gconn \<Rightarrow> gconn" where
  "close_conn code c = (if gc_closed c = None then c\<lparr>gc_closed := Some code\<rparr> else c)"

text \<open>The route of a new connection is claimed.\<close>

definition pods_claim :: "int \<Rightarrow> nat \<Rightarrow> string \<Rightarrow> string \<Rightarrow> pods \<Rightarrow> pods" where
  "pods_claim ttl i d pod s =
     (if i \<in> gc_id ` set (pd_conns s) then s
      else s\<lparr>pd_routes := Route_Claim (pd_clock s) d pod ttl (pd_routes s),
             pd_conns := pd_conns s @ [\<lparr>gc_id = i, gc_device = d, gc_pod = pod, gc_phase = PClaimed, gc_displaced = False, gc_closed = None\<rparr>]\<rparr>)"

text \<open>It is registered; the connection it displaces is going to be closed.\<close>

definition pods_add :: "nat \<Rightarrow> pods \<Rightarrow> pods" where
  "pods_add i s =
     (case tbl_get gc_id i (pd_conns s) of
        None \<Rightarrow> s
      | Some c \<Rightarrow>
         if gc_phase c \<noteq> PClaimed then s
         else
           let (displaced, r) = Registry_Add (gc_device c) i (pd_regs s (gc_pod c));
               s1 = upd_conn i (\<lambda>c. c\<lparr>gc_phase := PServing\<rparr>) (s\<lparr>pd_regs := (pd_regs s)(gc_pod c := r)\<rparr>)
           in case displaced of None \<Rightarrow> s1 | Some j \<Rightarrow> upd_conn j (\<lambda>c. c\<lparr>gc_displaced := True\<rparr>) s1)"

text \<open>The goroutine that closes a displaced connection.\<close>

definition pods_close_displaced :: "nat \<Rightarrow> pods \<Rightarrow> pods" where
  "pods_close_displaced i s = upd_conn i (\<lambda>c. if gc_displaced c then close_conn CloseReplaced c else c) s"

text \<open>One turn of the heartbeat after a ping that was answered; the refresh of the route may fail.\<close>

definition pods_heartbeat :: "int \<Rightarrow> bool \<Rightarrow> nat \<Rightarrow> pods \<Rightarrow> pods" where
  "pods_heartbeat ttl refreshFails i s =
     (case tbl_get gc_id i (pd_conns s) of
        None \<Rightarrow> s
      | Some c \<Rightarrow>
         if gc_phase c \<noteq> PServing \<or> gc_closed c \<noteq> None \<or> refreshFails then s
         else case Route_Refresh (pd_clock s) (gc_device c) (gc_pod c) ttl (pd_routes s) of
           (True, m) \<Rightarrow> s\<lparr>pd_routes := m\<rparr>
         | (False, m) \<Rightarrow> upd_conn i (close_conn CloseReplaced) s)"

text \<open>\<^verbatim>\<open>cleanup\<close>: the connection leaves the registry if it is still the registered one, and then its route is released.\<close>

definition pods_remove :: "nat \<Rightarrow> pods \<Rightarrow> pods" where
  "pods_remove i s =
     (case tbl_get gc_id i (pd_conns s) of
        None \<Rightarrow> s
      | Some c \<Rightarrow>
         if gc_phase c \<noteq> PServing then s
         else
           let (removed, r) = Registry_Remove (gc_device c) i (pd_regs s (gc_pod c))
           in upd_conn i (\<lambda>c. close_conn StatusNormalClosure (c\<lparr>gc_phase := if removed then PReleasing else PGone\<rparr>))
                (s\<lparr>pd_regs := (pd_regs s)(gc_pod c := r)\<rparr>))"

definition pods_release :: "bool \<Rightarrow> nat \<Rightarrow> pods \<Rightarrow> pods" where
  "pods_release fails i s =
     (case tbl_get gc_id i (pd_conns s) of
        None \<Rightarrow> s
      | Some c \<Rightarrow>
         if gc_phase c \<noteq> PReleasing then s
         else upd_conn i (\<lambda>c. c\<lparr>gc_phase := PGone\<rparr>)
           (s\<lparr>pd_routes := (if fails then pd_routes s else Route_Release (pd_clock s) (gc_device c) (gc_pod c) (pd_routes s))\<rparr>))"

datatype pods_op =
    PTick nat
  | PClaim nat string string
  | PAdd nat
  | PCloseDisplaced nat
  | PHeartbeat bool nat
  | PClose nat nat
  | PRemove nat
  | PRelease bool nat

fun pods_step :: "int \<Rightarrow> pods \<Rightarrow> pods_op \<Rightarrow> pods" where
  "pods_step ttl s (PTick n) = s\<lparr>pd_clock := pd_clock s + int n\<rparr>"
| "pods_step ttl s (PClaim i d pod) = pods_claim ttl i d pod s"
| "pods_step ttl s (PAdd i) = pods_add i s"
| "pods_step ttl s (PCloseDisplaced i) = pods_close_displaced i s"
| "pods_step ttl s (PHeartbeat fails i) = pods_heartbeat ttl fails i s"
| "pods_step ttl s (PClose code i) = upd_conn i (close_conn code) s"
| "pods_step ttl s (PRemove i) = pods_remove i s"
| "pods_step ttl s (PRelease fails i) = pods_release fails i s"

end
