(* ===== verification/GatewayPods.thy ===== *)
theory GatewayPods
  imports GatewayRoutes
begin

text \<open>
  Connections over several pods: a connection that serves and has not been displaced is the registered one of its device, so
  the cleanup of any other leaves it alone; and heartbeats close the connections of pods that have lost the route.
\<close>

section \<open>Invariant\<close>

definition live_conn :: "gconn \<Rightarrow> bool" where
  "live_conn c \<longleftrightarrow> gc_phase c = PServing \<and> \<not> gc_displaced c"

definition pods_ok :: "pods \<Rightarrow> bool" where
  "pods_ok s \<longleftrightarrow> tbl_wf gc_id (pd_conns s) \<and> (\<forall>p. registry_ok (pd_regs s p)) \<and>
     (\<forall>c\<in>set (pd_conns s). gc_phase c = PClaimed \<longrightarrow> \<not> gc_displaced c) \<and>
     (\<forall>p d i. Registry_Get d (pd_regs s p) = Some i \<longleftrightarrow>
        (\<exists>c\<in>set (pd_conns s). gc_id c = i \<and> gc_pod c = p \<and> gc_device c = d \<and> live_conn c))"

lemma pods_ok_empty: "pods_ok empty_pods"
  by (simp add: pods_ok_def empty_pods_def registry_ok_new Registry_Get_new)

text \<open>Changes that concern neither the registries nor who is live.\<close>

lemma pods_ok_frame:
  assumes "pods_ok s" "pd_regs s' = pd_regs s" "pd_conns s' = map f (pd_conns s)"
    "\<And>c. gc_id (f c) = gc_id c \<and> gc_pod (f c) = gc_pod c \<and> gc_device (f c) = gc_device c \<and> gc_phase (f c) = gc_phase c \<and>
      gc_displaced (f c) = gc_displaced c"
  shows "pods_ok s'"
proof -
  have "tbl_wf gc_id (pd_conns s')" using assms by (simp add: pods_ok_def tbl_wf_map)
  moreover have "(\<exists>c\<in>set (pd_conns s'). gc_id c = i \<and> gc_pod c = p \<and> gc_device c = d \<and> live_conn c) \<longleftrightarrow>
    (\<exists>c\<in>set (pd_conns s). gc_id c = i \<and> gc_pod c = p \<and> gc_device c = d \<and> live_conn c)" for i p d
    using assms(3,4) by (auto simp: live_conn_def)
  moreover have "\<forall>c\<in>set (pd_conns s'). gc_phase c = PClaimed \<longrightarrow> \<not> gc_displaced c"
    using assms by (auto simp: pods_ok_def)
  ultimately show ?thesis using assms(1,2) by (simp add: pods_ok_def)
qed

lemma upd_conn_map: "pd_conns (upd_conn i f s) = map (\<lambda>c. if gc_id c = i then f c else c) (pd_conns s)"
  by (simp add: upd_conn_def tbl_upd_def)

lemma upd_conn_rest [simp]: "pd_regs (upd_conn i f s) = pd_regs s" "pd_routes (upd_conn i f s) = pd_routes s" "pd_clock (upd_conn i f s) = pd_clock s"
  by (simp_all add: upd_conn_def)

lemma close_conn_rest [simp]: "gc_id (close_conn k c) = gc_id c" "gc_pod (close_conn k c) = gc_pod c" "gc_device (close_conn k c) = gc_device c"
  "live_conn (close_conn k c) = live_conn c" "gc_phase (close_conn k c) = gc_phase c" "gc_displaced (close_conn k c) = gc_displaced c"
  by (simp_all add: close_conn_def live_conn_def)

lemma pods_ok_close: "pods_ok s \<Longrightarrow> pods_ok (upd_conn i (close_conn k) s)"
  by (rule pods_ok_frame [OF _ _ upd_conn_map]) simp_all

lemma pods_ok_claim: "pods_ok s \<Longrightarrow> pods_ok (pods_claim ttl i d pod s)"
  by (auto simp: pods_claim_def pods_ok_def tbl_wf_def live_conn_def)

lemma conn_unique:
  assumes "pods_ok s" "x \<in> set (pd_conns s)" "y \<in> set (pd_conns s)" "gc_id x = gc_id y"
  shows "x = y"
  using assms by (auto simp: pods_ok_def tbl_wf_def distinct_map dest: inj_onD)

lemma registered_live:
  assumes "pods_ok s" "c \<in> set (pd_conns s)"
  shows "Registry_Get (gc_device c) (pd_regs s (gc_pod c)) = Some (gc_id c) \<longleftrightarrow> live_conn c"
  using assms conn_unique [OF assms(1)] unfolding pods_ok_def by metis

text \<open>The state after a registration or a removal, from its parts.\<close>

lemma pods_ok_regs:
  assumes ok: "pods_ok s" and conns: "pd_conns s' = map f (pd_conns s)" and regs: "pd_regs s' = (pd_regs s)(q := r)" "registry_ok r"
    and f: "\<And>c. gc_id (f c) = gc_id c \<and> gc_pod (f c) = gc_pod c \<and> gc_device (f c) = gc_device c"
      "\<And>c. c \<in> set (pd_conns s) \<Longrightarrow> gc_phase (f c) = PClaimed \<Longrightarrow> \<not> gc_displaced (f c)"
    and get: "\<And>c. c \<in> set (pd_conns s) \<Longrightarrow> gc_pod c \<noteq> q \<Longrightarrow> live_conn (f c) = live_conn c"
      "\<And>d i. Registry_Get d r = Some i \<longleftrightarrow> (\<exists>c\<in>set (pd_conns s). gc_id c = i \<and> gc_pod c = q \<and> gc_device c = d \<and> live_conn (f c))"
  shows "pods_ok s'"
proof -
  have "tbl_wf gc_id (pd_conns s')" using ok f(1) by (simp add: conns pods_ok_def tbl_wf_map)
  moreover have "\<forall>p. registry_ok (pd_regs s' p)" using ok regs by (simp add: pods_ok_def)
  moreover have "Registry_Get d (pd_regs s' p) = Some i \<longleftrightarrow> (\<exists>c\<in>set (pd_conns s'). gc_id c = i \<and> gc_pod c = p \<and> gc_device c = d \<and> live_conn c)" for p d i
  proof (cases "p = q")
    case True
    then show ?thesis using get(2) f(1) by (auto simp: conns regs(1))
  next
    case False
    then have "Registry_Get d (pd_regs s' p) = Some i \<longleftrightarrow> (\<exists>c\<in>set (pd_conns s). gc_id c = i \<and> gc_pod c = p \<and> gc_device c = d \<and> live_conn c)"
      using ok by (simp add: regs(1) pods_ok_def)
    also have "\<dots> \<longleftrightarrow> (\<exists>c\<in>set (pd_conns s'). gc_id c = i \<and> gc_pod c = p \<and> gc_device c = d \<and> live_conn c)"
      using get(1) f(1) False by (auto simp: conns)
    finally show ?thesis .
  qed
  moreover have "\<forall>c\<in>set (pd_conns s'). gc_phase c = PClaimed \<longrightarrow> \<not> gc_displaced c" using f(2) by (auto simp: conns)
  ultimately show ?thesis by (simp add: pods_ok_def)
qed

lemma pods_ok_add:
  assumes ok: "pods_ok s"
  shows "pods_ok (pods_add i s)"
proof (cases "\<exists>c. tbl_get gc_id i (pd_conns s) = Some c \<and> gc_phase c = PClaimed")
  case False
  then show ?thesis using ok by (auto simp: pods_add_def split: option.split)
next
  case True
  then obtain c where c: "tbl_get gc_id i (pd_conns s) = Some c" "gc_phase c = PClaimed" by blast
  have ci: "c \<in> set (pd_conns s)" "gc_id c = i" using tbl_get_Some [OF c(1)] by auto
  let ?d = "gc_device c" and ?q = "gc_pod c"
  let ?old = "Registry_Get ?d (pd_regs s ?q)"
  let ?f = "\<lambda>x. if gc_id x = i then x\<lparr>gc_phase := PServing\<rparr> else if Some (gc_id x) = ?old then x\<lparr>gc_displaced := True\<rparr> else x"
  have ne: "?old \<noteq> Some i" using registered_live [OF ok ci(1)] c(2) ci(2) by (auto simp: live_conn_def)
  have rok: "registry_ok (pd_regs s ?q)" using ok by (simp add: pods_ok_def)
  have nd: "\<not> gc_displaced c" using ok ci c(2) by (simp add: pods_ok_def)
  have fresh: "\<not> Some (gc_id x) = ?old" if "x \<in> set (pd_conns s)" "gc_pod x \<noteq> ?q \<or> gc_device x \<noteq> ?d" for x
    using ok conn_unique [OF ok that(1)] that(2) unfolding pods_ok_def by metis
  have waiting: "live_conn x" if "x \<in> set (pd_conns s)" "Some (gc_id x) = ?old" for x
    using registered_live [OF ok that(1)] that fresh by metis
  have me: "x = c" if "x \<in> set (pd_conns s)" "gc_id x = i" for x using conn_unique [OF ok that(1) ci(1)] that(2) ci(2) by simp
  show ?thesis
  proof (rule pods_ok_regs [OF ok, where f = ?f and q = ?q and r = "snd (Registry_Add ?d i (pd_regs s ?q))"])
    show "pd_conns (pods_add i s) = map ?f (pd_conns s)"
      using ne by (auto simp: pods_add_def c Let_def Registry_Add_displaced upd_conn_map case_prod_unfold split: option.split)
    show "pd_regs (pods_add i s) = (pd_regs s)(?q := snd (Registry_Add ?d i (pd_regs s ?q)))"
      using ne by (simp add: pods_add_def c Let_def case_prod_unfold split: option.split)
    show "registry_ok (snd (Registry_Add ?d i (pd_regs s ?q)))" using rok by (rule Registry_Add_ok)
    show "live_conn (?f x) = live_conn x" if "x \<in> set (pd_conns s)" "gc_pod x \<noteq> ?q" for x
      using fresh [OF that(1)] me [OF that(1)] that(2) by auto
    show "\<not> gc_displaced (?f x)" if "x \<in> set (pd_conns s)" "gc_phase (?f x) = PClaimed" for x
      using that ok waiting [OF that(1)] by (auto simp: pods_ok_def live_conn_def split: if_splits)
    show "Registry_Get d (snd (Registry_Add ?d i (pd_regs s ?q))) = Some j \<longleftrightarrow>
      (\<exists>x\<in>set (pd_conns s). gc_id x = j \<and> gc_pod x = ?q \<and> gc_device x = d \<and> live_conn (?f x))" for d j
    proof -
      have old: "Registry_Get d (pd_regs s ?q) = Some j \<longleftrightarrow> (\<exists>x\<in>set (pd_conns s). gc_id x = j \<and> gc_pod x = ?q \<and> gc_device x = d \<and> live_conn x)"
        for d j using ok by (simp add: pods_ok_def)
      show ?thesis
      proof (cases "d = ?d")
        case True
        have "live_conn (?f x) \<longleftrightarrow> gc_id x = i" if "x \<in> set (pd_conns s)" "gc_pod x = ?q" "gc_device x = ?d" for x
        proof (cases "gc_id x = i")
          case True
          then show ?thesis using me [OF that(1) True] nd by (simp add: live_conn_def)
        next
          case False
          have "live_conn x \<longleftrightarrow> ?old = Some (gc_id x)" using registered_live [OF ok that(1)] by (simp only: that)
          then show ?thesis using False by (auto simp: live_conn_def)
        qed
        then have "(\<exists>x\<in>set (pd_conns s). gc_id x = j \<and> gc_pod x = ?q \<and> gc_device x = ?d \<and> live_conn (?f x)) \<longleftrightarrow> j = i"
          using ci by metis
        then show ?thesis unfolding True by (auto simp: Registry_Get_Add [OF rok])
      next
        case False
        have "live_conn (?f x) = live_conn x" if "x \<in> set (pd_conns s)" "gc_pod x = ?q" "gc_device x = d" for x
          using fresh [OF that(1)] me [OF that(1)] that(3) False by auto
        then have "(\<exists>x\<in>set (pd_conns s). gc_id x = j \<and> gc_pod x = ?q \<and> gc_device x = d \<and> live_conn (?f x)) \<longleftrightarrow> Registry_Get d (pd_regs s ?q) = Some j"
          unfolding old by blast
        then show ?thesis using False by (simp only: Registry_Get_Add [OF rok] if_False)
      qed
    qed
  qed auto
qed

lemma pods_ok_remove:
  assumes ok: "pods_ok s"
  shows "pods_ok (pods_remove i s)"
proof (cases "\<exists>c. tbl_get gc_id i (pd_conns s) = Some c \<and> gc_phase c = PServing")
  case False
  then show ?thesis using ok by (auto simp: pods_remove_def split: option.split)
next
  case True
  then obtain c where c: "tbl_get gc_id i (pd_conns s) = Some c" "gc_phase c = PServing" by blast
  have ci: "c \<in> set (pd_conns s)" "gc_id c = i" using tbl_get_Some [OF c(1)] by auto
  let ?d = "gc_device c" and ?q = "gc_pod c"
  let ?r = "snd (Registry_Remove ?d i (pd_regs s ?q))"
  let ?f = "\<lambda>x. if gc_id x = i then close_conn StatusNormalClosure (x\<lparr>gc_phase := if fst (Registry_Remove ?d i (pd_regs s ?q)) then PReleasing else PGone\<rparr>) else x"
  have rok: "registry_ok (pd_regs s ?q)" using ok by (simp add: pods_ok_def)
  have me: "x = c" if "x \<in> set (pd_conns s)" "gc_id x = i" for x using conn_unique [OF ok that(1) ci(1)] that(2) ci(2) by simp
  have live: "live_conn (?f x) \<longleftrightarrow> live_conn x \<and> gc_id x \<noteq> i" for x by (simp add: live_conn_def)
  show ?thesis
  proof (rule pods_ok_regs [OF ok, where f = ?f and q = ?q and r = ?r])
    show "pd_conns (pods_remove i s) = map ?f (pd_conns s)" by (simp add: pods_remove_def c Let_def case_prod_unfold upd_conn_map)
    show "pd_regs (pods_remove i s) = (pd_regs s)(?q := ?r)" by (simp add: pods_remove_def c Let_def case_prod_unfold)
    show "registry_ok ?r" using rok by (rule Registry_Remove_ok)
    show "live_conn (?f x) = live_conn x" if "x \<in> set (pd_conns s)" "gc_pod x \<noteq> ?q" for x using me [OF that(1)] that(2) by auto
    show "\<not> gc_displaced (?f x)" if "x \<in> set (pd_conns s)" "gc_phase (?f x) = PClaimed" for x
      using that ok by (auto simp: pods_ok_def split: if_splits)
    show "Registry_Get d ?r = Some j \<longleftrightarrow> (\<exists>x\<in>set (pd_conns s). gc_id x = j \<and> gc_pod x = ?q \<and> gc_device x = d \<and> live_conn (?f x))" for d j
    proof -
      have old: "Registry_Get d (pd_regs s ?q) = Some j \<longleftrightarrow> (\<exists>x\<in>set (pd_conns s). gc_id x = j \<and> gc_pod x = ?q \<and> gc_device x = d \<and> live_conn x)"
        using ok by (simp add: pods_ok_def)
      have mine: "Registry_Get d (pd_regs s ?q) = Some i \<Longrightarrow> d = ?d" using ok me unfolding pods_ok_def by metis
      have "(\<exists>x\<in>set (pd_conns s). gc_id x = j \<and> gc_pod x = ?q \<and> gc_device x = d \<and> live_conn (?f x)) \<longleftrightarrow>
          Registry_Get d (pd_regs s ?q) = Some j \<and> j \<noteq> i"
        unfolding live old by blast
      also have "\<dots> \<longleftrightarrow> Registry_Get d ?r = Some j"
      proof (cases "Registry_Get d (pd_regs s ?q) = Some i")
        case True
        then show ?thesis using mine [OF True] unfolding Registry_Get_Remove [OF rok] by simp
      next
        case False
        then show ?thesis unfolding Registry_Get_Remove [OF rok] by (simp, blast)
      qed
      finally show ?thesis by (rule sym)
    qed
  qed simp_all
qed

lemma pods_ok_step: "pods_ok s \<Longrightarrow> pods_ok (pods_step ttl s op)"
proof (cases op)
  case (PHeartbeat fails i)
  assume ok: "pods_ok s"
  have "pods_ok (s\<lparr>pd_routes := m\<rparr>)" for m using ok by (simp add: pods_ok_def)
  then show ?thesis using ok pods_ok_close [OF ok] PHeartbeat
    by (auto simp: pods_heartbeat_def Route_Refresh_def split: option.split)
next
  case (PCloseDisplaced i)
  assume ok: "pods_ok s"
  show ?thesis unfolding PCloseDisplaced pods_step.simps pods_close_displaced_def
    by (rule pods_ok_frame [OF ok _ upd_conn_map]) simp_all
next
  case (PRelease fails i)
  assume ok: "pods_ok s"
  have "pods_ok (upd_conn i (\<lambda>c. c\<lparr>gc_phase := PGone\<rparr>) (s\<lparr>pd_routes := m\<rparr>))"
    if "tbl_get gc_id i (pd_conns s) = Some c" "gc_phase c = PReleasing" for m c
  proof (rule pods_ok_regs [OF ok, where q = "[]" and r = "pd_regs s []" and f = "\<lambda>x. if gc_id x = i then x\<lparr>gc_phase := PGone\<rparr> else x"])
    have c: "c \<in> set (pd_conns s)" "gc_id c = i" using tbl_get_Some [OF that(1)] by auto
    have live: "live_conn (if gc_id x = i then x\<lparr>gc_phase := PGone\<rparr> else x) = live_conn x" if "x \<in> set (pd_conns s)" for x
      using conn_unique [OF ok that c(1)] c(2) \<open>gc_phase c = PReleasing\<close> by (auto simp: live_conn_def)
    then show "live_conn (if gc_id x = i then x\<lparr>gc_phase := PGone\<rparr> else x) = live_conn x" if "x \<in> set (pd_conns s)" for x using that by blast
    show "Registry_Get d (pd_regs s []) = Some j \<longleftrightarrow>
      (\<exists>x\<in>set (pd_conns s). gc_id x = j \<and> gc_pod x = [] \<and> gc_device x = d \<and> live_conn (if gc_id x = i then x\<lparr>gc_phase := PGone\<rparr> else x))" for d j
      using ok live unfolding pods_ok_def by (metis (no_types, lifting))
  qed (use ok in \<open>auto simp: upd_conn_map pods_ok_def split: if_splits\<close>)
  then show ?thesis using ok PRelease by (auto simp: pods_release_def split: option.split)
next
  case (PTick n)
  assume "pods_ok s"
  then show ?thesis by (simp add: PTick pods_ok_def)
qed (simp_all add: pods_ok_close pods_ok_claim pods_ok_add pods_ok_remove)

interpretation pods_inv: invariant_system "pods_step ttl" pods_ok for ttl
  by unfold_locales (rule pods_ok_step)

section \<open>A round of heartbeats\<close>

lemma heartbeat_route:
  "0 < ttl \<Longrightarrow> route_get (pd_clock s) d (pd_routes (pods_heartbeat ttl b i s)) = route_get (pd_clock s) d (pd_routes s) \<and>
   pd_clock (pods_heartbeat ttl b i s) = pd_clock s"
  by (auto simp: pods_heartbeat_def Route_Refresh_def route_get_def split: option.split)

text \<open>A connection of \<open>is\<close> that is open is on the pod that owns the route.\<close>

definition checked :: "nat set \<Rightarrow> pods \<Rightarrow> bool" where
  "checked is s \<longleftrightarrow> (\<forall>c\<in>set (pd_conns s). gc_id c \<in> is \<and> gc_phase c = PServing \<and> gc_closed c = None \<longrightarrow>
     route_get (pd_clock s) (gc_device c) (pd_routes s) = Some (gc_pod c))"

lemma heartbeat_conns:
  assumes ok: "pods_ok s" and c: "c \<in> set (pd_conns (pods_heartbeat ttl False i s))" "gc_phase c = PServing" "gc_closed c = None"
  shows "c \<in> set (pd_conns s) \<and> (gc_id c = i \<longrightarrow> route_get (pd_clock s) (gc_device c) (pd_routes s) = Some (gc_pod c))"
proof (cases "tbl_get gc_id i (pd_conns s)")
  case None
  then have "i \<notin> gc_id ` set (pd_conns s)" by (simp add: tbl_get_None)
  then show ?thesis using c None by (auto simp: pods_heartbeat_def)
next
  case (Some x)
  note x = tbl_get_Some [OF Some]
  show ?thesis
  proof (cases "gc_phase x = PServing \<and> gc_closed x = None")
    case False
    then have "pods_heartbeat ttl False i s = s" using Some by (auto simp: pods_heartbeat_def)
    then show ?thesis using c False x conn_unique [OF ok, of c x] by auto
  next
    case True
    show ?thesis
    proof (cases "route_get (pd_clock s) (gc_device x) (pd_routes s) = Some (gc_pod x)")
      case route: True
      then have "pd_conns (pods_heartbeat ttl False i s) = pd_conns s" using Some True by (simp add: pods_heartbeat_def Route_Refresh_def)
      then show ?thesis using c route x conn_unique [OF ok, of c x] by auto
    next
      case False
      then have "pods_heartbeat ttl False i s = upd_conn i (close_conn CloseReplaced) s"
        using Some True by (simp add: pods_heartbeat_def Route_Refresh_def)
      then obtain y where y: "y \<in> set (pd_conns s)" "c = (if gc_id y = i then close_conn CloseReplaced y else y)"
        using c(1) by (auto simp: upd_conn_map)
      have "gc_id y \<noteq> i" using y(2) c(3) by (auto simp: close_conn_def split: if_splits)
      then show ?thesis using y by auto
    qed
  qed
qed

lemma checked_heartbeat:
  assumes "0 < ttl" "pods_ok s" "checked is s"
  shows "checked (insert i is) (pods_heartbeat ttl False i s)"
  unfolding checked_def
proof (intro ballI impI)
  fix c assume c: "c \<in> set (pd_conns (pods_heartbeat ttl False i s))" "gc_id c \<in> insert i is \<and> gc_phase c = PServing \<and> gc_closed c = None"
  have "route_get (pd_clock s) (gc_device c) (pd_routes s) = Some (gc_pod c)"
    using heartbeat_conns [OF assms(2) c(1)] c(2) assms(3) by (auto simp: checked_def)
  then show "route_get (pd_clock (pods_heartbeat ttl False i s)) (gc_device c) (pd_routes (pods_heartbeat ttl False i s)) = Some (gc_pod c)"
    using heartbeat_route [OF assms(1)] by simp
qed

lemma checked_round:
  assumes "0 < ttl"
  shows "pods_ok s \<Longrightarrow> checked js s \<Longrightarrow> checked (set is \<union> js) (run (pods_step ttl) s (map (PHeartbeat False) is))"
proof (induction "is" arbitrary: s js)
  case (Cons i "is")
  have "pods_ok (pods_heartbeat ttl False i s)" using pods_ok_step [OF Cons.prems(1), of ttl "PHeartbeat False i"] by simp
  from Cons.IH [OF this checked_heartbeat [OF assms Cons.prems]] show ?case by simp
qed simp

lemma heartbeat_ids: "gc_id ` set (pd_conns (pods_heartbeat ttl b i s)) = gc_id ` set (pd_conns s)"
proof -
  have "gc_id ` set (pd_conns (upd_conn i (close_conn k) s)) = gc_id ` set (pd_conns s)" for k
    unfolding upd_conn_map by (rule image_map_key) simp
  then show ?thesis by (simp add: pods_heartbeat_def Route_Refresh_def split: option.split)
qed

lemma round_ids: "gc_id ` set (pd_conns (run (pods_step ttl) s (map (PHeartbeat b) is))) = gc_id ` set (pd_conns s)"
  by (induction "is" arbitrary: s) (simp_all add: heartbeat_ids)

section \<open>Resume tokens\<close>

definition resume_step :: "resume_store \<Rightarrow> resume_env \<times> string \<times> hello \<Rightarrow> resume_store" where
  "resume_step m q = (case q of (e, d, h) \<Rightarrow> snd (applyResume True e d h m))"

text \<open>The token that a connection is given.\<close>

definition issued :: "resume_env \<Rightarrow> string option" where
  "issued e = (if rs_setFails e then None else NewResumeToken (rs_entropy e))"

lemma resume_step_issued:
  "resume_step m (e, d, h) = (case issued e of None \<Rightarrow> m | Some t \<Rightarrow> m(d \<mapsto> (HashResumeToken (rs_crypto e) t, rs_now e + resumeTokenTTL)))"
  by (simp add: resume_step_def applyResume_def Resume_Rotate_def issued_def Let_def case_prod_unfold split: option.split)

text \<open>The token a device is given last.\<close>

fun last_issued :: "string \<Rightarrow> (resume_env \<times> string \<times> hello) list \<Rightarrow> (resume_env \<times> string) option" where
  "last_issued d [] = None"
| "last_issued d ((e, d', h) # qs) =
     (case last_issued d qs of
        Some x \<Rightarrow> Some x
      | None \<Rightarrow> if d' = d then map_option (Pair e) (issued e) else None)"

lemma resume_store_last:
  "run resume_step m qs d = (case last_issued d qs of None \<Rightarrow> m d
     | Some (e, t) \<Rightarrow> Some (HashResumeToken (rs_crypto e) t, rs_now e + resumeTokenTTL))"
proof (induction qs arbitrary: m)
  case (Cons q qs)
  obtain e d' h where q: "q = (e, d', h)" by (cases q)
  show ?case unfolding q run.simps Cons.IH
    by (auto simp: resume_step_issued split: option.split)
qed simp

end
