(* ===== verification/GatewayProps.thy ===== *)
theory GatewayProps
  imports GatewayReplay GatewayPods
begin

text \<open>
  The properties of the gateway: what a reconnecting device receives and in which order, that a device ends up with one
  connection, and when a client's cursors are honoured.
\<close>

section \<open>Replay and live traffic\<close>

text \<open>
C9. What a reconnecting device receives: whatever live deliveries, receipts, calls, client frames and writes interleave with the
replay of its inbox, a connection that is not closed sends exactly the replayed items, then the live items that arrived during
the replay and are beyond what was replayed of their conversation, in order and each sequence number once, then the live items as
they arrive. So if the replay is in sequence order in every conversation, everything up to the end of the flush is.
\<close>

theorem replay_then_live:
  assumes "c = run conn_step (new_conn d u True) (pre @ CReplayDone # post)" "cn_closed c = None" "\<forall>op\<in>set pre. \<not> ends_replay op"
  shows "\<exists>fl. sent_items c = replayed pre @ fl @ lives d post \<and>
    set fl \<subseteq> set (lives d pre) \<and> sorted_wrt (<) (map item_key fl) \<and>
    item_key ` set fl = {item_key i | i. i \<in> set (lives d pre) \<and> watermark (replayed pre) (ii_ConversationID i) < ii_Seq i} \<and>
    ((\<forall>conv. sorted_wrt (<) (map ii_Seq (filter (\<lambda>i. ii_ConversationID i = conv) (replayed pre)))) \<longrightarrow>
     (\<forall>conv. sorted_wrt (<) (map ii_Seq (filter (\<lambda>i. ii_ConversationID i = conv) (replayed pre @ fl)))))"
proof -
  have "sent_items c = replayed pre @ flushed (replayed pre) (lives d pre) @ lives d post"
    unfolding assms(1) by (rule replay_run) (use assms in auto)
  then show ?thesis
    by (intro exI [of _ "flushed (replayed pre) (lives d pre)"] conjI flushed_spec(1-3) impI allI flush_order; blast)
qed

definition ex_item :: "string \<Rightarrow> int \<Rightarrow> inbox_item" where
  "ex_item conv seq = \<lparr>ii_ConversationID = conv, ii_Seq = seq, ii_MsgUUID = ''m'', ii_SenderUserID = ''u'', ii_SenderDeviceID = ''e'',
     ii_Kind = KindText, ii_OverlayTarget = [], ii_Ciphertext = ''x'', ii_AcceptedAtMS = 0\<rparr>"

definition ex_live :: "string \<Rightarrow> int \<Rightarrow> conn_op" where
  "ex_live conv seq = CLive (Some \<lparr>dl_Item = Some (ex_item conv seq), dl_RecipientDeviceID = ''d''\<rparr>)"

text \<open>Items 2 and 3 of a conversation arrive live, the later one first, while 1 and 2 are replayed.\<close>

theorem replay_then_live_witness:
  "set (sent_items (run conn_step (new_conn ''d'' ''u'' True) ([ex_live ''c'' 3, CReplay [ex_item ''c'' 1, ex_item ''c'' 2], ex_live ''c'' 2] @ [CReplayDone])))
    \<subseteq> {ex_item ''c'' 1, ex_item ''c'' 2, ex_item ''c'' 3}"
proof -
  let ?pre = "[ex_live ''c'' 3, CReplay [ex_item ''c'' 1, ex_item ''c'' 2], ex_live ''c'' 2]"
  let ?c = "run conn_step (new_conn ''d'' ''u'' True) (?pre @ [CReplayDone])"
  have "cn_closed ?c = None"
    by (simp add: conn_defs replay_done_def finish_def ex_live_def ex_item_def new_conn_def newReplayGate_def decodeDelivery_def holdLive_def
        maxReplayBuffer_def outboundQueueSize_def advance_def advance1_def seen_at_def item_key_def)
  moreover have "\<forall>op\<in>set ?pre. \<not> ends_replay op" by (simp add: ends_replay_def ex_live_def)
  ultimately obtain fl where "sent_items ?c = replayed ?pre @ fl @ lives ''d'' []" "set fl \<subseteq> set (lives ''d'' ?pre)"
    using replay_then_live [of ?c "''d''" "''u''" ?pre "[]"] by auto
  then show ?thesis by (auto simp: replayed_def lives_def ex_live_def decodeDelivery_def opt_list_def)
qed

text \<open>
  Once the gate is open it does not know any more what was replayed: a message that was replayed and whose live delivery
  arrives late is sent a second time.
\<close>

lemma late_delivery_repeats:
  "sent_items (run conn_step (new_conn ''d'' ''u'' True) [CReplay [ex_item ''c'' 1], CReplayDone, ex_live ''c'' 1]) = [ex_item ''c'' 1, ex_item ''c'' 1]"
  by (simp add: conn_defs replay_done_def finish_def ex_live_def ex_item_def new_conn_def newReplayGate_def decodeDelivery_def holdLive_def
      outboundQueueSize_def advance_def advance1_def seen_at_def sent_items_def)

section \<open>One connection per device\<close>



lemmas pods_eval = empty_pods_def pods_claim_def pods_add_def pods_heartbeat_def pods_remove_def pods_release_def upd_conn_def tbl_upd_def
  tbl_get_Cons Route_Claim_def Route_Refresh_def Route_Release_def route_get_def Let_def case_prod_unfold close_conn_def

lemma ex_registry: "registry_ok r \<Longrightarrow> Registry_Get d r = None \<Longrightarrow> fst (Registry_Add d c r) = None"
  by (simp add: Registry_Add_displaced)


text \<open>
  The cleanup of a connection can release the route that a newer connection of the same pod has just claimed: between the claim of
  the newer and its registration the older one is still the registered one. The newer one then closes itself at its next heartbeat.
\<close>

lemma reconnect_loses_route:
  "let s = run (pods_step 90000) empty_pods [PClaim 1 ''d'' ''a'', PAdd 1, PClaim 2 ''d'' ''a'', PRemove 1, PRelease False 1, PAdd 2, PHeartbeat False 2]
   in \<exists>c\<in>set (pd_conns s). gc_id c = 2 \<and> live_conn c \<and> gc_closed c = Some CloseReplaced"
proof -
  have r: "fst (Registry_Remove ''d'' 1 (snd (Registry_Add ''d'' 1 NewRegistry)))"
    by (simp add: Registry_Remove_removed Registry_Get_Add registry_ok_new)
  have a: "fst (Registry_Add ''d'' 2 (snd (Registry_Remove ''d'' 1 (snd (Registry_Add ''d'' 1 NewRegistry))))) = None"
    by (simp add: Registry_Add_displaced Registry_Get_Remove Registry_Get_Add Registry_Add_ok registry_ok_new)
  have n: "fst (Registry_Add ''d'' 1 NewRegistry) = None" by (simp add: Registry_Add_displaced Registry_Get_new)
  show ?thesis using r a n by (simp add: pods_eval live_conn_def Let_def)
qed

section \<open>Resume tokens\<close>

text \<open>
Cursors are honoured only with the current token: whatever connections came before, a client's cursors narrow the replay only
if the token it presents has the hash of the token that the device was given last, less than thirty days ago; without such a token
the whole inbox is replayed.
\<close>

theorem resume_needs_last_token:
  assumes "fst (applyResume True e d h (run resume_step Map.empty qs)) = (cursors, t)"
  shows "cursors = [] \<or> cursors = he_LastCursors h \<and>
    (\<exists>e0 t0. last_issued d qs = Some (e0, t0) \<and> HashResumeToken (rs_crypto e) (he_ResumeToken h) = HashResumeToken (rs_crypto e0) t0 \<and>
       rs_now e < rs_now e0 + 30 * 24 * Hour)"
proof (cases "cursors = []")
  case False
  with assms have c: "cursors = he_LastCursors h" and v: "Resume_Validate e d (he_ResumeToken h) (run resume_step Map.empty qs) = Some True"
    by (auto simp: applyResume_def Let_def case_prod_unfold split: if_splits)
  then show ?thesis
    by (auto simp: Resume_Validate_def resume_store_last resumeTokenTTL_def split: if_splits option.splits prod.splits)
qed simp

definition ex_resume :: "char \<Rightarrow> resume_env" where
  "ex_resume b = \<lparr>rs_now = 0, rs_crypto = \<lparr>cr_hmac = (\<lambda>_ s. s), cr_sha256 = (\<lambda>s. s), cr_argonVersion = 19, cr_argon = (\<lambda>_ _ _ _ _ n. replicate n (CHR ''x''))\<rparr>,
     rs_entropy = replicate 32 b, rs_getFails = False, rs_setFails = False\<rparr>"

definition ex_hello :: "string \<Rightarrow> hello" where
  "ex_hello t = \<lparr>he_AccessJwt = ''j'', he_ResumeToken = t, he_LastCursors = [\<lparr>cu_ConversationID = ''c'', cu_LastSeq = 7\<rparr>]\<rparr>"

theorem resume_needs_last_token_witness:
  "fst (fst (applyResume True (ex_resume (CHR ''b'')) ''d'' (ex_hello (RawURL_Encode (replicate 32 (CHR ''a''))))
     (run resume_step Map.empty [(ex_resume (CHR ''a''), ''d'', ex_hello [])]))) = [\<lparr>cu_ConversationID = ''c'', cu_LastSeq = 7\<rparr>]"
proof -
  let ?t = "RawURL_Encode (replicate 32 (CHR ''a''))"
  let ?qs = "[(ex_resume (CHR ''a''), ''d'', ex_hello [])]"
  have i: "issued (ex_resume (CHR ''a'')) = Some ?t" by (simp add: issued_def NewResumeToken_def ReadFull_def ex_resume_def)
  have "?t \<noteq> []" using RawURL_roundtrip [of "replicate 32 (CHR ''a'')"] by auto code_simp
  then have "fst (fst (applyResume True (ex_resume (CHR ''b'')) ''d'' (ex_hello ?t) (run resume_step Map.empty ?qs))) \<noteq> []"
    by (simp add: applyResume_def Let_def case_prod_unfold Resume_Validate_def resume_step_issued i ex_hello_def) (simp add: ex_resume_def resumeTokenTTL_def time_units)
  with resume_needs_last_token [of "ex_resume (CHR ''b'')" "''d''" "ex_hello ?t" ?qs] show ?thesis
    by (metis (no_types, lifting) ex_hello_def hello.select_convs(3) prod.collapse)
qed

end
