(* ===== verification/Presence.thy ===== *)
theory Presence
  imports Contracts GoStrings "HOL-Library.AList"
begin

text \<open>
  Presence: the Valkey store of online devices (\<^verbatim>\<open>presence/adapters/valkey.go\<close>), a connection's subscriptions
  (\<^verbatim>\<open>presence/subscriptions.go\<close>), the damping of flaps (\<^verbatim>\<open>presence/flap.go\<close>), and the gateway's use of them
  (\<^verbatim>\<open>gateway/presence.go\<close>, \<^verbatim>\<open>gateway/channels.go\<close>). Times are milliseconds; the Valkey server's clock and the callers'
  agree.
\<close>

section \<open>The store\<close>

definition OnlineWindow :: int where "OnlineWindow = 60000"

text \<open>The hash of a user: fields with the last heartbeat, and when the key expires. An empty hash is no key.\<close>

type_synonym presence_store = "string \<Rightarrow> ((string \<times> int) list \<times> int) option"

definition ps_fields :: "int \<Rightarrow> string \<Rightarrow> presence_store \<Rightarrow> (string \<times> int) list" where
  "ps_fields now u m = (case m u of None \<Rightarrow> [] | Some (fs, expires) \<Rightarrow> if now < expires then fs else [])"

definition prune :: "int \<Rightarrow> (string \<times> int) list \<Rightarrow> (string \<times> int) list" where
  "prune now fs = filter (\<lambda>f. \<not> snd f < now - OnlineWindow) fs"

definition ps_write :: "int \<Rightarrow> string \<Rightarrow> (string \<times> int) list \<Rightarrow> presence_store \<Rightarrow> presence_store" where
  "ps_write expires u fs m = m(u := if fs = [] then None else Some (fs, expires))"

definition Presence_Connect :: "int \<Rightarrow> string \<Rightarrow> string \<Rightarrow> presence_store \<Rightarrow> bool \<times> presence_store" where
  "Presence_Connect now u d m =
     (let fs = prune now (ps_fields now u m); fs' = AList.update d now fs
      in (length fs = 0 \<and> length fs' > 0, ps_write (now + OnlineWindow * 2) u fs' m))"

definition Presence_Heartbeat :: "int \<Rightarrow> string \<Rightarrow> string \<Rightarrow> presence_store \<Rightarrow> presence_store" where
  "Presence_Heartbeat now u d m = ps_write (now + OnlineWindow * 2) u (AList.update d now (prune now (ps_fields now u m))) m"

definition Presence_Disconnect :: "int \<Rightarrow> string \<Rightarrow> string \<Rightarrow> presence_store \<Rightarrow> bool \<times> presence_store" where
  "Presence_Disconnect now u d m =
     (let fs = AList.delete d (prune now (ps_fields now u m))
      in (length fs = 0, ps_write (now + OnlineWindow * 2) u fs m))"

text \<open>The snapshot prunes too, but does not touch the expiry.\<close>

definition Presence_Snapshot :: "int \<Rightarrow> string \<Rightarrow> presence_store \<Rightarrow> (bool \<times> int) \<times> presence_store" where
  "Presence_Snapshot now u m =
     (let fs = prune now (ps_fields now u m)
      in ((length fs > 0, fold (\<lambda>f b. max (snd f) b) fs 0),
          (case m u of None \<Rightarrow> m | Some (fs0, expires) \<Rightarrow> ps_write expires u fs m)))"

datatype presence_op =
    PrConnect int string string
  | PrHeartbeat int string string
  | PrDisconnect int string string
  | PrSnapshot int string

fun pr_time :: "presence_op \<Rightarrow> int" where
  "pr_time (PrConnect t u d) = t" | "pr_time (PrHeartbeat t u d) = t" | "pr_time (PrDisconnect t u d) = t" | "pr_time (PrSnapshot t u) = t"

fun presence_step :: "presence_store \<Rightarrow> presence_op \<Rightarrow> presence_store" where
  "presence_step m (PrConnect t u d) = snd (Presence_Connect t u d m)"
| "presence_step m (PrHeartbeat t u d) = Presence_Heartbeat t u d m"
| "presence_step m (PrDisconnect t u d) = snd (Presence_Disconnect t u d m)"
| "presence_step m (PrSnapshot t u) = snd (Presence_Snapshot t u m)"

section \<open>What the store stands for\<close>

text \<open>When each device of each user was last heard of, unless it has left since.\<close>

type_synonym heard = "string \<times> string \<Rightarrow> int option"

fun heard_step :: "heard \<Rightarrow> presence_op \<Rightarrow> heard" where
  "heard_step h (PrConnect t u d) = h((u, d) \<mapsto> t)"
| "heard_step h (PrHeartbeat t u d) = h((u, d) \<mapsto> t)"
| "heard_step h (PrDisconnect t u d) = h((u, d) := None)"
| "heard_step h (PrSnapshot t u) = h"

definition online_devices :: "int \<Rightarrow> string \<Rightarrow> heard \<Rightarrow> (string \<times> int) set" where
  "online_devices now u h = {(d, t). h (u, d) = Some t \<and> now - OnlineWindow \<le> t}"

definition presence_ok :: "int \<Rightarrow> heard \<Rightarrow> presence_store \<Rightarrow> bool" where
  "presence_ok now h m \<longleftrightarrow> (\<forall>u.
     (case m u of
        None \<Rightarrow> \<forall>d t. h (u, d) = Some t \<longrightarrow> t < now - OnlineWindow
      | Some (fs, expires) \<Rightarrow> distinct (map fst fs) \<and> (\<forall>(d, t)\<in>set fs. h (u, d) = Some t \<and> t + OnlineWindow * 2 \<le> expires) \<and>
          (\<forall>d t. h (u, d) = Some t \<longrightarrow> (d, t) \<in> set fs \<or> t < now - OnlineWindow)))"

lemma presence_ok_fields:
  assumes "presence_ok t0 h m" "t0 \<le> now"
  shows "distinct (map fst (prune now (ps_fields now u m)))" "set (prune now (ps_fields now u m)) = online_devices now u h"
proof -
  have *: "distinct (map fst (prune now (ps_fields now u m))) \<and> set (prune now (ps_fields now u m)) = online_devices now u h"
  proof (cases "m u")
    case None
    then have "\<forall>d t. h (u, d) = Some t \<longrightarrow> t < t0 - OnlineWindow" using assms(1) [unfolded presence_ok_def, THEN spec, of u] by simp
    then have "online_devices now u h = {}" using assms(2) by (fastforce simp: online_devices_def)
    then show ?thesis using None by (simp add: ps_fields_def prune_def)
  next
    case (Some p)
    obtain fs ex where p: "p = (fs, ex)" by (cases p)
    have fs: "distinct (map fst fs)" "\<And>d t. (d, t) \<in> set fs \<Longrightarrow> h (u, d) = Some t \<and> t + OnlineWindow * 2 \<le> ex"
      "\<And>d t. h (u, d) = Some t \<Longrightarrow> (d, t) \<in> set fs \<or> t < t0 - OnlineWindow"
      using assms(1) [unfolded presence_ok_def, THEN spec, of u] by (auto simp: Some p)
    show ?thesis
    proof (cases "now < ex")
      case True
      have "set (prune now fs) = online_devices now u h"
        using fs(2,3) assms(2) by (fastforce simp: prune_def online_devices_def)
      moreover have "distinct (map fst (prune now fs))" using fs(1) by (simp add: prune_def distinct_map_filter)
      ultimately show ?thesis using Some p True by (simp add: ps_fields_def)
    next
      case False
      have "online_devices now u h = {}"
        using fs(2,3) assms(2) False by (fastforce simp: online_devices_def OnlineWindow_def)
      then show ?thesis using Some p False by (simp add: ps_fields_def prune_def)
    qed
  qed
  then show "distinct (map fst (prune now (ps_fields now u m)))" "set (prune now (ps_fields now u m)) = online_devices now u h" by auto
qed

lemma presence_ok_later: "presence_ok t0 h m \<Longrightarrow> t0 \<le> now \<Longrightarrow> presence_ok now h m"
  unfolding presence_ok_def by (fastforce split: option.splits)

text \<open>Writing the fields of one user.\<close>

lemma presence_ok_write:
  assumes ok: "presence_ok now h m" and u: "\<And>u' d. u' \<noteq> u \<Longrightarrow> h' (u', d) = h (u', d)"
    and fs: "distinct (map fst fs)" "\<And>d t. (d, t) \<in> set fs \<Longrightarrow> h' (u, d) = Some t \<and> t + OnlineWindow * 2 \<le> expires"
      "\<And>d t. h' (u, d) = Some t \<Longrightarrow> (d, t) \<in> set fs \<or> t < now - OnlineWindow"
  shows "presence_ok now h' (ps_write expires u fs m)"
  unfolding presence_ok_def
proof
  fix u'
  show "case ps_write expires u fs m u' of
        None \<Rightarrow> \<forall>d t. h' (u', d) = Some t \<longrightarrow> t < now - OnlineWindow
      | Some (fs, expires) \<Rightarrow> distinct (map fst fs) \<and> (\<forall>(d, t)\<in>set fs. h' (u', d) = Some t \<and> t + OnlineWindow * 2 \<le> expires) \<and>
          (\<forall>d t. h' (u', d) = Some t \<longrightarrow> (d, t) \<in> set fs \<or> t < now - OnlineWindow)"
  proof (cases "u' = u")
    case True
    then show ?thesis using fs by (auto simp: ps_write_def)
  next
    case False
    then show ?thesis using ok [unfolded presence_ok_def, THEN spec, of u'] by (auto simp: ps_write_def u split: option.splits)
  qed
qed

lemma online_le: "(d, t) \<in> online_devices now u h \<Longrightarrow> h (u, d) = Some t"
  by (simp add: online_devices_def)

definition heard_by :: "int \<Rightarrow> heard \<Rightarrow> bool" where
  "heard_by now h \<longleftrightarrow> (\<forall>k t. h k = Some t \<longrightarrow> t \<le> now)"

lemma set_update_distinct:
  "distinct (map fst fs) \<Longrightarrow> (x, t) \<in> set (AList.update d v fs) \<longleftrightarrow> x = d \<and> t = v \<or> x \<noteq> d \<and> (x, t) \<in> set fs"
  by (induction fs) (auto simp: image_iff)

lemma presence_ok_beat:
  assumes "presence_ok t0 h m" "t0 \<le> now" "heard_by t0 h"
  shows "presence_ok now (h((u, d) \<mapsto> now)) (ps_write (now + OnlineWindow * 2) u (AList.update d now (prune now (ps_fields now u m))) m)"
proof (rule presence_ok_write [OF presence_ok_later [OF assms(1,2)]])
  note f = presence_ok_fields [OF assms(1,2), of u]
  have mem: "(x, t) \<in> set (AList.update d now (prune now (ps_fields now u m))) \<longleftrightarrow>
      x = d \<and> t = now \<or> x \<noteq> d \<and> (x, t) \<in> set (prune now (ps_fields now u m))" for x t
    using f(1) by (rule set_update_distinct)
  show "distinct (map fst (AList.update d now (prune now (ps_fields now u m))))" using f(1) by (rule distinct_update)
  show "(h((u, d) \<mapsto> now)) (u, x) = Some t \<and> t + OnlineWindow * 2 \<le> now + OnlineWindow * 2"
    if "(x, t) \<in> set (AList.update d now (prune now (ps_fields now u m)))" for x t
    using that assms(2,3) unfolding mem f(2) by (force simp: online_devices_def heard_by_def)
  show "(x, t) \<in> set (AList.update d now (prune now (ps_fields now u m))) \<or> t < now - OnlineWindow"
    if "(h((u, d) \<mapsto> now)) (u, x) = Some t" for x t
    using that unfolding mem f(2) by (auto simp: online_devices_def split: if_splits)
qed simp

lemma presence_ok_leave:
  assumes "presence_ok t0 h m" "t0 \<le> now" "heard_by t0 h"
  shows "presence_ok now (h((u, d) := None)) (ps_write (now + OnlineWindow * 2) u (AList.delete d (prune now (ps_fields now u m))) m)"
proof (rule presence_ok_write [OF presence_ok_later [OF assms(1,2)]])
  note f = presence_ok_fields [OF assms(1,2), of u]
  have mem: "(x, t) \<in> set (AList.delete d (prune now (ps_fields now u m))) \<longleftrightarrow> x \<noteq> d \<and> (x, t) \<in> set (prune now (ps_fields now u m))" for x t
    by (auto simp: AList.delete_eq)
  show "distinct (map fst (AList.delete d (prune now (ps_fields now u m))))" using f(1) by (simp add: AList.delete_eq distinct_map_filter)
  show "(h((u, d) := None)) (u, x) = Some t \<and> t + OnlineWindow * 2 \<le> now + OnlineWindow * 2"
    if "(x, t) \<in> set (AList.delete d (prune now (ps_fields now u m)))" for x t
    using that assms(2,3) unfolding mem f(2) by (force simp: online_devices_def heard_by_def)
  show "(x, t) \<in> set (AList.delete d (prune now (ps_fields now u m))) \<or> t < now - OnlineWindow"
    if "(h((u, d) := None)) (u, x) = Some t" for x t
    using that unfolding mem f(2) by (auto simp: online_devices_def split: if_splits)
qed simp

lemma presence_ok_snapshot:
  assumes "presence_ok t0 h m" "t0 \<le> now"
  shows "presence_ok now h (snd (Presence_Snapshot now u m))"
proof (cases "m u")
  case None
  then show ?thesis using presence_ok_later [OF assms] by (simp add: Presence_Snapshot_def Let_def)
next
  case (Some p)
  obtain fs ex where p: "p = (fs, ex)" by (cases p)
  note f = presence_ok_fields [OF assms, of u]
  have ex: "t + OnlineWindow * 2 \<le> ex" if "(x, t) \<in> set (prune now (ps_fields now u m))" for x t
    using that assms(1) [unfolded presence_ok_def, THEN spec, of u] by (auto simp: Some p prune_def ps_fields_def split: if_splits)
  have "presence_ok now h (ps_write ex u (prune now (ps_fields now u m)) m)"
  proof (rule presence_ok_write [OF presence_ok_later [OF assms] refl f(1)])
    show "h (u, x) = Some t \<and> t + OnlineWindow * 2 \<le> ex" if "(x, t) \<in> set (prune now (ps_fields now u m))" for x t
      using ex [OF that] that unfolding f(2) by (simp add: online_devices_def)
    show "(x, t) \<in> set (prune now (ps_fields now u m)) \<or> t < now - OnlineWindow" if "h (u, x) = Some t" for x t
      using that unfolding f(2) by (auto simp: online_devices_def)
  qed
  then show ?thesis using Some p by (simp add: Presence_Snapshot_def Let_def)
qed

lemma presence_ok_step:
  assumes "presence_ok t0 h m" "heard_by t0 h" "t0 \<le> pr_time op"
  shows "presence_ok (pr_time op) (heard_step h op) (presence_step m op) \<and> heard_by (pr_time op) (heard_step h op)"
proof -
  have "heard_by (pr_time op) (heard_step h op)" using assms(2,3) by (cases op) (auto simp: heard_by_def intro: order_trans)
  moreover have "presence_ok (pr_time op) (heard_step h op) (presence_step m op)"
    using assms by (cases op) (simp_all add: Presence_Connect_def Presence_Heartbeat_def Presence_Disconnect_def Let_def
        presence_ok_beat presence_ok_leave presence_ok_snapshot)
  ultimately show ?thesis by blast
qed

lemma presence_ok_run:
  "presence_ok t0 h m \<Longrightarrow> heard_by t0 h \<Longrightarrow> sorted (t0 # map pr_time ops @ [now]) \<Longrightarrow>
   presence_ok now (run heard_step h ops) (run presence_step m ops) \<and> heard_by now (run heard_step h ops)"
proof (induction ops arbitrary: t0 h m)
  case Nil
  then show ?case using presence_ok_later [of t0 h m now] by (auto simp: heard_by_def intro: order_trans)
next
  case (Cons op ops)
  have "presence_ok (pr_time op) (heard_step h op) (presence_step m op)" "heard_by (pr_time op) (heard_step h op)"
    using presence_ok_step [OF Cons.prems(1,2), of op] Cons.prems(3) by simp_all
  from Cons.IH [OF this] Cons.prems(3) show ?case by simp
qed

lemma presence_ok_empty: "presence_ok t0 Map.empty Map.empty" "heard_by t0 Map.empty"
  by (simp_all add: presence_ok_def heard_by_def)

end
