(* ===== verification/PresenceFeeds.thy ===== *)
theory PresenceFeeds
  imports Presence
begin

text \<open>
  The gateway's side of presence: the users a connection follows and the feeds that back them
  (\<^verbatim>\<open>presence/subscriptions.go\<close>, \<^verbatim>\<open>gateway/presence.go\<close>), channel feeds (\<^verbatim>\<open>gateway/channels.go\<close>), and the delayed
  announcement that a user went offline (\<^verbatim>\<open>presence/flap.go\<close>).
\<close>

section \<open>Subscriptions\<close>

definition MaxSubscriptions :: nat where "MaxSubscriptions = 50"

text \<open>The set is a list without repetitions.\<close>

fun subs_remove :: "string list \<Rightarrow> string list \<Rightarrow> string list \<times> string list" where
  "subs_remove [] s = ([], s)"
| "subs_remove (u # us) s =
     (if u \<in> set s then let (removed, s1) = subs_remove us (removeAll u s) in (u # removed, s1) else subs_remove us s)"

fun subs_add :: "string list \<Rightarrow> string list \<Rightarrow> string list \<times> string list" where
  "subs_add [] s = ([], s)"
| "subs_add (u # us) s =
     (if u = [] \<or> u \<in> set s \<or> length s \<ge> MaxSubscriptions then subs_add us s
      else let (added, s1) = subs_add us (s @ [u]) in (u # added, s1))"

definition Subs_Apply :: "string list \<Rightarrow> string list \<Rightarrow> string list \<Rightarrow> (string list \<times> string list) \<times> string list" where
  "Subs_Apply sub unsub s =
     (let (removed, s1) = subs_remove unsub s; (added, s2) = subs_add sub s1 in ((added, removed), s2))"

section \<open>Presence feeds\<close>

datatype feed_kind = PresenceFeed | TypingFeed

text \<open>\<open>cp_unsub\<close> holds the users with an unsubscribe function, \<open>cp_active\<close> the subscriptions that exist at the broker.\<close>

record conn_presence =
  cp_subs :: "string list"
  cp_unsub :: "string list"
  cp_active :: "(string \<times> feed_kind) list"

definition newConnPresence :: conn_presence where
  "newConnPresence = \<lparr>cp_subs = [], cp_unsub = [], cp_active = []\<rparr>"

record presence_env =
  pe_canSee :: "string \<Rightarrow> bool option"
  pe_subFails :: "string \<Rightarrow> feed_kind \<Rightarrow> bool"

definition unsubscribe_user :: "string \<Rightarrow> conn_presence \<Rightarrow> conn_presence" where
  "unsubscribe_user u p = p\<lparr>cp_active := remove1 (u, TypingFeed) (remove1 (u, PresenceFeed) (cp_active p))\<rparr>"

definition closePresenceFeed :: "conn_presence \<Rightarrow> string \<Rightarrow> conn_presence" where
  "closePresenceFeed p u =
     (if u \<in> set (cp_unsub p) then (unsubscribe_user u p)\<lparr>cp_unsub := removeAll u (cp_unsub p)\<rparr> else p)"

definition give_up :: "string \<Rightarrow> conn_presence \<Rightarrow> conn_presence" where
  "give_up u p = p\<lparr>cp_subs := snd (Subs_Apply [] [u] (cp_subs p))\<rparr>"

definition openPresenceFeed :: "presence_env \<Rightarrow> conn_presence \<Rightarrow> string \<Rightarrow> conn_presence" where
  "openPresenceFeed e p u =
     (if pe_canSee e u \<noteq> Some True then give_up u p
      else if pe_subFails e u PresenceFeed then give_up u p
      else
        let p1 = p\<lparr>cp_active := cp_active p @ [(u, PresenceFeed)]\<rparr>
        in if pe_subFails e u TypingFeed then give_up u (p1\<lparr>cp_active := remove1 (u, PresenceFeed) (cp_active p1)\<rparr>)
           else p1\<lparr>cp_active := cp_active p1 @ [(u, TypingFeed)], cp_unsub := cp_unsub p1 @ [u]\<rparr>)"

definition handlePresenceSub :: "presence_env \<Rightarrow> string list \<Rightarrow> string list \<Rightarrow> conn_presence \<Rightarrow> conn_presence" where
  "handlePresenceSub e sub unsub p =
     (let ((added, removed), s) = Subs_Apply sub unsub (cp_subs p)
      in foldl (openPresenceFeed e) (foldl closePresenceFeed (p\<lparr>cp_subs := s\<rparr>) removed) added)"

definition closeAll :: "conn_presence \<Rightarrow> conn_presence" where
  "closeAll p = (fold unsubscribe_user (cp_unsub p) p)\<lparr>cp_unsub := [], cp_subs := []\<rparr>"

text \<open>An update of a user is passed on only while the user is followed.\<close>

definition passes_update :: "conn_presence \<Rightarrow> string \<Rightarrow> bool" where
  "passes_update p u \<longleftrightarrow> (u, PresenceFeed) \<in> set (cp_active p) \<and> u \<in> set (cp_subs p)"

section \<open>Channel feeds\<close>

record conn_channels =
  cc_unsub :: "string list"
  cc_active :: "string list"

definition openChannelFeed :: "(string \<Rightarrow> bool) \<Rightarrow> conn_channels \<Rightarrow> string \<Rightarrow> conn_channels" where
  "openChannelFeed fails c ch =
     (if ch = [] \<or> ch \<in> set (cc_unsub c) \<or> fails ch then c
      else \<lparr>cc_unsub = cc_unsub c @ [ch], cc_active = cc_active c @ [ch]\<rparr>)"

definition closeChannelFeed :: "conn_channels \<Rightarrow> string \<Rightarrow> conn_channels" where
  "closeChannelFeed c ch =
     (if ch \<in> set (cc_unsub c) then \<lparr>cc_unsub = removeAll ch (cc_unsub c), cc_active = remove1 ch (cc_active c)\<rparr> else c)"

definition handleChannelSub :: "(string \<Rightarrow> bool) \<Rightarrow> string list \<Rightarrow> string list \<Rightarrow> conn_channels \<Rightarrow> conn_channels" where
  "handleChannelSub fails sub unsub c = foldl (openChannelFeed fails) (foldl closeChannelFeed c unsub) sub"

definition Channels_closeAll :: "conn_channels \<Rightarrow> conn_channels" where
  "Channels_closeAll c = \<lparr>cc_unsub = [], cc_active = fold remove1 (cc_unsub c) (cc_active c)\<rparr>"

section \<open>Lemmas on subscriptions\<close>

lemma subs_remove_spec:
  assumes "subs_remove us s = (removed, s1)" "distinct s"
  shows "set removed = set us \<inter> set s" "distinct removed" "set s1 = set s - set us" "distinct s1" "length s1 \<le> length s"
proof -
  have "set removed = set us \<inter> set s \<and> distinct removed \<and> set s1 = set s - set us \<and> distinct s1 \<and> length s1 \<le> length s"
    using assms
  proof (induction us arbitrary: s removed)
    case (Cons u us)
    show ?case
    proof (cases "u \<in> set s")
      case True
      obtain r where r: "subs_remove us (removeAll u s) = (r, s1)" "removed = u # r" using Cons.prems(1) True by (auto split: prod.splits)
      have d: "distinct (removeAll u s)" using Cons.prems(2) by (rule distinct_removeAll)
      have "length (removeAll u s) \<le> length s" by (simp add: length_filter_le removeAll_filter_not_eq)
      have IH: "set r = set us \<inter> (set s - {u})" "distinct r" "set s1 = set s - {u} - set us" "distinct s1" "length s1 \<le> length (removeAll u s)"
        using Cons.IH [OF r(1) d] by simp_all
      show ?thesis using IH(1-4) True r(2) le_trans [OF IH(5) \<open>length (removeAll u s) \<le> length s\<close>] by auto
    next
      case False
      then have "subs_remove us s = (removed, s1)" using Cons.prems(1) by simp
      from Cons.IH [OF this Cons.prems(2)] False show ?thesis by auto
    qed
  qed auto
  then show "set removed = set us \<inter> set s" "distinct removed" "set s1 = set s - set us" "distinct s1" "length s1 \<le> length s" by auto
qed

lemma subs_add_spec:
  assumes "subs_add us s = (added, s1)" "distinct s" "length s \<le> MaxSubscriptions"
  shows "s1 = s @ added" "distinct s1" "length s1 \<le> MaxSubscriptions" "set added \<subseteq> set us"
proof -
  have "s1 = s @ added \<and> distinct s1 \<and> length s1 \<le> MaxSubscriptions \<and> set added \<subseteq> set us"
    using assms
  proof (induction us arbitrary: s added)
    case (Cons u us)
    show ?case
    proof (cases "u = [] \<or> u \<in> set s \<or> length s \<ge> MaxSubscriptions")
      case True
      then show ?thesis using Cons by (simp) blast
    next
      case False
      obtain a where a: "subs_add us (s @ [u]) = (a, s1)" "added = u # a" using Cons.prems(1) False by (auto split: prod.splits)
      have "distinct (s @ [u])" "length (s @ [u]) \<le> MaxSubscriptions" using Cons.prems(2) False by auto
      from Cons.IH [OF a(1) this] a(2) show ?thesis by auto
    qed
  qed auto
  then show "s1 = s @ added" "distinct s1" "length s1 \<le> MaxSubscriptions" "set added \<subseteq> set us" by auto
qed

section \<open>Feeds and subscriptions agree\<close>

text \<open>The feeds are those of the users \<open>F\<close>, each once and with both kinds.\<close>

definition feeds_of :: "string set \<Rightarrow> string set \<Rightarrow> conn_presence \<Rightarrow> bool" where
  "feeds_of seen F p \<longleftrightarrow>
     distinct (cp_subs p) \<and> length (cp_subs p) \<le> MaxSubscriptions \<and> distinct (cp_unsub p) \<and> set (cp_unsub p) = F \<and> F \<subseteq> seen \<and>
     distinct (cp_active p) \<and> set (cp_active p) = F \<times> {PresenceFeed, TypingFeed}"

lemma feeds_close:
  assumes "feeds_of seen F p"
  shows "feeds_of seen (F - {u}) (closePresenceFeed p u) \<and> cp_subs (closePresenceFeed p u) = cp_subs p"
proof (cases "u \<in> F")
  case True
  then have "closePresenceFeed p u = (unsubscribe_user u p)\<lparr>cp_unsub := removeAll u (cp_unsub p)\<rparr>"
    using assms by (simp add: closePresenceFeed_def feeds_of_def)
  then show ?thesis using assms by (auto simp: feeds_of_def unsubscribe_user_def distinct_removeAll)
next
  case False
  then show ?thesis using assms by (simp add: closePresenceFeed_def feeds_of_def)
qed

lemma feeds_close_all:
  "feeds_of seen F p \<Longrightarrow> feeds_of seen (F - set us) (foldl closePresenceFeed p us) \<and> cp_subs (foldl closePresenceFeed p us) = cp_subs p"
proof (induction us arbitrary: p F)
  case (Cons u us)
  have c: "feeds_of seen (F - {u}) (closePresenceFeed p u)" "cp_subs (closePresenceFeed p u) = cp_subs p"
    using feeds_close [OF Cons.prems] by auto
  have "F - {u} - set us = F - set (u # us)" by auto
  with Cons.IH [OF c(1)] c(2) show ?case by simp
qed simp

lemma give_up_subs: "u \<in> set (cp_subs p) \<Longrightarrow> give_up u p = p\<lparr>cp_subs := removeAll u (cp_subs p)\<rparr>"
  by (simp add: give_up_def Subs_Apply_def)

lemma feeds_give_up: "feeds_of seen F p \<Longrightarrow> u \<in> set (cp_subs p) \<Longrightarrow> feeds_of seen F (give_up u p)"
  using le_trans [OF length_removeAll_less_eq [of u "cp_subs p"]] by (auto simp: feeds_of_def give_up_subs distinct_removeAll)

text \<open>Opening a feed either succeeds, for a user whose presence may be seen, or the user is not followed any more.\<close>

lemma feeds_open:
  assumes "feeds_of seen F p" "u \<notin> F" "u \<in> set (cp_subs p)"
  shows "feeds_of (insert u seen) (insert u F) (openPresenceFeed e p u) \<and> cp_subs (openPresenceFeed e p u) = cp_subs p \<and> pe_canSee e u = Some True \<or>
    feeds_of seen F (openPresenceFeed e p u) \<and> cp_subs (openPresenceFeed e p u) = removeAll u (cp_subs p)"
proof (cases "pe_canSee e u \<noteq> Some True \<or> pe_subFails e u PresenceFeed \<or> pe_subFails e u TypingFeed")
  case True
  have "(u, PresenceFeed) \<notin> set (cp_active p)" using assms(1,2) by (auto simp: feeds_of_def)
  then have "p\<lparr>cp_active := remove1 (u, PresenceFeed) (cp_active p @ [(u, PresenceFeed)])\<rparr> = p"
    by (simp add: remove1_append)
  then have "openPresenceFeed e p u = give_up u p" using True by (auto simp: openPresenceFeed_def Let_def)
  then show ?thesis using feeds_give_up [OF assms(1,3)] give_up_subs [OF assms(3)] by simp
next
  case False
  then show ?thesis using assms by (auto simp: feeds_of_def openPresenceFeed_def Let_def)
qed

lemma feeds_mono: "feeds_of seen F p \<Longrightarrow> seen \<subseteq> seen' \<Longrightarrow> feeds_of seen' F p"
  by (auto simp: feeds_of_def)

lemma feeds_open_all:
  "feeds_of seen (set (cp_subs p) - set us) p \<Longrightarrow> distinct us \<Longrightarrow> set us \<subseteq> set (cp_subs p) \<Longrightarrow> {u. pe_canSee e u = Some True} \<subseteq> seen \<Longrightarrow>
   feeds_of seen (set (cp_subs (foldl (openPresenceFeed e) p us))) (foldl (openPresenceFeed e) p us)"
proof (induction us arbitrary: p)
  case (Cons u us)
  let ?p = "openPresenceFeed e p u" and ?F = "set (cp_subs p) - set (u # us)"
  have "feeds_of seen (set (cp_subs ?p) - set us) ?p \<and> set us \<subseteq> set (cp_subs ?p)"
  proof -
    have "u \<notin> ?F" "u \<in> set (cp_subs p)" using Cons.prems(3) by auto
    from feeds_open [OF Cons.prems(1) this, of e] show ?thesis
  proof (elim disjE conjE, goal_cases)
    case 1
    then have "insert u seen = seen" "insert u ?F = set (cp_subs ?p) - set us" using Cons.prems by auto
    then show ?case using 1 Cons.prems(3) by simp
  next
    case 2
    then have "?F = set (cp_subs ?p) - set us" using Cons.prems(2) by auto
    then show ?case using 2 Cons.prems(2,3) by auto
  qed
  qed
  then show ?case using Cons.IH [of ?p] Cons.prems(2,4) by simp
qed simp

definition feeds_ok :: "string set \<Rightarrow> conn_presence \<Rightarrow> bool" where
  "feeds_ok seen p \<longleftrightarrow> feeds_of seen (set (cp_subs p)) p"

lemma feeds_new: "feeds_ok {} newConnPresence"
  by (simp add: feeds_ok_def feeds_of_def newConnPresence_def)

lemma feeds_sub:
  assumes "feeds_ok seen p"
  shows "feeds_ok (seen \<union> {u. pe_canSee e u = Some True}) (handlePresenceSub e sub unsub p)"
proof -
  obtain removed s1 added s2 where r: "subs_remove unsub (cp_subs p) = (removed, s1)" and a: "subs_add sub s1 = (added, s2)" by fastforce
  have m: "distinct (cp_subs p)" "length (cp_subs p) \<le> MaxSubscriptions" using assms by (auto simp: feeds_ok_def feeds_of_def)
  note rs = subs_remove_spec [OF r m(1)]
  have len: "length s1 \<le> MaxSubscriptions" using rs(5) m(2) by simp
  note as = subs_add_spec [OF a rs(4) len]
  let ?p = "p\<lparr>cp_subs := s2\<rparr>" and ?seen = "seen \<union> {u. pe_canSee e u = Some True}"
  have "feeds_of ?seen (set (cp_subs p)) ?p" using assms as(2,3) by (auto simp: feeds_ok_def feeds_of_def)
  from feeds_close_all [OF this, of removed]
  have c: "feeds_of ?seen (set (cp_subs p) - set removed) (foldl closePresenceFeed ?p removed)" "cp_subs (foldl closePresenceFeed ?p removed) = s2"
    by auto
  have "set (cp_subs p) - set removed = set s2 - set added" using rs(1,3) as(1,2) by auto
  then have "feeds_of ?seen (set s2 - set added) (foldl closePresenceFeed ?p removed)" using c(1) by simp
  from feeds_open_all [of ?seen "foldl closePresenceFeed ?p removed" added e] this as(1,2) c(2) show ?thesis
    by (auto simp: feeds_ok_def handlePresenceSub_def Subs_Apply_def r a Let_def)
qed

lemma feeds_closeAll:
  assumes "feeds_ok seen p"
  shows "cp_active (closeAll p) = []"
proof -
  have f: "set (cp_active (fold unsubscribe_user us q)) = set (cp_active q) - set us \<times> {PresenceFeed, TypingFeed} \<and> distinct (cp_active (fold unsubscribe_user us q))"
    if "distinct (cp_active q)" for us q
    using that by (induction us arbitrary: q) (auto simp: unsubscribe_user_def)
  have "set (cp_active (closeAll p)) = {}"
    using assms f [of p "cp_unsub p"] by (simp add: feeds_ok_def feeds_of_def closeAll_def)
  then show ?thesis by simp
qed

end
