(* ===== verification/PresenceFlap.thy ===== *)
theory PresenceFlap
  imports PresenceFeeds
begin

text \<open>
  The delayed announcement that a user went offline: timers of \<^verbatim>\<open>presence/flap.go\<close>, and the announcements of
  \<^verbatim>\<open>gateway/presence.go\<close>. A timer that has expired starts a goroutine, which waits for the lock; until it has it,
  connections and disconnections can come first, and stopping the timer has no effect any more.
\<close>

section \<open>Timers\<close>

definition DefaultGrace :: int where "DefaultGrace = 15000"

definition flap_grace :: "int \<Rightarrow> int" where "flap_grace grace = (if grace \<le> 0 then DefaultGrace else grace)"

definition flapKey :: "string \<times> string \<Rightarrow> string" where "flapKey p = fst p @ '':'' @ snd p"

text \<open>
  \<open>fl_timers\<close> is the map of the damper, from keys to timers; the timers that run and those that have expired carry the user and the
  device their callback is about, and when they are due.
\<close>

record timer =
  tm_id :: nat
  tm_who :: "string \<times> string"
  tm_due :: int

record flap =
  fl_timers :: "(string \<times> nat) list"
  fl_armed :: "timer list"
  fl_fired :: "timer list"
  fl_next :: nat

definition newFlap :: flap where "newFlap = \<lparr>fl_timers = [], fl_armed = [], fl_fired = [], fl_next = 0\<rparr>"

definition stop_timer :: "string \<Rightarrow> flap \<Rightarrow> flap" where
  "stop_timer key f = f\<lparr>fl_armed := filter (\<lambda>t. map_of (fl_timers f) key \<noteq> Some (tm_id t)) (fl_armed f)\<rparr>"

definition Flap_Disconnected :: "int \<Rightarrow> int \<Rightarrow> string \<times> string \<Rightarrow> flap \<Rightarrow> flap" where
  "Flap_Disconnected grace now p f =
     (let f1 = stop_timer (flapKey p) f
      in f1\<lparr>fl_timers := AList.update (flapKey p) (fl_next f) (fl_timers f1),
            fl_armed := fl_armed f1 @ [\<lparr>tm_id = fl_next f, tm_who = p, tm_due = now + grace\<rparr>], fl_next := fl_next f + 1\<rparr>)"

definition Flap_Reconnected :: "string \<times> string \<Rightarrow> flap \<Rightarrow> bool \<times> flap" where
  "Flap_Reconnected p f =
     (case map_of (fl_timers f) (flapKey p) of
        None \<Rightarrow> (False, f)
      | Some i \<Rightarrow> (True, (stop_timer (flapKey p) f)\<lparr>fl_timers := AList.delete (flapKey p) (fl_timers f)\<rparr>))"

definition Flap_Pending :: "string \<times> string \<Rightarrow> flap \<Rightarrow> bool" where
  "Flap_Pending p f \<longleftrightarrow> map_of (fl_timers f) (flapKey p) \<noteq> None"

definition Flap_StopAll :: "flap \<Rightarrow> flap" where
  "Flap_StopAll f = f\<lparr>fl_timers := [], fl_armed := filter (\<lambda>t. tm_id t \<notin> snd ` set (fl_timers f)) (fl_armed f)\<rparr>"

text \<open>The timers that are due expire.\<close>

definition flap_expire :: "int \<Rightarrow> flap \<Rightarrow> flap" where
  "flap_expire now f =
     f\<lparr>fl_armed := filter (\<lambda>t. now < tm_due t) (fl_armed f), fl_fired := fl_fired f @ filter (\<lambda>t. \<not> now < tm_due t) (fl_armed f)\<rparr>"

text \<open>The callback of a timer gets the lock; it goes on if any timer is registered under its key.\<close>

definition flap_callback :: "nat \<Rightarrow> flap \<Rightarrow> (string \<times> string) option \<times> flap" where
  "flap_callback i f =
     (case find (\<lambda>t. tm_id t = i) (fl_fired f) of
        None \<Rightarrow> (None, f)
      | Some t \<Rightarrow>
         let f1 = f\<lparr>fl_fired := filter (\<lambda>t. tm_id t \<noteq> i) (fl_fired f)\<rparr>
         in if map_of (fl_timers f) (flapKey (tm_who t)) \<noteq> None
            then (Some (tm_who t), f1\<lparr>fl_timers := AList.delete (flapKey (tm_who t)) (fl_timers f)\<rparr>) else (None, f1))"

section \<open>Announcements\<close>

record presence_sys =
  psy_store :: presence_store
  psy_flap :: flap
  psy_log :: "(string \<times> bool \<times> int) list"

definition publish :: "bool \<Rightarrow> string \<times> bool \<times> int \<Rightarrow> presence_sys \<Rightarrow> presence_sys" where
  "publish fails up s = (if fails then s else s\<lparr>psy_log := psy_log s @ [up]\<rparr>)"

definition presenceConnect :: "bool \<Rightarrow> bool \<Rightarrow> int \<Rightarrow> string \<times> string \<Rightarrow> presence_sys \<Rightarrow> presence_sys" where
  "presenceConnect storeFails pubFails now p s =
     (let s1 = s\<lparr>psy_flap := snd (Flap_Reconnected p (psy_flap s))\<rparr>
      in if storeFails then s1
         else let (online, m) = Presence_Connect now (fst p) (snd p) (psy_store s1); s2 = s1\<lparr>psy_store := m\<rparr>
              in if online then publish pubFails (fst p, True, now) s2 else s2)"

definition presenceDisconnect :: "int \<Rightarrow> int \<Rightarrow> string \<times> string \<Rightarrow> presence_sys \<Rightarrow> presence_sys" where
  "presenceDisconnect grace now p s = s\<lparr>psy_flap := Flap_Disconnected grace now p (psy_flap s)\<rparr>"

definition on_offline :: "bool \<Rightarrow> bool \<Rightarrow> int \<Rightarrow> nat \<Rightarrow> presence_sys \<Rightarrow> presence_sys" where
  "on_offline storeFails pubFails now i s =
     (case flap_callback i (psy_flap s) of
        (None, f) \<Rightarrow> s\<lparr>psy_flap := f\<rparr>
      | (Some p, f) \<Rightarrow>
         if storeFails then s\<lparr>psy_flap := f\<rparr>
         else let (offline, m) = Presence_Disconnect now (fst p) (snd p) (psy_store s); s1 = s\<lparr>psy_flap := f, psy_store := m\<rparr>
              in if offline then publish pubFails (fst p, False, now) s1 else s1)"

datatype pr_event =
    EvConnect int "string \<times> string"
  | EvDisconnect int "string \<times> string"
  | EvExpire int
  | EvCallback int nat

fun ev_time :: "pr_event \<Rightarrow> int" where
  "ev_time (EvConnect t p) = t" | "ev_time (EvDisconnect t p) = t" | "ev_time (EvExpire t) = t" | "ev_time (EvCallback t i) = t"

fun flap_step :: "int \<Rightarrow> flap \<Rightarrow> pr_event \<Rightarrow> flap" where
  "flap_step grace f (EvConnect t p) = snd (Flap_Reconnected p f)"
| "flap_step grace f (EvDisconnect t p) = Flap_Disconnected grace t p f"
| "flap_step grace f (EvExpire t) = flap_expire t f"
| "flap_step grace f (EvCallback t i) = snd (flap_callback i f)"

text \<open>When the device of a key was last seen leaving, unless it has come back.\<close>

fun gone_step :: "(string \<Rightarrow> int option) \<Rightarrow> pr_event \<Rightarrow> (string \<Rightarrow> int option)" where
  "gone_step g (EvConnect t p) = g(flapKey p := None)"
| "gone_step g (EvDisconnect t p) = g(flapKey p \<mapsto> t)"
| "gone_step g (EvExpire t) = g"
| "gone_step g (EvCallback t i) = g"

text \<open>No device leaves while an expired timer of its key still waits for the lock.\<close>

definition unhurried :: "flap \<Rightarrow> pr_event \<Rightarrow> bool" where
  "unhurried f ev \<longleftrightarrow> (case ev of EvDisconnect t p \<Rightarrow> \<forall>x\<in>set (fl_fired f). flapKey (tm_who x) \<noteq> flapKey p | _ \<Rightarrow> True)"

fun unhurried_run :: "int \<Rightarrow> flap \<Rightarrow> pr_event list \<Rightarrow> bool" where
  "unhurried_run grace f [] \<longleftrightarrow> True"
| "unhurried_run grace f (ev # evs) \<longleftrightarrow> unhurried f ev \<and> unhurried_run grace (flap_step grace f ev) evs"

abbreviation timer_of :: "flap \<Rightarrow> timer \<Rightarrow> nat option" where
  "timer_of f x \<equiv> map_of (fl_timers f) (flapKey (tm_who x))"

definition flap_ok :: "int \<Rightarrow> int \<Rightarrow> (string \<Rightarrow> int option) \<Rightarrow> flap \<Rightarrow> bool" where
  "flap_ok grace now g f \<longleftrightarrow>
     (\<forall>x\<in>set (fl_armed f). timer_of f x = Some (tm_id x)) \<and>
     (\<forall>x\<in>set (fl_fired f). tm_due x \<le> now \<and> timer_of f x \<in> {None, Some (tm_id x)}) \<and>
     (\<forall>x\<in>set (fl_armed f) \<union> set (fl_fired f). tm_id x < fl_next f \<and> (timer_of f x = Some (tm_id x) \<longrightarrow> g (flapKey (tm_who x)) = Some (tm_due x - grace))) \<and>
     distinct (map tm_id (fl_armed f)) \<and> tm_id ` set (fl_armed f) \<inter> tm_id ` set (fl_fired f) = {}"

lemma flap_ok_new: "flap_ok grace now g newFlap"
  by (simp add: flap_ok_def newFlap_def)

lemma stop_armed:
  assumes "flap_ok grace now g f" "x \<in> set (fl_armed (stop_timer key f))"
  shows "x \<in> set (fl_armed f)" "flapKey (tm_who x) \<noteq> key"
  using assms by (auto simp: flap_ok_def stop_timer_def)

lemma stop_rest [simp]: "fl_timers (stop_timer key f) = fl_timers f" "fl_fired (stop_timer key f) = fl_fired f" "fl_next (stop_timer key f) = fl_next f"
  by (simp_all add: stop_timer_def)

lemma stop_distinct: "distinct (map tm_id (fl_armed f)) \<Longrightarrow> distinct (map tm_id (fl_armed (stop_timer key f)))"
  by (simp add: stop_timer_def distinct_map_filter)

lemma flap_ok_disconnect:
  assumes ok: "flap_ok grace t0 g f" and "t0 \<le> t" and un: "\<forall>x\<in>set (fl_fired f). flapKey (tm_who x) \<noteq> flapKey p"
  shows "flap_ok grace t (g(flapKey p \<mapsto> t)) (Flap_Disconnected grace t p f)"
proof -
  let ?f = "Flap_Disconnected grace t p f" and ?x = "\<lparr>tm_id = fl_next f, tm_who = p, tm_due = t + grace\<rparr>"
  have timers: "map_of (fl_timers ?f) = (map_of (fl_timers f))(flapKey p \<mapsto> fl_next f)" by (simp add: Flap_Disconnected_def Let_def update_conv')
  have fired: "fl_fired ?f = fl_fired f" and nxt: "fl_next ?f = fl_next f + 1" by (simp_all add: Flap_Disconnected_def Let_def)
  have armed: "fl_armed ?f = fl_armed (stop_timer (flapKey p) f) @ [?x]" by (simp add: Flap_Disconnected_def Let_def)
  have less: "\<forall>x\<in>set (fl_armed f) \<union> set (fl_fired f). tm_id x < fl_next f" using ok by (simp add: flap_ok_def)
  note st = stop_armed [OF ok, of _ "flapKey p"]
  have "\<forall>x\<in>set (fl_armed ?f). timer_of ?f x = Some (tm_id x)"
    using st ok unfolding armed timers by (auto simp: flap_ok_def)
  moreover have "\<forall>x\<in>set (fl_fired ?f). tm_due x \<le> t \<and> timer_of ?f x \<in> {None, Some (tm_id x)}"
    using ok un assms(2) unfolding fired timers by (auto simp: flap_ok_def)
  moreover have "\<forall>x\<in>set (fl_armed ?f) \<union> set (fl_fired ?f). tm_id x < fl_next ?f \<and>
      (timer_of ?f x = Some (tm_id x) \<longrightarrow> (g(flapKey p \<mapsto> t)) (flapKey (tm_who x)) = Some (tm_due x - grace))"
    using st ok un unfolding armed timers fired nxt by (auto simp: flap_ok_def less_Suc_eq)
  moreover have "distinct (map tm_id (fl_armed ?f))"
    using stop_distinct [of f "flapKey p"] ok st(1) less unfolding armed by (auto simp: flap_ok_def)
  moreover have "tm_id ` set (fl_armed ?f) \<inter> tm_id ` set (fl_fired ?f) = {}"
    using ok st(1) less unfolding armed fired by (fastforce simp: flap_ok_def)
  ultimately show ?thesis by (simp add: flap_ok_def)
qed

lemma flap_ok_forget:
  assumes ok: "flap_ok grace t0 g f" and "t0 \<le> t" and sub: "set (fl_armed f') \<subseteq> set (fl_armed f)" "set (fl_fired f') \<subseteq> set (fl_fired f)"
    and "fl_next f' = fl_next f" and timers: "map_of (fl_timers f') = (map_of (fl_timers f))(key := None)"
    and apart: "\<And>x. x \<in> set (fl_armed f') \<Longrightarrow> flapKey (tm_who x) \<noteq> key" and "distinct (map tm_id (fl_armed f'))" and g: "\<And>k. k \<noteq> key \<Longrightarrow> g' k = g k"
  shows "flap_ok grace t g' f'"
proof -
  have "\<forall>x\<in>set (fl_armed f'). timer_of f' x = Some (tm_id x)" using ok sub(1) apart unfolding timers by (auto simp: flap_ok_def)
  moreover have "\<forall>x\<in>set (fl_fired f'). tm_due x \<le> t \<and> timer_of f' x \<in> {None, Some (tm_id x)}"
  proof
    fix x assume "x \<in> set (fl_fired f')"
    then have "tm_due x \<le> t0 \<and> timer_of f x \<in> {None, Some (tm_id x)}" using ok sub(2) unfolding flap_ok_def by blast
    then show "tm_due x \<le> t \<and> timer_of f' x \<in> {None, Some (tm_id x)}" using assms(2) unfolding timers by auto
  qed
  moreover have "\<forall>x\<in>set (fl_armed f') \<union> set (fl_fired f'). tm_id x < fl_next f' \<and>
      (timer_of f' x = Some (tm_id x) \<longrightarrow> g' (flapKey (tm_who x)) = Some (tm_due x - grace))"
    using ok sub g assms(5) unfolding timers by (auto simp: flap_ok_def)
  moreover have "tm_id ` set (fl_armed f') \<inter> tm_id ` set (fl_fired f') = {}" using ok sub unfolding flap_ok_def by blast
  ultimately show ?thesis using assms(8) by (simp add: flap_ok_def)
qed

lemma flap_ok_same:
  assumes "flap_ok grace t0 g f" "t0 \<le> t" "\<And>x. x \<in> set (fl_armed f) \<Longrightarrow> g' (flapKey (tm_who x)) = g (flapKey (tm_who x))"
    "\<And>x. x \<in> set (fl_fired f) \<Longrightarrow> timer_of f x \<noteq> None \<Longrightarrow> g' (flapKey (tm_who x)) = g (flapKey (tm_who x))"
    "set (fl_fired f') \<subseteq> set (fl_fired f)" "f' = f\<lparr>fl_fired := fs\<rparr>"
  shows "flap_ok grace t g' f'"
proof -
  have f: "fl_armed f' = fl_armed f" "fl_timers f' = fl_timers f" "fl_next f' = fl_next f" using assms(6) by simp_all
  have sub: "x \<in> set (fl_fired f)" if "x \<in> set (fl_fired f')" for x using assms(5) that by blast
  have "\<forall>x\<in>set (fl_fired f'). tm_due x \<le> t \<and> timer_of f' x \<in> {None, Some (tm_id x)}"
    using assms(1,2) sub unfolding f by (force simp: flap_ok_def)
  moreover have "\<forall>x\<in>set (fl_armed f') \<union> set (fl_fired f'). tm_id x < fl_next f' \<and>
      (timer_of f' x = Some (tm_id x) \<longrightarrow> g' (flapKey (tm_who x)) = Some (tm_due x - grace))"
    using assms(1,3,4) sub unfolding f by (auto simp: flap_ok_def)
  moreover have "tm_id ` set (fl_armed f') \<inter> tm_id ` set (fl_fired f') = {}" using assms(1,5) unfolding f flap_ok_def by blast
  ultimately show ?thesis using assms(1) unfolding flap_ok_def f by simp
qed

lemma flap_callback_Some:
  assumes "flap_ok grace t0 g f" "fst (flap_callback i f) = Some p"
  obtains x where "x \<in> set (fl_fired f)" "tm_id x = i" "tm_who x = p" "timer_of f x = Some i" "g (flapKey p) = Some (tm_due x - grace)" "tm_due x \<le> t0"
    "snd (flap_callback i f) = f\<lparr>fl_fired := filter (\<lambda>t. tm_id t \<noteq> i) (fl_fired f), fl_timers := AList.delete (flapKey p) (fl_timers f)\<rparr>"
proof -
  obtain x where x: "find (\<lambda>t. tm_id t = i) (fl_fired f) = Some x" "tm_who x = p" "timer_of f x \<noteq> None"
    using assms(2) by (auto simp: flap_callback_def Let_def split: option.splits if_splits)
  have m: "x \<in> set (fl_fired f)" "tm_id x = i" using x(1) by (auto simp: find_Some_iff)
  have "timer_of f x = Some i" using assms(1) m x(3) by (auto simp: flap_ok_def)
  then show thesis using that [of x] m x assms(1) by (auto simp: flap_ok_def flap_callback_def Let_def)
qed

lemma flap_ok_step:
  assumes ok: "flap_ok grace t0 g f" and t: "t0 \<le> ev_time ev" and un: "unhurried f ev"
  shows "flap_ok grace (ev_time ev) (gone_step g ev) (flap_step grace f ev)"
proof (cases ev)
  case (EvDisconnect t p)
  then show ?thesis using flap_ok_disconnect [OF ok] t un by (simp add: unhurried_def)
next
  case (EvConnect t p)
  let ?f = "snd (Flap_Reconnected p f)"
  have "flap_ok grace t (g(flapKey p := None)) ?f"
  proof (cases "map_of (fl_timers f) (flapKey p)")
    case None
    have f: "?f = f" using None by (simp add: Flap_Reconnected_def)
    show ?thesis unfolding f
      by (rule flap_ok_same [OF ok, where fs = "fl_fired f"]) (use t EvConnect None ok in \<open>auto simp: flap_ok_def\<close>)
  next
    case (Some i)
    have f: "?f = (stop_timer (flapKey p) f)\<lparr>fl_timers := AList.delete (flapKey p) (fl_timers f)\<rparr>" using Some by (simp add: Flap_Reconnected_def)
    show ?thesis
      by (rule flap_ok_forget [OF ok, where key = "flapKey p"])
        (use t EvConnect stop_armed [OF ok] stop_distinct ok in \<open>auto simp: f delete_conv' flap_ok_def\<close>)
  qed
  then show ?thesis by (simp add: EvConnect)
next
  case (EvExpire t)
  let ?f = "flap_expire t f"
  have mem: "set (fl_armed ?f) \<union> set (fl_fired ?f) = set (fl_armed f) \<union> set (fl_fired f)" "set (fl_armed ?f) \<subseteq> set (fl_armed f)"
    by (auto simp: flap_expire_def)
  have "tm_id ` set (fl_armed ?f) \<inter> tm_id ` set (fl_fired ?f) = {}"
  proof -
    have "tm_id x \<noteq> tm_id y" if "x \<in> set (fl_armed f)" "t < tm_due x" "y \<in> set (fl_armed f)" "\<not> t < tm_due y" for x y
      using ok that by (auto simp: flap_ok_def distinct_map dest: inj_onD)
    then show ?thesis using ok by (auto simp: flap_ok_def flap_expire_def)
  qed
  moreover have "distinct (map tm_id (fl_armed ?f))" using ok by (simp add: flap_ok_def flap_expire_def distinct_map_filter)
  moreover have "\<forall>x\<in>set (fl_fired ?f). tm_due x \<le> t \<and> timer_of ?f x \<in> {None, Some (tm_id x)}"
    using ok t EvExpire by (fastforce simp: flap_ok_def flap_expire_def)
  moreover have "fl_timers ?f = fl_timers f" "fl_next ?f = fl_next f" by (simp_all add: flap_expire_def)
  ultimately show ?thesis using ok mem EvExpire unfolding flap_ok_def by auto
next
  case (EvCallback t i)
  let ?f = "snd (flap_callback i f)"
  have "flap_ok grace t g ?f"
  proof (cases "fst (flap_callback i f)")
    case None
    have "\<exists>fs. ?f = f\<lparr>fl_fired := fs\<rparr> \<and> set fs \<subseteq> set (fl_fired f)"
    proof (cases "find (\<lambda>t. tm_id t = i) (fl_fired f)")
      case None
      then show ?thesis by (intro exI [of _ "fl_fired f"]) (simp add: flap_callback_def)
    next
      case (Some x)
      then show ?thesis using None
        by (intro exI [of _ "filter (\<lambda>t. tm_id t \<noteq> i) (fl_fired f)"]) (auto simp: flap_callback_def Let_def split: if_splits)
    qed
    then obtain fs where "?f = f\<lparr>fl_fired := fs\<rparr>" "set fs \<subseteq> set (fl_fired f)" by blast
    then show ?thesis by (intro flap_ok_same [OF ok]) (use t EvCallback in auto)
  next
    case (Some p)
    from flap_callback_Some [OF ok Some] obtain x where x: "x \<in> set (fl_fired f)" "tm_id x = i" "tm_who x = p" "timer_of f x = Some i"
      and f: "?f = f\<lparr>fl_fired := filter (\<lambda>t. tm_id t \<noteq> i) (fl_fired f), fl_timers := AList.delete (flapKey p) (fl_timers f)\<rparr>" by blast
    have "flapKey (tm_who y) \<noteq> flapKey p" if "y \<in> set (fl_armed f)" for y
    proof
      assume "flapKey (tm_who y) = flapKey p"
      then have "tm_id y = i" using ok that x by (auto simp: flap_ok_def)
      then show False using ok that x(1,2) by (auto simp: flap_ok_def)
    qed
    then show ?thesis
      by (intro flap_ok_forget [OF ok, where key = "flapKey p"]) (use t EvCallback ok in \<open>auto simp: f delete_conv' flap_ok_def\<close>)
  qed
  then show ?thesis by (simp add: EvCallback)
qed

lemma flap_ok_run:
  "flap_ok grace t0 g f \<Longrightarrow> unhurried_run grace f evs \<Longrightarrow> sorted (t0 # map ev_time evs @ [now]) \<Longrightarrow>
   flap_ok grace now (run gone_step g evs) (run (flap_step grace) f evs)"
proof (induction evs arbitrary: t0 g f)
  case Nil
  then show ?case using flap_ok_same [of grace t0 g f now g f "fl_fired f"] by simp
next
  case (Cons ev evs)
  have "flap_ok grace (ev_time ev) (gone_step g ev) (flap_step grace f ev)"
    using Cons.prems by (intro flap_ok_step) auto
  from Cons.IH [OF this] Cons.prems(2,3) show ?case by simp
qed

end
