(* ===== verification/PresenceProps.thy ===== *)
theory PresenceProps
  imports PresenceFlap
begin

text \<open>
  The properties of presence: who is shown online, when a departure is announced, and whose presence a connection follows.
\<close>

section \<open>Online\<close>



section \<open>Flaps\<close>

text \<open>
A departure is announced only after the grace period: over any connections, disconnections, expiries and callbacks in the order of
their times, provided no device disconnects while an expired timer of its own still waits for the lock, a callback announces a device
only if it has been gone, without coming back, for at least the grace period.
\<close>

theorem offline_after_grace:
  assumes "sorted (map ev_time evs @ [now])" "unhurried_run grace newFlap evs"
    "fst (flap_callback i (run (flap_step grace) newFlap evs)) = Some p"
  shows "\<exists>t. run gone_step Map.empty evs (flapKey p) = Some t \<and> t + grace \<le> now"
proof -
  have "sorted (hd (map ev_time evs @ [now]) # map ev_time evs @ [now])" using assms(1) by (cases evs) auto
  then have "flap_ok grace now (run gone_step Map.empty evs) (run (flap_step grace) newFlap evs)"
    using flap_ok_run [OF flap_ok_new assms(2)] by blast
  from flap_callback_Some [OF this assms(3)] show ?thesis by force
qed

lemmas flap_eval = newFlap_def Flap_Disconnected_def Flap_Reconnected_def flap_expire_def flap_callback_def stop_timer_def unhurried_def
  flapKey_def Let_def

theorem offline_after_grace_witness:
  "\<exists>t. run gone_step Map.empty [EvDisconnect 0 (''u'', ''d''), EvExpire 15000] (flapKey (''u'', ''d'')) = Some t \<and> t + 15000 \<le> 16000"
  by (rule offline_after_grace [of _ _ _ 0]) (simp_all add: flap_eval)

text \<open>
  The proviso is needed: the callback looks for any timer under its key, not for its own. A callback that has lost its timer to a
  reconnection announces the device as soon as it has disconnected again.
\<close>

lemma stale_timer_announces:
  "fst (flap_callback 0 (run (flap_step 15000) newFlap
     [EvDisconnect 0 (''u'', ''d''), EvExpire 15000, EvConnect 15000 (''u'', ''d''), EvDisconnect 15001 (''u'', ''d'')])) = Some (''u'', ''d'')"
  by (simp add: flap_eval)

section \<open>Feeds\<close>

text \<open>
Feeds and subscriptions agree: over any deltas a client sends, with any failures of the broker, a connection follows at most fifty
users, has exactly one presence and one typing feed for each of them and none for anybody else, and follows only users whose presence
it was allowed to see when it asked; closing the connection leaves no feed.
\<close>

theorem presence_feeds_exact:
  "let p = run (\<lambda>p (e, sub, unsub). handlePresenceSub e sub unsub p) newConnPresence deltas
   in length (cp_subs p) \<le> 50 \<and> distinct (cp_active p) \<and> set (cp_active p) = set (cp_subs p) \<times> {PresenceFeed, TypingFeed} \<and>
      set (cp_subs p) \<subseteq> (\<Union>x\<in>set deltas. {u. pe_canSee (fst x) u = Some True}) \<and> cp_active (closeAll p) = []"
proof -
  let ?step = "\<lambda>p (e, sub, unsub). handlePresenceSub e sub unsub p"
  have "feeds_ok seen p \<Longrightarrow> feeds_ok (seen \<union> (\<Union>x\<in>set deltas. {u. pe_canSee (fst x) u = Some True})) (run ?step p deltas)" for seen p
  proof (induction deltas arbitrary: seen p)
    case (Cons x deltas)
    obtain e sub unsub where x: "x = (e, sub, unsub)" by (cases x)
    from Cons.IH [OF feeds_sub [OF Cons.prems, of e sub unsub]] show ?case by (simp add: x Un_assoc)
  qed simp
  from this [OF feeds_new] have ok: "feeds_ok (\<Union>x\<in>set deltas. {u. pe_canSee (fst x) u = Some True}) (run ?step newConnPresence deltas)" by simp
  with feeds_closeAll [OF ok] show ?thesis by (simp add: feeds_ok_def feeds_of_def Let_def MaxSubscriptions_def)
qed

end
