(* ===== verification/Keys.thy ===== *)
theory Keys
  imports AuthStore RateLimit
begin

text \<open>
  Distribution of prekey bundles (\<^verbatim>\<open>keys/\<close>): the tables of signed and one-time prekeys, the PostgreSQL store and the
  service. A bundle is fetched in a transaction that claims one one-time prekey per device with
  \<^verbatim>\<open>FOR UPDATE SKIP LOCKED\<close>; the transactions of concurrent fetches interleave device by device, which \<open>keys_step\<close>
  models with row locks.
\<close>

section \<open>Tables\<close>

record signed_prekey =
  sp_KeyID :: int
  sp_Pubkey :: string
  sp_Signature :: string

record one_time_prekey =
  ot_KeyID :: int
  ot_Pubkey :: string

record device_bundle =
  bu_DeviceID :: string
  bu_IdentityKey :: string
  bu_SignedPrekey :: signed_prekey
  bu_OneTimePrekey :: "one_time_prekey option"

definition MaxOneTimePrekeysPerUpload :: nat where "MaxOneTimePrekeysPerUpload = 100"
definition LowWaterMark :: nat where "LowWaterMark = 20"

record signed_row =
  sr_DeviceID :: string
  sr_Key :: signed_prekey

text \<open>\<open>pr_Lock\<close> is the transaction that has updated the row and not yet ended.\<close>

record prekey_row =
  pr_DeviceID :: string
  pr_KeyID :: int
  pr_Pubkey :: string
  pr_ConsumedAt :: "instant option"
  pr_Lock :: "nat option"

definition pr_key :: "prekey_row \<Rightarrow> string \<times> int" where
  "pr_key r = (pr_DeviceID r, pr_KeyID r)"

record keys_db =
  kd_Devices :: "device_row list"
  kd_Signed :: "signed_row list"
  kd_Prekeys :: "prekey_row list"

section \<open>The store\<close>

text \<open>Both inserts refer to a device row; an unknown device violates the foreign key and the statement fails.\<close>

definition ReplaceSignedPrekey :: "string \<Rightarrow> signed_prekey \<Rightarrow> keys_db \<Rightarrow> keys_db option" where
  "ReplaceSignedPrekey d sp db =
     (if d \<notin> de_ID ` set (kd_Devices db) then None
      else Some (db\<lparr>kd_Signed :=
        (if list_ex (\<lambda>r. sr_DeviceID r = d \<and> sp_KeyID (sr_Key r) = sp_KeyID sp) (kd_Signed db)
         then map (\<lambda>r. if sr_DeviceID r = d \<and> sp_KeyID (sr_Key r) = sp_KeyID sp then r\<lparr>sr_Key := sp\<rparr> else r) (kd_Signed db)
         else kd_Signed db @ [\<lparr>sr_DeviceID = d, sr_Key = sp\<rparr>])\<rparr>))"

definition add_prekey :: "string \<Rightarrow> one_time_prekey \<Rightarrow> prekey_row list \<Rightarrow> prekey_row list" where
  "add_prekey d k rows =
     (case tbl_ins pr_key
        \<lparr>pr_DeviceID = d, pr_KeyID = ot_KeyID k, pr_Pubkey = ot_Pubkey k, pr_ConsumedAt = None, pr_Lock = None\<rparr> rows of
        None \<Rightarrow> rows | Some rows' \<Rightarrow> rows')"

definition AddOneTimePrekeys :: "string \<Rightarrow> one_time_prekey list \<Rightarrow> keys_db \<Rightarrow> keys_db option" where
  "AddOneTimePrekeys d ks db =
     (if ks \<noteq> [] \<and> d \<notin> de_ID ` set (kd_Devices db) then None
      else Some (db\<lparr>kd_Prekeys := fold (add_prekey d) ks (kd_Prekeys db)\<rparr>))"

definition CountAvailable :: "string \<Rightarrow> keys_db \<Rightarrow> nat" where
  "CountAvailable d db = length (filter (\<lambda>r. pr_DeviceID r = d \<and> pr_ConsumedAt r = None) (kd_Prekeys db))"

definition first_row :: "'r list \<Rightarrow> 'r option" where
  "first_row rows = (case rows of [] \<Rightarrow> None | r # _ \<Rightarrow> Some r)"

definition current_signed :: "string \<Rightarrow> keys_db \<Rightarrow> signed_prekey option" where
  "current_signed d db =
     first_row (order_desc sp_KeyID (map sr_Key (filter (\<lambda>r. sr_DeviceID r = d) (kd_Signed db))))"

text \<open>The \<^verbatim>\<open>picked\<close> query: the lowest key that is neither consumed nor locked.\<close>

definition claimable :: "string \<Rightarrow> prekey_row \<Rightarrow> bool" where
  "claimable d r \<longleftrightarrow> pr_DeviceID r = d \<and> pr_ConsumedAt r = None \<and> pr_Lock r = None"

definition picked :: "string \<Rightarrow> prekey_row list \<Rightarrow> prekey_row option" where
  "picked d rows = first_row (order_asc pr_KeyID (filter (claimable d) rows))"

text \<open>One turn of the loop over the devices, in transaction \<open>t\<close>.\<close>

definition consume_device :: "nat \<Rightarrow> device_row \<Rightarrow> keys_db \<Rightarrow> device_bundle option \<times> keys_db" where
  "consume_device t d db =
     (case current_signed (de_ID d) db of
        None \<Rightarrow> (None, db)
      | Some sp \<Rightarrow>
          let b = \<lparr>bu_DeviceID = de_ID d, bu_IdentityKey = de_IdentityKey d, bu_SignedPrekey = sp, bu_OneTimePrekey = None\<rparr>
          in case picked (de_ID d) (kd_Prekeys db) of
               None \<Rightarrow> (Some b, db)
             | Some r \<Rightarrow>
                 (Some (b\<lparr>bu_OneTimePrekey := Some \<lparr>ot_KeyID = pr_KeyID r, ot_Pubkey = pr_Pubkey r\<rparr>\<rparr>),
                  db\<lparr>kd_Prekeys := tbl_upd pr_key (pr_key r) (\<lambda>r. r\<lparr>pr_Lock := Some t\<rparr>) (kd_Prekeys db)\<rparr>))"

definition tx_devices :: "string \<Rightarrow> keys_db \<Rightarrow> device_row list" where
  "tx_devices u db = filter (\<lambda>d. de_UserID d = u \<and> de_RevokedAt d = None) (kd_Devices db)"

definition tx_commit :: "nat \<Rightarrow> instant \<Rightarrow> keys_db \<Rightarrow> keys_db" where
  "tx_commit t now db = db\<lparr>kd_Prekeys :=
     map (\<lambda>r. if pr_Lock r = Some t then r\<lparr>pr_ConsumedAt := Some now, pr_Lock := None\<rparr> else r) (kd_Prekeys db)\<rparr>"

definition tx_rollback :: "nat \<Rightarrow> keys_db \<Rightarrow> keys_db" where
  "tx_rollback t db = db\<lparr>kd_Prekeys := map (\<lambda>r. if pr_Lock r = Some t then r\<lparr>pr_Lock := None\<rparr> else r) (kd_Prekeys db)\<rparr>"

fun consume_all :: "nat \<Rightarrow> device_row list \<Rightarrow> keys_db \<Rightarrow> device_bundle list \<times> keys_db" where
  "consume_all t [] db = ([], db)"
| "consume_all t (d # ds) db =
     (let (b, db1) = consume_device t d db; (bs, db2) = consume_all t ds db1 in (opt_list b @ bs, db2))"

datatype keys_error = ErrNoDevices | ErrStore

text \<open>A whole transaction with nothing in between; with \<open>down\<close> it fails somewhere and rolls back.\<close>

definition ConsumeBundle ::
  "bool \<Rightarrow> nat \<Rightarrow> instant \<Rightarrow> string \<Rightarrow> keys_db \<Rightarrow> (keys_error + device_bundle list) \<times> keys_db" where
  "ConsumeBundle down t now u db =
     (if down then (Inl ErrStore, db)
      else if tx_devices u db = [] then (Inl ErrNoDevices, db)
      else let (bs, db1) = consume_all t (tx_devices u db) db in (Inr bs, tx_commit t now db1))"

section \<open>The service\<close>

datatype keys_call = KSigned | KAdd | KCount | KConsume | KLimiter

record keys_env =
  ke_now :: instant
  ke_tx :: nat
  ke_fails :: "keys_call \<Rightarrow> bool"

record publish_result =
  pu_Available :: nat
  pu_LowWater :: bool

definition store_or :: "bool \<Rightarrow> 's option \<Rightarrow> 's option" where
  "store_or down r = (if down then None else r)"

definition VALIDATION_PREKEYS :: api_error where "VALIDATION_PREKEYS = Reject 400 ''VALIDATION_PREKEYS''"

definition Publish ::
  "keys_env \<Rightarrow> string \<Rightarrow> signed_prekey \<Rightarrow> one_time_prekey list \<Rightarrow> keys_db \<Rightarrow> publish_result result \<times> keys_db" where
  "Publish e d sp otps db =
     (if sp_Pubkey sp = [] \<or> sp_Signature sp = [] then (Inl VALIDATION_PREKEYS, db)
      else if length otps > MaxOneTimePrekeysPerUpload then (Inl VALIDATION_PREKEYS, db)
      else if list_ex (\<lambda>k. ot_Pubkey k = []) otps then (Inl VALIDATION_PREKEYS, db)
      else case store_or (ke_fails e KSigned) (ReplaceSignedPrekey d sp db) of
        None \<Rightarrow> (Inl Transient, db)
      | Some db1 \<Rightarrow>
          (case (if otps = [] then Some db1 else store_or (ke_fails e KAdd) (AddOneTimePrekeys d otps db1)) of
             None \<Rightarrow> (Inl Transient, db1)
           | Some db2 \<Rightarrow>
               if ke_fails e KCount then (Inl Transient, db2)
               else (Inr \<lparr>pu_Available = CountAvailable d db2, pu_LowWater = (CountAvailable d db2 < LowWaterMark)\<rparr>, db2)))"

definition bundle_limit :: params where "bundle_limit = \<lparr>pm_Rate = 10, pm_Burst = 30\<rparr>"

definition USER_NOT_FOUND :: api_error where "USER_NOT_FOUND = Reject 404 ''USER_NOT_FOUND''"
definition TOO_MANY_BUNDLES :: api_error where "TOO_MANY_BUNDLES = APIError ''RATE_LIMITED'' 429 True"

definition FetchBundle ::
  "keys_env \<Rightarrow> string \<Rightarrow> string \<Rightarrow> keys_db \<times> valkey_limiter \<Rightarrow> device_bundle list result \<times> keys_db \<times> valkey_limiter" where
  "FetchBundle e requester target s =
     (let (db, m) = s in
      case Valkey_Allow (ke_fails e KLimiter) (ke_now e div Microsecond) (''rl:keys:bundle:'' @ requester) bundle_limit m of
        (None, m1) \<Rightarrow> (Inl Transient, db, m1)
      | (Some res, m1) \<Rightarrow>
          if \<not> rl_Allowed res then (Inl TOO_MANY_BUNDLES, db, m1)
          else case ConsumeBundle (ke_fails e KConsume) (ke_tx e) (ke_now e) target db of
            (Inl ErrNoDevices, db1) \<Rightarrow> (Inl USER_NOT_FOUND, db1, m1)
          | (Inl ErrStore, db1) \<Rightarrow> (Inl Transient, db1, m1)
          | (Inr bs, db1) \<Rightarrow> if bs = [] then (Inl USER_NOT_FOUND, db1, m1) else (Inr bs, db1, m1))"

section \<open>Interleaved transactions\<close>

record keys_tx =
  kx_Now :: instant
  kx_Todo :: "device_row list"
  kx_Bundles :: "device_bundle list"

text \<open>\<open>ks_Out\<close> is what the committed fetches have returned.\<close>

record keys_sys =
  ks_db :: keys_db
  ks_txs :: "nat \<Rightarrow> keys_tx option"
  ks_Out :: "device_bundle list"

datatype keys_op =
    KRegister device_row
  | KPublishSigned string signed_prekey
  | KPublishOtps string "one_time_prekey list"
  | KBegin nat instant string
  | KNext nat
  | KCommit nat
  | KAbort nat
  | KRevoke string string instant

definition keys_start :: keys_sys where
  "keys_start = \<lparr>ks_db = \<lparr>kd_Devices = [], kd_Signed = [], kd_Prekeys = []\<rparr>, ks_txs = Map.empty, ks_Out = []\<rparr>"

text \<open>
  Revoking a device deletes its prekeys; the deletion waits for the transactions that hold one of them, so the step
  does nothing until they have ended.
\<close>

definition revoke_keys :: "string \<Rightarrow> string \<Rightarrow> instant \<Rightarrow> keys_db \<Rightarrow> keys_db" where
  "revoke_keys u i t_at db =
     (if \<not> list_ex (owned_active u i) (kd_Devices db) \<or> list_ex (\<lambda>r. pr_DeviceID r = i \<and> pr_Lock r \<noteq> None) (kd_Prekeys db) then db
      else db\<lparr>
        kd_Devices := map (\<lambda>d. if owned_active u i d then d\<lparr>de_RevokedAt := Some t_at\<rparr> else d) (kd_Devices db),
        kd_Signed := filter (\<lambda>r. sr_DeviceID r \<noteq> i) (kd_Signed db),
        kd_Prekeys := filter (\<lambda>r. pr_DeviceID r \<noteq> i) (kd_Prekeys db)\<rparr>)"

fun keys_step :: "keys_sys \<Rightarrow> keys_op \<Rightarrow> keys_sys" where
  "keys_step s (KRegister d) =
     (case tbl_ins de_ID d (kd_Devices (ks_db s)) of
        None \<Rightarrow> s | Some ds \<Rightarrow> s\<lparr>ks_db := (ks_db s)\<lparr>kd_Devices := ds\<rparr>\<rparr>)"
| "keys_step s (KPublishSigned d sp) =
     (case ReplaceSignedPrekey d sp (ks_db s) of None \<Rightarrow> s | Some db \<Rightarrow> s\<lparr>ks_db := db\<rparr>)"
| "keys_step s (KPublishOtps d ks) =
     (case AddOneTimePrekeys d ks (ks_db s) of None \<Rightarrow> s | Some db \<Rightarrow> s\<lparr>ks_db := db\<rparr>)"
| "keys_step s (KBegin t now u) =
     (if ks_txs s t \<noteq> None \<or> tx_devices u (ks_db s) = [] then s
      else s\<lparr>ks_txs := (ks_txs s)(t \<mapsto> \<lparr>kx_Now = now, kx_Todo = tx_devices u (ks_db s), kx_Bundles = []\<rparr>)\<rparr>)"
| "keys_step s (KNext t) =
     (case ks_txs s t of
        None \<Rightarrow> s
      | Some x \<Rightarrow>
          (case kx_Todo x of
             [] \<Rightarrow> s
           | d # ds \<Rightarrow>
               let (b, db1) = consume_device t d (ks_db s)
               in s\<lparr>ks_db := db1, ks_txs := (ks_txs s)(t \<mapsto> x\<lparr>kx_Todo := ds, kx_Bundles := kx_Bundles x @ opt_list b\<rparr>)\<rparr>))"
| "keys_step s (KCommit t) =
     (case ks_txs s t of
        None \<Rightarrow> s
      | Some x \<Rightarrow>
          if kx_Todo x \<noteq> [] then s
          else s\<lparr>ks_db := tx_commit t (kx_Now x) (ks_db s), ks_txs := (ks_txs s)(t := None), ks_Out := ks_Out s @ kx_Bundles x\<rparr>)"
| "keys_step s (KAbort t) =
     (case ks_txs s t of
        None \<Rightarrow> s
      | Some x \<Rightarrow> s\<lparr>ks_db := tx_rollback t (ks_db s), ks_txs := (ks_txs s)(t := None)\<rparr>)"
| "keys_step s (KRevoke u i t_at) = s\<lparr>ks_db := revoke_keys u i t_at (ks_db s)\<rparr>"

end
