(* ===== verification/KeysProps.thy ===== *)
theory KeysProps
  imports Keys Contracts
begin

text \<open>
  What the prekey store guarantees: over any interleaving of uploads, fetches, commits and rollbacks a one-time prekey
  is handed out once, and what a fetch returns.
\<close>

section \<open>Keys in bundles and rows\<close>

fun bundle_keys :: "string \<Rightarrow> device_bundle list \<Rightarrow> one_time_prekey list" where
  "bundle_keys d [] = []"
| "bundle_keys d (b # bs) = (if bu_DeviceID b = d then opt_list (bu_OneTimePrekey b) else []) @ bundle_keys d bs"

lemma bundle_keys_append [simp]: "bundle_keys d (bs @ cs) = bundle_keys d bs @ bundle_keys d cs"
  by (induction bs) auto

abbreviation the_row :: "string \<Rightarrow> keys_db \<Rightarrow> int \<Rightarrow> prekey_row option" where
  "the_row d db k \<equiv> tbl_get pr_key (d, k) (kd_Prekeys db)"

definition has_row :: "string \<Rightarrow> keys_db \<Rightarrow> instant option set \<Rightarrow> nat option set \<Rightarrow> one_time_prekey \<Rightarrow> bool" where
  "has_row d db C L k \<longleftrightarrow>
     (case the_row d db (ot_KeyID k) of
        None \<Rightarrow> False
      | Some r \<Rightarrow> pr_Pubkey r = ot_Pubkey k \<and> pr_ConsumedAt r \<in> C \<and> pr_Lock r \<in> L)"

abbreviation spent :: "string \<Rightarrow> keys_db \<Rightarrow> one_time_prekey \<Rightarrow> bool" where
  "spent d db \<equiv> has_row d db (- {None}) {None}"

abbreviation held_by :: "string \<Rightarrow> keys_db \<Rightarrow> nat \<Rightarrow> one_time_prekey \<Rightarrow> bool" where
  "held_by d db t \<equiv> has_row d db {None} {Some t}"

definition keys_wf :: "string \<Rightarrow> one_time_prekey set \<Rightarrow> keys_db \<Rightarrow> bool" where
  "keys_wf d U db \<longleftrightarrow> tbl_wf pr_key (kd_Prekeys db) \<and>
     (\<forall>r \<in> set (kd_Prekeys db). pr_DeviceID r = d \<longrightarrow> \<lparr>ot_KeyID = pr_KeyID r, ot_Pubkey = pr_Pubkey r\<rparr> \<in> U)"

definition keys_inv :: "string \<Rightarrow> one_time_prekey set \<Rightarrow> keys_sys \<Rightarrow> bool" where
  "keys_inv d U s \<longleftrightarrow> keys_wf d U (ks_db s) \<and>
     distinct (map ot_KeyID (bundle_keys d (ks_Out s))) \<and>
     (\<forall>k \<in> set (bundle_keys d (ks_Out s)). k \<in> U \<and> spent d (ks_db s) k) \<and>
     (\<forall>t x. ks_txs s t = Some x \<longrightarrow> distinct (map ot_KeyID (bundle_keys d (kx_Bundles x))) \<and>
       (\<forall>k \<in> set (bundle_keys d (kx_Bundles x)). k \<in> U \<and> held_by d (ks_db s) t k))"

lemma first_row_Some: "first_row xs = Some r \<Longrightarrow> r \<in> set xs"
  by (cases xs) (auto simp: first_row_def)

lemma first_row_None: "first_row xs = None \<longleftrightarrow> xs = []"
  by (cases xs) (auto simp: first_row_def)

lemma picked_Some: "picked d rows = Some r \<Longrightarrow> r \<in> set rows \<and> claimable d r"
  using first_row_Some [of "order_asc pr_KeyID (filter (claimable d) rows)" r] by (simp add: picked_def)

section \<open>Uploads\<close>

lemma add_prekey_get:
  "tbl_get pr_key k rows = Some r \<Longrightarrow> tbl_get pr_key k (add_prekey d o1 rows) = Some r"
  by (auto simp: add_prekey_def tbl_ins_def tbl_get_append split: option.splits)

lemma add_prekeys_get:
  "tbl_get pr_key k rows = Some r \<Longrightarrow> tbl_get pr_key k (fold (add_prekey d) ks rows) = Some r"
  by (induction ks arbitrary: rows) (auto intro: add_prekey_get)

lemma has_row_kept:
  assumes "\<And>k r. the_row d db k = Some r \<Longrightarrow> the_row d db' k = Some r" and "has_row d db C L k"
  shows "has_row d db' C L k"
  using assms(2) assms(1) [of "ot_KeyID k"] by (simp add: has_row_def split: option.splits)

lemma add_prekey_wf: "tbl_wf pr_key rows \<Longrightarrow> tbl_wf pr_key (add_prekey d k rows)"
  by (auto simp: add_prekey_def split: option.splits intro: tbl_wf_ins)

lemma add_prekeys_wf: "tbl_wf pr_key rows \<Longrightarrow> tbl_wf pr_key (fold (add_prekey d) ks rows)"
  by (induction ks arbitrary: rows) (auto intro: add_prekey_wf)

lemma add_prekeys_set:
  "r \<in> set (fold (add_prekey d) ks rows) \<Longrightarrow>
   r \<in> set rows \<or> pr_DeviceID r = d \<and> \<lparr>ot_KeyID = pr_KeyID r, ot_Pubkey = pr_Pubkey r\<rparr> \<in> set ks"
proof (induction ks arbitrary: rows)
  case (Cons k ks)
  from Cons.prems Cons.IH [of "add_prekey d k rows"] show ?case
    by (auto simp: add_prekey_def tbl_ins_def split: option.splits if_splits)
qed simp

section \<open>Claims, commits and rollbacks\<close>

lemma pr_key_upd [simp]:
  "pr_key (r\<lparr>pr_Lock := l\<rparr>) = pr_key r" "pr_key (r\<lparr>pr_ConsumedAt := c\<rparr>) = pr_key r"
  by (simp_all add: pr_key_def)

lemma tbl_get_map:
  "(\<And>r. key (f r) = key r) \<Longrightarrow> tbl_get key k (map f rows) = map_option f (tbl_get key k rows)"
  by (induction rows) (auto simp: tbl_get_Cons)

lemma the_row_commit:
  "the_row d (tx_commit t now db) k =
     map_option (\<lambda>r. if pr_Lock r = Some t then r\<lparr>pr_ConsumedAt := Some now, pr_Lock := None\<rparr> else r) (the_row d db k)"
  using tbl_get_map [of pr_key "\<lambda>r. if pr_Lock r = Some t then r\<lparr>pr_ConsumedAt := Some now, pr_Lock := None\<rparr> else r"]
  by (simp add: tx_commit_def)

lemma the_row_rollback:
  "the_row d (tx_rollback t db) k = map_option (\<lambda>r. if pr_Lock r = Some t then r\<lparr>pr_Lock := None\<rparr> else r) (the_row d db k)"
  using tbl_get_map [of pr_key "\<lambda>r. if pr_Lock r = Some t then r\<lparr>pr_Lock := None\<rparr> else r"]
  by (simp add: tx_rollback_def)

lemma commit_spends: "held_by d db t k \<Longrightarrow> spent d (tx_commit t now db) k"
  by (auto simp: has_row_def the_row_commit split: option.splits)

lemma commit_others:
  "spent d db k \<Longrightarrow> spent d (tx_commit t now db) k"
  "t' \<noteq> t \<Longrightarrow> held_by d db t' k \<Longrightarrow> held_by d (tx_commit t now db) t' k"
  by (auto simp: has_row_def the_row_commit split: option.splits)

lemma rollback_others:
  "spent d db k \<Longrightarrow> spent d (tx_rollback t db) k"
  "t' \<noteq> t \<Longrightarrow> held_by d db t' k \<Longrightarrow> held_by d (tx_rollback t db) t' k"
  by (auto simp: has_row_def the_row_rollback split: option.splits)

lemma keys_wf_ended: "keys_wf d U db \<Longrightarrow> keys_wf d U (tx_commit t now db)" "keys_wf d U db \<Longrightarrow> keys_wf d U (tx_rollback t db)"
  by (auto simp: keys_wf_def tx_commit_def tx_rollback_def intro: tbl_wf_map)

text \<open>A claim takes a row that is neither consumed nor locked, so the keys handed out or held_by before are other ones.\<close>

lemma consume_device_cases:
  assumes "consume_device t v db = (b, db')"
  obtains (same) "db' = db" "\<And>d. bundle_keys d (opt_list b) = []"
  | (claimed) r where "picked (de_ID v) (kd_Prekeys db) = Some r"
      "db' = db\<lparr>kd_Prekeys := tbl_upd pr_key (pr_key r) (\<lambda>r. r\<lparr>pr_Lock := Some t\<rparr>) (kd_Prekeys db)\<rparr>"
      "\<And>d. bundle_keys d (opt_list b) =
         (if d = de_ID v then [\<lparr>ot_KeyID = pr_KeyID r, ot_Pubkey = pr_Pubkey r\<rparr>] else [])"
  using assms
  by (cases "current_signed (de_ID v) db"; cases "picked (de_ID v) (kd_Prekeys db)")
     (auto simp: consume_device_def opt_list_def Let_def)

lemma claim_row:
  assumes "keys_wf d U db" "picked (de_ID v) (kd_Prekeys db) = Some r"
  shows "the_row (de_ID v) db (pr_KeyID r) = Some r \<and> pr_ConsumedAt r = None \<and> pr_Lock r = None \<and> pr_DeviceID r = de_ID v"
  using picked_Some [OF assms(2)] assms(1) tbl_get_wf [of pr_key "kd_Prekeys db" r]
  by (simp add: keys_wf_def claimable_def pr_key_def)

lemma claim_keeps:
  assumes wf: "keys_wf d U db" and c: "consume_device t v db = (b, db')"
  shows "spent d db k \<Longrightarrow> spent d db' k" and "held_by d db t' k \<Longrightarrow> held_by d db' t' k"
    and "k \<in> set (bundle_keys d (opt_list b)) \<Longrightarrow> k \<in> U \<and> held_by d db' t k"
    and "k \<in> set (bundle_keys d (opt_list b)) \<Longrightarrow> has_row d db {None} {None} k"
    and "keys_wf d U db'"
proof -
  have other: "has_row d db' C L k" if "has_row d db C L k" "None \<notin> C \<or> None \<notin> L" for C L
    using c
  proof (cases rule: consume_device_cases)
    case (claimed r)
    with claim_row [OF wf claimed(1)] that show ?thesis
      by (auto simp: has_row_def tbl_get_upd pr_key_def split: if_splits option.splits)
  qed (use that in simp)
  show "spent d db k \<Longrightarrow> spent d db' k" "held_by d db t' k \<Longrightarrow> held_by d db' t' k"
    by (rule other; simp)+
  show "k \<in> set (bundle_keys d (opt_list b)) \<Longrightarrow> k \<in> U \<and> held_by d db' t k"
    using c
  proof (cases rule: consume_device_cases)
    case (claimed r)
    with claim_row [OF wf claimed(1)] picked_Some [OF claimed(1)] wf
    show "k \<in> set (bundle_keys d (opt_list b)) \<Longrightarrow> k \<in> U \<and> held_by d db' t k"
      by (auto simp: has_row_def tbl_get_upd pr_key_def keys_wf_def split: if_splits)
  qed simp
  show "k \<in> set (bundle_keys d (opt_list b)) \<Longrightarrow> has_row d db {None} {None} k"
    using c
    by (cases rule: consume_device_cases)
       (use claim_row [OF wf, of v] in \<open>auto simp: has_row_def split: if_splits\<close>)
  show "keys_wf d U db'"
    using c wf
    by (cases rule: consume_device_cases)
       (auto simp: keys_wf_def set_tbl_upd intro!: tbl_wf_upd split: if_splits)
qed

lemma has_row_disjoint:
  "has_row d db C L k \<Longrightarrow> has_row d db C' L' k' \<Longrightarrow> C \<inter> C' = {} \<or> L \<inter> L' = {} \<Longrightarrow> ot_KeyID k \<noteq> ot_KeyID k'"
  by (auto simp: has_row_def split: option.splits)

section \<open>One-time prekeys are handed out once\<close>

fun spares :: "string \<Rightarrow> keys_op \<Rightarrow> bool" where
  "spares d (KRevoke u i t_at) \<longleftrightarrow> i \<noteq> d"
| "spares d op \<longleftrightarrow> True"

fun uploads :: "string \<Rightarrow> keys_op \<Rightarrow> one_time_prekey set" where
  "uploads d (KPublishOtps i ks) = (if i = d then set ks else {})"
| "uploads d op = {}"

lemma keys_inv_db:
  assumes "keys_inv d U s" "keys_wf d U db"
    "\<And>k. spent d (ks_db s) k \<Longrightarrow> spent d db k" "\<And>t k. held_by d (ks_db s) t k \<Longrightarrow> held_by d db t k"
  shows "keys_inv d U (s\<lparr>ks_db := db\<rparr>)"
  using assms unfolding keys_inv_def by simp

lemma keys_inv_next:
  assumes i: "keys_inv d U s" and x: "ks_txs s t = Some x" and c: "consume_device t v (ks_db s) = (b, db')"
  shows "keys_inv d U (s\<lparr>ks_db := db', ks_txs := (ks_txs s)(t \<mapsto> x\<lparr>kx_Todo := ds, kx_Bundles := kx_Bundles x @ opt_list b\<rparr>)\<rparr>)"
proof -
  have wf: "keys_wf d U (ks_db s)" using i by (simp add: keys_inv_def)
  note keep = claim_keeps [OF wf c]
  have old: "distinct (map ot_KeyID (bundle_keys d (kx_Bundles x)))"
    "\<And>k. k \<in> set (bundle_keys d (kx_Bundles x)) \<Longrightarrow> k \<in> U \<and> held_by d (ks_db s) t k"
    using i x unfolding keys_inv_def by blast+
  have new: "distinct (map ot_KeyID (bundle_keys d (opt_list b)))"
    using c by (cases rule: consume_device_cases) auto
  have fresh: "ot_KeyID k \<noteq> ot_KeyID k'"
    if "k \<in> set (bundle_keys d (kx_Bundles x))" "k' \<in> set (bundle_keys d (opt_list b))" for k k'
    using has_row_disjoint [OF conjunct2 [OF old(2) [OF that(1)]] keep(4) [OF that(2)]] by simp
  have "distinct (map ot_KeyID (bundle_keys d (kx_Bundles x @ opt_list b)))"
    using old(1) new fresh by (auto simp del: bundle_keys.simps)
  moreover have "k \<in> U \<and> held_by d db' t k" if "k \<in> set (bundle_keys d (kx_Bundles x @ opt_list b))" for k
    using that old(2) keep(2,3) by auto
  ultimately show ?thesis
    using keys_inv_db [OF i keep(5)] keep(1,2) unfolding keys_inv_def by simp
qed

lemma keys_inv_commit:
  assumes i: "keys_inv d U s" and x: "ks_txs s t = Some x"
  shows "keys_inv d U (s\<lparr>ks_db := tx_commit t now (ks_db s), ks_txs := (ks_txs s)(t := None), ks_Out := ks_Out s @ kx_Bundles x\<rparr>)"
proof -
  have out: "distinct (map ot_KeyID (bundle_keys d (ks_Out s)))"
      "\<And>k. k \<in> set (bundle_keys d (ks_Out s)) \<Longrightarrow> k \<in> U \<and> spent d (ks_db s) k"
    and tx: "distinct (map ot_KeyID (bundle_keys d (kx_Bundles x)))"
      "\<And>k. k \<in> set (bundle_keys d (kx_Bundles x)) \<Longrightarrow> k \<in> U \<and> held_by d (ks_db s) t k"
    using i x unfolding keys_inv_def by blast+
  have "ot_KeyID k \<noteq> ot_KeyID k'"
    if "k \<in> set (bundle_keys d (ks_Out s))" "k' \<in> set (bundle_keys d (kx_Bundles x))" for k k'
    using has_row_disjoint [OF conjunct2 [OF out(2) [OF that(1)]] conjunct2 [OF tx(2) [OF that(2)]]] by simp
  then have "distinct (map ot_KeyID (bundle_keys d (ks_Out s @ kx_Bundles x)))"
    using out(1) tx(1) by auto
  moreover have "k \<in> U \<and> spent d (tx_commit t now (ks_db s)) k" if "k \<in> set (bundle_keys d (ks_Out s @ kx_Bundles x))" for k
    using that out(2) tx(2) commit_spends commit_others(1) by auto
  moreover have "keys_wf d U (tx_commit t now (ks_db s))" using i by (simp add: keys_inv_def keys_wf_ended)
  ultimately show ?thesis
    using i commit_others(2) [of _ t d "ks_db s" _ now] unfolding keys_inv_def by simp
qed

lemma keys_inv_abort:
  assumes "keys_inv d U s"
  shows "keys_inv d U (s\<lparr>ks_db := tx_rollback t (ks_db s), ks_txs := (ks_txs s)(t := None)\<rparr>)"
  using assms rollback_others(1) [of d "ks_db s" _ t] rollback_others(2) [of _ t d "ks_db s"] keys_wf_ended(2) [of d U "ks_db s" t]
  unfolding keys_inv_def by simp

lemma keys_inv_publish:
  assumes i: "keys_inv d U s" and u: "v = d \<Longrightarrow> set ks \<subseteq> U" and a: "AddOneTimePrekeys v ks (ks_db s) = Some db"
  shows "keys_inv d U (s\<lparr>ks_db := db\<rparr>)"
proof (rule keys_inv_db [OF i])
  have db: "kd_Prekeys db = fold (add_prekey v) ks (kd_Prekeys (ks_db s))"
    using a by (auto simp: AddOneTimePrekeys_def split: if_splits)
  have "keys_wf d U (ks_db s)" using i by (simp add: keys_inv_def)
  then show "keys_wf d U db"
    using add_prekeys_set [of _ v ks "kd_Prekeys (ks_db s)"] u unfolding keys_wf_def db by (auto intro: add_prekeys_wf)
  show "spent d (ks_db s) k \<Longrightarrow> spent d db k" for k by (rule has_row_kept) (auto simp: db intro: add_prekeys_get)
  show "held_by d (ks_db s) t k \<Longrightarrow> held_by d db t k" for t k by (rule has_row_kept) (auto simp: db intro: add_prekeys_get)
qed

lemma tbl_get_filter: "(\<And>r. key r = k \<Longrightarrow> P r) \<Longrightarrow> tbl_get key k (filter P rows) = tbl_get key k rows"
  by (induction rows) (auto simp: tbl_get_Cons)

lemma keys_inv_revoke:
  assumes i: "keys_inv d U s" and "v \<noteq> d"
  shows "keys_inv d U (s\<lparr>ks_db := revoke_keys u v t_at (ks_db s)\<rparr>)"
proof (rule keys_inv_db [OF i])
  have row: "the_row d (revoke_keys u v t_at (ks_db s)) k = the_row d (ks_db s) k" for k
    using assms(2) by (auto simp: revoke_keys_def pr_key_def intro!: tbl_get_filter)
  have "keys_wf d U (ks_db s)" using i by (simp add: keys_inv_def)
  then show "keys_wf d U (revoke_keys u v t_at (ks_db s))"
    by (auto simp: keys_wf_def revoke_keys_def tbl_wf_def distinct_map_filter)
  show "spent d (ks_db s) k \<Longrightarrow> spent d (revoke_keys u v t_at (ks_db s)) k" for k
    by (rule has_row_kept) (simp_all add: row)
  show "held_by d (ks_db s) t k \<Longrightarrow> held_by d (revoke_keys u v t_at (ks_db s)) t k" for t k
    by (rule has_row_kept) (simp_all add: row)
qed

lemma keys_inv_other: "keys_inv d U s \<Longrightarrow> kd_Prekeys db = kd_Prekeys (ks_db s) \<Longrightarrow> keys_inv d U (s\<lparr>ks_db := db\<rparr>)"
  by (rule keys_inv_db) (auto simp: keys_inv_def keys_wf_def has_row_def)

lemma keys_inv_step:
  assumes i: "keys_inv d U s" and op: "spares d op" "uploads d op \<subseteq> U"
  shows "keys_inv d U (keys_step s op)"
proof (cases op)
  case (KPublishSigned v sp)
  with i show ?thesis by (auto simp: ReplaceSignedPrekey_def intro: keys_inv_other split: option.splits)
next
  case (KPublishOtps v ks)
  with op have "v = d \<Longrightarrow> set ks \<subseteq> U" by auto
  with i KPublishOtps show ?thesis by (auto intro: keys_inv_publish split: option.splits)
next
  case (KBegin t now u)
  with i show ?thesis unfolding keys_inv_def by simp
next
  case (KNext t)
  with i show ?thesis by (auto intro: keys_inv_next split: option.splits list.splits prod.splits)
next
  case (KCommit t)
  with i show ?thesis by (auto intro: keys_inv_commit split: option.splits)
next
  case (KAbort t)
  with i show ?thesis by (auto intro: keys_inv_abort split: option.splits)
next
  case (KRevoke u v t_at)
  with i op show ?thesis by (auto intro: keys_inv_revoke)
next
  case (KRegister v)
  with i show ?thesis by (auto intro: keys_inv_other split: option.splits)
qed

lemma keys_inv_run:
  "keys_inv d U s \<Longrightarrow> list_all (spares d) ops \<Longrightarrow> (\<Union>op \<in> set ops. uploads d op) \<subseteq> U \<Longrightarrow> keys_inv d U (run keys_step s ops)"
  by (induction ops arbitrary: s) (auto intro: keys_inv_step)

text \<open>
C4. Prekeys are handed out once: over any interleaving of uploads and bundle fetches, with any of them committing or
rolling back, no two bundles that were returned carry the same one-time prekey of a device that is not revoked
meanwhile, and each is one that the device has uploaded.
\<close>

theorem prekey_handed_out_once:
  assumes "list_all (spares d) ops"
  shows "distinct (map ot_KeyID (bundle_keys d (ks_Out (run keys_step keys_start ops)))) \<and>
    set (bundle_keys d (ks_Out (run keys_step keys_start ops))) \<subseteq> (\<Union>op \<in> set ops. uploads d op)"
proof -
  have "keys_inv d (\<Union>op \<in> set ops. uploads d op) keys_start"
    by (simp add: keys_inv_def keys_wf_def keys_start_def)
  from keys_inv_run [OF this assms subset_refl] show ?thesis
    unfolding keys_inv_def by blast
qed

definition phone :: device_row where
  "phone = \<lparr>de_ID = ''d1'', de_UserID = ''u1'', de_IsPrimary = True, de_Platform = 1, de_Name = [], de_IdentityKey = ''ik'',
     de_Cert = [], de_RegisteredAt = 0, de_LastActiveAt = None, de_RevokedAt = None\<rparr>"

definition two_fetches :: "keys_op list" where
  "two_fetches = [KRegister phone, KPublishSigned ''d1'' \<lparr>sp_KeyID = 1, sp_Pubkey = ''s'', sp_Signature = ''g''\<rparr>,
     KPublishOtps ''d1'' [\<lparr>ot_KeyID = 7, ot_Pubkey = ''a''\<rparr>, \<lparr>ot_KeyID = 3, ot_Pubkey = ''b''\<rparr>],
     KBegin 1 10 ''u1'', KBegin 2 11 ''u1'', KNext 2, KNext 1, KCommit 1, KCommit 2]"

theorem prekey_handed_out_once_witness:
  "map ot_KeyID (bundle_keys ''d1'' (ks_Out (run keys_step keys_start two_fetches))) = [7, 3] \<and> distinct [7, 3 :: int]"
proof -
  have "list_all (spares ''d1'') two_fetches" by (simp add: two_fetches_def)
  from prekey_handed_out_once [OF this] show ?thesis by code_simp
qed

section \<open>What a fetch returns\<close>

lemma count_upd:
  "tbl_wf key rows \<Longrightarrow> x \<in> set rows \<Longrightarrow> P x \<Longrightarrow> \<not> P (f x) \<Longrightarrow>
   length (filter P (tbl_upd key (key x) f rows)) = length (filter P rows) - 1"
proof (induction rows)
  case (Cons r rows)
  show ?case
  proof (cases "r = x")
    case True
    then have "key x \<notin> key ` set rows" using Cons.prems(1) by (auto simp: tbl_wf_def)
    with True Cons.prems show ?thesis using tbl_upd_absent [of "key x" key rows f] by (simp add: tbl_upd_def)
  next
    case False
    with Cons.prems have x: "x \<in> set rows" "tbl_wf key rows" and ne: "key r \<noteq> key x" by (auto simp: tbl_wf_def)
    then have "length (filter P rows) > 0" using Cons.prems(3) by (auto simp: filter_empty_conv)
    with Cons.IH [OF x(2,1) Cons.prems(3,4)] ne show ?thesis by (simp add: tbl_upd_def)
  qed
qed simp

abbreviation free_keys :: "string \<Rightarrow> keys_db \<Rightarrow> prekey_row list" where
  "free_keys d db \<equiv> filter (claimable d) (kd_Prekeys db)"

lemma filter_upd_other:
  "(\<And>r. key r = k \<Longrightarrow> \<not> P r \<and> \<not> P (f r)) \<Longrightarrow> filter P (tbl_upd key k f rows) = filter P rows"
  by (induction rows) (auto simp: tbl_upd_def)

lemma consume_device_free:
  assumes "tbl_wf pr_key (kd_Prekeys db)" "consume_device t v db = (b, db')"
  shows "tbl_wf pr_key (kd_Prekeys db')" "kd_Signed db' = kd_Signed db" "kd_Devices db' = kd_Devices db"
    "d \<noteq> de_ID v \<Longrightarrow> free_keys d db' = free_keys d db"
    "b \<noteq> None \<Longrightarrow> length (free_keys (de_ID v) db') = length (free_keys (de_ID v) db) - 1"
    "b = None \<Longrightarrow> db' = db"
    "\<forall>r \<in> set (kd_Prekeys db). pr_Lock r \<in> {None, Some t} \<Longrightarrow> \<forall>r \<in> set (kd_Prekeys db'). pr_Lock r \<in> {None, Some t}"
proof -
  show "kd_Signed db' = kd_Signed db" "kd_Devices db' = kd_Devices db" "b = None \<Longrightarrow> db' = db"
    using assms(2) by (auto simp: consume_device_def Let_def split: option.splits)
  show "tbl_wf pr_key (kd_Prekeys db')"
    using assms(2,1) by (cases rule: consume_device_cases) (auto intro: tbl_wf_upd)
  show "\<forall>r \<in> set (kd_Prekeys db). pr_Lock r \<in> {None, Some t} \<Longrightarrow> \<forall>r \<in> set (kd_Prekeys db'). pr_Lock r \<in> {None, Some t}"
    using assms(2) by (cases rule: consume_device_cases) (auto simp: set_tbl_upd)
  show "d \<noteq> de_ID v \<Longrightarrow> free_keys d db' = free_keys d db"
    using assms(2)
  proof (cases rule: consume_device_cases)
    case (claimed r)
    assume "d \<noteq> de_ID v"
    with picked_Some [OF claimed(1)] claimed(2) show ?thesis
      by (auto simp: claimable_def pr_key_def intro!: filter_upd_other)
  qed simp
  show "b \<noteq> None \<Longrightarrow> length (free_keys (de_ID v) db') = length (free_keys (de_ID v) db) - 1"
  proof (cases "picked (de_ID v) (kd_Prekeys db)")
    case None
    assume "b \<noteq> None"
    with None assms(2) have "db' = db" by (auto simp: consume_device_def Let_def split: option.splits)
    moreover have "free_keys (de_ID v) db = []" using None
      by (metis first_row_None length_0_conv length_order(2) picked_def)
    ultimately show ?thesis by simp
  next
    case (Some r)
    assume "b \<noteq> None"
    with Some assms(2) have "kd_Prekeys db' = tbl_upd pr_key (pr_key r) (\<lambda>r. r\<lparr>pr_Lock := Some t\<rparr>) (kd_Prekeys db)"
      by (auto simp: consume_device_def Let_def split: option.splits)
    with picked_Some [OF Some] count_upd [OF assms(1), of r "claimable (de_ID v)" "\<lambda>r. r\<lparr>pr_Lock := Some t\<rparr>"]
    show ?thesis by (simp add: claimable_def)
  qed
qed

definition bundle_of :: "keys_db \<Rightarrow> device_row \<Rightarrow> device_bundle option" where
  "bundle_of db v =
     map_option (\<lambda>sp. \<lparr>bu_DeviceID = de_ID v, bu_IdentityKey = de_IdentityKey v, bu_SignedPrekey = sp,
         bu_OneTimePrekey = map_option (\<lambda>r. \<lparr>ot_KeyID = pr_KeyID r, ot_Pubkey = pr_Pubkey r\<rparr>) (picked (de_ID v) (kd_Prekeys db))\<rparr>)
       (current_signed (de_ID v) db)"

lemma fst_consume_device: "fst (consume_device t v db) = bundle_of db v"
  by (auto simp: consume_device_def bundle_of_def Let_def split: option.splits)

lemma bundle_of_cong:
  "kd_Signed db' = kd_Signed db \<Longrightarrow> free_keys (de_ID v) db' = free_keys (de_ID v) db \<Longrightarrow> bundle_of db' v = bundle_of db v"
  by (simp add: bundle_of_def current_signed_def picked_def)

lemma bundle_of_device: "bundle_of db v = Some b \<Longrightarrow> bu_DeviceID b = de_ID v"
  by (auto simp: bundle_of_def)

lemma consume_all_spec:
  assumes "distinct (map de_ID vs)" "tbl_wf pr_key (kd_Prekeys db)" "consume_all t vs db = (bs, db')"
    "\<forall>r \<in> set (kd_Prekeys db). pr_Lock r \<in> {None, Some t}"
  shows "bs = concat (map (opt_list \<circ> bundle_of db) vs) \<and>
    (\<forall>d. length (free_keys d db') = length (free_keys d db) - (if d \<in> bu_DeviceID ` set bs then 1 else 0)) \<and>
    (\<forall>r \<in> set (kd_Prekeys db'). pr_Lock r \<in> {None, Some t}) \<and> (bs = [] \<longrightarrow> db' = db)"
  using assms
proof (induction vs arbitrary: db bs)
  case (Cons v vs)
  obtain b db1 where c: "consume_device t v db = (b, db1)" by fastforce
  obtain cs where r: "consume_all t vs db1 = (cs, db')" and bs: "bs = opt_list b @ cs"
    using Cons.prems(3) c by (auto split: prod.splits)
  note dev = consume_device_free [OF Cons.prems(2) c]
  have vs: "distinct (map de_ID vs)" using Cons.prems(1) by simp
  note IH = Cons.IH [OF vs dev(1) r dev(7) [OF Cons.prems(4)]]
  have b: "b = bundle_of db v" using fst_consume_device [of t v db] c by simp
  have "bundle_of db1 w = bundle_of db w" if "w \<in> set vs" for w
    using that Cons.prems(1) dev(2) dev(4) [of "de_ID w"] by (intro bundle_of_cong) (auto simp: image_iff)
  then have cs: "cs = concat (map (opt_list \<circ> bundle_of db) vs)" using IH by (simp cong: map_cong)
  have away: "de_ID v \<notin> bu_DeviceID ` set cs"
    using Cons.prems(1) bundle_of_device by (fastforce simp: cs opt_list_def image_iff split: option.splits)
  have ids: "bu_DeviceID ` set bs = (if b = None then {} else {de_ID v}) \<union> bu_DeviceID ` set cs"
  proof (cases b)
    case (Some a)
    with b have "bu_DeviceID a = de_ID v" by (intro bundle_of_device) simp
    with Some show ?thesis by (simp add: bs opt_list_def)
  qed (simp add: bs opt_list_def)
  have cnt: "length (free_keys d db') = length (free_keys d db1) - (if d \<in> bu_DeviceID ` set cs then 1 else 0)" for d
    using IH by blast
  have "length (free_keys d db') = length (free_keys d db) - (if d \<in> bu_DeviceID ` set bs then 1 else 0)" for d
  proof (cases "d = de_ID v")
    case True
    show ?thesis
    proof (cases "b = None")
      case False
      then show ?thesis using cnt [of d] away dev(5) unfolding ids True by auto
    qed (use cnt [of d] dev(6) in \<open>simp add: ids\<close>)
  next
    case False
    then show ?thesis using cnt [of d] dev(4) [OF False] by (simp add: ids)
  qed
  moreover have "bs = [] \<longrightarrow> db' = db" using IH dev(6) by (cases b) (auto simp: bs opt_list_def)
  moreover have "\<forall>r \<in> set (kd_Prekeys db'). pr_Lock r \<in> {None, Some t}" using IH by blast
  moreover have "bs = concat (map (opt_list \<circ> bundle_of db) (v # vs))" by (simp add: bs cs b)
  ultimately show ?case by blast
qed simp

lemma count_committed:
  assumes "\<forall>r \<in> set (kd_Prekeys db). pr_Lock r \<in> {None, Some t}"
  shows "CountAvailable d (tx_commit t now db) = length (free_keys d db)"
proof -
  have "length (filter (\<lambda>r. pr_DeviceID r = d \<and> pr_ConsumedAt r = None)
      (map (\<lambda>r. if pr_Lock r = Some t then r\<lparr>pr_ConsumedAt := Some now, pr_Lock := None\<rparr> else r) rows)) = length (filter (claimable d) rows)"
    if "\<forall>r \<in> set rows. pr_Lock r \<in> {None, Some t}" for rows
    using that by (induction rows) (auto simp: claimable_def)
  from this [OF assms] show ?thesis by (simp add: CountAvailable_def tx_commit_def)
qed

lemma first_row_sorted: "sorted_wrt P xs \<Longrightarrow> first_row xs = Some r \<Longrightarrow> x \<in> set xs \<Longrightarrow> x = r \<or> P r x"
  by (cases xs) (auto simp: first_row_def)

lemma picked_lowest: "picked d rows = Some r \<Longrightarrow> x \<in> set rows \<Longrightarrow> claimable d x \<Longrightarrow> pr_KeyID r \<le> pr_KeyID x"
proof -
  assume p: "picked d rows = Some r" and x: "x \<in> set rows" "claimable d x"
  have "sorted_wrt (\<lambda>a b. pr_KeyID a \<le> pr_KeyID b) (order_asc pr_KeyID (filter (claimable d) rows))"
    using sorted_sort_key [of pr_KeyID] by (simp add: order_asc_def sorted_map)
  from first_row_sorted [OF this p [unfolded picked_def], of x] x show ?thesis by auto
qed

lemma current_signed_highest:
  assumes "current_signed d db = Some sp"
  shows "(\<exists>r \<in> set (kd_Signed db). sr_DeviceID r = d \<and> sr_Key r = sp) \<and>
    (\<forall>r \<in> set (kd_Signed db). sr_DeviceID r = d \<longrightarrow> sp_KeyID (sr_Key r) \<le> sp_KeyID sp)"
proof -
  let ?rows = "map sr_Key (filter (\<lambda>r. sr_DeviceID r = d) (kd_Signed db))"
  have f: "first_row (order_desc sp_KeyID ?rows) = Some sp" using assms by (simp add: current_signed_def)
  show ?thesis
  proof (intro conjI ballI impI)
    show "\<exists>r \<in> set (kd_Signed db). sr_DeviceID r = d \<and> sr_Key r = sp" using first_row_Some [OF f] by auto
    fix r
    assume "r \<in> set (kd_Signed db)" "sr_DeviceID r = d"
    then have "sr_Key r = sp \<or> sp_KeyID (sr_Key r) \<le> sp_KeyID sp"
      using first_row_sorted [OF sorted_order_desc f, of "sr_Key r"] by simp
    then show "sp_KeyID (sr_Key r) \<le> sp_KeyID sp" by auto
  qed
qed

lemma unlocked_commit: "\<forall>r \<in> set (kd_Prekeys db). pr_Lock r = None \<Longrightarrow> tx_commit t now db = db"
  by (simp add: tx_commit_def cong: map_cong)

lemma count_unlocked: "\<forall>r \<in> set (kd_Prekeys db). pr_Lock r = None \<Longrightarrow> CountAvailable d db = length (free_keys d db)"
  using count_committed [of db 0 d 0] unlocked_commit [of db 0 0] by simp

lemma current_signed_None: "current_signed d db = None \<longleftrightarrow> (\<forall>r \<in> set (kd_Signed db). sr_DeviceID r \<noteq> d)"
  by (simp add: current_signed_def first_row_None filter_empty_conv)

lemma picked_None: "picked d rows = None \<longleftrightarrow> filter (claimable d) rows = []"
  using length_order(2) [of pr_KeyID "filter (claimable d) rows"] by (simp add: picked_def first_row_None flip: length_0_conv)

lemma bundle_of_facts:
  assumes b: "bundle_of db v = Some b" and l: "\<forall>r \<in> set (kd_Prekeys db). pr_Lock r = None"
  shows "bu_IdentityKey b = de_IdentityKey v"
    "\<exists>r \<in> set (kd_Signed db). sr_DeviceID r = bu_DeviceID b \<and> sr_Key r = bu_SignedPrekey b"
    "\<forall>r \<in> set (kd_Signed db). sr_DeviceID r = bu_DeviceID b \<longrightarrow> sp_KeyID (sr_Key r) \<le> sp_KeyID (bu_SignedPrekey b)"
    "case bu_OneTimePrekey b of
       None \<Rightarrow> CountAvailable (bu_DeviceID b) db = 0
     | Some k \<Rightarrow> (\<exists>r \<in> set (kd_Prekeys db). claimable (bu_DeviceID b) r \<and> pr_KeyID r = ot_KeyID k \<and> pr_Pubkey r = ot_Pubkey k) \<and>
         (\<forall>r \<in> set (kd_Prekeys db). claimable (bu_DeviceID b) r \<longrightarrow> ot_KeyID k \<le> pr_KeyID r)"
proof -
  note d = bundle_of_device [OF b]
  have sp: "current_signed (de_ID v) db = Some (bu_SignedPrekey b)" and k: "bu_OneTimePrekey b =
      map_option (\<lambda>r. \<lparr>ot_KeyID = pr_KeyID r, ot_Pubkey = pr_Pubkey r\<rparr>) (picked (de_ID v) (kd_Prekeys db))"
    and "bu_IdentityKey b = de_IdentityKey v"
    using b by (auto simp: bundle_of_def)
  then show "bu_IdentityKey b = de_IdentityKey v" by simp
  show "\<exists>r \<in> set (kd_Signed db). sr_DeviceID r = bu_DeviceID b \<and> sr_Key r = bu_SignedPrekey b"
    "\<forall>r \<in> set (kd_Signed db). sr_DeviceID r = bu_DeviceID b \<longrightarrow> sp_KeyID (sr_Key r) \<le> sp_KeyID (bu_SignedPrekey b)"
    using current_signed_highest [OF sp] d by simp_all
  show "case bu_OneTimePrekey b of
       None \<Rightarrow> CountAvailable (bu_DeviceID b) db = 0
     | Some k \<Rightarrow> (\<exists>r \<in> set (kd_Prekeys db). claimable (bu_DeviceID b) r \<and> pr_KeyID r = ot_KeyID k \<and> pr_Pubkey r = ot_Pubkey k) \<and>
         (\<forall>r \<in> set (kd_Prekeys db). claimable (bu_DeviceID b) r \<longrightarrow> ot_KeyID k \<le> pr_KeyID r)"
  proof (cases "picked (de_ID v) (kd_Prekeys db)")
    case None
    then have "CountAvailable (de_ID v) db = 0" using count_unlocked [OF l, of "de_ID v"] by (simp add: picked_None)
    with None k d show ?thesis by simp
  next
    case (Some r)
    then show ?thesis using k d picked_Some [OF Some] picked_lowest [OF Some] by auto
  qed
qed

lemma map_bundles:
  "map bu_DeviceID (concat (map (opt_list \<circ> bundle_of db) vs)) =
   map de_ID (filter (\<lambda>v. \<exists>r \<in> set (kd_Signed db). sr_DeviceID r = de_ID v) vs)"
proof (induction vs)
  case (Cons v vs)
  have "(\<exists>r \<in> set (kd_Signed db). sr_DeviceID r = de_ID v) \<longleftrightarrow> bundle_of db v \<noteq> None"
    using current_signed_None [of "de_ID v" db] by (auto simp: bundle_of_def)
  with Cons bundle_of_device [of db v] show ?case by (cases "bundle_of db v") (simp_all add: opt_list_def)
qed simp

text \<open>
A fetched bundle is exact: a fetch that succeeds returns one bundle for each active device of the user that has
published a signed prekey, in the order of the device table, with the identity key, the signed prekey with the highest
id and, unless the device has none left, the unconsumed one-time prekey with the lowest id, and takes exactly one key
from the pool of each of these devices; a fetch that fails takes none.
\<close>

theorem fetch_bundle_exact:
  assumes "distinct (map de_ID (kd_Devices db))" "tbl_wf pr_key (kd_Prekeys db)" "\<forall>r \<in> set (kd_Prekeys db). pr_Lock r = None"
    and f: "FetchBundle e requester target (db, m) = (res, db', m')"
  shows "case res of
      Inr bs \<Rightarrow>
        map bu_DeviceID bs = map de_ID (filter (\<lambda>v. \<exists>r \<in> set (kd_Signed db). sr_DeviceID r = de_ID v) (tx_devices target db)) \<and>
        (\<forall>b \<in> set bs.
           (\<exists>v \<in> set (tx_devices target db). de_ID v = bu_DeviceID b \<and> de_IdentityKey v = bu_IdentityKey b) \<and>
           (\<exists>r \<in> set (kd_Signed db). sr_DeviceID r = bu_DeviceID b \<and> sr_Key r = bu_SignedPrekey b) \<and>
           (\<forall>r \<in> set (kd_Signed db). sr_DeviceID r = bu_DeviceID b \<longrightarrow> sp_KeyID (sr_Key r) \<le> sp_KeyID (bu_SignedPrekey b)) \<and>
           (case bu_OneTimePrekey b of
              None \<Rightarrow> CountAvailable (bu_DeviceID b) db = 0
            | Some k \<Rightarrow> (\<exists>r \<in> set (kd_Prekeys db). claimable (bu_DeviceID b) r \<and> pr_KeyID r = ot_KeyID k \<and> pr_Pubkey r = ot_Pubkey k) \<and>
                (\<forall>r \<in> set (kd_Prekeys db). claimable (bu_DeviceID b) r \<longrightarrow> ot_KeyID k \<le> pr_KeyID r))) \<and>
        (\<forall>d. CountAvailable d db' = CountAvailable d db - (if d \<in> bu_DeviceID ` set bs then 1 else 0))
    | Inl err \<Rightarrow> db' = db"
proof -
  let ?vs = "tx_devices target db"
  obtain bs db1 where c: "consume_all (ke_tx e) ?vs db = (bs, db1)" by fastforce
  have d: "distinct (map de_ID ?vs)" using assms(1) by (simp add: tx_devices_def distinct_map_filter)
  have "\<forall>r \<in> set (kd_Prekeys db). pr_Lock r \<in> {None, Some (ke_tx e)}" using assms(3) by simp
  note all = consume_all_spec [OF d assms(2) c this]
  show ?thesis
  proof (cases res)
    case (Inl err)
    then show ?thesis
      using f c all unlocked_commit [OF assms(3)]
      by (auto simp: FetchBundle_def ConsumeBundle_def split: option.splits if_splits prod.splits sum.splits keys_error.splits)
  next
    case (Inr cs)
    then have cs: "cs = bs" "db' = tx_commit (ke_tx e) (ke_now e) db1"
      using f c by (auto simp: FetchBundle_def ConsumeBundle_def split: option.splits if_splits prod.splits sum.splits keys_error.splits)
    have bs: "bs = concat (map (opt_list \<circ> bundle_of db) ?vs)" using all by blast
    have mem: "\<exists>v \<in> set ?vs. bundle_of db v = Some b" if "b \<in> set bs" for b
      using that unfolding bs by (fastforce simp: opt_list_def split: option.splits)
    have "CountAvailable d db' = CountAvailable d db - (if d \<in> bu_DeviceID ` set bs then 1 else 0)" for d
      using all count_committed [of db1 "ke_tx e" d "ke_now e"] count_unlocked [OF assms(3), of d] unfolding cs by presburger
    moreover have "(\<exists>v \<in> set ?vs. de_ID v = bu_DeviceID b \<and> de_IdentityKey v = bu_IdentityKey b)" if "b \<in> set bs" for b
      using mem [OF that] bundle_of_device bundle_of_facts(1) [OF _ assms(3)] by fastforce
    moreover note map_bundles [of db ?vs, folded bs]
    moreover have "\<exists>v. bundle_of db v = Some b" if "b \<in> set bs" for b using mem [OF that] by blast
    ultimately show ?thesis
      using bundle_of_facts(2-4) [OF _ assms(3)] unfolding Inr cs(1) sum.case by meson
  qed
qed

definition one_key_db :: keys_db where
  "one_key_db = \<lparr>kd_Devices = [phone], kd_Signed = [\<lparr>sr_DeviceID = ''d1'', sr_Key = \<lparr>sp_KeyID = 1, sp_Pubkey = ''s'', sp_Signature = ''g''\<rparr>\<rparr>],
     kd_Prekeys = [\<lparr>pr_DeviceID = ''d1'', pr_KeyID = 7, pr_Pubkey = ''a'', pr_ConsumedAt = None, pr_Lock = None\<rparr>]\<rparr>"

definition fetch_env :: keys_env where
  "fetch_env = \<lparr>ke_now = 0, ke_tx = 1, ke_fails = (\<lambda>_. False)\<rparr>"

theorem fetch_bundle_exact_witness:
  "case FetchBundle fetch_env ''u2'' ''u1'' (one_key_db, Map.empty) of
     (Inr bs, db', m') \<Rightarrow> map bu_DeviceID bs = [''d1''] \<and> CountAvailable ''d1'' db' = CountAvailable ''d1'' one_key_db - 1
   | (Inl err, db', m') \<Rightarrow> False"
proof -
  obtain res db' m' where f: "FetchBundle fetch_env ''u2'' ''u1'' (one_key_db, Map.empty) = (res, db', m')"
    by (cases "FetchBundle fetch_env ''u2'' ''u1'' (one_key_db, Map.empty)") auto
  have "\<not> isl (fst (FetchBundle fetch_env ''u2'' ''u1'' (one_key_db, Map.empty)))" by code_simp
  then have ok: "\<not> isl res" by (simp add: f)
  have vs: "filter (\<lambda>v. \<exists>r \<in> set (kd_Signed one_key_db). sr_DeviceID r = de_ID v) (tx_devices ''u1'' one_key_db) = [phone]"
    by code_simp
  have wf: "distinct (map de_ID (kd_Devices one_key_db))" "tbl_wf pr_key (kd_Prekeys one_key_db)"
    "\<forall>r \<in> set (kd_Prekeys one_key_db). pr_Lock r = None"
    by (simp_all add: one_key_db_def tbl_wf_def)
  from fetch_bundle_exact [OF wf f] ok f show ?thesis
    by (cases res) (auto simp: vs phone_def)
qed

end
