(* ===== verification/ChannelStore.thy ===== *)
theory ChannelStore
  imports GoStrings Contracts
begin

text \<open>
  Broadcast channels: the permission matrix and validation (\<^verbatim>\<open>channels/domain/channel.go\<close>), the data model
  (\<^verbatim>\<open>channels/channels.go\<close>) and the PostgreSQL store (\<^verbatim>\<open>channels/adapters/pg.go\<close>). Channels, posts and comments are
  deleted by a mark. Foreign keys to users and media are not part of the model.
\<close>

section \<open>Roles, kinds and validation\<close>

type_synonym chan_role = int

definition RoleFollower :: chan_role where "RoleFollower = 0"
definition RoleChanAdmin :: chan_role where "RoleChanAdmin = 1"
definition RoleChanOwner :: chan_role where "RoleChanOwner = 2"

lemmas chan_roles = RoleFollower_def RoleChanAdmin_def RoleChanOwner_def

definition ChanRole_String :: "chan_role \<Rightarrow> string" where
  "ChanRole_String r =
     (if r = RoleChanOwner then ''owner'' else if r = RoleChanAdmin then ''admin'' else ''follower'')"

definition KindPublic :: int where "KindPublic = 0"
definition KindPrivate :: int where "KindPrivate = 1"

definition ChanKind_Valid :: "int \<Rightarrow> bool" where
  "ChanKind_Valid k \<longleftrightarrow> k = KindPublic \<or> k = KindPrivate"

definition Kind_String :: "int \<Rightarrow> string" where
  "Kind_String k = (if k = KindPrivate then ''private'' else ''public'')"

definition Chan_CanPost :: "chan_role \<Rightarrow> bool" where "Chan_CanPost r \<longleftrightarrow> r \<ge> RoleChanAdmin"
definition Chan_CanEditInfo :: "chan_role \<Rightarrow> bool" where "Chan_CanEditInfo r \<longleftrightarrow> r \<ge> RoleChanAdmin"
definition Chan_CanChangeRoles :: "chan_role \<Rightarrow> bool" where "Chan_CanChangeRoles r \<longleftrightarrow> r = RoleChanOwner"
definition Chan_CanDelete :: "chan_role \<Rightarrow> bool" where "Chan_CanDelete r \<longleftrightarrow> r = RoleChanOwner"

lemmas chan_perms = Chan_CanPost_def Chan_CanEditInfo_def Chan_CanChangeRoles_def Chan_CanDelete_def

definition MaxName :: nat where "MaxName = 80"
definition MaxDescription :: nat where "MaxDescription = 500"
definition MaxPostBody :: nat where "MaxPostBody = 4096"
definition MaxCommentBody :: nat where "MaxCommentBody = 2048"

definition ValidHandle :: "string \<Rightarrow> bool" where
  "ValidHandle h \<longleftrightarrow> 3 \<le> length h \<and> length h \<le> 30 \<and> list_all (\<lambda>c. is_lower c \<or> is_digit c \<or> c = CHR ''_'') h"

definition Chan_ValidateCreate :: "string \<Rightarrow> string \<Rightarrow> string \<Rightarrow> int \<Rightarrow> bool" where
  "Chan_ValidateCreate handle name description kind \<longleftrightarrow>
     ValidHandle handle \<and> name \<noteq> [] \<and> length name \<le> MaxName \<and> length description \<le> MaxDescription \<and> ChanKind_Valid kind"

definition ValidatePost :: "string \<Rightarrow> bool" where
  "ValidatePost body \<longleftrightarrow> body \<noteq> [] \<and> length body \<le> MaxPostBody"

definition ValidateComment :: "string \<Rightarrow> bool" where
  "ValidateComment body \<longleftrightarrow> body \<noteq> [] \<and> length body \<le> MaxCommentBody"

section \<open>Rows\<close>

record chan =
  ch_ID :: string
  ch_OwnerID :: string
  ch_Handle :: string
  ch_Name :: string
  ch_Description :: string
  ch_Kind :: int
  ch_Verified :: bool
  ch_Premium :: bool
  ch_PriceCents :: int
  ch_CreatedAt :: instant
  ch_Deleted :: bool

record chan_member =
  cm_ChannelID :: string
  cm_UserID :: string
  cm_Role :: chan_role
  cm_JoinedAt :: instant

record post =
  po_ID :: string
  po_ChannelID :: string
  po_AuthorID :: string
  po_Body :: string
  po_MediaRef :: "string option"
  po_PublishAt :: instant
  po_Published :: bool
  po_Views :: int
  po_CreatedAt :: instant
  po_Deleted :: bool

record comment =
  co_ID :: string
  co_PostID :: string
  co_AuthorID :: string
  co_Body :: string
  co_CreatedAt :: instant
  co_Deleted :: bool

record chan_sub =
  cu_ChannelID :: string
  cu_UserID :: string
  cu_PaymentRef :: string
  cu_ExpiresAt :: instant

record chan_db =
  cd_Channels :: "chan list"
  cd_Members :: "chan_member list"
  cd_Posts :: "post list"
  cd_Reactions :: "(string \<times> string \<times> string) list"
  cd_Comments :: "comment list"
  cd_Subs :: "chan_sub list"

definition empty_chan_db :: chan_db where
  "empty_chan_db = \<lparr>cd_Channels = [], cd_Members = [], cd_Posts = [], cd_Reactions = [], cd_Comments = [], cd_Subs = []\<rparr>"

definition cm_key :: "chan_member \<Rightarrow> string \<times> string" where
  "cm_key m = (cm_ChannelID m, cm_UserID m)"

definition cu_key :: "chan_sub \<Rightarrow> string \<times> string" where
  "cu_key u = (cu_ChannelID u, cu_UserID u)"

section \<open>Channels\<close>

datatype chan_error = ErrHandleTaken | ErrChanStore

text \<open>
  The handle is unique among live channels. A clash of the primary key is reported as a taken handle too. A write to a
  table with a foreign key to a row that does not exist fails.
\<close>

definition CreateChannel :: "chan \<Rightarrow> chan_db \<Rightarrow> chan_error + chan_db" where
  "CreateChannel c db =
     (if ch_ID c \<in> ch_ID ` set (cd_Channels db)
         \<or> list_ex (\<lambda>d. \<not> ch_Deleted d \<and> ch_Handle d = ch_Handle c) (cd_Channels db) then Inl ErrHandleTaken
      else Inr (db\<lparr>cd_Channels := cd_Channels db
        @ [c\<lparr>ch_Verified := False, ch_Premium := False, ch_PriceCents := 0, ch_Deleted := False\<rparr>]\<rparr>))"

definition GetChannel :: "string \<Rightarrow> chan_db \<Rightarrow> chan option" where
  "GetChannel i db = find (\<lambda>c. ch_ID c = i \<and> \<not> ch_Deleted c) (cd_Channels db)"

definition upd_channel :: "string \<Rightarrow> (chan \<Rightarrow> chan) \<Rightarrow> chan_db \<Rightarrow> chan_db" where
  "upd_channel i f db =
     db\<lparr>cd_Channels := map (\<lambda>c. if ch_ID c = i \<and> \<not> ch_Deleted c then f c else c) (cd_Channels db)\<rparr>"

definition COALESCE :: "'a option \<Rightarrow> 'a \<Rightarrow> 'a" where
  "COALESCE v d = (case v of None \<Rightarrow> d | Some x \<Rightarrow> x)"

definition UpdateChannel :: "string \<Rightarrow> string option \<Rightarrow> string option \<Rightarrow> chan_db \<Rightarrow> chan_db" where
  "UpdateChannel i name description =
     upd_channel i (\<lambda>c. c\<lparr>ch_Name := COALESCE name (ch_Name c), ch_Description := COALESCE description (ch_Description c)\<rparr>)"

definition DeleteChannel :: "string \<Rightarrow> chan_db \<Rightarrow> chan_db" where
  "DeleteChannel i = upd_channel i (\<lambda>c. c\<lparr>ch_Deleted := True\<rparr>)"

definition SetPremium :: "string \<Rightarrow> bool \<Rightarrow> int \<Rightarrow> chan_db \<Rightarrow> chan_db" where
  "SetPremium i premium price = upd_channel i (\<lambda>c. c\<lparr>ch_Premium := premium, ch_PriceCents := price\<rparr>)"

definition FollowerCount :: "string \<Rightarrow> chan_db \<Rightarrow> nat" where
  "FollowerCount i db = length (filter (\<lambda>m. cm_ChannelID m = i) (cd_Members db))"

definition public_live :: "chan \<Rightarrow> bool" where
  "public_live c \<longleftrightarrow> ch_Kind c = KindPublic \<and> \<not> ch_Deleted c"

text \<open>
  \<^verbatim>\<open>ILIKE\<close> and the order of names depend on the collation of the database and are parameters.
\<close>

definition SearchChannels ::
  "(string \<Rightarrow> string \<Rightarrow> bool) \<Rightarrow> (chan list \<Rightarrow> chan list) \<Rightarrow> string \<Rightarrow> nat \<Rightarrow> chan_db \<Rightarrow> chan list" where
  "SearchChannels ilike by_name q limit db =
     take limit (by_name (filter (\<lambda>c. public_live c \<and>
       (ilike (ch_Name c) (''%'' @ q @ ''%'') \<or> ilike (ch_Handle c) (''%'' @ q @ ''%''))) (cd_Channels db)))"

definition Chan_Discover :: "nat \<Rightarrow> chan_db \<Rightarrow> chan list" where
  "Chan_Discover limit db =
     take limit (order_desc (\<lambda>c. int (FollowerCount (ch_ID c) db)) (order_desc ch_CreatedAt (filter public_live (cd_Channels db))))"

section \<open>Members and subscriptions\<close>

definition Chan_GetMember :: "string \<Rightarrow> string \<Rightarrow> chan_db \<Rightarrow> chan_member option" where
  "Chan_GetMember c u db = tbl_get cm_key (c, u) (cd_Members db)"

definition Chan_AddMember :: "chan_member \<Rightarrow> chan_db \<Rightarrow> chan_db option" where
  "Chan_AddMember m db =
     (if cm_key m \<in> cm_key ` set (cd_Members db) then Some db
      else if cm_ChannelID m \<notin> ch_ID ` set (cd_Channels db) then None
      else Some (db\<lparr>cd_Members := cd_Members db @ [m]\<rparr>))"

definition Chan_RemoveMember :: "string \<Rightarrow> string \<Rightarrow> chan_db \<Rightarrow> chan_db" where
  "Chan_RemoveMember c u db = db\<lparr>cd_Members := tbl_del cm_key (c, u) (cd_Members db)\<rparr>"

definition Chan_SetRole :: "string \<Rightarrow> string \<Rightarrow> chan_role \<Rightarrow> chan_db \<Rightarrow> chan_db option" where
  "Chan_SetRole c u role db =
     (if (c, u) \<notin> cm_key ` set (cd_Members db) then None
      else Some (db\<lparr>cd_Members := tbl_upd cm_key (c, u) (\<lambda>m. m\<lparr>cm_Role := role\<rparr>) (cd_Members db)\<rparr>))"

definition Chan_ListMembers :: "string \<Rightarrow> nat \<Rightarrow> chan_db \<Rightarrow> chan_member list" where
  "Chan_ListMembers c limit db =
     take limit (order_desc cm_Role (order_asc cm_JoinedAt (filter (\<lambda>m. cm_ChannelID m = c) (cd_Members db))))"

definition Chan_Subscribe :: "string \<Rightarrow> string \<Rightarrow> string \<Rightarrow> instant \<Rightarrow> chan_db \<Rightarrow> chan_db option" where
  "Chan_Subscribe c u ref expires db =
     (if (c, u) \<in> cu_key ` set (cd_Subs db)
      then Some (db\<lparr>cd_Subs := tbl_upd cu_key (c, u) (\<lambda>x. x\<lparr>cu_PaymentRef := ref, cu_ExpiresAt := expires\<rparr>) (cd_Subs db)\<rparr>)
      else if c \<notin> ch_ID ` set (cd_Channels db) then None
      else Some (db\<lparr>cd_Subs := cd_Subs db @ [\<lparr>cu_ChannelID = c, cu_UserID = u, cu_PaymentRef = ref, cu_ExpiresAt = expires\<rparr>]\<rparr>))"

definition IsSubscribed :: "string \<Rightarrow> string \<Rightarrow> instant \<Rightarrow> chan_db \<Rightarrow> bool" where
  "IsSubscribed c u now db \<longleftrightarrow> list_ex (\<lambda>x. cu_ChannelID x = c \<and> cu_UserID x = u \<and> cu_ExpiresAt x > now) (cd_Subs db)"

section \<open>Posts\<close>

definition Chan_CreatePost :: "post \<Rightarrow> chan_db \<Rightarrow> chan_db option" where
  "Chan_CreatePost p db =
     (if po_ChannelID p \<notin> ch_ID ` set (cd_Channels db) then None
      else map_option (\<lambda>t. db\<lparr>cd_Posts := t\<rparr>) (tbl_ins po_ID (p\<lparr>po_Views := 0, po_Deleted := False\<rparr>) (cd_Posts db)))"

definition GetPost :: "string \<Rightarrow> chan_db \<Rightarrow> post option" where
  "GetPost i db = find (\<lambda>p. po_ID p = i \<and> \<not> po_Deleted p) (cd_Posts db)"

definition ListPosts :: "string \<Rightarrow> nat \<Rightarrow> chan_db \<Rightarrow> post list" where
  "ListPosts c limit db =
     take limit (order_desc po_PublishAt (filter (\<lambda>p. po_ChannelID p = c \<and> \<not> po_Deleted p \<and> po_Published p) (cd_Posts db)))"

definition upd_post :: "string \<Rightarrow> (post \<Rightarrow> post) \<Rightarrow> chan_db \<Rightarrow> chan_db" where
  "upd_post i f db = db\<lparr>cd_Posts := map (\<lambda>p. if po_ID p = i \<and> \<not> po_Deleted p then f p else p) (cd_Posts db)\<rparr>"

definition Chan_DeletePost :: "string \<Rightarrow> chan_db \<Rightarrow> chan_db" where
  "Chan_DeletePost i = upd_post i (\<lambda>p. p\<lparr>po_Deleted := True\<rparr>)"

definition IncrementViews :: "string \<Rightarrow> chan_db \<Rightarrow> chan_db" where
  "IncrementViews i = upd_post i (\<lambda>p. p\<lparr>po_Views := po_Views p + 1\<rparr>)"

text \<open>The ids the sweep selects, and the update by id that returns the rows it has changed.\<close>

definition due_ids :: "instant \<Rightarrow> nat \<Rightarrow> chan_db \<Rightarrow> string list" where
  "due_ids now limit db =
     map po_ID (take limit (order_asc po_PublishAt
       (filter (\<lambda>p. \<not> po_Published p \<and> \<not> po_Deleted p \<and> po_PublishAt p \<le> now) (cd_Posts db))))"

definition Store_PublishDue :: "instant \<Rightarrow> nat \<Rightarrow> chan_db \<Rightarrow> post list \<times> chan_db" where
  "Store_PublishDue now limit db =
     (let ids = set (due_ids now limit db);
          publish = (\<lambda>p. if po_ID p \<in> ids then p\<lparr>po_Published := True\<rparr> else p)
      in (map publish (filter (\<lambda>p. po_ID p \<in> ids) (cd_Posts db)), db\<lparr>cd_Posts := map publish (cd_Posts db)\<rparr>))"

section \<open>Reactions and comments\<close>

definition Store_React :: "string \<Rightarrow> string \<Rightarrow> string \<Rightarrow> chan_db \<Rightarrow> chan_db option" where
  "Store_React p u emoji db =
     (if (p, u, emoji) \<in> set (cd_Reactions db) then Some db
      else if p \<notin> po_ID ` set (cd_Posts db) then None
      else Some (db\<lparr>cd_Reactions := cd_Reactions db @ [(p, u, emoji)]\<rparr>))"

definition Unreact :: "string \<Rightarrow> string \<Rightarrow> string \<Rightarrow> chan_db \<Rightarrow> chan_db" where
  "Unreact p u emoji db = db\<lparr>cd_Reactions := filter (\<lambda>r. r \<noteq> (p, u, emoji)) (cd_Reactions db)\<rparr>"

definition Reactions :: "string \<Rightarrow> chan_db \<Rightarrow> string \<Rightarrow> nat" where
  "Reactions p db emoji = length (filter (\<lambda>r. fst r = p \<and> snd (snd r) = emoji) (cd_Reactions db))"

definition CreateComment :: "comment \<Rightarrow> chan_db \<Rightarrow> chan_db option" where
  "CreateComment c db =
     (if co_PostID c \<notin> po_ID ` set (cd_Posts db) then None
      else map_option (\<lambda>t. db\<lparr>cd_Comments := t\<rparr>) (tbl_ins co_ID (c\<lparr>co_Deleted := False\<rparr>) (cd_Comments db)))"

definition post_comments :: "string \<Rightarrow> chan_db \<Rightarrow> comment list" where
  "post_comments p db = filter (\<lambda>c. co_PostID c = p \<and> \<not> co_Deleted c) (cd_Comments db)"

definition ListComments :: "string \<Rightarrow> nat \<Rightarrow> chan_db \<Rightarrow> comment list" where
  "ListComments p limit db = take limit (order_asc co_CreatedAt (post_comments p db))"

definition CommentCount :: "string \<Rightarrow> chan_db \<Rightarrow> nat" where
  "CommentCount p db = length (post_comments p db)"

definition GetComment :: "string \<Rightarrow> chan_db \<Rightarrow> comment option" where
  "GetComment i db = find (\<lambda>c. co_ID c = i \<and> \<not> co_Deleted c) (cd_Comments db)"

definition Store_DeleteComment :: "string \<Rightarrow> chan_db \<Rightarrow> chan_db" where
  "Store_DeleteComment i db =
     db\<lparr>cd_Comments := map (\<lambda>c. if co_ID c = i \<and> \<not> co_Deleted c then c\<lparr>co_Deleted := True\<rparr> else c) (cd_Comments db)\<rparr>"

section \<open>Insights\<close>

record insights =
  in_ChannelID :: string
  in_Followers :: nat
  in_Subscribers :: nat
  in_Posts :: nat
  in_Views :: int
  in_Reactions :: nat
  in_Comments :: nat
  in_Premium :: bool
  in_PriceCents :: int

definition channel_posts :: "string \<Rightarrow> chan_db \<Rightarrow> post list" where
  "channel_posts c db = filter (\<lambda>p. po_ChannelID p = c \<and> \<not> po_Deleted p) (cd_Posts db)"

definition Store_Insights :: "instant \<Rightarrow> string \<Rightarrow> chan_db \<Rightarrow> insights option" where
  "Store_Insights now i db =
     map_option (\<lambda>c. \<lparr>in_ChannelID = [],
       in_Followers = FollowerCount i db,
       in_Subscribers = length (filter (\<lambda>x. cu_ChannelID x = i \<and> cu_ExpiresAt x > now) (cd_Subs db)),
       in_Posts = length (filter po_Published (channel_posts i db)),
       in_Views = sum_list (map po_Views (channel_posts i db)),
       in_Reactions = length (filter (\<lambda>r. fst r \<in> po_ID ` set (channel_posts i db)) (cd_Reactions db)),
       in_Comments = length (filter (\<lambda>c. co_PostID c \<in> po_ID ` set (channel_posts i db) \<and> \<not> co_Deleted c) (cd_Comments db)),
       in_Premium = ch_Premium c, in_PriceCents = ch_PriceCents c\<rparr>) (tbl_get ch_ID i (cd_Channels db))"

end
