(* ===== verification/ChannelService.thy ===== *)
theory ChannelService
  imports ChannelStore
begin

text \<open>
  The channel service (\<^verbatim>\<open>channels/service.go\<close>): lifecycle, membership, posts with their schedule, reactions, comments,
  insights and premium subscriptions. \<open>chan_step\<close> is one request or one turn of the scheduler. The nudges a broadcast
  sends to the gateway are kept with the time they were sent.
\<close>

section \<open>Environment\<close>

datatype chan_call =
    CCreate | CGet | CUpdate | CDelete | CSearch | CDiscover | CFollowers | CMember | CAdd | CRemove | CRole | CMembers
  | CPost | CGetPost | CPosts | CDelPost | CDue | CReact | CReactions | CComment | CComments | CCount | CGetComment
  | CDelComment | CViews | CInsights | CPremium | CSub | CIsSub | CNudge

record chan_env =
  ce_now :: instant
  ce_fails :: "chan_call \<Rightarrow> bool"
  ce_id :: string
  ce_charge :: "(string \<Rightarrow> string \<Rightarrow> int \<Rightarrow> string option) option"
  ce_ilike :: "string \<Rightarrow> string \<Rightarrow> bool"
  ce_by_name :: "chan list \<Rightarrow> chan list"

record chan_sys =
  cs_db :: chan_db
  cs_nudges :: "(instant \<times> string \<times> string) list"

definition empty_chan_sys :: chan_sys where
  "empty_chan_sys = \<lparr>cs_db = empty_chan_db, cs_nudges = []\<rparr>"

definition CHANNEL_NOT_FOUND :: api_error where "CHANNEL_NOT_FOUND = Reject 404 ''CHANNEL_NOT_FOUND''"
definition POST_NOT_FOUND :: api_error where "POST_NOT_FOUND = Reject 404 ''POST_NOT_FOUND''"
definition COMMENT_NOT_FOUND :: api_error where "COMMENT_NOT_FOUND = Reject 404 ''COMMENT_NOT_FOUND''"

definition Chan_defaultListLimit :: int where "Chan_defaultListLimit = 50"
definition Chan_maxListLimit :: int where "Chan_maxListLimit = 200"

definition clampLimit :: "int \<Rightarrow> nat" where
  "clampLimit limit =
     nat (if limit \<le> 0 then Chan_defaultListLimit else if limit > Chan_maxListLimit then Chan_maxListLimit else limit)"

definition subscriptionPeriod :: duration where "subscriptionPeriod = 30 * 24 * Hour"

text \<open>A store write: \<open>down\<close> or a violated constraint is a transient error.\<close>

definition chan_write :: "bool \<Rightarrow> chan_db option \<Rightarrow> chan_sys \<Rightarrow> unit result \<times> chan_sys" where
  "chan_write down r s =
     (if down then (Inl Transient, s)
      else case r of None \<Rightarrow> (Inl Transient, s) | Some db \<Rightarrow> (Inr (), s\<lparr>cs_db := db\<rparr>))"

section \<open>Helpers\<close>

definition chan_caller :: "chan_env \<Rightarrow> string \<Rightarrow> string \<Rightarrow> chan_db \<Rightarrow> (chan \<times> chan_member option) result" where
  "chan_caller e i u db =
     (if ce_fails e CGet then Inl Transient
      else case GetChannel i db of
        None \<Rightarrow> Inl CHANNEL_NOT_FOUND
      | Some c \<Rightarrow> if ce_fails e CMember then Inl Transient else Inr (c, Chan_GetMember i u db))"

definition may :: "(chan_role \<Rightarrow> bool) \<Rightarrow> chan_member option \<Rightarrow> bool" where
  "may P me = (case me of None \<Rightarrow> False | Some m \<Rightarrow> P (cm_Role m))"

definition load_post ::
  "chan_env \<Rightarrow> string \<Rightarrow> string \<Rightarrow> chan_db \<Rightarrow> (post \<times> chan \<times> chan_member option) result" where
  "load_post e p u db =
     (if ce_fails e CGetPost then Inl Transient
      else case GetPost p db of
        None \<Rightarrow> Inl POST_NOT_FOUND
      | Some po \<Rightarrow> (case chan_caller e (po_ChannelID po) u db of Inl err \<Rightarrow> Inl err | Inr (c, me) \<Rightarrow> Inr (po, c, me)))"

definition is_subscribed :: "chan_env \<Rightarrow> string \<Rightarrow> string \<Rightarrow> chan_db \<Rightarrow> bool" where
  "is_subscribed e c u db \<longleftrightarrow> \<not> ce_fails e CIsSub \<and> IsSubscribed c u (ce_now e) db"

definition canRead :: "chan_env \<Rightarrow> chan \<Rightarrow> chan_member option \<Rightarrow> string \<Rightarrow> chan_db \<Rightarrow> bool" where
  "canRead e c me u db =
     (if ch_Kind c = KindPrivate \<and> me = None then False
      else if ch_Premium c then (if may (\<lambda>r. r \<ge> RoleChanAdmin) me then True else is_subscribed e (ch_ID c) u db)
      else True)"

definition viewablePost :: "chan_env \<Rightarrow> string \<Rightarrow> string \<Rightarrow> chan_db \<Rightarrow> post result" where
  "viewablePost e p u db =
     (case load_post e p u db of
        Inl err \<Rightarrow> Inl err
      | Inr (po, c, me) \<Rightarrow> if \<not> po_Published po \<or> \<not> canRead e c me u db then Inl POST_NOT_FOUND else Inr po)"

record channel_view =
  cv_ID :: string
  cv_Handle :: string
  cv_Name :: string
  cv_Description :: string
  cv_Kind :: string
  cv_Verified :: bool
  cv_Followers :: nat
  cv_MyRole :: string
  cv_Premium :: bool
  cv_PriceCents :: int
  cv_MySubscribed :: bool
  cv_CreatedAt :: int

definition followers :: "chan_env \<Rightarrow> string \<Rightarrow> chan_db \<Rightarrow> nat" where
  "followers e c db = (if ce_fails e CFollowers then 0 else FollowerCount c db)"

definition chan_view :: "chan_env \<Rightarrow> chan \<Rightarrow> chan_role option \<Rightarrow> string \<Rightarrow> chan_db \<Rightarrow> channel_view" where
  "chan_view e c role u db =
     \<lparr>cv_ID = ch_ID c, cv_Handle = ch_Handle c, cv_Name = ch_Name c, cv_Description = ch_Description c,
      cv_Kind = Kind_String (ch_Kind c), cv_Verified = ch_Verified c, cv_Followers = followers e (ch_ID c) db,
      cv_MyRole = (case role of None \<Rightarrow> [] | Some r \<Rightarrow> ChanRole_String r),
      cv_Premium = ch_Premium c, cv_PriceCents = ch_PriceCents c,
      cv_MySubscribed =
        (if (case role of None \<Rightarrow> False | Some r \<Rightarrow> r \<ge> RoleChanAdmin) then True
         else ch_Premium c \<and> is_subscribed e (ch_ID c) u db),
      cv_CreatedAt = UnixMilli (ch_CreatedAt c)\<rparr>"

definition publicViews :: "chan_env \<Rightarrow> chan list \<Rightarrow> chan_db \<Rightarrow> channel_view list" where
  "publicViews e cs db =
     map (\<lambda>c. \<lparr>cv_ID = ch_ID c, cv_Handle = ch_Handle c, cv_Name = ch_Name c, cv_Description = ch_Description c,
        cv_Kind = Kind_String (ch_Kind c), cv_Verified = ch_Verified c, cv_Followers = followers e (ch_ID c) db,
        cv_MyRole = [], cv_Premium = ch_Premium c, cv_PriceCents = ch_PriceCents c, cv_MySubscribed = False,
        cv_CreatedAt = UnixMilli (ch_CreatedAt c)\<rparr>) cs"

definition broadcast :: "chan_env \<Rightarrow> string \<Rightarrow> string \<Rightarrow> chan_sys \<Rightarrow> chan_sys" where
  "broadcast e c p s =
     (if ce_fails e CNudge then s else s\<lparr>cs_nudges := cs_nudges s @ [(ce_now e, c, p)]\<rparr>)"

record post_view =
  pv_ID :: string
  pv_ChannelID :: string
  pv_Body :: string
  pv_MediaRef :: string
  pv_Scheduled :: bool
  pv_PublishAt :: int
  pv_Reactions :: "string \<Rightarrow> nat"
  pv_Comments :: nat
  pv_CreatedAt :: int

definition postView :: "post \<Rightarrow> (string \<Rightarrow> nat) \<Rightarrow> nat \<Rightarrow> post_view" where
  "postView p reactions comments =
     \<lparr>pv_ID = po_ID p, pv_ChannelID = po_ChannelID p, pv_Body = po_Body p, pv_MediaRef = COALESCE (po_MediaRef p) [],
      pv_Scheduled = (\<not> po_Published p), pv_PublishAt = UnixMilli (po_PublishAt p), pv_Reactions = reactions,
      pv_Comments = comments, pv_CreatedAt = UnixMilli (po_CreatedAt p)\<rparr>"

section \<open>Channels\<close>

definition parse_kind :: "string \<Rightarrow> int option" where
  "parse_kind k =
     (if k = ''private'' then Some KindPrivate else if k \<noteq> [] \<and> k \<noteq> ''public'' then None else Some KindPublic)"

definition Chan_Create ::
  "chan_env \<Rightarrow> string \<Rightarrow> string \<Rightarrow> string \<Rightarrow> string \<Rightarrow> string \<Rightarrow> chan_sys \<Rightarrow> channel_view result \<times> chan_sys" where
  "Chan_Create e u handle0 name description kindStr s =
     (let handle = ToLower (TrimSpace handle0) in
      case parse_kind kindStr of
        None \<Rightarrow> (Inl (Reject 400 ''VALIDATION_KIND''), s)
      | Some kind \<Rightarrow>
          if \<not> Chan_ValidateCreate handle name description kind then (Inl (Reject 400 ''VALIDATION_CHANNEL''), s)
          else
            let c = \<lparr>ch_ID = ce_id e, ch_OwnerID = u, ch_Handle = handle, ch_Name = name, ch_Description = description,
                     ch_Kind = kind, ch_Verified = False, ch_Premium = False, ch_PriceCents = 0,
                     ch_CreatedAt = ce_now e, ch_Deleted = False\<rparr>
            in if ce_fails e CCreate then (Inl Transient, s)
               else case CreateChannel c (cs_db s) of
                 Inl ErrHandleTaken \<Rightarrow> (Inl (Reject 409 ''HANDLE_TAKEN''), s)
               | Inl ErrChanStore \<Rightarrow> (Inl Transient, s)
               | Inr db1 \<Rightarrow>
                   (case chan_write (ce_fails e CAdd)
                       (Chan_AddMember \<lparr>cm_ChannelID = ce_id e, cm_UserID = u, cm_Role = RoleChanOwner, cm_JoinedAt = ce_now e\<rparr> db1)
                       (s\<lparr>cs_db := db1\<rparr>) of
                      (Inl err, s2) \<Rightarrow> (Inl err, s2)
                    | (Inr _, s2) \<Rightarrow> (Inr (chan_view e c (Some RoleChanOwner) u (cs_db s2)), s2)))"

definition Chan_Get :: "chan_env \<Rightarrow> string \<Rightarrow> string \<Rightarrow> chan_db \<Rightarrow> channel_view result" where
  "Chan_Get e u i db =
     (case chan_caller e i u db of
        Inl err \<Rightarrow> Inl err
      | Inr (c, me) \<Rightarrow>
          if ch_Kind c = KindPrivate \<and> me = None then Inl CHANNEL_NOT_FOUND
          else Inr (chan_view e c (map_option cm_Role me) u db))"

definition Chan_Update ::
  "chan_env \<Rightarrow> string \<Rightarrow> string \<Rightarrow> string option \<Rightarrow> string option \<Rightarrow> chan_sys \<Rightarrow> unit result \<times> chan_sys" where
  "Chan_Update e u i name description s =
     (case chan_caller e i u (cs_db s) of
        Inl err \<Rightarrow> (Inl err, s)
      | Inr (c, me) \<Rightarrow>
          if \<not> may Chan_CanEditInfo me then (Inl CHANNEL_NOT_FOUND, s)
          else if (case name of None \<Rightarrow> False | Some n \<Rightarrow> n = [] \<or> length n > MaxName) then (Inl (Reject 400 ''VALIDATION_NAME''), s)
          else if (case description of None \<Rightarrow> False | Some d \<Rightarrow> length d > MaxDescription) then (Inl (Reject 400 ''VALIDATION_DESC''), s)
          else chan_write (ce_fails e CUpdate) (Some (UpdateChannel i name description (cs_db s))) s)"

definition Chan_Delete :: "chan_env \<Rightarrow> string \<Rightarrow> string \<Rightarrow> chan_sys \<Rightarrow> unit result \<times> chan_sys" where
  "Chan_Delete e u i s =
     (case chan_caller e i u (cs_db s) of
        Inl err \<Rightarrow> (Inl err, s)
      | Inr (c, me) \<Rightarrow>
          if \<not> may Chan_CanDelete me then (Inl CHANNEL_NOT_FOUND, s)
          else chan_write (ce_fails e CDelete) (Some (DeleteChannel i (cs_db s))) s)"

definition Chan_Search :: "chan_env \<Rightarrow> string \<Rightarrow> int \<Rightarrow> chan_db \<Rightarrow> channel_view list result" where
  "Chan_Search e query limit db =
     (let q = TrimSpace query in
      if length q < 2 then Inl (Reject 400 ''VALIDATION_QUERY'')
      else if ce_fails e CSearch then Inl Transient
      else Inr (publicViews e (SearchChannels (ce_ilike e) (ce_by_name e) q (clampLimit limit) db) db))"

definition Service_Discover :: "chan_env \<Rightarrow> int \<Rightarrow> chan_db \<Rightarrow> channel_view list result" where
  "Service_Discover e limit db =
     (if ce_fails e CDiscover then Inl Transient
      else Inr (publicViews e (Chan_Discover (clampLimit limit) db) db))"

section \<open>Membership\<close>

definition Follow :: "chan_env \<Rightarrow> string \<Rightarrow> string \<Rightarrow> chan_sys \<Rightarrow> unit result \<times> chan_sys" where
  "Follow e u i s =
     (case chan_caller e i u (cs_db s) of
        Inl err \<Rightarrow> (Inl err, s)
      | Inr (c, me) \<Rightarrow>
          if ch_Kind c = KindPrivate \<and> me = None then (Inl CHANNEL_NOT_FOUND, s)
          else if may (\<lambda>r. r \<ge> RoleChanAdmin) me then (Inr (), s)
          else chan_write (ce_fails e CAdd)
            (Chan_AddMember \<lparr>cm_ChannelID = i, cm_UserID = u, cm_Role = RoleFollower, cm_JoinedAt = ce_now e\<rparr> (cs_db s)) s)"

definition Unfollow :: "chan_env \<Rightarrow> string \<Rightarrow> string \<Rightarrow> chan_sys \<Rightarrow> unit result \<times> chan_sys" where
  "Unfollow e u i s =
     (case chan_caller e i u (cs_db s) of
        Inl err \<Rightarrow> (Inl err, s)
      | Inr (c, me) \<Rightarrow>
          if may (\<lambda>r. r = RoleChanOwner) me then (Inl (Reject 409 ''OWNER_CANNOT_LEAVE''), s)
          else chan_write (ce_fails e CRemove) (Some (Chan_RemoveMember i u (cs_db s))) s)"

definition Chan_Members :: "chan_env \<Rightarrow> string \<Rightarrow> string \<Rightarrow> int \<Rightarrow> chan_db \<Rightarrow> (string \<times> string) list result" where
  "Chan_Members e u i limit db =
     (case chan_caller e i u db of
        Inl err \<Rightarrow> Inl err
      | Inr (c, me) \<Rightarrow>
          if \<not> may Chan_CanEditInfo me then Inl CHANNEL_NOT_FOUND
          else if ce_fails e CMembers then Inl Transient
          else Inr (map (\<lambda>m. (cm_UserID m, ChanRole_String (cm_Role m))) (Chan_ListMembers i (clampLimit limit) db)))"

definition parse_role :: "string \<Rightarrow> chan_role option" where
  "parse_role r =
     (if r = ''admin'' then Some RoleChanAdmin else if r = ''follower'' then Some RoleFollower else None)"

definition Service_SetRole ::
  "chan_env \<Rightarrow> string \<Rightarrow> string \<Rightarrow> string \<Rightarrow> string \<Rightarrow> chan_sys \<Rightarrow> unit result \<times> chan_sys" where
  "Service_SetRole e u i target roleStr s =
     (case chan_caller e i u (cs_db s) of
        Inl err \<Rightarrow> (Inl err, s)
      | Inr (c, me) \<Rightarrow>
          if \<not> may Chan_CanChangeRoles me then (Inl CHANNEL_NOT_FOUND, s)
          else case parse_role roleStr of
            None \<Rightarrow> (Inl (Reject 400 ''VALIDATION_ROLE''), s)
          | Some role \<Rightarrow>
              if target = u then (Inl (Reject 400 ''VALIDATION_SELF''), s)
              else if ce_fails e CRole then (Inl Transient, s)
              else case Chan_SetRole i target role (cs_db s) of
                None \<Rightarrow> (Inl (Reject 404 ''MEMBER_NOT_FOUND''), s)
              | Some db \<Rightarrow> (Inr (), s\<lparr>cs_db := db\<rparr>))"

section \<open>Posts\<close>

definition Service_CreatePost ::
  "chan_env \<Rightarrow> string \<Rightarrow> string \<Rightarrow> string \<Rightarrow> string option \<Rightarrow> int \<Rightarrow> chan_sys \<Rightarrow> post_view result \<times> chan_sys" where
  "Service_CreatePost e u i body mediaRef publishAtMS s =
     (case chan_caller e i u (cs_db s) of
        Inl err \<Rightarrow> (Inl err, s)
      | Inr (c, me) \<Rightarrow>
          if \<not> may Chan_CanPost me then (Inl CHANNEL_NOT_FOUND, s)
          else if \<not> ValidatePost body then (Inl (Reject 400 ''VALIDATION_POST''), s)
          else
            let now = ce_now e;
                publishAt = (if publishAtMS > UnixMilli now then publishAtMS * Millisecond else now);
                published = (\<not> publishAt > now);
                p = \<lparr>po_ID = ce_id e, po_ChannelID = i, po_AuthorID = u, po_Body = body, po_MediaRef = mediaRef,
                     po_PublishAt = publishAt, po_Published = published, po_Views = 0, po_CreatedAt = now, po_Deleted = False\<rparr>
            in case chan_write (ce_fails e CPost) (Chan_CreatePost p (cs_db s)) s of
                 (Inl err, s1) \<Rightarrow> (Inl err, s1)
               | (Inr _, s1) \<Rightarrow> (Inr (postView p (\<lambda>_. 0) 0), if published then broadcast e i (po_ID p) s1 else s1))"

definition Posts :: "chan_env \<Rightarrow> string \<Rightarrow> string \<Rightarrow> int \<Rightarrow> chan_db \<Rightarrow> post_view list result" where
  "Posts e u i limit db =
     (case chan_caller e i u db of
        Inl err \<Rightarrow> Inl err
      | Inr (c, me) \<Rightarrow>
          if \<not> canRead e c me u db then
            (if ch_Premium c then Inl (Reject 402 ''PREMIUM_REQUIRED'') else Inl CHANNEL_NOT_FOUND)
          else if ce_fails e CPosts then Inl Transient
          else Inr (map (\<lambda>p. postView p (if ce_fails e CReactions then (\<lambda>_. 0) else Reactions (po_ID p) db)
                 (if ce_fails e CCount then 0 else CommentCount (po_ID p) db)) (ListPosts i (clampLimit limit) db)))"

definition Service_DeletePost :: "chan_env \<Rightarrow> string \<Rightarrow> string \<Rightarrow> chan_sys \<Rightarrow> unit result \<times> chan_sys" where
  "Service_DeletePost e u p s =
     (case load_post e p u (cs_db s) of
        Inl err \<Rightarrow> (Inl err, s)
      | Inr (po, c, me) \<Rightarrow>
          if po_AuthorID po \<noteq> u \<and> \<not> may Chan_CanPost me then (Inl POST_NOT_FOUND, s)
          else chan_write (ce_fails e CDelPost) (Some (Chan_DeletePost p (cs_db s))) s)"

definition broadcast_all :: "chan_env \<Rightarrow> post list \<Rightarrow> chan_sys \<Rightarrow> chan_sys" where
  "broadcast_all e ps s = fold (\<lambda>p. broadcast e (po_ChannelID p) (po_ID p)) ps s"

definition PublishDue :: "chan_env \<Rightarrow> chan_sys \<Rightarrow> nat option \<times> chan_sys" where
  "PublishDue e s =
     (if ce_fails e CDue then (None, s)
      else let (ps, db) = Store_PublishDue (ce_now e) 500 (cs_db s)
           in (Some (length ps), broadcast_all e ps (s\<lparr>cs_db := db\<rparr>)))"

section \<open>Reactions and comments\<close>

definition React :: "chan_env \<Rightarrow> string \<Rightarrow> string \<Rightarrow> string \<Rightarrow> bool \<Rightarrow> chan_sys \<Rightarrow> unit result \<times> chan_sys" where
  "React e u p emoji on s =
     (if emoji = [] \<or> length emoji > 16 then (Inl (Reject 400 ''VALIDATION_EMOJI''), s)
      else case viewablePost e p u (cs_db s) of
        Inl err \<Rightarrow> (Inl err, s)
      | Inr po \<Rightarrow> chan_write (ce_fails e CReact) (if on then Store_React p u emoji (cs_db s) else Some (Unreact p u emoji (cs_db s))) s)"

record comment_view =
  ov_ID :: string
  ov_AuthorID :: string
  ov_Body :: string
  ov_CreatedAt :: int

definition comment_of :: "comment \<Rightarrow> comment_view" where
  "comment_of c = \<lparr>ov_ID = co_ID c, ov_AuthorID = co_AuthorID c, ov_Body = co_Body c, ov_CreatedAt = UnixMilli (co_CreatedAt c)\<rparr>"

definition Comment :: "chan_env \<Rightarrow> string \<Rightarrow> string \<Rightarrow> string \<Rightarrow> chan_sys \<Rightarrow> comment_view result \<times> chan_sys" where
  "Comment e u p body s =
     (case viewablePost e p u (cs_db s) of
        Inl err \<Rightarrow> (Inl err, s)
      | Inr po \<Rightarrow>
          if \<not> ValidateComment body then (Inl (Reject 400 ''VALIDATION_COMMENT''), s)
          else
            let c = \<lparr>co_ID = ce_id e, co_PostID = p, co_AuthorID = u, co_Body = body, co_CreatedAt = ce_now e, co_Deleted = False\<rparr>
            in case chan_write (ce_fails e CComment) (CreateComment c (cs_db s)) s of
                 (Inl err, s1) \<Rightarrow> (Inl err, s1)
               | (Inr _, s1) \<Rightarrow> (Inr (comment_of c), s1))"

definition Comments :: "chan_env \<Rightarrow> string \<Rightarrow> string \<Rightarrow> int \<Rightarrow> chan_db \<Rightarrow> comment_view list result" where
  "Comments e u p limit db =
     (case viewablePost e p u db of
        Inl err \<Rightarrow> Inl err
      | Inr po \<Rightarrow>
          if ce_fails e CComments then Inl Transient
          else Inr (map comment_of (ListComments p (clampLimit limit) db)))"

definition DeleteComment :: "chan_env \<Rightarrow> string \<Rightarrow> string \<Rightarrow> chan_sys \<Rightarrow> unit result \<times> chan_sys" where
  "DeleteComment e u i s =
     (if ce_fails e CGetComment then (Inl Transient, s)
      else case GetComment i (cs_db s) of
        None \<Rightarrow> (Inl COMMENT_NOT_FOUND, s)
      | Some cm \<Rightarrow>
          (case (if co_AuthorID cm = u then Inr () else
                  case load_post e (co_PostID cm) u (cs_db s) of
                    Inl err \<Rightarrow> Inl err
                  | Inr (po, c, me) \<Rightarrow> if \<not> may Chan_CanPost me then Inl COMMENT_NOT_FOUND else Inr ()) of
             Inl err \<Rightarrow> (Inl err, s)
           | Inr _ \<Rightarrow> chan_write (ce_fails e CDelComment) (Some (Store_DeleteComment i (cs_db s))) s))"

section \<open>Insights and subscriptions\<close>

definition RecordView :: "chan_env \<Rightarrow> string \<Rightarrow> string \<Rightarrow> chan_sys \<Rightarrow> unit result \<times> chan_sys" where
  "RecordView e u p s =
     (case viewablePost e p u (cs_db s) of
        Inl err \<Rightarrow> (Inl err, s)
      | Inr po \<Rightarrow> chan_write (ce_fails e CViews) (Some (IncrementViews p (cs_db s))) s)"

definition GetInsights :: "chan_env \<Rightarrow> string \<Rightarrow> string \<Rightarrow> chan_db \<Rightarrow> insights result" where
  "GetInsights e u i db =
     (case chan_caller e i u db of
        Inl err \<Rightarrow> Inl err
      | Inr (c, me) \<Rightarrow>
          if \<not> may Chan_CanEditInfo me then Inl CHANNEL_NOT_FOUND
          else if ce_fails e CInsights then Inl Transient
          else case Store_Insights (ce_now e) i db of
            None \<Rightarrow> Inl Transient
          | Some ins \<Rightarrow> Inr (ins\<lparr>in_ChannelID := i\<rparr>))"

definition Service_SetPremium :: "chan_env \<Rightarrow> string \<Rightarrow> string \<Rightarrow> bool \<Rightarrow> int \<Rightarrow> chan_sys \<Rightarrow> unit result \<times> chan_sys" where
  "Service_SetPremium e u i premium price s =
     (case chan_caller e i u (cs_db s) of
        Inl err \<Rightarrow> (Inl err, s)
      | Inr (c, me) \<Rightarrow>
          if \<not> may Chan_CanDelete me then (Inl CHANNEL_NOT_FOUND, s)
          else if price < 0 \<or> price > 100000 then (Inl (Reject 400 ''VALIDATION_PRICE''), s)
          else chan_write (ce_fails e CPremium) (Some (SetPremium i premium price (cs_db s))) s)"

definition charge :: "chan_env \<Rightarrow> string \<Rightarrow> string \<Rightarrow> int \<Rightarrow> string option" where
  "charge e u c cents = (case ce_charge e of None \<Rightarrow> Some ''dev-noop'' | Some pay \<Rightarrow> pay u c cents)"

definition Service_Subscribe ::
  "chan_env \<Rightarrow> string \<Rightarrow> string \<Rightarrow> chan_sys \<Rightarrow> (string \<times> int) result \<times> chan_sys" where
  "Service_Subscribe e u i s =
     (case chan_caller e i u (cs_db s) of
        Inl err \<Rightarrow> (Inl err, s)
      | Inr (c, me) \<Rightarrow>
          if ch_Kind c = KindPrivate \<and> me = None then (Inl CHANNEL_NOT_FOUND, s)
          else if \<not> ch_Premium c then (Inl (Reject 409 ''NOT_PREMIUM''), s)
          else if may (\<lambda>r. r \<ge> RoleChanAdmin) me then (Inl (Reject 409 ''ALREADY_MEMBER''), s)
          else case charge e u i (ch_PriceCents c) of
            None \<Rightarrow> (Inl (Reject 402 ''PAYMENT_FAILED''), s)
          | Some ref \<Rightarrow>
              let expires = ce_now e + subscriptionPeriod
              in case chan_write (ce_fails e CSub) (Chan_Subscribe i u ref expires (cs_db s)) s of
                   (Inl err, s1) \<Rightarrow> (Inl err, s1)
                 | (Inr _, s1) \<Rightarrow>
                     (Inr (ref, UnixMilli expires),
                      snd (chan_write (ce_fails e CAdd)
                        (Chan_AddMember \<lparr>cm_ChannelID = i, cm_UserID = u, cm_Role = RoleFollower, cm_JoinedAt = ce_now e\<rparr> (cs_db s1)) s1)))"

section \<open>Requests\<close>

datatype chan_req =
    RqCreate string string string string string
  | RqUpdate string string "string option" "string option"
  | RqDelete string string
  | RqFollow string string
  | RqUnfollow string string
  | RqSetRole string string string string
  | RqPost string string string "string option" int
  | RqDeletePost string string
  | RqSweep
  | RqReact string string string bool
  | RqComment string string string
  | RqDeleteComment string string
  | RqView string string
  | RqPremium string string bool int
  | RqSubscribe string string

fun chan_step :: "chan_sys \<Rightarrow> chan_env \<times> chan_req \<Rightarrow> chan_sys" where
  "chan_step s (e, RqCreate u handle name description kind) = snd (Chan_Create e u handle name description kind s)"
| "chan_step s (e, RqUpdate u i name description) = snd (Chan_Update e u i name description s)"
| "chan_step s (e, RqDelete u i) = snd (Chan_Delete e u i s)"
| "chan_step s (e, RqFollow u i) = snd (Follow e u i s)"
| "chan_step s (e, RqUnfollow u i) = snd (Unfollow e u i s)"
| "chan_step s (e, RqSetRole u i target role) = snd (Service_SetRole e u i target role s)"
| "chan_step s (e, RqPost u i body media at_ms) = snd (Service_CreatePost e u i body media at_ms s)"
| "chan_step s (e, RqDeletePost u p) = snd (Service_DeletePost e u p s)"
| "chan_step s (e, RqSweep) = snd (PublishDue e s)"
| "chan_step s (e, RqReact u p emoji on) = snd (React e u p emoji on s)"
| "chan_step s (e, RqComment u p body) = snd (Comment e u p body s)"
| "chan_step s (e, RqDeleteComment u i) = snd (DeleteComment e u i s)"
| "chan_step s (e, RqView u p) = snd (RecordView e u p s)"
| "chan_step s (e, RqPremium u i premium price) = snd (Service_SetPremium e u i premium price s)"
| "chan_step s (e, RqSubscribe u i) = snd (Service_Subscribe e u i s)"

end
