(* ===== verification/ChannelInv.thy ===== *)
theory ChannelInv
  imports ChannelService
begin

text \<open>
  What a request does to the tables of channels, as a relation: the statements it may execute, with the guards the
  service has checked. The invariants are proved by cases on it.
\<close>

section \<open>Effects of requests\<close>

abbreviation follower_row :: "chan_env \<Rightarrow> string \<Rightarrow> string \<Rightarrow> chan_member" where
  "follower_row e i u \<equiv> \<lparr>cm_ChannelID = i, cm_UserID = u, cm_Role = RoleFollower, cm_JoinedAt = ce_now e\<rparr>"

definition may_enter :: "string \<Rightarrow> string \<Rightarrow> chan_db \<Rightarrow> bool" where
  "may_enter i u db \<longleftrightarrow> (\<exists>c. GetChannel i db = Some c \<and> (ch_Kind c = KindPrivate \<longrightarrow> Chan_GetMember i u db \<noteq> None))"

inductive chan_eff :: "chan_env \<Rightarrow> chan_sys \<Rightarrow> chan_req \<Rightarrow> chan_sys \<Rightarrow> bool" where
  eff_none: "chan_eff e s r s"
| eff_create: "CreateChannel c (cs_db s) = Inr db \<Longrightarrow> ch_ID c = ce_id e \<Longrightarrow> ch_OwnerID c = u \<Longrightarrow>
    chan_eff e s (RqCreate u handle name description kind) (s\<lparr>cs_db := db\<rparr>)"
| eff_create_owner: "CreateChannel c (cs_db s) = Inr db \<Longrightarrow> ch_ID c = ce_id e \<Longrightarrow> ch_OwnerID c = u \<Longrightarrow>
    Chan_AddMember \<lparr>cm_ChannelID = ce_id e, cm_UserID = u, cm_Role = RoleChanOwner, cm_JoinedAt = ce_now e\<rparr> db = Some db' \<Longrightarrow>
    chan_eff e s (RqCreate u handle name description kind) (s\<lparr>cs_db := db'\<rparr>)"
| eff_update: "chan_eff e s (RqUpdate u i name description) (s\<lparr>cs_db := UpdateChannel i name description (cs_db s)\<rparr>)"
| eff_delete: "chan_eff e s (RqDelete u i) (s\<lparr>cs_db := DeleteChannel i (cs_db s)\<rparr>)"
| eff_premium: "0 \<le> price \<Longrightarrow> price \<le> 100000 \<Longrightarrow>
    chan_eff e s (RqPremium u i premium price) (s\<lparr>cs_db := SetPremium i premium price (cs_db s)\<rparr>)"
| eff_follow: "may_enter i u (cs_db s) \<Longrightarrow> Chan_AddMember (follower_row e i u) (cs_db s) = Some db \<Longrightarrow>
    chan_eff e s (RqFollow u i) (s\<lparr>cs_db := db\<rparr>)"
| eff_unfollow: "\<not> may (\<lambda>r. r = RoleChanOwner) (Chan_GetMember i u (cs_db s)) \<Longrightarrow>
    chan_eff e s (RqUnfollow u i) (s\<lparr>cs_db := Chan_RemoveMember i u (cs_db s)\<rparr>)"
| eff_role: "may Chan_CanChangeRoles (Chan_GetMember i u (cs_db s)) \<Longrightarrow> target \<noteq> u \<Longrightarrow>
    role = RoleFollower \<or> role = RoleChanAdmin \<Longrightarrow> Chan_SetRole i target role (cs_db s) = Some db \<Longrightarrow>
    chan_eff e s (RqSetRole u i target rs) (s\<lparr>cs_db := db\<rparr>)"
| eff_post: "Chan_CreatePost p (cs_db s) = Some db \<Longrightarrow> po_ID p = ce_id e \<Longrightarrow> po_ChannelID p = i \<Longrightarrow>
    po_Published p = (po_PublishAt p \<le> ce_now e) \<Longrightarrow>
    chan_eff e s (RqPost u i body media at_ms)
      (if po_Published p then broadcast e i (ce_id e) (s\<lparr>cs_db := db\<rparr>) else s\<lparr>cs_db := db\<rparr>)"
| eff_delete_post: "chan_eff e s (RqDeletePost u p) (s\<lparr>cs_db := Chan_DeletePost p (cs_db s)\<rparr>)"
| eff_sweep: "Store_PublishDue (ce_now e) 500 (cs_db s) = (ps, db) \<Longrightarrow>
    chan_eff e s RqSweep (broadcast_all e ps (s\<lparr>cs_db := db\<rparr>))"
| eff_react: "Store_React p u emoji (cs_db s) = Some db \<Longrightarrow> chan_eff e s (RqReact u p emoji on) (s\<lparr>cs_db := db\<rparr>)"
| eff_unreact: "chan_eff e s (RqReact u p emoji on) (s\<lparr>cs_db := Unreact p u emoji (cs_db s)\<rparr>)"
| eff_comment: "CreateComment c (cs_db s) = Some db \<Longrightarrow> chan_eff e s (RqComment u p body) (s\<lparr>cs_db := db\<rparr>)"
| eff_delete_comment: "chan_eff e s (RqDeleteComment u i) (s\<lparr>cs_db := Store_DeleteComment i (cs_db s)\<rparr>)"
| eff_view: "chan_eff e s (RqView u p) (s\<lparr>cs_db := IncrementViews p (cs_db s)\<rparr>)"
| eff_subscribe: "may_enter i u (cs_db s) \<Longrightarrow> charge e u i price = Some ref \<Longrightarrow>
    Chan_Subscribe i u ref (ce_now e + subscriptionPeriod) (cs_db s) = Some db \<Longrightarrow>
    chan_eff e s (RqSubscribe u i) (s\<lparr>cs_db := db\<rparr>)"
| eff_subscribe_follow: "may_enter i u (cs_db s) \<Longrightarrow> charge e u i price = Some ref \<Longrightarrow>
    Chan_Subscribe i u ref (ce_now e + subscriptionPeriod) (cs_db s) = Some db \<Longrightarrow>
    Chan_AddMember (follower_row e i u) db = Some db' \<Longrightarrow>
    chan_eff e s (RqSubscribe u i) (s\<lparr>cs_db := db'\<rparr>)"

lemma chan_write_cases:
  "chan_write down r s = (res, s') \<Longrightarrow> s' = s \<and> res = Inl Transient \<or> (\<exists>db. r = Some db \<and> res = Inr () \<and> s' = s\<lparr>cs_db := db\<rparr>)"
  by (auto simp: chan_write_def split: if_splits option.splits)

lemma snd_write_eff:
  assumes "\<And>db. r = Some db \<Longrightarrow> chan_eff e s q (s\<lparr>cs_db := db\<rparr>)"
  shows "chan_eff e s q (snd (chan_write down r s))"
  using assms by (auto simp: chan_write_def eff_none split: option.splits)

lemma chan_caller_Inr:
  "chan_caller e i u db = Inr (c, me) \<Longrightarrow> GetChannel i db = Some c \<and> me = Chan_GetMember i u db"
  by (auto simp: chan_caller_def split: if_splits option.splits)

lemma GetChannel_Some: "GetChannel i db = Some c \<Longrightarrow> c \<in> set (cd_Channels db) \<and> ch_ID c = i \<and> \<not> ch_Deleted c"
  by (auto simp: GetChannel_def find_Some_iff)

lemma create_eff: "chan_eff e s (RqCreate u handle name description kind) (snd (Chan_Create e u handle name description kind s))"
proof -
  let ?c = "\<lambda>k. \<lparr>ch_ID = ce_id e, ch_OwnerID = u, ch_Handle = ToLower (TrimSpace handle), ch_Name = name, ch_Description = description,
     ch_Kind = k, ch_Verified = False, ch_Premium = False, ch_PriceCents = 0, ch_CreatedAt = ce_now e, ch_Deleted = False\<rparr>"
  let ?m = "\<lparr>cm_ChannelID = ce_id e, cm_UserID = u, cm_Role = RoleChanOwner, cm_JoinedAt = ce_now e\<rparr>"
  show ?thesis
  proof (cases "parse_kind kind")
    case None
    then show ?thesis by (simp add: Chan_Create_def Let_def eff_none)
  next
    case (Some k)
    show ?thesis
    proof (cases "\<not> Chan_ValidateCreate (ToLower (TrimSpace handle)) name description k \<or> ce_fails e CCreate")
      case True
      with Some show ?thesis by (auto simp: Chan_Create_def Let_def eff_none)
    next
      case ok: False
      show ?thesis
      proof (cases "CreateChannel (?c k) (cs_db s)")
        case (Inl err)
        with Some ok show ?thesis by (cases err) (auto simp: Chan_Create_def Let_def eff_none)
      next
        case (Inr db)
        obtain res s2 where w: "chan_write (ce_fails e CAdd) (Chan_AddMember ?m db) (s\<lparr>cs_db := db\<rparr>) = (res, s2)" by fastforce
        have "snd (Chan_Create e u handle name description kind s) = s2"
          using Some ok Inr w by (auto simp: Chan_Create_def Let_def split: sum.splits)
        moreover from chan_write_cases [OF w] have "chan_eff e s (RqCreate u handle name description kind) s2"
          using eff_create [OF Inr] eff_create_owner [OF Inr] by auto
        ultimately show ?thesis by simp
      qed
    qed
  qed
qed

lemma post_eff: "chan_eff e s (RqPost u i body media at_ms) (snd (Service_CreatePost e u i body media at_ms s))"
proof (cases "chan_caller e i u (cs_db s)")
  case (Inl err)
  then show ?thesis by (simp add: Service_CreatePost_def eff_none)
next
  case (Inr x)
  obtain c me where x: "x = (c, me)" by fastforce
  let ?at = "if at_ms > UnixMilli (ce_now e) then at_ms * Millisecond else ce_now e"
  let ?p = "\<lparr>po_ID = ce_id e, po_ChannelID = i, po_AuthorID = u, po_Body = body, po_MediaRef = media, po_PublishAt = ?at,
    po_Published = (\<not> ?at > ce_now e), po_Views = 0, po_CreatedAt = ce_now e, po_Deleted = False\<rparr>"
  obtain res s1 where w: "chan_write (ce_fails e CPost) (Chan_CreatePost ?p (cs_db s)) s = (res, s1)" by fastforce
  show ?thesis
  proof (cases "\<not> may Chan_CanPost me \<or> \<not> ValidatePost body")
    case True
    with Inr x show ?thesis by (auto simp: Service_CreatePost_def eff_none)
  next
    case False
    with Inr x w have "snd (Service_CreatePost e u i body media at_ms s) =
        (case res of Inl err \<Rightarrow> s1 | Inr _ \<Rightarrow> if po_Published ?p then broadcast e i (ce_id e) s1 else s1)"
      by (auto simp: Service_CreatePost_def Let_def split: sum.splits)
    with chan_write_cases [OF w] eff_post [of ?p s _ e i u body media at_ms] show ?thesis
      by (auto simp: eff_none not_less)
  qed
qed

lemma subscribe_eff: "chan_eff e s (RqSubscribe u i) (snd (Service_Subscribe e u i s))"
proof (cases "chan_caller e i u (cs_db s)")
  case (Inl err)
  then show ?thesis by (simp add: Service_Subscribe_def eff_none)
next
  case (Inr x)
  obtain c me where x: "x = (c, me)" by fastforce
  note c = chan_caller_Inr [OF Inr [unfolded x]]
  show ?thesis
  proof (cases "ch_Kind c = KindPrivate \<and> me = None \<or> \<not> ch_Premium c \<or> may (\<lambda>r. r \<ge> RoleChanAdmin) me \<or> charge e u i (ch_PriceCents c) = None")
    case True
    with Inr x show ?thesis by (auto simp: Service_Subscribe_def eff_none)
  next
    case False
    then obtain ref where ref: "charge e u i (ch_PriceCents c) = Some ref" by auto
    have enter: "may_enter i u (cs_db s)" using False c by (auto simp: may_enter_def)
    obtain res s1 where w: "chan_write (ce_fails e CSub) (Chan_Subscribe i u ref (ce_now e + subscriptionPeriod) (cs_db s)) s = (res, s1)"
      by fastforce
    obtain res2 s2 where w2: "chan_write (ce_fails e CAdd) (Chan_AddMember (follower_row e i u) (cs_db s1)) s1 = (res2, s2)" by fastforce
    have "snd (Service_Subscribe e u i s) = (case res of Inl err \<Rightarrow> s1 | Inr _ \<Rightarrow> s2)"
      using False Inr x ref w w2 by (auto simp: Service_Subscribe_def Let_def split: sum.splits)
    with chan_write_cases [OF w] chan_write_cases [OF w2] eff_subscribe [OF enter ref] eff_subscribe_follow [OF enter ref]
    show ?thesis by (auto simp: eff_none)
  qed
qed

lemma chan_step_eff: "chan_eff e s r (chan_step s (e, r))"
proof (cases r)
  case (RqFollow u i)
  then show ?thesis
    by (auto simp: Follow_def eff_none may_enter_def dest!: chan_caller_Inr intro!: snd_write_eff eff_follow split: sum.splits)
next
  case (RqUnfollow u i)
  then show ?thesis
    by (auto simp: Unfollow_def eff_none dest!: chan_caller_Inr intro!: snd_write_eff eff_unfollow split: sum.splits)
next
  case (RqSetRole u i target rs)
  then show ?thesis
    by (auto simp: Service_SetRole_def eff_none parse_role_def dest!: chan_caller_Inr intro: eff_role split: sum.splits option.splits)
next
  case (RqDeletePost u p)
  then show ?thesis
    by (auto simp: Service_DeletePost_def eff_none intro!: snd_write_eff eff_delete_post split: sum.splits)
next
  case RqSweep
  then show ?thesis by (auto simp: PublishDue_def eff_none intro: eff_sweep split: prod.splits)
next
  case (RqReact u p emoji on)
  then show ?thesis
    by (auto simp: React_def eff_none intro!: snd_write_eff intro: eff_react eff_unreact split: sum.splits)
next
  case (RqComment u p body)
  then show ?thesis
    by (auto simp: Comment_def eff_none Let_def chan_write_def intro: eff_comment split: sum.splits option.splits if_splits)
next
  case (RqDeleteComment u i)
  then show ?thesis
    by (auto simp: DeleteComment_def eff_none intro!: snd_write_eff eff_delete_comment split: sum.splits option.splits)
qed (auto simp: create_eff post_eff subscribe_eff Chan_Update_def Chan_Delete_def RecordView_def Service_SetPremium_def eff_none
  intro!: snd_write_eff intro: eff_update eff_delete eff_view eff_premium split: sum.splits)

end
