(* ===== verification/ChannelProps.thy ===== *)
theory ChannelProps
  imports ChannelInv
begin

text \<open>
  What the channel service guarantees: the invariant of its tables, that a private channel has no reader but its owner,
  the schedule of posts, and that premium posts are read only by admins and by subscribers who were charged.
\<close>

section \<open>The tables\<close>

definition chan_sig :: "chan_db \<Rightarrow> (string \<times> string \<times> int) list" where
  "chan_sig db = map (\<lambda>c. (ch_ID c, ch_OwnerID c, ch_Kind c)) (cd_Channels db)"

definition channels_ok :: "chan_db \<Rightarrow> bool" where
  "channels_ok db \<longleftrightarrow> tbl_wf ch_ID (cd_Channels db) \<and>
     (\<forall>c \<in> set (cd_Channels db). \<forall>d \<in> set (cd_Channels db).
        \<not> ch_Deleted c \<and> \<not> ch_Deleted d \<and> ch_Handle c = ch_Handle d \<longrightarrow> ch_ID c = ch_ID d) \<and>
     (\<forall>c \<in> set (cd_Channels db). 0 \<le> ch_PriceCents c \<and> ch_PriceCents c \<le> 100000)"

definition members_ok :: "chan_db \<Rightarrow> bool" where
  "members_ok db \<longleftrightarrow> tbl_wf cm_key (cd_Members db) \<and>
     (\<forall>m \<in> set (cd_Members db). \<exists>ow k. (cm_ChannelID m, ow, k) \<in> set (chan_sig db) \<and>
        cm_Role m \<in> {RoleFollower, RoleChanAdmin, RoleChanOwner} \<and>
        (cm_Role m = RoleChanOwner \<longrightarrow> cm_UserID m = ow) \<and> (k = KindPrivate \<longrightarrow> cm_UserID m = ow))"

definition content_ok :: "chan_db \<Rightarrow> bool" where
  "content_ok db \<longleftrightarrow> tbl_wf po_ID (cd_Posts db) \<and> tbl_wf co_ID (cd_Comments db) \<and> distinct (cd_Reactions db) \<and> tbl_wf cu_key (cd_Subs db) \<and>
     po_ChannelID ` set (cd_Posts db) \<subseteq> ch_ID ` set (cd_Channels db) \<and>
     co_PostID ` set (cd_Comments db) \<subseteq> po_ID ` set (cd_Posts db) \<and> fst ` set (cd_Reactions db) \<subseteq> po_ID ` set (cd_Posts db)"

definition chan_ok :: "chan_sys \<Rightarrow> bool" where
  "chan_ok s \<longleftrightarrow> channels_ok (cs_db s) \<and> members_ok (cs_db s) \<and> content_ok (cs_db s)"

lemma image_id_sig: "ch_ID ` set (cd_Channels db) = fst ` set (chan_sig db)"
  by (simp add: chan_sig_def image_image)

lemma members_ok_cong:
  "cd_Members db' = cd_Members db \<Longrightarrow> set (chan_sig db) \<subseteq> set (chan_sig db') \<Longrightarrow> members_ok db \<Longrightarrow> members_ok db'"
  unfolding members_ok_def by (metis subsetD)

lemma channels_ok_cong: "cd_Channels db' = cd_Channels db \<Longrightarrow> channels_ok db' = channels_ok db"
  by (simp add: channels_ok_def)

lemma chan_sig_cong: "cd_Channels db' = cd_Channels db \<Longrightarrow> chan_sig db' = chan_sig db"
  by (simp add: chan_sig_def)

section \<open>Updates of channels\<close>

lemma upd_channel_other [simp]:
  "cd_Members (upd_channel i f db) = cd_Members db" "cd_Posts (upd_channel i f db) = cd_Posts db"
  "cd_Comments (upd_channel i f db) = cd_Comments db" "cd_Reactions (upd_channel i f db) = cd_Reactions db"
  "cd_Subs (upd_channel i f db) = cd_Subs db"
  by (simp_all add: upd_channel_def)

lemma upd_channel_sig:
  assumes "\<And>c. ch_ID (f c) = ch_ID c \<and> ch_OwnerID (f c) = ch_OwnerID c \<and> ch_Kind (f c) = ch_Kind c"
  shows "chan_sig (upd_channel i f db) = chan_sig db"
  using assms by (simp add: chan_sig_def upd_channel_def)

lemma upd_channel_ok:
  assumes f: "\<And>c. ch_ID (f c) = ch_ID c \<and> ch_OwnerID (f c) = ch_OwnerID c \<and> ch_Kind (f c) = ch_Kind c"
      "\<And>c. ch_Handle (f c) = ch_Handle c" "\<And>c. 0 \<le> ch_PriceCents c \<and> ch_PriceCents c \<le> 100000 \<Longrightarrow> 0 \<le> ch_PriceCents (f c) \<and> ch_PriceCents (f c) \<le> 100000"
    and ok: "chan_ok s"
  shows "chan_ok (s\<lparr>cs_db := upd_channel i f (cs_db s)\<rparr>)"
proof -
  let ?g = "\<lambda>c. if ch_ID c = i \<and> \<not> ch_Deleted c then f c else c" and ?db = "upd_channel i f (cs_db s)"
  have sig: "chan_sig ?db = chan_sig (cs_db s)" using f(1) by (rule upd_channel_sig)
  have chans: "cd_Channels ?db = map ?g (cd_Channels (cs_db s))" by (simp add: upd_channel_def)
  have "tbl_wf ch_ID (cd_Channels ?db)"
    unfolding chans using ok f(1) by (intro tbl_wf_map) (auto simp: chan_ok_def channels_ok_def)
  moreover have "ch_ID (?g c) = ch_ID (?g d)"
    if "c \<in> set (cd_Channels (cs_db s))" "d \<in> set (cd_Channels (cs_db s))" "\<not> ch_Deleted (?g c)" "\<not> ch_Deleted (?g d)" "ch_Handle (?g c) = ch_Handle (?g d)" for c d
  proof -
    have "\<not> ch_Deleted c" "\<not> ch_Deleted d" "ch_Handle c = ch_Handle d" using that f(2) by (auto split: if_splits)
    then have "ch_ID c = ch_ID d" using that(1,2) ok unfolding chan_ok_def channels_ok_def by blast
    then show ?thesis using f(1) by simp
  qed
  moreover have "0 \<le> ch_PriceCents (?g c) \<and> ch_PriceCents (?g c) \<le> 100000" if "c \<in> set (cd_Channels (cs_db s))" for c
    using that f(3) [of c] ok unfolding chan_ok_def channels_ok_def by simp
  ultimately have "channels_ok ?db" unfolding channels_ok_def chans set_map by blast
  moreover have "members_ok ?db" using ok members_ok_cong [of ?db "cs_db s"] sig by (simp add: chan_ok_def)
  moreover have "content_ok ?db" using ok sig by (simp add: chan_ok_def content_ok_def image_id_sig)
  ultimately show ?thesis by (simp add: chan_ok_def)
qed

section \<open>New channels and members\<close>

lemma create_ok:
  assumes "CreateChannel c db = Inr db'" "channels_ok db" "members_ok db" "content_ok db"
  shows "channels_ok db'" "members_ok db'" "content_ok db'" "(ch_ID c, ch_OwnerID c, ch_Kind c) \<in> set (chan_sig db')"
    "(ch_ID c) \<notin> cm_ChannelID ` set (cd_Members db')"
proof -
  let ?c = "c\<lparr>ch_Verified := False, ch_Premium := False, ch_PriceCents := 0, ch_Deleted := False\<rparr>"
  have new: "ch_ID c \<notin> ch_ID ` set (cd_Channels db)" "\<not> list_ex (\<lambda>d. \<not> ch_Deleted d \<and> ch_Handle d = ch_Handle c) (cd_Channels db)"
    and db': "db' = db\<lparr>cd_Channels := cd_Channels db @ [?c]\<rparr>"
    using assms(1) by (auto simp: CreateChannel_def split: if_splits)
  show "channels_ok db'"
  proof -
    have fresh: "ch_Handle d \<noteq> ch_Handle c" if "d \<in> set (cd_Channels db)" "\<not> ch_Deleted d" for d
      using new(2) that by (auto simp: list_ex_iff)
    have "tbl_wf ch_ID (cd_Channels db @ [?c])" using assms(2) new(1) by (auto simp: channels_ok_def tbl_wf_def)
    moreover have "ch_ID a = ch_ID b" if "a \<in> set (cd_Channels db @ [?c])" "b \<in> set (cd_Channels db @ [?c])"
        "\<not> ch_Deleted a \<and> \<not> ch_Deleted b \<and> ch_Handle a = ch_Handle b" for a b
    proof -
      have handle: "x = ?c \<or> x \<in> set (cd_Channels db)" if "x \<in> set (cd_Channels db @ [?c])" for x using that by auto
      have c: "ch_Handle ?c = ch_Handle c" by simp
      from handle [OF that(1)] handle [OF that(2)] show ?thesis
      proof (elim disjE)
        assume "a \<in> set (cd_Channels db)" "b \<in> set (cd_Channels db)"
        then show ?thesis using that(3) assms(2) unfolding channels_ok_def by blast
      next
        assume "a = ?c" "b \<in> set (cd_Channels db)"
        then show ?thesis using that(3) fresh [of b] c by metis
      next
        assume "a \<in> set (cd_Channels db)" "b = ?c"
        then show ?thesis using that(3) fresh [of a] c by metis
      qed simp
    qed
    moreover have "0 \<le> ch_PriceCents a \<and> ch_PriceCents a \<le> 100000" if "a \<in> set (cd_Channels db @ [?c])" for a
      using that assms(2) by (auto simp: channels_ok_def)
    moreover have "cd_Channels db' = cd_Channels db @ [?c]" by (simp add: db')
    ultimately show ?thesis unfolding channels_ok_def by metis
  qed
  have sig: "chan_sig db' = chan_sig db @ [(ch_ID c, ch_OwnerID c, ch_Kind c)]" by (simp add: db' chan_sig_def)
  show "members_ok db'" using assms(3) by (rule members_ok_cong [rotated 2]) (auto simp: sig, simp add: db')
  show "content_ok db'" using assms(4) by (auto simp: content_ok_def db')
  show "(ch_ID c, ch_OwnerID c, ch_Kind c) \<in> set (chan_sig db')" by (simp add: sig)
  have "cm_ChannelID m \<in> fst ` set (chan_sig db)" if "m \<in> set (cd_Members db)" for m
    using assms(3) that unfolding members_ok_def by force
  then show "ch_ID c \<notin> cm_ChannelID ` set (cd_Members db')"
    using new(1) by (auto simp: db' image_id_sig)
qed

lemma add_member_ok:
  assumes "Chan_AddMember m db = Some db'" "channels_ok db" "members_ok db" "content_ok db"
    and "cm_key m \<notin> cm_key ` set (cd_Members db) \<Longrightarrow> \<exists>ow k. (cm_ChannelID m, ow, k) \<in> set (chan_sig db) \<and>
        cm_Role m \<in> {RoleFollower, RoleChanAdmin, RoleChanOwner} \<and>
        (cm_Role m = RoleChanOwner \<longrightarrow> cm_UserID m = ow) \<and> (k = KindPrivate \<longrightarrow> cm_UserID m = ow)"
  shows "channels_ok db' \<and> members_ok db' \<and> content_ok db'"
proof (cases "cm_key m \<in> cm_key ` set (cd_Members db)")
  case True
  with assms show ?thesis by (simp add: Chan_AddMember_def)
next
  case False
  with assms(1) have db': "db' = db\<lparr>cd_Members := cd_Members db @ [m]\<rparr>" by (simp add: Chan_AddMember_def split: if_splits)
  have sig: "chan_sig db' = chan_sig db" by (simp add: db' chan_sig_def)
  have "tbl_wf cm_key (cd_Members db')" using assms(3) False by (auto simp: db' members_ok_def tbl_wf_def)
  moreover have "\<exists>ow k. (cm_ChannelID x, ow, k) \<in> set (chan_sig db) \<and>
      cm_Role x \<in> {RoleFollower, RoleChanAdmin, RoleChanOwner} \<and>
      (cm_Role x = RoleChanOwner \<longrightarrow> cm_UserID x = ow) \<and> (k = KindPrivate \<longrightarrow> cm_UserID x = ow)"
    if "x \<in> set (cd_Members db')" for x
  proof (cases "x = m")
    case True
    with assms(5) [OF False] show ?thesis by (simp only:)
  next
    case False
    with that have "x \<in> set (cd_Members db)" by (simp add: db')
    with assms(3) show ?thesis unfolding members_ok_def by blast
  qed
  ultimately have "members_ok db'" unfolding members_ok_def sig by blast
  moreover have "content_ok db'" using assms(4) by (simp add: db' content_ok_def)
  moreover have "channels_ok db'" using channels_ok_cong [of db' db] assms(2) unfolding db' by simp
  ultimately show ?thesis by simp
qed

lemma may_enter_row:
  assumes "may_enter i u db" "cm_key (follower_row e i u) \<notin> cm_key ` set (cd_Members db)"
  shows "\<exists>ow k. (i, ow, k) \<in> set (chan_sig db) \<and> k \<noteq> KindPrivate"
proof -
  obtain c where c: "GetChannel i db = Some c" "ch_Kind c = KindPrivate \<Longrightarrow> Chan_GetMember i u db \<noteq> None"
    using assms(1) by (auto simp: may_enter_def)
  have "Chan_GetMember i u db = None" using assms(2) by (simp add: Chan_GetMember_def tbl_get_None cm_key_def)
  with c GetChannel_Some [OF c(1)] show ?thesis by (force simp: chan_sig_def)
qed

lemma follow_ok:
  assumes "may_enter i u db" "Chan_AddMember (follower_row e i u) db = Some db'" "channels_ok db" "members_ok db" "content_ok db"
  shows "channels_ok db' \<and> members_ok db' \<and> content_ok db'"
  using assms(2-5)
proof (rule add_member_ok)
  assume "cm_key (follower_row e i u) \<notin> cm_key ` set (cd_Members db)"
  from may_enter_row [OF assms(1) this] obtain ow k where "(i, ow, k) \<in> set (chan_sig db)" "k \<noteq> KindPrivate" by blast
  then show "\<exists>ow k. (cm_ChannelID (follower_row e i u), ow, k) \<in> set (chan_sig db) \<and>
      cm_Role (follower_row e i u) \<in> {RoleFollower, RoleChanAdmin, RoleChanOwner} \<and>
      (cm_Role (follower_row e i u) = RoleChanOwner \<longrightarrow> cm_UserID (follower_row e i u) = ow) \<and>
      (k = KindPrivate \<longrightarrow> cm_UserID (follower_row e i u) = ow)"
    by (auto simp: chan_roles)
qed

lemma members_changed:
  assumes "members_ok db" "tbl_wf cm_key ms" "\<And>m. m \<in> set ms \<Longrightarrow> \<exists>m' \<in> set (cd_Members db). cm_key m = cm_key m' \<and>
      (cm_Role m = cm_Role m' \<or> cm_Role m \<in> {RoleFollower, RoleChanAdmin})"
  shows "members_ok (db\<lparr>cd_Members := ms\<rparr>)"
proof -
  have sig: "chan_sig (db\<lparr>cd_Members := ms\<rparr>) = chan_sig db" by (simp add: chan_sig_def)
  have "\<exists>ow k. (cm_ChannelID m, ow, k) \<in> set (chan_sig db) \<and> cm_Role m \<in> {RoleFollower, RoleChanAdmin, RoleChanOwner} \<and>
      (cm_Role m = RoleChanOwner \<longrightarrow> cm_UserID m = ow) \<and> (k = KindPrivate \<longrightarrow> cm_UserID m = ow)" if m: "m \<in> set ms" for m
  proof -
    obtain m' where m': "m' \<in> set (cd_Members db)" and k: "cm_ChannelID m = cm_ChannelID m'" "cm_UserID m = cm_UserID m'"
      and role: "cm_Role m = cm_Role m' \<or> cm_Role m \<in> {RoleFollower, RoleChanAdmin}"
      using assms(3) [OF m] by (auto simp: cm_key_def)
    obtain ow kd where "(cm_ChannelID m', ow, kd) \<in> set (chan_sig db)" "cm_Role m' \<in> {RoleFollower, RoleChanAdmin, RoleChanOwner}"
        "cm_Role m' = RoleChanOwner \<longrightarrow> cm_UserID m' = ow" "kd = KindPrivate \<longrightarrow> cm_UserID m' = ow"
      using assms(1) m' unfolding members_ok_def by blast
    then show ?thesis using k role by (intro exI [of _ ow] exI [of _ kd]) (auto simp: chan_roles)
  qed
  moreover have "cd_Members (db\<lparr>cd_Members := ms\<rparr>) = ms" by simp
  ultimately show ?thesis using assms(2) unfolding members_ok_def sig by metis
qed

lemma leave_ok: "members_ok db \<Longrightarrow> members_ok (Chan_RemoveMember i u db)"
  unfolding Chan_RemoveMember_def
proof (rule members_changed)
  assume "members_ok db"
  then show "tbl_wf cm_key (tbl_del cm_key (i, u) (cd_Members db))" by (simp add: members_ok_def tbl_wf_del)
qed auto

lemma role_ok:
  assumes "members_ok db" "Chan_SetRole i u role db = Some db'" "role = RoleFollower \<or> role = RoleChanAdmin"
  shows "members_ok db'"
proof -
  have db': "db' = db\<lparr>cd_Members := tbl_upd cm_key (i, u) (\<lambda>m. m\<lparr>cm_Role := role\<rparr>) (cd_Members db)\<rparr>"
    using assms(2) by (auto simp: Chan_SetRole_def split: if_splits)
  have key: "cm_key (m\<lparr>cm_Role := role\<rparr>) = cm_key m" for m by (simp add: cm_key_def)
  show ?thesis unfolding db'
  proof (rule members_changed [OF assms(1)])
    show "tbl_wf cm_key (tbl_upd cm_key (i, u) (\<lambda>m. m\<lparr>cm_Role := role\<rparr>) (cd_Members db))"
      using assms(1) key by (intro tbl_wf_upd) (auto simp: members_ok_def)
    fix m
    assume "m \<in> set (tbl_upd cm_key (i, u) (\<lambda>m. m\<lparr>cm_Role := role\<rparr>) (cd_Members db))"
    then obtain m' where m': "m' \<in> set (cd_Members db)" "m = m' \<or> m = m'\<lparr>cm_Role := role\<rparr>"
      by (auto simp: set_tbl_upd split: if_splits)
    then have "cm_key m = cm_key m' \<and> (cm_Role m = cm_Role m' \<or> cm_Role m \<in> {RoleFollower, RoleChanAdmin})"
      using assms(3) key [of m'] by auto
    with m'(1) show "\<exists>m' \<in> set (cd_Members db). cm_key m = cm_key m' \<and> (cm_Role m = cm_Role m' \<or> cm_Role m \<in> {RoleFollower, RoleChanAdmin})"
      by blast
  qed
qed

section \<open>Content\<close>

lemma chan_ok_content:
  assumes "chan_ok s" "cd_Channels db = cd_Channels (cs_db s)" "cd_Members db = cd_Members (cs_db s)" "content_ok db"
  shows "chan_ok (s\<lparr>cs_db := db, cs_nudges := ns\<rparr>)"
  using assms channels_ok_cong [of db "cs_db s"] members_ok_cong [of db "cs_db s"] chan_sig_cong [of db "cs_db s"]
  by (simp add: chan_ok_def)

lemma chan_ok_db: "chan_ok s \<Longrightarrow> cd_Channels db = cd_Channels (cs_db s) \<Longrightarrow> cd_Members db = cd_Members (cs_db s) \<Longrightarrow>
    content_ok db \<Longrightarrow> chan_ok (s\<lparr>cs_db := db\<rparr>)"
  using chan_ok_content [of s db "cs_nudges s"] by simp

lemma content_posts:
  assumes "content_ok db" "\<And>p. po_ID (f p) = po_ID p \<and> po_ChannelID (f p) = po_ChannelID p"
  shows "content_ok (db\<lparr>cd_Posts := map f (cd_Posts db)\<rparr>)"
proof -
  have "tbl_wf po_ID (map f (cd_Posts db))" using assms by (intro tbl_wf_map) (auto simp: content_ok_def)
  moreover have "po_ID ` f ` set (cd_Posts db) = po_ID ` set (cd_Posts db)" "po_ChannelID ` f ` set (cd_Posts db) = po_ChannelID ` set (cd_Posts db)"
    using assms(2) by (auto simp: image_image)
  ultimately show ?thesis using assms(1) by (simp add: content_ok_def)
qed

lemma content_upd_post:
  "content_ok db \<Longrightarrow> (\<And>p. po_ID (f p) = po_ID p \<and> po_ChannelID (f p) = po_ChannelID p) \<Longrightarrow> content_ok (upd_post i f db)"
  unfolding upd_post_def by (rule content_posts) auto

lemma content_post:
  assumes "content_ok db" "Chan_CreatePost p db = Some db'"
  shows "content_ok db'"
proof -
  obtain t where t: "tbl_ins po_ID (p\<lparr>po_Views := 0, po_Deleted := False\<rparr>) (cd_Posts db) = Some t"
    and db': "db' = db\<lparr>cd_Posts := t\<rparr>" and c: "po_ChannelID p \<in> ch_ID ` set (cd_Channels db)"
    using assms(2) by (auto simp: Chan_CreatePost_def split: if_splits)
  have "tbl_wf po_ID t" using tbl_wf_ins [OF _ t] assms(1) by (simp add: content_ok_def)
  moreover have ids: "po_ID ` set (cd_Posts db) \<subseteq> po_ID ` set t" and "po_ChannelID ` set t = insert (po_ChannelID p) (po_ChannelID ` set (cd_Posts db))"
    using t by (auto simp: tbl_ins_Some)
  ultimately show ?thesis
    using assms(1) c order_trans [OF _ ids] unfolding content_ok_def db' by simp
qed

lemma content_comment:
  assumes "content_ok db" "CreateComment c db = Some db'"
  shows "content_ok db'"
proof -
  obtain t where t: "tbl_ins co_ID (c\<lparr>co_Deleted := False\<rparr>) (cd_Comments db) = Some t"
    and db': "db' = db\<lparr>cd_Comments := t\<rparr>" and c: "co_PostID c \<in> po_ID ` set (cd_Posts db)"
    using assms(2) by (auto simp: CreateComment_def split: if_splits)
  have "tbl_wf co_ID t" using tbl_wf_ins [OF _ t] assms(1) by (simp add: content_ok_def)
  moreover have "co_PostID ` set t = insert (co_PostID c) (co_PostID ` set (cd_Comments db))" using t by (auto simp: tbl_ins_Some)
  ultimately show ?thesis using assms(1) c unfolding content_ok_def db' by simp
qed

lemma content_react: "content_ok db \<Longrightarrow> Store_React i u emoji db = Some db' \<Longrightarrow> content_ok db'"
  by (clarsimp simp: content_ok_def Store_React_def split: if_splits)

lemma content_unreact: "content_ok db \<Longrightarrow> content_ok (Unreact i u emoji db)"
  unfolding content_ok_def Unreact_def by (simp, blast)

lemma content_comment_deleted:
  assumes "content_ok db"
  shows "content_ok (Store_DeleteComment i db)"
proof -
  let ?f = "\<lambda>c. if co_ID c = i \<and> \<not> co_Deleted c then c\<lparr>co_Deleted := True\<rparr> else c"
  have "tbl_wf co_ID (map ?f (cd_Comments db))" using assms by (intro tbl_wf_map) (auto simp: content_ok_def)
  then show ?thesis using assms by (auto simp: content_ok_def Store_DeleteComment_def)
qed

lemma content_subs: "content_ok db \<Longrightarrow> tbl_wf cu_key t \<Longrightarrow> content_ok (db\<lparr>cd_Subs := t\<rparr>)"
  by (simp add: content_ok_def)

lemma content_sub:
  assumes "content_ok db" "Chan_Subscribe i u ref ex db = Some db'"
  shows "content_ok db'"
proof -
  have "tbl_wf cu_key (tbl_upd cu_key (i, u) (\<lambda>x. x\<lparr>cu_PaymentRef := ref, cu_ExpiresAt := ex\<rparr>) (cd_Subs db))"
    using assms(1) by (intro tbl_wf_upd) (auto simp: content_ok_def cu_key_def)
  moreover have "tbl_wf cu_key (cd_Subs db @ [\<lparr>cu_ChannelID = i, cu_UserID = u, cu_PaymentRef = ref, cu_ExpiresAt = ex\<rparr>])"
    if "(i, u) \<notin> cu_key ` set (cd_Subs db)"
    using assms(1) that by (auto simp: content_ok_def tbl_wf_def cu_key_def)
  ultimately show ?thesis using assms by (auto simp: Chan_Subscribe_def intro: content_subs split: if_splits)
qed

lemma sub_other:
  "Chan_Subscribe i u ref ex db = Some db' \<Longrightarrow> cd_Channels db' = cd_Channels db \<and> cd_Members db' = cd_Members db \<and> cd_Posts db' = cd_Posts db"
  by (auto simp: Chan_Subscribe_def split: if_splits)

lemma may_enter_cong: "cd_Channels db' = cd_Channels db \<Longrightarrow> cd_Members db' = cd_Members db \<Longrightarrow> may_enter i u db' = may_enter i u db"
  by (simp add: may_enter_def GetChannel_def Chan_GetMember_def)

lemma broadcast_simps [simp]:
  "broadcast e c p s = s\<lparr>cs_nudges := cs_nudges s @ (if ce_fails e CNudge then [] else [(ce_now e, c, p)])\<rparr>"
  by (simp add: broadcast_def)

lemma broadcast_all_simps [simp]:
  "broadcast_all e ps s =
     s\<lparr>cs_nudges := cs_nudges s @ (if ce_fails e CNudge then [] else map (\<lambda>p. (ce_now e, po_ChannelID p, po_ID p)) ps)\<rparr>"
  by (induction ps arbitrary: s) (auto simp: broadcast_all_def)

section \<open>The invariant\<close>

lemma chan_ok_members:
  "chan_ok s \<Longrightarrow> members_ok (cs_db s\<lparr>cd_Members := ms\<rparr>) \<Longrightarrow> chan_ok (s\<lparr>cs_db := cs_db s\<lparr>cd_Members := ms\<rparr>\<rparr>)"
  using channels_ok_cong [of "cs_db s\<lparr>cd_Members := ms\<rparr>" "cs_db s"] by (simp add: chan_ok_def content_ok_def)

lemma chan_eff_ok:
  assumes "chan_eff e s r s'" "chan_ok s"
  shows "chan_ok s'"
proof -
  have parts: "channels_ok (cs_db s)" "members_ok (cs_db s)" "content_ok (cs_db s)" using assms(2) by (simp_all add: chan_ok_def)
  note db = chan_ok_db [OF assms(2)]
  show ?thesis using assms(1)
  proof cases
    case eff_none
    then show ?thesis using assms(2) by simp
  next
    case (eff_create c db u)
    then show ?thesis using create_ok [OF eff_create(3) parts] by (simp add: chan_ok_def)
  next
    case (eff_create_owner c db u db')
    note ok = create_ok [OF eff_create_owner(3) parts]
    have "channels_ok db' \<and> members_ok db' \<and> content_ok db'"
      by (rule add_member_ok [OF eff_create_owner(6) ok(1-3)])
        (use ok(4) eff_create_owner(4,5) in \<open>auto simp: chan_roles intro!: exI [of _ u]\<close>)
    then show ?thesis using eff_create_owner by (simp add: chan_ok_def)
  next
    case (eff_update u i name description)
    then show ?thesis unfolding UpdateChannel_def using assms(2) by (auto intro!: upd_channel_ok)
  next
    case (eff_delete u i)
    then show ?thesis unfolding DeleteChannel_def using assms(2) by (auto intro!: upd_channel_ok)
  next
    case (eff_premium price u i premium)
    then show ?thesis unfolding SetPremium_def using assms(2) by (auto intro!: upd_channel_ok)
  next
    case (eff_follow i u db)
    then show ?thesis using follow_ok [OF eff_follow(3,4) parts] by (simp add: chan_ok_def)
  next
    case (eff_unfollow i u)
    then show ?thesis using leave_ok [OF parts(2), of i u] assms(2) unfolding Chan_RemoveMember_def by (auto intro: chan_ok_members)
  next
    case (eff_role i u target role db rs)
    from role_ok [OF parts(2) eff_role(6,5)] eff_role(6) have "chan_ok (s\<lparr>cs_db := db\<rparr>)"
      using chan_ok_members [OF assms(2)] by (auto simp: Chan_SetRole_def split: if_splits)
    with eff_role show ?thesis by simp
  next
    case (eff_post p db i u body media at_ms)
    have "cd_Channels db = cd_Channels (cs_db s)" "cd_Members db = cd_Members (cs_db s)"
      using eff_post(3) by (auto simp: Chan_CreatePost_def split: if_splits)
    with eff_post content_post [OF parts(3) eff_post(3)] chan_ok_content [OF assms(2), of db] db [of db] show ?thesis by simp
  next
    case (eff_delete_post u p)
    then show ?thesis unfolding Chan_DeletePost_def using content_upd_post [OF parts(3), of _ p] by (auto simp: upd_post_def intro!: db)
  next
    case (eff_sweep ps db)
    have "content_ok db" "cd_Channels db = cd_Channels (cs_db s)" "cd_Members db = cd_Members (cs_db s)"
      using eff_sweep(3) content_posts [OF parts(3)] by (auto simp: Store_PublishDue_def Let_def)
    with eff_sweep chan_ok_content [OF assms(2), of db] show ?thesis by simp
  next
    case (eff_react p u emoji db on)
    then show ?thesis using content_react [OF parts(3) eff_react(3)] by (auto simp: Store_React_def split: if_splits intro!: db)
  next
    case (eff_unreact u p emoji on)
    then show ?thesis using content_unreact [OF parts(3)] by (auto simp: Unreact_def intro!: db)
  next
    case (eff_comment c db u p body)
    then show ?thesis using content_comment [OF parts(3) eff_comment(3)] by (auto simp: CreateComment_def split: if_splits intro!: db)
  next
    case (eff_delete_comment u i)
    then show ?thesis using content_comment_deleted [OF parts(3)] by (auto simp: Store_DeleteComment_def intro!: db)
  next
    case (eff_view u p)
    then show ?thesis unfolding IncrementViews_def using content_upd_post [OF parts(3), of _ p] by (auto simp: upd_post_def intro!: db)
  next
    case (eff_subscribe i u price ref db)
    then show ?thesis using content_sub [OF parts(3) eff_subscribe(5)] sub_other [OF eff_subscribe(5)] by (auto intro!: db)
  next
    case (eff_subscribe_follow i u price ref db db')
    have db: "chan_ok (s\<lparr>cs_db := db\<rparr>)"
      using content_sub [OF parts(3) eff_subscribe_follow(5)] sub_other [OF eff_subscribe_follow(5)] by (auto intro!: db)
    have "may_enter i u db" using eff_subscribe_follow(3) sub_other [OF eff_subscribe_follow(5)] may_enter_cong [of db "cs_db s"] by simp
    from follow_ok [OF this eff_subscribe_follow(6)] db eff_subscribe_follow show ?thesis by (simp add: chan_ok_def)
  qed
qed

interpretation channels: invariant_system chan_step chan_ok
proof
  show "chan_ok (chan_step s x)" if "chan_ok s" for s x
    using chan_eff_ok [OF chan_step_eff that] by (cases x) simp
qed

lemma chan_ok_empty: "chan_ok empty_chan_sys"
  by (simp add: chan_ok_def empty_chan_sys_def empty_chan_db_def channels_ok_def members_ok_def content_ok_def)


section \<open>Private channels\<close>

lemma private_not_member:
  assumes "chan_ok s" "GetChannel i (cs_db s) = Some c" "ch_Kind c = KindPrivate" "u \<noteq> ch_OwnerID c"
  shows "Chan_GetMember i u (cs_db s) = None"
proof (rule ccontr)
  assume "Chan_GetMember i u (cs_db s) \<noteq> None"
  then obtain m where m: "m \<in> set (cd_Members (cs_db s))" "cm_ChannelID m = i" "cm_UserID m = u"
    by (auto simp: Chan_GetMember_def cm_key_def dest!: tbl_get_Some)
  obtain ow k where q: "(i, ow, k) \<in> set (chan_sig (cs_db s))" "k = KindPrivate \<longrightarrow> u = ow"
    using assms(1) m unfolding chan_ok_def members_ok_def by blast
  then obtain d where d: "d \<in> set (cd_Channels (cs_db s))" "ch_ID d = i" "ch_OwnerID d = ow" "ch_Kind d = k"
    by (auto simp: chan_sig_def)
  have "tbl_wf ch_ID (cd_Channels (cs_db s))" using assms(1) by (simp add: chan_ok_def channels_ok_def)
  from tbl_get_wf [OF this d(1)] tbl_get_wf [OF this conjunct1 [OF GetChannel_Some [OF assms(2)]]] have "d = c"
    using d(2) GetChannel_Some [OF assms(2)] by simp
  with d q assms(3,4) show False by simp
qed

text \<open>
C29. A private channel is closed: whatever requests have been made, nobody but its creator is a member of it, sees it,
reads its posts, follows it or subscribes to it, and the creator cannot give anybody a role in it.
\<close>

theorem private_channel_closed:
  assumes "s = run chan_step empty_chan_sys ops" "GetChannel i (cs_db s) = Some c" "ch_Kind c = KindPrivate" "u \<noteq> ch_OwnerID c"
  shows "Chan_GetMember i u (cs_db s) = None \<and> isl (Chan_Get e u i (cs_db s)) \<and> isl (Posts e u i limit (cs_db s)) \<and>
    (GetPost p (cs_db s) = Some po \<and> po_ChannelID po = i \<longrightarrow> isl (viewablePost e p u (cs_db s))) \<and>
    isl (fst (Follow e u i s)) \<and> isl (fst (Service_Subscribe e u i s)) \<and> isl (fst (Service_SetRole e v i u role s))"
proof -
  have "chan_ok s" unfolding assms(1) by (rule channels.keep_run [OF chan_ok_empty])
  note m = private_not_member [OF this assms(2-4)]
  have "Chan_SetRole i u r (cs_db s) = None" for r
    using m by (simp add: Chan_SetRole_def Chan_GetMember_def tbl_get_None)
  then show ?thesis
    using m assms(2,3)
    by (auto simp: Chan_Get_def Posts_def canRead_def viewablePost_def load_post_def Follow_def Service_Subscribe_def Service_SetRole_def
      dest!: chan_caller_Inr split: sum.splits option.splits if_splits)
qed

definition plain_env :: "instant \<Rightarrow> string \<Rightarrow> chan_env" where
  "plain_env now i = \<lparr>ce_now = now, ce_fails = (\<lambda>_. False), ce_id = i, ce_charge = None, ce_ilike = (\<lambda>_ _. False), ce_by_name = (\<lambda>cs. cs)\<rparr>"

definition private_ops :: "(chan_env \<times> chan_req) list" where
  "private_ops = [(plain_env 0 ''c1'', RqCreate ''alice'' ''news'' ''News'' [] ''private''), (plain_env 1 ''x'', RqFollow ''bob'' ''c1'')]"

definition private_chan :: chan where
  "private_chan = \<lparr>ch_ID = ''c1'', ch_OwnerID = ''alice'', ch_Handle = ''news'', ch_Name = ''News'', ch_Description = [], ch_Kind = KindPrivate,
     ch_Verified = False, ch_Premium = False, ch_PriceCents = 0, ch_CreatedAt = 0, ch_Deleted = False\<rparr>"

lemma news_handle: "ToLower (TrimSpace ''news'') = ''news''"
  by (simp add: TrimSpace_plain plain_def lower_char_def is_upper_def)

lemmas chan_eval = Chan_Create_def news_handle parse_kind_def Chan_ValidateCreate_def ValidHandle_def MaxName_def MaxDescription_def
  ChanKind_Valid_def is_lower_def is_digit_def CreateChannel_def empty_chan_sys_def empty_chan_db_def chan_write_def Chan_AddMember_def
  Follow_def chan_caller_def GetChannel_def Chan_GetMember_def KindPublic_def KindPrivate_def cm_key_def plain_env_def tbl_get_Cons Let_def

lemma private_run: "cs_db (run chan_step empty_chan_sys private_ops) =
    empty_chan_db\<lparr>cd_Channels := [private_chan],
      cd_Members := [\<lparr>cm_ChannelID = ''c1'', cm_UserID = ''alice'', cm_Role = RoleChanOwner, cm_JoinedAt = 0\<rparr>]\<rparr>"
  by (simp add: private_ops_def private_chan_def chan_eval)

theorem private_channel_closed_witness:
  "GetChannel ''c1'' (cs_db (run chan_step empty_chan_sys private_ops)) = Some private_chan \<and>
   isl (fst (Service_SetRole (plain_env 2 ''y'') ''alice'' ''c1'' ''bob'' ''follower'' (run chan_step empty_chan_sys private_ops)))"
proof
  show c: "GetChannel ''c1'' (cs_db (run chan_step empty_chan_sys private_ops)) = Some private_chan"
    by (simp add: private_run GetChannel_def private_chan_def)
  show "isl (fst (Service_SetRole (plain_env 2 ''y'') ''alice'' ''c1'' ''bob'' ''follower'' (run chan_step empty_chan_sys private_ops)))"
    using private_channel_closed [OF refl c, of "''bob''" "plain_env 2 ''y''" 0 "[]" _ "''alice''" "''follower''"]
    by (simp add: private_chan_def)
qed

section \<open>The schedule of posts\<close>

definition post_sig :: "post \<Rightarrow> string \<times> string \<times> bool \<times> instant" where
  "post_sig p = (po_ID p, po_ChannelID p, po_Published p, po_PublishAt p)"

definition sched_ok :: "instant \<Rightarrow> chan_sys \<Rightarrow> bool" where
  "sched_ok T s \<longleftrightarrow> tbl_wf po_ID (cd_Posts (cs_db s)) \<and> distinct (map (snd \<circ> snd) (cs_nudges s)) \<and>
     (\<forall>n \<in> set (cs_nudges s). \<exists>po \<in> set (cd_Posts (cs_db s)).
        po_ID po = snd (snd n) \<and> po_ChannelID po = fst (snd n) \<and> po_Published po \<and> po_PublishAt po \<le> fst n) \<and>
     (\<forall>po \<in> set (cd_Posts (cs_db s)). po_Published po \<longrightarrow> po_PublishAt po \<le> T)"

lemma sched_map:
  assumes "sched_ok T s" "\<And>p. p \<in> set (cd_Posts (cs_db s)) \<Longrightarrow> post_sig (f p) = post_sig p" "cd_Posts db = map f (cd_Posts (cs_db s))"
  shows "sched_ok T (s\<lparr>cs_db := db\<rparr>)"
proof -
  have sig: "po_ID (f p) = po_ID p" "po_ChannelID (f p) = po_ChannelID p" "po_Published (f p) = po_Published p" "po_PublishAt (f p) = po_PublishAt p"
    if "p \<in> set (cd_Posts (cs_db s))" for p
    using assms(2) [OF that] by (simp_all add: post_sig_def)
  have "map po_ID (map f (cd_Posts (cs_db s))) = map po_ID (cd_Posts (cs_db s))" using sig(1) by simp
  then have "tbl_wf po_ID (cd_Posts db)" using assms(1) unfolding assms(3) tbl_wf_def sched_ok_def by metis
  moreover have "\<exists>po \<in> set (cd_Posts db). po_ID po = snd (snd n) \<and> po_ChannelID po = fst (snd n) \<and> po_Published po \<and> po_PublishAt po \<le> fst n"
    if n: "n \<in> set (cs_nudges s)" for n
  proof -
    obtain po where po: "po \<in> set (cd_Posts (cs_db s))" "po_ID po = snd (snd n)" "po_ChannelID po = fst (snd n)" "po_Published po" "po_PublishAt po \<le> fst n"
      using assms(1) n unfolding sched_ok_def by blast
    then show ?thesis using sig [OF po(1)] unfolding assms(3) by (intro bexI [of _ "f po"]) auto
  qed
  moreover have "po_PublishAt po \<le> T" if "po \<in> set (cd_Posts db)" "po_Published po" for po
    using that assms(1) sig unfolding assms(3) sched_ok_def by auto
  ultimately show ?thesis using assms(1) unfolding sched_ok_def by simp
qed

definition nudge_ok :: "post list \<Rightarrow> instant \<times> string \<times> string \<Rightarrow> bool" where
  "nudge_ok ps n \<longleftrightarrow> (\<exists>po \<in> set ps. po_ID po = snd (snd n) \<and> po_ChannelID po = fst (snd n) \<and> po_Published po \<and> po_PublishAt po \<le> fst n)"

lemma sched_ok_alt: "sched_ok T s \<longleftrightarrow> tbl_wf po_ID (cd_Posts (cs_db s)) \<and> distinct (map (snd \<circ> snd) (cs_nudges s)) \<and>
    list_all (nudge_ok (cd_Posts (cs_db s))) (cs_nudges s) \<and> list_all (\<lambda>po. po_Published po \<longrightarrow> po_PublishAt po \<le> T) (cd_Posts (cs_db s))"
  by (simp add: sched_ok_def nudge_ok_def list_all_iff)

lemma due_unpublished:
  assumes "tbl_wf po_ID (cd_Posts db)" "p \<in> set (cd_Posts db)" "po_ID p \<in> set (due_ids now n db)"
  shows "\<not> po_Published p \<and> \<not> po_Deleted p \<and> po_PublishAt p \<le> now"
proof -
  obtain q where q: "q \<in> set (cd_Posts db)" "po_ID q = po_ID p" "\<not> po_Published q" "\<not> po_Deleted q" "po_PublishAt q \<le> now"
    using assms(3) by (auto simp: due_ids_def dest!: in_set_takeD)
  from tbl_get_wf [OF assms(1,2)] tbl_get_wf [OF assms(1) q(1)] q(2) have "q = p" by simp
  with q show ?thesis by simp
qed

lemma sched_sweep:
  assumes ok: "sched_ok T s" and sw: "Store_PublishDue (ce_now e) n (cs_db s) = (ps, db)" and "ce_now e \<le> T"
  shows "sched_ok T (broadcast_all e ps (s\<lparr>cs_db := db\<rparr>))"
proof -
  let ?ids = "set (due_ids (ce_now e) n (cs_db s))" and ?posts = "cd_Posts (cs_db s)"
  let ?f = "\<lambda>p. if po_ID p \<in> ?ids then p\<lparr>po_Published := True\<rparr> else p"
  have ps: "ps = map ?f (filter (\<lambda>p. po_ID p \<in> ?ids) ?posts)" and posts: "cd_Posts db = map ?f ?posts"
    using sw by (auto simp: Store_PublishDue_def Let_def)
  have wf: "tbl_wf po_ID ?posts" and dn: "distinct (map (snd \<circ> snd) (cs_nudges s))"
    and old: "\<And>n. n \<in> set (cs_nudges s) \<Longrightarrow> nudge_ok ?posts n" and pub: "\<And>p. p \<in> set ?posts \<Longrightarrow> po_Published p \<Longrightarrow> po_PublishAt p \<le> T"
    using ok unfolding sched_ok_alt list_all_iff by blast+
  have due: "\<not> po_Published p \<and> po_PublishAt p \<le> ce_now e" if "p \<in> set ?posts" "po_ID p \<in> ?ids" for p
    using due_unpublished [OF wf that] by simp
  have ids: "map po_ID ps = map po_ID (filter (\<lambda>p. po_ID p \<in> ?ids) ?posts)" by (simp add: ps)
  have kept: "nudge_ok (cd_Posts db) m" if m: "m \<in> set (cs_nudges s)" for m
  proof -
    obtain po where po: "po \<in> set ?posts" "po_ID po = snd (snd m)" "po_ChannelID po = fst (snd m)" "po_Published po" "po_PublishAt po \<le> fst m"
      using old [OF m] by (auto simp: nudge_ok_def)
    moreover have "po \<in> set (cd_Posts db)" using po(1,4) due unfolding posts by (auto intro!: image_eqI [of _ _ po])
    ultimately show ?thesis by (auto simp: nudge_ok_def)
  qed
  have sent: "nudge_ok (cd_Posts db) (ce_now e, po_ChannelID p, po_ID p)" if "p \<in> set ps" for p
    using that due unfolding ps posts by (fastforce simp: nudge_ok_def)
  have "distinct (map po_ID ps)" using wf unfolding ids tbl_wf_def by (rule distinct_map_filter)
  moreover have "po_ID p \<notin> (snd \<circ> snd) ` set (cs_nudges s)" if "p \<in> set ps" for p
  proof
    assume "po_ID p \<in> (snd \<circ> snd) ` set (cs_nudges s)"
    then obtain m where m: "m \<in> set (cs_nudges s)" "snd (snd m) = po_ID p" by auto
    then obtain po where "po \<in> set ?posts" "po_ID po = po_ID p" "po_Published po" using old [OF m(1)] by (auto simp: nudge_ok_def)
    with that due show False unfolding ps by auto
  qed
  then have "set (map (snd \<circ> snd) (cs_nudges s)) \<inter> set (map po_ID ps) = {}"
    unfolding set_map disjoint_iff by (metis imageE)
  moreover have "map (snd \<circ> snd) (cs_nudges s @ map (\<lambda>p. (ce_now e, po_ChannelID p, po_ID p)) ps) = map (snd \<circ> snd) (cs_nudges s) @ map po_ID ps"
    by simp
  ultimately have "distinct (map (snd \<circ> snd) (cs_nudges s @ map (\<lambda>p. (ce_now e, po_ChannelID p, po_ID p)) ps))"
    using dn by (simp only: distinct_append simp_thms)
  moreover have "tbl_wf po_ID (cd_Posts db)" unfolding posts using wf by (intro tbl_wf_map) auto
  moreover have "po_PublishAt p \<le> T" if "p \<in> set (cd_Posts db)" "po_Published p" for p
    using that pub due assms(3) unfolding posts by (fastforce split: if_splits)
  ultimately show ?thesis using kept sent dn by (auto simp: sched_ok_alt list_all_iff)
qed

lemma sched_post:
  assumes ok: "sched_ok T s" and c: "Chan_CreatePost p (cs_db s) = Some db" and p: "po_ID p = ce_id e" "po_ChannelID p = i"
    "po_Published p = (po_PublishAt p \<le> ce_now e)" and "ce_now e \<le> T"
  shows "sched_ok T (if po_Published p then broadcast e i (ce_id e) (s\<lparr>cs_db := db\<rparr>) else s\<lparr>cs_db := db\<rparr>)"
proof -
  let ?posts = "cd_Posts (cs_db s)" and ?q = "p\<lparr>po_Views := 0, po_Deleted := False\<rparr>"
  have posts: "cd_Posts db = ?posts @ [?q]" and fresh: "ce_id e \<notin> po_ID ` set ?posts"
    using c p by (auto simp: Chan_CreatePost_def tbl_ins_Some split: if_splits)
  have wf: "tbl_wf po_ID ?posts" and dn: "distinct (map (snd \<circ> snd) (cs_nudges s))"
    and old: "\<And>n. n \<in> set (cs_nudges s) \<Longrightarrow> nudge_ok ?posts n" and pub: "\<And>p. p \<in> set ?posts \<Longrightarrow> po_Published p \<Longrightarrow> po_PublishAt p \<le> T"
    using ok unfolding sched_ok_alt list_all_iff by blast+
  have "tbl_wf po_ID (cd_Posts db)" using wf fresh p(1) by (simp add: posts tbl_wf_def)
  moreover have "nudge_ok (cd_Posts db) n" if "n \<in> set (cs_nudges s)" for n
    using old [OF that] unfolding posts nudge_ok_def by auto
  moreover have "nudge_ok (cd_Posts db) (ce_now e, i, ce_id e)" if "po_Published p"
    using that p by (auto simp: posts nudge_ok_def)
  moreover have "ce_id e \<notin> (snd \<circ> snd) ` set (cs_nudges s)" 
  proof
    assume "ce_id e \<in> (snd \<circ> snd) ` set (cs_nudges s)"
    then obtain n where n: "n \<in> set (cs_nudges s)" "snd (snd n) = ce_id e" by auto
    with old [OF n(1)] have "ce_id e \<in> po_ID ` set ?posts" by (auto simp: nudge_ok_def intro: rev_image_eqI)
    with fresh show False by simp
  qed
  moreover have "po_PublishAt x \<le> T" if "x \<in> set (cd_Posts db)" "po_Published x" for x
    using that pub p(3) assms(6) unfolding posts by auto
  ultimately show ?thesis using dn by (auto simp: sched_ok_alt list_all_iff)
qed

lemma sched_same: "sched_ok T s \<Longrightarrow> cd_Posts db = cd_Posts (cs_db s) \<Longrightarrow> sched_ok T (s\<lparr>cs_db := db\<rparr>)"
  by (rule sched_map [where f = "\<lambda>p. p"]) simp_all

lemma sched_upd_post:
  "sched_ok T s \<Longrightarrow> (\<And>p. post_sig (f p) = post_sig p) \<Longrightarrow> sched_ok T (s\<lparr>cs_db := upd_post i f (cs_db s)\<rparr>)"
  by (rule sched_map [where f = "\<lambda>p. if po_ID p = i \<and> \<not> po_Deleted p then f p else p"]) (simp_all add: upd_post_def)

lemma sched_eff:
  assumes "chan_eff e s r s'" "sched_ok T s" "ce_now e \<le> T"
  shows "sched_ok T s'"
  using assms(1)
proof cases
  case (eff_post p db i u body media at_ms)
  then show ?thesis using sched_post [OF assms(2) eff_post(3-6) assms(3)] by simp
next
  case (eff_sweep ps db)
  then show ?thesis using sched_sweep [OF assms(2) eff_sweep(3) assms(3)] by simp
next
  case (eff_delete_post u p)
  then show ?thesis unfolding Chan_DeletePost_def using sched_upd_post [OF assms(2)] by (simp add: post_sig_def)
next
  case (eff_view u p)
  then show ?thesis unfolding IncrementViews_def using sched_upd_post [OF assms(2)] by (simp add: post_sig_def)
next
  case (eff_create_owner c db u db')
  then show ?thesis using sched_same [OF assms(2)] by (auto simp: CreateChannel_def Chan_AddMember_def split: if_splits)
next
  case (eff_subscribe_follow i u price ref db db')
  then show ?thesis using sched_same [OF assms(2)] sub_other by (auto simp: Chan_AddMember_def split: if_splits)
qed (use assms(2) sched_same [OF assms(2)] sub_other in
  \<open>auto simp: CreateChannel_def Chan_AddMember_def Chan_RemoveMember_def Chan_SetRole_def Store_React_def Unreact_def CreateComment_def
     Store_DeleteComment_def UpdateChannel_def DeleteChannel_def SetPremium_def split: if_splits\<close>)

lemma sched_run: "sched_ok T s \<Longrightarrow> (\<And>e r. (e, r) \<in> set ops \<Longrightarrow> ce_now e \<le> T) \<Longrightarrow> sched_ok T (run chan_step s ops)"
proof (induction ops arbitrary: s)
  case (Cons x ops)
  obtain e r where x: "x = (e, r)" by fastforce
  have "sched_ok T (chan_step s x)" unfolding x by (rule sched_eff [OF chan_step_eff Cons.prems(1)]) (use Cons.prems(2) x in auto)
  then show ?case using Cons.IH Cons.prems(2) by auto
qed simp

lemma due_complete:
  assumes "tbl_wf po_ID (cd_Posts db)" "length (filter (\<lambda>p. \<not> po_Published p \<and> \<not> po_Deleted p \<and> po_PublishAt p \<le> now) (cd_Posts db)) \<le> n"
    "Store_PublishDue now n db = (ps, db')" "p \<in> set (cd_Posts db')" "\<not> po_Deleted p" "po_PublishAt p \<le> now"
  shows "po_Published p"
proof -
  let ?ids = "set (due_ids now n db)"
  obtain q where q: "q \<in> set (cd_Posts db)" "p = (if po_ID q \<in> ?ids then q\<lparr>po_Published := True\<rparr> else q)"
    using assms(3,4) by (auto simp: Store_PublishDue_def Let_def)
  show ?thesis
  proof (rule ccontr)
    assume u: "\<not> po_Published p"
    then have pq: "p = q" using q(2) by (auto split: if_splits)
    then have "po_ID q \<in> ?ids" using q(1) u assms(2,5,6) by (auto simp: due_ids_def)
    with q(2) u show False by (simp split: if_splits)
  qed
qed

text \<open>
C28. Scheduled posts keep their time: over any requests and sweeps made no later than \<open>T\<close>, a published post is due by
\<open>T\<close>, each nudge to the followers is for a published post of that channel whose time had come when it was sent, no post
is announced twice, and a sweep that has at most 500 posts to publish leaves none that is due.
\<close>

theorem scheduled_posts:
  assumes "\<forall>x \<in> set ops. ce_now (fst x) \<le> T" "s = run chan_step empty_chan_sys ops"
  shows "(\<forall>po \<in> set (cd_Posts (cs_db s)). po_Published po \<longrightarrow> po_PublishAt po \<le> T) \<and>
    (\<forall>n \<in> set (cs_nudges s). \<exists>po \<in> set (cd_Posts (cs_db s)).
       po_ID po = snd (snd n) \<and> po_ChannelID po = fst (snd n) \<and> po_Published po \<and> po_PublishAt po \<le> fst n) \<and>
    distinct (map (snd \<circ> snd) (cs_nudges s)) \<and>
    (\<not> ce_fails e CDue \<and>
     length (filter (\<lambda>p. \<not> po_Published p \<and> \<not> po_Deleted p \<and> po_PublishAt p \<le> ce_now e) (cd_Posts (cs_db s))) \<le> 500 \<longrightarrow>
     (\<forall>po \<in> set (cd_Posts (cs_db (snd (PublishDue e s)))). \<not> po_Deleted po \<and> po_PublishAt po \<le> ce_now e \<longrightarrow> po_Published po))"
proof -
  have "sched_ok T empty_chan_sys" by (simp add: sched_ok_def empty_chan_sys_def empty_chan_db_def)
  then have ok: "sched_ok T s" unfolding assms(2) by (rule sched_run) (use assms(1) in force)
  obtain ps db where sw: "Store_PublishDue (ce_now e) 500 (cs_db s) = (ps, db)" by fastforce
  have "po_Published po" if "\<not> ce_fails e CDue" "po \<in> set (cd_Posts (cs_db (snd (PublishDue e s))))" "\<not> po_Deleted po \<and> po_PublishAt po \<le> ce_now e"
      "length (filter (\<lambda>p. \<not> po_Published p \<and> \<not> po_Deleted p \<and> po_PublishAt p \<le> ce_now e) (cd_Posts (cs_db s))) \<le> 500" for po
    using due_complete [OF _ that(4) sw, of po] that(1-3) ok sw by (simp add: PublishDue_def sched_ok_def)
  with ok show ?thesis unfolding sched_ok_def by blast
qed

definition sched_ops :: "(chan_env \<times> chan_req) list" where
  "sched_ops = [(plain_env 0 ''c1'', RqCreate ''alice'' ''news'' ''News'' [] ''public''),
     (plain_env 0 ''p1'', RqPost ''alice'' ''c1'' ''hi'' None 5), (plain_env 5000000 ''x'', RqSweep), (plain_env 5000000 ''x'', RqSweep)]"

theorem scheduled_posts_witness:
  "cs_nudges (run chan_step empty_chan_sys sched_ops) = [(5000000, ''c1'', ''p1'')] \<and>
   distinct (map (snd \<circ> snd) (cs_nudges (run chan_step empty_chan_sys sched_ops)))"
proof
  have "\<forall>x \<in> set sched_ops. ce_now (fst x) \<le> 5000000" by (simp add: sched_ops_def plain_env_def)
  from scheduled_posts [OF this refl, of "plain_env 0 []"]
  show "distinct (map (snd \<circ> snd) (cs_nudges (run chan_step empty_chan_sys sched_ops)))" by blast
  show "cs_nudges (run chan_step empty_chan_sys sched_ops) = [(5000000, ''c1'', ''p1'')]"
    by (simp add: sched_ops_def chan_eval Service_CreatePost_def Chan_CanPost_def may_def chan_roles ValidatePost_def MaxPostBody_def
      UnixMilli_def Millisecond_def Chan_CreatePost_def tbl_ins_def PublishDue_def Store_PublishDue_def due_ids_def order_asc_def)
qed

section \<open>Premium channels\<close>

definition paid :: "(chan_env \<times> chan_req) list \<Rightarrow> chan_sub \<Rightarrow> bool" where
  "paid ops x \<longleftrightarrow> (\<exists>e price ref. (e, RqSubscribe (cu_UserID x) (cu_ChannelID x)) \<in> set ops \<and>
     charge e (cu_UserID x) (cu_ChannelID x) price = Some ref \<and> cu_PaymentRef x = ref \<and> cu_ExpiresAt x = ce_now e + subscriptionPeriod)"

lemma subs_after:
  assumes "Chan_Subscribe i u ref ex db = Some db'" "x \<in> set (cd_Subs db')"
  shows "x \<in> set (cd_Subs db) \<or> cu_ChannelID x = i \<and> cu_UserID x = u \<and> cu_PaymentRef x = ref \<and> cu_ExpiresAt x = ex"
  using assms by (auto simp: Chan_Subscribe_def set_tbl_upd cu_key_def split: if_splits)

lemma paid_eff:
  assumes "chan_eff e s r s'" "(e, r) \<in> set ops" "\<forall>x \<in> set (cd_Subs (cs_db s)). paid ops x"
  shows "\<forall>x \<in> set (cd_Subs (cs_db s')). paid ops x"
  using assms(1)
proof cases
  case (eff_subscribe i u price ref db)
  then show ?thesis using subs_after [OF eff_subscribe(5)] assms(2,3) unfolding paid_def by fastforce
next
  case (eff_subscribe_follow i u price ref db db')
  have "cd_Subs db' = cd_Subs db" using eff_subscribe_follow(6) by (auto simp: Chan_AddMember_def split: if_splits)
  then show ?thesis using eff_subscribe_follow subs_after [OF eff_subscribe_follow(5)] assms(2,3) unfolding paid_def by fastforce
qed (use assms(3) in \<open>auto simp: CreateChannel_def Chan_AddMember_def Chan_RemoveMember_def Chan_SetRole_def Store_React_def Unreact_def
   CreateComment_def Store_DeleteComment_def UpdateChannel_def DeleteChannel_def SetPremium_def upd_channel_def Chan_CreatePost_def
   Chan_DeletePost_def IncrementViews_def upd_post_def Store_PublishDue_def Let_def split: if_splits\<close>)

lemma paid_run:
  "set ops \<subseteq> set all \<Longrightarrow> \<forall>x \<in> set (cd_Subs (cs_db s)). paid all x \<Longrightarrow> \<forall>x \<in> set (cd_Subs (cs_db (run chan_step s ops))). paid all x"
proof (induction ops arbitrary: s)
  case (Cons y ops)
  obtain e r where y: "y = (e, r)" by fastforce
  have "\<forall>x \<in> set (cd_Subs (cs_db (chan_step s y))). paid all x"
    unfolding y by (rule paid_eff [OF chan_step_eff]) (use Cons.prems y in auto)
  then show ?case using Cons.IH Cons.prems(1) by simp
qed simp

text \<open>
C30. Premium posts are paid for: if a user who is no admin of a premium channel reads its feed or views one of its posts,
then that user has subscribed to the channel less than thirty days before, and the charge for it succeeded.
\<close>

theorem premium_needs_charge:
  assumes "s = run chan_step empty_chan_sys ops" "GetChannel i (cs_db s) = Some c" "ch_Premium c"
    "\<not> may (\<lambda>r. r \<ge> RoleChanAdmin) (Chan_GetMember i u (cs_db s))"
    and "Posts e u i limit (cs_db s) = Inr vs \<or> viewablePost e p u (cs_db s) = Inr po \<and> po_ChannelID po = i"
  shows "\<exists>e' price ref. (e', RqSubscribe u i) \<in> set ops \<and> charge e' u i price = Some ref \<and>
    ce_now e < ce_now e' + subscriptionPeriod"
proof -
  have "\<forall>x \<in> set (cd_Subs (cs_db s)). paid ops x"
    unfolding assms(1) by (rule paid_run) (simp_all add: empty_chan_sys_def empty_chan_db_def)
  note all = this
  have "is_subscribed e i u (cs_db s)"
    using assms(2-5) GetChannel_Some [OF assms(2)]
    by (auto simp: Posts_def viewablePost_def load_post_def canRead_def dest!: chan_caller_Inr split: sum.splits option.splits if_splits)
  then obtain x where x: "x \<in> set (cd_Subs (cs_db s))" "cu_ChannelID x = i" "cu_UserID x = u" "cu_ExpiresAt x > ce_now e"
    by (auto simp: is_subscribed_def IsSubscribed_def list_ex_iff)
  with all have "paid ops x" by blast
  then obtain e' price ref where "(e', RqSubscribe u i) \<in> set ops" "charge e' u i price = Some ref" "cu_ExpiresAt x = ce_now e' + subscriptionPeriod"
    using x(2,3) unfolding paid_def by blast
  then show ?thesis using x(4) by (intro exI [of _ e'] exI [of _ price] exI [of _ ref]) simp
qed

definition premium_ops :: "(chan_env \<times> chan_req) list" where
  "premium_ops = [(plain_env 0 ''c1'', RqCreate ''alice'' ''news'' ''News'' [] ''public''), (plain_env 0 ''x'', RqPremium ''alice'' ''c1'' True 500),
     (plain_env 1 ''x'', RqSubscribe ''bob'' ''c1'')]"

definition premium_db :: chan_db where
  "premium_db = \<lparr>cd_Channels = [\<lparr>ch_ID = ''c1'', ch_OwnerID = ''alice'', ch_Handle = ''news'', ch_Name = ''News'', ch_Description = [], ch_Kind = KindPublic,
       ch_Verified = False, ch_Premium = True, ch_PriceCents = 500, ch_CreatedAt = 0, ch_Deleted = False\<rparr>],
     cd_Members = [\<lparr>cm_ChannelID = ''c1'', cm_UserID = ''alice'', cm_Role = RoleChanOwner, cm_JoinedAt = 0\<rparr>,
       \<lparr>cm_ChannelID = ''c1'', cm_UserID = ''bob'', cm_Role = RoleFollower, cm_JoinedAt = 1\<rparr>],
     cd_Posts = [], cd_Reactions = [], cd_Comments = [],
     cd_Subs = [\<lparr>cu_ChannelID = ''c1'', cu_UserID = ''bob'', cu_PaymentRef = ''dev-noop'', cu_ExpiresAt = 1 + subscriptionPeriod\<rparr>]\<rparr>"

lemma premium_run: "cs_db (run chan_step empty_chan_sys premium_ops) = premium_db"
  by (simp add: premium_ops_def premium_db_def chan_eval Service_SetPremium_def SetPremium_def upd_channel_def Chan_CanDelete_def
    may_def Service_Subscribe_def charge_def Chan_Subscribe_def chan_roles)

theorem premium_needs_charge_witness:
  "\<exists>e' price ref. (e', RqSubscribe ''bob'' ''c1'') \<in> set premium_ops \<and> charge e' ''bob'' ''c1'' price = Some ref \<and>
    ce_now (plain_env 7 ''x'') < ce_now e' + subscriptionPeriod"
proof (rule premium_needs_charge [OF refl])
  let ?db = "cs_db (run chan_step empty_chan_sys premium_ops)"
  show "GetChannel ''c1'' ?db = Some (hd (cd_Channels premium_db))" "ch_Premium (hd (cd_Channels premium_db))"
    unfolding premium_run by (simp_all add: premium_db_def GetChannel_def)
  show "\<not> may (\<lambda>r. r \<ge> RoleChanAdmin) (Chan_GetMember ''c1'' ''bob'' ?db)"
    unfolding premium_run by (simp add: premium_db_def Chan_GetMember_def tbl_get_Cons cm_key_def may_def chan_roles)
  show "Posts (plain_env 7 ''x'') ''bob'' ''c1'' 10 ?db = Inr [] \<or>
      viewablePost (plain_env 7 ''x'') [] ''bob'' ?db = Inr undefined \<and> po_ChannelID undefined = ''c1''"
    unfolding premium_run
    by (simp add: premium_db_def Posts_def chan_caller_def plain_env_def GetChannel_def Chan_GetMember_def tbl_get_Cons cm_key_def canRead_def
      may_def chan_roles is_subscribed_def IsSubscribed_def subscriptionPeriod_def time_units ListPosts_def order_desc_def KindPublic_def KindPrivate_def)
qed

end
