(* ===== verification/Notify.thy ===== *)
theory Notify
  imports Contracts
begin

text \<open>
  Push notifications (\<^verbatim>\<open>notify/\<close>): the circuit breaker of a provider, the drivers, the service that handles one
  dispatch, and the consumer that settles a message of the durable stream. The HTTP reply of a provider is part of the
  environment of a delivery. The stream calls the consumer for one message at a time and redelivers a message that was
  not acknowledged, up to \<^verbatim>\<open>MaxDeliver\<close> times in all.
\<close>

section \<open>The circuit breaker\<close>

definition DefaultThreshold :: nat where "DefaultThreshold = 5"
definition DefaultWindow :: duration where "DefaultWindow = 30 * Second"
definition DefaultCooldown :: duration where "DefaultCooldown = 60 * Second"

datatype breakerState = stateClosed | stateOpen | stateHalfOpen

record breaker =
  br_threshold :: nat
  br_window :: duration
  br_cooldown :: duration
  br_state :: breakerState
  br_failures :: "instant list"
  br_openedAt :: instant

definition NewBreaker :: "int \<Rightarrow> duration \<Rightarrow> duration \<Rightarrow> breaker" where
  "NewBreaker threshold window cooldown =
     \<lparr>br_threshold = (if threshold \<le> 0 then DefaultThreshold else nat threshold),
      br_window = (if window \<le> 0 then DefaultWindow else window),
      br_cooldown = (if cooldown \<le> 0 then DefaultCooldown else cooldown),
      br_state = stateClosed, br_failures = [], br_openedAt = 0\<rparr>"

definition Breaker_Allow :: "instant \<Rightarrow> breaker \<Rightarrow> bool \<times> breaker" where
  "Breaker_Allow now b =
     (case br_state b of
        stateOpen \<Rightarrow> if now - br_openedAt b \<ge> br_cooldown b then (True, b\<lparr>br_state := stateHalfOpen\<rparr>) else (False, b)
      | stateHalfOpen \<Rightarrow> (False, b)
      | stateClosed \<Rightarrow> (True, b))"

definition Breaker_Record :: "instant \<Rightarrow> bool \<Rightarrow> breaker \<Rightarrow> breaker" where
  "Breaker_Record now success b =
     (if success then b\<lparr>br_state := stateClosed, br_failures := []\<rparr>
      else if br_state b = stateHalfOpen then b\<lparr>br_state := stateOpen, br_openedAt := now\<rparr>
      else
        let cutoff = now - br_window b;
            failures = filter (\<lambda>t. t > cutoff) (br_failures b) @ [now];
            b1 = b\<lparr>br_failures := failures\<rparr>
        in if length failures \<ge> br_threshold b then b1\<lparr>br_state := stateOpen, br_openedAt := now\<rparr> else b1)"

definition Breaker_Open :: "instant \<Rightarrow> breaker \<Rightarrow> bool" where
  "Breaker_Open now b = (if br_state b \<noteq> stateOpen then False else now - br_openedAt b < br_cooldown b)"

section \<open>Drivers\<close>

datatype provider = ProviderFCM | ProviderAPNs | ProviderAPNsVoIP | ProviderNtfy | ProviderWebPush

record payload =
  pl_Kind :: int
  pl_CollapseKey :: string
  pl_RingID :: string

record dispatch =
  di_RecipientDeviceID :: string
  di_Payload :: payload

datatype send_result = SendOK | ErrTokenInvalid | SendFailed

text \<open>\<open>None\<close> is a request that fails before a status line arrives.\<close>

type_synonym http_reply = "nat option"

text \<open>A driver that is registered; for FCM, whether it has an OAuth token source.\<close>

datatype driver = NtfyDriver | FCMDriver bool | APNsDriver bool | WebPushDriver

definition driver_provider :: "driver \<Rightarrow> provider" where
  "driver_provider d =
     (case d of
        NtfyDriver \<Rightarrow> ProviderNtfy
      | FCMDriver _ \<Rightarrow> ProviderFCM
      | APNsDriver voip \<Rightarrow> if voip then ProviderAPNsVoIP else ProviderAPNs
      | WebPushDriver \<Rightarrow> ProviderWebPush)"

definition ntfy_send :: "http_reply \<Rightarrow> send_result" where
  "ntfy_send reply =
     (case reply of
        None \<Rightarrow> SendFailed
      | Some st \<Rightarrow>
          if st \<ge> 200 \<and> st < 300 then SendOK
          else if st = 404 \<or> st = 410 then ErrTokenInvalid
          else SendFailed)"

definition fcm_send :: "bool \<Rightarrow> bool \<Rightarrow> http_reply \<Rightarrow> send_result" where
  "fcm_send configured oauth_ok reply =
     (if \<not> configured then SendFailed
      else if \<not> oauth_ok then SendFailed
      else case reply of
        None \<Rightarrow> SendFailed
      | Some st \<Rightarrow>
          if st \<ge> 200 \<and> st < 300 then SendOK
          else if st = 404 \<or> st = 401 then ErrTokenInvalid
          else SendFailed)"

definition driver_send :: "driver \<Rightarrow> bool \<Rightarrow> http_reply \<Rightarrow> send_result" where
  "driver_send d oauth_ok reply =
     (case d of
        NtfyDriver \<Rightarrow> ntfy_send reply
      | FCMDriver configured \<Rightarrow> fcm_send configured oauth_ok reply
      | APNsDriver _ \<Rightarrow> SendFailed
      | WebPushDriver \<Rightarrow> SendFailed)"

section \<open>The service\<close>

datatype push_outcome = Ack | Nack | Dead

record push_token =
  pt_DeviceID :: string
  pt_Provider :: provider
  pt_Token :: string

text \<open>\<open>no_sent\<close> is what the providers have accepted, \<open>no_dlq\<close> what was parked on the dead-letter subject.\<close>

record notify_sys =
  no_tokens :: "push_token list"
  no_drivers :: "provider \<Rightarrow> driver option"
  no_breakers :: "provider \<Rightarrow> breaker option"
  no_maxDeliveries :: nat
  no_sent :: "dispatch list"
  no_dlq :: "dispatch list"

text \<open>One delivery: the clock when the breaker is asked and when the result is recorded, the calls that fail, the reply.\<close>

record notify_env =
  ne_now :: instant
  ne_later :: instant
  ne_resolve_fails :: bool
  ne_delete_fails :: bool
  ne_dlq_fails :: bool
  ne_oauth :: bool
  ne_reply :: http_reply

definition NewService :: "push_token list \<Rightarrow> driver list \<Rightarrow> int \<Rightarrow> notify_sys" where
  "NewService tokens drivers maxDeliveries =
     \<lparr>no_tokens = tokens,
      no_drivers = (\<lambda>p. find (\<lambda>d. driver_provider d = p) (rev drivers)),
      no_breakers = (\<lambda>p. map_option (\<lambda>_. NewBreaker (int DefaultThreshold) DefaultWindow DefaultCooldown)
                        (find (\<lambda>d. driver_provider d = p) (rev drivers))),
      no_maxDeliveries = (if maxDeliveries \<le> 0 then DefaultThreshold else nat maxDeliveries),
      no_sent = [], no_dlq = []\<rparr>"

definition retryOrDead :: "notify_sys \<Rightarrow> nat \<Rightarrow> push_outcome" where
  "retryOrDead s deliveries = (if deliveries \<ge> no_maxDeliveries s then Dead else Nack)"

definition Token_Resolve :: "string \<Rightarrow> notify_sys \<Rightarrow> push_token option" where
  "Token_Resolve d s = tbl_get pt_DeviceID d (no_tokens s)"

definition Token_Delete :: "string \<Rightarrow> notify_sys \<Rightarrow> notify_sys" where
  "Token_Delete d s = s\<lparr>no_tokens := tbl_del pt_DeviceID d (no_tokens s)\<rparr>"

definition set_breaker :: "provider \<Rightarrow> breaker \<Rightarrow> notify_sys \<Rightarrow> notify_sys" where
  "set_breaker p b s = s\<lparr>no_breakers := (no_breakers s)(p \<mapsto> b)\<rparr>"

definition Notify_Handle :: "notify_env \<Rightarrow> dispatch \<Rightarrow> nat \<Rightarrow> notify_sys \<Rightarrow> push_outcome \<times> notify_sys" where
  "Notify_Handle e d deliveries s =
     (if ne_resolve_fails e then (retryOrDead s deliveries, s)
      else case Token_Resolve (di_RecipientDeviceID d) s of
        None \<Rightarrow> (Ack, s)
      | Some tok \<Rightarrow>
          (case (no_drivers s (pt_Provider tok), no_breakers s (pt_Provider tok)) of
             (Some drv, Some b) \<Rightarrow>
               let (ok, b1) = Breaker_Allow (ne_now e) b;
                   s1 = set_breaker (pt_Provider tok) b1 s
               in if \<not> ok then (Nack, s1)
                  else (case driver_send drv (ne_oauth e) (ne_reply e) of
                    SendOK \<Rightarrow>
                      (Ack, (set_breaker (pt_Provider tok) (Breaker_Record (ne_later e) True b1) s1)
                              \<lparr>no_sent := no_sent s @ [d]\<rparr>)
                  | ErrTokenInvalid \<Rightarrow>
                      (Ack, if ne_delete_fails e then s1 else Token_Delete (di_RecipientDeviceID d) s1)
                  | SendFailed \<Rightarrow>
                      (retryOrDead s deliveries, set_breaker (pt_Provider tok) (Breaker_Record (ne_later e) False b1) s1))
           | _ \<Rightarrow> (Ack, s)))"

section \<open>The consumer\<close>

datatype settlement = MsgAck | MsgNak | MsgTerm

text \<open>\<open>None\<close> stands for a message that does not decode.\<close>

definition consumer_handle :: "notify_env \<Rightarrow> dispatch option \<Rightarrow> nat \<Rightarrow> notify_sys \<Rightarrow> settlement \<times> notify_sys" where
  "consumer_handle e pd deliveries s =
     (case pd of
        None \<Rightarrow> (MsgTerm, s)
      | Some d \<Rightarrow>
          (case Notify_Handle e d deliveries s of
             (Ack, s1) \<Rightarrow> (MsgAck, s1)
           | (Nack, s1) \<Rightarrow> (MsgNak, s1)
           | (Dead, s1) \<Rightarrow> if ne_dlq_fails e then (MsgNak, s1) else (MsgAck, s1\<lparr>no_dlq := no_dlq s1 @ [d]\<rparr>)))"

definition consumer_maxDeliver :: "int \<Rightarrow> nat" where
  "consumer_maxDeliver maxDeliver = (if maxDeliver \<le> 0 then 6 else nat maxDeliver)"

text \<open>
  The life of one message on the stream: it is delivered, once per environment, until it is settled by an
  acknowledgement or a termination or the number of deliveries allowed is used up.
\<close>

fun deliver_message :: "nat \<Rightarrow> nat \<Rightarrow> notify_env list \<Rightarrow> dispatch \<Rightarrow> notify_sys \<Rightarrow> settlement option \<times> notify_sys" where
  "deliver_message left n [] d s = (None, s)"
| "deliver_message 0 n (e # es) d s = (None, s)"
| "deliver_message (Suc left) n (e # es) d s =
     (case consumer_handle e (Some d) n s of
        (MsgNak, s1) \<Rightarrow> deliver_message left (Suc n) es d s1
      | (st, s1) \<Rightarrow> (Some st, s1))"

end
