(* ===== verification/NotifyProps.thy ===== *)
theory NotifyProps
  imports Notify
begin

text \<open>
  What the push pipeline guarantees: how a delivery is settled, how often a failing provider is called, and two ways in
  which dispatches are lost or held back for ever.
\<close>

section \<open>Calls to a failing provider\<close>

text \<open>
  An attempt asks the breaker at \<open>at_ask\<close> and, if admitted, records a result at \<open>at_rec\<close>; a send that finds an invalid
  token records none. \<open>attempt_step\<close> carries along the times of the failures since the last success.
\<close>

record attempt =
  at_ask :: instant
  at_rec :: instant
  at_result :: "bool option"

fun attempt_step :: "breaker \<times> instant list \<Rightarrow> attempt \<Rightarrow> breaker \<times> instant list" where
  "attempt_step (b, fs) a =
     (let (ok, b1) = Breaker_Allow (at_ask a) b in
      if \<not> ok then (b1, fs)
      else case at_result a of
        None \<Rightarrow> (b1, fs)
      | Some True \<Rightarrow> (Breaker_Record (at_rec a) True b1, [])
      | Some False \<Rightarrow> (Breaker_Record (at_rec a) False b1, fs @ [at_rec a]))"

fun in_order :: "instant \<Rightarrow> attempt list \<Rightarrow> bool" where
  "in_order t [] \<longleftrightarrow> True"
| "in_order t (a # as) \<longleftrightarrow> t \<le> at_ask a \<and> at_ask a \<le> at_rec a \<and> in_order (at_rec a) as"

definition spread :: "nat \<Rightarrow> duration \<Rightarrow> instant list \<Rightarrow> bool" where
  "spread n w fs \<longleftrightarrow> (\<forall>i. i + n < length fs \<longrightarrow> w \<le> fs ! (i + n) - fs ! i)"

text \<open>The failures the breaker remembers are the recent ones; those it has dropped are older than the window.\<close>

definition recent :: "duration \<Rightarrow> instant \<Rightarrow> instant list \<Rightarrow> instant list \<Rightarrow> bool" where
  "recent w t fs gs \<longleftrightarrow> (\<exists>k. gs = drop k fs \<and> (\<forall>f \<in> set (take k fs). f + w \<le> t))"

lemma recent_mono: "recent w t fs gs \<Longrightarrow> t \<le> t' \<Longrightarrow> recent w t' fs gs"
proof -
  assume "recent w t fs gs" "t \<le> t'"
  then obtain k where "gs = drop k fs" "\<forall>f \<in> set (take k fs). f + w \<le> t'" by (fastforce simp: recent_def)
  then show ?thesis unfolding recent_def by blast
qed

lemma recent_Nil [simp]: "recent w t [] []"
  by (simp add: recent_def)

definition breaker_inv :: "breaker \<Rightarrow> instant \<Rightarrow> breaker \<times> instant list \<Rightarrow> bool" where
  "breaker_inv b0 t x \<longleftrightarrow> (case x of (b, fs) \<Rightarrow>
     br_threshold b = br_threshold b0 \<and> br_window b = br_window b0 \<and> br_cooldown b = br_cooldown b0 \<and>
     sorted fs \<and> (\<forall>f \<in> set fs. f \<le> t) \<and> spread (br_threshold b0) (br_window b0) fs \<and>
     (if br_state b = stateClosed
      then length (br_failures b) < br_threshold b0 \<and> recent (br_window b0) t fs (br_failures b)
      else fs \<noteq> [] \<and> (br_state b = stateOpen \<longrightarrow> br_openedAt b = last fs)
        \<and> (br_state b = stateHalfOpen \<longrightarrow> last fs + br_cooldown b0 \<le> t)))"

lemma spread_snoc:
  assumes "spread n w fs" "n \<le> length fs \<Longrightarrow> n > 0 \<Longrightarrow> fs ! (length fs - n) + w \<le> t" "n > 0"
  shows "spread n w (fs @ [t])"
  unfolding spread_def
proof (intro allI impI)
  fix i
  assume i: "i + n < length (fs @ [t])"
  show "w \<le> (fs @ [t]) ! (i + n) - (fs @ [t]) ! i"
  proof (cases "i + n < length fs")
    case True
    then show ?thesis using assms(1) by (simp add: spread_def nth_append)
  next
    case False
    with i have "i + n = length fs" by simp
    then have "i = length fs - n" "n \<le> length fs" "i < length fs" using assms(3) by simp_all
    then show ?thesis using assms(2,3) by (auto simp: nth_append)
  qed
qed

lemma filter_sorted_drop: "sorted xs \<Longrightarrow> \<exists>k. filter (\<lambda>x. x > c) xs = drop k xs \<and> (\<forall>x \<in> set (take k xs). x \<le> c)"
  for c :: int
proof (induction xs)
  case (Cons x xs)
  show ?case
  proof (cases "x > c")
    case True
    then have "filter (\<lambda>x. x > c) (x # xs) = x # xs" using Cons.prems by (auto simp: filter_id_conv)
    then show ?thesis by (intro exI [of _ 0]) simp
  next
    case False
    obtain k where "filter (\<lambda>x. x > c) xs = drop k xs" "\<forall>x \<in> set (take k xs). x \<le> c" using Cons by auto
    with False show ?thesis by (intro exI [of _ "Suc k"]) auto
  qed
qed simp

lemma sorted_snoc: "sorted xs \<Longrightarrow> (\<forall>x \<in> set xs. x \<le> y) \<Longrightarrow> sorted (xs @ [y])"
  by (simp add: sorted_append)

text \<open>A failure that is recorded while the breaker is closed.\<close>

lemma closed_failure:
  assumes inv: "breaker_inv b0 t (b, fs)" and c: "br_state b = stateClosed" and t: "t \<le> now" and th: "br_threshold b0 > 0"
    "br_window b0 > 0"
  shows "breaker_inv b0 now (Breaker_Record now False b, fs @ [now])"
proof -
  obtain k where k: "br_failures b = drop k fs" and old: "\<forall>f \<in> set (take k fs). f + br_window b0 \<le> t"
    and len: "length (br_failures b) < br_threshold b0" and s: "sorted fs" "\<forall>f \<in> set fs. f \<le> t" and sp: "spread (br_threshold b0) (br_window b0) fs"
    and same: "br_threshold b = br_threshold b0" "br_window b = br_window b0" "br_cooldown b = br_cooldown b0"
    using inv c unfolding breaker_inv_def recent_def by auto
  let ?kept = "filter (\<lambda>f. f > now - br_window b0) (br_failures b)"
  have "sorted (drop k fs)" using s(1) by (rule sorted_wrt_drop)
  then obtain j where j: "?kept = drop j (drop k fs)" "\<forall>f \<in> set (take j (drop k fs)). f \<le> now - br_window b0"
    using filter_sorted_drop [of "drop k fs" "now - br_window b0"] by (auto simp: k)
  let ?m = "min (k + j) (length fs)"
  have kept: "?kept = drop ?m fs" unfolding j(1) drop_drop by (simp add: min_def add.commute)
  have before: "f + br_window b0 \<le> now" if "f \<in> set (take ?m fs)" for f
  proof -
    have "f \<in> set (take (k + j) fs)" using that by (metis in_set_takeD min.cobounded1 take_take min.absorb_iff2 min.commute)
    then have "f \<in> set (take k fs) \<or> f \<in> set (take j (drop k fs))" by (simp add: take_add)
    with old j(2) t show ?thesis by auto
  qed
  have few: "length ?kept < br_threshold b0" using len by (meson le_less_trans length_filter_le)
  have "fs ! (length fs - br_threshold b0) + br_window b0 \<le> now" if "br_threshold b0 \<le> length fs"
  proof -
    have "length fs - ?m < br_threshold b0" using few unfolding kept by simp
    then have "length fs - br_threshold b0 < ?m" using that th by linarith
    then have "take ?m fs ! (length fs - br_threshold b0) \<in> set (take ?m fs)" by (intro nth_mem) simp
    moreover have "take ?m fs ! (length fs - br_threshold b0) = fs ! (length fs - br_threshold b0)"
      using \<open>length fs - br_threshold b0 < ?m\<close> by (rule nth_take)
    ultimately show ?thesis using before by metis
  qed
  with sp th have sp': "spread (br_threshold b0) (br_window b0) (fs @ [now])" by (intro spread_snoc) auto
  have rec: "br_failures (Breaker_Record now False b) = drop ?m (fs @ [now])"
    "br_state (Breaker_Record now False b) = (if length ?kept + 1 \<ge> br_threshold b0 then stateOpen else stateClosed)"
    "br_openedAt (Breaker_Record now False b) = (if length ?kept + 1 \<ge> br_threshold b0 then now else br_openedAt b)"
    "br_threshold (Breaker_Record now False b) = br_threshold b0" "br_window (Breaker_Record now False b) = br_window b0"
    "br_cooldown (Breaker_Record now False b) = br_cooldown b0"
    using kept c same by (auto simp: Breaker_Record_def Let_def)
  have len': "length (drop ?m (fs @ [now])) = length ?kept + 1" unfolding kept by simp
  have take: "take ?m (fs @ [now]) = take ?m fs" by simp
  have sorted: "sorted (fs @ [now])" using s t by (intro sorted_snoc) auto
  have le: "\<forall>f \<in> set (fs @ [now]). f \<le> now" using s(2) t by auto
  show ?thesis
  proof (cases "length ?kept + 1 \<ge> br_threshold b0")
    case True
    then show ?thesis unfolding breaker_inv_def by (simp add: rec sorted sp' le del: set_append)
  next
    case False
    have "recent (br_window b0) now (fs @ [now]) (drop ?m (fs @ [now]))"
      unfolding recent_def using before take by (intro exI [of _ ?m]) simp
    moreover have "length (drop ?m (fs @ [now])) < br_threshold b0" using False len' by simp
    moreover have "br_state (Breaker_Record now False b) = stateClosed" using False rec(2) by simp
    ultimately show ?thesis using rec sorted sp' le unfolding breaker_inv_def by simp
  qed
qed

lemma breaker_inv_mono:
  assumes "breaker_inv b0 t x" "t \<le> t'"
  shows "breaker_inv b0 t' x"
  using assms recent_mono [of _ t _ _ t'] unfolding breaker_inv_def by (force split: prod.splits if_splits)

lemma probe_failure:
  assumes inv: "breaker_inv b0 t (b, fs)" and c: "br_state b = stateHalfOpen" and t: "t \<le> now" and th: "br_threshold b0 > 0"
    and w: "br_window b0 \<le> br_cooldown b0"
  shows "breaker_inv b0 now (Breaker_Record now False b, fs @ [now])"
proof -
  have fs: "fs \<noteq> []" "last fs + br_cooldown b0 \<le> t" "sorted fs" "\<forall>f \<in> set fs. f \<le> t" "spread (br_threshold b0) (br_window b0) fs"
    and same: "br_threshold b = br_threshold b0" "br_window b = br_window b0" "br_cooldown b = br_cooldown b0"
    using inv c unfolding breaker_inv_def by auto
  have "fs ! (length fs - br_threshold b0) \<le> last fs"
    using fs(1,3) th by (auto simp: last_conv_nth intro!: sorted_nth_mono)
  then have "spread (br_threshold b0) (br_window b0) (fs @ [now])" using fs(2,5) t w th by (intro spread_snoc) auto
  moreover have "sorted (fs @ [now])" using fs(3,4) t by (intro sorted_snoc) auto
  ultimately show ?thesis using c same fs(4) t unfolding breaker_inv_def by (auto simp: Breaker_Record_def)
qed

lemma breaker_inv_step:
  assumes inv: "breaker_inv b0 t x" and a: "t \<le> at_ask a" "at_ask a \<le> at_rec a"
    and th: "br_threshold b0 > 0" "br_window b0 > 0" "br_window b0 \<le> br_cooldown b0"
  shows "breaker_inv b0 (at_rec a) (attempt_step x a)"
proof -
  obtain b fs where x: "x = (b, fs)" by fastforce
  have now: "breaker_inv b0 (at_ask a) (b, fs)" using breaker_inv_mono [OF inv a(1)] by (simp add: x)
  obtain ok b1 where al: "Breaker_Allow (at_ask a) b = (ok, b1)" by fastforce
  have asked: "breaker_inv b0 (at_ask a) (b1, fs)" and st: "ok \<Longrightarrow> br_state b1 \<noteq> stateOpen"
    using al now unfolding breaker_inv_def
    by (auto simp: Breaker_Allow_def split: breakerState.splits if_splits)
  have fail: "breaker_inv b0 (at_rec a) (Breaker_Record (at_rec a) False b1, fs @ [at_rec a])" if ok
    using st [OF that] closed_failure [OF asked _ a(2) th(1,2)] probe_failure [OF asked _ a(2) th(1,3)] by (cases "br_state b1") auto
  have "breaker_inv b0 (at_rec a) (Breaker_Record (at_rec a) True b1, [])"
    using asked th(1) unfolding breaker_inv_def by (auto simp: Breaker_Record_def spread_def)
  then show ?thesis
    using al fail breaker_inv_mono [OF asked a(2)] by (auto simp: x split: option.splits bool.splits)
qed

lemma breaker_inv_run:
  assumes "br_threshold b0 > 0" "br_window b0 > 0" "br_window b0 \<le> br_cooldown b0"
  shows "breaker_inv b0 t x \<Longrightarrow> in_order t as \<Longrightarrow> \<exists>t'. breaker_inv b0 t' (run attempt_step x as)"
proof (induction as arbitrary: t x)
  case (Cons a as)
  then show ?case using breaker_inv_step [OF Cons.prems(1) _ _ assms, of a] by auto
qed auto

text \<open>
A failing provider is spared: whatever the order of attempts and replies, among the failed calls since the last
success any six consecutive ones (one more than the threshold) span at least the window of thirty seconds.
\<close>

theorem breaker_spares_provider:
  assumes "in_order t as" "(b, fs) = run attempt_step (NewBreaker (int DefaultThreshold) DefaultWindow DefaultCooldown, []) as"
    and "i + 5 < length fs"
  shows "DefaultWindow \<le> fs ! (i + 5) - fs ! i"
proof -
  let ?b = "NewBreaker (int DefaultThreshold) DefaultWindow DefaultCooldown"
  have p: "br_threshold ?b = 5" "br_window ?b = DefaultWindow" "br_cooldown ?b = DefaultCooldown" "br_state ?b = stateClosed" "br_failures ?b = []"
    by (simp_all add: NewBreaker_def DefaultThreshold_def DefaultWindow_def DefaultCooldown_def time_units)
  have "breaker_inv ?b t (?b, [])" by (simp add: breaker_inv_def p spread_def)
  moreover have "0 < br_threshold ?b" "0 < br_window ?b" "br_window ?b \<le> br_cooldown ?b"
    unfolding p by (simp_all add: DefaultWindow_def DefaultCooldown_def time_units)
  ultimately obtain t' where "breaker_inv ?b t' (b, fs)"
    using breaker_inv_run [of ?b t "(?b, [])" as] assms(1) unfolding assms(2) by blast
  then show ?thesis using assms(3) by (simp add: breaker_inv_def p spread_def)
qed

definition failing :: "attempt list" where
  "failing = map (\<lambda>t. \<lparr>at_ask = t * Second, at_rec = t * Second, at_result = Some False\<rparr>) [0, 1, 2, 3, 4, 5, 64]"

theorem breaker_spares_provider_witness:
  "snd (run attempt_step (NewBreaker (int DefaultThreshold) DefaultWindow DefaultCooldown, []) failing) =
     map (\<lambda>t. t * Second) [0, 1, 2, 3, 4, 64] \<and> DefaultWindow \<le> 64 * Second - 0 * Second"
proof
  let ?r = "run attempt_step (NewBreaker (int DefaultThreshold) DefaultWindow DefaultCooldown, []) failing"
  show fs: "snd ?r = map (\<lambda>t. t * Second) [0, 1, 2, 3, 4, 64]" by code_simp
  have "in_order 0 failing" by code_simp
  from breaker_spares_provider [OF this surjective_pairing [symmetric], of 0] show "DefaultWindow \<le> 64 * Second - 0 * Second"
    by (simp add: fs)
qed

section \<open>How a delivery is settled\<close>

text \<open>
C18. Every dispatch is accounted for: a delivery acknowledges a message only if the provider accepted it, the device
has no token, its provider has no driver, the provider called the token invalid, or the last allowed delivery failed and
the dispatch was parked on the dead-letter subject; in every other case the message stays on the stream and nothing was
sent or parked.
\<close>

theorem delivery_settled:
  assumes "consumer_handle e (Some d) n s = (st, s')"
  shows "case st of
      MsgAck \<Rightarrow>
        no_sent s' = no_sent s @ [d] \<and> no_dlq s' = no_dlq s \<or>
        no_sent s' = no_sent s \<and> no_dlq s' = no_dlq s @ [d] \<and> n \<ge> no_maxDeliveries s \<or>
        no_sent s' = no_sent s \<and> no_dlq s' = no_dlq s \<and>
          (case Token_Resolve (di_RecipientDeviceID d) s of
             None \<Rightarrow> True
           | Some tok \<Rightarrow> no_drivers s (pt_Provider tok) = None \<or> no_breakers s (pt_Provider tok) = None \<or>
               (\<exists>drv. no_drivers s (pt_Provider tok) = Some drv \<and> driver_send drv (ne_oauth e) (ne_reply e) = ErrTokenInvalid \<and>
                  (ne_delete_fails e \<or> Token_Resolve (di_RecipientDeviceID d) s' = None)))
    | MsgNak \<Rightarrow> no_sent s' = no_sent s \<and> no_dlq s' = no_dlq s \<and> no_tokens s' = no_tokens s
    | MsgTerm \<Rightarrow> False"
proof -
  obtain out s1 where h: "Notify_Handle e d n s = (out, s1)" by fastforce
  have "case out of
      Ack \<Rightarrow> no_sent s1 = no_sent s @ [d] \<and> no_dlq s1 = no_dlq s \<or>
        no_sent s1 = no_sent s \<and> no_dlq s1 = no_dlq s \<and>
          (case Token_Resolve (di_RecipientDeviceID d) s of
             None \<Rightarrow> True
           | Some tok \<Rightarrow> no_drivers s (pt_Provider tok) = None \<or> no_breakers s (pt_Provider tok) = None \<or>
               (\<exists>drv. no_drivers s (pt_Provider tok) = Some drv \<and> driver_send drv (ne_oauth e) (ne_reply e) = ErrTokenInvalid \<and>
                  (ne_delete_fails e \<or> Token_Resolve (di_RecipientDeviceID d) s1 = None)))
    | Nack \<Rightarrow> no_sent s1 = no_sent s \<and> no_dlq s1 = no_dlq s \<and> no_tokens s1 = no_tokens s
    | Dead \<Rightarrow> no_sent s1 = no_sent s \<and> no_dlq s1 = no_dlq s \<and> no_tokens s1 = no_tokens s \<and> n \<ge> no_maxDeliveries s"
    using h
    by (auto simp: Notify_Handle_def retryOrDead_def set_breaker_def Token_Delete_def Token_Resolve_def tbl_get_del Let_def
      split: push_outcome.splits option.splits if_splits prod.splits send_result.splits)
  then show ?thesis
    using assms h by (cases out) (auto simp: consumer_handle_def Token_Resolve_def split: option.splits if_splits)
qed

definition one_token :: notify_sys where
  "one_token = NewService [\<lparr>pt_DeviceID = ''d1'', pt_Provider = ProviderNtfy, pt_Token = ''url''\<rparr>] [NtfyDriver] 5"

definition wake :: dispatch where
  "wake = \<lparr>di_RecipientDeviceID = ''d1'', di_Payload = \<lparr>pl_Kind = 1, pl_CollapseKey = ''c1'', pl_RingID = []\<rparr>\<rparr>"

definition reply_env :: "instant \<Rightarrow> http_reply \<Rightarrow> notify_env" where
  "reply_env t reply = \<lparr>ne_now = t, ne_later = t, ne_resolve_fails = False, ne_delete_fails = False, ne_dlq_fails = False,
     ne_oauth = True, ne_reply = reply\<rparr>"

lemmas notify_eval = one_token_def wake_def reply_env_def NewService_def NewBreaker_def Notify_Handle_def consumer_handle_def
  Token_Resolve_def Token_Delete_def set_breaker_def retryOrDead_def driver_provider_def driver_send_def ntfy_send_def
  Breaker_Allow_def Breaker_Record_def tbl_get_def DefaultThreshold_def DefaultWindow_def DefaultCooldown_def time_units

theorem delivery_settled_witness:
  "consumer_handle (reply_env 0 (Some 200)) (Some wake) 1 one_token =
     (MsgAck, snd (consumer_handle (reply_env 0 (Some 200)) (Some wake) 1 one_token)) \<and>
   no_sent (snd (consumer_handle (reply_env 0 (Some 200)) (Some wake) 1 one_token)) = [wake]"
proof -
  let ?h = "consumer_handle (reply_env 0 (Some 200)) (Some wake) 1 one_token"
  have h: "?h = (MsgAck, snd ?h)" by (simp add: notify_eval)
  have "no_sent (snd ?h) \<noteq> no_sent one_token" by (simp add: notify_eval)
  with delivery_settled [OF h] have "no_sent (snd ?h) = no_sent one_token @ [wake]" by simp
  with h show ?thesis by (simp add: one_token_def NewService_def)
qed

section \<open>How dispatches are lost\<close>

text \<open>A dispatch is \<open>routed\<close> to a provider that has a driver; neither the tokens nor the drivers change in what follows.\<close>

definition routed :: "provider \<Rightarrow> notify_sys \<Rightarrow> dispatch \<Rightarrow> bool" where
  "routed p s d \<longleftrightarrow> (\<exists>tok. Token_Resolve (di_RecipientDeviceID d) s = Some tok \<and> pt_Provider tok = p)"

lemma held_back:
  assumes "routed p s d" "no_drivers s p \<noteq> None" "no_breakers s p = Some b" "\<not> ne_resolve_fails e" "Breaker_Allow (ne_now e) b = (False, b)"
  shows "consumer_handle e (Some d) n s = (MsgNak, s)"
proof -
  have "(no_breakers s)(p \<mapsto> b) = no_breakers s" using assms(3) by auto
  then have "set_breaker p b s = s" by (simp add: set_breaker_def)
  then show ?thesis using assms by (auto simp: routed_def consumer_handle_def Notify_Handle_def Let_def)
qed

text \<open>
C31. A dispatch is lost in an outage: if all the deliveries the stream allows for a message fall into the cool-down of
its provider's breaker, then the message is neither sent nor parked on the dead-letter subject nor acknowledged, however
often it is delivered, and the stream delivers it no more.
\<close>

theorem outage_loses_dispatch:
  assumes "routed p s d" "no_drivers s p \<noteq> None" "no_breakers s p = Some b" "br_state b = stateOpen"
    and "length es = consumer_maxDeliver (int (no_maxDeliveries s) + 1)"
    and "list_all (\<lambda>e. \<not> ne_resolve_fails e \<and> ne_now e < br_openedAt b + br_cooldown b) es"
  shows "deliver_message (consumer_maxDeliver (int (no_maxDeliveries s) + 1)) 1 (es @ later) d s = (None, s)"
proof -
  have "deliver_message (length es) n (es @ later) d s = (None, s)" for n
    using assms(6)
  proof (induction es arbitrary: n)
    case Nil
    then show ?case by (cases later) simp_all
  next
    case (Cons e es)
    then have "consumer_handle e (Some d) n s = (MsgNak, s)"
      by (intro held_back [OF assms(1-3)]) (auto simp: Breaker_Allow_def assms(4))
    with Cons show ?case by simp
  qed
  then show ?thesis by (simp add: assms(5))
qed

definition tripped :: breaker where
  "tripped = (NewBreaker (int DefaultThreshold) DefaultWindow DefaultCooldown)\<lparr>br_state := stateOpen\<rparr>"

theorem outage_loses_dispatch_witness:
  "deliver_message 6 1 (map (\<lambda>t. reply_env t (Some 200)) [1, 2, 3, 4, 5, 6] @ [reply_env (100 * Second) (Some 200)]) wake
     (set_breaker ProviderNtfy tripped one_token) = (None, set_breaker ProviderNtfy tripped one_token)"
proof -
  let ?s = "set_breaker ProviderNtfy tripped one_token" and ?es = "map (\<lambda>t. reply_env t (Some 200)) [1, 2, 3, 4, 5, 6]"
  have m: "consumer_maxDeliver (int (no_maxDeliveries ?s) + 1) = 6"
    by (simp add: consumer_maxDeliver_def set_breaker_def one_token_def NewService_def)
  have "routed ProviderNtfy ?s wake" "no_drivers ?s ProviderNtfy \<noteq> None" "no_breakers ?s ProviderNtfy = Some tripped" "br_state tripped = stateOpen"
    by (simp_all add: routed_def tripped_def notify_eval)
  moreover have "length ?es = consumer_maxDeliver (int (no_maxDeliveries ?s) + 1)" unfolding m by simp
  moreover have "list_all (\<lambda>e. \<not> ne_resolve_fails e \<and> ne_now e < br_openedAt tripped + br_cooldown tripped) ?es"
    by (simp add: reply_env_def tripped_def NewBreaker_def DefaultCooldown_def time_units)
  ultimately show ?thesis unfolding m [symmetric] by (rule outage_loses_dispatch)
qed

text \<open>The probe of a half-open breaker that finds an invalid token is never recorded.\<close>

definition stuck :: "provider \<Rightarrow> notify_sys \<Rightarrow> bool" where
  "stuck p s \<longleftrightarrow> no_drivers s p \<noteq> None \<and> (\<exists>b. no_breakers s p = Some b \<and> br_state b = stateHalfOpen)"

definition consumer_step :: "notify_sys \<Rightarrow> notify_env \<times> dispatch \<times> nat \<Rightarrow> notify_sys" where
  "consumer_step s x = snd (consumer_handle (fst x) (Some (fst (snd x))) (snd (snd x)) s)"

lemma stuck_handle:
  assumes "stuck p s"
  shows "stuck p (snd (Notify_Handle e d n s))" "routed p s d \<Longrightarrow> \<not> ne_resolve_fails e \<Longrightarrow> Notify_Handle e d n s = (Nack, s)"
proof -
  obtain b where b: "no_breakers s p = Some b" "br_state b = stateHalfOpen" and drv: "no_drivers s p \<noteq> None"
    using assms by (auto simp: stuck_def)
  have same: "set_breaker p b s = s" using b(1) by (simp add: set_breaker_def fun_upd_idem)
  have al: "Breaker_Allow t b = (False, b)" for t using b(2) by (simp add: Breaker_Allow_def)
  show on_p: "routed p s d \<Longrightarrow> \<not> ne_resolve_fails e \<Longrightarrow> Notify_Handle e d n s = (Nack, s)"
    using b(1) drv al same by (auto simp: routed_def Notify_Handle_def Let_def)
  show "stuck p (snd (Notify_Handle e d n s))"
  proof (cases "ne_resolve_fails e \<or> Token_Resolve (di_RecipientDeviceID d) s = None \<or> routed p s d")
    case True
    then show ?thesis using assms on_p by (auto simp: Notify_Handle_def)
  next
    case False
    then obtain tok where "Token_Resolve (di_RecipientDeviceID d) s = Some tok" "pt_Provider tok \<noteq> p" "\<not> ne_resolve_fails e"
      by (auto simp: routed_def)
    then show ?thesis using b drv
      by (auto simp: Notify_Handle_def stuck_def set_breaker_def Token_Delete_def Let_def split: option.splits prod.splits send_result.splits)
  qed
qed

lemma stuck_step: "stuck p s \<Longrightarrow> stuck p (consumer_step s x)"
  using stuck_handle(1) [of p s "fst x" "fst (snd x)" "snd (snd x)"]
  by (cases "Notify_Handle (fst x) (fst (snd x)) (snd (snd x)) s"; cases "fst (Notify_Handle (fst x) (fst (snd x)) (snd (snd x)) s)")
     (auto simp: consumer_step_def consumer_handle_def stuck_def)

interpretation stuck_breaker: invariant_system consumer_step "stuck p"
  by unfold_locales (rule stuck_step)

text \<open>
One dead token silences a provider: if the breaker of a provider has cooled down and the device it is probed with
turns out to have an invalid token, then from then on, whatever is delivered later and however the provider answers, no
dispatch for a device of that provider is sent: each is refused and stays on the stream.
\<close>

theorem dead_token_silences_provider:
  assumes "routed p s d" "no_drivers s p = Some drv" "no_breakers s p = Some b" "br_state b = stateOpen"
    "ne_now e \<ge> br_openedAt b + br_cooldown b" "\<not> ne_resolve_fails e" "driver_send drv (ne_oauth e) (ne_reply e) = ErrTokenInvalid"
    and s': "s' = run consumer_step (snd (consumer_handle e (Some d) n s)) later"
    and d': "routed p s' d'" "\<not> ne_resolve_fails e'"
  shows "consumer_handle e' (Some d') n' s' = (MsgNak, s')"
proof -
  have "stuck p (snd (consumer_handle e (Some d) n s))"
    using assms(1-7) by (auto simp: routed_def stuck_def consumer_handle_def Notify_Handle_def Breaker_Allow_def set_breaker_def Token_Delete_def Let_def)
  then have "stuck p s'" unfolding s' by (rule stuck_breaker.keep_run)
  from stuck_handle(2) [OF this d'] show ?thesis by (simp add: consumer_handle_def)
qed

definition two_tokens :: notify_sys where
  "two_tokens = set_breaker ProviderNtfy tripped (NewService
     [\<lparr>pt_DeviceID = ''d1'', pt_Provider = ProviderNtfy, pt_Token = ''old''\<rparr>,
      \<lparr>pt_DeviceID = ''d2'', pt_Provider = ProviderNtfy, pt_Token = ''url''\<rparr>] [NtfyDriver] 5)"

theorem dead_token_silences_provider_witness:
  "consumer_handle (reply_env (10000 * Second) (Some 200)) (Some (wake\<lparr>di_RecipientDeviceID := ''d2''\<rparr>)) 1
     (snd (consumer_handle (reply_env (61 * Second) (Some 410)) (Some wake) 1 two_tokens)) =
   (MsgNak, snd (consumer_handle (reply_env (61 * Second) (Some 410)) (Some wake) 1 two_tokens))"
proof (rule dead_token_silences_provider [where later = "[]" and p = ProviderNtfy and drv = NtfyDriver and b = tripped])
  show "routed ProviderNtfy two_tokens wake" "no_drivers two_tokens ProviderNtfy = Some NtfyDriver" "no_breakers two_tokens ProviderNtfy = Some tripped"
    "br_state tripped = stateOpen"
    by (simp_all add: two_tokens_def routed_def tripped_def notify_eval)
  show "ne_now (reply_env (61 * Second) (Some 410)) \<ge> br_openedAt tripped + br_cooldown tripped" "\<not> ne_resolve_fails (reply_env (61 * Second) (Some 410))"
    "driver_send NtfyDriver (ne_oauth (reply_env (61 * Second) (Some 410))) (ne_reply (reply_env (61 * Second) (Some 410))) = ErrTokenInvalid"
    by (simp_all add: tripped_def notify_eval)
  show "snd (consumer_handle (reply_env (61 * Second) (Some 410)) (Some wake) 1 two_tokens) =
      run consumer_step (snd (consumer_handle (reply_env (61 * Second) (Some 410)) (Some wake) 1 two_tokens)) []" by simp
  show "routed ProviderNtfy (snd (consumer_handle (reply_env (61 * Second) (Some 410)) (Some wake) 1 two_tokens)) (wake\<lparr>di_RecipientDeviceID := ''d2''\<rparr>)"
    by (simp add: two_tokens_def routed_def tripped_def notify_eval tbl_del_def)
  show "\<not> ne_resolve_fails (reply_env (10000 * Second) (Some 200))" by (simp add: reply_env_def)
qed

text \<open>A rejected access token of the server itself removes the push token of the device.\<close>

lemma fcm_unauthorized_prunes:
  assumes "Token_Resolve (di_RecipientDeviceID d) s = Some tok" "no_drivers s (pt_Provider tok) = Some (FCMDriver True)"
    "no_breakers s (pt_Provider tok) = Some b" "br_state b = stateClosed" "\<not> ne_resolve_fails e" "\<not> ne_delete_fails e" "ne_oauth e"
    "ne_reply e = Some 401"
  shows "fst (consumer_handle e (Some d) n s) = MsgAck \<and> Token_Resolve (di_RecipientDeviceID d) (snd (consumer_handle e (Some d) n s)) = None"
  using assms by (simp add: consumer_handle_def Notify_Handle_def Breaker_Allow_def driver_send_def fcm_send_def Token_Delete_def
    Token_Resolve_def set_breaker_def tbl_get_del)

end
