(* ===== verification/Polls.thy ===== *)
theory Polls
  imports Contracts
begin

text \<open>
  Polls (\<^verbatim>\<open>polls/\<close>): validation, the tables of polls and votes, and the service. A re-vote replaces the rows of a
  voter in one transaction; \<open>vote_begin\<close> and \<open>vote_commit\<close> split that transaction at the point where another one can
  come in between.
\<close>

section \<open>Validation\<close>

definition MinOptions :: int where "MinOptions = 2"
definition MaxOptions :: int where "MaxOptions = 12"

definition Poll_ValidateCreate :: "int \<Rightarrow> bool" where
  "Poll_ValidateCreate n \<longleftrightarrow> \<not> (n < MinOptions \<or> n > MaxOptions)"

datatype vote_error = ErrNoVote | ErrSingleChoice | ErrBadIndex | ErrDupIndex

fun check_indices :: "int set \<Rightarrow> int list \<Rightarrow> int \<Rightarrow> vote_error option" where
  "check_indices seen [] n = None"
| "check_indices seen (i # is) n =
     (if i < 0 \<or> i \<ge> n then Some ErrBadIndex
      else if i \<in> seen then Some ErrDupIndex
      else check_indices (insert i seen) is n)"

definition ValidateVote :: "int list \<Rightarrow> int \<Rightarrow> bool \<Rightarrow> vote_error option" where
  "ValidateVote indices n multi =
     (if indices = [] then Some ErrNoVote
      else if \<not> multi \<and> length indices \<noteq> 1 then Some ErrSingleChoice
      else check_indices {} indices n)"

definition Tally :: "int list \<Rightarrow> int \<Rightarrow> nat list" where
  "Tally indices n = fold (\<lambda>i counts. if i \<ge> 0 \<and> i < n then counts[nat i := counts ! nat i + 1] else counts) indices
     (replicate (nat n) 0)"

section \<open>The store\<close>

record poll =
  pl_ID :: string
  pl_ConversationID :: string
  pl_CreatorID :: string
  pl_OptionCount :: int
  pl_Multi :: bool
  pl_Closed :: bool
  pl_ClosesAt :: "instant option"
  pl_CreatedAt :: instant

text \<open>A row of \<^verbatim>\<open>poll_votes\<close>: poll, voter and option index, unique as a triple.\<close>

type_synonym vote_row = "string \<times> string \<times> int"

record poll_db =
  pd_Polls :: "poll list"
  pd_Votes :: "vote_row list"

definition empty_poll_db :: poll_db where
  "empty_poll_db = \<lparr>pd_Polls = [], pd_Votes = []\<rparr>"

definition Poll_Create :: "poll \<Rightarrow> poll_db \<Rightarrow> poll_db option" where
  "Poll_Create p db = map_option (\<lambda>t. db\<lparr>pd_Polls := t\<rparr>) (tbl_ins pl_ID (p\<lparr>pl_Closed := False\<rparr>) (pd_Polls db))"

definition Poll_Get :: "string \<Rightarrow> poll_db \<Rightarrow> poll option" where
  "Poll_Get i db = tbl_get pl_ID i (pd_Polls db)"

definition SetClosed :: "string \<Rightarrow> poll_db \<Rightarrow> poll_db" where
  "SetClosed i db = db\<lparr>pd_Polls := tbl_upd pl_ID i (\<lambda>p. p\<lparr>pl_Closed := True\<rparr>) (pd_Polls db)\<rparr>"

text \<open>
  The transaction in two parts: the rows its \<^verbatim>\<open>DELETE\<close> sees, and its inserts with the commit, which fails on a row that
  another transaction has committed meanwhile or for a poll that does not exist.
\<close>

definition vote_begin :: "string \<Rightarrow> string \<Rightarrow> poll_db \<Rightarrow> vote_row list" where
  "vote_begin p v db = filter (\<lambda>r. fst r = p \<and> fst (snd r) = v) (pd_Votes db)"

definition vote_commit :: "vote_row list \<Rightarrow> string \<Rightarrow> string \<Rightarrow> int list \<Rightarrow> poll_db \<Rightarrow> poll_db option" where
  "vote_commit deleted p v indices db =
     (let left = filter (\<lambda>r. r \<notin> set deleted) (pd_Votes db);
          rows = map (\<lambda>i. (p, v, i)) indices
      in if \<not> distinct rows \<or> set rows \<inter> set left \<noteq> {} \<or> (rows \<noteq> [] \<and> p \<notin> pl_ID ` set (pd_Polls db)) then None
         else Some (db\<lparr>pd_Votes := left @ rows\<rparr>))"

definition ReplaceVotes :: "string \<Rightarrow> string \<Rightarrow> int list \<Rightarrow> poll_db \<Rightarrow> poll_db option" where
  "ReplaceVotes p v indices db = vote_commit (vote_begin p v db) p v indices db"

definition Store_Tally :: "string \<Rightarrow> int \<Rightarrow> string \<Rightarrow> poll_db \<Rightarrow> nat list \<times> nat \<times> int list" where
  "Store_Tally p n v db =
     (let rows = filter (\<lambda>r. fst r = p) (pd_Votes db)
      in (map (\<lambda>k. length (filter (\<lambda>r. snd (snd r) = int k) rows)) [0..<nat n],
          length (remdups (map (\<lambda>r. fst (snd r)) rows)),
          sort (map (\<lambda>r. snd (snd r)) (filter (\<lambda>r. fst (snd r) = v) rows))))"

section \<open>The service\<close>

datatype poll_call = PollGet | PollCreate | PollVote | PollClose | PollTally

record poll_env =
  ple_now :: instant
  ple_fails :: "poll_call \<Rightarrow> bool"
  ple_id :: string

definition POLL_NOT_FOUND :: api_error where "POLL_NOT_FOUND = Reject 404 ''POLL_NOT_FOUND''"

definition Service_CreatePoll ::
  "poll_env \<Rightarrow> string \<Rightarrow> string \<Rightarrow> int \<Rightarrow> bool \<Rightarrow> int \<Rightarrow> poll_db \<Rightarrow> string result \<times> poll_db" where
  "Service_CreatePoll e u conv n multi closesAtMS db =
     (if conv = [] then (Inl (Reject 400 ''VALIDATION_CONVERSATION''), db)
      else if \<not> Poll_ValidateCreate n then (Inl (Reject 400 ''VALIDATION_OPTIONS''), db)
      else
        let p = \<lparr>pl_ID = ple_id e, pl_ConversationID = conv, pl_CreatorID = u, pl_OptionCount = n, pl_Multi = multi,
                 pl_Closed = False, pl_ClosesAt = (if closesAtMS > 0 then Some (closesAtMS * Millisecond) else None),
                 pl_CreatedAt = ple_now e\<rparr>
        in if ple_fails e PollCreate then (Inl Transient, db)
           else case Poll_Create p db of None \<Rightarrow> (Inl Transient, db) | Some db1 \<Rightarrow> (Inr (pl_ID p), db1))"

definition load_poll :: "poll_env \<Rightarrow> string \<Rightarrow> poll_db \<Rightarrow> poll result" where
  "load_poll e i db =
     (if ple_fails e PollGet then Inl Transient
      else case Poll_Get i db of None \<Rightarrow> Inl POLL_NOT_FOUND | Some p \<Rightarrow> Inr p)"

definition isClosed :: "poll_env \<Rightarrow> poll \<Rightarrow> bool" where
  "isClosed e p \<longleftrightarrow> pl_Closed p \<or> (case pl_ClosesAt p of None \<Rightarrow> False | Some t \<Rightarrow> ple_now e > t)"

definition Poll_Vote :: "poll_env \<Rightarrow> string \<Rightarrow> string \<Rightarrow> int list \<Rightarrow> poll_db \<Rightarrow> unit result \<times> poll_db" where
  "Poll_Vote e u i indices db =
     (case load_poll e i db of
        Inl err \<Rightarrow> (Inl err, db)
      | Inr p \<Rightarrow>
          if isClosed e p then (Inl (Reject 409 ''POLL_CLOSED''), db)
          else if ValidateVote indices (pl_OptionCount p) (pl_Multi p) \<noteq> None then (Inl (Reject 400 ''VALIDATION_VOTE''), db)
          else if ple_fails e PollVote then (Inl Transient, db)
          else case ReplaceVotes i u indices db of None \<Rightarrow> (Inl Transient, db) | Some db1 \<Rightarrow> (Inr (), db1))"

definition Poll_Close :: "poll_env \<Rightarrow> string \<Rightarrow> string \<Rightarrow> poll_db \<Rightarrow> unit result \<times> poll_db" where
  "Poll_Close e u i db =
     (case load_poll e i db of
        Inl err \<Rightarrow> (Inl err, db)
      | Inr p \<Rightarrow>
          if pl_CreatorID p \<noteq> u then (Inl POLL_NOT_FOUND, db)
          else if ple_fails e PollClose then (Inl Transient, db)
          else (Inr (), SetClosed i db))"

record poll_results =
  prs_PollID :: string
  prs_Closed :: bool
  prs_OptionCount :: int
  prs_Multi :: bool
  prs_TotalVoters :: nat
  prs_Tallies :: "nat list"
  prs_MyVotes :: "int list"

definition Poll_Results :: "poll_env \<Rightarrow> string \<Rightarrow> string \<Rightarrow> poll_db \<Rightarrow> poll_results result" where
  "Poll_Results e u i db =
     (case load_poll e i db of
        Inl err \<Rightarrow> Inl err
      | Inr p \<Rightarrow>
          if ple_fails e PollTally then Inl Transient
          else case Store_Tally i (pl_OptionCount p) u db of
            (counts, n_voters, mine) \<Rightarrow>
              Inr \<lparr>prs_PollID = pl_ID p, prs_Closed = isClosed e p, prs_OptionCount = pl_OptionCount p, prs_Multi = pl_Multi p,
                  prs_TotalVoters = n_voters, prs_Tallies = counts, prs_MyVotes = mine\<rparr>)"

datatype poll_req =
    PqCreate string string int bool int
  | PqVote string string "int list"
  | PqClose string string

fun poll_step :: "poll_db \<Rightarrow> poll_env \<times> poll_req \<Rightarrow> poll_db" where
  "poll_step db (e, PqCreate u conv n multi closes) = snd (Service_CreatePoll e u conv n multi closes db)"
| "poll_step db (e, PqVote u i indices) = snd (Poll_Vote e u i indices db)"
| "poll_step db (e, PqClose u i) = snd (Poll_Close e u i db)"

end
