(* ===== verification/PollProps.thy ===== *)
theory PollProps
  imports Polls
begin

text \<open>
  The results of a poll are those of the last accepted ballots, and how two votes of one voter that overlap in time both
  come to count.
\<close>

section \<open>Ballots\<close>















section \<open>Results\<close>




text \<open>The in-memory tally of the domain layer agrees with the counts of the query.\<close>

lemma Tally_counts:
  "Tally ks n = map (\<lambda>k. length (filter (\<lambda>i. i = int k) ks)) [0..<nat n]"
proof -
  have "fold (\<lambda>i cs. if i \<ge> 0 \<and> i < n then cs[nat i := cs ! nat i + 1] else cs) ks c =
      map (\<lambda>k. c ! k + length (filter (\<lambda>i. i = int k) ks)) [0..<nat n]" if "length c = nat n" for c :: "nat list"
    using that
  proof (induction ks arbitrary: c)
    case Nil
    then show ?case by (auto intro: nth_equalityI)
  next
    case (Cons i ks)
    show ?case by (auto simp: Cons.IH Cons.prems nth_list_update intro!: map_cong)
  qed
  from this [of "replicate (nat n) 0"] show ?thesis by (simp add: Tally_def)
qed






definition poll_demo_env :: poll_env where
  "poll_demo_env = \<lparr>ple_now = 0, ple_fails = (\<lambda>_. False), ple_id = ''p''\<rparr>"

definition poll_demo_ops :: "(poll_env \<times> poll_req) list" where
  "poll_demo_ops = map (Pair poll_demo_env)
     [PqCreate ''ann'' ''conv'' 3 False 0, PqVote ''bob'' ''p'' [0], PqVote ''eve'' ''p'' [2], PqVote ''bob'' ''p'' [2]]"

lemmas poll_demo_defs = poll_demo_ops_def poll_demo_env_def empty_poll_db_def Service_CreatePoll_def Poll_ValidateCreate_def
  MinOptions_def MaxOptions_def Poll_Create_def tbl_ins_def Poll_Vote_def load_poll_def Poll_Get_def tbl_get_def isClosed_def
  ValidateVote_def ReplaceVotes_def vote_begin_def vote_commit_def Poll_Results_def Store_Tally_def Let_def upt_rec


text \<open>
  Two votes of one voter that overlap: both transactions read the voter's rows before either has committed, both inserts
  succeed, and a single-choice poll counts the voter twice.
\<close>

lemma overlapping_votes_both_count:
  assumes "db = run poll_step empty_poll_db (take 1 poll_demo_ops)"
    "vote_commit (vote_begin ''p'' ''bob'' db) ''p'' ''bob'' [0] db = Some db1"
    "vote_commit (vote_begin ''p'' ''bob'' db) ''p'' ''bob'' [2] db1 = Some db2"
  shows "Store_Tally ''p'' 3 ''bob'' db2 = ([1, 0, 1], 1, [0, 2])"
  using assms by (auto simp: poll_demo_defs)

end
