(* ===== verification/Contacts.thy ===== *)
theory Contacts
  imports AuthService
begin

text \<open>
  Contacts (\<^verbatim>\<open>contacts/\<close>): discovery of registered users by the peppered hash of their phone number, username search,
  favorites and invite links. The table of users is the one of \<open>AuthStore\<close>; usernames are a separate column here.
\<close>

section \<open>Limits and normal forms\<close>

definition MaxSyncHandles :: nat where "MaxSyncHandles = 5000"
definition SyncDailyLimit :: int where "SyncDailyLimit = 4"
definition MinUsernameQuery :: nat where "MinUsernameQuery = 2"
definition MaxSearchResults :: nat where "MaxSearchResults = 20"
definition InviteTTL :: duration where "InviteTTL = 30 * 24 * Hour"
definition DefaultInviteMaxUses :: int where "DefaultInviteMaxUses = 100"

definition NormalizeHandle :: "string \<Rightarrow> string \<times> bool" where
  "NormalizeHandle h = (let n = TrimSpace h in (n, match_e164 n))"

text \<open>The number of runes of a byte string, an invalid byte counting as one.\<close>

function rune_count :: "string \<Rightarrow> nat" where
  "rune_count s = (if s = [] then 0 else 1 + rune_count (drop (rune_width s) s))"
  by pat_completeness auto
termination by (relation "measure length") (auto simp: rune_width_pos)

declare rune_count.simps [simp del]

definition NormalizeQuery :: "string \<Rightarrow> string \<times> bool" where
  "NormalizeQuery q = (let n = TrimSpace q in (n, rune_count n \<ge> MinUsernameQuery))"

record contact_invite =
  iv_Token :: string
  iv_InviterID :: string
  iv_ExpiresAt :: instant
  iv_MaxUses :: int
  iv_Uses :: int
  iv_RevokedAt :: "instant option"

definition Invite_Valid :: "contact_invite \<Rightarrow> instant \<Rightarrow> bool" where
  "Invite_Valid i now =
     (if iv_RevokedAt i \<noteq> None then False
      else if \<not> now < iv_ExpiresAt i then False
      else if iv_MaxUses i > 0 \<and> iv_Uses i \<ge> iv_MaxUses i then False
      else True)"

section \<open>The store\<close>

text \<open>An edge of \<^verbatim>\<open>contacts\<close>: owner and hash, which are its key, and the user that was matched.\<close>

type_synonym contact_edge = "(string \<times> string) \<times> string"

record contacts_db =
  ct_Users :: "user_row list"
  ct_Username :: "string \<Rightarrow> string option"
  ct_Edges :: "contact_edge list"
  ct_Favorites :: "(string \<times> string) list"
  ct_Invites :: "contact_invite list"

record contact_match =
  mt_Hash :: string
  mt_UserID :: string
  mt_Username :: string

record user_ref =
  rf_UserID :: string
  rf_Username :: string

definition statusActive :: int where "statusActive = 0"

definition username_text :: "contacts_db \<Rightarrow> string \<Rightarrow> string" where
  "username_text db u = (case ct_Username db u of None \<Rightarrow> [] | Some n \<Rightarrow> n)"

definition MatchHashes :: "string list \<Rightarrow> contacts_db \<Rightarrow> contact_match list" where
  "MatchHashes hashes db =
     map (\<lambda>u. \<lparr>mt_Hash = us_PhoneHash u, mt_UserID = us_ID u, mt_Username = username_text db (us_ID u)\<rparr>)
       (filter (\<lambda>u. us_PhoneHash u \<in> set hashes \<and> us_Status u = statusActive) (ct_Users db))"

fun escapeLike :: "string \<Rightarrow> string" where
  "escapeLike [] = []"
| "escapeLike (c # cs) =
     (if c = CHR 0x5C \<or> c = CHR ''%'' \<or> c = CHR ''_'' then CHR 0x5C # c # escapeLike cs else c # escapeLike cs)"

text \<open>\<^verbatim>\<open>ILIKE ... ESCAPE\<close> and the order by similarity and collation belong to the database and are parameters.\<close>

definition SearchUsername ::
  "(string \<Rightarrow> string \<Rightarrow> bool) \<Rightarrow> (string \<Rightarrow> user_ref list \<Rightarrow> user_ref list) \<Rightarrow> string \<Rightarrow> nat \<Rightarrow> contacts_db \<Rightarrow> user_ref list" where
  "SearchUsername ilike ranked q limit db =
     (let pattern = ''%'' @ escapeLike q @ ''%'';
          hits = filter (\<lambda>u. us_Status u = statusActive \<and>
                   (case ct_Username db (us_ID u) of None \<Rightarrow> False | Some n \<Rightarrow> ilike n pattern)) (ct_Users db)
      in take limit (ranked q (map (\<lambda>u. \<lparr>rf_UserID = us_ID u, rf_Username = username_text db (us_ID u)\<rparr>) hits)))"

definition upsert_edge :: "contact_edge \<Rightarrow> contact_edge list \<Rightarrow> contact_edge list" where
  "upsert_edge x t = (if fst x \<in> fst ` set t then tbl_upd fst (fst x) (\<lambda>_. x) t else t @ [x])"

text \<open>
  One statement inserts all edges; it fails when a user is unknown, or when it would touch a row twice.
\<close>

definition UpsertMatched :: "string \<Rightarrow> (string \<times> string) list \<Rightarrow> contacts_db \<Rightarrow> contacts_db option" where
  "UpsertMatched owner edges db =
     (if edges = [] then Some db
      else if \<not> distinct (map fst edges) \<or> \<not> insert owner (snd ` set edges) \<subseteq> us_ID ` set (ct_Users db) then None
      else Some (db\<lparr>ct_Edges := fold (\<lambda>(h, u). upsert_edge ((owner, h), u)) edges (ct_Edges db)\<rparr>))"

datatype contacts_error = ErrContactNotFound | ErrContactStore

definition Favorites_Add :: "string \<Rightarrow> string \<Rightarrow> contacts_db \<Rightarrow> contacts_error + contacts_db" where
  "Favorites_Add owner target db =
     (if (owner, target) \<in> set (ct_Favorites db) then Inr db
      else if owner \<notin> us_ID ` set (ct_Users db) \<or> target \<notin> us_ID ` set (ct_Users db) then Inl ErrContactNotFound
      else Inr (db\<lparr>ct_Favorites := ct_Favorites db @ [(owner, target)]\<rparr>))"

definition Favorites_Remove :: "string \<Rightarrow> string \<Rightarrow> contacts_db \<Rightarrow> contacts_db" where
  "Favorites_Remove owner target db = db\<lparr>ct_Favorites := filter (\<lambda>r. r \<noteq> (owner, target)) (ct_Favorites db)\<rparr>"

definition Favorites_List :: "(user_ref list \<Rightarrow> user_ref list) \<Rightarrow> string \<Rightarrow> contacts_db \<Rightarrow> user_ref list" where
  "Favorites_List by_name owner db =
     by_name (map (\<lambda>r. \<lparr>rf_UserID = snd r, rf_Username = username_text db (snd r)\<rparr>)
       (filter (\<lambda>r. fst r = owner \<and> snd r \<in> us_ID ` set (ct_Users db)) (ct_Favorites db)))"

definition Invites_Create :: "contact_invite \<Rightarrow> contacts_db \<Rightarrow> contacts_db option" where
  "Invites_Create i db =
     (if iv_InviterID i \<notin> us_ID ` set (ct_Users db) then None
      else map_option (\<lambda>t. db\<lparr>ct_Invites := t\<rparr>) (tbl_ins iv_Token (i\<lparr>iv_RevokedAt := None\<rparr>) (ct_Invites db)))"

definition Invites_Get :: "string \<Rightarrow> contacts_db \<Rightarrow> contact_invite option" where
  "Invites_Get t db = tbl_get iv_Token t (ct_Invites db)"

definition Invites_Revoke :: "instant \<Rightarrow> string \<Rightarrow> string \<Rightarrow> contacts_db \<Rightarrow> contacts_db option" where
  "Invites_Revoke now inviter t db =
     (if \<exists>i \<in> set (ct_Invites db). iv_Token i = t \<and> iv_InviterID i = inviter
      then Some (db\<lparr>ct_Invites := map (\<lambda>i. if iv_Token i = t \<and> iv_InviterID i = inviter then i\<lparr>iv_RevokedAt := Some now\<rparr> else i)
                  (ct_Invites db)\<rparr>)
      else None)"

section \<open>The service\<close>

datatype contacts_call = CtSyncLimit | CtMatch | CtUpsert | CtSearchRate | CtSearch | CtFavAdd | CtFavRemove | CtFavList
  | CtInvCreate | CtInvGet | CtInvRevoke

text \<open>\<open>ctn_dbnow\<close> is the clock of the database, \<open>ctn_hash\<close> the hasher port.\<close>

record contacts_env =
  ctn_now :: instant
  ctn_dbnow :: instant
  ctn_fails :: "contacts_call \<Rightarrow> bool"
  ctn_token :: string
  ctn_hash :: "string \<Rightarrow> string"
  ctn_ilike :: "string \<Rightarrow> string \<Rightarrow> bool"
  ctn_ranked :: "string \<Rightarrow> user_ref list \<Rightarrow> user_ref list"
  ctn_byName :: "user_ref list \<Rightarrow> user_ref list"
  ctn_inviteBase :: string

type_synonym contacts_sys = "contacts_db \<times> valkey_limiter"

definition sync_limit :: "int \<Rightarrow> params" where
  "sync_limit limit = \<lparr>pm_Rate = round64 (of_int limit / 86400), pm_Burst = limit\<rparr>"

definition AllowDaily :: "contacts_env \<Rightarrow> string \<Rightarrow> int \<Rightarrow> valkey_limiter \<Rightarrow> bool option \<times> valkey_limiter" where
  "AllowDaily e key limit m =
     (case Valkey_Allow (ctn_fails e CtSyncLimit) (ctn_now e div Microsecond) key (sync_limit limit) m of
        (None, m1) \<Rightarrow> (None, m1)
      | (Some res, m1) \<Rightarrow> (Some (rl_Allowed res), m1))"

definition search_limit :: params where
  "search_limit = \<lparr>pm_Rate = 1, pm_Burst = 10\<rparr>"

definition SearchRate_Allow :: "contacts_env \<Rightarrow> string \<Rightarrow> valkey_limiter \<Rightarrow> bool option \<times> valkey_limiter" where
  "SearchRate_Allow e key m =
     (case Valkey_Allow (ctn_fails e CtSearchRate) (ctn_now e div Microsecond) key search_limit m of
        (None, m1) \<Rightarrow> (None, m1)
      | (Some res, m1) \<Rightarrow> (Some (rl_Allowed res), m1))"

text \<open>The map from hash to handle that the loop over the handles fills, in the order of the first occurrences.\<close>

fun collect_hashes :: "(string \<Rightarrow> string) \<Rightarrow> (string \<times> string) list \<Rightarrow> string list \<Rightarrow> (string \<times> string) list" where
  "collect_hashes hf acc [] = acc"
| "collect_hashes hf acc (h # hs) =
     (let (norm, valid) = NormalizeHandle h
      in if \<not> valid then collect_hashes hf acc hs
         else
           let ph = hf norm
           in if ph \<in> fst ` set acc then collect_hashes hf acc hs
              else collect_hashes hf (acc @ [(ph, norm)]) hs)"

record matched_contact =
  mc_Handle :: string
  mc_UserID :: string
  mc_Username :: string

definition Sync :: "contacts_env \<Rightarrow> string \<Rightarrow> string list \<Rightarrow> contacts_sys \<Rightarrow> matched_contact list result \<times> contacts_sys" where
  "Sync e u handles s =
     (let (db, m) = s in
      if handles = [] then (Inl (Reject 400 ''VALIDATION_EMPTY''), s)
      else if length handles > MaxSyncHandles then (Inl (Reject 413 ''VALIDATION_TOO_MANY''), s)
      else case AllowDaily e (''contact-sync:'' @ u) SyncDailyLimit m of
        (None, m1) \<Rightarrow> (Inl Transient, db, m1)
      | (Some ok, m1) \<Rightarrow>
          if \<not> ok then (Inl (Reject 429 ''RATE_LIMITED''), db, m1)
          else
            let byHash = collect_hashes (ctn_hash e) [] handles
            in if ctn_fails e CtMatch \<and> byHash \<noteq> [] then (Inl Transient, db, m1)
               else
                 let ms = MatchHashes (map fst byHash) db;
                     edges = map (\<lambda>x. (mt_Hash x, mt_UserID x)) ms;
                     out = map (\<lambda>x. \<lparr>mc_Handle = (case map_of byHash (mt_Hash x) of None \<Rightarrow> [] | Some h \<Rightarrow> h),
                                     mc_UserID = mt_UserID x, mc_Username = mt_Username x\<rparr>) ms;
                     db1 = (if edges = [] \<or> ctn_fails e CtUpsert then db
                            else case UpsertMatched u edges db of None \<Rightarrow> db | Some d \<Rightarrow> d)
                 in (Inr out, db1, m1))"

definition Contacts_Search :: "contacts_env \<Rightarrow> string \<Rightarrow> string \<Rightarrow> contacts_sys \<Rightarrow> user_ref list result \<times> contacts_sys" where
  "Contacts_Search e u query s =
     (let (db, m) = s; (norm, ok) = NormalizeQuery query in
      if \<not> ok then (Inl (Reject 400 ''VALIDATION_QUERY''), s)
      else case SearchRate_Allow e (''contact-search:'' @ u) m of
        (None, m1) \<Rightarrow> (Inl Transient, db, m1)
      | (Some ok1, m1) \<Rightarrow>
          if \<not> ok1 then (Inl (Reject 429 ''RATE_LIMITED''), db, m1)
          else if ctn_fails e CtSearch then (Inl Transient, db, m1)
          else (Inr (filter (\<lambda>r. rf_UserID r \<noteq> u) (SearchUsername (ctn_ilike e) (ctn_ranked e) norm MaxSearchResults db)), db, m1))"

definition AddFavorite :: "contacts_env \<Rightarrow> string \<Rightarrow> string \<Rightarrow> contacts_db \<Rightarrow> unit result \<times> contacts_db" where
  "AddFavorite e u target db =
     (if target = [] \<or> target = u then (Inl (Reject 400 ''VALIDATION_TARGET''), db)
      else if ctn_fails e CtFavAdd then (Inl Transient, db)
      else case Favorites_Add u target db of
        Inl ErrContactNotFound \<Rightarrow> (Inl (Reject 404 ''USER_NOT_FOUND''), db)
      | Inl ErrContactStore \<Rightarrow> (Inl Transient, db)
      | Inr db1 \<Rightarrow> (Inr (), db1))"

definition RemoveFavorite :: "contacts_env \<Rightarrow> string \<Rightarrow> string \<Rightarrow> contacts_db \<Rightarrow> unit result \<times> contacts_db" where
  "RemoveFavorite e u target db =
     (if ctn_fails e CtFavRemove then (Inl Transient, db) else (Inr (), Favorites_Remove u target db))"

definition ListFavorites :: "contacts_env \<Rightarrow> string \<Rightarrow> contacts_db \<Rightarrow> user_ref list result" where
  "ListFavorites e u db = (if ctn_fails e CtFavList then Inl Transient else Inr (Favorites_List (ctn_byName e) u db))"

record invite_link_view =
  il_Token :: string
  il_URL :: string
  il_ExpiresAt :: int
  il_MaxUses :: int

definition CreateContactInvite :: "contacts_env \<Rightarrow> string \<Rightarrow> contacts_db \<Rightarrow> invite_link_view result \<times> contacts_db" where
  "CreateContactInvite e u db =
     (let inv = \<lparr>iv_Token = ctn_token e, iv_InviterID = u, iv_ExpiresAt = ctn_now e + InviteTTL,
                 iv_MaxUses = DefaultInviteMaxUses, iv_Uses = 0, iv_RevokedAt = None\<rparr>
      in if ctn_fails e CtInvCreate then (Inl Transient, db)
         else case Invites_Create inv db of
           None \<Rightarrow> (Inl Transient, db)
         | Some db1 \<Rightarrow>
             (Inr \<lparr>il_Token = iv_Token inv, il_URL = ctn_inviteBase e @ ''/i/'' @ iv_Token inv,
                   il_ExpiresAt = iv_ExpiresAt inv div Millisecond, il_MaxUses = iv_MaxUses inv\<rparr>, db1))"

record invite_info =
  ii_InviterID :: string
  ii_ExpiresAt :: int
  ii_Uses :: int
  ii_MaxUses :: int

definition ResolveInvite :: "contacts_env \<Rightarrow> string \<Rightarrow> contacts_db \<Rightarrow> invite_info result" where
  "ResolveInvite e t db =
     (if ctn_fails e CtInvGet then Inl Transient
      else case Invites_Get t db of
        None \<Rightarrow> Inl (Reject 404 ''INVITE_NOT_FOUND'')
      | Some i \<Rightarrow>
          if \<not> Invite_Valid i (ctn_now e) then Inl (Reject 410 ''INVITE_EXPIRED'')
          else Inr \<lparr>ii_InviterID = iv_InviterID i, ii_ExpiresAt = iv_ExpiresAt i div Millisecond,
                    ii_Uses = iv_Uses i, ii_MaxUses = iv_MaxUses i\<rparr>)"

definition RevokeContactInvite :: "contacts_env \<Rightarrow> string \<Rightarrow> string \<Rightarrow> contacts_db \<Rightarrow> unit result \<times> contacts_db" where
  "RevokeContactInvite e u t db =
     (if ctn_fails e CtInvRevoke then (Inl Transient, db)
      else case Invites_Revoke (ctn_dbnow e) u t db of
        None \<Rightarrow> (Inl (Reject 404 ''INVITE_NOT_FOUND''), db)
      | Some db1 \<Rightarrow> (Inr (), db1))"

section \<open>Sequences of requests\<close>

datatype contacts_req =
    CqSync string "string list"
  | CqSearch string string
  | CqAddFav string string
  | CqRemoveFav string string
  | CqInvite string
  | CqRevoke string string

fun contacts_step :: "contacts_sys \<Rightarrow> contacts_env \<times> contacts_req \<Rightarrow> contacts_sys" where
  "contacts_step s (e, CqSync u hs) = snd (Sync e u hs s)"
| "contacts_step s (e, CqSearch u q) = snd (Contacts_Search e u q s)"
| "contacts_step (db, m) (e, CqAddFav u t) = (snd (AddFavorite e u t db), m)"
| "contacts_step (db, m) (e, CqRemoveFav u t) = (snd (RemoveFavorite e u t db), m)"
| "contacts_step (db, m) (e, CqInvite u) = (snd (CreateContactInvite e u db), m)"
| "contacts_step (db, m) (e, CqRevoke u t) = (snd (RevokeContactInvite e u t db), m)"

end
