(* ===== verification/ContactProps.thy ===== *)
theory ContactProps
  imports Contacts
begin

text \<open>Discovery of contacts is exact and stores hashes only; the use count of invite links is never advanced.\<close>

section \<open>Discovery\<close>

definition submitted :: "string list \<Rightarrow> string set" where
  "submitted handles = {n. \<exists>h \<in> set handles. n = TrimSpace h \<and> match_e164 n}"

lemma submitted_simps [simp]:
  "submitted [] = {}"
  "submitted (h # hs) = (if match_e164 (TrimSpace h) then {TrimSpace h} else {}) \<union> submitted hs"
  by (auto simp: submitted_def)

lemma collect_distinct: "distinct (map fst acc) \<Longrightarrow> distinct (map fst (collect_hashes hf acc hs))"
  by (induction hf acc hs rule: collect_hashes.induct) (auto simp: Let_def NormalizeHandle_def split: prod.splits)

lemma collect_hashes_fst: "fst ` set (collect_hashes hf acc hs) = fst ` set acc \<union> hf ` submitted hs"
  by (induction hs arbitrary: acc) (auto simp: Let_def NormalizeHandle_def)

lemma collect_hashes_mem:
  "(ph, n) \<in> set (collect_hashes hf acc hs) \<Longrightarrow> (ph, n) \<in> set acc \<or> (ph = hf n \<and> n \<in> submitted hs)"
proof (induction hs arbitrary: acc)
  case (Cons h hs)
  show ?case
  proof (cases "match_e164 (TrimSpace h) \<and> hf (TrimSpace h) \<notin> fst ` set acc")
    case True
    then have "(ph, n) \<in> set (collect_hashes hf (acc @ [(hf (TrimSpace h), TrimSpace h)]) hs)"
      using Cons.prems by (simp add: Let_def NormalizeHandle_def)
    then show ?thesis using Cons.IH True by fastforce
  next
    case False
    then have "(ph, n) \<in> set (collect_hashes hf acc hs)"
      using Cons.prems by (auto simp: Let_def NormalizeHandle_def split: if_splits)
    then show ?thesis using Cons.IH by fastforce
  qed
qed simp

lemma map_of_upsert: "map_of (upsert_edge x t) k = (if k = fst x then Some (snd x) else map_of t k)"
proof -
  have "map_of (tbl_upd fst (fst x) (\<lambda>_. x) t) k = (if k = fst x \<and> k \<in> fst ` set t then Some (snd x) else map_of t k)"
    by (induction t) (force simp: tbl_upd_def)+
  moreover have "map_of (t @ [x]) k = (if k = fst x then Some (snd x) else map_of t k)" if "fst x \<notin> fst ` set t"
  proof -
    have "map_of t (fst x) = None" using that by (simp add: map_of_eq_None_iff)
    then show ?thesis by (cases x) (auto simp: map_add_def split: option.splits)
  qed
  ultimately show ?thesis unfolding upsert_edge_def by (cases "fst x \<in> fst ` set t") (auto simp del: map_of_append)
qed

lemma map_of_upserts:
  "distinct (map fst xs) \<Longrightarrow> map_of (fold (\<lambda>(h, u). upsert_edge ((owner, h), u)) xs t) (w, h) =
     (case (if w = owner then map_of xs h else None) of None \<Rightarrow> map_of t (w, h) | Some u \<Rightarrow> Some u)"
  by (induction xs arbitrary: t) (auto simp: map_of_upsert map_of_eq_None_iff image_iff split: option.splits)

text \<open>The registered active users whose phone number is among the submitted ones.\<close>

definition reachable_users :: "contacts_env \<Rightarrow> string list \<Rightarrow> contacts_db \<Rightarrow> user_row list" where
  "reachable_users e handles db =
     filter (\<lambda>x. us_PhoneHash x \<in> ctn_hash e ` submitted handles \<and> us_Status x = 0) (ct_Users db)"

lemma sync_done:
  assumes "Sync e u handles (db, m) = (Inr out, db', m')"
  obtains byHash where "byHash = collect_hashes (ctn_hash e) [] handles"
    "out = map (\<lambda>x. \<lparr>mc_Handle = (case map_of byHash (us_PhoneHash x) of None \<Rightarrow> [] | Some h \<Rightarrow> h),
              mc_UserID = us_ID x, mc_Username = username_text db (us_ID x)\<rparr>) (reachable_users e handles db)"
    "db' = db \<or> UpsertMatched u (map (\<lambda>x. (us_PhoneHash x, us_ID x)) (reachable_users e handles db)) db = Some db'"
    "\<not> ctn_fails e CtUpsert \<Longrightarrow> u \<in> us_ID ` set (ct_Users db) \<Longrightarrow> tbl_wf us_PhoneHash (ct_Users db) \<Longrightarrow>
      UpsertMatched u (map (\<lambda>x. (us_PhoneHash x, us_ID x)) (reachable_users e handles db)) db = Some db'"
proof -
  let ?b = "collect_hashes (ctn_hash e) [] handles"
  let ?e = "map (\<lambda>x. (us_PhoneHash x, us_ID x)) (reachable_users e handles db)"
  have m: "MatchHashes (map fst ?b) db = map (\<lambda>x. \<lparr>mt_Hash = us_PhoneHash x, mt_UserID = us_ID x, mt_Username = username_text db (us_ID x)\<rparr>)
      (reachable_users e handles db)"
    using collect_hashes_fst [of "ctn_hash e" "[]" handles] by (simp add: MatchHashes_def reachable_users_def statusActive_def)
  have o: "out = map (\<lambda>x. \<lparr>mc_Handle = (case map_of ?b (us_PhoneHash x) of None \<Rightarrow> [] | Some h \<Rightarrow> h),
              mc_UserID = us_ID x, mc_Username = username_text db (us_ID x)\<rparr>) (reachable_users e handles db)"
    and d: "db' = (if ?e = [] \<or> ctn_fails e CtUpsert then db else case UpsertMatched u ?e db of None \<Rightarrow> db | Some d \<Rightarrow> d)"
    using assms unfolding Sync_def Let_def prod.case m map_map comp_def contact_match.simps
    by (auto split: if_splits prod.splits option.splits)
  have "db' = db \<or> UpsertMatched u ?e db = Some db'" unfolding d by (auto split: option.splits)
  moreover have "UpsertMatched u ?e db = Some db'"
    if "\<not> ctn_fails e CtUpsert" "u \<in> us_ID ` set (ct_Users db)" "tbl_wf us_PhoneHash (ct_Users db)"
  proof -
    have "distinct (map fst ?e)" using that(3) by (simp add: tbl_wf_def comp_def reachable_users_def distinct_map_filter)
    moreover have "snd ` set ?e \<subseteq> us_ID ` set (ct_Users db)" by (auto simp: reachable_users_def)
    ultimately show ?thesis using that unfolding d by (auto simp: UpsertMatched_def)
  qed
  ultimately show ?thesis using that o by blast
qed

text \<open>
C32. Contact discovery is exact: a sync that succeeds returns each active registered user whose phone number is among the
submitted handles, once and no one else, with a submitted handle that hashes to that user's number; the table of contacts
changes at the caller's rows only, every row it gains is keyed by the hash of a registered user's number, and when the
write is not lost all of the matches are on file.
\<close>

theorem contact_sync_exact:
  assumes "Sync e u handles (db, m) = (Inr out, db', m')" "tbl_wf us_PhoneHash (ct_Users db)"
  shows "map mc_UserID out = map us_ID (filter (\<lambda>x. us_PhoneHash x \<in> ctn_hash e ` submitted handles \<and> us_Status x = 0) (ct_Users db)) \<and>
    (\<forall>c \<in> set out. mc_Handle c \<in> submitted handles \<and>
       (\<exists>x \<in> set (ct_Users db). us_ID x = mc_UserID c \<and> us_PhoneHash x = ctn_hash e (mc_Handle c))) \<and>
    (\<forall>w h. map_of (ct_Edges db') (w, h) \<noteq> map_of (ct_Edges db) (w, h) \<longrightarrow>
       w = u \<and> (\<exists>x \<in> set (ct_Users db). us_PhoneHash x = h \<and> map_of (ct_Edges db') (w, h) = Some (us_ID x))) \<and>
    (\<not> ctn_fails e CtUpsert \<and> u \<in> us_ID ` set (ct_Users db) \<longrightarrow>
       (\<forall>c \<in> set out. map_of (ct_Edges db') (u, ctn_hash e (mc_Handle c)) = Some (mc_UserID c)))"
proof -
  obtain b where b: "b = collect_hashes (ctn_hash e) [] handles"
    and out: "out = map (\<lambda>x. \<lparr>mc_Handle = (case map_of b (us_PhoneHash x) of None \<Rightarrow> [] | Some h \<Rightarrow> h),
              mc_UserID = us_ID x, mc_Username = username_text db (us_ID x)\<rparr>) (reachable_users e handles db)"
    and db': "db' = db \<or> UpsertMatched u (map (\<lambda>x. (us_PhoneHash x, us_ID x)) (reachable_users e handles db)) db = Some db'"
      "\<not> ctn_fails e CtUpsert \<Longrightarrow> u \<in> us_ID ` set (ct_Users db) \<Longrightarrow>
        UpsertMatched u (map (\<lambda>x. (us_PhoneHash x, us_ID x)) (reachable_users e handles db)) db = Some db'"
    by (rule sync_done [OF assms(1)]) (use assms(2) in blast)
  let ?e = "map (\<lambda>x. (us_PhoneHash x, us_ID x)) (reachable_users e handles db)"
  have d: "distinct (map fst ?e)" using assms(2) by (simp add: tbl_wf_def comp_def reachable_users_def distinct_map_filter)
  have handle: "\<exists>n. map_of b (us_PhoneHash x) = Some n \<and> us_PhoneHash x = ctn_hash e n \<and> n \<in> submitted handles"
    if "x \<in> set (reachable_users e handles db)" for x
  proof -
    have "us_PhoneHash x \<in> fst ` set b" using that collect_hashes_fst [of "ctn_hash e" "[]" handles] by (auto simp: b reachable_users_def)
    then obtain n where n: "map_of b (us_PhoneHash x) = Some n" by (metis not_None_eq map_of_eq_None_iff)
    then show ?thesis using collect_hashes_mem [of "us_PhoneHash x" n "ctn_hash e" "[]" handles] by (auto simp: b dest: map_of_SomeD)
  qed
  have edges: "map_of (ct_Edges d') (w, h) = (case (if w = u then map_of ?e h else None) of None \<Rightarrow> map_of (ct_Edges db) (w, h) | Some v \<Rightarrow> Some v)"
    if "UpsertMatched u ?e db = Some d'" for d' w h
    using that map_of_upserts [OF d] by (auto simp: UpsertMatched_def split: if_splits)
  have "map mc_UserID out = map us_ID (reachable_users e handles db)" by (simp add: out comp_def)
  moreover have "mc_Handle c \<in> submitted handles \<and> (\<exists>x \<in> set (ct_Users db). us_ID x = mc_UserID c \<and> us_PhoneHash x = ctn_hash e (mc_Handle c))"
    if "c \<in> set out" for c
    using that handle by (fastforce simp: out reachable_users_def)
  moreover have "w = u \<and> (\<exists>x \<in> set (ct_Users db). us_PhoneHash x = h \<and> map_of (ct_Edges db') (w, h) = Some (us_ID x))"
    if "map_of (ct_Edges db') (w, h) \<noteq> map_of (ct_Edges db) (w, h)" for w h
  proof -
    have "UpsertMatched u ?e db = Some db'" using that db'(1) by blast
    note eq = edges [OF this, of w h]
    with that have w: "w = u" "map_of ?e h \<noteq> None" by (auto split: if_splits option.splits)
    then obtain v where v: "map_of ?e h = Some v" by blast
    then have "(h, v) \<in> set ?e" by (rule map_of_SomeD)
    then show ?thesis using eq w v by (auto simp: reachable_users_def)
  qed
  moreover have "map_of (ct_Edges db') (u, ctn_hash e (mc_Handle c)) = Some (mc_UserID c)"
    if ok: "\<not> ctn_fails e CtUpsert" "u \<in> us_ID ` set (ct_Users db)" "c \<in> set out" for c
  proof -
    obtain x where x: "x \<in> set (reachable_users e handles db)" "mc_UserID c = us_ID x" "us_PhoneHash x = ctn_hash e (mc_Handle c)"
      using ok(3) handle by (fastforce simp: out)
    then have "(ctn_hash e (mc_Handle c), mc_UserID c) \<in> set ?e" by force
    then have "map_of ?e (ctn_hash e (mc_Handle c)) = Some (mc_UserID c)" using d by (rule map_of_is_SomeI [rotated])
    then show ?thesis using edges [OF db'(2) [OF ok(1,2)]] by simp
  qed
  ultimately show ?thesis unfolding reachable_users_def by blast
qed

definition ct_demo :: contacts_db where
  "ct_demo = \<lparr>ct_Users = [\<lparr>us_ID = ''ann'', us_PhoneHash = ''+15550001'', us_PINHash = [], us_Status = 0, us_Deleted = False\<rparr>,
       \<lparr>us_ID = ''bob'', us_PhoneHash = ''+15550002'', us_PINHash = [], us_Status = 0, us_Deleted = False\<rparr>,
       \<lparr>us_ID = ''eve'', us_PhoneHash = ''+15550003'', us_PINHash = [], us_Status = 1, us_Deleted = False\<rparr>],
     ct_Username = (\<lambda>_. None), ct_Edges = [], ct_Favorites = [], ct_Invites = []\<rparr>"

definition midnight_env :: "int \<Rightarrow> contacts_env" where
  "midnight_env h = \<lparr>ctn_now = h * Hour, ctn_dbnow = 0, ctn_fails = (\<lambda>_. False), ctn_token = [], ctn_hash = (\<lambda>s. s), ctn_ilike = (\<lambda>_ _. False),
     ctn_ranked = (\<lambda>_ rs. rs), ctn_byName = (\<lambda>rs. rs), ctn_inviteBase = []\<rparr>"

lemma sync_limit_emission: "emission (sync_limit 4) = 21600000000000 \<and> Params_Validate (sync_limit 4)"
  by code_simp

lemmas daily_limit_eval = AllowDaily_def Valkey_Allow_def luaGCRA_def sync_limit_emission tolerance_def midnight_env_def time_units
  Microsecond_def vk_get_def Let_def sync_limit_def [THEN arg_cong, of pm_Burst] ceiling_divide_eq_div

lemma ct_trim: "TrimSpace ''+15550002'' = ''+15550002''" "TrimSpace ''+15550003'' = ''+15550003''" "TrimSpace ''bob'' = ''bob''"
  by (simp_all add: TrimSpace_plain plain_def)

lemma contact_sync_exact_witness:
  "let (r, db, _) = Sync (midnight_env 1) ''ann'' [''+15550002'', ''bob'', ''+15550003''] (ct_demo, Map.empty)
   in r = Inr [\<lparr>mc_Handle = ''+15550002'', mc_UserID = ''bob'', mc_Username = []\<rparr>] \<and>
      map_of (ct_Edges db) (''ann'', ''+15550002'') = Some ''bob''"
proof -
  let ?hs = "[''+15550002'', ''bob'', ''+15550003'']"
  have ok: "tbl_wf us_PhoneHash (ct_Users ct_demo)" by (simp add: ct_demo_def tbl_wf_def)
  have valid: "match_e164 ''+15550002''" "match_e164 ''+15550003''" "\<not> match_e164 ''bob''" by code_simp+
  have lim: "AllowDaily (midnight_env 1) (''contact-sync:ann'') SyncDailyLimit Map.empty =
      (Some True, snd (AllowDaily (midnight_env 1) (''contact-sync:ann'') SyncDailyLimit Map.empty))"
    unfolding SyncDailyLimit_def by (simp add: daily_limit_eval)
  have r: "fst (Sync (midnight_env 1) ''ann'' ?hs (ct_demo, Map.empty)) =
      Inr [\<lparr>mc_Handle = ''+15550002'', mc_UserID = ''bob'', mc_Username = []\<rparr>]"
    using lim by (auto simp: Sync_def MaxSyncHandles_def NormalizeHandle_def ct_trim valid MatchHashes_def ct_demo_def statusActive_def
        username_text_def midnight_env_def Let_def split: prod.splits)
  obtain db' m' where s: "Sync (midnight_env 1) ''ann'' ?hs (ct_demo, Map.empty) =
      (Inr [\<lparr>mc_Handle = ''+15550002'', mc_UserID = ''bob'', mc_Username = []\<rparr>], db', m')"
    using r by (metis prod.collapse)
  have "map_of (ct_Edges db') (''ann'', ''+15550002'') = Some ''bob''"
    using contact_sync_exact [OF s ok] by (simp add: midnight_env_def ct_demo_def)
  then show ?thesis by (simp add: s)
qed

section \<open>Invite links\<close>

definition uses_zero :: "contacts_sys \<Rightarrow> bool" where
  "uses_zero s \<longleftrightarrow> (\<forall>i \<in> set (ct_Invites (fst s)). iv_Uses i = 0 \<and> iv_MaxUses i = 100)"

lemma uses_zero_step: "uses_zero s \<Longrightarrow> uses_zero (contacts_step s x)"
proof -
  assume z: "uses_zero s"
  obtain db m where s: "s = (db, m)" by fastforce
  obtain e r where x: "x = (e, r)" by fastforce
  have up: "ct_Invites d = ct_Invites db" if "UpsertMatched u es db = Some d" for u es d
    using that by (auto simp: UpsertMatched_def split: if_splits)
  show ?thesis
  proof (cases r)
    case (CqSync u hs)
    then show ?thesis using z up by (auto simp: s x uses_zero_def Sync_def Let_def split: prod.splits option.splits)
  next
    case (CqSearch u q)
    then show ?thesis using z by (auto simp: s x uses_zero_def Contacts_Search_def Let_def split: prod.splits option.splits)
  next
    case (CqAddFav u t)
    then show ?thesis using z
      by (auto simp: s x uses_zero_def AddFavorite_def Favorites_Add_def split: sum.splits contacts_error.splits if_splits)
  next
    case (CqRemoveFav u t)
    then show ?thesis using z by (auto simp: s x uses_zero_def RemoveFavorite_def Favorites_Remove_def)
  next
    case (CqInvite u)
    then show ?thesis using z
      by (auto simp: s x uses_zero_def CreateContactInvite_def Invites_Create_def tbl_ins_def Let_def DefaultInviteMaxUses_def
          split: option.splits if_splits)
  next
    case (CqRevoke u t)
    then show ?thesis using z
      by (auto simp: s x uses_zero_def RevokeContactInvite_def Invites_Revoke_def split: option.splits if_splits)
  qed
qed

interpretation invite_uses: invariant_system contacts_step uses_zero
  by unfold_locales (rule uses_zero_step)

text \<open>No request counts a use, so the limit of 100 uses never ends an invite.\<close>

lemma invite_uses_never_counted:
  assumes "ct_Invites (fst s) = []" "Invites_Get t (fst (run contacts_step s ops)) = Some i"
  shows "iv_Uses i = 0 \<and> (Invite_Valid i now \<longleftrightarrow> iv_RevokedAt i = None \<and> now < iv_ExpiresAt i)"
proof -
  have "uses_zero (run contacts_step s ops)"
    by (rule invite_uses.keep_run) (simp add: uses_zero_def assms(1))
  moreover have "i \<in> set (ct_Invites (fst (run contacts_step s ops)))"
    using assms(2) tbl_get_Some unfolding Invites_Get_def by fast
  ultimately have "iv_Uses i = 0 \<and> iv_MaxUses i = 100" unfolding uses_zero_def by blast
  then show ?thesis by (simp add: Invite_Valid_def)
qed

section \<open>The daily limit\<close>

fun daily_answers :: "valkey_limiter \<Rightarrow> int list \<Rightarrow> bool option list" where
  "daily_answers m [] = []"
| "daily_answers m (h # hs) = (case AllowDaily (midnight_env h) ''k'' 4 m of (r, m1) \<Rightarrow> r # daily_answers m1 hs)"

text \<open>Seven syncs go through within eighteen hours: four at once, then one every six hours.\<close>

lemma seven_syncs_in_a_day:
  "daily_answers Map.empty [1, 1, 1, 1, 7, 13, 19] = replicate 7 (Some True)"
  by (simp add: daily_limit_eval numeral_eq_Suc)

end
