(* ===== verification/Stories.thy ===== *)
theory Stories
  imports Contacts
begin

text \<open>
  Stories (\<^verbatim>\<open>stories/\<close>): status posts with an audience frozen at the time of the post, a life of 24 hours, and view
  receipts. The default audience is read from the contacts of \<open>Contacts\<close>.
\<close>

section \<open>Domain\<close>

definition Story_TTL :: duration where "Story_TTL = 24 * Hour"

type_synonym story_kind = int

definition StoryKindImage :: story_kind where "StoryKindImage = 0"
definition StoryKindVideo :: story_kind where "StoryKindVideo = 1"
definition StoryKindText :: story_kind where "StoryKindText = 2"

datatype story_error = ErrBadKind | ErrMediaMissing | ErrMediaOnText | ErrNoAudience

definition ParseKind :: "string \<Rightarrow> story_kind option" where
  "ParseKind s =
     (if s = ''image'' then Some StoryKindImage else if s = ''video'' then Some StoryKindVideo else if s = ''text'' then Some StoryKindText else None)"

definition StoryKind_String :: "story_kind \<Rightarrow> string" where
  "StoryKind_String k =
     (if k = StoryKindImage then ''image'' else if k = StoryKindVideo then ''video'' else if k = StoryKindText then ''text'' else ''unknown'')"

definition needsMedia :: "story_kind \<Rightarrow> bool" where
  "needsMedia k \<longleftrightarrow> k = StoryKindImage \<or> k = StoryKindVideo"

definition Story_ValidateCreate :: "story_kind \<Rightarrow> bool \<Rightarrow> nat \<Rightarrow> story_error option" where
  "Story_ValidateCreate kind hasMediaRef audienceSize =
     (if kind \<noteq> StoryKindImage \<and> kind \<noteq> StoryKindVideo \<and> kind \<noteq> StoryKindText then Some ErrBadKind
      else if needsMedia kind \<and> \<not> hasMediaRef then Some ErrMediaMissing
      else if \<not> needsMedia kind \<and> hasMediaRef then Some ErrMediaOnText
      else if audienceSize = 0 then Some ErrNoAudience
      else None)"

definition ExpiryFrom :: "instant \<Rightarrow> instant" where
  "ExpiryFrom now = now + Story_TTL"

definition audience_add :: "string \<Rightarrow> string list \<Rightarrow> string list" where
  "audience_add i out = (if i = [] \<or> i \<in> set out then out else out @ [i])"

definition Audience :: "string \<Rightarrow> string list option \<Rightarrow> string list \<Rightarrow> string list" where
  "Audience author override contacts =
     fold audience_add (case override of None \<Rightarrow> contacts | Some xs \<Rightarrow> xs) (audience_add author [])"

section \<open>The store\<close>

record story =
  st_ID :: string
  st_AuthorID :: string
  st_Kind :: story_kind
  st_MediaRef :: "string option"
  st_Audience :: "string list"
  st_ExpiresAt :: instant
  st_CreatedAt :: instant

text \<open>A row of \<^verbatim>\<open>story_views\<close>: story and viewer, which are its key, and the time of the view.\<close>

type_synonym view_row = "(string \<times> string) \<times> instant"

record stories_db =
  sd_Stories :: "story list"
  sd_Views :: "view_row list"

definition empty_stories :: stories_db where
  "empty_stories = \<lparr>sd_Stories = [], sd_Views = []\<rparr>"

definition Story_Create :: "story \<Rightarrow> stories_db \<Rightarrow> stories_db option" where
  "Story_Create st db = map_option (\<lambda>t. db\<lparr>sd_Stories := t\<rparr>) (tbl_ins st_ID st (sd_Stories db))"

definition Story_Get :: "string \<Rightarrow> stories_db \<Rightarrow> story option" where
  "Story_Get i db = tbl_get st_ID i (sd_Stories db)"

definition Store_Feed :: "string \<Rightarrow> instant \<Rightarrow> stories_db \<Rightarrow> story list" where
  "Store_Feed viewer now db =
     sort_key (\<lambda>st. - st_CreatedAt st) (filter (\<lambda>st. viewer \<in> set (st_Audience st) \<and> st_ExpiresAt st > now) (sd_Stories db))"

definition RecordStoryView :: "instant \<Rightarrow> string \<Rightarrow> string \<Rightarrow> stories_db \<Rightarrow> stories_db option" where
  "RecordStoryView now i viewer db =
     (if i \<notin> st_ID ` set (sd_Stories db) then None
      else if (i, viewer) \<in> fst ` set (sd_Views db) then Some db
      else Some (db\<lparr>sd_Views := sd_Views db @ [((i, viewer), now)]\<rparr>))"

definition Store_Viewers :: "string \<Rightarrow> stories_db \<Rightarrow> (string \<times> int) list" where
  "Store_Viewers i db =
     map (\<lambda>r. (snd (fst r), snd r div Millisecond)) (sort_key snd (filter (\<lambda>r. fst (fst r) = i) (sd_Views db)))"

text \<open>A \<^verbatim>\<open>DELETE\<close> of stories takes their views with it.\<close>

definition delete_stories :: "(story \<Rightarrow> bool) \<Rightarrow> stories_db \<Rightarrow> stories_db" where
  "delete_stories doomed db =
     \<lparr>sd_Stories = filter (\<lambda>st. \<not> doomed st) (sd_Stories db),
      sd_Views = filter (\<lambda>r. \<exists>st \<in> set (sd_Stories db). \<not> doomed st \<and> st_ID st = fst (fst r)) (sd_Views db)\<rparr>"

definition Story_Delete :: "string \<Rightarrow> stories_db \<Rightarrow> stories_db" where
  "Story_Delete i db = delete_stories (\<lambda>st. st_ID st = i) db"

definition Story_PurgeExpired :: "instant \<Rightarrow> stories_db \<Rightarrow> nat \<times> stories_db" where
  "Story_PurgeExpired now db =
     (length (filter (\<lambda>st. st_ExpiresAt st < now) (sd_Stories db)), delete_stories (\<lambda>st. st_ExpiresAt st < now) db)"

definition ContactsOf :: "string \<Rightarrow> contacts_db \<Rightarrow> string list" where
  "ContactsOf author db = remdups (map snd (filter (\<lambda>r. fst (fst r) = author) (ct_Edges db)))"

section \<open>The service\<close>

datatype stories_call = SyContacts | SyCreate | SyFeed | SyGet | SyView | SyViewers | SyDelete | SyPurge

record stories_env =
  sye_now :: instant
  sye_dbnow :: instant
  sye_fails :: "stories_call \<Rightarrow> bool"
  sye_id :: string

definition story_notFound :: api_error where "story_notFound = Reject 404 ''STORY_NOT_FOUND''"

fun story_validationError :: "story_error \<Rightarrow> api_error" where
  "story_validationError ErrMediaMissing = Reject 400 ''VALIDATION_MEDIA''"
| "story_validationError ErrMediaOnText = Reject 400 ''VALIDATION_MEDIA''"
| "story_validationError ErrNoAudience = Reject 400 ''VALIDATION_AUDIENCE''"
| "story_validationError ErrBadKind = Reject 400 ''VALIDATION_KIND''"

definition Story_Post ::
  "stories_env \<Rightarrow> contacts_db \<Rightarrow> string \<Rightarrow> string \<Rightarrow> string option \<Rightarrow> string list option \<Rightarrow> stories_db \<Rightarrow>
     (string \<times> int) result \<times> stories_db" where
  "Story_Post e cdb u kindStr mediaRef override db =
     (case ParseKind kindStr of
        None \<Rightarrow> (Inl (Reject 400 ''VALIDATION_KIND''), db)
      | Some kind \<Rightarrow>
          if override = None \<and> sye_fails e SyContacts then (Inl Transient, db)
          else
            let aud = (case override of Some xs \<Rightarrow> Audience u (Some xs) [] | None \<Rightarrow> Audience u None (ContactsOf u cdb))
            in case Story_ValidateCreate kind (mediaRef \<noteq> None) (length aud) of
                 Some err \<Rightarrow> (Inl (story_validationError err), db)
               | None \<Rightarrow>
                   let st = \<lparr>st_ID = sye_id e, st_AuthorID = u, st_Kind = kind, st_MediaRef = mediaRef, st_Audience = aud,
                             st_ExpiresAt = ExpiryFrom (sye_now e), st_CreatedAt = sye_now e\<rparr>
                   in if sye_fails e SyCreate then (Inl Transient, db)
                      else case Story_Create st db of
                        None \<Rightarrow> (Inl Transient, db)
                      | Some db1 \<Rightarrow> (Inr (st_ID st, st_ExpiresAt st div Millisecond), db1))"

record feed_item =
  fi_StoryID :: string
  fi_Author :: string
  fi_Kind :: string
  fi_MediaRef :: string
  fi_ExpiresAt :: int
  fi_CreatedAt :: int
  fi_KeyAvailable :: bool

definition feed_item_of :: "story \<Rightarrow> feed_item" where
  "feed_item_of st =
     \<lparr>fi_StoryID = st_ID st, fi_Author = st_AuthorID st, fi_Kind = StoryKind_String (st_Kind st),
      fi_MediaRef = (case st_MediaRef st of None \<Rightarrow> [] | Some r \<Rightarrow> r), fi_ExpiresAt = st_ExpiresAt st div Millisecond,
      fi_CreatedAt = st_CreatedAt st div Millisecond, fi_KeyAvailable = (st_MediaRef st \<noteq> None)\<rparr>"

definition Story_Feed :: "stories_env \<Rightarrow> string \<Rightarrow> stories_db \<Rightarrow> feed_item list result" where
  "Story_Feed e u db =
     (if sye_fails e SyFeed then Inl Transient else Inr (map feed_item_of (Store_Feed u (sye_now e) db)))"

definition load_story :: "stories_env \<Rightarrow> string \<Rightarrow> stories_db \<Rightarrow> story result" where
  "load_story e i db =
     (if sye_fails e SyGet then Inl Transient
      else case Story_Get i db of None \<Rightarrow> Inl story_notFound | Some st \<Rightarrow> Inr st)"

definition Story_View :: "stories_env \<Rightarrow> string \<Rightarrow> string \<Rightarrow> stories_db \<Rightarrow> unit result \<times> stories_db" where
  "Story_View e u i db =
     (case load_story e i db of
        Inl err \<Rightarrow> (Inl err, db)
      | Inr st \<Rightarrow>
          if sye_now e > st_ExpiresAt st \<or> u \<notin> set (st_Audience st) then (Inl story_notFound, db)
          else if sye_fails e SyView then (Inl Transient, db)
          else case RecordStoryView (sye_dbnow e) i u db of
            None \<Rightarrow> (Inl Transient, db)
          | Some db1 \<Rightarrow> (Inr (), db1))"

definition Story_Viewers :: "stories_env \<Rightarrow> string \<Rightarrow> string \<Rightarrow> stories_db \<Rightarrow> (string \<times> int) list result" where
  "Story_Viewers e u i db =
     (case load_story e i db of
        Inl err \<Rightarrow> Inl err
      | Inr st \<Rightarrow>
          if st_AuthorID st \<noteq> u then Inl story_notFound
          else if sye_fails e SyViewers then Inl Transient
          else Inr (Store_Viewers i db))"

definition Service_DeleteStory :: "stories_env \<Rightarrow> string \<Rightarrow> string \<Rightarrow> stories_db \<Rightarrow> unit result \<times> stories_db" where
  "Service_DeleteStory e u i db =
     (case load_story e i db of
        Inl err \<Rightarrow> (Inl err, db)
      | Inr st \<Rightarrow>
          if st_AuthorID st \<noteq> u then (Inl story_notFound, db)
          else if sye_fails e SyDelete then (Inl Transient, db)
          else (Inr (), Story_Delete i db))"

definition Service_PurgeStories :: "stories_env \<Rightarrow> stories_db \<Rightarrow> nat option \<times> stories_db" where
  "Service_PurgeStories e db =
     (if sye_fails e SyPurge then (None, db)
      else case Story_PurgeExpired (sye_now e) db of (n, db1) \<Rightarrow> (Some n, db1))"

datatype story_req =
    SqPost string string "string option" "string list option" contacts_db
  | SqView string string
  | SqDelete string string
  | SqPurge

fun story_step :: "stories_db \<Rightarrow> stories_env \<times> story_req \<Rightarrow> stories_db" where
  "story_step db (e, SqPost u kind ref override cdb) = snd (Story_Post e cdb u kind ref override db)"
| "story_step db (e, SqView u i) = snd (Story_View e u i db)"
| "story_step db (e, SqDelete u i) = snd (Service_DeleteStory e u i db)"
| "story_step db (e, SqPurge) = snd (Service_PurgeStories e db)"

end
