(* ===== verification/StoryProps.thy ===== *)
theory StoryProps
  imports Stories
begin

text \<open>Who sees a story and for how long, and whose views are on record.\<close>

section \<open>The reference: stories that are only ever withdrawn\<close>

text \<open>
  The posts that were accepted and that their authors have not deleted, with no expiry and no purge.
\<close>

fun wall_step :: "stories_db \<Rightarrow> story list \<Rightarrow> stories_env \<times> story_req \<Rightarrow> story list" where
  "wall_step db w (e, SqPost u kind ref override cdb) =
     (case fst (Story_Post e cdb u kind ref override db) of
        Inl _ \<Rightarrow> w
      | Inr _ \<Rightarrow> w @ [\<lparr>st_ID = sye_id e, st_AuthorID = u, st_Kind = the (ParseKind kind), st_MediaRef = ref,
          st_Audience = Audience u override (ContactsOf u cdb), st_ExpiresAt = sye_now e + 24 * Hour, st_CreatedAt = sye_now e\<rparr>])"
| "wall_step db w (e, SqDelete u i) =
     (if fst (Service_DeleteStory e u i db) = Inr () then filter (\<lambda>st. st_ID st \<noteq> i) w else w)"
| "wall_step db w (e, SqView u i) = w"
| "wall_step db w (e, SqPurge) = w"

fun wall_after :: "stories_db \<Rightarrow> story list \<Rightarrow> (stories_env \<times> story_req) list \<Rightarrow> story list" where
  "wall_after db w [] = w"
| "wall_after db w (x # xs) = wall_after (story_step db x) (wall_step db w x) xs"

text \<open>From \<open>now\<close> on, the store holds the same unexpired stories as the wall.\<close>

definition same_stories :: "instant \<Rightarrow> stories_db \<Rightarrow> story list \<Rightarrow> bool" where
  "same_stories now db w \<longleftrightarrow> filter (\<lambda>st. st_ExpiresAt st \<ge> now) (sd_Stories db) = filter (\<lambda>st. st_ExpiresAt st \<ge> now) w"

lemma filter_refine: "(\<And>x. Q x \<Longrightarrow> P x) \<Longrightarrow> filter Q (filter P xs) = filter Q xs"
  by (induction xs) auto

lemma filter_eq_refine:
  assumes "filter P xs = filter P ys" "\<And>x. Q x \<Longrightarrow> P x"
  shows "filter Q xs = filter Q ys"
  using arg_cong [OF assms(1), of "filter Q"] assms(2) by (simp only: filter_refine)

lemma same_stories_later: "same_stories now db w \<Longrightarrow> now \<le> t \<Longrightarrow> same_stories t db w"
  unfolding same_stories_def by (erule filter_eq_refine) simp

lemma Audience_override: "Audience u (Some xs) cs = Audience u (Some xs) cs'"
  by (simp add: Audience_def)

lemma post_accepted:
  assumes "Story_Post e cdb u kind ref override db = (Inr r, db')"
  shows "sd_Stories db' = sd_Stories db @ [\<lparr>st_ID = sye_id e, st_AuthorID = u, st_Kind = the (ParseKind kind), st_MediaRef = ref,
      st_Audience = Audience u override (ContactsOf u cdb), st_ExpiresAt = sye_now e + 24 * Hour, st_CreatedAt = sye_now e\<rparr>]"
    "sd_Views db' = sd_Views db" "sye_id e \<notin> st_ID ` set (sd_Stories db)"
  using assms
  by (auto simp: Story_Post_def Story_Create_def tbl_ins_Some ExpiryFrom_def Story_TTL_def Let_def Audience_def
      split: option.splits if_splits)

lemma post_refused: "Story_Post e cdb u kind ref override db = (Inl err, db') \<Longrightarrow> db' = db"
  by (auto simp: Story_Post_def Let_def split: option.splits if_splits)

lemma delete_cases:
  "Service_DeleteStory e u i db = (res, db') \<Longrightarrow> (res = Inr () \<and> db' = Story_Delete i db) \<or> (res \<noteq> Inr () \<and> db' = db)"
  by (auto simp: Service_DeleteStory_def split: sum.splits if_splits)

lemma view_cases:
  "Story_View e u i db = (res, db') \<Longrightarrow> db' = db \<or>
     (\<exists>st. Story_Get i db = Some st \<and> u \<in> set (st_Audience st) \<and> db' = db\<lparr>sd_Views := sd_Views db @ [((i, u), sye_dbnow e)]\<rparr>)"
  by (auto simp: Story_View_def load_story_def RecordStoryView_def split: sum.splits option.splits if_splits)

lemma filter_commute: "filter P (filter Q xs) = filter Q (filter P xs)"
  by (induction xs) auto

lemma same_stories_step:
  assumes s: "same_stories now db w" and t: "now \<le> sye_now e"
  shows "same_stories (sye_now e) (story_step db (e, r)) (wall_step db w (e, r))"
proof -
  have same: "same_stories (sye_now e) db w" by (rule same_stories_later [OF s t])
  show ?thesis
  proof (cases r)
    case (SqPost u kind ref override cdb)
    obtain res db' where p: "Story_Post e cdb u kind ref override db = (res, db')" by fastforce
    show ?thesis
    proof (cases res)
      case (Inl err)
      then show ?thesis using same p post_refused [of e cdb u kind ref override db err db'] by (simp add: SqPost)
    next
      case (Inr a)
      then show ?thesis using same p post_accepted(1) [of e cdb u kind ref override db a db'] by (simp add: SqPost same_stories_def)
    qed
  next
    case (SqView u i)
    then show ?thesis using same view_cases [of e u i db] by (cases "Story_View e u i db") (auto simp: same_stories_def)
  next
    case (SqDelete u i)
    obtain res db' where d: "Service_DeleteStory e u i db = (res, db')" by fastforce
    have "filter (\<lambda>st. sye_now e \<le> st_ExpiresAt st) (filter (\<lambda>st. st_ID st \<noteq> i) (sd_Stories db)) =
        filter (\<lambda>st. sye_now e \<le> st_ExpiresAt st) (filter (\<lambda>st. st_ID st \<noteq> i) w)"
      using same unfolding same_stories_def filter_commute [of _ "\<lambda>st. st_ID st \<noteq> i"] by (rule arg_cong)
    then show ?thesis using same delete_cases [OF d]
      by (auto simp: SqDelete d same_stories_def Story_Delete_def delete_stories_def simp del: filter_filter)
  next
    case SqPurge
    have "filter (\<lambda>st. sye_now e \<le> st_ExpiresAt st) (filter (\<lambda>st. \<not> st_ExpiresAt st < sye_now e) (sd_Stories db)) =
        filter (\<lambda>st. sye_now e \<le> st_ExpiresAt st) (sd_Stories db)"
      by (rule filter_refine) simp
    then show ?thesis using same
      by (simp add: SqPurge same_stories_def Service_PurgeStories_def Story_PurgeExpired_def delete_stories_def del: filter_filter)
  qed
qed

lemma same_stories_run:
  "same_stories t0 db w \<Longrightarrow> sorted (t0 # map (\<lambda>x. sye_now (fst x)) xs) \<Longrightarrow>
   same_stories (last (t0 # map (\<lambda>x. sye_now (fst x)) xs)) (run story_step db xs) (wall_after db w xs)"
proof (induction xs arbitrary: t0 db w)
  case (Cons x xs)
  obtain e r where x: "x = (e, r)" by fastforce
  have "same_stories (sye_now e) (story_step db x) (wall_step db w x)"
    using same_stories_step Cons.prems by (simp add: x)
  then show ?case using Cons.IH [of "sye_now e"] Cons.prems by (simp add: x)
qed simp

section \<open>Views\<close>

definition views_allowed :: "stories_db \<Rightarrow> bool" where
  "views_allowed db \<longleftrightarrow> tbl_wf st_ID (sd_Stories db) \<and>
     (\<forall>i v t. ((i, v), t) \<in> set (sd_Views db) \<longrightarrow> (\<exists>st \<in> set (sd_Stories db). st_ID st = i \<and> v \<in> set (st_Audience st)))"

lemma views_allowed_delete:
  assumes v: "views_allowed db"
  shows "views_allowed (delete_stories P db)"
proof -
  have "\<exists>st \<in> set (filter (\<lambda>st. \<not> P st) (sd_Stories db)). st_ID st = i \<and> u \<in> set (st_Audience st)"
    if "((i, u), t) \<in> set (sd_Views (delete_stories P db))" for i u t
  proof -
    from that have row: "((i, u), t) \<in> set (sd_Views db)" and keep: "\<exists>st \<in> set (sd_Stories db). \<not> P st \<and> st_ID st = i"
      by (auto simp: delete_stories_def)
    then obtain st st' where st: "st \<in> set (sd_Stories db)" "st_ID st = i" "u \<in> set (st_Audience st)"
      and st': "st' \<in> set (sd_Stories db)" "\<not> P st'" "st_ID st' = i"
      using v unfolding views_allowed_def by blast
    have "st = st'" using v st(1,2) st'(1,3) unfolding views_allowed_def tbl_wf_def by (metis distinct_map inj_onD)
    then show ?thesis using st st' by auto
  qed
  moreover have "tbl_wf st_ID (filter (\<lambda>st. \<not> P st) (sd_Stories db))"
    using v by (simp add: views_allowed_def tbl_wf_def distinct_map_filter)
  moreover have "sd_Stories (delete_stories P db) = filter (\<lambda>st. \<not> P st) (sd_Stories db)" by (simp add: delete_stories_def)
  ultimately show ?thesis unfolding views_allowed_def by simp
qed

lemma views_allowed_step: "views_allowed db \<Longrightarrow> views_allowed (story_step db x)"
proof -
  assume v: "views_allowed db"
  obtain e r where x: "x = (e, r)" by fastforce
  show ?thesis
  proof (cases r)
    case (SqPost u kind ref override cdb)
    obtain res db' where p: "Story_Post e cdb u kind ref override db = (res, db')" by fastforce
    show ?thesis
    proof (cases res)
      case (Inl err)
      then show ?thesis using v p post_refused [of e cdb u kind ref override db err db'] by (simp add: x SqPost)
    next
      case (Inr a)
      then show ?thesis using v p post_accepted [of e cdb u kind ref override db a db']
        by (fastforce simp: x SqPost views_allowed_def tbl_wf_def)
    qed
  next
    case (SqView u i)
    obtain res db' where d: "Story_View e u i db = (res, db')" by fastforce
    from view_cases [OF d] show ?thesis
    proof
      assume "db' = db"
      then show ?thesis using v d by (simp add: x SqView)
    next
      assume "\<exists>st. Story_Get i db = Some st \<and> u \<in> set (st_Audience st) \<and> db' = db\<lparr>sd_Views := sd_Views db @ [((i, u), sye_dbnow e)]\<rparr>"
      then obtain st where st: "st \<in> set (sd_Stories db)" "st_ID st = i" "u \<in> set (st_Audience st)"
        and db': "db' = db\<lparr>sd_Views := sd_Views db @ [((i, u), sye_dbnow e)]\<rparr>"
        using tbl_get_Some unfolding Story_Get_def by fast
      show ?thesis using v st unfolding x SqView story_step.simps d snd_conv db' views_allowed_def by auto
    qed
  next
    case (SqDelete u i)
    obtain res db' where d: "Service_DeleteStory e u i db = (res, db')" by fastforce
    then show ?thesis using v delete_cases [OF d] views_allowed_delete [OF v] by (auto simp: x SqDelete Story_Delete_def)
  next
    case SqPurge
    then show ?thesis using v views_allowed_delete [OF v]
      by (auto simp: x Service_PurgeStories_def Story_PurgeExpired_def)
  qed
qed

interpretation story_views: invariant_system story_step views_allowed
  by unfold_locales (rule views_allowed_step)

lemma Audience_set: "set (Audience u override cs) = (insert u (set (case override of None \<Rightarrow> cs | Some xs \<Rightarrow> xs))) - {[]}"
proof -
  have "set (fold audience_add xs out) = set out \<union> (set xs - {[]})" for xs out
    by (induction xs arbitrary: out) (auto simp: audience_add_def)
  then show ?thesis by (auto simp: Audience_def audience_add_def)
qed

text \<open>
C39. A feed shows exactly what was posted to its reader: after any sequence of requests with a clock that does not go
backwards, whether or not the purge ever ran, the feed of a user is the list of the accepted posts that name the user in
the audience of the time of the post, are less than 24 hours old and were not deleted by their authors, newest first; and
the viewers an author is shown are all members of that audience.
\<close>

theorem story_feed_exact:
  assumes "db = run story_step empty_stories ops" "sorted (map (\<lambda>x. sye_now (fst x)) ops)"
    "\<forall>x \<in> set ops. sye_now (fst x) \<le> sye_now e" "\<not> sye_fails e SyFeed"
  shows "Story_Feed e u db = Inr (map feed_item_of (sort_key (\<lambda>st. - st_CreatedAt st)
      (filter (\<lambda>st. u \<in> set (st_Audience st) \<and> sye_now e < st_ExpiresAt st) (wall_after empty_stories [] ops)))) \<and>
    (\<forall>a i vs. Story_Viewers e a i db = Inr vs \<longrightarrow>
       (\<exists>st \<in> set (sd_Stories db). st_ID st = i \<and> st_AuthorID st = a \<and> fst ` set vs \<subseteq> set (st_Audience st)))"
proof -
  let ?w = "wall_after empty_stories [] ops"
  have start: "same_stories t empty_stories []" for t by (simp add: same_stories_def empty_stories_def)
  have "same_stories (sye_now e) db ?w"
  proof (cases ops)
    case (Cons x xs)
    have "same_stories (last (sye_now (fst x) # map (\<lambda>x. sye_now (fst x)) ops)) db ?w"
      unfolding assms(1) by (rule same_stories_run [OF start]) (use assms(2) Cons in simp)
    then show ?thesis using assms(3) Cons by (auto elim!: same_stories_later simp: last_map)
  qed (simp add: assms(1) start)
  then have feed: "filter (\<lambda>st. u \<in> set (st_Audience st) \<and> sye_now e < st_ExpiresAt st) (sd_Stories db) =
      filter (\<lambda>st. u \<in> set (st_Audience st) \<and> sye_now e < st_ExpiresAt st) ?w"
    unfolding same_stories_def by (rule filter_eq_refine) simp
  have v: "views_allowed db"
    unfolding assms(1) by (rule story_views.keep_run) (simp add: views_allowed_def empty_stories_def)
  have "\<exists>st \<in> set (sd_Stories db). st_ID st = i \<and> st_AuthorID st = a \<and> fst ` set vs \<subseteq> set (st_Audience st)"
    if ok: "Story_Viewers e a i db = Inr vs" for a i vs
  proof -
    obtain st where st: "Story_Get i db = Some st" "st_AuthorID st = a" "vs = Store_Viewers i db"
      using ok by (auto simp: Story_Viewers_def load_story_def split: sum.splits option.splits if_splits)
    then have mem: "st \<in> set (sd_Stories db)" "st_ID st = i" using tbl_get_Some unfolding Story_Get_def by fast+
    have "w \<in> set (st_Audience st)" if row: "((i, w), t) \<in> set (sd_Views db)" for w t
    proof -
      obtain st' where "st' \<in> set (sd_Stories db)" "st_ID st' = i" "w \<in> set (st_Audience st')"
        using v row unfolding views_allowed_def by blast
      moreover have "st' = st" using v mem calculation(1,2) unfolding views_allowed_def tbl_wf_def by (metis distinct_map inj_onD)
      ultimately show ?thesis by simp
    qed
    then show ?thesis using st mem by (auto simp: Store_Viewers_def)
  qed
  then show ?thesis using feed assms(4) by (simp add: Story_Feed_def Store_Feed_def)
qed

section \<open>An example\<close>

definition story_demo_env :: "int \<Rightarrow> stories_env" where
  "story_demo_env h = \<lparr>sye_now = h * Hour, sye_dbnow = h * Hour, sye_fails = (\<lambda>_. False), sye_id = ''s''\<rparr>"

definition story_demo_ops :: "(stories_env \<times> story_req) list" where
  "story_demo_ops =
     [(story_demo_env 1, SqPost ''ann'' ''text'' None (Some [''bob'']) \<lparr>ct_Users = [], ct_Username = (\<lambda>_. None), ct_Edges = [], ct_Favorites = [], ct_Invites = []\<rparr>),
      (story_demo_env 2, SqView ''bob'' ''s''), (story_demo_env 3, SqPurge)]"

lemma story_feed_exact_witness:
  "map fi_StoryID (projr (Story_Feed (story_demo_env 24) ''bob'' (run story_step empty_stories story_demo_ops))) = [''s''] \<and>
   Story_Feed (story_demo_env 26) ''bob'' (run story_step empty_stories story_demo_ops) = Inr []"
proof -
  have "sorted (map (\<lambda>x. sye_now (fst x)) story_demo_ops)" "\<not> sye_fails (story_demo_env h) SyFeed" for h
    by (simp_all add: story_demo_ops_def story_demo_env_def time_units)
  moreover have "\<forall>x \<in> set story_demo_ops. sye_now (fst x) \<le> sye_now (story_demo_env h)" if "3 \<le> h" for h
    using that by (simp add: story_demo_ops_def story_demo_env_def time_units)
  moreover have "wall_after empty_stories [] story_demo_ops = [\<lparr>st_ID = ''s'', st_AuthorID = ''ann'', st_Kind = 2, st_MediaRef = None,
      st_Audience = [''ann'', ''bob''], st_ExpiresAt = 25 * Hour, st_CreatedAt = Hour\<rparr>]"
    by (simp add: story_demo_ops_def story_demo_env_def Story_Post_def ParseKind_def Audience_def audience_add_def Story_ValidateCreate_def
        needsMedia_def StoryKindText_def StoryKindImage_def StoryKindVideo_def Story_Create_def tbl_ins_def empty_stories_def Let_def)
  ultimately have "Story_Feed (story_demo_env h) ''bob'' (run story_step empty_stories story_demo_ops) =
      Inr (map feed_item_of (filter (\<lambda>st. ''bob'' \<in> set (st_Audience st) \<and> h * Hour < st_ExpiresAt st)
        [\<lparr>st_ID = ''s'', st_AuthorID = ''ann'', st_Kind = 2, st_MediaRef = None,
          st_Audience = [''ann'', ''bob''], st_ExpiresAt = 25 * Hour, st_CreatedAt = Hour\<rparr>]))" if "3 \<le> h" for h
    using that story_feed_exact [OF refl, of story_demo_ops "story_demo_env h" "''bob''"]
    by (simp add: story_demo_env_def [THEN arg_cong, of sye_now])
  from this [of 24] this [of 26] show ?thesis by (simp add: feed_item_of_def time_units)
qed

text \<open>
  At the instant of its expiry a story has left every feed, yet a view of it is still accepted.
\<close>

lemma view_at_expiry:
  assumes "Story_Get i db = Some st" "u \<in> set (st_Audience st)" "sye_now e = st_ExpiresAt st" "\<not> sye_fails e SyGet" "\<not> sye_fails e SyView"
  shows "fst (Story_View e u i db) = Inr () \<and> st \<notin> set (Store_Feed u (sye_now e) db)"
  using assms tbl_get_mem [of st_ID i "sd_Stories db" st]
  by (auto simp: Story_View_def load_story_def Store_Feed_def RecordStoryView_def Story_Get_def)

end
