(* ===== verification/Communities.thy ===== *)
theory Communities
  imports RateLimit GoStrings
begin

text \<open>
  Communities (\<^verbatim>\<open>communities/\<close>): roles and validation, the four tables, and the service. The announcement group is created
  through a port of the groups service, which is a parameter here.
\<close>

section \<open>Domain\<close>

type_synonym comm_role = int

definition CommMember :: comm_role where "CommMember = 0"
definition CommAdmin :: comm_role where "CommAdmin = 1"
definition CommOwner :: comm_role where "CommOwner = 2"

definition CommRole_Valid :: "comm_role \<Rightarrow> bool" where
  "CommRole_Valid r \<longleftrightarrow> r \<ge> CommMember \<and> r \<le> CommOwner"

definition CommRole_String :: "comm_role \<Rightarrow> string" where
  "CommRole_String r = (if r = CommOwner then ''owner'' else if r = CommAdmin then ''admin'' else ''member'')"

definition CommAssignable :: "comm_role \<Rightarrow> bool" where
  "CommAssignable r \<longleftrightarrow> r = CommMember \<or> r = CommAdmin"

type_synonym comm_kind = int

definition CommPublic :: comm_kind where "CommPublic = 0"
definition CommPrivate :: comm_kind where "CommPrivate = 1"

definition CommKind_Valid :: "comm_kind \<Rightarrow> bool" where
  "CommKind_Valid k \<longleftrightarrow> k = CommPublic \<or> k = CommPrivate"

definition CommKind_String :: "comm_kind \<Rightarrow> string" where
  "CommKind_String k = (if k = CommPrivate then ''private'' else ''public'')"

definition CanManageGroups :: "comm_role \<Rightarrow> bool" where "CanManageGroups r \<longleftrightarrow> r \<ge> CommAdmin"
definition CanModerate :: "comm_role \<Rightarrow> bool" where "CanModerate r \<longleftrightarrow> r \<ge> CommAdmin"
definition CommCanChangeRoles :: "comm_role \<Rightarrow> bool" where "CommCanChangeRoles r \<longleftrightarrow> r = CommOwner"
definition CommCanDelete :: "comm_role \<Rightarrow> bool" where "CommCanDelete r \<longleftrightarrow> r = CommOwner"

definition CommMaxName :: nat where "CommMaxName = 80"
definition CommMaxDescription :: nat where "CommMaxDescription = 500"
definition MaxEventTitle :: nat where "MaxEventTitle = 120"
definition MaxEventDesc :: nat where "MaxEventDesc = 1000"

datatype comm_error = CommBadName | CommBadDesc | CommBadKind | CommBadEventTitle | CommBadEventDesc | CommBadEventTime

definition Comm_ValidateCreate :: "string \<Rightarrow> string \<Rightarrow> comm_kind \<Rightarrow> comm_error option" where
  "Comm_ValidateCreate name description kind =
     (if TrimSpace name = [] \<or> length name > CommMaxName then Some CommBadName
      else if length description > CommMaxDescription then Some CommBadDesc
      else if \<not> CommKind_Valid kind then Some CommBadKind
      else None)"

definition ValidateEvent :: "string \<Rightarrow> string \<Rightarrow> instant \<Rightarrow> comm_error option" where
  "ValidateEvent title description startsAt =
     (if TrimSpace title = [] \<or> length title > MaxEventTitle then Some CommBadEventTitle
      else if length description > MaxEventDesc then Some CommBadEventDesc
      else if startsAt = zeroTime then Some CommBadEventTime
      else None)"

section \<open>The store\<close>

record community =
  cy_ID :: string
  cy_Name :: string
  cy_Description :: string
  cy_Kind :: comm_kind
  cy_OwnerID :: string
  cy_AnnouncementGroupID :: string
  cy_CreatedAt :: instant

text \<open>Rows of \<^verbatim>\<open>community_members\<close> and \<^verbatim>\<open>community_groups\<close>; the pair of community and user, or group, is the key.\<close>

record comm_member =
  cym_key :: "string \<times> string"
  cym_Role :: comm_role
  cym_JoinedAt :: instant

record comm_group =
  cyg_key :: "string \<times> string"
  cyg_AddedAt :: instant

record comm_event =
  cye_ID :: string
  cye_CommunityID :: string
  cye_Title :: string
  cye_Description :: string
  cye_StartsAt :: instant
  cye_CreatedBy :: string
  cye_CreatedAt :: instant

record comm_db =
  cyd_Communities :: "community list"
  cyd_Members :: "comm_member list"
  cyd_Groups :: "comm_group list"
  cyd_Events :: "comm_event list"

definition empty_comm_db :: comm_db where
  "empty_comm_db = \<lparr>cyd_Communities = [], cyd_Members = [], cyd_Groups = [], cyd_Events = []\<rparr>"

definition comm_exists :: "string \<Rightarrow> comm_db \<Rightarrow> bool" where
  "comm_exists i db \<longleftrightarrow> i \<in> cy_ID ` set (cyd_Communities db)"

definition Comm_Create :: "community \<Rightarrow> comm_db \<Rightarrow> comm_db option" where
  "Comm_Create c db = map_option (\<lambda>t. db\<lparr>cyd_Communities := t\<rparr>) (tbl_ins cy_ID c (cyd_Communities db))"

definition Comm_Get :: "string \<Rightarrow> comm_db \<Rightarrow> community option" where
  "Comm_Get i db = tbl_get cy_ID i (cyd_Communities db)"

text \<open>The members, group links and events of a community go with it.\<close>

definition Comm_Delete :: "string \<Rightarrow> comm_db \<Rightarrow> comm_db" where
  "Comm_Delete i db =
     \<lparr>cyd_Communities = tbl_del cy_ID i (cyd_Communities db),
      cyd_Members = filter (\<lambda>m. fst (cym_key m) \<noteq> i) (cyd_Members db),
      cyd_Groups = filter (\<lambda>g. fst (cyg_key g) \<noteq> i) (cyd_Groups db),
      cyd_Events = filter (\<lambda>v. cye_CommunityID v \<noteq> i) (cyd_Events db)\<rparr>"

definition Comm_Counts :: "string \<Rightarrow> comm_db \<Rightarrow> nat \<times> nat" where
  "Comm_Counts i db =
     (length (filter (\<lambda>m. fst (cym_key m) = i) (cyd_Members db)), length (filter (\<lambda>g. fst (cyg_key g) = i) (cyd_Groups db)))"

definition Comm_AddMember :: "instant \<Rightarrow> string \<Rightarrow> string \<Rightarrow> comm_role \<Rightarrow> comm_db \<Rightarrow> comm_db option" where
  "Comm_AddMember now i u r db =
     (if (i, u) \<in> cym_key ` set (cyd_Members db) then Some db
      else if \<not> comm_exists i db then None
      else Some (db\<lparr>cyd_Members := cyd_Members db @ [\<lparr>cym_key = (i, u), cym_Role = r, cym_JoinedAt = now\<rparr>]\<rparr>))"

definition Comm_RemoveMember :: "string \<Rightarrow> string \<Rightarrow> comm_db \<Rightarrow> comm_db" where
  "Comm_RemoveMember i u db = db\<lparr>cyd_Members := tbl_del cym_key (i, u) (cyd_Members db)\<rparr>"

definition Comm_GetMember :: "string \<Rightarrow> string \<Rightarrow> comm_db \<Rightarrow> comm_member option" where
  "Comm_GetMember i u db = tbl_get cym_key (i, u) (cyd_Members db)"

definition Comm_ListMembers :: "string \<Rightarrow> comm_db \<Rightarrow> (string \<times> comm_role) list" where
  "Comm_ListMembers i db =
     map (\<lambda>m. (snd (cym_key m), cym_Role m))
       (order_desc cym_Role (order_asc cym_JoinedAt (filter (\<lambda>m. fst (cym_key m) = i) (cyd_Members db))))"

definition Comm_SetRole :: "string \<Rightarrow> string \<Rightarrow> comm_role \<Rightarrow> comm_db \<Rightarrow> comm_db" where
  "Comm_SetRole i u r db = db\<lparr>cyd_Members := tbl_upd cym_key (i, u) (\<lambda>m. m\<lparr>cym_Role := r\<rparr>) (cyd_Members db)\<rparr>"

definition Comm_AddGroup :: "instant \<Rightarrow> string \<Rightarrow> string \<Rightarrow> comm_db \<Rightarrow> comm_db option" where
  "Comm_AddGroup now i g db =
     (if (i, g) \<in> cyg_key ` set (cyd_Groups db) then Some db
      else if \<not> comm_exists i db then None
      else Some (db\<lparr>cyd_Groups := cyd_Groups db @ [\<lparr>cyg_key = (i, g), cyg_AddedAt = now\<rparr>]\<rparr>))"

definition Comm_RemoveGroup :: "string \<Rightarrow> string \<Rightarrow> comm_db \<Rightarrow> comm_db" where
  "Comm_RemoveGroup i g db = db\<lparr>cyd_Groups := tbl_del cyg_key (i, g) (cyd_Groups db)\<rparr>"

definition Comm_ListGroups :: "string \<Rightarrow> comm_db \<Rightarrow> string list" where
  "Comm_ListGroups i db = map (\<lambda>g. snd (cyg_key g)) (order_asc cyg_AddedAt (filter (\<lambda>g. fst (cyg_key g) = i) (cyd_Groups db)))"

definition Comm_CreateEvent :: "comm_event \<Rightarrow> comm_db \<Rightarrow> comm_db option" where
  "Comm_CreateEvent v db =
     (if \<not> comm_exists (cye_CommunityID v) db then None
      else map_option (\<lambda>t. db\<lparr>cyd_Events := t\<rparr>) (tbl_ins cye_ID v (cyd_Events db)))"

definition Comm_ListEvents :: "string \<Rightarrow> instant \<Rightarrow> comm_db \<Rightarrow> comm_event list" where
  "Comm_ListEvents i from db = order_asc cye_StartsAt (filter (\<lambda>v. cye_CommunityID v = i \<and> cye_StartsAt v \<ge> from) (cyd_Events db))"

definition Comm_DeleteEvent :: "string \<Rightarrow> string \<Rightarrow> comm_db \<Rightarrow> comm_db" where
  "Comm_DeleteEvent i v db = db\<lparr>cyd_Events := filter (\<lambda>x. \<not> (cye_CommunityID x = i \<and> cye_ID x = v)) (cyd_Events db)\<rparr>"

record comm_summary =
  cys_ID :: string
  cys_Name :: string
  cys_Description :: string
  cys_MemberCount :: nat

definition comm_summary_of :: "comm_db \<Rightarrow> community \<Rightarrow> comm_summary" where
  "comm_summary_of db c =
     \<lparr>cys_ID = cy_ID c, cys_Name = cy_Name c, cys_Description = cy_Description c, cys_MemberCount = fst (Comm_Counts (cy_ID c) db)\<rparr>"

definition by_members :: "comm_db \<Rightarrow> community list \<Rightarrow> community list" where
  "by_members db cs = order_desc (\<lambda>c. fst (Comm_Counts (cy_ID c) db)) cs"

definition Comm_Discover :: "nat \<Rightarrow> comm_db \<Rightarrow> comm_summary list" where
  "Comm_Discover limit db =
     map (comm_summary_of db)
       (take limit (by_members db (order_desc cy_CreatedAt (filter (\<lambda>c. cy_Kind c = 0) (cyd_Communities db)))))"

definition Comm_Search :: "(string \<Rightarrow> string \<Rightarrow> bool) \<Rightarrow> string \<Rightarrow> nat \<Rightarrow> comm_db \<Rightarrow> comm_summary list" where
  "Comm_Search ilike q limit db =
     map (comm_summary_of db)
       (take limit (by_members db (filter (\<lambda>c. cy_Kind c = 0 \<and> ilike (cy_Name c) (''%'' @ q @ ''%'')) (cyd_Communities db))))"

section \<open>The service\<close>

datatype comm_call = CyCreate | CyGet | CyDelete | CyCounts | CyAdd | CyRemove | CyGetMember | CyGetTarget | CyList | CySetRole
  | CyAddGroup | CyRemoveGroup | CyListGroups | CyCreateEvent | CyListEvents | CyDeleteEvent | CyDiscover | CySearch

record comm_env =
  cyn_now :: instant
  cyn_dbnow :: instant
  cyn_fails :: "comm_call \<Rightarrow> bool"
  cyn_id :: string
  cyn_group :: "string \<Rightarrow> string \<Rightarrow> string result"
  cyn_ilike :: "string \<Rightarrow> string \<Rightarrow> bool"

definition comm_notFound :: api_error where "comm_notFound = Reject 404 ''COMMUNITY_NOT_FOUND''"

definition comm_parseKind :: "string \<Rightarrow> comm_kind option" where
  "comm_parseKind s = (if s = ''public'' \<or> s = [] then Some CommPublic else if s = ''private'' then Some CommPrivate else None)"

definition comm_parseRole :: "string \<Rightarrow> comm_role option" where
  "comm_parseRole s =
     (if s = ''member'' then Some CommMember else if s = ''admin'' then Some CommAdmin else if s = ''owner'' then Some CommOwner else None)"

definition defaultDiscoverLimit :: int where "defaultDiscoverLimit = 50"

definition comm_clampLimit :: "int \<Rightarrow> nat" where
  "comm_clampLimit n = nat (if n \<le> 0 \<or> n > defaultDiscoverLimit then defaultDiscoverLimit else n)"

definition comm_load :: "comm_env \<Rightarrow> string \<Rightarrow> comm_db \<Rightarrow> community result" where
  "comm_load e i db =
     (if cyn_fails e CyGet then Inl Transient
      else case Comm_Get i db of None \<Rightarrow> Inl comm_notFound | Some c \<Rightarrow> Inr c)"

text \<open>The role of a member; any error of the store counts as no membership.\<close>

definition roleOf :: "comm_env \<Rightarrow> comm_call \<Rightarrow> string \<Rightarrow> string \<Rightarrow> comm_db \<Rightarrow> comm_role option" where
  "roleOf e call i u db = (if cyn_fails e call then None else map_option cym_Role (Comm_GetMember i u db))"

definition requireRole :: "comm_env \<Rightarrow> string \<Rightarrow> string \<Rightarrow> (comm_role \<Rightarrow> bool) \<Rightarrow> comm_db \<Rightarrow> unit result" where
  "requireRole e i u gate db =
     (case comm_load e i db of
        Inl err \<Rightarrow> Inl err
      | Inr _ \<Rightarrow>
          case roleOf e CyGetMember i u db of
            None \<Rightarrow> Inl comm_notFound
          | Some r \<Rightarrow> if \<not> gate r then Inl comm_notFound else Inr ())"

text \<open>A store write that may be down or violate a constraint.\<close>

definition comm_write :: "bool \<Rightarrow> comm_db option \<Rightarrow> comm_db \<Rightarrow> unit result \<times> comm_db" where
  "comm_write down r db =
     (if down then (Inl Transient, db)
      else case r of None \<Rightarrow> (Inl Transient, db) | Some db1 \<Rightarrow> (Inr (), db1))"

definition announcement_suffix :: string where
  "announcement_suffix = [CHR '' '', CHR 0xE2, CHR 0x80, CHR 0x94] @ '' Announcements''"

definition Service_CreateCommunity ::
  "comm_env \<Rightarrow> string \<Rightarrow> string \<Rightarrow> string \<Rightarrow> string \<Rightarrow> comm_db \<Rightarrow> (string \<times> string) result \<times> comm_db" where
  "Service_CreateCommunity e u name description kindStr db =
     (case comm_parseKind kindStr of
        None \<Rightarrow> (Inl (Reject 400 ''VALIDATION_KIND''), db)
      | Some kind \<Rightarrow>
          if Comm_ValidateCreate name description kind \<noteq> None then (Inl (Reject 400 ''VALIDATION_COMMUNITY''), db)
          else case cyn_group e u (TrimSpace name @ announcement_suffix) of
            Inl err \<Rightarrow> (Inl err, db)
          | Inr groupID \<Rightarrow>
              let c = \<lparr>cy_ID = cyn_id e, cy_Name = TrimSpace name, cy_Description = description, cy_Kind = kind, cy_OwnerID = u,
                       cy_AnnouncementGroupID = groupID, cy_CreatedAt = cyn_now e\<rparr>
              in case comm_write (cyn_fails e CyCreate) (Comm_Create c db) db of
                   (Inl err, db1) \<Rightarrow> (Inl err, db1)
                 | (Inr _, db1) \<Rightarrow>
                     (case comm_write (cyn_fails e CyAdd) (Comm_AddMember (cyn_dbnow e) (cy_ID c) u CommOwner db1) db1 of
                        (Inl err, db2) \<Rightarrow> (Inl err, db2)
                      | (Inr _, db2) \<Rightarrow> (Inr (cy_ID c, groupID), db2)))"

record comm_view =
  cyv_ID :: string
  cyv_Name :: string
  cyv_Description :: string
  cyv_Kind :: string
  cyv_AnnouncementGroupID :: string
  cyv_MemberCount :: nat
  cyv_GroupCount :: nat
  cyv_MyRole :: string

definition Service_GetCommunity :: "comm_env \<Rightarrow> string \<Rightarrow> string \<Rightarrow> comm_db \<Rightarrow> comm_view result" where
  "Service_GetCommunity e u i db =
     (case comm_load e i db of
        Inl err \<Rightarrow> Inl err
      | Inr c \<Rightarrow>
          let me = roleOf e CyGetMember i u db
          in if cy_Kind c = CommPrivate \<and> me = None then Inl comm_notFound
             else if cyn_fails e CyCounts then Inl Transient
             else case Comm_Counts i db of (members, groups) \<Rightarrow>
               Inr \<lparr>cyv_ID = cy_ID c, cyv_Name = cy_Name c, cyv_Description = cy_Description c, cyv_Kind = CommKind_String (cy_Kind c),
                    cyv_AnnouncementGroupID = cy_AnnouncementGroupID c, cyv_MemberCount = members, cyv_GroupCount = groups,
                    cyv_MyRole = (case me of None \<Rightarrow> [] | Some r \<Rightarrow> CommRole_String r)\<rparr>)"

definition Service_JoinCommunity :: "comm_env \<Rightarrow> string \<Rightarrow> string \<Rightarrow> comm_db \<Rightarrow> unit result \<times> comm_db" where
  "Service_JoinCommunity e u i db =
     (case comm_load e i db of
        Inl err \<Rightarrow> (Inl err, db)
      | Inr c \<Rightarrow>
          if cy_Kind c = CommPrivate then (Inl comm_notFound, db)
          else comm_write (cyn_fails e CyAdd) (Comm_AddMember (cyn_dbnow e) i u CommMember db) db)"

definition Service_LeaveCommunity :: "comm_env \<Rightarrow> string \<Rightarrow> string \<Rightarrow> comm_db \<Rightarrow> unit result \<times> comm_db" where
  "Service_LeaveCommunity e u i db =
     (case roleOf e CyGetMember i u db of
        None \<Rightarrow> (Inr (), db)
      | Some r \<Rightarrow>
          if r = CommOwner then (Inl (Reject 409 ''STATE_OWNER_LEAVE''), db)
          else comm_write (cyn_fails e CyRemove) (Some (Comm_RemoveMember i u db)) db)"

definition Service_CommMembers :: "comm_env \<Rightarrow> string \<Rightarrow> string \<Rightarrow> comm_db \<Rightarrow> (string \<times> comm_role) list result" where
  "Service_CommMembers e u i db =
     (if roleOf e CyGetMember i u db = None then Inl comm_notFound
      else if cyn_fails e CyList then Inl Transient
      else Inr (Comm_ListMembers i db))"

definition Service_SetCommRole :: "comm_env \<Rightarrow> string \<Rightarrow> string \<Rightarrow> string \<Rightarrow> string \<Rightarrow> comm_db \<Rightarrow> unit result \<times> comm_db" where
  "Service_SetCommRole e u i target roleStr db =
     (case requireRole e i u CommCanChangeRoles db of
        Inl err \<Rightarrow> (Inl err, db)
      | Inr _ \<Rightarrow>
          (case comm_parseRole roleStr of
             None \<Rightarrow> (Inl (Reject 400 ''VALIDATION_ROLE''), db)
           | Some r \<Rightarrow>
               if \<not> CommAssignable r then (Inl (Reject 400 ''VALIDATION_ROLE''), db)
               else if target = u then (Inl (Reject 409 ''STATE_SELF_ROLE''), db)
               else if roleOf e CyGetTarget i target db = None then (Inl comm_notFound, db)
               else comm_write (cyn_fails e CySetRole) (Some (Comm_SetRole i target r db)) db))"

definition Service_RemoveCommMember :: "comm_env \<Rightarrow> string \<Rightarrow> string \<Rightarrow> string \<Rightarrow> comm_db \<Rightarrow> unit result \<times> comm_db" where
  "Service_RemoveCommMember e u i target db =
     (case roleOf e CyGetMember i u db of
        None \<Rightarrow> (Inl comm_notFound, db)
      | Some caller \<Rightarrow>
          if \<not> CanModerate caller then (Inl comm_notFound, db)
          else case roleOf e CyGetTarget i target db of
            None \<Rightarrow> (Inl comm_notFound, db)
          | Some r \<Rightarrow>
              if r = CommOwner \<or> target = u then (Inl (Reject 409 ''STATE_REMOVE''), db)
              else comm_write (cyn_fails e CyRemove) (Some (Comm_RemoveMember i target db)) db)"

definition Service_AddCommGroup :: "comm_env \<Rightarrow> string \<Rightarrow> string \<Rightarrow> string \<Rightarrow> comm_db \<Rightarrow> unit result \<times> comm_db" where
  "Service_AddCommGroup e u i g db =
     (case requireRole e i u CanManageGroups db of
        Inl err \<Rightarrow> (Inl err, db)
      | Inr _ \<Rightarrow>
          if g = [] then (Inl (Reject 400 ''VALIDATION_GROUP''), db)
          else comm_write (cyn_fails e CyAddGroup) (Comm_AddGroup (cyn_dbnow e) i g db) db)"

definition Service_RemoveCommGroup :: "comm_env \<Rightarrow> string \<Rightarrow> string \<Rightarrow> string \<Rightarrow> comm_db \<Rightarrow> unit result \<times> comm_db" where
  "Service_RemoveCommGroup e u i g db =
     (case requireRole e i u CanManageGroups db of
        Inl err \<Rightarrow> (Inl err, db)
      | Inr _ \<Rightarrow> comm_write (cyn_fails e CyRemoveGroup) (Some (Comm_RemoveGroup i g db)) db)"

definition Service_CommGroups :: "comm_env \<Rightarrow> string \<Rightarrow> string \<Rightarrow> comm_db \<Rightarrow> string list result" where
  "Service_CommGroups e u i db =
     (if roleOf e CyGetMember i u db = None then Inl comm_notFound
      else if cyn_fails e CyListGroups then Inl Transient
      else Inr (Comm_ListGroups i db))"

record event_view =
  evv_ID :: string
  evv_Title :: string
  evv_Description :: string
  evv_StartsAtMS :: int
  evv_CreatedBy :: string

definition eventView :: "comm_event \<Rightarrow> event_view" where
  "eventView v =
     \<lparr>evv_ID = cye_ID v, evv_Title = cye_Title v, evv_Description = cye_Description v,
      evv_StartsAtMS = cye_StartsAt v div Millisecond, evv_CreatedBy = cye_CreatedBy v\<rparr>"

definition Service_CreateEvent ::
  "comm_env \<Rightarrow> string \<Rightarrow> string \<Rightarrow> string \<Rightarrow> string \<Rightarrow> int \<Rightarrow> comm_db \<Rightarrow> event_view result \<times> comm_db" where
  "Service_CreateEvent e u i title description startsAtMS db =
     (case requireRole e i u CanModerate db of
        Inl err \<Rightarrow> (Inl err, db)
      | Inr _ \<Rightarrow>
          let startsAt = (if startsAtMS = 0 then zeroTime else startsAtMS * Millisecond)
          in if ValidateEvent title description startsAt \<noteq> None then (Inl (Reject 400 ''VALIDATION_EVENT''), db)
             else
               let v = \<lparr>cye_ID = cyn_id e, cye_CommunityID = i, cye_Title = TrimSpace title, cye_Description = description,
                        cye_StartsAt = startsAt, cye_CreatedBy = u, cye_CreatedAt = cyn_now e\<rparr>
               in case comm_write (cyn_fails e CyCreateEvent) (Comm_CreateEvent v db) db of
                    (Inl err, db1) \<Rightarrow> (Inl err, db1)
                  | (Inr _, db1) \<Rightarrow> (Inr (eventView v), db1))"

definition Service_Events :: "comm_env \<Rightarrow> string \<Rightarrow> string \<Rightarrow> comm_db \<Rightarrow> event_view list result" where
  "Service_Events e u i db =
     (if roleOf e CyGetMember i u db = None then Inl comm_notFound
      else if cyn_fails e CyListEvents then Inl Transient
      else Inr (map eventView (Comm_ListEvents i (cyn_now e - 24 * Hour) db)))"

definition Service_DeleteEvent :: "comm_env \<Rightarrow> string \<Rightarrow> string \<Rightarrow> string \<Rightarrow> comm_db \<Rightarrow> unit result \<times> comm_db" where
  "Service_DeleteEvent e u i v db =
     (case requireRole e i u CanModerate db of
        Inl err \<Rightarrow> (Inl err, db)
      | Inr _ \<Rightarrow> comm_write (cyn_fails e CyDeleteEvent) (Some (Comm_DeleteEvent i v db)) db)"

definition Service_DeleteCommunity :: "comm_env \<Rightarrow> string \<Rightarrow> string \<Rightarrow> comm_db \<Rightarrow> unit result \<times> comm_db" where
  "Service_DeleteCommunity e u i db =
     (case requireRole e i u CommCanDelete db of
        Inl err \<Rightarrow> (Inl err, db)
      | Inr _ \<Rightarrow> comm_write (cyn_fails e CyDelete) (Some (Comm_Delete i db)) db)"

definition Service_DiscoverCommunities :: "comm_env \<Rightarrow> int \<Rightarrow> comm_db \<Rightarrow> comm_summary list result" where
  "Service_DiscoverCommunities e limit db =
     (if cyn_fails e CyDiscover then Inl Transient else Inr (Comm_Discover (comm_clampLimit limit) db))"

definition Service_SearchCommunities :: "comm_env \<Rightarrow> string \<Rightarrow> int \<Rightarrow> comm_db \<Rightarrow> comm_summary list result" where
  "Service_SearchCommunities e query limit db =
     (let q = TrimSpace query
      in if q = [] then Inr []
         else if cyn_fails e CySearch then Inl Transient
         else Inr (Comm_Search (cyn_ilike e) q (comm_clampLimit limit) db))"

section \<open>Requests\<close>

datatype comm_req =
    RqCreate string string string string
  | RqJoin string string
  | RqLeave string string
  | RqSetRole string string string string
  | RqRemove string string string
  | RqAddGroup string string string
  | RqRemoveGroup string string string
  | RqCreateEvent string string string string int
  | RqDeleteEvent string string string
  | RqDelete string string

text \<open>Who makes a request.\<close>

fun comm_actor :: "comm_req \<Rightarrow> string" where
  "comm_actor (RqCreate u _ _ _) = u"
| "comm_actor (RqJoin u _) = u"
| "comm_actor (RqLeave u _) = u"
| "comm_actor (RqSetRole u _ _ _) = u"
| "comm_actor (RqRemove u _ _) = u"
| "comm_actor (RqAddGroup u _ _) = u"
| "comm_actor (RqRemoveGroup u _ _) = u"
| "comm_actor (RqCreateEvent u _ _ _ _) = u"
| "comm_actor (RqDeleteEvent u _ _) = u"
| "comm_actor (RqDelete u _) = u"

fun comm_step :: "comm_db \<Rightarrow> comm_env \<times> comm_req \<Rightarrow> comm_db" where
  "comm_step db (e, RqCreate u name descr kind) = snd (Service_CreateCommunity e u name descr kind db)"
| "comm_step db (e, RqJoin u i) = snd (Service_JoinCommunity e u i db)"
| "comm_step db (e, RqLeave u i) = snd (Service_LeaveCommunity e u i db)"
| "comm_step db (e, RqSetRole u i target r) = snd (Service_SetCommRole e u i target r db)"
| "comm_step db (e, RqRemove u i target) = snd (Service_RemoveCommMember e u i target db)"
| "comm_step db (e, RqAddGroup u i g) = snd (Service_AddCommGroup e u i g db)"
| "comm_step db (e, RqRemoveGroup u i g) = snd (Service_RemoveCommGroup e u i g db)"
| "comm_step db (e, RqCreateEvent u i title descr t) = snd (Service_CreateEvent e u i title descr t db)"
| "comm_step db (e, RqDeleteEvent u i v) = snd (Service_DeleteEvent e u i v db)"
| "comm_step db (e, RqDelete u i) = snd (Service_DeleteCommunity e u i db)"

end
