(* ===== verification/CommunityProps.thy ===== *)
theory CommunityProps
  imports Communities
begin

text \<open>
  Who can change the membership of a community, what no request can change, and two ways in which a failure of the
  database leaves a community or a member in a state the caller is not told of.
\<close>

section \<open>Membership\<close>

definition comm_role_of :: "comm_db \<Rightarrow> string \<Rightarrow> string \<Rightarrow> comm_role option" where
  "comm_role_of db i v = map_option cym_Role (Comm_GetMember i v db)"

lemmas comm_roles = CommMember_def CommAdmin_def CommOwner_def

definition comm_ok :: "comm_db \<Rightarrow> bool" where
  "comm_ok db \<longleftrightarrow> tbl_wf cy_ID (cyd_Communities db) \<and> tbl_wf cym_key (cyd_Members db) \<and>
     (\<forall>i v r. comm_role_of db i v = Some r \<longrightarrow> r \<in> {CommMember, CommAdmin, CommOwner} \<and>
       (\<exists>c. Comm_Get i db = Some c \<and> (r = CommOwner \<or> cy_Kind c = CommPrivate \<longrightarrow> v = cy_OwnerID c)))"

lemma role_of_cong: "cyd_Members db' = cyd_Members db \<Longrightarrow> comm_role_of db' i v = comm_role_of db i v"
  by (simp add: comm_role_of_def Comm_GetMember_def)

lemma role_of_add:
  "Comm_AddMember now i u r db = Some db' \<Longrightarrow> comm_role_of db' j v =
     (if (j, v) = (i, u) \<and> comm_role_of db i u = None then Some r else comm_role_of db j v)"
  by (auto simp: Comm_AddMember_def comm_role_of_def Comm_GetMember_def tbl_get_append tbl_get_Cons tbl_get_None
      dest: tbl_get_mem split: if_splits option.splits)

lemma role_of_remove: "comm_role_of (Comm_RemoveMember i u db) j v = (if (j, v) = (i, u) then None else comm_role_of db j v)"
  by (auto simp: Comm_RemoveMember_def comm_role_of_def Comm_GetMember_def tbl_get_del)

lemma role_of_set:
  "comm_role_of (Comm_SetRole i u r db) j v = (if (j, v) = (i, u) \<and> comm_role_of db i u \<noteq> None then Some r else comm_role_of db j v)"
  by (auto simp: Comm_SetRole_def comm_role_of_def Comm_GetMember_def tbl_get_upd split: option.splits)

lemma tbl_get_filter_keys:
  "(\<And>r. key r = k \<Longrightarrow> P r) \<Longrightarrow> tbl_get key k (filter P rows) = tbl_get key k rows"
  by (induction rows) (auto simp: tbl_get_Cons)

lemma role_of_delete: "comm_role_of (Comm_Delete i db) j v = (if j = i then None else comm_role_of db j v)"
proof (cases "j = i")
  case True
  then show ?thesis by (auto simp: comm_role_of_def Comm_GetMember_def Comm_Delete_def tbl_get_None) (metis fst_conv)
next
  case False
  then show ?thesis by (auto simp: comm_role_of_def Comm_GetMember_def Comm_Delete_def intro!: arg_cong [of _ _ "map_option cym_Role"] tbl_get_filter_keys)
qed

section \<open>Transitions\<close>

text \<open>What a request of \<open>u\<close> does to the tables of communities and members.\<close>

inductive comm_trans :: "string \<Rightarrow> comm_db \<Rightarrow> comm_db \<Rightarrow> bool" for u where
  same: "cyd_Communities db' = cyd_Communities db \<Longrightarrow> cyd_Members db' = cyd_Members db \<Longrightarrow> comm_trans u db db'"
| create: "Comm_Create c db = Some db' \<Longrightarrow> cy_OwnerID c = u \<Longrightarrow> comm_trans u db db'"
| create_owner: "Comm_Create c db = Some db1 \<Longrightarrow> cy_OwnerID c = u \<Longrightarrow> Comm_AddMember now (cy_ID c) u CommOwner db1 = Some db' \<Longrightarrow>
    comm_trans u db db'"
| join: "Comm_Get i db = Some c \<Longrightarrow> cy_Kind c \<noteq> CommPrivate \<Longrightarrow> Comm_AddMember now i u CommMember db = Some db' \<Longrightarrow> comm_trans u db db'"
| leave: "comm_role_of db i u = Some r \<Longrightarrow> r \<noteq> CommOwner \<Longrightarrow> comm_trans u db (Comm_RemoveMember i u db)"
| remove: "comm_role_of db i u = Some r \<Longrightarrow> CanModerate r \<Longrightarrow> comm_role_of db i v = Some q \<Longrightarrow> q \<noteq> CommOwner \<Longrightarrow> v \<noteq> u \<Longrightarrow>
    comm_trans u db (Comm_RemoveMember i v db)"
| set_role: "comm_role_of db i u = Some CommOwner \<Longrightarrow> CommAssignable r \<Longrightarrow> v \<noteq> u \<Longrightarrow> comm_role_of db i v = Some q \<Longrightarrow>
    comm_trans u db (Comm_SetRole i v r db)"
| delete: "comm_role_of db i u = Some CommOwner \<Longrightarrow> comm_trans u db (Comm_Delete i db)"

lemma comm_trans_refl [simp]: "comm_trans u db db"
  by (rule comm_trans.same) simp_all

lemma comm_write_snd: "comm_trans u db db' \<Longrightarrow> r = Some db' \<Longrightarrow> comm_trans u db (snd (comm_write down r db))"
  by (simp add: comm_write_def)

lemma comm_write_opt: "(\<And>db'. r = Some db' \<Longrightarrow> comm_trans u db db') \<Longrightarrow> comm_trans u db (snd (comm_write down r db))"
  by (cases r) (simp_all add: comm_write_def)

lemma requireRole_Inr: "requireRole e i u gate db = Inr x \<Longrightarrow> \<exists>r. comm_role_of db i u = Some r \<and> gate r"
  by (auto simp: requireRole_def roleOf_def comm_role_of_def split: sum.splits option.splits if_splits)

lemma roleOf_Some: "roleOf e k i u db = Some r \<Longrightarrow> comm_role_of db i u = Some r"
  by (auto simp: roleOf_def comm_role_of_def split: if_splits)

lemma trans_create: "comm_trans u db (snd (Service_CreateCommunity e u name descr kind db))"
proof -
  have one: "comm_trans u db (snd (case comm_write f (Comm_Create c db) db of
        (Inl err, db1) \<Rightarrow> (Inl err, db1)
      | (Inr _, db1) \<Rightarrow> (case comm_write f' (Comm_AddMember now (cy_ID c) u CommOwner db1) db1 of
           (Inl err, db2) \<Rightarrow> (Inl err, db2) | (Inr _, db2) \<Rightarrow> (Inr (cy_ID c, g), db2))))"
    if "cy_OwnerID c = u" for f f' c now g
    using that comm_trans.create [of c db] comm_trans.create_owner [of c db]
    by (cases f; cases f'; cases "Comm_Create c db"; simp add: comm_write_def split: option.split)
  show ?thesis unfolding Service_CreateCommunity_def Let_def by (auto split: option.split sum.split intro!: one)
qed

lemma comm_step_trans: "comm_trans (comm_actor r) db (comm_step db (e, r))"
proof (cases r)
  case (RqCreate u name descr kind)
  then show ?thesis using trans_create by simp
next
  case (RqJoin u i)
  then show ?thesis
    by (auto simp: Service_JoinCommunity_def comm_load_def split: sum.splits option.splits if_splits
        intro!: comm_write_opt intro: comm_trans.join)
next
  case (RqLeave u i)
  then show ?thesis
    by (auto simp: Service_LeaveCommunity_def dest!: roleOf_Some split: option.splits intro!: comm_write_opt intro: comm_trans.leave)
next
  case (RqSetRole u i v s)
  then show ?thesis
    by (auto simp: Service_SetCommRole_def CommCanChangeRoles_def dest!: roleOf_Some requireRole_Inr split: sum.splits option.splits
        intro!: comm_write_opt intro: comm_trans.set_role)
next
  case (RqRemove u i v)
  then show ?thesis
    by (auto simp: Service_RemoveCommMember_def dest!: roleOf_Some split: option.splits intro!: comm_write_opt intro: comm_trans.remove)
next
  case (RqAddGroup u i g)
  then show ?thesis
    by (auto simp: Service_AddCommGroup_def Comm_AddGroup_def split: sum.splits if_splits intro!: comm_write_opt comm_trans.same)
next
  case (RqRemoveGroup u i g)
  then show ?thesis
    by (auto simp: Service_RemoveCommGroup_def Comm_RemoveGroup_def split: sum.splits intro!: comm_write_opt comm_trans.same)
next
  case (RqCreateEvent u i t d n)
  then show ?thesis
    by (auto simp: Service_CreateEvent_def Comm_CreateEvent_def comm_write_def Let_def split: sum.splits option.splits prod.splits if_splits
        intro!: comm_trans.same)
next
  case (RqDeleteEvent u i v)
  then show ?thesis
    by (auto simp: Service_DeleteEvent_def Comm_DeleteEvent_def split: sum.splits intro!: comm_write_opt comm_trans.same)
next
  case (RqDelete u i)
  then show ?thesis
    by (auto simp: Service_DeleteCommunity_def CommCanDelete_def dest!: requireRole_Inr split: sum.splits
        intro!: comm_write_opt intro: comm_trans.delete)
qed

section \<open>The invariant\<close>

lemma comm_okI:
  assumes "tbl_wf cy_ID (cyd_Communities db)" "tbl_wf cym_key (cyd_Members db)"
    "\<And>i v r. comm_role_of db i v = Some r \<Longrightarrow> r \<in> {CommMember, CommAdmin, CommOwner} \<and>
       (\<exists>c. Comm_Get i db = Some c \<and> (r = CommOwner \<or> cy_Kind c = CommPrivate \<longrightarrow> v = cy_OwnerID c))"
  shows "comm_ok db"
  using assms unfolding comm_ok_def by blast

lemma comm_okD:
  assumes "comm_ok db"
  shows "tbl_wf cy_ID (cyd_Communities db)" "tbl_wf cym_key (cyd_Members db)"
    "comm_role_of db i v = Some r \<Longrightarrow> r \<in> {CommMember, CommAdmin, CommOwner} \<and>
       (\<exists>c. Comm_Get i db = Some c \<and> (r = CommOwner \<or> cy_Kind c = CommPrivate \<longrightarrow> v = cy_OwnerID c))"
  using assms unfolding comm_ok_def by blast+

lemma get_create:
  assumes "Comm_Create c db = Some db'"
  shows "Comm_Get i db' = (if i = cy_ID c then Some c else Comm_Get i db)" "Comm_Get (cy_ID c) db = None" "cyd_Members db' = cyd_Members db"
    "tbl_wf cy_ID (cyd_Communities db) \<Longrightarrow> tbl_wf cy_ID (cyd_Communities db')"
  using assms by (auto simp: Comm_Create_def Comm_Get_def tbl_get_ins tbl_get_None tbl_ins_Some intro: tbl_wf_ins)

lemma get_add:
  assumes "Comm_AddMember now i u r db = Some db'"
  shows "Comm_Get j db' = Comm_Get j db" "cyd_Communities db' = cyd_Communities db" "tbl_wf cym_key (cyd_Members db) \<Longrightarrow> tbl_wf cym_key (cyd_Members db')"
  using assms by (auto simp: Comm_AddMember_def Comm_Get_def tbl_wf_def split: if_splits)

lemma get_member_writes [simp]:
  "Comm_Get j (Comm_RemoveMember i u db) = Comm_Get j db" "Comm_Get j (Comm_SetRole i u r db) = Comm_Get j db"
  "Comm_Get j (Comm_Delete i db) = (if j = i then None else Comm_Get j db)"
  by (simp_all add: Comm_Get_def Comm_RemoveMember_def Comm_SetRole_def Comm_Delete_def tbl_get_del)

lemma comm_ok_create:
  assumes ok: "comm_ok db" and c: "Comm_Create c db = Some db'"
  shows "comm_ok db'"
proof (rule comm_okI)
  note g = get_create [OF c]
  show "tbl_wf cy_ID (cyd_Communities db')" "tbl_wf cym_key (cyd_Members db')" using g comm_okD(1,2) [OF ok] by simp_all
  show "r \<in> {CommMember, CommAdmin, CommOwner} \<and> (\<exists>c. Comm_Get i db' = Some c \<and> (r = CommOwner \<or> cy_Kind c = CommPrivate \<longrightarrow> v = cy_OwnerID c))"
    if "comm_role_of db' i v = Some r" for i v r
    using comm_okD(3) [OF ok, of i v r] that g(1,2) unfolding role_of_cong [OF g(3)] by auto
qed

lemma comm_ok_add:
  assumes ok: "comm_ok db" and a: "Comm_AddMember now i u r db = Some db'"
    and c: "Comm_Get i db = Some c" "r \<in> {CommMember, CommOwner}" "r = CommOwner \<or> cy_Kind c = CommPrivate \<longrightarrow> u = cy_OwnerID c"
  shows "comm_ok db'"
proof (rule comm_okI)
  show "tbl_wf cy_ID (cyd_Communities db')" "tbl_wf cym_key (cyd_Members db')" using get_add [OF a] comm_okD(1,2) [OF ok] by simp_all
  show "q \<in> {CommMember, CommAdmin, CommOwner} \<and> (\<exists>c. Comm_Get j db' = Some c \<and> (q = CommOwner \<or> cy_Kind c = CommPrivate \<longrightarrow> v = cy_OwnerID c))"
    if "comm_role_of db' j v = Some q" for j v q
    using comm_okD(3) [OF ok, of j v q] that c unfolding role_of_add [OF a] get_add(1) [OF a] by (auto split: if_splits)
qed

lemma comm_ok_fewer:
  assumes ok: "comm_ok db" and wf: "tbl_wf cy_ID (cyd_Communities db')" "tbl_wf cym_key (cyd_Members db')"
    and fewer: "\<And>j v q. comm_role_of db' j v = Some q \<Longrightarrow> comm_role_of db j v = Some q \<and> Comm_Get j db' = Comm_Get j db"
  shows "comm_ok db'"
proof (rule comm_okI [OF wf])
  fix j v q
  assume "comm_role_of db' j v = Some q"
  from fewer [OF this] comm_okD(3) [OF ok, of j v q]
  show "q \<in> {CommMember, CommAdmin, CommOwner} \<and> (\<exists>c. Comm_Get j db' = Some c \<and> (q = CommOwner \<or> cy_Kind c = CommPrivate \<longrightarrow> v = cy_OwnerID c))"
    by simp
qed

lemma comm_ok_remove:
  assumes ok: "comm_ok db"
  shows "comm_ok (Comm_RemoveMember i u db)"
proof (rule comm_ok_fewer [OF ok])
  show "tbl_wf cy_ID (cyd_Communities (Comm_RemoveMember i u db))" "tbl_wf cym_key (cyd_Members (Comm_RemoveMember i u db))"
    using comm_okD(1,2) [OF ok] by (simp_all add: Comm_RemoveMember_def tbl_wf_del)
qed (auto simp: role_of_remove split: if_splits)

lemma comm_ok_delete:
  assumes ok: "comm_ok db"
  shows "comm_ok (Comm_Delete i db)"
proof (rule comm_ok_fewer [OF ok])
  show "tbl_wf cy_ID (cyd_Communities (Comm_Delete i db))" "tbl_wf cym_key (cyd_Members (Comm_Delete i db))"
    using comm_okD(1,2) [OF ok] by (simp_all add: Comm_Delete_def tbl_wf_del) (simp add: tbl_wf_def distinct_map_filter)
qed (auto simp: role_of_delete split: if_splits)

lemma comm_ok_trans: "comm_trans u db db' \<Longrightarrow> comm_ok db \<Longrightarrow> comm_ok db'"
proof (induction rule: comm_trans.induct)
  case (same db' db)
  then show ?case by (simp add: comm_ok_def comm_role_of_def Comm_GetMember_def Comm_Get_def)
next
  case (create c db db')
  then show ?case using comm_ok_create by blast
next
  case (create_owner c db db1 now db')
  then have "comm_ok db1" using comm_ok_create by blast
  then show ?case by (rule comm_ok_add [OF _ create_owner(3), of c]) (use create_owner get_create in auto)
next
  case (join i db c now db')
  show ?case by (rule comm_ok_add [OF join(4,3,1)]) (use join(2) in \<open>auto simp: comm_roles\<close>)
next
  case (leave db i r)
  then show ?case using comm_ok_remove by blast
next
  case (remove db i r v q)
  then show ?case using comm_ok_remove by blast
next
  case (set_role db i r v q)
  note ok = comm_okD [OF set_role(5)]
  have not_owner: "\<exists>c. Comm_Get i db = Some c \<and> cy_Kind c \<noteq> CommPrivate"
    using ok(3) [of i u CommOwner] ok(3) [of i v q] set_role(1,3,4) by auto
  show ?case
  proof (rule comm_okI)
    show "tbl_wf cy_ID (cyd_Communities (Comm_SetRole i v r db))" "tbl_wf cym_key (cyd_Members (Comm_SetRole i v r db))"
      using ok(1,2) by (auto simp: Comm_SetRole_def intro!: tbl_wf_upd)
    show "p \<in> {CommMember, CommAdmin, CommOwner} \<and>
        (\<exists>c. Comm_Get j (Comm_SetRole i v r db) = Some c \<and> (p = CommOwner \<or> cy_Kind c = CommPrivate \<longrightarrow> w = cy_OwnerID c))"
      if "comm_role_of (Comm_SetRole i v r db) j w = Some p" for j w p
      using that ok(3) [of j w p] not_owner set_role(2)
      by (auto simp: role_of_set CommAssignable_def comm_roles split: if_splits)
  qed
next
  case (delete db i)
  then show ?case using comm_ok_delete by blast
qed

lemma comm_ok_step: "comm_ok db \<Longrightarrow> comm_ok (comm_step db x)"
  by (cases x) (use comm_ok_trans comm_step_trans in blast)

interpretation comm: invariant_system comm_step comm_ok
  by unfold_locales (rule comm_ok_step)

lemma comm_ok_empty: "comm_ok empty_comm_db"
  by (simp add: comm_ok_def empty_comm_db_def comm_role_of_def Comm_GetMember_def)

section \<open>Authority\<close>

lemma comm_change:
  assumes "comm_trans u db db'" "comm_ok db" "comm_role_of db' i v \<noteq> comm_role_of db i v"
  shows "(v = u \<and> comm_role_of db i v = None \<and>
        (comm_role_of db' i v = Some CommOwner \<and> Comm_Get i db = None \<or>
         comm_role_of db' i v = Some CommMember \<and> (\<exists>c. Comm_Get i db = Some c \<and> cy_Kind c \<noteq> CommPrivate))) \<or>
    (v = u \<and> comm_role_of db i v \<noteq> Some CommOwner \<and> comm_role_of db' i v = None) \<or>
    (v \<noteq> u \<and> comm_role_of db i v \<in> {Some CommMember, Some CommAdmin} \<and> comm_role_of db' i v = None \<and>
       comm_role_of db i u \<in> {Some CommAdmin, Some CommOwner}) \<or>
    (v \<noteq> u \<and> comm_role_of db i v \<in> {Some CommMember, Some CommAdmin} \<and> comm_role_of db' i v \<in> {Some CommMember, Some CommAdmin} \<and>
       comm_role_of db i u = Some CommOwner) \<or>
    (comm_role_of db i u = Some CommOwner \<and> Comm_Get i db' = None)"
  using assms(1)
proof cases
  case same
  then show ?thesis using assms(3) role_of_cong [of db' db] by blast
next
  case (create c)
  then show ?thesis using assms(3) role_of_cong [OF get_create(3)] by blast
next
  case (create_owner c db1 now)
  note g = get_create [OF create_owner(1)]
  have "comm_role_of db' i v = (if (i, v) = (cy_ID c, u) \<and> comm_role_of db (cy_ID c) u = None then Some CommOwner else comm_role_of db i v)"
    unfolding role_of_add [OF create_owner(3)] role_of_cong [OF g(3)] ..
  then show ?thesis using assms(3) g(2) by (auto split: if_splits)
next
  case (join j c now)
  then show ?thesis using assms(3) role_of_add [OF join(3), of i v] by (auto split: if_splits)
next
  case (leave j r)
  then show ?thesis using assms(3) by (auto simp: role_of_remove split: if_splits)
next
  case (remove j r w q)
  then show ?thesis using assms(3) comm_okD(3) [OF assms(2), of j u r] comm_okD(3) [OF assms(2), of j w q]
    by (auto simp: role_of_remove CanModerate_def comm_roles split: if_splits)
next
  case (set_role j r w q)
  have "q \<noteq> CommOwner" using comm_okD(3) [OF assms(2), of j u CommOwner] comm_okD(3) [OF assms(2), of j w q] set_role by auto
  then show ?thesis using set_role assms(3) comm_okD(3) [OF assms(2), of j w q]
    by (auto simp: role_of_set CommAssignable_def split: if_splits)
next
  case (delete j)
  then show ?thesis using assms(3) by (auto simp: role_of_delete split: if_splits)
qed

text \<open>
C37. Authority in a community: after any sequence of requests and failures, a request changes the membership of a user only
if the user joins a public community or leaves and is not the owner, is the creator of a new community, is removed by
an admin or the owner, or has the role changed by the owner, or if the owner deletes the community; the owner is never
removed or demoted. Only the creator of a community ever has the owner role, and a private community has no member but its creator.
\<close>

theorem community_authority:
  assumes "db = run comm_step empty_comm_db ops" "u = comm_actor r" "db' = comm_step db (e, r)"
  shows "(\<forall>i v. comm_role_of db' i v \<noteq> comm_role_of db i v \<longrightarrow>
      (v = u \<and> comm_role_of db i v = None \<and>
        (comm_role_of db' i v = Some CommOwner \<and> Comm_Get i db = None \<or>
         comm_role_of db' i v = Some CommMember \<and> (\<exists>c. Comm_Get i db = Some c \<and> cy_Kind c \<noteq> CommPrivate))) \<or>
      (v = u \<and> comm_role_of db i v \<noteq> Some CommOwner \<and> comm_role_of db' i v = None) \<or>
      (v \<noteq> u \<and> comm_role_of db i v \<in> {Some CommMember, Some CommAdmin} \<and> comm_role_of db' i v = None \<and>
         comm_role_of db i u \<in> {Some CommAdmin, Some CommOwner}) \<or>
      (v \<noteq> u \<and> comm_role_of db i v \<in> {Some CommMember, Some CommAdmin} \<and> comm_role_of db' i v \<in> {Some CommMember, Some CommAdmin} \<and>
         comm_role_of db i u = Some CommOwner) \<or>
      (comm_role_of db i u = Some CommOwner \<and> Comm_Get i db' = None)) \<and>
    (\<forall>i v q. comm_role_of db i v = Some q \<longrightarrow>
       (\<exists>c. Comm_Get i db = Some c \<and> (q = CommOwner \<or> cy_Kind c = CommPrivate \<longrightarrow> v = cy_OwnerID c)))"
proof -
  have ok: "comm_ok db" unfolding assms(1) by (rule comm.keep_run [OF comm_ok_empty])
  have t: "comm_trans u db db'" unfolding assms(2,3) by (rule comm_step_trans)
  have "\<exists>c. Comm_Get i db = Some c \<and> (q = CommOwner \<or> cy_Kind c = CommPrivate \<longrightarrow> v = cy_OwnerID c)"
    if "comm_role_of db i v = Some q" for i v q
    using comm_okD(3) [OF ok that] by blast
  then show ?thesis using comm_change [OF t ok] by blast
qed

section \<open>Failures\<close>

definition comm_env0 :: "string \<Rightarrow> comm_call set \<Rightarrow> comm_env" where
  "comm_env0 i down = \<lparr>cyn_now = 0, cyn_dbnow = 0, cyn_fails = (\<lambda>k. k \<in> down), cyn_id = i, cyn_group = (\<lambda>_ _. Inr ''g''),
     cyn_ilike = (\<lambda>_ _. False)\<rparr>"

lemma comm_trim: "TrimSpace ''club'' = ''club''"
  by (simp add: TrimSpace_plain plain_def)

lemmas comm_eval = comm_env0_def Service_CreateCommunity_def comm_parseKind_def Comm_ValidateCreate_def comm_trim CommMaxName_def
  CommMaxDescription_def CommKind_Valid_def CommPublic_def CommPrivate_def comm_write_def Comm_Create_def tbl_ins_def empty_comm_db_def
  Comm_AddMember_def comm_exists_def Service_JoinCommunity_def comm_load_def Comm_Get_def tbl_get_Cons Let_def comm_role_of_def
  Comm_GetMember_def roleOf_def

lemma community_authority_witness:
  "let db = run comm_step empty_comm_db [(comm_env0 ''c'' {}, RqCreate ''ann'' ''club'' [] ''public''), (comm_env0 [] {}, RqJoin ''bob'' ''c'')]
   in comm_role_of db ''c'' ''ann'' = Some CommOwner \<and> comm_role_of db ''c'' ''bob'' = Some CommMember \<and>
      comm_role_of (comm_step db (comm_env0 [] {}, RqRemove ''bob'' ''c'' ''ann'')) ''c'' ''ann'' = Some CommOwner"
proof -
  let ?ops = "[(comm_env0 ''c'' {}, RqCreate ''ann'' ''club'' [] ''public''), (comm_env0 [] {}, RqJoin ''bob'' ''c'')]"
  define db where "db = run comm_step empty_comm_db ?ops"
  have r: "comm_role_of db ''c'' ''ann'' = Some CommOwner" "comm_role_of db ''c'' ''bob'' = Some CommMember"
    by (simp_all add: db_def comm_eval)
  have "comm_role_of (comm_step db (comm_env0 [] {}, RqRemove ''bob'' ''c'' ''ann'')) ''c'' ''ann'' = comm_role_of db ''c'' ''ann''" (is "?l = ?r")
  proof (rule ccontr)
    assume ne: "?l \<noteq> ?r"
    note a = community_authority [OF db_def refl refl, where r = "RqRemove ''bob'' ''c'' ''ann''" and e = "comm_env0 [] {}",
      THEN conjunct1, THEN spec, of "''c''", THEN spec, of "''ann''", THEN mp, OF ne]
    show False using a unfolding comm_actor.simps r comm_roles by simp
  qed
  then show ?thesis using r unfolding Let_def db_def [symmetric] by simp
qed

lemma ownerless_step:
  assumes "comm_ok db" "Comm_Get i db = Some c" "\<forall>v. comm_role_of db i v \<noteq> Some CommOwner"
  shows "Comm_Get i (comm_step db x) = Some c \<and> (\<forall>v. comm_role_of (comm_step db x) i v \<noteq> Some CommOwner)"
proof -
  obtain e r where x: "x = (e, r)" by fastforce
  have t: "comm_trans (comm_actor r) db (comm_step db x)" unfolding x by (rule comm_step_trans)
  have "comm_role_of (comm_step db x) i v \<noteq> Some CommOwner" for v
    using comm_change [OF t assms(1), of i v] assms(2,3) by (cases "comm_role_of (comm_step db x) i v = comm_role_of db i v") (auto simp: comm_roles)
  moreover have "Comm_Get i (comm_step db x) = Some c"
    using t
  proof cases
    case same
    then show ?thesis using assms(2) by (simp add: Comm_Get_def)
  next
    case (create ca)
    then show ?thesis using assms(2) get_create [OF create(1)] by auto
  next
    case (create_owner ca db1 now)
    then show ?thesis using assms(2) get_create [OF create_owner(1)] get_add(1) [OF create_owner(3)] by auto
  next
    case (delete j)
    then show ?thesis using assms by auto
  qed (use assms(2) in \<open>auto simp: get_add(1)\<close>)
  ultimately show ?thesis by blast
qed

text \<open>
  When the second write of a creation fails, the caller is told to retry, but the community stays, without an owner for ever: no
  request can delete it or give it one, and its creator can only join it as a plain member.
\<close>

lemma failed_create_leaves_ownerless_community:
  assumes "db = comm_step empty_comm_db (comm_env0 ''c'' {CyAdd}, RqCreate ''ann'' ''club'' [] ''public'')"
  shows "fst (Service_CreateCommunity (comm_env0 ''c'' {CyAdd}) ''ann'' ''club'' [] ''public'' empty_comm_db) = Inl Transient \<and>
    Comm_Get ''c'' (run comm_step db ops) \<noteq> None \<and> comm_role_of (run comm_step db ops) ''c'' v \<noteq> Some CommOwner"
proof -
  have "comm_ok (run comm_step d xs) \<and> Comm_Get i (run comm_step d xs) = Some c \<and> (\<forall>v. comm_role_of (run comm_step d xs) i v \<noteq> Some CommOwner)"
    if "comm_ok d" "Comm_Get i d = Some c" "\<forall>v. comm_role_of d i v \<noteq> Some CommOwner" for d i c xs
    using that by (induction xs arbitrary: d) (simp_all add: comm_ok_step ownerless_step)
  moreover have "comm_ok db" unfolding assms by (rule comm_ok_step [OF comm_ok_empty])
  moreover have "\<exists>c. Comm_Get ''c'' db = Some c" "\<forall>v. comm_role_of db ''c'' v \<noteq> Some CommOwner" unfolding assms by (simp_all add: comm_eval)
  ultimately have "Comm_Get ''c'' (run comm_step db ops) \<noteq> None \<and> comm_role_of (run comm_step db ops) ''c'' v \<noteq> Some CommOwner" by blast
  then show ?thesis by (simp add: comm_eval)
qed

text \<open>A member whose request to leave meets a failing read is told that it left, and is still a member.\<close>

lemma failed_leave_reports_success:
  assumes "cyn_fails e CyGetMember"
  shows "Service_LeaveCommunity e u i db = (Inr (), db)"
  using assms by (simp add: Service_LeaveCommunity_def roleOf_def)

end
