(* ===== verification/DeviceAuth.thy ===== *)
theory DeviceAuth
  imports AuthDomain "HOL-Library.Word"
begin

text \<open>
  Passkeys and the audit of sign-ins (\<^verbatim>\<open>deviceauth/\<close>): the WebAuthn checks, the tables of credentials, challenges and
  sign-ins, and the service. Hashing, signature verification, the test of curve points and the JSON decoder are parameters.
\<close>

unbundle bit_operations_syntax

section \<open>WebAuthn\<close>

definition AlgES256 :: int where "AlgES256 = - 7"
definition AlgEdDSA :: int where "AlgEdDSA = - 8"

datatype webauthn_error = WaBadClientData | WaClientType | WaChallenge | WaOrigin | WaBadAuthData | WaUserPresence | WaRPID
  | WaSignature | WaUnsupported | WaBadKey | WaSignCount

record client_data =
  cld_Type :: string
  cld_Challenge :: string
  cld_Origin :: string

text \<open>
  The libraries: SHA-256, whether a SEC1 point is a P-256 public key, ECDSA and Ed25519 verification, and the decoder of
  client data.
\<close>

record webauthn_lib =
  wl_sha256 :: "string \<Rightarrow> string"
  wl_p256 :: "string \<Rightarrow> bool"
  wl_ecdsa :: "string \<times> string \<Rightarrow> string \<Rightarrow> string \<Rightarrow> bool"
  wl_ed25519 :: "string \<Rightarrow> string \<Rightarrow> string \<Rightarrow> bool"
  wl_json :: "string \<Rightarrow> client_data option"

definition GenChallenge :: "string \<Rightarrow> string option" where
  "GenChallenge entropy = map_option (\<lambda>(buf, _). RawURL_Encode buf) (ReadFull 32 entropy)"

definition ParseClientData :: "webauthn_lib \<Rightarrow> string \<Rightarrow> client_data option" where
  "ParseClientData lib b = wl_json lib b"

definition byte_word :: "char \<Rightarrow> 8 word" where
  "byte_word c = of_nat (byte c)"

definition subtleEq :: "string \<Rightarrow> string \<Rightarrow> bool" where
  "subtleEq a b =
     (if length a \<noteq> length b then False
      else fold (\<lambda>(x, y) v. v OR (byte_word x XOR byte_word y)) (zip a b) 0 = 0)"

definition VerifyClientData :: "client_data \<Rightarrow> string \<Rightarrow> string \<Rightarrow> string \<Rightarrow> webauthn_error option" where
  "VerifyClientData cd wantType wantChallenge wantOrigin =
     (if cld_Type cd \<noteq> wantType then Some WaClientType
      else if \<not> subtleEq (cld_Challenge cd) wantChallenge then Some WaChallenge
      else if cld_Origin cd \<noteq> wantOrigin then Some WaOrigin
      else None)"

record auth_data =
  ad_RPIDHash :: string
  ad_Flags :: "8 word"
  ad_SignCount :: "32 word"

definition flagUserPresent :: "8 word" where "flagUserPresent = 1"

definition BigEndian_Uint32 :: "string \<Rightarrow> 32 word" where
  "BigEndian_Uint32 bs = fold (\<lambda>c n. push_bit 8 n OR of_nat (byte c)) bs 0"

definition ParseAuthData :: "string \<Rightarrow> auth_data option" where
  "ParseAuthData b =
     (if length b < 37 then None
      else Some \<lparr>ad_RPIDHash = take 32 b, ad_Flags = byte_word (b ! 32), ad_SignCount = BigEndian_Uint32 (take 4 (drop 33 b))\<rparr>)"

definition CheckAuthData :: "webauthn_lib \<Rightarrow> auth_data \<Rightarrow> string \<Rightarrow> webauthn_error option" where
  "CheckAuthData lib ad rpID =
     (if ad_Flags ad AND flagUserPresent = 0 then Some WaUserPresence
      else if ad_RPIDHash ad \<noteq> wl_sha256 lib rpID then Some WaRPID
      else None)"

record domain_cred =
  dc_Alg :: int
  dc_X :: string
  dc_Y :: string
  dc_Ed :: string

definition es256PublicKey :: "webauthn_lib \<Rightarrow> string \<Rightarrow> string \<Rightarrow> (string \<times> string) option" where
  "es256PublicKey lib x y =
     (if length x \<noteq> 32 \<or> length y \<noteq> 32 then None
      else if \<not> wl_p256 lib (CHR 0x04 # x @ y) then None
      else Some (x, y))"

definition VerifyAssertion :: "webauthn_lib \<Rightarrow> domain_cred \<Rightarrow> string \<Rightarrow> string \<Rightarrow> string \<Rightarrow> webauthn_error option" where
  "VerifyAssertion lib cred authData clientDataJSON sig =
     (let cdHash = wl_sha256 lib clientDataJSON;
          signed = authData @ cdHash
      in if dc_Alg cred = AlgES256 then
           case es256PublicKey lib (dc_X cred) (dc_Y cred) of
             None \<Rightarrow> Some WaBadKey
           | Some pub \<Rightarrow> if \<not> wl_ecdsa lib pub (wl_sha256 lib signed) sig then Some WaSignature else None
         else if dc_Alg cred = AlgEdDSA then
           if length (dc_Ed cred) \<noteq> 32 then Some WaBadKey
           else if \<not> wl_ed25519 lib (dc_Ed cred) signed sig then Some WaSignature
           else None
         else Some WaUnsupported)"

definition NextSignCount :: "32 word \<Rightarrow> 32 word \<Rightarrow> webauthn_error + 32 word" where
  "NextSignCount stored presented =
     (if stored = 0 \<and> presented = 0 then Inr 0
      else if presented \<le> stored then Inl WaSignCount
      else Inr presented)"

definition DecodeB64URL :: "string \<Rightarrow> string option" where
  "DecodeB64URL s = RawURL_Decode s"

fun IsSuspiciousLogin :: "string list \<Rightarrow> string \<Rightarrow> bool" where
  "IsSuspiciousLogin known ip = (if ip = [] then False else ip \<notin> set known)"

section \<open>The store\<close>

record passkey =
  pk_ID :: string
  pk_UserID :: string
  pk_Alg :: int
  pk_PublicKey :: string
  pk_SignCount :: int
  pk_Name :: string
  pk_CreatedAt :: instant
  pk_LastUsedAt :: "instant option"

record wa_challenge =
  wc_Value :: string
  wc_UserID :: string
  wc_Purpose :: string
  wc_ExpiresAt :: instant

record login_event =
  le_ID :: string
  le_UserID :: string
  le_DeviceID :: "string option"
  le_IP :: string
  le_UserAgent :: string
  le_At :: instant
  le_Suspicious :: bool

record passkey_db =
  pkd_Creds :: "passkey list"
  pkd_Challenges :: "wa_challenge list"
  pkd_Logins :: "login_event list"

definition empty_passkey_db :: passkey_db where
  "empty_passkey_db = \<lparr>pkd_Creds = [], pkd_Challenges = [], pkd_Logins = []\<rparr>"

definition SaveChallenge :: "wa_challenge \<Rightarrow> passkey_db \<Rightarrow> passkey_db option" where
  "SaveChallenge c db = map_option (\<lambda>t. db\<lparr>pkd_Challenges := t\<rparr>) (tbl_ins wc_Value c (pkd_Challenges db))"

definition TakeChallenge :: "string \<Rightarrow> passkey_db \<Rightarrow> wa_challenge option \<times> passkey_db" where
  "TakeChallenge v db =
     (tbl_get wc_Value v (pkd_Challenges db), db\<lparr>pkd_Challenges := tbl_del wc_Value v (pkd_Challenges db)\<rparr>)"

definition CreateCredential :: "passkey \<Rightarrow> passkey_db \<Rightarrow> passkey_db option" where
  "CreateCredential c db =
     map_option (\<lambda>t. db\<lparr>pkd_Creds := t\<rparr>) (tbl_ins pk_ID (c\<lparr>pk_LastUsedAt := None\<rparr>) (pkd_Creds db))"

definition GetCredential :: "string \<Rightarrow> passkey_db \<Rightarrow> passkey option" where
  "GetCredential i db = tbl_get pk_ID i (pkd_Creds db)"

definition ListCredentials :: "string \<Rightarrow> passkey_db \<Rightarrow> passkey list" where
  "ListCredentials u db = order_asc pk_CreatedAt (filter (\<lambda>c. pk_UserID c = u) (pkd_Creds db))"

definition UpdateSignCount :: "string \<Rightarrow> 32 word \<Rightarrow> instant \<Rightarrow> passkey_db \<Rightarrow> passkey_db" where
  "UpdateSignCount i n t db =
     db\<lparr>pkd_Creds := tbl_upd pk_ID i (\<lambda>c. c\<lparr>pk_SignCount := uint n, pk_LastUsedAt := Some t\<rparr>) (pkd_Creds db)\<rparr>"

definition DeleteCredential :: "string \<Rightarrow> string \<Rightarrow> passkey_db \<Rightarrow> passkey_db" where
  "DeleteCredential u i db = db\<lparr>pkd_Creds := filter (\<lambda>c. \<not> (pk_ID c = i \<and> pk_UserID c = u)) (pkd_Creds db)\<rparr>"

definition RecordLogin :: "login_event \<Rightarrow> passkey_db \<Rightarrow> passkey_db option" where
  "RecordLogin l db = map_option (\<lambda>t. db\<lparr>pkd_Logins := t\<rparr>) (tbl_ins le_ID l (pkd_Logins db))"

definition KnownIPs :: "string \<Rightarrow> passkey_db \<Rightarrow> string list" where
  "KnownIPs u db = remdups (map le_IP (filter (\<lambda>l. le_UserID l = u \<and> le_IP l \<noteq> []) (pkd_Logins db)))"

definition Store_RecentLogins :: "string \<Rightarrow> nat \<Rightarrow> passkey_db \<Rightarrow> login_event list" where
  "Store_RecentLogins u limit db = take limit (order_desc le_At (filter (\<lambda>l. le_UserID l = u) (pkd_Logins db)))"

section \<open>The service\<close>

definition challengeTTL :: duration where "challengeTTL = 5 * Minute"
definition maxCredsPerUser :: nat where "maxCredsPerUser = 20"
definition recentLoginsMax :: nat where "recentLoginsMax = 50"

datatype passkey_call = PkSave | PkTake | PkCreate | PkGet | PkList | PkUpdate | PkDelete | PkRecord | PkKnown | PkRecent

record passkey_env =
  pe_now :: instant
  pe_fails :: "passkey_call \<Rightarrow> bool"
  pe_entropy :: string
  pe_id :: string
  pe_rpID :: string
  pe_origin :: string

definition issue :: "passkey_env \<Rightarrow> string \<Rightarrow> string \<Rightarrow> passkey_db \<Rightarrow> string result \<times> passkey_db" where
  "issue e u purpose db =
     (case GenChallenge (pe_entropy e) of
        None \<Rightarrow> (Inl Transient, db)
      | Some ch \<Rightarrow>
          if pe_fails e PkSave then (Inl Transient, db)
          else case SaveChallenge \<lparr>wc_Value = ch, wc_UserID = u, wc_Purpose = purpose, wc_ExpiresAt = pe_now e + challengeTTL\<rparr> db of
            None \<Rightarrow> (Inl Transient, db)
          | Some db1 \<Rightarrow> (Inr ch, db1))"

definition consumeClientData ::
  "webauthn_lib \<Rightarrow> passkey_env \<Rightarrow> string \<Rightarrow> string \<Rightarrow> string \<Rightarrow> string \<Rightarrow> passkey_db \<Rightarrow> client_data result \<times> passkey_db" where
  "consumeClientData lib e u purpose wantType clientDataB64 db =
     (case DecodeB64URL clientDataB64 of
        None \<Rightarrow> (Inl (Reject 400 ''VALIDATION_CLIENTDATA''), db)
      | Some raw \<Rightarrow>
      case ParseClientData lib raw of
        None \<Rightarrow> (Inl (Reject 400 ''VALIDATION_CLIENTDATA''), db)
      | Some cd \<Rightarrow>
      if pe_fails e PkTake then (Inl Transient, db)
      else case TakeChallenge (cld_Challenge cd) db of
        (None, db1) \<Rightarrow> (Inl (Reject 401 ''AUTH_CHALLENGE''), db1)
      | (Some ch, db1) \<Rightarrow>
          if wc_UserID ch \<noteq> u \<or> wc_Purpose ch \<noteq> purpose then (Inl (Reject 401 ''AUTH_CHALLENGE''), db1)
          else if pe_now e > wc_ExpiresAt ch then (Inl (Reject 401 ''AUTH_CHALLENGE_EXPIRED''), db1)
          else if VerifyClientData cd wantType (wc_Value ch) (pe_origin e) \<noteq> None then (Inl (Reject 401 ''AUTH_CLIENTDATA''), db1)
          else (Inr cd, db1))"

definition toDomainCred :: "passkey \<Rightarrow> domain_cred" where
  "toDomainCred c =
     (if pk_Alg c = AlgEdDSA then \<lparr>dc_Alg = pk_Alg c, dc_X = [], dc_Y = [], dc_Ed = pk_PublicKey c\<rparr>
      else \<lparr>dc_Alg = pk_Alg c, dc_X = take 32 (pk_PublicKey c), dc_Y = take 32 (drop 32 (pk_PublicKey c)), dc_Ed = []\<rparr>)"

definition validKeyLen :: "int \<Rightarrow> nat \<Rightarrow> bool" where
  "validKeyLen alg n \<longleftrightarrow> (if alg = AlgEdDSA then n = 32 else n = 64)"

definition nameOr :: "string \<Rightarrow> string" where
  "nameOr name =
     (let n = TrimSpace name in if n = [] then ''Passkey'' else if length n > 60 then take 60 n else n)"

definition BeginRegistration :: "passkey_env \<Rightarrow> string \<Rightarrow> passkey_db \<Rightarrow> string result \<times> passkey_db" where
  "BeginRegistration e u db = issue e u ''register'' db"

record finish_registration =
  fr_CredentialID :: string
  fr_Alg :: int
  fr_PublicKeyB64 :: string
  fr_ClientDataJSON :: string
  fr_Name :: string

definition FinishRegistration ::
  "webauthn_lib \<Rightarrow> passkey_env \<Rightarrow> string \<Rightarrow> finish_registration \<Rightarrow> passkey_db \<Rightarrow> unit result \<times> passkey_db" where
  "FinishRegistration lib e u inp db =
     (case consumeClientData lib e u ''register'' ''webauthn.create'' (fr_ClientDataJSON inp) db of
        (Inl err, db1) \<Rightarrow> (Inl err, db1)
      | (Inr _, db1) \<Rightarrow>
          if fr_Alg inp \<noteq> AlgES256 \<and> fr_Alg inp \<noteq> AlgEdDSA then (Inl (Reject 400 ''VALIDATION_ALG''), db1)
          else case DecodeB64URL (fr_PublicKeyB64 inp) of
            None \<Rightarrow> (Inl (Reject 400 ''VALIDATION_KEY''), db1)
          | Some pub \<Rightarrow>
              if \<not> validKeyLen (fr_Alg inp) (length pub) then (Inl (Reject 400 ''VALIDATION_KEY''), db1)
              else if TrimSpace (fr_CredentialID inp) = [] then (Inl (Reject 400 ''VALIDATION_CRED''), db1)
              else if pe_fails e PkList then (Inl Transient, db1)
              else if length (ListCredentials u db1) \<ge> maxCredsPerUser then (Inl (Reject 409 ''STATE_TOO_MANY_KEYS''), db1)
              else if pe_fails e PkCreate then (Inl Transient, db1)
              else case CreateCredential \<lparr>pk_ID = fr_CredentialID inp, pk_UserID = u, pk_Alg = fr_Alg inp, pk_PublicKey = pub,
                           pk_SignCount = 0, pk_Name = nameOr (fr_Name inp), pk_CreatedAt = pe_now e, pk_LastUsedAt = None\<rparr> db1 of
                None \<Rightarrow> (Inl Transient, db1)
              | Some db2 \<Rightarrow> (Inr (), db2))"

definition BeginLogin :: "passkey_env \<Rightarrow> string \<Rightarrow> passkey_db \<Rightarrow> (string \<times> string list) result \<times> passkey_db" where
  "BeginLogin e u db =
     (if pe_fails e PkList then (Inl Transient, db)
      else case issue e u ''login'' db of
        (Inl err, db1) \<Rightarrow> (Inl err, db1)
      | (Inr ch, db1) \<Rightarrow> (Inr (ch, map pk_ID (ListCredentials u db)), db1))"

record finish_login =
  fn_CredentialID :: string
  fn_AuthenticatorData :: string
  fn_ClientDataJSON :: string
  fn_Signature :: string

definition FinishLogin ::
  "webauthn_lib \<Rightarrow> passkey_env \<Rightarrow> string \<Rightarrow> finish_login \<Rightarrow> passkey_db \<Rightarrow> unit result \<times> passkey_db" where
  "FinishLogin lib e u inp db =
     (case consumeClientData lib e u ''login'' ''webauthn.get'' (fn_ClientDataJSON inp) db of
        (Inl err, db1) \<Rightarrow> (Inl err, db1)
      | (Inr _, db1) \<Rightarrow>
          if pe_fails e PkGet then (Inl Transient, db1)
          else case GetCredential (fn_CredentialID inp) db1 of
            None \<Rightarrow> (Inl (Reject 401 ''AUTH_PASSKEY''), db1)
          | Some cred \<Rightarrow>
              if pk_UserID cred \<noteq> u then (Inl (Reject 401 ''AUTH_PASSKEY''), db1)
              else case (DecodeB64URL (fn_AuthenticatorData inp), DecodeB64URL (fn_ClientDataJSON inp), DecodeB64URL (fn_Signature inp)) of
                (Some authData, Some clientData, Some sig) \<Rightarrow>
                  (case ParseAuthData authData of
                     None \<Rightarrow> (Inl (Reject 400 ''VALIDATION_ASSERTION''), db1)
                   | Some ad \<Rightarrow>
                       if CheckAuthData lib ad (pe_rpID e) \<noteq> None then (Inl (Reject 401 ''AUTH_PASSKEY''), db1)
                       else if VerifyAssertion lib (toDomainCred cred) authData clientData sig \<noteq> None
                       then (Inl (Reject 401 ''AUTH_PASSKEY''), db1)
                       else case NextSignCount (word_of_int (pk_SignCount cred)) (ad_SignCount ad) of
                         Inl _ \<Rightarrow> (Inl (Reject 401 ''AUTH_PASSKEY_CLONE''), db1)
                       | Inr nxt \<Rightarrow>
                           (Inr (), if pe_fails e PkUpdate then db1 else UpdateSignCount (pk_ID cred) nxt (pe_now e) db1))
              | _ \<Rightarrow> (Inl (Reject 400 ''VALIDATION_ASSERTION''), db1))"

record passkey_view =
  pv_ID :: string
  pv_Name :: string
  pv_CreatedAtMS :: int
  pv_LastUsedAtMS :: int

definition ListPasskeys :: "passkey_env \<Rightarrow> string \<Rightarrow> passkey_db \<Rightarrow> passkey_view list result" where
  "ListPasskeys e u db =
     (if pe_fails e PkList then Inl Transient
      else Inr (map (\<lambda>c. \<lparr>pv_ID = pk_ID c, pv_Name = pk_Name c, pv_CreatedAtMS = pk_CreatedAt c div Millisecond,
             pv_LastUsedAtMS = (case pk_LastUsedAt c of None \<Rightarrow> 0 | Some t \<Rightarrow> t div Millisecond)\<rparr>) (ListCredentials u db)))"

definition DeletePasskey :: "passkey_env \<Rightarrow> string \<Rightarrow> string \<Rightarrow> passkey_db \<Rightarrow> unit result \<times> passkey_db" where
  "DeletePasskey e u i db = (if pe_fails e PkDelete then (Inl Transient, db) else (Inr (), DeleteCredential u i db))"

definition Observe :: "passkey_env \<Rightarrow> string \<Rightarrow> string \<Rightarrow> string \<Rightarrow> string \<Rightarrow> passkey_db \<Rightarrow> passkey_db" where
  "Observe e u device ip agent db =
     (if u = [] then db
      else
        let known = (if pe_fails e PkKnown then [] else KnownIPs u db);
            ev = \<lparr>le_ID = pe_id e, le_UserID = u, le_DeviceID = (if device = [] then None else Some device), le_IP = ip,
                  le_UserAgent = agent, le_At = pe_now e, le_Suspicious = IsSuspiciousLogin known ip\<rparr>
        in if pe_fails e PkRecord then db
           else case RecordLogin ev db of None \<Rightarrow> db | Some db1 \<Rightarrow> db1)"

record login_view =
  lv_DeviceID :: string
  lv_IP :: string
  lv_UserAgent :: string
  lv_AtMS :: int
  lv_Suspicious :: bool

definition RecentLogins :: "passkey_env \<Rightarrow> string \<Rightarrow> passkey_db \<Rightarrow> login_view list result" where
  "RecentLogins e u db =
     (if pe_fails e PkRecent then Inl Transient
      else Inr (map (\<lambda>l. \<lparr>lv_DeviceID = (case le_DeviceID l of None \<Rightarrow> [] | Some d \<Rightarrow> d), lv_IP = le_IP l, lv_UserAgent = le_UserAgent l,
             lv_AtMS = le_At l div Millisecond, lv_Suspicious = le_Suspicious l\<rparr>) (Store_RecentLogins u recentLoginsMax db)))"

section \<open>Requests\<close>

datatype passkey_req =
    PkBeginRegistration string
  | PkFinishRegistration string finish_registration
  | PkBeginLogin string
  | PkFinishLogin string finish_login
  | PkRemove string string
  | PkObserve string string string string

fun passkey_step :: "webauthn_lib \<Rightarrow> passkey_db \<Rightarrow> passkey_env \<times> passkey_req \<Rightarrow> passkey_db" where
  "passkey_step lib db (e, PkBeginRegistration u) = snd (BeginRegistration e u db)"
| "passkey_step lib db (e, PkFinishRegistration u inp) = snd (FinishRegistration lib e u inp db)"
| "passkey_step lib db (e, PkBeginLogin u) = snd (BeginLogin e u db)"
| "passkey_step lib db (e, PkFinishLogin u inp) = snd (FinishLogin lib e u inp db)"
| "passkey_step lib db (e, PkRemove u i) = snd (DeletePasskey e u i db)"
| "passkey_step lib db (e, PkObserve u d ip a) = Observe e u d ip a db"

end
