(* ===== verification/DeviceAuthProps.thy ===== *)
theory DeviceAuthProps
  imports DeviceAuth
begin

text \<open>
  What a passkey login proves: a fresh challenge of the caller that no ceremony has used before, a signature under a key the
  caller enrolled, and a sign count beyond those seen; and when the last of these is lost.
\<close>

unbundle bit_operations_syntax

section \<open>Comparison in constant time\<close>

lemma byte_word_inj: "byte_word x = byte_word y \<longleftrightarrow> x = y"
proof
  assume "byte_word x = byte_word y"
  then have "take_bit 8 (byte x) = take_bit 8 (byte y)" by (simp add: byte_word_def word_of_nat_eq_iff)
  moreover have "take_bit 8 (byte c) = byte c" for c :: char
    using nat_of_char_less_256 [of c] by (simp add: take_bit_nat_eq_self)
  ultimately show "x = y" by (metis of_char_eq_iff)
qed simp

lemma subtleEq_iff: "subtleEq a b \<longleftrightarrow> a = b"
proof -
  have "fold (\<lambda>(x, y) v. v OR (byte_word x XOR byte_word y)) ps (w :: 8 word) = 0 \<longleftrightarrow> w = 0 \<and> (\<forall>(x, y) \<in> set ps. x = y)" for ps w
  proof (induction ps arbitrary: w)
    case (Cons p ps)
    have "byte_word x XOR byte_word y = 0 \<longleftrightarrow> x = y" for x y by (simp add: byte_word_inj [symmetric] bit_eq_iff bit_simps)
    then show ?case using Cons by (cases p) (auto simp: or_eq_0_iff)
  qed simp
  then show ?thesis by (auto simp: subtleEq_def list_eq_iff_zip_eq)
qed

section \<open>Histories\<close>

text \<open>Each request with the state it met; which challenge it issued, which one a completed ceremony used, and what it enrolled.\<close>

type_synonym passkey_visit = "passkey_db \<times> passkey_env \<times> passkey_req"

fun visits :: "webauthn_lib \<Rightarrow> passkey_db \<Rightarrow> (passkey_env \<times> passkey_req) list \<Rightarrow> passkey_visit list" where
  "visits lib db [] = []"
| "visits lib db (x # xs) = (db, x) # visits lib (passkey_step lib db x) xs"

lemma visits_snoc: "visits lib db (xs @ [x]) = visits lib db xs @ [(run (passkey_step lib) db xs, x)]"
  by (induction xs arbitrary: db) auto

fun issued_by :: "passkey_visit \<Rightarrow> (string \<times> string \<times> string \<times> instant) option" where
  "issued_by (db, e, PkBeginLogin u) = (case fst (BeginLogin e u db) of Inl _ \<Rightarrow> None | Inr (ch, _) \<Rightarrow> Some (ch, u, ''login'', pe_now e))"
| "issued_by (db, e, PkBeginRegistration u) =
     (case fst (BeginRegistration e u db) of Inl _ \<Rightarrow> None | Inr ch \<Rightarrow> Some (ch, u, ''register'', pe_now e))"
| "issued_by v = None"

definition client_challenge :: "webauthn_lib \<Rightarrow> string \<Rightarrow> string option" where
  "client_challenge lib b64 =
     (case DecodeB64URL b64 of None \<Rightarrow> None | Some raw \<Rightarrow> map_option cld_Challenge (ParseClientData lib raw))"

fun used_by :: "webauthn_lib \<Rightarrow> passkey_visit \<Rightarrow> string option" where
  "used_by lib (db, e, PkFinishLogin u inp) =
     (if fst (FinishLogin lib e u inp db) = Inr () then client_challenge lib (fn_ClientDataJSON inp) else None)"
| "used_by lib (db, e, PkFinishRegistration u inp) =
     (if fst (FinishRegistration lib e u inp db) = Inr () then client_challenge lib (fr_ClientDataJSON inp) else None)"
| "used_by lib v = None"

fun enrolled_by :: "webauthn_lib \<Rightarrow> passkey_visit \<Rightarrow> (string \<times> string \<times> int \<times> string) option" where
  "enrolled_by lib (db, e, PkFinishRegistration u inp) =
     (if fst (FinishRegistration lib e u inp db) = Inr ()
      then map_option (\<lambda>key. (fr_CredentialID inp, u, fr_Alg inp, key)) (DecodeB64URL (fr_PublicKeyB64 inp)) else None)"
| "enrolled_by lib v = None"

definition times_issued :: "string \<Rightarrow> passkey_visit list \<Rightarrow> nat" where
  "times_issued c vs = length (filter (\<lambda>v. map_option fst (issued_by v) = Some c) vs)"

definition times_used :: "webauthn_lib \<Rightarrow> string \<Rightarrow> passkey_visit list \<Rightarrow> nat" where
  "times_used lib c vs = length (filter (\<lambda>v. used_by lib v = Some c) vs)"

section \<open>What the handlers do\<close>

lemma issue_cases:
  assumes "issue e u p db = (r, db')"
  shows "(\<exists>err. r = Inl err) \<and> db' = db \<or>
    (\<exists>ch. r = Inr ch \<and> ch \<notin> wc_Value ` set (pkd_Challenges db) \<and>
      db' = db\<lparr>pkd_Challenges := pkd_Challenges db @ [\<lparr>wc_Value = ch, wc_UserID = u, wc_Purpose = p, wc_ExpiresAt = pe_now e + challengeTTL\<rparr>]\<rparr>)"
  using assms by (auto simp: issue_def SaveChallenge_def tbl_ins_Some split: option.splits if_splits)

lemma issue_creds: "pkd_Creds (snd (issue e u p db)) = pkd_Creds db"
proof -
  obtain r db' where i: "issue e u p db = (r, db')" by fastforce
  from issue_cases [OF i] show ?thesis unfolding i by auto
qed

lemma record_frame: "RecordLogin l db = Some db1 \<Longrightarrow> pkd_Creds db1 = pkd_Creds db \<and> pkd_Challenges db1 = pkd_Challenges db"
  by (auto simp: RecordLogin_def)

lemma observe_frame:
  "pkd_Creds (Observe e u d ip a db) = pkd_Creds db" "pkd_Challenges (Observe e u d ip a db) = pkd_Challenges db"
  unfolding Observe_def Let_def by (simp_all add: record_frame split: option.split)

lemma consume_cases:
  assumes "consumeClientData lib e u p ty b64 db = (r, db')"
  shows "(db' = db \<or> (\<exists>v. db' = db\<lparr>pkd_Challenges := tbl_del wc_Value v (pkd_Challenges db)\<rparr>)) \<and>
    (\<forall>cd. r = Inr cd \<longrightarrow> client_challenge lib b64 = Some (cld_Challenge cd) \<and> cld_Type cd = ty \<and> cld_Origin cd = pe_origin e \<and>
      (\<exists>raw. DecodeB64URL b64 = Some raw \<and> ParseClientData lib raw = Some cd) \<and>
      (\<exists>ch \<in> set (pkd_Challenges db). wc_Value ch = cld_Challenge cd \<and> wc_UserID ch = u \<and> wc_Purpose ch = p \<and> pe_now e \<le> wc_ExpiresAt ch) \<and>
      db' = db\<lparr>pkd_Challenges := tbl_del wc_Value (cld_Challenge cd) (pkd_Challenges db)\<rparr>)"
  using assms
  by (auto simp: consumeClientData_def client_challenge_def TakeChallenge_def VerifyClientData_def subtleEq_iff
      dest!: tbl_get_Some split: option.splits if_splits prod.splits)

lemma login_consumes:
  "\<exists>r db1. consumeClientData lib e u ''login'' ''webauthn.get'' (fn_ClientDataJSON inp) db = (r, db1) \<and>
     (snd (FinishLogin lib e u inp db) = db1 \<or> (\<exists>i n t. snd (FinishLogin lib e u inp db) = UpdateSignCount i n t db1)) \<and>
     (fst (FinishLogin lib e u inp db) = Inr () \<longrightarrow> (\<exists>cd. r = Inr cd))"
  by (cases "consumeClientData lib e u ''login'' ''webauthn.get'' (fn_ClientDataJSON inp) db")
    (auto simp: FinishLogin_def split: sum.split option.split)

lemma login_done:
  assumes f: "FinishLogin lib e u inp db = (Inr (), db')"
    and c: "consumeClientData lib e u ''login'' ''webauthn.get'' (fn_ClientDataJSON inp) db = (r, db1)"
  obtains cd k authData raw sig ad nxt where "r = Inr cd" "GetCredential (fn_CredentialID inp) db1 = Some k" "pk_UserID k = u"
    "DecodeB64URL (fn_AuthenticatorData inp) = Some authData" "DecodeB64URL (fn_ClientDataJSON inp) = Some raw"
    "DecodeB64URL (fn_Signature inp) = Some sig" "ParseAuthData authData = Some ad" "CheckAuthData lib ad (pe_rpID e) = None"
    "VerifyAssertion lib (toDomainCred k) authData raw sig = None"
    "NextSignCount (word_of_int (pk_SignCount k)) (ad_SignCount ad) = Inr nxt"
    "db' = (if pe_fails e PkUpdate then db1 else UpdateSignCount (pk_ID k) nxt (pe_now e) db1)"
proof -
  obtain cd where r: "r = Inr cd" using f by (cases r) (simp_all add: FinishLogin_def c)
  have g: "\<not> pe_fails e PkGet" using f by (auto simp: FinishLogin_def c r)
  obtain k where k: "GetCredential (fn_CredentialID inp) db1 = Some k"
    using f by (cases "GetCredential (fn_CredentialID inp) db1") (simp_all add: FinishLogin_def c r g)
  have u: "pk_UserID k = u" using f by (auto simp: FinishLogin_def c r g k split: if_splits)
  note fl = FinishLogin_def c r g k u
  obtain authData where a: "DecodeB64URL (fn_AuthenticatorData inp) = Some authData"
    using f by (cases "DecodeB64URL (fn_AuthenticatorData inp)") (simp_all add: fl)
  obtain raw where b: "DecodeB64URL (fn_ClientDataJSON inp) = Some raw"
    using f by (cases "DecodeB64URL (fn_ClientDataJSON inp)") (simp_all add: fl a)
  obtain sig where s: "DecodeB64URL (fn_Signature inp) = Some sig"
    using f by (cases "DecodeB64URL (fn_Signature inp)") (simp_all add: fl a b)
  obtain ad where ad: "ParseAuthData authData = Some ad" using f by (cases "ParseAuthData authData") (simp_all add: fl a b s)
  have v: "CheckAuthData lib ad (pe_rpID e) = None" using f by (auto simp: fl a b s ad split: if_splits)
  have w: "VerifyAssertion lib (toDomainCred k) authData raw sig = None" using f by (auto simp: fl a b s ad v split: if_splits)
  obtain nxt where n: "NextSignCount (word_of_int (pk_SignCount k)) (ad_SignCount ad) = Inr nxt"
    using f by (cases "NextSignCount (word_of_int (pk_SignCount k)) (ad_SignCount ad)") (simp_all add: fl a b s ad v w)
  have "db' = (if pe_fails e PkUpdate then db1 else UpdateSignCount (pk_ID k) nxt (pe_now e) db1)"
    using f by (simp add: fl a b s ad v w n split: if_splits)
  from that [OF r k u a b s ad v w n this] show thesis .
qed

lemma registration_consumes:
  assumes "consumeClientData lib e u ''register'' ''webauthn.create'' (fr_ClientDataJSON inp) db = (r, db1)"
  shows "(fst (FinishRegistration lib e u inp db) \<noteq> Inr () \<and> snd (FinishRegistration lib e u inp db) = db1) \<or>
     (fst (FinishRegistration lib e u inp db) = Inr () \<and> (\<exists>cd. r = Inr cd) \<and>
      (\<exists>key. DecodeB64URL (fr_PublicKeyB64 inp) = Some key \<and> fr_CredentialID inp \<notin> pk_ID ` set (pkd_Creds db1) \<and>
        snd (FinishRegistration lib e u inp db) = db1\<lparr>pkd_Creds := pkd_Creds db1 @ [\<lparr>pk_ID = fr_CredentialID inp, pk_UserID = u, pk_Alg = fr_Alg inp,
          pk_PublicKey = key, pk_SignCount = 0, pk_Name = nameOr (fr_Name inp), pk_CreatedAt = pe_now e, pk_LastUsedAt = None\<rparr>]\<rparr>))"
  using assms
  by (auto simp: FinishRegistration_def CreateCredential_def tbl_ins_Some split: sum.split option.split)

section \<open>The invariant of histories\<close>

text \<open>A ceremony takes its challenge away, so the challenges in use and in store are never more than those issued.\<close>

definition history_ok :: "webauthn_lib \<Rightarrow> passkey_visit list \<Rightarrow> passkey_db \<Rightarrow> bool" where
  "history_ok lib vs db \<longleftrightarrow> tbl_wf wc_Value (pkd_Challenges db) \<and>
     (\<forall>c. times_used lib c vs + (if c \<in> wc_Value ` set (pkd_Challenges db) then 1 else 0) \<le> times_issued c vs) \<and>
     (\<forall>ch \<in> set (pkd_Challenges db). \<exists>v \<in> set vs. issued_by v = Some (wc_Value ch, wc_UserID ch, wc_Purpose ch, wc_ExpiresAt ch - challengeTTL)) \<and>
     (\<forall>k \<in> set (pkd_Creds db). \<exists>v \<in> set vs. enrolled_by lib v = Some (pk_ID k, pk_UserID k, pk_Alg k, pk_PublicKey k))"

lemma times_snoc:
  "times_issued c (vs @ [v]) = times_issued c vs + (if map_option fst (issued_by v) = Some c then 1 else 0)"
  "times_used lib c (vs @ [v]) = times_used lib c vs + (if used_by lib v = Some c then 1 else 0)"
  by (simp_all add: times_issued_def times_used_def)

lemma historyD:
  assumes "history_ok lib vs db"
  shows "tbl_wf wc_Value (pkd_Challenges db)"
    "times_used lib c vs + (if c \<in> wc_Value ` set (pkd_Challenges db) then 1 else 0) \<le> times_issued c vs"
    "ch \<in> set (pkd_Challenges db) \<Longrightarrow> \<exists>v \<in> set vs. issued_by v = Some (wc_Value ch, wc_UserID ch, wc_Purpose ch, wc_ExpiresAt ch - challengeTTL)"
    "k \<in> set (pkd_Creds db) \<Longrightarrow> \<exists>v \<in> set vs. enrolled_by lib v = Some (pk_ID k, pk_UserID k, pk_Alg k, pk_PublicKey k)"
  using assms unfolding history_ok_def by blast+

text \<open>A visit that issues nothing and whose challenge, if it used one, is gone.\<close>

lemma history_consume:
  assumes h: "history_ok lib vs db" and sub: "pkd_Challenges db' = filter P (pkd_Challenges db)"
    and used: "\<And>c. used_by lib v = Some c \<Longrightarrow> c \<in> wc_Value ` set (pkd_Challenges db) \<and> c \<notin> wc_Value ` set (pkd_Challenges db')"
    and creds: "\<And>k. k \<in> set (pkd_Creds db') \<Longrightarrow>
      (\<exists>w \<in> set (vs @ [v]). enrolled_by lib w = Some (pk_ID k, pk_UserID k, pk_Alg k, pk_PublicKey k))"
  shows "history_ok lib (vs @ [v]) db'"
  unfolding history_ok_def
proof (intro conjI allI ballI)
  show "tbl_wf wc_Value (pkd_Challenges db')" using historyD(1) [OF h] by (simp add: sub tbl_wf_def distinct_map_filter)
  have "c \<in> wc_Value ` set (pkd_Challenges db)" if "c \<in> wc_Value ` set (pkd_Challenges db')" for c using that by (auto simp: sub)
  then show "times_used lib c (vs @ [v]) + (if c \<in> wc_Value ` set (pkd_Challenges db') then 1 else 0) \<le> times_issued c (vs @ [v])" for c
    using historyD(2) [OF h, of c] used [of c] unfolding times_snoc by (auto split: if_splits)
  show "\<exists>v \<in> set (vs @ [v]). issued_by v = Some (wc_Value ch, wc_UserID ch, wc_Purpose ch, wc_ExpiresAt ch - challengeTTL)"
    if "ch \<in> set (pkd_Challenges db')" for ch
    using that historyD(3) [OF h, of ch] by (auto simp: sub)
qed (use creds in blast)

lemma history_issue:
  assumes h: "history_ok lib vs db" and used: "used_by lib v = None"
    and new: "issued_by v = Some (c, u, p, t)" "c \<notin> wc_Value ` set (pkd_Challenges db)"
      "db' = db\<lparr>pkd_Challenges := pkd_Challenges db @ [\<lparr>wc_Value = c, wc_UserID = u, wc_Purpose = p, wc_ExpiresAt = t + challengeTTL\<rparr>]\<rparr>"
  shows "history_ok lib (vs @ [v]) db'"
  unfolding history_ok_def
proof (intro conjI allI ballI)
  show "tbl_wf wc_Value (pkd_Challenges db')" using historyD(1) [OF h] new(2) by (simp add: new(3) tbl_wf_def)
  show "times_used lib d (vs @ [v]) + (if d \<in> wc_Value ` set (pkd_Challenges db') then 1 else 0) \<le> times_issued d (vs @ [v])" for d
    using historyD(2) [OF h, of d] new used unfolding times_snoc by (auto split: if_splits)
  show "\<exists>v \<in> set (vs @ [v]). issued_by v = Some (wc_Value ch, wc_UserID ch, wc_Purpose ch, wc_ExpiresAt ch - challengeTTL)"
    if "ch \<in> set (pkd_Challenges db')" for ch
    using that historyD(3) [OF h, of ch] new(1) by (auto simp: new(3))
  show "\<exists>w \<in> set (vs @ [v]). enrolled_by lib w = Some (pk_ID k, pk_UserID k, pk_Alg k, pk_PublicKey k)" if "k \<in> set (pkd_Creds db')" for k
    using that historyD(4) [OF h, of k] by (auto simp: new(3))
qed

lemma del_filter: "tbl_del wc_Value v t = filter (\<lambda>c. wc_Value c \<noteq> v) t"
  by (simp add: tbl_del_def)

lemma consume_filter:
  assumes "consumeClientData lib e u p ty b64 db = (r, db')"
  shows "\<exists>P. pkd_Challenges db' = filter P (pkd_Challenges db)" "pkd_Creds db' = pkd_Creds db"
  using consume_cases [OF assms] by (auto simp: del_filter intro: exI [of _ "\<lambda>_. True"])

lemma consume_takes:
  assumes "consumeClientData lib e u p ty b64 db = (Inr cd, db')" "client_challenge lib b64 = Some v"
  shows "v \<in> wc_Value ` set (pkd_Challenges db) \<and> v \<notin> wc_Value ` set (pkd_Challenges db')"
proof -
  have "client_challenge lib b64 = Some (cld_Challenge cd)" "\<exists>ch \<in> set (pkd_Challenges db). wc_Value ch = cld_Challenge cd"
    "pkd_Challenges db' = filter (\<lambda>c. wc_Value c \<noteq> cld_Challenge cd) (pkd_Challenges db)"
    using consume_cases [OF assms(1)] by (auto simp: del_filter)
  then show ?thesis using assms(2) by force
qed

lemma history_login:
  assumes h: "history_ok lib vs db"
  shows "history_ok lib (vs @ [(db, e, PkFinishLogin u inp)]) (snd (FinishLogin lib e u inp db))"
proof -
  let ?db = "snd (FinishLogin lib e u inp db)"
  obtain r db1 where c: "consumeClientData lib e u ''login'' ''webauthn.get'' (fn_ClientDataJSON inp) db = (r, db1)"
    and d: "?db = db1 \<or> (\<exists>i n t. ?db = UpdateSignCount i n t db1)" "fst (FinishLogin lib e u inp db) = Inr () \<longrightarrow> (\<exists>cd. r = Inr cd)"
    using login_consumes by blast
  obtain P where P: "pkd_Challenges db1 = filter P (pkd_Challenges db)" using consume_filter(1) [OF c] by blast
  have ch: "pkd_Challenges ?db = pkd_Challenges db1" using d(1) by (auto simp: UpdateSignCount_def)
  show ?thesis
  proof (rule history_consume [OF h])
    show "pkd_Challenges ?db = filter P (pkd_Challenges db)" using ch P by simp
    show "v \<in> wc_Value ` set (pkd_Challenges db) \<and> v \<notin> wc_Value ` set (pkd_Challenges ?db)"
      if "used_by lib (db, e, PkFinishLogin u inp) = Some v" for v
    proof -
      have "fst (FinishLogin lib e u inp db) = Inr ()" "client_challenge lib (fn_ClientDataJSON inp) = Some v" using that by (auto split: if_splits)
      then obtain cd where "r = Inr cd" using d(2) by blast
      with c \<open>client_challenge lib (fn_ClientDataJSON inp) = Some v\<close> show ?thesis
        unfolding ch using consume_takes by blast
    qed
    show "\<exists>w \<in> set (vs @ [(db, e, PkFinishLogin u inp)]). enrolled_by lib w = Some (pk_ID k, pk_UserID k, pk_Alg k, pk_PublicKey k)"
      if "k \<in> set (pkd_Creds ?db)" for k
    proof -
      have "\<exists>k' \<in> set (pkd_Creds db). pk_ID k' = pk_ID k \<and> pk_UserID k' = pk_UserID k \<and> pk_Alg k' = pk_Alg k \<and> pk_PublicKey k' = pk_PublicKey k"
        using d(1) that consume_filter(2) [OF c] by (fastforce simp: UpdateSignCount_def tbl_upd_def)
      then obtain k' where "k' \<in> set (pkd_Creds db)" "pk_ID k' = pk_ID k" "pk_UserID k' = pk_UserID k" "pk_Alg k' = pk_Alg k"
          "pk_PublicKey k' = pk_PublicKey k" by blast
      then show ?thesis using historyD(4) [OF h, of k'] by auto
    qed
  qed
qed

lemma history_registration:
  assumes h: "history_ok lib vs db"
  shows "history_ok lib (vs @ [(db, e, PkFinishRegistration u inp)]) (snd (FinishRegistration lib e u inp db))"
proof -
  let ?db = "snd (FinishRegistration lib e u inp db)"
  obtain r db1 where c: "consumeClientData lib e u ''register'' ''webauthn.create'' (fr_ClientDataJSON inp) db = (r, db1)" by fastforce
  note d = registration_consumes [OF c]
  obtain P where P: "pkd_Challenges db1 = filter P (pkd_Challenges db)" using consume_filter(1) [OF c] by blast
  have ch: "pkd_Challenges ?db = pkd_Challenges db1" using d by auto
  show ?thesis
  proof (rule history_consume [OF h])
    show "pkd_Challenges ?db = filter P (pkd_Challenges db)" using ch P by simp
    show "v \<in> wc_Value ` set (pkd_Challenges db) \<and> v \<notin> wc_Value ` set (pkd_Challenges ?db)"
      if "used_by lib (db, e, PkFinishRegistration u inp) = Some v" for v
    proof -
      have "fst (FinishRegistration lib e u inp db) = Inr ()" "client_challenge lib (fr_ClientDataJSON inp) = Some v" using that by (auto split: if_splits)
      then obtain cd where "r = Inr cd" using d by blast
      with c \<open>client_challenge lib (fr_ClientDataJSON inp) = Some v\<close> show ?thesis
        unfolding ch using consume_takes by blast
    qed
    show "\<exists>w \<in> set (vs @ [(db, e, PkFinishRegistration u inp)]). enrolled_by lib w = Some (pk_ID k, pk_UserID k, pk_Alg k, pk_PublicKey k)"
      if "k \<in> set (pkd_Creds ?db)" for k
    proof (cases "k \<in> set (pkd_Creds db)")
      case True
      then show ?thesis using historyD(4) [OF h] by auto
    next
      case False
      then have "enrolled_by lib (db, e, PkFinishRegistration u inp) = Some (pk_ID k, pk_UserID k, pk_Alg k, pk_PublicKey k)"
        using d that consume_filter(2) [OF c] by auto
      then show ?thesis by auto
    qed
  qed
qed

lemma history_step:
  assumes h: "history_ok lib vs db"
  shows "history_ok lib (vs @ [(db, x)]) (passkey_step lib db x)"
proof -
  obtain e r where x: "x = (e, r)" by fastforce
  have quiet: "history_ok lib (vs @ [v]) db'"
    if "pkd_Challenges db' = pkd_Challenges db" "set (pkd_Creds db') \<subseteq> set (pkd_Creds db)" "used_by lib v = None" for v db'
    by (rule history_consume [OF h, of db' "\<lambda>_. True"]) (use that historyD(4) [OF h] in auto)
  show ?thesis
  proof (cases r)
    case (PkBeginRegistration u)
    obtain res db' where i: "issue e u ''register'' db = (res, db')" by fastforce
    from issue_cases [OF i] show ?thesis
    proof
      assume "(\<exists>err. res = Inl err) \<and> db' = db"
      then show ?thesis using i by (auto simp: x PkBeginRegistration BeginRegistration_def intro!: quiet)
    next
      assume "\<exists>ch. res = Inr ch \<and> ch \<notin> wc_Value ` set (pkd_Challenges db) \<and> db' = db\<lparr>pkd_Challenges := pkd_Challenges db @
          [\<lparr>wc_Value = ch, wc_UserID = u, wc_Purpose = ''register'', wc_ExpiresAt = pe_now e + challengeTTL\<rparr>]\<rparr>"
      then obtain ch where ch: "res = Inr ch" "ch \<notin> wc_Value ` set (pkd_Challenges db)" "db' = db\<lparr>pkd_Challenges := pkd_Challenges db @
          [\<lparr>wc_Value = ch, wc_UserID = u, wc_Purpose = ''register'', wc_ExpiresAt = pe_now e + challengeTTL\<rparr>]\<rparr>" by blast
      have "history_ok lib (vs @ [(db, e, PkBeginRegistration u)]) db'"
        by (rule history_issue [OF h _ _ ch(2,3)]) (simp_all add: BeginRegistration_def i ch(1))
      then show ?thesis by (simp add: x PkBeginRegistration BeginRegistration_def i)
    qed
  next
    case (PkBeginLogin u)
    show ?thesis
    proof (cases "pe_fails e PkList")
      case True
      then show ?thesis by (simp add: x PkBeginLogin BeginLogin_def quiet)
    next
      case False
      obtain res db' where i: "issue e u ''login'' db = (res, db')" by fastforce
      from issue_cases [OF i] show ?thesis
      proof
        assume "(\<exists>err. res = Inl err) \<and> db' = db"
        then show ?thesis using i False by (auto simp: x PkBeginLogin BeginLogin_def intro!: quiet)
      next
        assume "\<exists>ch. res = Inr ch \<and> ch \<notin> wc_Value ` set (pkd_Challenges db) \<and> db' = db\<lparr>pkd_Challenges := pkd_Challenges db @
            [\<lparr>wc_Value = ch, wc_UserID = u, wc_Purpose = ''login'', wc_ExpiresAt = pe_now e + challengeTTL\<rparr>]\<rparr>"
        then obtain ch where ch: "res = Inr ch" "ch \<notin> wc_Value ` set (pkd_Challenges db)" "db' = db\<lparr>pkd_Challenges := pkd_Challenges db @
            [\<lparr>wc_Value = ch, wc_UserID = u, wc_Purpose = ''login'', wc_ExpiresAt = pe_now e + challengeTTL\<rparr>]\<rparr>" by blast
        have "history_ok lib (vs @ [(db, e, PkBeginLogin u)]) db'"
          by (rule history_issue [OF h _ _ ch(2,3)]) (simp_all add: BeginLogin_def i ch(1) False)
        then show ?thesis by (simp add: x PkBeginLogin BeginLogin_def i False ch(1))
      qed
    qed
  next
    case (PkFinishRegistration u inp)
    then show ?thesis using history_registration [OF h] by (simp add: x)
  next
    case (PkFinishLogin u inp)
    then show ?thesis using history_login [OF h] by (simp add: x)
  next
    case (PkRemove u i)
    then show ?thesis by (auto simp: x DeletePasskey_def DeleteCredential_def intro!: quiet)
  next
    case (PkObserve u d ip a)
    then show ?thesis by (simp add: x observe_frame quiet)
  qed
qed

lemma history_run: "history_ok lib (visits lib empty_passkey_db ops) (run (passkey_step lib) empty_passkey_db ops)"
proof (induction ops rule: rev_induct)
  case Nil
  then show ?case by (simp add: history_ok_def empty_passkey_db_def times_used_def)
next
  case (snoc x xs)
  then show ?case using history_step by (simp add: visits_snoc run_append)
qed

section \<open>Logins\<close>

text \<open>
C25. A passkey login is sound: after any sequence of requests and failures, a login that succeeds answers a challenge that
was issued to the same user for a login at most five minutes ago and that fewer completed ceremonies have used than times
it was issued; the client data is of the right type and origin; and the assertion, made for this site with the user present,
is signed under a key that the same user enrolled for the credential, over the authenticator data and this client data.
\<close>

theorem passkey_login_sound:
  assumes "vs = visits lib empty_passkey_db ops" "db = run (passkey_step lib) empty_passkey_db ops"
    "FinishLogin lib e u inp db = (Inr (), db')"
  shows "\<exists>raw cd authData ad sig k t.
    DecodeB64URL (fn_ClientDataJSON inp) = Some raw \<and> ParseClientData lib raw = Some cd \<and>
    cld_Type cd = ''webauthn.get'' \<and> cld_Origin cd = pe_origin e \<and>
    times_used lib (cld_Challenge cd) vs < times_issued (cld_Challenge cd) vs \<and>
    (\<exists>v \<in> set vs. issued_by v = Some (cld_Challenge cd, u, ''login'', t)) \<and> pe_now e \<le> t + 5 * Minute \<and>
    (\<exists>v \<in> set vs. enrolled_by lib v = Some (fn_CredentialID inp, u, pk_Alg k, pk_PublicKey k)) \<and>
    DecodeB64URL (fn_AuthenticatorData inp) = Some authData \<and> DecodeB64URL (fn_Signature inp) = Some sig \<and>
    ParseAuthData authData = Some ad \<and> ad_Flags ad AND 1 \<noteq> 0 \<and> ad_RPIDHash ad = wl_sha256 lib (pe_rpID e) \<and>
    VerifyAssertion lib (toDomainCred k) authData raw sig = None"
proof -
  have h: "history_ok lib vs db" unfolding assms(1,2) by (rule history_run)
  obtain r db1 where c: "consumeClientData lib e u ''login'' ''webauthn.get'' (fn_ClientDataJSON inp) db = (r, db1)" by fastforce
  obtain cd k authData raw sig ad where r: "r = Inr cd" and k: "GetCredential (fn_CredentialID inp) db1 = Some k" "pk_UserID k = u"
    and dec: "DecodeB64URL (fn_AuthenticatorData inp) = Some authData" "DecodeB64URL (fn_ClientDataJSON inp) = Some raw"
      "DecodeB64URL (fn_Signature inp) = Some sig" "ParseAuthData authData = Some ad" "CheckAuthData lib ad (pe_rpID e) = None"
      "VerifyAssertion lib (toDomainCred k) authData raw sig = None"
    by (rule login_done [OF assms(3) c])
  have cs: "cld_Type cd = ''webauthn.get''" "cld_Origin cd = pe_origin e" "ParseClientData lib raw = Some cd"
    "client_challenge lib (fn_ClientDataJSON inp) = Some (cld_Challenge cd)"
    using consume_cases [OF c, THEN conjunct2, THEN spec, of cd, THEN mp, OF r] dec(2) by auto
  obtain ch where ch: "ch \<in> set (pkd_Challenges db)" "wc_Value ch = cld_Challenge cd" "wc_UserID ch = u" "wc_Purpose ch = ''login''"
    "pe_now e \<le> wc_ExpiresAt ch" using consume_cases [OF c, THEN conjunct2, THEN spec, of cd, THEN mp, OF r] by blast
  have "cld_Challenge cd \<in> wc_Value ` set (pkd_Challenges db)" using ch(1,2) by force
  then have less: "times_used lib (cld_Challenge cd) vs < times_issued (cld_Challenge cd) vs" using historyD(2) [OF h, of "cld_Challenge cd"] by simp
  have iss: "\<exists>v \<in> set vs. issued_by v = Some (cld_Challenge cd, u, ''login'', wc_ExpiresAt ch - challengeTTL)"
    using historyD(3) [OF h ch(1)] unfolding ch(2,3,4) .
  have mem: "k \<in> set (pkd_Creds db)" "pk_ID k = fn_CredentialID inp"
    using k(1) tbl_get_Some unfolding GetCredential_def consume_filter(2) [OF c] by fast+
  have enr: "\<exists>v \<in> set vs. enrolled_by lib v = Some (fn_CredentialID inp, u, pk_Alg k, pk_PublicKey k)"
    using historyD(4) [OF h mem(1)] unfolding mem(2) k(2) .
  have ad: "ad_Flags ad AND 1 \<noteq> 0" "ad_RPIDHash ad = wl_sha256 lib (pe_rpID e)"
    using dec(5) by (simp_all add: CheckAuthData_def flagUserPresent_def split: if_splits)
  have "pe_now e \<le> wc_ExpiresAt ch - challengeTTL + 5 * Minute" using ch(5) by (simp add: challengeTTL_def)
  then show ?thesis using dec(1-4,6) cs(1-3) less iss enr ad by blast
qed

section \<open>Clones\<close>

definition presented_count :: "finish_login \<Rightarrow> 32 word option" where
  "presented_count inp =
     (case DecodeB64URL (fn_AuthenticatorData inp) of None \<Rightarrow> None | Some b \<Rightarrow> map_option ad_SignCount (ParseAuthData b))"

text \<open>A credential is on file with a count of at least \<open>n\<close>.\<close>

definition count_reached :: "string \<Rightarrow> 32 word \<Rightarrow> passkey_db \<Rightarrow> bool" where
  "count_reached i n db \<longleftrightarrow> (\<exists>k. GetCredential i db = Some k \<and> n \<le> word_of_int (pk_SignCount k))"

lemma count_login:
  assumes "FinishLogin lib e u inp db = (Inr (), db')" "count_reached (fn_CredentialID inp) n db" "n \<noteq> 0"
  shows "\<exists>m. presented_count inp = Some m \<and> n < m \<and> (\<not> pe_fails e PkUpdate \<longrightarrow> count_reached (fn_CredentialID inp) m db')"
proof -
  obtain r db1 where c: "consumeClientData lib e u ''login'' ''webauthn.get'' (fn_ClientDataJSON inp) db = (r, db1)" by fastforce
  obtain k where k: "GetCredential (fn_CredentialID inp) db = Some k" "n \<le> word_of_int (pk_SignCount k)"
    using assms(2) by (auto simp: count_reached_def)
  have g: "GetCredential (fn_CredentialID inp) db1 = Some k" using k(1) by (simp add: GetCredential_def consume_filter(2) [OF c])
  obtain b ad nxt where d: "DecodeB64URL (fn_AuthenticatorData inp) = Some b" "ParseAuthData b = Some ad"
    "NextSignCount (word_of_int (pk_SignCount k)) (ad_SignCount ad) = Inr nxt"
    "db' = (if pe_fails e PkUpdate then db1 else UpdateSignCount (pk_ID k) nxt (pe_now e) db1)"
    by (rule login_done [OF assms(1) c]) (use g in simp)
  have "word_of_int (pk_SignCount k) \<noteq> (0 :: 32 word)" using k(2) assms(3) by auto
  then have m: "nxt = ad_SignCount ad" "word_of_int (pk_SignCount k) < ad_SignCount ad"
    using d(3) by (auto simp: NextSignCount_def split: if_splits)
  have "pk_ID k = fn_CredentialID inp" using g unfolding GetCredential_def by (rule tbl_get_key)
  then have "count_reached (fn_CredentialID inp) (ad_SignCount ad) db'" if "\<not> pe_fails e PkUpdate"
    using that d(4) g m(1) by (auto simp: count_reached_def GetCredential_def UpdateSignCount_def tbl_get_upd)
  then show ?thesis using d(1,2) m(2) k(2) by (auto simp: presented_count_def)
qed

lemma count_creds: "pkd_Creds db' = pkd_Creds db \<Longrightarrow> count_reached i n db' = count_reached i n db"
  by (simp add: count_reached_def GetCredential_def)

lemma count_kept:
  assumes "count_reached i n db" "n \<noteq> 0" "\<forall>w. snd x \<noteq> PkRemove w i"
  shows "count_reached i n (passkey_step lib db x)"
proof -
  obtain e r where x: "x = (e, r)" by fastforce
  show ?thesis
  proof (cases r)
    case (PkBeginRegistration u)
    then show ?thesis using assms(1) by (simp add: x BeginRegistration_def count_creds [OF issue_creds])
  next
    case (PkBeginLogin u)
    have "snd (BeginLogin e u db) = db \<or> snd (BeginLogin e u db) = snd (issue e u ''login'' db)"
      by (auto simp: BeginLogin_def split: prod.split sum.split)
    then show ?thesis using assms(1) count_creds [OF issue_creds] by (auto simp: x PkBeginLogin)
  next
    case (PkFinishRegistration u inp)
    obtain r db1 where c: "consumeClientData lib e u ''register'' ''webauthn.create'' (fr_ClientDataJSON inp) db = (r, db1)" by fastforce
    have start: "count_reached i n db1" using assms(1) count_creds [OF consume_filter(2) [OF c]] by simp
    from registration_consumes [OF c] show ?thesis
    proof
      assume "fst (FinishRegistration lib e u inp db) \<noteq> Inr () \<and> snd (FinishRegistration lib e u inp db) = db1"
      then show ?thesis using start by (simp add: x PkFinishRegistration)
    next
      assume "fst (FinishRegistration lib e u inp db) = Inr () \<and> (\<exists>cd. r = Inr cd) \<and>
        (\<exists>key. DecodeB64URL (fr_PublicKeyB64 inp) = Some key \<and> fr_CredentialID inp \<notin> pk_ID ` set (pkd_Creds db1) \<and>
          snd (FinishRegistration lib e u inp db) = db1\<lparr>pkd_Creds := pkd_Creds db1 @ [\<lparr>pk_ID = fr_CredentialID inp, pk_UserID = u, pk_Alg = fr_Alg inp,
            pk_PublicKey = key, pk_SignCount = 0, pk_Name = nameOr (fr_Name inp), pk_CreatedAt = pe_now e, pk_LastUsedAt = None\<rparr>]\<rparr>)"
      then obtain c where "snd (FinishRegistration lib e u inp db) = db1\<lparr>pkd_Creds := pkd_Creds db1 @ [c]\<rparr>" by blast
      then show ?thesis using start by (auto simp: x PkFinishRegistration count_reached_def GetCredential_def tbl_get_append)
    qed
  next
    case (PkFinishLogin u inp)
    obtain r db1 where c: "consumeClientData lib e u ''login'' ''webauthn.get'' (fn_ClientDataJSON inp) db = (r, db1)" by fastforce
    note same = count_creds [OF consume_filter(2) [OF c]]
    show ?thesis
    proof (cases "fst (FinishLogin lib e u inp db) = Inr ()")
      case False
      then have "snd (FinishLogin lib e u inp db) = db1" unfolding FinishLogin_def c prod.case by (auto split: sum.splits option.splits if_splits)
      then show ?thesis using assms(1) same by (simp add: x PkFinishLogin)
    next
      case True
      then obtain db' where f: "FinishLogin lib e u inp db = (Inr (), db')" by (metis prod.collapse)
      obtain k nxt where k: "GetCredential (fn_CredentialID inp) db1 = Some k"
        "db' = (if pe_fails e PkUpdate then db1 else UpdateSignCount (pk_ID k) nxt (pe_now e) db1)"
        by (rule login_done [OF f c])
      have id: "pk_ID k = fn_CredentialID inp" using k(1) unfolding GetCredential_def by (rule tbl_get_key)
      show ?thesis
      proof (cases "i = fn_CredentialID inp \<and> \<not> pe_fails e PkUpdate")
        case True
        then obtain m where "n < m" "count_reached i m db'" using count_login [OF f] assms(1,2) by blast
        then show ?thesis by (auto simp: x PkFinishLogin f count_reached_def)
      next
        case False
        then have "count_reached i n db' = count_reached i n db1"
          using k(2) id by (auto simp: count_reached_def GetCredential_def UpdateSignCount_def tbl_get_upd)
        then show ?thesis using assms(1) same by (simp add: x PkFinishLogin f)
      qed
    qed
  next
    case (PkRemove u j)
    then have "j \<noteq> i" using assms(3) by (auto simp: x)
    then have "tbl_get pk_ID i (filter (\<lambda>c. \<not> (pk_ID c = j \<and> pk_UserID c = u)) rows) = tbl_get pk_ID i rows" for rows :: "passkey list"
      by (induction rows) (auto simp: tbl_get_Cons)
    then show ?thesis using assms(1) by (auto simp: x PkRemove DeletePasskey_def DeleteCredential_def count_reached_def GetCredential_def)
  next
    case (PkObserve u d ip a)
    then show ?thesis using assms(1) by (simp add: x count_creds [OF observe_frame(1)])
  qed
qed

text \<open>
A cloned authenticator is refused: once a login with a non-zero sign count has been recorded, then after any requests that do
not remove the credential, a login with the credential succeeds only with a larger count, whoever makes it.
\<close>

theorem clone_refused:
  assumes "FinishLogin lib e u inp db = (Inr (), db1)" "\<not> pe_fails e PkUpdate" "presented_count inp = Some n" "n \<noteq> 0"
    "\<forall>x \<in> set ops. \<forall>w. snd x \<noteq> PkRemove w (fn_CredentialID inp)"
    "FinishLogin lib e' u' inp' (run (passkey_step lib) db1 ops) = (Inr (), db2)" "fn_CredentialID inp' = fn_CredentialID inp"
  shows "\<exists>m. presented_count inp' = Some m \<and> n < m"
proof -
  have start: "count_reached (fn_CredentialID inp) n db1"
  proof -
    obtain r d where c: "consumeClientData lib e u ''login'' ''webauthn.get'' (fn_ClientDataJSON inp) db = (r, d)" by fastforce
    obtain k b ad nxt where d: "GetCredential (fn_CredentialID inp) d = Some k" "DecodeB64URL (fn_AuthenticatorData inp) = Some b"
      "ParseAuthData b = Some ad" "NextSignCount (word_of_int (pk_SignCount k)) (ad_SignCount ad) = Inr nxt"
      "db1 = UpdateSignCount (pk_ID k) nxt (pe_now e) d"
      by (rule login_done [OF assms(1) c]) (use assms(2) in simp)
    have "pk_ID k = fn_CredentialID inp" using d(1) unfolding GetCredential_def by (rule tbl_get_key)
    moreover have "nxt = n" using d(2,3,4) assms(3,4) by (auto simp: presented_count_def NextSignCount_def split: if_splits)
    ultimately show ?thesis using d(1,5) by (auto simp: count_reached_def GetCredential_def UpdateSignCount_def tbl_get_upd)
  qed
  have "count_reached (fn_CredentialID inp) n (run (passkey_step lib) db1 ops)"
    using assms(5) start by (induction ops arbitrary: db1) (auto intro: count_kept [OF _ assms(4)])
  then show ?thesis using count_login [OF assms(6)] assms(4,7) by auto
qed

text \<open>An error of the update is ignored: the login counts, the sign count does not, and a clone with the same count is let in.\<close>

lemma lost_update_forgets_count:
  assumes "pe_fails e PkUpdate"
  shows "pkd_Creds (snd (FinishLogin lib e u inp db)) = pkd_Creds db"
proof -
  obtain r db1 where c: "consumeClientData lib e u ''login'' ''webauthn.get'' (fn_ClientDataJSON inp) db = (r, db1)" by fastforce
  have "snd (FinishLogin lib e u inp db) = db1"
    using assms unfolding FinishLogin_def c prod.case by (auto split: sum.split option.split)
  then show ?thesis using consume_filter(2) [OF c] by simp
qed

text \<open>A name of more than sixty bytes is cut without regard to characters, and what is left need not be valid UTF-8.\<close>

lemma name_cut_in_character:
  "TrimSpace name = replicate 59 (CHR ''a'') @ [CHR 0xC3, CHR 0xA9] \<Longrightarrow> nameOr name = replicate 59 (CHR ''a'') @ [CHR 0xC3]"
  by (simp add: nameOr_def)

section \<open>An example\<close>

text \<open>A toy library, an enrolment of Ann with an Ed25519 key, and logins with a sign count of \<open>n\<close>.\<close>

definition demo_key :: string where "demo_key = replicate 32 (CHR ''k'')"
definition demo_entropy :: string where "demo_entropy = replicate 32 (CHR ''e'')"
definition demo_auth_data :: "nat \<Rightarrow> string" where
  "demo_auth_data n = replicate 32 (CHR ''r'') @ [CHR 0x01, CHR 0x00, CHR 0x00, CHR 0x00, char_of n]"

definition demo_lib :: webauthn_lib where
  "demo_lib = \<lparr>wl_sha256 = (\<lambda>_. replicate 32 (CHR ''r'')), wl_p256 = (\<lambda>_. True), wl_ecdsa = (\<lambda>_ _ _. False),
     wl_ed25519 = (\<lambda>k m s. s = k),
     wl_json = (\<lambda>s. Some \<lparr>cld_Type = s, cld_Challenge = RawURL_Encode demo_entropy, cld_Origin = ''o''\<rparr>)\<rparr>"

definition demo_penv :: passkey_env where
  "demo_penv = \<lparr>pe_now = 0, pe_fails = (\<lambda>_. False), pe_entropy = demo_entropy, pe_id = [], pe_rpID = ''rp'', pe_origin = ''o''\<rparr>"

definition demo_login :: "nat \<Rightarrow> finish_login" where
  "demo_login n = \<lparr>fn_CredentialID = ''c'', fn_AuthenticatorData = RawURL_Encode (demo_auth_data n),
     fn_ClientDataJSON = RawURL_Encode ''webauthn.get'', fn_Signature = RawURL_Encode demo_key\<rparr>"

definition demo_enrolment :: "(passkey_env \<times> passkey_req) list" where
  "demo_enrolment = map (Pair demo_penv)
     [PkBeginRegistration ''ann'',
      PkFinishRegistration ''ann'' \<lparr>fr_CredentialID = ''c'', fr_Alg = AlgEdDSA, fr_PublicKeyB64 = RawURL_Encode demo_key,
        fr_ClientDataJSON = RawURL_Encode ''webauthn.create'', fr_Name = []\<rparr>,
      PkBeginLogin ''ann'']"

lemma trim_c: "TrimSpace ''c'' = ''c''"
  by (simp add: TrimSpace_plain plain_def)

lemmas passkey_eval = demo_lib_def demo_penv_def demo_login_def demo_enrolment_def BeginRegistration_def BeginLogin_def issue_def GenChallenge_def
  ReadFull_def demo_entropy_def SaveChallenge_def tbl_ins_def empty_passkey_db_def FinishRegistration_def consumeClientData_def DecodeB64URL_def
  RawURL_roundtrip ParseClientData_def TakeChallenge_def tbl_get_Cons tbl_del_def VerifyClientData_def subtleEq_iff challengeTTL_def time_units
  validKeyLen_def AlgEdDSA_def AlgES256_def demo_key_def trim_c ListCredentials_def order_asc_def maxCredsPerUser_def CreateCredential_def nameOr_def

definition demo_enrolled :: passkey_db where
  "demo_enrolled = run (passkey_step demo_lib) empty_passkey_db demo_enrolment"

lemma demo_enrolled:
  "demo_enrolled = \<lparr>pkd_Creds = [\<lparr>pk_ID = ''c'', pk_UserID = ''ann'', pk_Alg = - 8, pk_PublicKey = demo_key, pk_SignCount = 0, pk_Name = ''Passkey'',
      pk_CreatedAt = 0, pk_LastUsedAt = None\<rparr>],
    pkd_Challenges = [\<lparr>wc_Value = RawURL_Encode demo_entropy, wc_UserID = ''ann'', wc_Purpose = ''login'', wc_ExpiresAt = 5 * Minute\<rparr>], pkd_Logins = []\<rparr>"
  unfolding demo_enrolled_def by (simp add: passkey_eval)

lemma demo_count: "ParseAuthData (demo_auth_data n) = Some \<lparr>ad_RPIDHash = replicate 32 (CHR ''r''), ad_Flags = 1,
    ad_SignCount = of_nat (byte (char_of n))\<rparr>"
  by (simp add: ParseAuthData_def demo_auth_data_def BigEndian_Uint32_def byte_word_def nth_append)

lemma demo_login_ok:
  assumes "GetCredential ''c'' db = Some k" "pk_UserID k = ''ann''" "pk_Alg k = - 8" "pk_PublicKey k = demo_key" "pk_ID k = ''c''"
    "tbl_get wc_Value (RawURL_Encode demo_entropy) (pkd_Challenges db) =
       Some \<lparr>wc_Value = RawURL_Encode demo_entropy, wc_UserID = ''ann'', wc_Purpose = ''login'', wc_ExpiresAt = 5 * Minute\<rparr>"
    "word_of_int (pk_SignCount k) < (of_nat (byte (char_of n)) :: 32 word)"
  shows "FinishLogin demo_lib demo_penv ''ann'' (demo_login n) db =
    (Inr (), UpdateSignCount ''c'' (of_nat (byte (char_of n))) 0 (db\<lparr>pkd_Challenges := tbl_del wc_Value (RawURL_Encode demo_entropy) (pkd_Challenges db)\<rparr>))"
proof -
  let ?db = "db\<lparr>pkd_Challenges := tbl_del wc_Value (RawURL_Encode demo_entropy) (pkd_Challenges db)\<rparr>"
  have "consumeClientData demo_lib demo_penv ''ann'' ''login'' ''webauthn.get'' (fn_ClientDataJSON (demo_login n)) db =
      (Inr \<lparr>cld_Type = ''webauthn.get'', cld_Challenge = RawURL_Encode demo_entropy, cld_Origin = ''o''\<rparr>, ?db)"
    using assms(6) by (simp add: consumeClientData_def demo_login_def DecodeB64URL_def RawURL_roundtrip ParseClientData_def demo_lib_def demo_penv_def
        TakeChallenge_def VerifyClientData_def subtleEq_iff time_units)
  moreover have "GetCredential ''c'' ?db = Some k" using assms(1) by (simp add: GetCredential_def)
  moreover have "VerifyAssertion demo_lib (toDomainCred k) (demo_auth_data n) ''webauthn.get'' demo_key = None"
    using assms(3,4) by (simp add: VerifyAssertion_def toDomainCred_def AlgEdDSA_def AlgES256_def demo_lib_def demo_key_def)
  moreover have "CheckAuthData demo_lib \<lparr>ad_RPIDHash = replicate 32 (CHR ''r''), ad_Flags = 1, ad_SignCount = m\<rparr> rp = None" for m rp
    by (simp add: CheckAuthData_def flagUserPresent_def demo_lib_def)
  moreover have "NextSignCount (word_of_int (pk_SignCount k)) (of_nat (byte (char_of n))) = Inr (of_nat (byte (char_of n)) :: 32 word)"
    using assms(7) by (auto simp: NextSignCount_def)
  ultimately show ?thesis
    using assms(2,5) demo_count [of n]
    by (simp add: FinishLogin_def demo_login_def DecodeB64URL_def RawURL_roundtrip) (simp add: demo_penv_def)
qed

lemma demo_login_5: "\<exists>db'. FinishLogin demo_lib demo_penv ''ann'' (demo_login 5) demo_enrolled = (Inr (), db')"
  by (rule exI, rule demo_login_ok [of _ "hd (pkd_Creds demo_enrolled)"])
    (simp_all add: demo_enrolled GetCredential_def tbl_get_Cons)

theorem passkey_login_sound_witness:
  "times_used demo_lib (RawURL_Encode demo_entropy) (visits demo_lib empty_passkey_db demo_enrolment) <
   times_issued (RawURL_Encode demo_entropy) (visits demo_lib empty_passkey_db demo_enrolment)"
proof -
  obtain db' where f: "FinishLogin demo_lib demo_penv ''ann'' (demo_login 5) demo_enrolled = (Inr (), db')" using demo_login_5 by blast
  have json: "ParseClientData demo_lib raw = Some cd \<Longrightarrow> cld_Challenge cd = RawURL_Encode demo_entropy" for raw cd
    by (auto simp: ParseClientData_def demo_lib_def)
  show ?thesis using passkey_login_sound [OF refl demo_enrolled_def f] json by metis
qed

theorem clone_refused_witness:
  "\<exists>db1 db2. FinishLogin demo_lib demo_penv ''ann'' (demo_login 5) demo_enrolled = (Inr (), db1) \<and>
     FinishLogin demo_lib demo_penv ''ann'' (demo_login 6) (run (passkey_step demo_lib) db1 [(demo_penv, PkBeginLogin ''ann'')]) = (Inr (), db2) \<and>
     (\<exists>m. presented_count (demo_login 6) = Some m \<and> 5 < m)"
proof -
  let ?db1 = "\<lparr>pkd_Creds = [\<lparr>pk_ID = ''c'', pk_UserID = ''ann'', pk_Alg = - 8, pk_PublicKey = demo_key, pk_SignCount = 5, pk_Name = ''Passkey'',
      pk_CreatedAt = 0, pk_LastUsedAt = Some 0\<rparr>], pkd_Challenges = [], pkd_Logins = []\<rparr>"
  have one: "FinishLogin demo_lib demo_penv ''ann'' (demo_login 5) demo_enrolled = (Inr (), ?db1)"
    by (subst demo_login_ok [of _ "hd (pkd_Creds demo_enrolled)"])
      (simp_all add: demo_enrolled GetCredential_def tbl_get_Cons UpdateSignCount_def tbl_upd_def tbl_del_def)
  let ?db2 = "run (passkey_step demo_lib) ?db1 [(demo_penv, PkBeginLogin ''ann'')]"
  have db2: "?db2 = ?db1\<lparr>pkd_Challenges := [\<lparr>wc_Value = RawURL_Encode demo_entropy, wc_UserID = ''ann'', wc_Purpose = ''login'', wc_ExpiresAt = 5 * Minute\<rparr>]\<rparr>"
    by (simp add: BeginLogin_def demo_penv_def issue_def GenChallenge_def ReadFull_def demo_entropy_def SaveChallenge_def tbl_ins_def challengeTTL_def)
  obtain db3 where two: "FinishLogin demo_lib demo_penv ''ann'' (demo_login 6) ?db2 = (Inr (), db3)"
    unfolding db2 using demo_login_ok [of "?db1\<lparr>pkd_Challenges := [\<lparr>wc_Value = RawURL_Encode demo_entropy, wc_UserID = ''ann'', wc_Purpose = ''login'',
      wc_ExpiresAt = 5 * Minute\<rparr>]\<rparr>" "hd (pkd_Creds ?db1)" 6]
    by (simp add: GetCredential_def tbl_get_Cons)
  have "presented_count (demo_login 5) = Some 5" by (simp add: presented_count_def demo_login_def DecodeB64URL_def RawURL_roundtrip demo_count)
  then have "\<exists>m. presented_count (demo_login 6) = Some m \<and> 5 < m"
    using clone_refused [OF one _ _ _ _ two, of 5] by (simp add: demo_penv_def demo_login_def)
  then show ?thesis using one two by blast
qed

end
