(* ===== verification/Breakout.thy ===== *)
theory Breakout
  imports Contracts GoStrings
begin

text \<open>
  Live sessions (\<^verbatim>\<open>breakout/\<close>): breakout rooms, streaming to the outside, and consent to recording. The media server is
  outside: minting a join token and starting a stream are parameters, and the streams that are started and stopped there are
  the effects of a request. Go's URL parser is a parameter too.
\<close>

section \<open>Domain\<close>

type_synonym egress_kind = int

definition EgressRTMP :: egress_kind where "EgressRTMP = 0"
definition EgressHLS :: egress_kind where "EgressHLS = 1"

definition EgressKind_String :: "egress_kind \<Rightarrow> string" where
  "EgressKind_String k = (if k = EgressHLS then ''hls'' else ''rtmp'')"

definition ParseEgressKind :: "string \<Rightarrow> egress_kind option" where
  "ParseEgressKind s = (if s = ''rtmp'' then Some EgressRTMP else if s = ''hls'' then Some EgressHLS else None)"

definition EgressOff :: int where "EgressOff = 0"
definition EgressLive :: int where "EgressLive = 1"

definition EgressState_String :: "int \<Rightarrow> string" where
  "EgressState_String s = (if s = EgressLive then ''live'' else ''off'')"

definition RecordingOff :: int where "RecordingOff = 0"
definition RecordingRequested :: int where "RecordingRequested = 1"
definition RecordingActive :: int where "RecordingActive = 2"

definition RecordingState_String :: "int \<Rightarrow> string" where
  "RecordingState_String s = (if s = RecordingRequested then ''requested'' else if s = RecordingActive then ''active'' else ''off'')"

definition MaxRoomName :: nat where "MaxRoomName = 60"
definition MaxBreakoutRooms :: nat where "MaxBreakoutRooms = 50"
definition maxTargetLen :: nat where "maxTargetLen = 2048"

datatype breakout_error = ErrBadRoomName | ErrBadRoomCount | ErrBadEgressURL | ErrEmptyTarget

definition ValidateRoomName :: "string \<Rightarrow> breakout_error option" where
  "ValidateRoomName name = (if TrimSpace name = [] \<or> length name > MaxRoomName then Some ErrBadRoomName else None)"

definition ValidateRoomCount :: "nat \<Rightarrow> breakout_error option" where
  "ValidateRoomCount n = (if n < 1 \<or> n > MaxBreakoutRooms then Some ErrBadRoomCount else None)"

text \<open>The URL parser gives scheme and host.\<close>

type_synonym url_parser = "string \<Rightarrow> (string \<times> string) option"

definition ValidateEgressTarget :: "url_parser \<Rightarrow> egress_kind \<Rightarrow> string \<Rightarrow> breakout_error option" where
  "ValidateEgressTarget parse kind target =
     (let t = TrimSpace target
      in if t = [] \<or> length t > maxTargetLen then Some ErrEmptyTarget
         else if kind = EgressRTMP then
           (case parse t of
              None \<Rightarrow> Some ErrBadEgressURL
            | Some (scheme, host) \<Rightarrow> if (scheme \<noteq> ''rtmp'' \<and> scheme \<noteq> ''rtmps'') \<or> host = [] then Some ErrBadEgressURL else None)
         else if kind = EgressHLS then
           (case parse t of
              None \<Rightarrow> Some ErrBadEgressURL
            | Some (scheme, host) \<Rightarrow>
                if (scheme \<noteq> ''https'' \<and> scheme \<noteq> ''s3'' \<and> scheme \<noteq> ''gs'') \<or> host = [] then Some ErrBadEgressURL else None)
         else Some ErrBadEgressURL)"

record consent_summary =
  csm_Total :: nat
  csm_Consented :: nat
  csm_Declined :: nat
  csm_Pending :: nat

text \<open>A decision: whether it was made, and whether it was a consent.\<close>

definition Consent_Tally :: "(bool \<times> bool) list \<Rightarrow> consent_summary" where
  "Consent_Tally ds =
     fold (\<lambda>(decided, consented) c.
        if \<not> decided then c\<lparr>csm_Pending := csm_Pending c + 1\<rparr>
        else if consented then c\<lparr>csm_Consented := csm_Consented c + 1\<rparr>
        else c\<lparr>csm_Declined := csm_Declined c + 1\<rparr>) ds
       \<lparr>csm_Total = length ds, csm_Consented = 0, csm_Declined = 0, csm_Pending = 0\<rparr>"

section \<open>The store\<close>

record live_session =
  ls_ID :: string
  ls_HostID :: string
  ls_MainRoom :: string
  ls_CreatedAt :: instant
  ls_EndedAt :: "instant option"
  ls_EgressState :: int
  ls_EgressKind :: egress_kind
  ls_EgressURL :: string
  ls_EgressRef :: string
  ls_Recording :: int

record breakout_room =
  bm_ID :: string
  bm_SessionID :: string
  bm_Name :: string
  bm_Room :: string
  bm_CreatedAt :: instant
  bm_ClosedAt :: "instant option"

text \<open>Assignments and consents have session and user as their key.\<close>

record assignment =
  as_key :: "string \<times> string"
  as_RoomID :: "string option"
  as_AssignedAt :: instant

record consent =
  cn_key :: "string \<times> string"
  cn_Consented :: bool
  cn_DecidedAt :: instant

record live_db =
  ld_Sessions :: "live_session list"
  ld_Rooms :: "breakout_room list"
  ld_Assignments :: "assignment list"
  ld_Consents :: "consent list"

definition empty_live_db :: live_db where
  "empty_live_db = \<lparr>ld_Sessions = [], ld_Rooms = [], ld_Assignments = [], ld_Consents = []\<rparr>"

definition live_exists :: "string \<Rightarrow> live_db \<Rightarrow> bool" where
  "live_exists i db \<longleftrightarrow> i \<in> ls_ID ` set (ld_Sessions db)"

definition CreateSession :: "live_session \<Rightarrow> live_db \<Rightarrow> live_db option" where
  "CreateSession s db = map_option (\<lambda>t. db\<lparr>ld_Sessions := t\<rparr>) (tbl_ins ls_ID
     \<lparr>ls_ID = ls_ID s, ls_HostID = ls_HostID s, ls_MainRoom = ls_MainRoom s, ls_CreatedAt = ls_CreatedAt s, ls_EndedAt = None,
      ls_EgressState = 0, ls_EgressKind = 0, ls_EgressURL = [], ls_EgressRef = [], ls_Recording = 0\<rparr> (ld_Sessions db))"

definition GetSession :: "string \<Rightarrow> live_db \<Rightarrow> live_session option" where
  "GetSession i db = tbl_get ls_ID i (ld_Sessions db)"

definition EndSession :: "string \<Rightarrow> instant \<Rightarrow> live_db \<Rightarrow> live_db" where
  "EndSession i t db =
     db\<lparr>ld_Sessions := tbl_upd ls_ID i (\<lambda>s. if ls_EndedAt s = None then s\<lparr>ls_EndedAt := Some t\<rparr> else s) (ld_Sessions db)\<rparr>"

definition SetEgress :: "string \<Rightarrow> int \<Rightarrow> egress_kind \<Rightarrow> string \<Rightarrow> string \<Rightarrow> live_db \<Rightarrow> live_db" where
  "SetEgress i state kind url ref db =
     db\<lparr>ld_Sessions := tbl_upd ls_ID i
        (\<lambda>s. s\<lparr>ls_EgressState := state, ls_EgressKind := kind, ls_EgressURL := url, ls_EgressRef := ref\<rparr>) (ld_Sessions db)\<rparr>"

definition SetRecording :: "string \<Rightarrow> int \<Rightarrow> live_db \<Rightarrow> live_db" where
  "SetRecording i state db = db\<lparr>ld_Sessions := tbl_upd ls_ID i (\<lambda>s. s\<lparr>ls_Recording := state\<rparr>) (ld_Sessions db)\<rparr>"

definition CreateRoom :: "breakout_room \<Rightarrow> live_db \<Rightarrow> live_db option" where
  "CreateRoom r db =
     (if \<not> live_exists (bm_SessionID r) db then None
      else map_option (\<lambda>t. db\<lparr>ld_Rooms := t\<rparr>) (tbl_ins bm_ID (r\<lparr>bm_ClosedAt := None\<rparr>) (ld_Rooms db)))"

definition ListRooms :: "string \<Rightarrow> live_db \<Rightarrow> breakout_room list" where
  "ListRooms i db = order_asc bm_CreatedAt (filter (\<lambda>r. bm_SessionID r = i \<and> bm_ClosedAt r = None) (ld_Rooms db))"

definition Store_CloseRooms :: "string \<Rightarrow> instant \<Rightarrow> live_db \<Rightarrow> live_db" where
  "Store_CloseRooms i t db =
     db\<lparr>ld_Rooms := map (\<lambda>r. if bm_SessionID r = i \<and> bm_ClosedAt r = None then r\<lparr>bm_ClosedAt := Some t\<rparr> else r) (ld_Rooms db)\<rparr>"

definition CountByRoom :: "string \<Rightarrow> live_db \<Rightarrow> string \<Rightarrow> nat" where
  "CountByRoom i db room = length (filter (\<lambda>a. fst (as_key a) = i \<and> as_RoomID a = Some room) (ld_Assignments db))"

text \<open>\<^verbatim>\<open>room_id\<close> refers to a room, \<^verbatim>\<open>session_id\<close> to a session.\<close>

definition SetAssignment :: "string \<Rightarrow> string \<Rightarrow> string option \<Rightarrow> instant \<Rightarrow> live_db \<Rightarrow> live_db option" where
  "SetAssignment i u room t db =
     (if \<not> live_exists i db \<or> (case room of None \<Rightarrow> False | Some r \<Rightarrow> r \<notin> bm_ID ` set (ld_Rooms db)) then None
      else if (i, u) \<in> as_key ` set (ld_Assignments db)
      then Some (db\<lparr>ld_Assignments := tbl_upd as_key (i, u) (\<lambda>a. a\<lparr>as_RoomID := room, as_AssignedAt := t\<rparr>) (ld_Assignments db)\<rparr>)
      else Some (db\<lparr>ld_Assignments := ld_Assignments db @ [\<lparr>as_key = (i, u), as_RoomID = room, as_AssignedAt = t\<rparr>]\<rparr>))"

definition GetAssignment :: "string \<Rightarrow> string \<Rightarrow> live_db \<Rightarrow> assignment option" where
  "GetAssignment i u db = tbl_get as_key (i, u) (ld_Assignments db)"

definition ClearAssignments :: "string \<Rightarrow> live_db \<Rightarrow> live_db" where
  "ClearAssignments i db = db\<lparr>ld_Assignments := filter (\<lambda>a. fst (as_key a) \<noteq> i) (ld_Assignments db)\<rparr>"

definition ResetConsents :: "string \<Rightarrow> live_db \<Rightarrow> live_db" where
  "ResetConsents i db = db\<lparr>ld_Consents := filter (\<lambda>c. fst (cn_key c) \<noteq> i) (ld_Consents db)\<rparr>"

definition SetConsent :: "string \<Rightarrow> string \<Rightarrow> bool \<Rightarrow> instant \<Rightarrow> live_db \<Rightarrow> live_db option" where
  "SetConsent i u ok t db =
     (if \<not> live_exists i db then None
      else if (i, u) \<in> cn_key ` set (ld_Consents db)
      then Some (db\<lparr>ld_Consents := tbl_upd cn_key (i, u) (\<lambda>c. c\<lparr>cn_Consented := ok, cn_DecidedAt := t\<rparr>) (ld_Consents db)\<rparr>)
      else Some (db\<lparr>ld_Consents := ld_Consents db @ [\<lparr>cn_key = (i, u), cn_Consented = ok, cn_DecidedAt = t\<rparr>]\<rparr>))"

definition ListConsents :: "string \<Rightarrow> live_db \<Rightarrow> consent list" where
  "ListConsents i db = filter (\<lambda>c. fst (cn_key c) = i) (ld_Consents db)"

section \<open>The service\<close>

datatype live_call = LvCreate | LvGet | LvGetHost | LvEnd | LvEgress | LvRecording | LvRoom | LvRooms | LvClose | LvCount | LvAssign | LvSeat
  | LvClear | LvReset | LvConsent | LvConsents

text \<open>
  \<open>lv_mint\<close> mints a token for a room, a user and the right to publish; \<open>lv_start\<close> starts a stream of a room to a target and
  gives its reference; \<open>lv_stops\<close> says whether a call to stop a stream succeeds; \<open>lv_ids\<close> are the ids the request draws, in order.
\<close>

record live_env =
  lv_now :: instant
  lv_fails :: "live_call \<Rightarrow> bool"
  lv_ids :: "nat \<Rightarrow> string"
  lv_mint :: "string \<Rightarrow> string \<Rightarrow> bool \<Rightarrow> string option"
  lv_start :: "string \<Rightarrow> egress_kind \<Rightarrow> string \<Rightarrow> string option"
  lv_stops :: bool
  lv_url :: url_parser

text \<open>What a request does to the media server.\<close>

datatype stream_effect = StreamStarted string string | StreamStopped string

definition LIVE_NOT_FOUND :: api_error where "LIVE_NOT_FOUND = Reject 404 ''LIVE_NOT_FOUND''"

definition load_session :: "live_env \<Rightarrow> string \<Rightarrow> live_db \<Rightarrow> live_session result" where
  "load_session e i db =
     (if lv_fails e LvGet then Inl Transient
      else case GetSession i db of None \<Rightarrow> Inl LIVE_NOT_FOUND | Some s \<Rightarrow> Inr s)"

definition requireHost :: "live_env \<Rightarrow> string \<Rightarrow> string \<Rightarrow> live_db \<Rightarrow> unit result" where
  "requireHost e i u db =
     (if lv_fails e LvGetHost then Inl LIVE_NOT_FOUND
      else case GetSession i db of
        None \<Rightarrow> Inl LIVE_NOT_FOUND
      | Some s \<Rightarrow> if ls_HostID s \<noteq> u then Inl LIVE_NOT_FOUND else Inr ())"

definition live_write :: "bool \<Rightarrow> live_db option \<Rightarrow> live_db \<Rightarrow> unit result \<times> live_db" where
  "live_write down r db = (if down then (Inl Transient, db) else case r of None \<Rightarrow> (Inl Transient, db) | Some db1 \<Rightarrow> (Inr (), db1))"

definition setRecording :: "live_env \<Rightarrow> string \<Rightarrow> int \<Rightarrow> live_db \<Rightarrow> unit result \<times> live_db" where
  "setRecording e i state db = live_write (lv_fails e LvRecording) (Some (SetRecording i state db)) db"

definition Live_Open :: "live_env \<Rightarrow> string \<Rightarrow> string \<Rightarrow> live_db \<Rightarrow> (string \<times> string) result \<times> live_db" where
  "Live_Open e u mainRoom db =
     (let room0 = TrimSpace mainRoom;
          room = (if room0 = [] then ''live-'' @ lv_ids e 0 else room0);
          sid = (if room0 = [] then lv_ids e 1 else lv_ids e 0)
      in case live_write (lv_fails e LvCreate) (CreateSession
                \<lparr>ls_ID = sid, ls_HostID = u, ls_MainRoom = room, ls_CreatedAt = lv_now e, ls_EndedAt = None, ls_EgressState = EgressOff,
                 ls_EgressKind = EgressRTMP, ls_EgressURL = [], ls_EgressRef = [], ls_Recording = RecordingOff\<rparr> db) db of
           (Inl err, db1) \<Rightarrow> (Inl err, db1)
         | (Inr _, db1) \<Rightarrow> (Inr (sid, room), db1))"

definition assignmentRoomID :: "live_env \<Rightarrow> string \<Rightarrow> string \<Rightarrow> live_db \<Rightarrow> string option" where
  "assignmentRoomID e i u db =
     (if lv_fails e LvSeat then None else case GetAssignment i u db of None \<Rightarrow> None | Some a \<Rightarrow> as_RoomID a)"

definition resolveRoom :: "live_session \<Rightarrow> breakout_room list \<Rightarrow> string option \<Rightarrow> string option" where
  "resolveRoom s rooms roomID =
     (case roomID of
        None \<Rightarrow> Some (ls_MainRoom s)
      | Some i \<Rightarrow> map_option bm_Room (find (\<lambda>r. bm_ID r = i) rooms))"

record room_view =
  rvw_ID :: string
  rvw_Name :: string
  rvw_Room :: string
  rvw_Members :: nat

definition roomViews :: "breakout_room list \<Rightarrow> (string \<Rightarrow> nat) \<Rightarrow> room_view list" where
  "roomViews rooms counts =
     map (\<lambda>r. \<lparr>rvw_ID = bm_ID r, rvw_Name = bm_Name r, rvw_Room = bm_Room r, rvw_Members = counts (bm_ID r)\<rparr>) rooms"

record live_status =
  lst_SessionID :: string
  lst_MainRoom :: string
  lst_Ended :: bool
  lst_Egress :: "string \<times> string \<times> string"
  lst_Recording :: "string \<times> consent_summary"
  lst_Rooms :: "room_view list"
  lst_MyRoom :: "string option"

definition Live_Status :: "live_env \<Rightarrow> string \<Rightarrow> string \<Rightarrow> live_db \<Rightarrow> live_status result" where
  "Live_Status e u i db =
     (case load_session e i db of
        Inl err \<Rightarrow> Inl err
      | Inr s \<Rightarrow>
          if lv_fails e LvRooms \<or> lv_fails e LvCount \<or> lv_fails e LvConsents then Inl Transient
          else Inr \<lparr>lst_SessionID = ls_ID s, lst_MainRoom = ls_MainRoom s, lst_Ended = (ls_EndedAt s \<noteq> None),
                    lst_Egress = (EgressState_String (ls_EgressState s),
                      if ls_EgressState s = EgressLive then EgressKind_String (ls_EgressKind s) else [],
                      if ls_EgressState s = EgressLive then ls_EgressURL s else []),
                    lst_Recording = (RecordingState_String (ls_Recording s),
                      Consent_Tally (map (\<lambda>c. (True, cn_Consented c)) (ListConsents i db))),
                    lst_Rooms = roomViews (ListRooms i db) (CountByRoom i db), lst_MyRoom = assignmentRoomID e i u db\<rparr>)"

record me_result =
  me_RoomID :: "string option"
  me_Room :: string
  me_JoinToken :: string

definition Live_Me :: "live_env \<Rightarrow> string \<Rightarrow> string \<Rightarrow> live_db \<Rightarrow> me_result result" where
  "Live_Me e u i db =
     (case load_session e i db of
        Inl err \<Rightarrow> Inl err
      | Inr s \<Rightarrow>
          if lv_fails e LvRooms then Inl Transient
          else
            let seat = assignmentRoomID e i u db;
                (roomID, room) = (case resolveRoom s (ListRooms i db) seat of
                                    Some r \<Rightarrow> (seat, r) | None \<Rightarrow> (None, ls_MainRoom s))
            in case lv_mint e room u True of
                 None \<Rightarrow> Inl Transient
               | Some token \<Rightarrow> Inr \<lparr>me_RoomID = roomID, me_Room = room, me_JoinToken = token\<rparr>)"

text \<open>The loop that creates the rooms; \<open>n\<close> ids have been drawn.\<close>

fun create_rooms :: "live_env \<Rightarrow> string \<Rightarrow> nat \<Rightarrow> string list \<Rightarrow> live_db \<Rightarrow> room_view list result \<times> live_db" where
  "create_rooms e i n [] db = (Inr [], db)"
| "create_rooms e i n (name # names) db =
     (let r = \<lparr>bm_ID = lv_ids e n, bm_SessionID = i, bm_Name = TrimSpace name, bm_Room = ''bo-'' @ lv_ids e (n + 1),
               bm_CreatedAt = lv_now e, bm_ClosedAt = None\<rparr>
      in case live_write (lv_fails e LvRoom) (CreateRoom r db) db of
           (Inl err, db1) \<Rightarrow> (Inl err, db1)
         | (Inr _, db1) \<Rightarrow>
             (case create_rooms e i (n + 2) names db1 of
                (Inl err, db2) \<Rightarrow> (Inl err, db2)
              | (Inr vs, db2) \<Rightarrow> (Inr (\<lparr>rvw_ID = bm_ID r, rvw_Name = bm_Name r, rvw_Room = bm_Room r, rvw_Members = 0\<rparr> # vs), db2)))"

definition Live_CreateRooms :: "live_env \<Rightarrow> string \<Rightarrow> string \<Rightarrow> string list \<Rightarrow> live_db \<Rightarrow> room_view list result \<times> live_db" where
  "Live_CreateRooms e u i names db =
     (case requireHost e i u db of
        Inl err \<Rightarrow> (Inl err, db)
      | Inr _ \<Rightarrow>
          if ValidateRoomCount (length names) \<noteq> None then (Inl (Reject 400 ''VALIDATION_ROOMS''), db)
          else if list_ex (\<lambda>n. ValidateRoomName n \<noteq> None) names then (Inl (Reject 400 ''VALIDATION_ROOM_NAME''), db)
          else create_rooms e i 0 names db)"

definition Live_Assign :: "live_env \<Rightarrow> string \<Rightarrow> string \<Rightarrow> string \<Rightarrow> string option \<Rightarrow> live_db \<Rightarrow> unit result \<times> live_db" where
  "Live_Assign e u i target room db =
     (case requireHost e i u db of
        Inl err \<Rightarrow> (Inl err, db)
      | Inr _ \<Rightarrow>
          if room \<noteq> None \<and> lv_fails e LvRooms then (Inl Transient, db)
          else if (case room of None \<Rightarrow> False | Some r \<Rightarrow> r \<notin> bm_ID ` set (ListRooms i db)) then (Inl (Reject 404 ''ROOM_NOT_FOUND''), db)
          else live_write (lv_fails e LvAssign) (SetAssignment i target room (lv_now e) db) db)"

definition Live_CloseRooms :: "live_env \<Rightarrow> string \<Rightarrow> string \<Rightarrow> live_db \<Rightarrow> unit result \<times> live_db" where
  "Live_CloseRooms e u i db =
     (case requireHost e i u db of
        Inl err \<Rightarrow> (Inl err, db)
      | Inr _ \<Rightarrow>
          (case live_write (lv_fails e LvClose) (Some (Store_CloseRooms i (lv_now e) db)) db of
             (Inl err, db1) \<Rightarrow> (Inl err, db1)
           | (Inr _, db1) \<Rightarrow> live_write (lv_fails e LvClear) (Some (ClearAssignments i db1)) db1))"

definition StartEgress ::
  "live_env \<Rightarrow> string \<Rightarrow> string \<Rightarrow> string \<Rightarrow> string \<Rightarrow> live_db \<Rightarrow> unit result \<times> stream_effect list \<times> live_db" where
  "StartEgress e u i kindStr target db =
     (case requireHost e i u db of
        Inl err \<Rightarrow> (Inl err, [], db)
      | Inr _ \<Rightarrow>
      case load_session e i db of
        Inl err \<Rightarrow> (Inl err, [], db)
      | Inr s \<Rightarrow>
      case ParseEgressKind kindStr of
        None \<Rightarrow> (Inl (Reject 400 ''VALIDATION_EGRESS_KIND''), [], db)
      | Some kind \<Rightarrow>
          if ValidateEgressTarget (lv_url e) kind target \<noteq> None then (Inl (Reject 400 ''VALIDATION_EGRESS_URL''), [], db)
          else if ls_EgressState s = EgressLive then (Inl (Reject 409 ''STATE_EGRESS_LIVE''), [], db)
          else case lv_start e (ls_MainRoom s) kind (TrimSpace target) of
            None \<Rightarrow> (Inl (Reject 502 ''EGRESS_START_FAILED''), [], db)
          | Some ref \<Rightarrow>
              (case live_write (lv_fails e LvEgress) (Some (SetEgress i EgressLive kind (TrimSpace target) ref db)) db of
                 (r, db1) \<Rightarrow> (r, [StreamStarted ref (ls_MainRoom s)], db1)))"

definition StopEgress :: "live_env \<Rightarrow> string \<Rightarrow> string \<Rightarrow> live_db \<Rightarrow> unit result \<times> stream_effect list \<times> live_db" where
  "StopEgress e u i db =
     (case requireHost e i u db of
        Inl err \<Rightarrow> (Inl err, [], db)
      | Inr _ \<Rightarrow>
      case load_session e i db of
        Inl err \<Rightarrow> (Inl err, [], db)
      | Inr s \<Rightarrow>
          if ls_EgressState s \<noteq> EgressLive then (Inr (), [], db)
          else case live_write (lv_fails e LvEgress) (Some (SetEgress i EgressOff (ls_EgressKind s) [] [] db)) db of
            (r, db1) \<Rightarrow> (r, if lv_stops e then [StreamStopped (ls_EgressRef s)] else [], db1))"

definition RequestRecording :: "live_env \<Rightarrow> string \<Rightarrow> string \<Rightarrow> live_db \<Rightarrow> unit result \<times> live_db" where
  "RequestRecording e u i db =
     (case requireHost e i u db of
        Inl err \<Rightarrow> (Inl err, db)
      | Inr _ \<Rightarrow>
          (case live_write (lv_fails e LvReset) (Some (ResetConsents i db)) db of
             (Inl err, db1) \<Rightarrow> (Inl err, db1)
           | (Inr _, db1) \<Rightarrow> setRecording e i RecordingRequested db1))"

definition Live_Consent :: "live_env \<Rightarrow> string \<Rightarrow> string \<Rightarrow> bool \<Rightarrow> live_db \<Rightarrow> unit result \<times> live_db" where
  "Live_Consent e u i ok db =
     (case load_session e i db of
        Inl err \<Rightarrow> (Inl err, db)
      | Inr _ \<Rightarrow> live_write (lv_fails e LvConsent) (SetConsent i u ok (lv_now e) db) db)"

definition StartRecording :: "live_env \<Rightarrow> string \<Rightarrow> string \<Rightarrow> live_db \<Rightarrow> unit result \<times> live_db" where
  "StartRecording e u i db =
     (case requireHost e i u db of Inl err \<Rightarrow> (Inl err, db) | Inr _ \<Rightarrow> setRecording e i RecordingActive db)"

definition StopRecording :: "live_env \<Rightarrow> string \<Rightarrow> string \<Rightarrow> live_db \<Rightarrow> unit result \<times> live_db" where
  "StopRecording e u i db =
     (case requireHost e i u db of Inl err \<Rightarrow> (Inl err, db) | Inr _ \<Rightarrow> setRecording e i RecordingOff db)"

definition Live_Close :: "live_env \<Rightarrow> string \<Rightarrow> string \<Rightarrow> live_db \<Rightarrow> unit result \<times> stream_effect list \<times> live_db" where
  "Live_Close e u i db =
     (case requireHost e i u db of
        Inl err \<Rightarrow> (Inl err, [], db)
      | Inr _ \<Rightarrow>
      case load_session e i db of
        Inl err \<Rightarrow> (Inl err, [], db)
      | Inr s \<Rightarrow>
          let live = (ls_EgressState s = EgressLive);
              fx = (if live \<and> lv_stops e then [StreamStopped (ls_EgressRef s)] else []);
              db1 = (if live \<and> \<not> lv_fails e LvEgress then SetEgress i EgressOff (ls_EgressKind s) [] [] db else db);
              db2 = (if lv_fails e LvClose then db1 else Store_CloseRooms i (lv_now e) db1)
          in case live_write (lv_fails e LvEnd) (Some (EndSession i (lv_now e) db2)) db2 of (r, db3) \<Rightarrow> (r, fx, db3))"

section \<open>Requests\<close>

datatype live_req =
    LqOpen string string
  | LqCreateRooms string string "string list"
  | LqAssign string string string "string option"
  | LqCloseRooms string string
  | LqStartEgress string string string string
  | LqStopEgress string string
  | LqRequest string string
  | LqConsent string string bool
  | LqStartRecording string string
  | LqStopRecording string string
  | LqClose string string

text \<open>The state of the server with the streams that run at the media server, by reference.\<close>

record live_sys =
  lsy_db :: live_db
  lsy_streams :: "string list"

fun stream_do :: "string list \<Rightarrow> stream_effect \<Rightarrow> string list" where
  "stream_do rs (StreamStarted ref room) = rs @ [ref]"
| "stream_do rs (StreamStopped ref) = remove1 ref rs"

fun live_handle :: "live_env \<Rightarrow> live_req \<Rightarrow> live_db \<Rightarrow> stream_effect list \<times> live_db" where
  "live_handle e (LqOpen u room) db = ([], snd (Live_Open e u room db))"
| "live_handle e (LqCreateRooms u i names) db = ([], snd (Live_CreateRooms e u i names db))"
| "live_handle e (LqAssign u i v room) db = ([], snd (Live_Assign e u i v room db))"
| "live_handle e (LqCloseRooms u i) db = ([], snd (Live_CloseRooms e u i db))"
| "live_handle e (LqStartEgress u i kind target) db = snd (StartEgress e u i kind target db)"
| "live_handle e (LqStopEgress u i) db = snd (StopEgress e u i db)"
| "live_handle e (LqRequest u i) db = ([], snd (RequestRecording e u i db))"
| "live_handle e (LqConsent u i ok) db = ([], snd (Live_Consent e u i ok db))"
| "live_handle e (LqStartRecording u i) db = ([], snd (StartRecording e u i db))"
| "live_handle e (LqStopRecording u i) db = ([], snd (StopRecording e u i db))"
| "live_handle e (LqClose u i) db = snd (Live_Close e u i db)"

definition live_step :: "live_sys \<Rightarrow> live_env \<times> live_req \<Rightarrow> live_sys" where
  "live_step s x =
     (case live_handle (fst x) (snd x) (lsy_db s) of
        (fx, db) \<Rightarrow> \<lparr>lsy_db = db, lsy_streams = fold (\<lambda>f rs. stream_do rs f) fx (lsy_streams s)\<rparr>)"

end
