(* ===== verification/BreakoutProps.thy ===== *)
theory BreakoutProps
  imports Breakout "HOL-Library.Multiset"
begin

text \<open>
  Which room a participant is let into, that the streams that run are the ones on record, and how a session over any room lets
  its host into that room.
\<close>

definition live_start :: live_sys where
  "live_start = \<lparr>lsy_db = empty_live_db, lsy_streams = []\<rparr>"

section \<open>Sessions and hosts\<close>

lemma requireHost_Inr: "requireHost e i u db = Inr x \<Longrightarrow> \<exists>s. GetSession i db = Some s \<and> ls_HostID s = u"
  by (auto simp: requireHost_def split: if_splits option.splits)

lemma load_session_Inr: "load_session e i db = Inr s \<longleftrightarrow> \<not> lv_fails e LvGet \<and> GetSession i db = Some s"
  by (auto simp: load_session_def split: option.splits)

text \<open>Writes to the sessions other than a creation.\<close>

lemmas session_writes = EndSession_def SetEgress_def SetRecording_def

lemma create_rooms_frame:
  "ld_Sessions (snd (create_rooms e i n names db)) = ld_Sessions db \<and> ld_Assignments (snd (create_rooms e i n names db)) = ld_Assignments db"
proof (induction e i n names db rule: create_rooms.induct)
  case (2 e i n name names db)
  let ?r = "\<lparr>bm_ID = lv_ids e n, bm_SessionID = i, bm_Name = TrimSpace name, bm_Room = ''bo-'' @ lv_ids e (n + 1),
               bm_CreatedAt = lv_now e, bm_ClosedAt = None\<rparr>"
  obtain r db1 where w: "live_write (lv_fails e LvRoom) (CreateRoom ?r db) db = (r, db1)" by fastforce
  have d: "ld_Sessions db1 = ld_Sessions db" "ld_Assignments db1 = ld_Assignments db"
    using w by (auto simp: live_write_def CreateRoom_def split: if_splits option.splits)
  obtain r2 db2 where c: "create_rooms e i (n + 2) names db1 = (r2, db2)" by fastforce
  show ?case
  proof (cases r)
    case (Inl err)
    then show ?thesis using w d by (simp add: Let_def)
  next
    case (Inr x)
    have "ld_Sessions db2 = ld_Sessions db1 \<and> ld_Assignments db2 = ld_Assignments db1" using 2 [OF refl w [symmetric] Inr] c by simp
    then show ?thesis using w d Inr c by (cases r2) (simp_all add: Let_def)
  qed
qed simp

text \<open>The hosts of the sessions and the assignments after a request.\<close>

definition host_of :: "live_db \<Rightarrow> string \<Rightarrow> string option" where
  "host_of db i = map_option ls_HostID (GetSession i db)"

lemma host_upd: "(\<And>s. ls_ID (f s) = ls_ID s \<and> ls_HostID (f s) = ls_HostID s) \<Longrightarrow>
   host_of (db\<lparr>ld_Sessions := tbl_upd ls_ID i f (ld_Sessions db)\<rparr>) j = host_of db j"
  by (cases "tbl_get ls_ID i (ld_Sessions db)") (auto simp: host_of_def GetSession_def tbl_get_upd)

lemma host_writes [simp]:
  "host_of (SetEgress i a b c d db) j = host_of db j" "host_of (SetRecording i a db) j = host_of db j" "host_of (EndSession i t db) j = host_of db j"
  by (simp_all add: session_writes host_upd)

lemma host_frame: "ld_Sessions db' = ld_Sessions db \<Longrightarrow> host_of db' j = host_of db j"
  by (simp add: host_of_def GetSession_def)

lemma host_other_writes [simp]:
  "host_of (Store_CloseRooms i t db) j = host_of db j" "host_of (ClearAssignments i db) j = host_of db j" "host_of (ResetConsents i db) j = host_of db j"
  by (simp_all add: host_of_def GetSession_def Store_CloseRooms_def ClearAssignments_def ResetConsents_def)

lemma host_open:
  assumes "host_of db j = Some h"
  shows "host_of (snd (Live_Open e u room db)) j = Some h"
proof -
  have "host_of db' j = Some h" if "CreateSession s db = Some db'" for s db'
    using that assms by (auto simp: CreateSession_def host_of_def GetSession_def tbl_ins_Some tbl_get_append)
  then show ?thesis using assms by (auto simp: Live_Open_def live_write_def Let_def split: option.split)
qed

lemma live_write_cases: "live_write f r db = (x, db') \<Longrightarrow> db' = db \<or> r = Some db'"
  by (auto simp: live_write_def split: if_splits option.splits)

lemma host_kept:
  assumes "host_of db j = Some h"
  shows "host_of (snd (live_handle e r db)) j = Some h"
proof (cases r)
  case (LqOpen u room)
  then show ?thesis using host_open [OF assms] by simp
next
  case (LqCreateRooms u i names)
  have "host_of (snd (create_rooms e i 0 names db)) j = host_of db j" by (rule host_frame) (simp add: create_rooms_frame)
  then show ?thesis using LqCreateRooms assms by (simp add: Live_CreateRooms_def split: sum.split)
next
  case (LqAssign u i v room)
  have "host_of db' j = Some h" if "SetAssignment i v room t db = Some db'" for db' t
  proof -
    have "ld_Sessions db' = ld_Sessions db" using that by (auto simp: SetAssignment_def split: if_splits)
    from host_frame [OF this] assms show ?thesis by simp
  qed
  then show ?thesis using LqAssign assms by (auto simp: Live_Assign_def live_write_def split: sum.split option.split)
next
  case (LqCloseRooms u i)
  then show ?thesis using assms
    by (auto simp: Live_CloseRooms_def live_write_def split: sum.split)
next
  case (LqStartEgress u i k t)
  then show ?thesis using assms by (auto simp: StartEgress_def live_write_def split: sum.split option.split)
next
  case (LqStopEgress u i)
  then show ?thesis using assms by (auto simp: StopEgress_def live_write_def split: sum.split)
next
  case (LqRequest u i)
  then show ?thesis using assms
    by (auto simp: RequestRecording_def live_write_def setRecording_def split: sum.split)
next
  case (LqConsent u i ok)
  have "host_of db' j = Some h" if "SetConsent i u ok t db = Some db'" for db' t
  proof -
    have "ld_Sessions db' = ld_Sessions db" using that by (auto simp: SetConsent_def split: if_splits)
    from host_frame [OF this] assms show ?thesis by simp
  qed
  then show ?thesis using LqConsent assms by (auto simp: Live_Consent_def live_write_def split: sum.split option.split)
next
  case (LqStartRecording u i)
  then show ?thesis using assms by (auto simp: StartRecording_def setRecording_def live_write_def split: sum.split)
next
  case (LqStopRecording u i)
  then show ?thesis using assms by (auto simp: StopRecording_def setRecording_def live_write_def split: sum.split)
next
  case (LqClose u i)
  then show ?thesis using assms
    by (auto simp: Live_Close_def live_write_def Let_def split: sum.split)
qed

section \<open>Assignments\<close>

lemma assign_frames [simp]:
  "ld_Assignments (SetEgress i a b c d db) = ld_Assignments db" "ld_Assignments (SetRecording i a db) = ld_Assignments db"
  "ld_Assignments (EndSession i t db) = ld_Assignments db" "ld_Assignments (Store_CloseRooms i t db) = ld_Assignments db"
  "ld_Assignments (ResetConsents i db) = ld_Assignments db"
  by (simp_all add: session_writes Store_CloseRooms_def ResetConsents_def)

lemma set_assignment_new:
  assumes "SetAssignment i v room t db = Some db'" "a \<in> set (ld_Assignments db')"
  shows "a \<in> set (ld_Assignments db) \<or> (as_key a = (i, v) \<and> as_RoomID a = room)"
  using assms by (auto simp: SetAssignment_def tbl_upd_def split: if_splits)

text \<open>A request adds an assignment only if it is one that the host of the session makes.\<close>

lemma assignment_source:
  assumes "a \<in> set (ld_Assignments (snd (live_handle e r db)))"
  shows "a \<in> set (ld_Assignments db) \<or> (\<exists>u i v. r = LqAssign u i v (as_RoomID a) \<and> as_key a = (i, v) \<and> host_of db i = Some u)"
proof (cases r)
  case (LqAssign u i v room)
  show ?thesis
  proof (cases "requireHost e i u db")
    case (Inl err)
    then show ?thesis using assms LqAssign by (simp add: Live_Assign_def)
  next
    case (Inr x)
    then have h: "host_of db i = Some u" using requireHost_Inr by (fastforce simp: host_of_def)
    obtain res db' where w: "live_write (lv_fails e LvAssign) (SetAssignment i v room (lv_now e) db) db = (res, db')" by fastforce
    have "snd (Live_Assign e u i v room db) = db \<or> snd (Live_Assign e u i v room db) = db'"
      using Inr w by (auto simp: Live_Assign_def)
    then show ?thesis using assms LqAssign h live_write_cases [OF w] set_assignment_new [of i v room "lv_now e" db db' a] by auto
  qed
next
  case (LqOpen u room)
  have "ld_Assignments db' = ld_Assignments db" if "CreateSession s db = Some db'" for s db'
    using that by (auto simp: CreateSession_def)
  then show ?thesis using LqOpen assms by (auto simp: Live_Open_def live_write_def Let_def split: option.splits if_splits)
next
  case (LqCreateRooms u i names)
  then show ?thesis using assms by (simp add: Live_CreateRooms_def create_rooms_frame split: sum.splits if_splits)
next
  case (LqCloseRooms u i)
  then show ?thesis using assms by (auto simp: Live_CloseRooms_def live_write_def ClearAssignments_def split: sum.splits if_splits)
next
  case (LqStartEgress u i k t)
  then show ?thesis using assms by (auto simp: StartEgress_def live_write_def split: sum.splits option.splits if_splits)
next
  case (LqStopEgress u i)
  then show ?thesis using assms by (simp add: StopEgress_def live_write_def split: sum.splits if_splits)
next
  case (LqRequest u i)
  then show ?thesis using assms by (simp add: RequestRecording_def live_write_def setRecording_def split: sum.splits if_splits)
next
  case (LqConsent u i ok)
  have "ld_Assignments db' = ld_Assignments db" if "SetConsent i u ok t db = Some db'" for db' t
    using that by (auto simp: SetConsent_def split: if_splits)
  then show ?thesis using LqConsent assms by (auto simp: Live_Consent_def live_write_def split: sum.splits option.splits if_splits)
next
  case (LqStartRecording u i)
  then show ?thesis using assms by (simp add: StartRecording_def setRecording_def live_write_def split: sum.splits if_splits)
next
  case (LqStopRecording u i)
  then show ?thesis using assms by (simp add: StopRecording_def setRecording_def live_write_def split: sum.splits if_splits)
next
  case (LqClose u i)
  then show ?thesis using assms by (simp add: Live_Close_def live_write_def Let_def split: sum.splits if_splits)
qed

definition seats_from :: "(live_env \<times> live_req) list \<Rightarrow> live_db \<Rightarrow> bool" where
  "seats_from ops db \<longleftrightarrow> (\<forall>a \<in> set (ld_Assignments db). \<exists>h e.
     host_of db (fst (as_key a)) = Some h \<and> (e, LqAssign h (fst (as_key a)) (snd (as_key a)) (as_RoomID a)) \<in> set ops)"

lemma live_step_db: "lsy_db (live_step s (e, r)) = snd (live_handle e r (lsy_db s))"
  by (simp add: live_step_def split: prod.split)

lemma seats_run: "seats_from ops (lsy_db (run live_step live_start ops))"
proof (induction ops rule: rev_induct)
  case Nil
  then show ?case by (simp add: seats_from_def live_start_def empty_live_db_def)
next
  case (snoc x xs)
  obtain e r where x: "x = (e, r)" by fastforce
  let ?db = "lsy_db (run live_step live_start xs)"
  have db': "lsy_db (run live_step live_start (xs @ [x])) = snd (live_handle e r ?db)" by (simp add: run_append x live_step_db)
  have "\<exists>h e'. host_of (snd (live_handle e r ?db)) (fst (as_key a)) = Some h \<and> (e', LqAssign h (fst (as_key a)) (snd (as_key a)) (as_RoomID a)) \<in> set (xs @ [x])"
    if "a \<in> set (ld_Assignments (snd (live_handle e r ?db)))" for a
    using assignment_source [OF that]
  proof
    assume "a \<in> set (ld_Assignments ?db)"
    then obtain h e' where "host_of ?db (fst (as_key a)) = Some h" "(e', LqAssign h (fst (as_key a)) (snd (as_key a)) (as_RoomID a)) \<in> set xs"
      using snoc unfolding seats_from_def by blast
    then show ?thesis using host_kept [of ?db "fst (as_key a)" h e r] by auto
  next
    assume "\<exists>u i v. r = LqAssign u i v (as_RoomID a) \<and> as_key a = (i, v) \<and> host_of ?db i = Some u"
    then obtain u i v where a: "r = LqAssign u i v (as_RoomID a)" "as_key a = (i, v)" "host_of ?db i = Some u" by blast
    then have "host_of (snd (live_handle e r ?db)) i = Some u" using host_kept by blast
    then show ?thesis using a by (auto simp: x)
  qed
  then show ?case unfolding seats_from_def db' by blast
qed

text \<open>
C33. A participant is let into the right room: after any requests and failures, the join token a user gets for a session is for
the main room of the session, or for an open breakout room of this session to which the host of the session has assigned
this user.
\<close>

theorem breakout_join_rooms:
  assumes "db = lsy_db (run live_step live_start ops)" "Live_Me e u i db = Inr me"
  shows "lv_mint e (me_Room me) u True = Some (me_JoinToken me) \<and>
    (\<exists>s. GetSession i db = Some s \<and>
      (me_RoomID me = None \<and> me_Room me = ls_MainRoom s \<or>
       (\<exists>r \<in> set (ld_Rooms db). me_RoomID me = Some (bm_ID r) \<and> me_Room me = bm_Room r \<and> bm_SessionID r = i \<and> bm_ClosedAt r = None \<and>
          (\<exists>e'. (e', LqAssign (ls_HostID s) i u (Some (bm_ID r))) \<in> set ops))))"
proof -
  have seats: "seats_from ops db" unfolding assms(1) by (rule seats_run)
  obtain s where s: "load_session e i db = Inr s" using assms(2) by (auto simp: Live_Me_def split: sum.splits)
  have get: "GetSession i db = Some s" using s by (simp add: load_session_Inr)
  let ?seat = "assignmentRoomID e i u db"
  have me: "me_RoomID me = (if resolveRoom s (ListRooms i db) ?seat = None then None else ?seat)"
    "me_Room me = (case resolveRoom s (ListRooms i db) ?seat of None \<Rightarrow> ls_MainRoom s | Some r \<Rightarrow> r)"
    "lv_mint e (me_Room me) u True = Some (me_JoinToken me)"
    using assms(2) s by (auto simp: Live_Me_def Let_def split: if_splits option.splits)
  show ?thesis
  proof (cases "me_RoomID me")
    case None
    then have "me_Room me = ls_MainRoom s"
      using me(1,2) by (cases "?seat") (auto simp: resolveRoom_def split: if_splits option.splits)
    then show ?thesis using None me(3) get by blast
  next
    case (Some rid)
    then have seat: "?seat = Some rid" and res: "resolveRoom s (ListRooms i db) (Some rid) = Some (me_Room me)"
      using me(1,2) by (auto split: if_splits option.splits)
    obtain r where r: "find (\<lambda>r. bm_ID r = rid) (ListRooms i db) = Some r" "me_Room me = bm_Room r"
      using res by (auto simp: resolveRoom_def)
    then have room: "r \<in> set (ListRooms i db)" "bm_ID r = rid" by (auto simp: find_Some_iff)
    obtain a where a: "GetAssignment i u db = Some a" "as_RoomID a = Some rid"
      using seat by (auto simp: assignmentRoomID_def split: if_splits option.splits)
    then have key: "a \<in> set (ld_Assignments db)" "as_key a = (i, u)" using tbl_get_Some unfolding GetAssignment_def by fast+
    then obtain h e' where "host_of db i = Some h" "(e', LqAssign h i u (Some rid)) \<in> set ops"
      using seats a(2) unfolding seats_from_def by fastforce
    then have "(e', LqAssign (ls_HostID s) i u (Some (bm_ID r))) \<in> set ops" using get room(2) by (auto simp: host_of_def)
    moreover have "r \<in> set (ld_Rooms db)" "bm_SessionID r = i" "bm_ClosedAt r = None" using room(1) by (auto simp: ListRooms_def)
    ultimately show ?thesis using Some r(2) room(2) me(3) get by blast
  qed
qed

section \<open>Streams\<close>

definition live_refs :: "live_db \<Rightarrow> string multiset" where
  "live_refs db = image_mset ls_EgressRef (filter_mset (\<lambda>s. ls_EgressState s = EgressLive) (mset (ld_Sessions db)))"

lemma live_refs_frame: "ld_Sessions db' = ld_Sessions db \<Longrightarrow> live_refs db' = live_refs db"
  by (simp add: live_refs_def)

lemma mset_upd_one:
  "tbl_wf key rows \<Longrightarrow> tbl_get key k rows = Some r \<Longrightarrow> mset (tbl_upd key k f rows) = add_mset (f r) (mset rows - {#r#})"
proof (induction rows)
  case (Cons x xs)
  show ?case
  proof (cases "key x = k")
    case True
    then have "key y \<noteq> k" if "y \<in> set xs" for y using Cons.prems(1) that by (auto simp: tbl_wf_def image_iff)
    then have "tbl_upd key k f xs = xs" by (auto simp: tbl_upd_def intro: map_idI)
    then show ?thesis using True Cons.prems(2) by (simp add: tbl_upd_def tbl_get_Cons)
  next
    case False
    then have "tbl_get key k xs = Some r" "tbl_wf key xs" using Cons.prems by (auto simp: tbl_get_Cons tbl_wf_def)
    then have "mset (tbl_upd key k f xs) = add_mset (f r) (mset xs - {#r#})" and "r \<in># mset xs"
      using Cons.IH tbl_get_Some [of key k xs r] by auto
    then show ?thesis using False by (simp add: tbl_upd_def)
  qed
qed simp

lemma live_refs_upd:
  assumes "tbl_wf ls_ID (ld_Sessions db)" "GetSession i db = Some s"
  shows "live_refs (db\<lparr>ld_Sessions := tbl_upd ls_ID i f (ld_Sessions db)\<rparr>) =
    live_refs db - (if ls_EgressState s = EgressLive then {#ls_EgressRef s#} else {#}) +
      (if ls_EgressState (f s) = EgressLive then {#ls_EgressRef (f s)#} else {#})"
proof -
  have g: "tbl_get ls_ID i (ld_Sessions db) = Some s" using assms(2) by (simp add: GetSession_def)
  have "s \<in># mset (ld_Sessions db)" using tbl_get_Some [OF g] by simp
  then obtain M where M: "mset (ld_Sessions db) = add_mset s M" by (metis insert_DiffM)
  then show ?thesis using mset_upd_one [OF assms(1) g, of f] by (simp add: live_refs_def)
qed

definition streams_ok :: "live_sys \<Rightarrow> bool" where
  "streams_ok s \<longleftrightarrow> tbl_wf ls_ID (ld_Sessions (lsy_db s)) \<and> mset (lsy_streams s) = live_refs (lsy_db s)"

lemma egress_refs:
  assumes wf: "tbl_wf ls_ID (ld_Sessions db)" and s: "GetSession i db = Some s"
  shows "ls_EgressState s \<noteq> EgressLive \<Longrightarrow> live_refs (SetEgress i EgressLive k t ref db) = add_mset ref (live_refs db)"
    "ls_EgressState s = EgressLive \<Longrightarrow> live_refs (SetEgress i EgressOff k t ref db) = live_refs db - {#ls_EgressRef s#}"
    "ls_EgressState s = EgressLive \<Longrightarrow> ls_EgressRef s \<in># live_refs db"
proof -
  have "s \<in> set (ld_Sessions db)" using s tbl_get_Some unfolding GetSession_def by fast
  then show "ls_EgressState s = EgressLive \<Longrightarrow> ls_EgressRef s \<in># live_refs db" by (auto simp: live_refs_def)
qed (simp_all add: SetEgress_def live_refs_upd [OF wf s] EgressLive_def EgressOff_def)

lemma refs_same_upd:
  assumes "tbl_wf ls_ID (ld_Sessions db)" "\<And>s. ls_EgressState (f s) = ls_EgressState s \<and> ls_EgressRef (f s) = ls_EgressRef s"
  shows "live_refs (db\<lparr>ld_Sessions := tbl_upd ls_ID i f (ld_Sessions db)\<rparr>) = live_refs db"
proof -
  have "live_refs (db\<lparr>ld_Sessions := map g rows\<rparr>) = live_refs (db\<lparr>ld_Sessions := rows\<rparr>)"
    if "\<And>s. ls_EgressState (g s) = ls_EgressState s \<and> ls_EgressRef (g s) = ls_EgressRef s" for g rows
    using that by (induction rows) (auto simp: live_refs_def)
  from this [of "\<lambda>r. if ls_ID r = i then f r else r" "ld_Sessions db"] assms(2) show ?thesis by (auto simp: tbl_upd_def)
qed

lemma refs_writes:
  assumes "tbl_wf ls_ID (ld_Sessions db)"
  shows "live_refs (SetRecording i a db) = live_refs db" "live_refs (EndSession i t db) = live_refs db"
  using refs_same_upd [OF assms] by (simp_all add: SetRecording_def EndSession_def)

lemma wf_writes [simp]:
  "tbl_wf ls_ID (ld_Sessions (SetEgress i a b c d db)) = tbl_wf ls_ID (ld_Sessions db)"
  "tbl_wf ls_ID (ld_Sessions (SetRecording i a' db)) = tbl_wf ls_ID (ld_Sessions db)"
  "tbl_wf ls_ID (ld_Sessions (EndSession i t db)) = tbl_wf ls_ID (ld_Sessions db)"
  by (simp_all add: session_writes tbl_wf_def map_key_upd)

lemma sessions_frames [simp]:
  "ld_Sessions (Store_CloseRooms i t db) = ld_Sessions db" "ld_Sessions (ClearAssignments i db) = ld_Sessions db" "ld_Sessions (ResetConsents i db) = ld_Sessions db"
  by (simp_all add: Store_CloseRooms_def ClearAssignments_def ResetConsents_def)

text \<open>A handler that starts and stops no stream, and leaves the references alone.\<close>

definition quiet :: "live_db \<Rightarrow> stream_effect list \<times> live_db \<Rightarrow> bool" where
  "quiet db r \<longleftrightarrow> fst r = [] \<and> tbl_wf ls_ID (ld_Sessions (snd r)) \<and> live_refs (snd r) = live_refs db"

lemma quiet_frame: "tbl_wf ls_ID (ld_Sessions db) \<Longrightarrow> ld_Sessions db' = ld_Sessions db \<Longrightarrow> quiet db ([], db')"
  by (simp add: quiet_def live_refs_def)

text \<open>The two outcomes of a start and of a stop when the write of the stream state and the call to the media server succeed.\<close>

lemma StartEgress_cases:
  assumes "\<not> lv_fails e LvEgress"
  shows "snd (StartEgress e u i k t db) = ([], db) \<or> (\<exists>x ref kind. GetSession i db = Some x \<and> ls_EgressState x \<noteq> EgressLive \<and>
     snd (StartEgress e u i k t db) = ([StreamStarted ref (ls_MainRoom x)], SetEgress i EgressLive kind (TrimSpace t) ref db))"
proof (cases "requireHost e i u db")
  case host: (Inr y)
  show ?thesis
  proof (cases "load_session e i db")
    case (Inr x)
    have x: "GetSession i db = Some x" using Inr by (simp add: load_session_Inr)
    show ?thesis
    proof (cases "ParseEgressKind k")
      case (Some kind)
      show ?thesis
      proof (cases "lv_start e (ls_MainRoom x) kind (TrimSpace t)")
        case None
        then show ?thesis using host Inr Some by (simp add: StartEgress_def)
      next
        case (Some ref)
        then show ?thesis using host Inr \<open>ParseEgressKind k = Some kind\<close> x assms by (simp add: StartEgress_def live_write_def) blast
      qed
    qed (use host Inr in \<open>simp add: StartEgress_def\<close>)
  qed (use host in \<open>simp add: StartEgress_def\<close>)
qed (simp add: StartEgress_def)

lemma StopEgress_cases:
  assumes "\<not> lv_fails e LvEgress" "lv_stops e"
  shows "snd (StopEgress e u i db) = ([], db) \<or> (\<exists>x. GetSession i db = Some x \<and> ls_EgressState x = EgressLive \<and>
     snd (StopEgress e u i db) = ([StreamStopped (ls_EgressRef x)], SetEgress i EgressOff (ls_EgressKind x) [] [] db))"
proof (cases "requireHost e i u db")
  case host: (Inr y)
  show ?thesis
  proof (cases "load_session e i db")
    case (Inr x)
    then have x: "GetSession i db = Some x" by (simp add: load_session_Inr)
    then show ?thesis using host Inr assms by (simp add: StopEgress_def live_write_def)
  qed (use host in \<open>simp add: StopEgress_def\<close>)
qed (simp add: StopEgress_def)

lemma streams_step:
  assumes ok: "streams_ok s" and e: "\<not> lv_fails e LvEgress" "lv_stops e"
  shows "streams_ok (live_step s (e, r))"
proof -
  let ?db = "lsy_db s"
  have wf: "tbl_wf ls_ID (ld_Sessions ?db)" and ms: "mset (lsy_streams s) = live_refs ?db" using ok by (auto simp: streams_ok_def)
  have calm: ?thesis if "quiet ?db (live_handle e r ?db)"
    using that ms by (cases "live_handle e r ?db") (simp add: streams_ok_def live_step_def quiet_def)
  note same = quiet_frame [OF wf]
  show ?thesis
  proof (cases r)
    case (LqOpen u room)
    have "quiet ?db ([], db')" if "CreateSession x ?db = Some db'" for x db'
      using that wf tbl_wf_ins by (auto simp: quiet_def CreateSession_def tbl_ins_Some live_refs_def EgressLive_def)
        (simp add: tbl_wf_def)
    then show ?thesis using LqOpen same by (intro calm) (auto simp: Live_Open_def live_write_def Let_def split: option.split)
  next
    case (LqCreateRooms u i names)
    then show ?thesis by (intro calm) (auto simp: Live_CreateRooms_def create_rooms_frame intro!: same split: sum.split)
  next
    case (LqAssign u i v room)
    have "ld_Sessions db' = ld_Sessions ?db" if "SetAssignment i v room t ?db = Some db'" for db' t
      using that by (auto simp: SetAssignment_def split: if_splits)
    then show ?thesis using LqAssign by (intro calm) (auto simp: Live_Assign_def live_write_def intro!: same split: sum.split option.split)
  next
    case (LqCloseRooms u i)
    then show ?thesis by (intro calm) (auto simp: Live_CloseRooms_def live_write_def intro!: same split: sum.split)
  next
    case (LqStartEgress u i k t)
    from StartEgress_cases [OF e(1), of u i k t ?db] show ?thesis
    proof
      assume "snd (StartEgress e u i k t ?db) = ([], ?db)"
      then show ?thesis using LqStartEgress same [of ?db] by (intro calm) simp
    next
      assume "\<exists>x ref kind. GetSession i ?db = Some x \<and> ls_EgressState x \<noteq> EgressLive \<and>
        snd (StartEgress e u i k t ?db) = ([StreamStarted ref (ls_MainRoom x)], SetEgress i EgressLive kind (TrimSpace t) ref ?db)"
      then obtain x ref kind where x: "GetSession i ?db = Some x" "ls_EgressState x \<noteq> EgressLive"
        "live_handle e r ?db = ([StreamStarted ref (ls_MainRoom x)], SetEgress i EgressLive kind (TrimSpace t) ref ?db)"
        unfolding LqStartEgress live_handle.simps by blast
      then show ?thesis using egress_refs(1) [OF wf x(1,2)] wf ms by (simp add: live_step_def streams_ok_def)
    qed
  next
    case (LqStopEgress u i)
    from StopEgress_cases [OF e, of u i ?db] show ?thesis
    proof
      assume "snd (StopEgress e u i ?db) = ([], ?db)"
      then show ?thesis using LqStopEgress same [of ?db] by (intro calm) simp
    next
      assume "\<exists>x. GetSession i ?db = Some x \<and> ls_EgressState x = EgressLive \<and>
        snd (StopEgress e u i ?db) = ([StreamStopped (ls_EgressRef x)], SetEgress i EgressOff (ls_EgressKind x) [] [] ?db)"
      then obtain x where x: "GetSession i ?db = Some x" "ls_EgressState x = EgressLive"
        "live_handle e r ?db = ([StreamStopped (ls_EgressRef x)], SetEgress i EgressOff (ls_EgressKind x) [] [] ?db)"
        unfolding LqStopEgress live_handle.simps by blast
      then show ?thesis using egress_refs(2) [OF wf x(1,2)] wf ms by (simp add: live_step_def streams_ok_def)
    qed
  next
    case (LqRequest u i)
    have "quiet ?db ([], SetRecording i a (ResetConsents i ?db))" for a
      using wf refs_writes(1) [of "ResetConsents i ?db"] live_refs_frame [of "ResetConsents i ?db" ?db] by (simp add: quiet_def)
    then show ?thesis using LqRequest same by (intro calm) (auto simp: RequestRecording_def live_write_def setRecording_def split: sum.split)
  next
    case (LqConsent u i c)
    have "ld_Sessions db' = ld_Sessions ?db" if "SetConsent i u c t ?db = Some db'" for db' t
      using that by (auto simp: SetConsent_def split: if_splits)
    then show ?thesis using LqConsent by (intro calm) (auto simp: Live_Consent_def live_write_def intro!: same split: sum.split option.split)
  next
    case (LqStartRecording u i)
    then show ?thesis using same [of ?db] wf refs_writes(1) [OF wf]
      by (intro calm) (auto simp: StartRecording_def setRecording_def live_write_def quiet_def split: sum.split)
  next
    case (LqStopRecording u i)
    then show ?thesis using same [of ?db] wf refs_writes(1) [OF wf]
      by (intro calm) (auto simp: StopRecording_def setRecording_def live_write_def quiet_def split: sum.split)
  next
    case (LqClose u i)
    show ?thesis
    proof (cases "requireHost e i u ?db = Inr () \<and> (\<exists>x. load_session e i ?db = Inr x)")
      case False
      then have "live_handle e r ?db = ([], ?db)" using LqClose by (auto simp: Live_Close_def split: sum.split)
      then show ?thesis using same [of ?db] by (intro calm) simp
    next
      case True
      then obtain x where h: "requireHost e i u ?db = Inr ()" and l: "load_session e i ?db = Inr x" by blast
      have x: "GetSession i ?db = Some x" using l by (simp add: load_session_Inr)
      define live where "live \<longleftrightarrow> ls_EgressState x = EgressLive"
      define db1 where "db1 = (if live then SetEgress i EgressOff (ls_EgressKind x) [] [] ?db else ?db)"
      define db2 where "db2 = (if lv_fails e LvClose then db1 else Store_CloseRooms i (lv_now e) db1)"
      define db3 where "db3 = (if lv_fails e LvEnd then db2 else EndSession i (lv_now e) db2)"
      have "live_handle e r ?db = (if live then [StreamStopped (ls_EgressRef x)] else [], db3)"
        using h l e by (simp add: LqClose Live_Close_def live_write_def Let_def live_def db1_def db2_def db3_def)
      moreover have wf2: "tbl_wf ls_ID (ld_Sessions db2)" using wf by (simp add: db1_def db2_def)
      moreover have "tbl_wf ls_ID (ld_Sessions db3)" using wf2 by (simp add: db3_def)
      moreover have "live_refs db3 = live_refs db1"
        using refs_writes(2) [OF wf2] live_refs_frame [of db2 db1] by (simp add: db3_def) (simp add: db2_def)
      ultimately show ?thesis using egress_refs(2,3) [OF wf x] ms
        by (cases live) (simp_all add: live_step_def streams_ok_def mset_remove1 db1_def live_def)
    qed
  qed
qed

text \<open>
The streams on record are the streams that run: after any requests in which the writes of the stream state and the calls to
stop a stream succeed, the streams that run at the media server are exactly those that the live sessions name, one each.
\<close>

theorem streams_tracked:
  assumes "\<forall>x \<in> set ops. \<not> lv_fails (fst x) LvEgress \<and> lv_stops (fst x)"
  shows "mset (lsy_streams (run live_step live_start ops)) =
    image_mset ls_EgressRef (filter_mset (\<lambda>s. ls_EgressState s = EgressLive) (mset (ld_Sessions (lsy_db (run live_step live_start ops)))))"
proof -
  have "streams_ok (run live_step s ops)" if "streams_ok s" for s
    using assms that by (induction ops arbitrary: s) (auto simp: streams_step)
  moreover have "streams_ok live_start" by (simp add: streams_ok_def live_start_def empty_live_db_def live_refs_def)
  ultimately show ?thesis by (auto simp: streams_ok_def live_refs_def)
qed

section \<open>Findings\<close>

text \<open>
A session names its main room without any check, so any user who knows the name of a room opens a session over it and is given
a token to publish there, also when another user's session runs in the room.
\<close>

lemma open_takes_over_room:
  assumes "\<not> lv_fails e LvCreate" "\<not> lv_fails e LvGet" "\<not> lv_fails e LvRooms" "lv_ids e 0 \<notin> ls_ID ` set (ld_Sessions db)"
    "TrimSpace room = room" "room \<noteq> []" "GetAssignment (lv_ids e 0) u db = None" "lv_mint e room u True = Some token"
  shows "\<exists>db' me. Live_Open e u room db = (Inr (lv_ids e 0, room), db') \<and> Live_Me e u (lv_ids e 0) db' = Inr me \<and>
    me_Room me = room \<and> me_JoinToken me = token"
proof -
  have "tbl_get ls_ID (lv_ids e 0) (ld_Sessions db) = None" using assms(4) by (simp add: tbl_get_None)
  then show ?thesis using assms
    by (simp add: Live_Open_def live_write_def CreateSession_def tbl_ins_def Let_def Live_Me_def load_session_def GetSession_def tbl_get_append
        tbl_get_Cons assignmentRoomID_def GetAssignment_def resolveRoom_def)
qed

text \<open>A stream whose state could not be written runs on, and no session names it.\<close>

definition live_e :: live_env where
  "live_e = \<lparr>lv_now = 0, lv_fails = (\<lambda>_. False), lv_ids = (\<lambda>n. replicate n CHR ''x''), lv_mint = (\<lambda>r u p. Some (r @ u)),
     lv_start = (\<lambda>_ _ _. Some ''ref''), lv_stops = True, lv_url = (\<lambda>_. Some (''rtmp'', ''h''))\<rparr>"

lemma live_trim: "TrimSpace ''main'' = ''main''" "TrimSpace ''t'' = ''t''" "TrimSpace ''a'' = ''a''"
  by (simp_all add: TrimSpace_plain plain_def)

lemmas live_eval = live_e_def live_start_def empty_live_db_def live_step_def live_trim Live_Open_def live_write_def CreateSession_def
  tbl_ins_def tbl_get_def requireHost_def load_session_def GetSession_def StartEgress_def ParseEgressKind_def ValidateEgressTarget_def
  maxTargetLen_def EgressRTMP_def EgressHLS_def EgressLive_def EgressOff_def session_writes tbl_upd_def Let_def

lemma lost_write_loses_stream:
  "let s = run live_step live_start
     [(live_e, LqOpen ''h'' ''main''), (live_e\<lparr>lv_fails := (\<lambda>c. c = LvEgress)\<rparr>, LqStartEgress ''h'' [] ''rtmp'' ''t''), (live_e, LqClose ''h'' [])]
   in lsy_streams s = [''ref''] \<and> map ls_EgressState (ld_Sessions (lsy_db s)) = [EgressOff]"
  by (simp add: live_eval Live_Close_def Store_CloseRooms_def)

text \<open>The consents that a session lists are decided, so no consent is ever pending in its tally.\<close>

lemma tally_pending: "\<forall>d \<in> set ds. fst d \<Longrightarrow> csm_Pending (Consent_Tally ds) = 0"
proof -
  assume all: "\<forall>d \<in> set ds. fst d"
  have "csm_Pending (fold (\<lambda>(decided, consented) c.
        if \<not> decided then c\<lparr>csm_Pending := csm_Pending c + 1\<rparr>
        else if consented then c\<lparr>csm_Consented := csm_Consented c + 1\<rparr>
        else c\<lparr>csm_Declined := csm_Declined c + 1\<rparr>) ds c) = csm_Pending c" for c :: consent_summary
    using all by (induction ds arbitrary: c) auto
  then show ?thesis by (simp add: Consent_Tally_def)
qed

lemma status_never_pending: "Live_Status e u i db = Inr st \<Longrightarrow> csm_Pending (snd (lst_Recording st)) = 0"
  by (auto simp: Live_Status_def tally_pending split: sum.splits if_splits)

section \<open>Witnesses\<close>

definition live_ops :: "(live_env \<times> live_req) list" where
  "live_ops = [(live_e, LqOpen ''h'' ''main''), (live_e\<lparr>lv_ids := (\<lambda>n. replicate (n + 5) CHR ''r'')\<rparr>, LqCreateRooms ''h'' [] [''a'']),
     (live_e, LqAssign ''h'' [] ''bob'' (Some (replicate 5 CHR ''r''))), (live_e, LqStartEgress ''h'' [] ''rtmp'' ''t'')]"

lemmas live_eval_rooms = live_eval live_ops_def Live_CreateRooms_def ValidateRoomCount_def MaxBreakoutRooms_def ValidateRoomName_def
  MaxRoomName_def CreateRoom_def live_exists_def Live_Assign_def SetAssignment_def ListRooms_def order_asc_def

lemma breakout_join_rooms_witness:
  "\<exists>me. Live_Me live_e ''bob'' [] (lsy_db (run live_step live_start live_ops)) = Inr me \<and> me_Room me = ''bo-rrrrrr'' \<and>
     lv_mint live_e (me_Room me) ''bob'' True = Some (me_JoinToken me)"
proof -
  have "(case Live_Me live_e ''bob'' [] (lsy_db (run live_step live_start live_ops)) of Inl _ \<Rightarrow> False | Inr me \<Rightarrow> me_Room me = ''bo-rrrrrr'')"
    by (simp add: live_eval_rooms Live_Me_def assignmentRoomID_def GetAssignment_def resolveRoom_def eval_nat_numeral)
  then obtain me where me: "Live_Me live_e ''bob'' [] (lsy_db (run live_step live_start live_ops)) = Inr me" "me_Room me = ''bo-rrrrrr''"
    by (auto split: sum.splits)
  from breakout_join_rooms [OF refl me(1)] me show ?thesis by blast
qed

lemma streams_tracked_witness:
  "mset (lsy_streams (run live_step live_start live_ops)) = {#''ref''#} \<and>
   image_mset ls_EgressRef (filter_mset (\<lambda>s. ls_EgressState s = EgressLive) (mset (ld_Sessions (lsy_db (run live_step live_start live_ops))))) = {#''ref''#}"
proof -
  have "lsy_streams (run live_step live_start live_ops) = [''ref'']" by (simp add: live_eval_rooms)
  moreover have "\<forall>x \<in> set live_ops. \<not> lv_fails (fst x) LvEgress \<and> lv_stops (fst x)" by (simp add: live_ops_def live_e_def)
  ultimately show ?thesis using streams_tracked [of live_ops] by simp
qed

end
