(* ===== verification/Media.thy ===== *)
theory Media
  imports Contracts GoStrings GoCodec
begin

text \<open>
  Media (\<^verbatim>\<open>media/\<close>): uploads in parts with a quota and a rate limit, verification on completion, reference counts, download
  links, garbage collection, the consumer of lifecycle commands, sticker packs and the tokens of the edge cache.
  The MinIO client is outside: what its calls answer is part of the environment of a request, and so are the answers of the
  quota service and of the limiter (\<open>RateLimit\<close>). SHA-256 and HMAC are parameters.
\<close>

section \<open>Domain: uploads\<close>

definition MaxFileSize :: int where "MaxFileSize = 25 * 1024 * 1024"
definition PartSize :: int where "PartSize = 8 * 1024 * 1024"

definition StatePending :: int where "StatePending = 0"
definition StateComplete :: int where "StateComplete = 1"
definition StateGCCandidate :: int where "StateGCCandidate = 2"

datatype media_error = ErrMediaEmpty | ErrMediaTooLarge

definition Media_ValidateCreate :: "int \<Rightarrow> media_error option" where
  "Media_ValidateCreate sz = (if sz \<le> 0 then Some ErrMediaEmpty else if sz > MaxFileSize then Some ErrMediaTooLarge else None)"

definition NumParts :: "int \<Rightarrow> int" where
  "NumParts sz = (if sz \<le> 0 then 0 else (sz + PartSize - 1) div PartSize)"

definition PartByteRange :: "int \<Rightarrow> int \<Rightarrow> int \<times> int" where
  "PartByteRange sz i =
     (let start = i * PartSize; stop = start + PartSize in (start, if stop > sz then sz else stop))"

definition Single :: "int \<Rightarrow> bool" where
  "Single sz \<longleftrightarrow> NumParts sz \<le> 1"

section \<open>Domain: tokens of the edge cache\<close>

text \<open>\<^verbatim>\<open>strconv.FormatInt\<close> in base 10.\<close>

fun digits10 :: "nat \<Rightarrow> string" where
  "digits10 n = (if n < 10 then [char_of (48 + n)] else digits10 (n div 10) @ [char_of (48 + n mod 10)])"

declare digits10.simps [simp del]

definition FormatInt :: "int \<Rightarrow> string" where
  "FormatInt i = (if i < 0 then CHR ''-'' # digits10 (nat (- i)) else digits10 (nat i))"

datatype cdn_error = ErrCDNExpired | ErrCDNBadSig | ErrCDNMalformed

definition newline :: char where "newline = char_of (10 :: nat)"

definition SignCDNToken :: "(string \<Rightarrow> string \<Rightarrow> string) \<Rightarrow> string \<Rightarrow> string \<Rightarrow> int \<Rightarrow> string" where
  "SignCDNToken hmac secret key expiresUnix = RawURL_Encode (hmac secret (key @ [newline] @ FormatInt expiresUnix))"

definition VerifyCDNToken :: "(string \<Rightarrow> string \<Rightarrow> string) \<Rightarrow> string \<Rightarrow> string \<Rightarrow> int \<Rightarrow> int \<Rightarrow> string \<Rightarrow> cdn_error option" where
  "VerifyCDNToken hmac secret key expiresUnix nowUnix token =
     (if token = [] then Some ErrCDNMalformed
      else if SignCDNToken hmac secret key expiresUnix \<noteq> token then Some ErrCDNBadSig
      else if nowUnix \<ge> expiresUnix then Some ErrCDNExpired
      else None)"

section \<open>The table and the upload sessions\<close>

record media_object =
  mo_ID :: string
  mo_ObjectKey :: string
  mo_SizeBytes :: int
  mo_ContentHash :: string
  mo_UploaderID :: string
  mo_Refcount :: int
  mo_State :: int
  mo_CreatedAt :: instant
  mo_ExpiresAt :: "instant option"

record upload_session =
  us_UploadID :: string
  us_ObjectKey :: string
  us_Handle :: string
  us_SizeBytes :: int
  us_ContentHash :: string
  us_UploaderID :: string
  us_Parts :: int

text \<open>
  The table, the upload sessions in Valkey with the time they expire at, and the ids of the lifecycle events that were
  processed, with the time they are forgotten at.
\<close>

record media_st =
  md_Objects :: "media_object list"
  md_Sessions :: "string \<Rightarrow> (upload_session \<times> instant) option"
  md_Seen :: "string \<Rightarrow> instant option"

definition empty_media :: media_st where
  "empty_media = \<lparr>md_Objects = [], md_Sessions = (\<lambda>_. None), md_Seen = (\<lambda>_. None)\<rparr>"

text \<open>\<^verbatim>\<open>id\<close> is the primary key and \<^verbatim>\<open>object_key\<close> is unique.\<close>

definition Store_CreatePending :: "media_object \<Rightarrow> media_st \<Rightarrow> media_st option" where
  "Store_CreatePending o' st =
     (if mo_ObjectKey o' \<in> mo_ObjectKey ` set (md_Objects st) then None
      else map_option (\<lambda>t. st\<lparr>md_Objects := t\<rparr>) (tbl_ins mo_ID (o'\<lparr>mo_ExpiresAt := None\<rparr>) (md_Objects st)))"

definition Store_GetByKey :: "string \<Rightarrow> media_st \<Rightarrow> media_object option" where
  "Store_GetByKey key st = tbl_get mo_ObjectKey key (md_Objects st)"

text \<open>None: no row, which the store reports as not found.\<close>

definition Store_MarkComplete :: "string \<Rightarrow> instant \<Rightarrow> media_st \<Rightarrow> media_st option" where
  "Store_MarkComplete i expires st =
     (if i \<in> mo_ID ` set (md_Objects st)
      then Some (st\<lparr>md_Objects := tbl_upd mo_ID i (\<lambda>o'. o'\<lparr>mo_State := 1, mo_ExpiresAt := Some expires\<rparr>) (md_Objects st)\<rparr>)
      else None)"

text \<open>\<^verbatim>\<open>refcount\<close> is a 32-bit column: PostgreSQL rejects an addition that leaves its range.\<close>

definition MaxInt32 :: int where "MaxInt32 = 2147483647"

datatype ref_result = NoObject | OutOfRange | NewCount int

definition Store_AddRef :: "string \<Rightarrow> media_st \<Rightarrow> ref_result \<times> media_st" where
  "Store_AddRef key st =
     (case tbl_get mo_ObjectKey key (md_Objects st) of
        None \<Rightarrow> (NoObject, st)
      | Some o' \<Rightarrow>
          if mo_Refcount o' \<ge> MaxInt32 then (OutOfRange, st)
          else (NewCount (mo_Refcount o' + 1),
                st\<lparr>md_Objects := tbl_upd mo_ObjectKey key (\<lambda>r. r\<lparr>mo_Refcount := mo_Refcount r + 1\<rparr>) (md_Objects st)\<rparr>))"

definition Days30 :: duration where "Days30 = 30 * 24 * Hour"

definition Store_DecRef :: "instant \<Rightarrow> string \<Rightarrow> media_st \<Rightarrow> ref_result \<times> media_st" where
  "Store_DecRef dbnow key st =
     (case tbl_get mo_ObjectKey key (md_Objects st) of
        None \<Rightarrow> (NoObject, st)
      | Some o' \<Rightarrow>
          (NewCount (max (mo_Refcount o' - 1) 0),
           st\<lparr>md_Objects := tbl_upd mo_ObjectKey key
                (\<lambda>r. r\<lparr>mo_Refcount := max (mo_Refcount r - 1) 0,
                       mo_ExpiresAt := (if mo_Refcount r - 1 \<le> 0 then Some (dbnow + Days30) else mo_ExpiresAt r)\<rparr>) (md_Objects st)\<rparr>))"

definition expired_at :: "instant \<Rightarrow> media_object \<Rightarrow> bool" where
  "expired_at now o' \<longleftrightarrow> (case mo_ExpiresAt o' of None \<Rightarrow> False | Some t \<Rightarrow> t < now)"

definition stale_at :: "instant \<Rightarrow> media_object \<Rightarrow> bool" where
  "stale_at now o' \<longleftrightarrow> mo_State o' = 0 \<and> mo_CreatedAt o' < now - 24 * Hour"

definition Store_SweepCandidates :: "instant \<Rightarrow> nat \<Rightarrow> media_st \<Rightarrow> media_object list" where
  "Store_SweepCandidates now limit st =
     take limit (filter (\<lambda>o'. mo_Refcount o' = 0 \<and> (expired_at now o' \<or> stale_at now o')) (md_Objects st))"

definition Store_DeleteObject :: "string \<Rightarrow> media_st \<Rightarrow> media_st" where
  "Store_DeleteObject i st = st\<lparr>md_Objects := tbl_del mo_ID i (md_Objects st)\<rparr>"

definition Sessions_Save :: "instant \<Rightarrow> upload_session \<Rightarrow> duration \<Rightarrow> media_st \<Rightarrow> media_st" where
  "Sessions_Save now s ttl st = st\<lparr>md_Sessions := (md_Sessions st)(us_UploadID s := Some (s, now + ttl))\<rparr>"

definition Sessions_Load :: "instant \<Rightarrow> string \<Rightarrow> media_st \<Rightarrow> upload_session option" where
  "Sessions_Load now i st =
     (case md_Sessions st i of None \<Rightarrow> None | Some (s, t) \<Rightarrow> if now < t then Some s else None)"

definition Sessions_Delete :: "string \<Rightarrow> media_st \<Rightarrow> media_st" where
  "Sessions_Delete i st = st\<lparr>md_Sessions := (md_Sessions st)(i := None)\<rparr>"

section \<open>The object store\<close>

record part_url =
  pu_PartNumber :: int
  pu_URL :: string

record part_etag =
  pt_PartNumber :: int
  pt_ETag :: string

datatype media_call = McCreate | McGetByKey string | McMark | McAdd | McDec | McCandidates | McDelete string | McSave | McLoad string
  | McDelSession string | McSeen

text \<open>
  What the MinIO client answers during a request: \<open>mn_new\<close> opens a multipart upload, \<open>mn_put\<close> signs the URL of a part,
  \<open>mn_complete\<close> joins the parts, \<open>mn_stat\<close> and \<open>mn_get\<close> give size and bytes of an object, \<open>mn_abort\<close> and \<open>mn_remove\<close>
  say whether these calls succeed. \<open>mv_rate\<close> and \<open>mv_quota\<close> are the answers of the limiter and of the quota service.
\<close>

record media_env =
  mv_now :: instant
  mv_dbnow :: instant
  mv_id :: string
  mv_fails :: "media_call \<Rightarrow> bool"
  mv_rate :: "bool option"
  mv_quota :: "bool option"
  mv_sha :: "string \<Rightarrow> string"
  mn_new :: "string \<Rightarrow> string option"
  mn_put :: "string \<Rightarrow> string \<Rightarrow> int \<Rightarrow> string option"
  mn_complete :: "string \<Rightarrow> string \<Rightarrow> part_etag list \<Rightarrow> bool"
  mn_stat :: "string \<Rightarrow> int option"
  mn_get :: "string \<Rightarrow> string option"
  mn_abort :: "string \<Rightarrow> string \<Rightarrow> bool"
  mn_remove :: "string \<Rightarrow> bool"
  mv_url :: "string \<Rightarrow> string option"
  mv_cacheable :: bool

datatype media_effect = UploadOpened string string | UploadAborted string string | ObjectRemoved string
  | EvUploaded string | EvRefAdded string int | EvRefRemoved string int | EvOrphaned string

fun presignParts :: "media_env \<Rightarrow> string \<Rightarrow> string \<Rightarrow> int list \<Rightarrow> part_url list option" where
  "presignParts e key handle [] = Some []"
| "presignParts e key handle (n # ns) =
     (case mn_put e key handle n of
        None \<Rightarrow> None
      | Some u \<Rightarrow> map_option (\<lambda>us. \<lparr>pu_PartNumber = n, pu_URL = u\<rparr> # us) (presignParts e key handle ns))"

text \<open>The handle is lost when a part cannot be signed; the upload that was opened is an effect in both cases.\<close>

definition StartUpload :: "media_env \<Rightarrow> string \<Rightarrow> int \<Rightarrow> (string \<times> part_url list) option \<times> media_effect list" where
  "StartUpload e key parts =
     (case mn_new e key of
        None \<Rightarrow> (None, [])
      | Some handle \<Rightarrow>
          (case presignParts e key handle [1..parts] of
             None \<Rightarrow> (None, [UploadOpened key handle])
           | Some urls \<Rightarrow> (Some (handle, urls), [UploadOpened key handle])))"

definition MinIO_Hash :: "media_env \<Rightarrow> string \<Rightarrow> string option" where
  "MinIO_Hash e key = map_option (mv_sha e) (mn_get e key)"

definition bucket_abort :: "media_env \<Rightarrow> string \<Rightarrow> string \<Rightarrow> media_effect list" where
  "bucket_abort e key handle = (if mn_abort e key handle then [UploadAborted key handle] else [])"

definition bucket_remove :: "media_env \<Rightarrow> string \<Rightarrow> media_effect list" where
  "bucket_remove e key = (if mn_remove e key then [ObjectRemoved key] else [])"

section \<open>The service\<close>

definition RefTTL :: duration where "RefTTL = 30 * 24 * Hour"
definition PendingTTL :: duration where "PendingTTL = 24 * Hour"
definition DownloadTTL :: duration where "DownloadTTL = 15 * Minute"

record create_upload_result =
  cu_UploadID :: string
  cu_ObjectKey :: string
  cu_PartURLs :: "part_url list"
  cu_PartSize :: int

definition CreateUpload ::
  "media_env \<Rightarrow> string \<Rightarrow> int \<Rightarrow> string \<Rightarrow> media_st \<Rightarrow> create_upload_result result \<times> media_effect list \<times> media_st" where
  "CreateUpload e u sz contentHash st =
     (case Media_ValidateCreate sz of
        Some ErrMediaTooLarge \<Rightarrow> (Inl (Reject 413 ''VALIDATION_TOO_LARGE''), [], st)
      | Some ErrMediaEmpty \<Rightarrow> (Inl (Reject 400 ''VALIDATION_SIZE''), [], st)
      | None \<Rightarrow>
          if contentHash = [] then (Inl (Reject 400 ''VALIDATION_HASH''), [], st)
          else case mv_rate e of
            None \<Rightarrow> (Inl Transient, [], st)
          | Some False \<Rightarrow> (Inl (Reject 429 ''RATE_LIMITED''), [], st)
          | Some True \<Rightarrow>
          case mv_quota e of
            None \<Rightarrow> (Inl (Reject 503 ''TRANSIENT_UNAVAILABLE''), [], st)
          | Some False \<Rightarrow> (Inl (Reject 409 ''STATE_QUOTA_EXCEEDED''), [], st)
          | Some True \<Rightarrow>
              let i = mv_id e; key = u @ ''/'' @ i; parts = NumParts sz
              in case StartUpload e key parts of
                   (None, fx) \<Rightarrow> (Inl Transient, fx, st)
                 | (Some (handle, urls), fx) \<Rightarrow>
                     (case (if mv_fails e McCreate then None else Store_CreatePending
                              \<lparr>mo_ID = i, mo_ObjectKey = key, mo_SizeBytes = sz, mo_ContentHash = contentHash, mo_UploaderID = u,
                               mo_Refcount = 0, mo_State = StatePending, mo_CreatedAt = mv_now e, mo_ExpiresAt = None\<rparr> st) of
                        None \<Rightarrow> (Inl Transient, fx @ bucket_abort e key handle, st)
                      | Some st1 \<Rightarrow>
                          if mv_fails e McSave then (Inl Transient, fx, st1)
                          else (Inr \<lparr>cu_UploadID = i, cu_ObjectKey = key, cu_PartURLs = urls, cu_PartSize = PartSize\<rparr>, fx,
                                Sessions_Save (mv_now e)
                                  \<lparr>us_UploadID = i, us_ObjectKey = key, us_Handle = handle, us_SizeBytes = sz, us_ContentHash = contentHash,
                                   us_UploaderID = u, us_Parts = parts\<rparr> PendingTTL st1)))"

definition ownedSession :: "media_env \<Rightarrow> string \<Rightarrow> string \<Rightarrow> media_st \<Rightarrow> upload_session result" where
  "ownedSession e u i st =
     (if mv_fails e (McLoad i) then Inl Transient
      else case Sessions_Load (mv_now e) i st of
        None \<Rightarrow> Inl (Reject 404 ''UPLOAD_NOT_FOUND'')
      | Some s \<Rightarrow> if us_UploaderID s \<noteq> u then Inl (Reject 403 ''STATE_FORBIDDEN'') else Inr s)"

definition PresignMissing :: "media_env \<Rightarrow> string \<Rightarrow> string \<Rightarrow> int list \<Rightarrow> media_st \<Rightarrow> part_url list result" where
  "PresignMissing e u i missing st =
     (case ownedSession e u i st of
        Inl err \<Rightarrow> Inl err
      | Inr s \<Rightarrow> (case presignParts e (us_ObjectKey s) (us_Handle s) missing of None \<Rightarrow> Inl Transient | Some us \<Rightarrow> Inr us))"

definition drop_session :: "media_env \<Rightarrow> string \<Rightarrow> media_st \<Rightarrow> media_st" where
  "drop_session e i st = (if mv_fails e (McDelSession i) then st else Sessions_Delete i st)"

definition rejectAndCleanup :: "media_env \<Rightarrow> upload_session \<Rightarrow> string \<Rightarrow> media_st \<Rightarrow> string result \<times> media_effect list \<times> media_st" where
  "rejectAndCleanup e s code st =
     (let st1 = (if mv_fails e (McDelete (us_UploadID s)) then st else Store_DeleteObject (us_UploadID s) st)
      in (Inl (Reject 422 code), bucket_remove e (us_ObjectKey s), drop_session e (us_UploadID s) st1))"

definition CompleteUpload ::
  "media_env \<Rightarrow> string \<Rightarrow> string \<Rightarrow> part_etag list \<Rightarrow> media_st \<Rightarrow> string result \<times> media_effect list \<times> media_st" where
  "CompleteUpload e u i etags st =
     (case ownedSession e u i st of
        Inl err \<Rightarrow> (Inl err, [], st)
      | Inr s \<Rightarrow>
          if \<not> mn_complete e (us_ObjectKey s) (us_Handle s) etags then (Inl (Reject 400 ''VALIDATION_PARTS''), [], st)
          else case mn_stat e (us_ObjectKey s) of
            None \<Rightarrow> (Inl Transient, [], st)
          | Some sz \<Rightarrow>
              if sz \<noteq> us_SizeBytes s then rejectAndCleanup e s ''VALIDATION_SIZE_MISMATCH'' st
              else if Single (us_SizeBytes s) \<and> MinIO_Hash e (us_ObjectKey s) = None then (Inl Transient, [], st)
              else if Single (us_SizeBytes s) \<and> MinIO_Hash e (us_ObjectKey s) \<noteq> Some (us_ContentHash s)
              then rejectAndCleanup e s ''VALIDATION_HASH_MISMATCH'' st
              else case (if mv_fails e McMark then None else Store_MarkComplete i (mv_now e + RefTTL) st) of
                None \<Rightarrow> (Inl Transient, [], st)
              | Some st1 \<Rightarrow> (Inr i, [EvUploaded (us_ObjectKey s)], drop_session e i st1))"

record download_url =
  du_Key :: string
  du_URL :: string
  du_Expires :: int
  du_SizeBytes :: int
  du_Cached :: bool

text \<open>When the read fails the object is Go's zero value, whose state is pending: the key is skipped.\<close>

fun download_urls :: "media_env \<Rightarrow> media_st \<Rightarrow> string list \<Rightarrow> download_url list result" where
  "download_urls e st [] = Inr []"
| "download_urls e st (key # keys) =
     (case (if mv_fails e (McGetByKey key) then None else Store_GetByKey key st) of
        None \<Rightarrow> download_urls e st keys
      | Some o' \<Rightarrow>
          if mo_State o' \<noteq> StateComplete then download_urls e st keys
          else case mv_url e key of
            None \<Rightarrow> Inl Transient
          | Some u \<Rightarrow>
              (case download_urls e st keys of
                 Inl err \<Rightarrow> Inl err
               | Inr us \<Rightarrow> Inr (\<lparr>du_Key = key, du_URL = u, du_Expires = UnixMilli (mv_now e + DownloadTTL), du_SizeBytes = mo_SizeBytes o',
                                du_Cached = mv_cacheable e\<rparr> # us)))"

definition DownloadURLs :: "media_env \<Rightarrow> string \<Rightarrow> string list \<Rightarrow> media_st \<Rightarrow> download_url list result" where
  "DownloadURLs e u keys st = download_urls e st keys"

definition Media_AddRef :: "media_env \<Rightarrow> string \<Rightarrow> media_st \<Rightarrow> unit result \<times> media_effect list \<times> media_st" where
  "Media_AddRef e key st =
     (if mv_fails e McAdd then (Inl Transient, [], st)
      else case Store_AddRef key st of
        (NoObject, _) \<Rightarrow> (Inl (Reject 404 ''MEDIA_NOT_FOUND''), [], st)
      | (OutOfRange, _) \<Rightarrow> (Inl Transient, [], st)
      | (NewCount n, st1) \<Rightarrow> (Inr (), [EvRefAdded key n], st1))"

definition Media_DecRef :: "media_env \<Rightarrow> string \<Rightarrow> media_st \<Rightarrow> unit result \<times> media_effect list \<times> media_st" where
  "Media_DecRef e key st =
     (if mv_fails e McDec then (Inl Transient, [], st)
      else case Store_DecRef (mv_dbnow e) key st of
        (NoObject, _) \<Rightarrow> (Inr (), [], st)
      | (OutOfRange, _) \<Rightarrow> (Inl Transient, [], st)
      | (NewCount n, st1) \<Rightarrow> (Inr (), [EvRefRemoved key n], st1))"

section \<open>Garbage collection\<close>

text \<open>Whether the storage was reclaimed, and what happened.\<close>

definition reclaim :: "media_env \<Rightarrow> media_object \<Rightarrow> media_st \<Rightarrow> bool \<times> media_effect list \<times> media_st" where
  "reclaim e o' st =
     (if mo_State o' = StatePending then
        (if mv_fails e (McLoad (mo_ID o')) then (False, [], st)
         else case Sessions_Load (mv_now e) (mo_ID o') st of
           None \<Rightarrow> (True, [], st)
         | Some s \<Rightarrow>
             if \<not> mn_abort e (us_ObjectKey s) (us_Handle s) then (False, [], st)
             else (True, [UploadAborted (us_ObjectKey s) (us_Handle s)], drop_session e (mo_ID o') st))
      else (mn_remove e (mo_ObjectKey o'), bucket_remove e (mo_ObjectKey o'), st))"

text \<open>The loop over the candidates, which were read before it.\<close>

fun gc_loop :: "media_env \<Rightarrow> media_object list \<Rightarrow> media_st \<Rightarrow> nat \<times> media_effect list \<times> media_st" where
  "gc_loop e [] st = (0, [], st)"
| "gc_loop e (o' # os) st =
     (case reclaim e o' st of
        (ok, fx, st1) \<Rightarrow>
          if \<not> ok \<or> mv_fails e (McDelete (mo_ID o'))
          then (case gc_loop e os st1 of (n, fx2, st2) \<Rightarrow> (n, fx @ fx2, st2))
          else (case gc_loop e os (Store_DeleteObject (mo_ID o') st1) of
                  (n, fx2, st2) \<Rightarrow> (n + 1, fx @ EvOrphaned (mo_ObjectKey o') # fx2, st2)))"

definition GC_Sweep :: "media_env \<Rightarrow> nat \<Rightarrow> media_st \<Rightarrow> nat option \<times> media_effect list \<times> media_st" where
  "GC_Sweep e limit st =
     (if mv_fails e McCandidates then (None, [], st)
      else case gc_loop e (Store_SweepCandidates (mv_now e) limit st) st of (n, fx, st1) \<Rightarrow> (Some n, fx, st1))"

section \<open>Lifecycle commands\<close>

record lifecycle_event =
  le_Kind :: string
  le_ObjectKey :: string
  le_EventID :: string

definition LifecycleDereference :: string where "LifecycleDereference = ''dereference''"

definition dedupe_ttl :: duration where "dedupe_ttl = 24 * Hour"

text \<open>SET NX with a time to live; None is an error.\<close>

definition Deduper_Seen :: "media_env \<Rightarrow> string \<Rightarrow> media_st \<Rightarrow> bool option \<times> media_st" where
  "Deduper_Seen e i st =
     (if mv_fails e McSeen then (None, st)
      else case md_Seen st i of
        Some t \<Rightarrow> if mv_now e < t then (Some True, st) else (Some False, st\<lparr>md_Seen := (md_Seen st)(i := Some (mv_now e + dedupe_ttl))\<rparr>)
      | None \<Rightarrow> (Some False, st\<lparr>md_Seen := (md_Seen st)(i := Some (mv_now e + dedupe_ttl))\<rparr>))"

definition Lifecycle_Handle ::
  "media_env \<Rightarrow> lifecycle_event \<Rightarrow> media_st \<Rightarrow> unit result \<times> media_effect list \<times> media_st" where
  "Lifecycle_Handle e ev st =
     (if le_Kind ev \<noteq> LifecycleDereference \<or> le_ObjectKey ev = [] then (Inr (), [], st)
      else if le_EventID ev = [] then Media_DecRef e (le_ObjectKey ev) st
      else case Deduper_Seen e (le_EventID ev) st of
        (None, st1) \<Rightarrow> (Inl Transient, [], st1)
      | (Some True, st1) \<Rightarrow> (Inr (), [], st1)
      | (Some False, st1) \<Rightarrow> Media_DecRef e (le_ObjectKey ev) st1)"

section \<open>Requests\<close>

datatype media_req =
    MqCreate string int string
  | MqComplete string string "part_etag list"
  | MqAddRef string
  | MqDecRef string
  | MqEvent lifecycle_event
  | MqSweep nat

fun media_handle :: "media_env \<Rightarrow> media_req \<Rightarrow> media_st \<Rightarrow> media_effect list \<times> media_st" where
  "media_handle e (MqCreate u sz h) st = snd (CreateUpload e u sz h st)"
| "media_handle e (MqComplete u i etags) st = snd (CompleteUpload e u i etags st)"
| "media_handle e (MqAddRef key) st = snd (Media_AddRef e key st)"
| "media_handle e (MqDecRef key) st = snd (Media_DecRef e key st)"
| "media_handle e (MqEvent ev) st = snd (Lifecycle_Handle e ev st)"
| "media_handle e (MqSweep n) st = snd (GC_Sweep e n st)"

definition media_step :: "media_st \<Rightarrow> media_env \<times> media_req \<Rightarrow> media_st" where
  "media_step st x = snd (media_handle (fst x) (snd x) st)"

section \<open>Sticker packs\<close>

record sticker =
  sk_ID :: string
  sk_PackID :: string
  sk_Emoji :: string
  sk_ObjectKey :: string
  sk_Position :: int

record sticker_pack =
  pk_ID :: string
  pk_Title :: string
  pk_Author :: string
  pk_TrayKey :: string
  pk_Animated :: bool

record sticker_db =
  sd_Packs :: "sticker_pack list"
  sd_Stickers :: "sticker list"
  sd_Installed :: "((string \<times> string) \<times> instant) list"

text \<open>Text columns are ordered by a collation, which is a parameter: the position of a text in it.\<close>

definition ListPacks :: "(string \<Rightarrow> int) \<Rightarrow> sticker_db \<Rightarrow> sticker_pack list" where
  "ListPacks coll db = order_asc (\<lambda>p. coll (pk_ID p)) (sd_Packs db)"

definition GetPack :: "(string \<Rightarrow> int) \<Rightarrow> string \<Rightarrow> sticker_db \<Rightarrow> (sticker_pack \<times> sticker list) option" where
  "GetPack coll i db =
     map_option (\<lambda>p. (p, order_asc sk_Position (order_asc (\<lambda>s. coll (sk_ID s)) (filter (\<lambda>s. sk_PackID s = i) (sd_Stickers db)))))
       (tbl_get pk_ID i (sd_Packs db))"

definition PackExists :: "string \<Rightarrow> sticker_db \<Rightarrow> bool" where
  "PackExists i db \<longleftrightarrow> i \<in> pk_ID ` set (sd_Packs db)"

definition Store_InstallPack :: "instant \<Rightarrow> string \<Rightarrow> string \<Rightarrow> sticker_db \<Rightarrow> sticker_db option" where
  "Store_InstallPack dbnow u i db =
     (if \<not> PackExists i db then None
      else if (u, i) \<in> fst ` set (sd_Installed db) then Some db
      else Some (db\<lparr>sd_Installed := sd_Installed db @ [((u, i), dbnow)]\<rparr>))"

definition Store_UninstallPack :: "string \<Rightarrow> string \<Rightarrow> sticker_db \<Rightarrow> sticker_db" where
  "Store_UninstallPack u i db = db\<lparr>sd_Installed := filter (\<lambda>x. fst x \<noteq> (u, i)) (sd_Installed db)\<rparr>"

definition ListInstalled :: "string \<Rightarrow> sticker_db \<Rightarrow> sticker_pack list" where
  "ListInstalled u db =
     concat (map (\<lambda>x. opt_list (tbl_get pk_ID (snd (fst x)) (sd_Packs db)))
       (order_asc snd (filter (\<lambda>x. fst (fst x) = u) (sd_Installed db))))"

datatype sticker_call = SkList | SkGet | SkExists | SkInstall | SkUninstall | SkInstalled

definition Service_Packs :: "(sticker_call \<Rightarrow> bool) \<Rightarrow> (string \<Rightarrow> int) \<Rightarrow> sticker_db \<Rightarrow> sticker_pack list result" where
  "Service_Packs fails coll db = (if fails SkList then Inl Transient else Inr (ListPacks coll db))"

definition Service_Pack ::
  "(sticker_call \<Rightarrow> bool) \<Rightarrow> (string \<Rightarrow> int) \<Rightarrow> string \<Rightarrow> sticker_db \<Rightarrow> (sticker_pack \<times> sticker list) result" where
  "Service_Pack fails coll i db =
     (if i = [] then Inl (Reject 400 ''VALIDATION_PACK'')
      else if fails SkGet then Inl Transient
      else case GetPack coll i db of None \<Rightarrow> Inl (Reject 404 ''STICKER_PACK_NOT_FOUND'') | Some p \<Rightarrow> Inr p)"

definition Service_InstallPack ::
  "(sticker_call \<Rightarrow> bool) \<Rightarrow> instant \<Rightarrow> string \<Rightarrow> string \<Rightarrow> sticker_db \<Rightarrow> unit result \<times> sticker_db" where
  "Service_InstallPack fails dbnow u i db =
     (if i = [] then (Inl (Reject 400 ''VALIDATION_PACK''), db)
      else if fails SkExists then (Inl Transient, db)
      else if \<not> PackExists i db then (Inl (Reject 404 ''STICKER_PACK_NOT_FOUND''), db)
      else case (if fails SkInstall then None else Store_InstallPack dbnow u i db) of
        None \<Rightarrow> (Inl Transient, db)
      | Some db1 \<Rightarrow> (Inr (), db1))"

definition Service_UninstallPack :: "(sticker_call \<Rightarrow> bool) \<Rightarrow> string \<Rightarrow> string \<Rightarrow> sticker_db \<Rightarrow> unit result \<times> sticker_db" where
  "Service_UninstallPack fails u i db =
     (if i = [] then (Inl (Reject 400 ''VALIDATION_PACK''), db)
      else if fails SkUninstall then (Inl Transient, db)
      else (Inr (), Store_UninstallPack u i db))"

definition Service_Installed :: "(sticker_call \<Rightarrow> bool) \<Rightarrow> string \<Rightarrow> sticker_db \<Rightarrow> sticker_pack list result" where
  "Service_Installed fails u db = (if fails SkInstalled then Inl Transient else Inr (ListInstalled u db))"

end
