(* ===== verification/MediaProps.thy ===== *)
theory MediaProps
  imports Media
begin

text \<open>
  What a complete object is, which objects are removed, that the parts cover a file, that a token of the edge cache stands for
  one object and one time, and what failures and interleavings cost.
\<close>

section \<open>Frames\<close>

lemma session_frames [simp]:
  "md_Objects (drop_session e i st) = md_Objects st" "md_Objects (Sessions_Delete i st) = md_Objects st"
  "md_Objects (Sessions_Save t s ttl st) = md_Objects st"
  "md_Sessions (Store_DeleteObject i st) = md_Sessions st" "md_Objects (Store_DeleteObject i st) = tbl_del mo_ID i (md_Objects st)"
  by (simp_all add: drop_session_def Sessions_Delete_def Sessions_Save_def Store_DeleteObject_def)

lemma drop_session_sub: "md_Sessions (drop_session e i st) j = Some x \<Longrightarrow> md_Sessions st j = Some x"
  by (auto simp: drop_session_def Sessions_Delete_def split: if_splits)

lemma Sessions_Load_Some: "Sessions_Load t i st = Some s \<Longrightarrow> \<exists>x. md_Sessions st i = Some (s, x)"
  by (auto simp: Sessions_Load_def split: option.splits if_splits)

lemma ownedSession_Inr: "ownedSession e u i st = Inr s \<Longrightarrow> us_UploaderID s = u \<and> (\<exists>x. md_Sessions st i = Some (s, x))"
  by (auto simp: ownedSession_def dest: Sessions_Load_Some split: if_splits option.splits)

section \<open>What the handlers do\<close>

definition new_row :: "media_env \<Rightarrow> string \<Rightarrow> int \<Rightarrow> string \<Rightarrow> media_object" where
  "new_row e u sz h =
     \<lparr>mo_ID = mv_id e, mo_ObjectKey = u @ ''/'' @ mv_id e, mo_SizeBytes = sz, mo_ContentHash = h, mo_UploaderID = u,
      mo_Refcount = 0, mo_State = StatePending, mo_CreatedAt = mv_now e, mo_ExpiresAt = None\<rparr>"

definition new_session :: "media_env \<Rightarrow> string \<Rightarrow> int \<Rightarrow> string \<Rightarrow> string \<Rightarrow> upload_session" where
  "new_session e u sz h handle =
     \<lparr>us_UploadID = mv_id e, us_ObjectKey = u @ ''/'' @ mv_id e, us_Handle = handle, us_SizeBytes = sz, us_ContentHash = h,
      us_UploaderID = u, us_Parts = NumParts sz\<rparr>"

lemma create_cases:
  "snd (snd (CreateUpload e u sz h st)) = st \<or>
   (\<exists>st1. 0 < sz \<and> sz \<le> MaxFileSize \<and> Store_CreatePending (new_row e u sz h) st = Some st1 \<and>
      (snd (snd (CreateUpload e u sz h st)) = st1 \<or>
       (\<exists>handle. snd (snd (CreateUpload e u sz h st)) = Sessions_Save (mv_now e) (new_session e u sz h handle) PendingTTL st1)))"
proof (cases "Media_ValidateCreate sz = None \<and> h \<noteq> [] \<and> mv_rate e = Some True \<and> mv_quota e = Some True")
  case False
  then consider err where "Media_ValidateCreate sz = Some err" | "Media_ValidateCreate sz = None" "h = []"
    | "Media_ValidateCreate sz = None" "h \<noteq> []" "mv_rate e \<noteq> Some True"
    | "Media_ValidateCreate sz = None" "h \<noteq> []" "mv_rate e = Some True" "mv_quota e \<noteq> Some True" by fastforce
  then have "snd (snd (CreateUpload e u sz h st)) = st"
  proof cases
    case (1 err)
    then show ?thesis by (cases err) (simp_all add: CreateUpload_def)
  next
    case 3
    then show ?thesis by (cases "mv_rate e") (simp_all add: CreateUpload_def)
  next
    case 4
    then show ?thesis by (cases "mv_quota e") (simp_all add: CreateUpload_def)
  qed (simp add: CreateUpload_def)
  then show ?thesis ..
next
  case True
  then have sz: "0 < sz \<and> sz \<le> MaxFileSize" by (simp add: Media_ValidateCreate_def split: if_splits)
  obtain up fx where up: "StartUpload e (u @ ''/'' @ mv_id e) (NumParts sz) = (up, fx)" by fastforce
  show ?thesis
  proof (cases up)
    case None
    then show ?thesis using True up by (simp add: CreateUpload_def)
  next
    case (Some hu)
    then obtain handle urls where hu: "up = Some (handle, urls)" by (cases hu) simp
    have eq: "snd (snd (CreateUpload e u sz h st)) =
      (case (if mv_fails e McCreate then None else Store_CreatePending (new_row e u sz h) st) of
         None \<Rightarrow> st
       | Some st1 \<Rightarrow> if mv_fails e McSave then st1 else Sessions_Save (mv_now e) (new_session e u sz h handle) PendingTTL st1)"
      using True up hu by (simp add: CreateUpload_def new_row_def new_session_def Let_def split: option.split)
    show ?thesis
    proof (cases "if mv_fails e McCreate then None else Store_CreatePending (new_row e u sz h) st")
      case None
      then show ?thesis unfolding eq None by simp
    next
      case (Some st1)
      then have "Store_CreatePending (new_row e u sz h) st = Some st1" by (simp split: if_splits)
      then show ?thesis using sz unfolding eq Some by auto
    qed
  qed
qed

text \<open>What the object store says about an upload: it is what was announced, or it is not.\<close>

definition verified :: "media_env \<Rightarrow> upload_session \<Rightarrow> bool" where
  "verified e s \<longleftrightarrow> mn_stat e (us_ObjectKey s) = Some (us_SizeBytes s) \<and>
     (us_SizeBytes s \<le> PartSize \<longrightarrow> (\<exists>c. mn_get e (us_ObjectKey s) = Some c \<and> mv_sha e c = us_ContentHash s))"

definition refuted :: "media_env \<Rightarrow> upload_session \<Rightarrow> bool" where
  "refuted e s \<longleftrightarrow> (\<exists>n. mn_stat e (us_ObjectKey s) = Some n \<and> n \<noteq> us_SizeBytes s) \<or>
     us_SizeBytes s \<le> PartSize \<and> (\<exists>c. mn_get e (us_ObjectKey s) = Some c \<and> mv_sha e c \<noteq> us_ContentHash s)"

lemma Single_iff: "Single sz \<longleftrightarrow> sz \<le> PartSize"
proof -
  have "(sz + PartSize - 1) div PartSize \<le> 1 \<longleftrightarrow> sz \<le> PartSize"
    using div_mult_mod_eq [of "sz + PartSize - 1" PartSize] pos_mod_bound [of PartSize "sz + PartSize - 1"]
      pos_mod_sign [of PartSize "sz + PartSize - 1"] unfolding PartSize_def by linarith
  then show ?thesis by (auto simp: Single_def NumParts_def PartSize_def)
qed

lemma complete_cases:
  "snd (snd (CompleteUpload e u i etags st)) = st \<or>
   (\<exists>s. ownedSession e u i st = Inr s \<and>
      ((refuted e s \<and> (\<exists>code. snd (snd (CompleteUpload e u i etags st)) = snd (snd (rejectAndCleanup e s code st)))) \<or>
       (verified e s \<and> (\<exists>st1. Store_MarkComplete i (mv_now e + RefTTL) st = Some st1 \<and>
          snd (snd (CompleteUpload e u i etags st)) = drop_session e i st1))))"
proof (cases "ownedSession e u i st")
  case (Inl err)
  then show ?thesis by (simp add: CompleteUpload_def)
next
  case (Inr s)
  show ?thesis
  proof (cases "mn_complete e (us_ObjectKey s) (us_Handle s) etags")
    case False
    then show ?thesis using Inr by (simp add: CompleteUpload_def)
  next
    case joined: True
    show ?thesis
    proof (cases "mn_stat e (us_ObjectKey s)")
      case None
      then show ?thesis using Inr joined by (simp add: CompleteUpload_def)
    next
      case (Some n)
      consider "n \<noteq> us_SizeBytes s" | "n = us_SizeBytes s" "Single (us_SizeBytes s)" "mn_get e (us_ObjectKey s) = None"
        | c where "n = us_SizeBytes s" "Single (us_SizeBytes s)" "mn_get e (us_ObjectKey s) = Some c" "mv_sha e c \<noteq> us_ContentHash s"
        | "verified e s" "n = us_SizeBytes s" "Single (us_SizeBytes s) \<Longrightarrow> MinIO_Hash e (us_ObjectKey s) = Some (us_ContentHash s)"
        using Some by (cases "mn_get e (us_ObjectKey s)") (auto simp: verified_def Single_iff MinIO_Hash_def)
      then show ?thesis
      proof cases
        case 1
        then have "refuted e s" using Some by (simp add: refuted_def)
        then show ?thesis using Inr joined Some 1 by (simp add: CompleteUpload_def) blast
      next
        case 2
        then show ?thesis using Inr joined Some by (simp add: CompleteUpload_def MinIO_Hash_def)
      next
        case 3
        then have "refuted e s" using Some by (simp add: refuted_def Single_iff)
        then show ?thesis using Inr joined Some 3 by (simp add: CompleteUpload_def MinIO_Hash_def) blast
      next
        case 4
        have eq: "CompleteUpload e u i etags st =
          (case (if mv_fails e McMark then None else Store_MarkComplete i (mv_now e + RefTTL) st) of
                None \<Rightarrow> (Inl Transient, [], st)
              | Some st1 \<Rightarrow> (Inr i, [EvUploaded (us_ObjectKey s)], drop_session e i st1))"
          using Inr joined Some 4(2,3) by (auto simp: CompleteUpload_def)
        show ?thesis using 4(1) Inr unfolding eq by (auto split: option.split)
      qed
    qed
  qed
qed

text \<open>A sweep removes rows of candidates and sessions, and changes nothing else.\<close>

lemma reclaim_frame:
  "md_Objects (snd (snd (reclaim e x st))) = md_Objects st"
  "md_Sessions (snd (snd (reclaim e x st))) i = Some y \<Longrightarrow> md_Sessions st i = Some y"
  by (auto simp: reclaim_def dest: drop_session_sub split: option.splits if_splits)

lemma gc_loop_frame:
  "set (md_Objects (snd (snd (gc_loop e cs st)))) \<subseteq> set (md_Objects st) \<and>
   (\<forall>x \<in> set (md_Objects st). mo_ID x \<notin> mo_ID ` set cs \<longrightarrow> x \<in> set (md_Objects (snd (snd (gc_loop e cs st))))) \<and>
   (\<forall>i y. md_Sessions (snd (snd (gc_loop e cs st))) i = Some y \<longrightarrow> md_Sessions st i = Some y) \<and>
   (tbl_wf mo_ID (md_Objects st) \<longrightarrow> tbl_wf mo_ID (md_Objects (snd (snd (gc_loop e cs st)))))"
proof (induction cs arbitrary: st)
  case (Cons c cs)
  obtain ok fx st1 where r: "reclaim e c st = (ok, fx, st1)" by (cases "reclaim e c st") auto
  have f: "md_Objects st1 = md_Objects st" "\<And>i y. md_Sessions st1 i = Some y \<Longrightarrow> md_Sessions st i = Some y"
    using reclaim_frame [of e c st] by (simp_all add: r)
  show ?case
  proof (cases "\<not> ok \<or> mv_fails e (McDelete (mo_ID c))")
    case True
    then show ?thesis using Cons [of st1] f by (auto simp: r split: prod.split)
  next
    case False
    note c = Cons [of "Store_DeleteObject (mo_ID c) st1"]
    have "snd (snd (gc_loop e (c # cs) st)) = snd (snd (gc_loop e cs (Store_DeleteObject (mo_ID c) st1)))"
      using False by (simp add: r split: prod.split)
    moreover have "tbl_wf mo_ID (md_Objects st) \<longrightarrow> tbl_wf mo_ID (md_Objects (Store_DeleteObject (mo_ID c) st1))"
      by (simp add: f(1) tbl_wf_del)
    ultimately show ?thesis using c f by auto
  qed
qed simp

section \<open>Rows and sessions after a request\<close>

definition fixed :: "media_object \<Rightarrow> string \<times> string \<times> int \<times> string \<times> string" where
  "fixed x = (mo_ID x, mo_ObjectKey x, mo_SizeBytes x, mo_ContentHash x, mo_UploaderID x)"

text \<open>The same object: its count and its time may differ.\<close>

definition same_object :: "media_object \<Rightarrow> media_object \<Rightarrow> bool" where
  "same_object y x \<longleftrightarrow> fixed x = fixed y \<and> mo_State x = mo_State y \<and> (0 \<le> mo_Refcount y \<longrightarrow> 0 \<le> mo_Refcount x)"

definition counts_only :: "media_st \<Rightarrow> media_st \<Rightarrow> bool" where
  "counts_only st st' \<longleftrightarrow> md_Sessions st' = md_Sessions st \<and>
     (\<exists>f. md_Objects st' = map f (md_Objects st) \<and> (\<forall>y. same_object y (f y)))"

lemma counts_refl: "md_Sessions st' = md_Sessions st \<Longrightarrow> md_Objects st' = md_Objects st \<Longrightarrow> counts_only st st'"
  unfolding counts_only_def by (intro conjI exI [of _ "\<lambda>x. x"]) (auto simp: same_object_def)

lemma counts_upd:
  "\<forall>y. same_object y (f y) \<Longrightarrow> counts_only st (st\<lparr>md_Objects := tbl_upd mo_ObjectKey k f (md_Objects st)\<rparr>)"
  unfolding counts_only_def tbl_upd_def
  by (intro conjI exI [of _ "\<lambda>r. if mo_ObjectKey r = k then f r else r"]) (auto simp: same_object_def)

lemma AddRef_counts: "counts_only st (snd (snd (Media_AddRef e k st)))"
  using counts_upd [of "\<lambda>r. r\<lparr>mo_Refcount := mo_Refcount r + 1\<rparr>" st k] counts_refl [of st st]
  by (auto simp: Media_AddRef_def Store_AddRef_def same_object_def fixed_def split: option.split)

lemma DecRef_counts: "counts_only st (snd (snd (Media_DecRef e k st)))"
proof -
  let ?f = "\<lambda>r. r\<lparr>mo_Refcount := max (mo_Refcount r - 1) 0,
    mo_ExpiresAt := (if mo_Refcount r - 1 \<le> 0 then Some (mv_dbnow e + Days30) else mo_ExpiresAt r)\<rparr>"
  have "counts_only st (st\<lparr>md_Objects := tbl_upd mo_ObjectKey k ?f (md_Objects st)\<rparr>)"
    by (rule counts_upd) (simp add: same_object_def fixed_def)
  then show ?thesis using counts_refl [of st st] by (simp add: Media_DecRef_def Store_DecRef_def split: option.split)
qed

lemma Seen_frame:
  "md_Sessions (snd (Deduper_Seen e i st)) = md_Sessions st" "md_Objects (snd (Deduper_Seen e i st)) = md_Objects st"
  by (simp_all add: Deduper_Seen_def split: option.split)

lemma Handle_counts: "counts_only st (snd (snd (Lifecycle_Handle e ev st)))"
proof (cases "le_Kind ev \<noteq> LifecycleDereference \<or> le_ObjectKey ev = [] \<or> le_EventID ev = []")
  case True
  then show ?thesis using counts_refl [of st st] DecRef_counts by (auto simp: Lifecycle_Handle_def)
next
  case False
  obtain b st1 where d: "Deduper_Seen e (le_EventID ev) st = (b, st1)" by fastforce
  have f: "md_Sessions st1 = md_Sessions st" "md_Objects st1 = md_Objects st" using Seen_frame [of e "le_EventID ev" st] by (simp_all add: d)
  have "counts_only st (snd (snd (Media_DecRef e (le_ObjectKey ev) st1)))"
    using DecRef_counts [of st1 e "le_ObjectKey ev"] by (simp add: counts_only_def f)
  then show ?thesis using False d f counts_refl [of st1 st] by (auto simp: Lifecycle_Handle_def split: option.split bool.split)
qed

lemma media_step_simp [simp]: "media_step st (e, r) = snd (media_handle e r st)"
  by (simp add: media_step_def)

text \<open>Where the rows of the state after a request come from.\<close>

lemma row_source:
  assumes x: "x \<in> set (md_Objects (media_step st (e, r)))"
  shows "(\<exists>y \<in> set (md_Objects st). same_object y x) \<or>
    (\<exists>u sz h. r = MqCreate u sz h \<and> x = new_row e u sz h \<and> 0 < sz \<and> sz \<le> MaxFileSize) \<or>
    (\<exists>u etags s. \<exists>y \<in> set (md_Objects st). r = MqComplete u (mo_ID x) etags \<and> fixed x = fixed y \<and> mo_State x = StateComplete \<and>
       mo_Refcount x = mo_Refcount y \<and> ownedSession e u (mo_ID x) st = Inr s \<and> verified e s)"
    (is "?old \<or> ?new \<or> ?complete")
proof -
  have counts: ?old if "counts_only st (media_step st (e, r))"
  proof -
    obtain f where "md_Objects (media_step st (e, r)) = map f (md_Objects st)" "\<forall>y. same_object y (f y)"
      using \<open>counts_only st (media_step st (e, r))\<close> unfolding counts_only_def by blast
    then show ?thesis using x by auto
  qed
  have same: ?old if "x \<in> set (md_Objects st)"
    using that by (auto simp: same_object_def)
  show ?thesis
  proof (cases r)
    case (MqCreate u sz h)
    have "x \<in> set (md_Objects st) \<or> x = new_row e u sz h" if "Store_CreatePending (new_row e u sz h) st = Some st1" "x \<in> set (md_Objects st1)" for st1
      using that by (auto simp: Store_CreatePending_def tbl_ins_Some new_row_def split: if_splits)
    then show ?thesis using create_cases [of e u sz h st] x MqCreate same by auto
  next
    case (MqComplete u i etags)
    have "?old \<or> ?complete" if own: "ownedSession e u i st = Inr s" "verified e s" and mark: "Store_MarkComplete i t st = Some st1" "x \<in> set (md_Objects st1)" for s t st1
    proof -
      obtain y where y: "y \<in> set (md_Objects st)" "x = y \<or> mo_ID y = i \<and> x = y\<lparr>mo_State := 1, mo_ExpiresAt := Some t\<rparr>"
        using mark by (auto simp: Store_MarkComplete_def tbl_upd_def split: if_splits)
      from y(2) show ?thesis
      proof
        assume "mo_ID y = i \<and> x = y\<lparr>mo_State := 1, mo_ExpiresAt := Some t\<rparr>"
        then have "?complete"
          using MqComplete own y(1) by (intro exI [of _ u] exI [of _ etags] exI [of _ s] bexI [of _ y]) (auto simp: fixed_def StateComplete_def)
        then show ?thesis ..
      qed (use y(1) same in blast)
    qed
    note marked = this
    from complete_cases [of e u i etags st] show ?thesis
    proof (elim disjE exE conjE)
      assume "snd (snd (CompleteUpload e u i etags st)) = st"
      then show ?thesis using x MqComplete same by simp
    next
      fix s code
      assume "snd (snd (CompleteUpload e u i etags st)) = snd (snd (rejectAndCleanup e s code st))"
      then have "x \<in> set (md_Objects st)" using x MqComplete by (simp add: rejectAndCleanup_def Let_def split: if_splits)
      then show ?thesis using same by blast
    next
      fix s st1
      assume "ownedSession e u i st = Inr s" "verified e s" "Store_MarkComplete i (mv_now e + RefTTL) st = Some st1"
        "snd (snd (CompleteUpload e u i etags st)) = drop_session e i st1"
      then show ?thesis using marked [of s "mv_now e + RefTTL" st1] x MqComplete by simp
    qed
  next
    case (MqSweep n)
    then show ?thesis using x same gc_loop_frame [of e "Store_SweepCandidates (mv_now e) n st" st]
      by (auto simp: GC_Sweep_def split: if_splits prod.splits)
  qed (use counts AddRef_counts DecRef_counts Handle_counts in simp_all)
qed

lemma session_source:
  assumes "md_Sessions (media_step st (e, r)) i = Some y"
  shows "md_Sessions st i = Some y \<or> (\<exists>u sz h handle t. r = MqCreate u sz h \<and> i = mv_id e \<and> y = (new_session e u sz h handle, t))"
proof (cases r)
  case (MqCreate u sz h)
  have "md_Sessions st1 = md_Sessions st" if "Store_CreatePending o' st = Some st1" for o' st1
    using that by (auto simp: Store_CreatePending_def split: if_splits)
  then show ?thesis using create_cases [of e u sz h st] assms MqCreate by (auto simp: Sessions_Save_def new_session_def split: if_splits)
next
  case (MqComplete u j etags)
  have "md_Sessions st1 = md_Sessions st" if "Store_MarkComplete j t st = Some st1" for t st1
    using that by (auto simp: Store_MarkComplete_def split: if_splits)
  then show ?thesis using complete_cases [of e u j etags st] assms MqComplete
    by (auto simp: rejectAndCleanup_def Let_def dest!: drop_session_sub split: if_splits)
next
  case (MqSweep n)
  then show ?thesis using assms gc_loop_frame [of e "Store_SweepCandidates (mv_now e) n st" st]
    by (cases y) (auto simp: GC_Sweep_def split: if_splits prod.splits)
qed (use assms AddRef_counts DecRef_counts Handle_counts in \<open>simp_all add: counts_only_def\<close>)


section \<open>Complete objects\<close>

text \<open>The ids that the creations of a history draw.\<close>

fun created_ids :: "(media_env \<times> media_req) list \<Rightarrow> string list" where
  "created_ids [] = []"
| "created_ids ((e, MqCreate u sz h) # ops) = mv_id e # created_ids ops"
| "created_ids (_ # ops) = created_ids ops"

lemma created_ids_append: "created_ids (xs @ ys) = created_ids xs @ created_ids ys"
  by (induction xs rule: created_ids.induct) auto

definition completed :: "(media_env \<times> media_req) list \<Rightarrow> media_object \<Rightarrow> bool" where
  "completed ops x \<longleftrightarrow> (\<exists>e etags. (e, MqComplete (mo_UploaderID x) (mo_ID x) etags) \<in> set ops \<and>
     mn_stat e (mo_ObjectKey x) = Some (mo_SizeBytes x) \<and>
     (mo_SizeBytes x \<le> PartSize \<longrightarrow> (\<exists>c. mn_get e (mo_ObjectKey x) = Some c \<and> mv_sha e c = mo_ContentHash x)))"

definition row_ok :: "(media_env \<times> media_req) list \<Rightarrow> media_object \<Rightarrow> bool" where
  "row_ok ops x \<longleftrightarrow> mo_ID x \<in> set (created_ids ops) \<and> mo_ObjectKey x = mo_UploaderID x @ ''/'' @ mo_ID x \<and>
     0 < mo_SizeBytes x \<and> mo_SizeBytes x \<le> MaxFileSize \<and> 0 \<le> mo_Refcount x \<and>
     (mo_State x = StatePending \<or> mo_State x = StateComplete \<and> completed ops x)"

definition fits :: "upload_session \<Rightarrow> media_object \<Rightarrow> bool" where
  "fits s x \<longleftrightarrow> us_ObjectKey s = mo_ObjectKey x \<and> us_SizeBytes s = mo_SizeBytes x \<and> us_ContentHash s = mo_ContentHash x \<and>
     us_UploaderID s = mo_UploaderID x"

definition media_ok :: "(media_env \<times> media_req) list \<Rightarrow> media_st \<Rightarrow> bool" where
  "media_ok ops st \<longleftrightarrow> (\<forall>x \<in> set (md_Objects st). row_ok ops x) \<and>
     (\<forall>i s t. md_Sessions st i = Some (s, t) \<longrightarrow> i \<in> set (created_ids ops) \<and> (\<forall>x \<in> set (md_Objects st). mo_ID x = i \<longrightarrow> fits s x))"

lemma completed_mono: "completed ops x \<Longrightarrow> fixed y = fixed x \<Longrightarrow> completed (ops @ ops') y"
  by (auto simp: completed_def fixed_def)

lemma row_ok_mono:
  assumes "row_ok ops y" "same_object y x"
  shows "row_ok (ops @ ops') x"
  using assms completed_mono [of ops y x ops'] by (auto simp: row_ok_def same_object_def fixed_def created_ids_append)

lemma media_ok_step:
  assumes ok: "media_ok ops st" and fresh: "distinct (created_ids (ops @ [(e, r)]))"
  shows "media_ok (ops @ [(e, r)]) (media_step st (e, r))"
proof -
  let ?st = "media_step st (e, r)" and ?ops = "ops @ [(e, r)]"
  have rows: "row_ok ops x" if "x \<in> set (md_Objects st)" for x using ok that by (simp add: media_ok_def)
  have sess: "i \<in> set (created_ids ops)" "x \<in> set (md_Objects st) \<Longrightarrow> mo_ID x = i \<Longrightarrow> fits s x" if "md_Sessions st i = Some (s, t)" for i s t x
    using ok that by (auto simp: media_ok_def)
  have new: "mv_id e \<notin> set (created_ids ops)" "mv_id e \<in> set (created_ids ?ops)" if "r = MqCreate u sz h" for u sz h
    using fresh that by (auto simp: created_ids_append)
  have "row_ok ?ops x" if "x \<in> set (md_Objects ?st)" for x
    using row_source [OF that]
  proof (elim disjE)
    assume "\<exists>y \<in> set (md_Objects st). same_object y x"
    then show ?thesis using rows row_ok_mono by blast
  next
    assume "\<exists>u sz h. r = MqCreate u sz h \<and> x = new_row e u sz h \<and> 0 < sz \<and> sz \<le> MaxFileSize"
    then show ?thesis using new(2) by (auto simp: row_ok_def new_row_def)
  next
    assume "\<exists>u etags s. \<exists>y \<in> set (md_Objects st). r = MqComplete u (mo_ID x) etags \<and> fixed x = fixed y \<and> mo_State x = StateComplete \<and>
       mo_Refcount x = mo_Refcount y \<and> ownedSession e u (mo_ID x) st = Inr s \<and> verified e s"
    then obtain u etags s y where y: "y \<in> set (md_Objects st)" "r = MqComplete u (mo_ID x) etags" "fixed x = fixed y"
      "mo_State x = StateComplete" "mo_Refcount x = mo_Refcount y" "ownedSession e u (mo_ID x) st = Inr s" "verified e s" by blast
    obtain t where s: "md_Sessions st (mo_ID x) = Some (s, t)" "us_UploaderID s = u" using ownedSession_Inr [OF y(6)] by blast
    have "fits s y" using sess(2) [OF s(1) y(1)] y(3) by (simp add: fixed_def)
    then have "completed ?ops x" using y(2,3,7) s(2) by (auto simp: completed_def verified_def fits_def fixed_def)
    then show ?thesis using rows [OF y(1)] y(3-5) by (auto simp: row_ok_def fixed_def created_ids_append)
  qed
  moreover have "i \<in> set (created_ids ?ops) \<and> (\<forall>x \<in> set (md_Objects ?st). mo_ID x = i \<longrightarrow> fits s x)" if "md_Sessions ?st i = Some (s, t)" for i s t
    using session_source [OF that]
  proof
    assume old: "md_Sessions st i = Some (s, t)"
    have "fits s x" if "x \<in> set (md_Objects ?st)" "mo_ID x = i" for x
      using row_source [OF that(1)] sess [OF old] new(1) that(2) by (fastforce simp: same_object_def fits_def fixed_def new_row_def)
    then show ?thesis using sess(1) [OF old] by (simp add: created_ids_append)
  next
    assume "\<exists>u sz h handle t'. r = MqCreate u sz h \<and> i = mv_id e \<and> (s, t) = (new_session e u sz h handle, t')"
    then obtain u sz h handle where c: "r = MqCreate u sz h" "i = mv_id e" "s = new_session e u sz h handle" by blast
    have "fits s x" if x: "x \<in> set (md_Objects ?st)" "mo_ID x = i" for x
    proof -
      have "x = new_row e u sz h \<or> (\<exists>y \<in> set (md_Objects st). same_object y x)" using row_source [OF x(1)] c(1) by auto
      moreover have False if "y \<in> set (md_Objects st)" "same_object y x" for y
        using rows [OF that(1)] that(2) x(2) c(2) new(1) [OF c(1)] by (simp add: row_ok_def same_object_def fixed_def)
      ultimately show ?thesis by (auto simp: c(3) fits_def new_session_def new_row_def)
    qed
    then show ?thesis using new(2) [OF c(1)] c(2) by simp
  qed
  ultimately show ?thesis unfolding media_ok_def by blast
qed

lemma media_ok_run: "distinct (created_ids ops) \<Longrightarrow> media_ok ops (run media_step empty_media ops)"
proof (induction ops rule: rev_induct)
  case Nil
  then show ?case by (simp add: media_ok_def empty_media_def)
next
  case (snoc x xs)
  obtain e r where x: "x = (e, r)" by fastforce
  have "distinct (created_ids xs)" using snoc.prems by (simp add: created_ids_append)
  then show ?case using media_ok_step [OF snoc.IH] snoc.prems by (simp add: run_append x del: media_step_simp)
qed

text \<open>
C19. A complete object is what its uploader announced: after any requests, sweeps and failures, with upload ids that are drawn
once, every object has between 1 byte and 25 MB, its key starts with its uploader, its count is not negative, and if it is
complete then its uploader completed it when the store reported the announced size and, up to one part, bytes with the
announced hash. A download link is only given for such an object.
\<close>

theorem complete_objects_verified:
  assumes "distinct (created_ids ops)" "st = run media_step empty_media ops"
  shows "(\<forall>x \<in> set (md_Objects st). mo_ObjectKey x = mo_UploaderID x @ ''/'' @ mo_ID x \<and> 0 < mo_SizeBytes x \<and> mo_SizeBytes x \<le> MaxFileSize \<and>
      0 \<le> mo_Refcount x \<and> (mo_State x = StateComplete \<longrightarrow> completed ops x)) \<and>
    (\<forall>e u keys links d. DownloadURLs e u keys st = Inr links \<longrightarrow> d \<in> set links \<longrightarrow>
      (\<exists>x \<in> set (md_Objects st). mo_ObjectKey x = du_Key d \<and> du_Key d \<in> set keys \<and> mo_State x = StateComplete \<and> du_SizeBytes d = mo_SizeBytes x))"
proof -
  have "media_ok ops st" using media_ok_run assms by blast
  moreover have "\<exists>x \<in> set (md_Objects st). mo_ObjectKey x = du_Key d \<and> du_Key d \<in> set keys \<and> mo_State x = StateComplete \<and> du_SizeBytes d = mo_SizeBytes x"
    if "download_urls e st keys = Inr links" "d \<in> set links" for e keys links d
    using that
  proof (induction keys arbitrary: links)
    case (Cons k ks)
    then show ?case
      by (auto simp: Store_GetByKey_def dest!: tbl_get_Some split: option.splits if_splits sum.splits) blast+
  qed simp
  moreover have "StatePending \<noteq> StateComplete" by (simp add: StatePending_def StateComplete_def)
  ultimately show ?thesis unfolding media_ok_def row_ok_def DownloadURLs_def by metis
qed

section \<open>Removal\<close>




section \<open>Parts\<close>

text \<open>Division by the part size, in a form that linear arithmetic can use.\<close>

lemma part_division:
  obtains m where "n = n div PartSize * 8388608 + m" "0 \<le> m" "m < 8388608"
  using that [of "n mod PartSize"] div_mult_mod_eq [of n PartSize] by (simp add: PartSize_def)

lemma NumParts_bounds: "0 < sz \<Longrightarrow> (NumParts sz - 1) * 8388608 < sz \<and> sz \<le> NumParts sz * 8388608"
proof -
  assume sz: "0 < sz"
  obtain m where m: "sz + PartSize - 1 = (sz + PartSize - 1) div PartSize * 8388608 + m" "0 \<le> m" "m < 8388608" by (rule part_division)
  have "NumParts sz = (sz + PartSize - 1) div PartSize" using sz by (simp add: NumParts_def)
  then have "sz + 8388607 = NumParts sz * 8388608 + m" using m(1) by (simp add: PartSize_def)
  then show ?thesis using m(2,3) by simp
qed

lemma PartByteRange_simp: "PartByteRange sz i = (i * 8388608, min sz (i * 8388608 + 8388608))"
  by (simp add: PartByteRange_def PartSize_def Let_def min_def)

text \<open>
The parts of an accepted file cover it: there are one to four of them, none is empty or longer than a part, and every byte of
the file lies in exactly one.
\<close>

theorem parts_cover_file:
  assumes "Media_ValidateCreate sz = None"
  shows "1 \<le> NumParts sz \<and> NumParts sz \<le> 4 \<and>
    (\<forall>i. 0 \<le> i \<and> i < NumParts sz \<longrightarrow> (case PartByteRange sz i of (a, b) \<Rightarrow> a < b \<and> b - a \<le> PartSize \<and> b \<le> sz)) \<and>
    (\<forall>n. 0 \<le> n \<and> n < sz \<longrightarrow> (\<exists>!i. 0 \<le> i \<and> i < NumParts sz \<and> fst (PartByteRange sz i) \<le> n \<and> n < snd (PartByteRange sz i)))"
proof -
  have sz: "0 < sz" "sz \<le> 25 * 1024 * 1024" using assms by (auto simp: Media_ValidateCreate_def MaxFileSize_def split: if_splits)
  note np = NumParts_bounds [OF sz(1)]
  have n4: "1 \<le> NumParts sz" "NumParts sz \<le> 4" using np sz by auto
  have range: "case PartByteRange sz i of (a, b) \<Rightarrow> a < b \<and> b - a \<le> PartSize \<and> b \<le> sz" if "0 \<le> i" "i < NumParts sz" for i
    using that np by (simp add: PartByteRange_simp PartSize_def)
  have uniq: "\<exists>!i. 0 \<le> i \<and> i < NumParts sz \<and> fst (PartByteRange sz i) \<le> n \<and> n < snd (PartByteRange sz i)" if n: "0 \<le> n" "n < sz" for n
  proof -
    obtain m where m: "n = n div PartSize * 8388608 + m" "0 \<le> m" "m < 8388608" by (rule part_division)
    define q where "q = n div PartSize"
    have q: "q * 8388608 \<le> n" "n < q * 8388608 + 8388608" using m unfolding q_def by linarith+
    have "0 \<le> q" "q < NumParts sz" using q n np by linarith+
    moreover have "i = q" if "i * 8388608 \<le> n" "n < i * 8388608 + 8388608" for i using that q by linarith
    ultimately show ?thesis using q n unfolding PartByteRange_simp fst_conv snd_conv min_less_iff_conj by blast
  qed
  show ?thesis by (intro conjI allI impI n4 range uniq) auto
qed

section \<open>Tokens of the edge cache\<close>

definition value10 :: "string \<Rightarrow> nat" where
  "value10 s = foldl (\<lambda>n c. n * 10 + (byte c - 48)) 0 s"

lemma digits10_value: "value10 (digits10 n) = n"
proof (induction n rule: digits10.induct)
  case (1 n)
  have b: "byte (char_of (48 + n mod 10) :: char) - 48 = n mod 10" 
  proof -
    have "n mod 10 < 10" by simp
    then have "(48 + n mod 10) mod 256 = 48 + n mod 10" by (intro mod_less) linarith
    then show ?thesis by simp
  qed
  show ?case
  proof (cases "n < 10")
    case True
    then show ?thesis using b by (simp add: digits10.simps [of n] value10_def)
  next
    case False
    then have "value10 (digits10 n) = value10 (digits10 (n div 10)) * 10 + (byte (char_of (48 + n mod 10) :: char) - 48)"
      by (simp add: digits10.simps [of n] value10_def)
    then show ?thesis using 1 [OF False] b by simp
  qed
qed

lemma digits10_inj: "digits10 m = digits10 n \<Longrightarrow> m = n"
  by (metis digits10_value)

lemma digits10_chars: "c \<in> set (digits10 n) \<Longrightarrow> 48 \<le> byte c"
proof (induction n rule: digits10.induct)
  case (1 n)
  have m: "(48 + k) mod 256 = 48 + k" if "k < 10" for k :: nat using that by (intro mod_less) linarith
  show ?case
  proof (cases "n < 10")
    case True
    then show ?thesis using "1.prems" m [of n] by (simp add: digits10.simps [of n])
  next
    case False
    then show ?thesis using 1 m [of "n mod 10"] by (auto simp: digits10.simps [of n])
  qed
qed

lemma digits10_nonempty: "digits10 n \<noteq> []"
  by (simp add: digits10.simps [of n])

lemma FormatInt_inj:
  assumes "FormatInt i = FormatInt j"
  shows "i = j"
proof -
  have minus: "digits10 n \<noteq> CHR ''-'' # s" for n s using digits10_chars [of "CHR ''-''" n] by fastforce
  consider "i < 0" "j < 0" | "0 \<le> i" "0 \<le> j" | "i < 0" "0 \<le> j" | "0 \<le> i" "j < 0" by linarith
  then show ?thesis
  proof cases
    case 1
    then have "nat (- i) = nat (- j)" using assms by (auto simp: FormatInt_def intro: digits10_inj)
    then show ?thesis using 1 by linarith
  next
    case 2
    then have "nat i = nat j" using assms by (auto simp: FormatInt_def intro: digits10_inj)
    then show ?thesis using 2 by linarith
  next
    case 3
    then show ?thesis using assms minus by (simp add: FormatInt_def) metis
  next
    case 4
    then show ?thesis using assms minus by (simp add: FormatInt_def)
  qed
qed

lemma FormatInt_line: "newline \<notin> set (FormatInt i)"
proof -
  have "byte newline = 10" by (simp add: newline_def)
  then have "newline \<notin> set (digits10 n)" for n using digits10_chars [of newline n] by auto
  moreover have "newline \<noteq> CHR ''-''" by (simp add: newline_def char_of_def)
  ultimately show ?thesis by (simp add: FormatInt_def)
qed

lemma split_last_line:
  assumes "a @ [c] @ x = b @ [c] @ y" "c \<notin> set x" "c \<notin> set y"
  shows "a = b \<and> x = y"
proof -
  have "rev x @ c # rev a = rev y @ c # rev b" using arg_cong [OF assms(1), of rev] by simp
  moreover have "takeWhile (\<lambda>d. d \<noteq> c) (rev x @ c # rev a) = rev x" "takeWhile (\<lambda>d. d \<noteq> c) (rev y @ c # rev b) = rev y"
    using assms(2,3) by (subst takeWhile_append2, auto)+
  ultimately show ?thesis by auto
qed

text \<open>
A token stands for one object and one time: where the MAC does not collide on the two signed strings, a token that was signed
for a key and a time is accepted for a key and a time exactly if they are the same and the time has not come.
\<close>

theorem cdn_token_binds:
  assumes "hmac secret (key' @ [newline] @ FormatInt exp') = hmac secret (key @ [newline] @ FormatInt exp) \<Longrightarrow>
      key' @ [newline] @ FormatInt exp' = key @ [newline] @ FormatInt exp"
    and "SignCDNToken hmac secret key' exp' \<noteq> []"
  shows "VerifyCDNToken hmac secret key exp now (SignCDNToken hmac secret key' exp') = None \<longleftrightarrow> key' = key \<and> exp' = exp \<and> now < exp"
proof -
  have inj: "RawURL_Encode a = RawURL_Encode b \<Longrightarrow> a = b" for a b using RawURL_roundtrip by (metis option.inject)
  have "SignCDNToken hmac secret key exp = SignCDNToken hmac secret key' exp' \<longleftrightarrow> key' = key \<and> exp' = exp"
  proof
    assume "SignCDNToken hmac secret key exp = SignCDNToken hmac secret key' exp'"
    then have "key' @ [newline] @ FormatInt exp' = key @ [newline] @ FormatInt exp" using assms(1) inj unfolding SignCDNToken_def by metis
    from split_last_line [OF this FormatInt_line FormatInt_line] show "key' = key \<and> exp' = exp" using FormatInt_inj by blast
  qed simp
  then show ?thesis using assms(2) by (auto simp: VerifyCDNToken_def)
qed

section \<open>Findings\<close>

text \<open>When the table cannot be read, a request for download links succeeds without links.\<close>

lemma outage_hides_objects: "(\<And>k. k \<in> set keys \<Longrightarrow> mv_fails e (McGetByKey k)) \<Longrightarrow> DownloadURLs e u keys st = Inr []"
  unfolding DownloadURLs_def by (induction keys) auto

text \<open>A reference that is added after the sweep has read its candidates does not keep the object.\<close>

lemma sweep_ignores_new_reference:
  assumes "mo_State x = StateComplete" "mn_remove e (mo_ObjectKey x)" "\<not> mv_fails e (McDelete (mo_ID x))"
    "tbl_get mo_ObjectKey k (md_Objects st) = Some x" "mo_Refcount x = 0" "\<not> mv_fails e' McAdd" "x \<in> set (Store_SweepCandidates (mv_now e) n st)"
  shows "fst (Media_AddRef e' k st) = Inr () \<and>
    mo_ID x \<notin> mo_ID ` set (md_Objects (snd (snd (gc_loop e [x] (snd (snd (Media_AddRef e' k st)))))))"
  using assms by (auto simp: Media_AddRef_def Store_AddRef_def MaxInt32_def reclaim_def StateComplete_def StatePending_def)

text \<open>A command whose decrement fails is reported for redelivery, but the redelivery is taken for a duplicate.\<close>

lemma redelivery_dropped:
  assumes "le_Kind ev = LifecycleDereference" "le_ObjectKey ev \<noteq> []" "le_EventID ev \<noteq> []" "md_Seen st (le_EventID ev) = None"
    "\<not> mv_fails e McSeen" "mv_fails e McDec" "\<not> mv_fails e' McSeen" "mv_now e' < mv_now e + dedupe_ttl"
  shows "fst (Lifecycle_Handle e ev st) = Inl Transient \<and>
    Lifecycle_Handle e' ev (snd (snd (Lifecycle_Handle e ev st))) = (Inr (), [], snd (snd (Lifecycle_Handle e ev st))) \<and>
    md_Objects (snd (snd (Lifecycle_Handle e ev st))) = md_Objects st"
  using assms by (simp add: Lifecycle_Handle_def Deduper_Seen_def Media_DecRef_def)

text \<open>
When the row cannot be marked after the parts were joined, the client is told to retry; since the parts can be joined only
once, every retry is rejected.
\<close>

lemma lost_mark_blocks_upload:
  assumes "ownedSession e u i st = Inr s" "mn_complete e (us_ObjectKey s) (us_Handle s) etags" "verified e s" "mv_fails e McMark"
    "ownedSession e' u i st = Inr s" "\<not> mn_complete e' (us_ObjectKey s) (us_Handle s) etags"
  shows "CompleteUpload e u i etags st = (Inl Transient, [], st) \<and> CompleteUpload e' u i etags st = (Inl (Reject 400 ''VALIDATION_PARTS''), [], st)"
  using assms by (auto simp: CompleteUpload_def verified_def Single_iff MinIO_Hash_def)

section \<open>Witnesses\<close>

definition media_e :: media_env where
  "media_e = \<lparr>mv_now = 0, mv_dbnow = 0, mv_id = ''i'', mv_fails = (\<lambda>_. False), mv_rate = Some True, mv_quota = Some True, mv_sha = (\<lambda>c. c),
     mn_new = (\<lambda>_. Some ''h''), mn_put = (\<lambda>_ _ _. Some ''url''), mn_complete = (\<lambda>_ _ _. True), mn_stat = (\<lambda>_. Some 3),
     mn_get = (\<lambda>_. Some ''abc''), mn_abort = (\<lambda>_ _. True), mn_remove = (\<lambda>_. True), mv_url = (\<lambda>k. Some k), mv_cacheable = False\<rparr>"

definition media_ops :: "(media_env \<times> media_req) list" where
  "media_ops = [(media_e, MqCreate ''ann'' 3 ''abc''), (media_e, MqComplete ''ann'' ''i'' [])]"

lemmas media_eval = media_e_def media_ops_def empty_media_def CreateUpload_def Media_ValidateCreate_def MaxFileSize_def StartUpload_def NumParts_def
  PartSize_def Store_CreatePending_def tbl_ins_def Sessions_Save_def PendingTTL_def CompleteUpload_def ownedSession_def Sessions_Load_def
  Single_iff MinIO_Hash_def Store_MarkComplete_def tbl_upd_def drop_session_def Sessions_Delete_def time_units StatePending_def StateComplete_def
  Let_def

lemma media_ops_rows:
  "md_Objects (run media_step empty_media media_ops) =
    [\<lparr>mo_ID = ''i'', mo_ObjectKey = ''ann/i'', mo_SizeBytes = 3, mo_ContentHash = ''abc'', mo_UploaderID = ''ann'', mo_Refcount = 0, mo_State = 1,
      mo_CreatedAt = 0, mo_ExpiresAt = Some RefTTL\<rparr>]"
  by (simp add: media_eval)

lemma complete_objects_verified_witness:
  "\<exists>x \<in> set (md_Objects (run media_step empty_media media_ops)). mo_State x = StateComplete \<and> completed media_ops x"
proof -
  have "distinct (created_ids media_ops)" by (simp add: media_ops_def)
  from conjunct1 [OF complete_objects_verified [OF this refl]] show ?thesis by (simp add: media_ops_rows StateComplete_def)
qed


lemma parts_cover_file_witness: "NumParts (9 * 1024 * 1024) \<le> 4 \<and> NumParts (9 * 1024 * 1024) = 2"
  using parts_cover_file [of "9 * 1024 * 1024"] by (simp add: Media_ValidateCreate_def MaxFileSize_def NumParts_def PartSize_def)

end
