(* ===== verification/Spec2Isabelle.thy ===== *)
theory Spec2Isabelle
  imports PaymentProps PttProps CallProps GroupProps ChatProps RateLimitProps FanOutProps AuthProps ServerProps GatewayProps
    PresenceProps KeysProps ChannelProps NotifyProps PollProps ContactProps StoryProps CommunityProps DeviceAuthProps BreakoutProps MediaProps
begin

text \<open>
  A verification library for the WhatsApp-V2 server (\<^verbatim>\<open>src/server\<close>, written in Go).

  \<^bold>\<open>The program.\<close> Four processes. \<^verbatim>\<open>core-api\<close> serves the REST and gRPC operations of about thirty components over one
  PostgreSQL database, with Valkey for rate limits, caches, presence and de-duplication, and NATS JetStream for events.
  \<^verbatim>\<open>ws-gateway\<close> keeps the WebSocket connections of devices, replays their inboxes and delivers live messages.
  \<^verbatim>\<open>notification-svc\<close> sends push notifications, \<^verbatim>\<open>media-svc\<close> signs uploads and downloads. A message of a device is accepted by
  chat (\<open>Accept\<close>): its id is claimed, the next number of the conversation is taken, and one inbox row per device of each member
  is written in a transaction. Groups keep the members of group conversations; authentication and devices keep the devices.
  The gateway pulls the inbox and deletes rows when the device acknowledges them. The components meet in the database, and
  \<open>Server\<close> composes those that share tables.

  \<^bold>\<open>Theories and sources.\<close> \<open>Prelude\<close>, \<open>GoStrings\<close>, \<open>GoCodec\<close> and \<open>Paging\<close> hold what the components share: instants and durations,
  the wire errors of \<^verbatim>\<open>platform/httpx\<close>, tables as lists of rows with a key, Go's string functions, base64 and JSON numbers,
  and keyset paging. \<open>Contracts\<close> has the interfaces as locales (status machines, handlers that keep an invariant, keyed stores),
  which the components interpret; \<open>PttService\<close> adds fenced floors and \<open>RateLimit\<close> meters. Each component under
  \<^verbatim>\<open>src/server/internal\<close> has a theory for its domain and store, one for its service, and one ending in \<open>Props\<close> with its properties:

    \<^item> \<^verbatim>\<open>payments\<close>: \<open>PaymentDomain\<close>, \<open>PaymentStore\<close>, \<open>PaymentService\<close>. Webhooks settle payments and grant subscriptions; no card
      data is stored; the tables stay within their schema.
    \<^item> \<^verbatim>\<open>ptt\<close>: \<open>PttFloor\<close>, \<open>PttService\<close>. At most one speaker per room, waiting devices reach the floor, and the Lua script
      refines the algorithm.
    \<^item> \<^verbatim>\<open>calls\<close>: \<open>CallDomain\<close>, \<open>CallService\<close>. A ring is answered once and its life follows the state machine; the sweep
      marks missed calls; join tokens and webhook signatures.
    \<^item> \<^verbatim>\<open>groups\<close>: \<open>GroupStore\<close>, \<open>GroupService\<close>, \<open>GroupInv\<close>, \<open>GroupCache\<close>. One owner, the member cap, roles, the mirror of
      members into conversations, and a membership cache that is current.
    \<^item> \<^verbatim>\<open>chat\<close>: \<open>ChatStore\<close>, \<open>ChatService\<close>, \<open>ChatInv\<close>, \<open>ChatRun\<close>. One transaction per message id under concurrency, order,
      delivery until acknowledgement, complete replay, private receipts.
    \<^item> \<^verbatim>\<open>platform/ratelimit\<close>: \<open>RateLimit\<close>. The bound on admissions in any window; Valkey script and memory agree.
    \<^item> \<^verbatim>\<open>fanout\<close>: \<open>FanOutWorker\<close>. Coverage in spite of failed batches and retries.
    \<^item> \<^verbatim>\<open>auth\<close>, \<^verbatim>\<open>devices\<close>: \<open>AuthDomain\<close>, \<open>AuthStore\<close>, \<open>AuthService\<close>, \<open>AuthInv\<close>. Codes are used once, guesses are bounded,
      reuse of a refresh token ends the session, the device limit.
    \<^item> \<^verbatim>\<open>gateway\<close>: \<open>GatewayConn\<close>, \<open>GatewayReplay\<close>, \<open>GatewayRoutes\<close>, \<open>GatewayPods\<close>. What a reconnecting device receives and in
      which order; one connection per device over several pods.
    \<^item> \<^verbatim>\<open>presence\<close>: \<open>Presence\<close>, \<open>PresenceFeeds\<close>, \<open>PresenceFlap\<close>. Who is shown online, and when a departure is announced.
    \<^item> \<^verbatim>\<open>keys\<close>: \<open>Keys\<close>. A one-time prekey is handed out once over any interleaving of transactions; what a fetch returns.
    \<^item> \<^verbatim>\<open>channels\<close>: \<open>ChannelStore\<close>, \<open>ChannelService\<close>, \<open>ChannelInv\<close>. Consistency, private channels, schedules, paid posts.
    \<^item> \<^verbatim>\<open>notify\<close>: \<open>Notify\<close>. How deliveries are settled, the circuit breaker, and how dispatches are lost.
    \<^item> \<^verbatim>\<open>polls\<close>: \<open>Polls\<close>. Results are those of the last ballots; overlapping votes.
    \<^item> \<^verbatim>\<open>contacts\<close>: \<open>Contacts\<close>. Discovery is exact and stores hashes only.
    \<^item> \<^verbatim>\<open>stories\<close>: \<open>Stories\<close>. A feed is exactly what was posted to its reader in the last day.
    \<^item> \<^verbatim>\<open>communities\<close>: \<open>Communities\<close>. Who can change a membership; ownerless communities after a failure.
    \<^item> \<^verbatim>\<open>deviceauth\<close>: \<open>DeviceAuth\<close>. What a passkey login proves, and that cloned authenticators are refused.
    \<^item> \<open>Breakout\<close>, \<open>BreakoutProps\<close> (\<^verbatim>\<open>breakout/\<close>): live sessions with breakout rooms, outgoing streams and consent to
      recording. A join token is for the main room or for the open room the host assigned, and the streams that run are those on record.
    \<^item> \<open>Media\<close>, \<open>MediaProps\<close> (\<^verbatim>\<open>media/\<close>): uploads, reference counts, garbage collection, lifecycle commands, edge tokens and sticker
      packs. A complete object is what its uploader announced, nothing in use is removed, parts cover a file, a token binds key and time.
    \<^item> \<open>Server\<close>, \<open>ServerProps\<close>: groups, chat, authentication and devices over one database. A group message reaches exactly the
      devices of the members, and a revoked device hears nothing more.

  \<^bold>\<open>Conventions.\<close> A Go function is a definition with its name, prefixed where two components use the same one. Time is an \<open>int\<close>
  of nanoseconds (milliseconds in presence and routes), taken from the request's environment; strings are byte lists. A table
  is a list of rows in insertion order; a statement that violates a key or a foreign key fails. Every call of the database, of
  Valkey or of another service can fail: a flag of the environment, over which the theorems quantify. Errors are values of
  \<open>api_error\<close>. Ids and random bytes are arguments. One SQL statement, one transaction under its row locks and one Lua script are
  atomic steps; where the code has several of them and a property depends on their interleaving (accepting a message, prekey
  bundles, votes, connections over pods) the steps are separate. Machine integers have their width where it matters (sign counts,
  hashes); \<^verbatim>\<open>float64\<close> rates are rationals rounded by \<open>round64\<close>. Cryptography, JWT and JSON libraries, \<^verbatim>\<open>ILIKE\<close>, trigram
  similarity and collations are parameters. \<^verbatim>\<open>ORDER BY\<close> keeps insertion order on ties.

  \<^bold>\<open>Loops.\<close> All recursion is structural or has a measure, but for two loops. The replay loop of the inbox is a
  \<open>partial_function (option)\<close>, and \<open>replay_complete\<close> shows that it returns; a client that follows cursors is given fuel, and
  the paging lemmas show that one unit per row is enough. A message that JetStream redelivers is handled at most \<^verbatim>\<open>MaxDeliver\<close> times.

  \<^bold>\<open>Not modelled.\<close> The HTTP, gRPC and NATS adapters, which decode a request, call the service and encode its answer; process
  wiring, configuration, logging, metrics and tracing; the clients in other languages, deployment and documentation. Of the
  components with logic of their own: admin, collaboration documents, webinars, notification preferences, disappearing-message timers, bots, profiles, discovery, analytics, backups, whiteboards, abuse reports and feature flags. The modelled components read none of their tables; the read-receipt setting a profile writes is part
  of the tables of chat.
\<close>

end
